(* ===== verification/Nl2data_Prelude.thy ===== *)
theory Nl2data_Prelude
  imports Complex_Main "HOL-Library.AList" "HOL-Library.Finite_Map" "HOL-Library.Char_ord"
    "HOL-Library.List_Lexorder" "HOL-Library.Product_Lexorder" "HOL-Library.Sublist"
begin

text \<open>
  Shared vocabulary of the development.

  Python strings are modelled as \<^typ>\<open>string\<close>: sequences of code points, of which a
  \<^typ>\<open>char\<close> covers those up to U+00FF; length, slices and the lexicographic order by code
  point are those of Python.  A dict whose
  insertion order the code can observe is an association list with distinct keys, any other
  dict an \<open>fmap\<close>; a frozenset is an \<open>fset\<close>; an aware UTC datetime is an integer
  number of microseconds; fallible code returns a sum whose left side is the raised exception.

  The theory holds the \<open>named_theorems\<close> collections, the identifier and fingerprint
  patterns every pydantic model of the program shares, and generic lemmas about sums,
  association lists, substrings and sorted batches.
\<close>

section \<open>Collections\<close>

named_theorems res_simps \<open>evaluation of the sum-typed results\<close>
named_theorems pattern_simps \<open>unfolding of the string patterns\<close>
named_theorems dict_simps \<open>lookup after an update or a deletion\<close>

type_synonym timestamp = int
type_synonym ('k, 'v) dict = "('k \<times> 'v) list"

section \<open>Results\<close>

text \<open>Sequencing of fallible steps: the first raised exception wins.\<close>

fun bind_res :: "'e + 'a \<Rightarrow> ('a \<Rightarrow> 'e + 'b) \<Rightarrow> 'e + 'b" where
  "bind_res (Inl e) f = Inl e"
| "bind_res (Inr x) f = f x"

fun ensure :: "bool \<Rightarrow> 'e \<Rightarrow> 'e + unit" where
  "ensure True e = Inr ()"
| "ensure False e = Inl e"

fun is_ok :: "'e + 'a \<Rightarrow> bool" where
  "is_ok (Inr _) = True"
| "is_ok (Inl _) = False"

text \<open>A loop whose body may raise: the first element that raises ends the loop.\<close>

fun each_res :: "('a \<Rightarrow> 'e + unit) \<Rightarrow> 'a list \<Rightarrow> 'e + unit" where
  "each_res f [] = Inr ()"
| "each_res f (x # xs) = bind_res (f x) (\<lambda>_. each_res f xs)"

lemma bind_res_Inr_iff [res_simps]:
  "bind_res m f = Inr y \<longleftrightarrow> (\<exists>x. m = Inr x \<and> f x = Inr y)"
  by (cases m) auto

lemma bind_res_Inl_iff:
  "bind_res m f = Inl e \<longleftrightarrow> m = Inl e \<or> (\<exists>x. m = Inr x \<and> f x = Inl e)"
  by (cases m) auto

lemma ensure_Inr_iff [res_simps, simp]: "ensure b e = Inr u \<longleftrightarrow> b"
  by (cases b) auto

lemma ensure_Inl_iff [simp]: "ensure b e = Inl e' \<longleftrightarrow> \<not> b \<and> e' = e"
  by (cases b) auto

lemma is_ok_iff [res_simps]: "is_ok r \<longleftrightarrow> (\<exists>x. r = Inr x)"
  by (cases r) auto

lemma each_res_Inr_iff [res_simps]:
  "each_res f xs = Inr u \<longleftrightarrow> (\<forall>x \<in> set xs. f x = Inr ())"
  by (induction xs) (auto simp: bind_res_Inr_iff)

section \<open>Characters, identifiers and fingerprints\<close>

definition digit_chars :: string where
  "digit_chars = ''0123456789''"

definition lower_chars :: string where
  "lower_chars = ''abcdefghijklmnopqrstuvwxyz''"

definition upper_chars :: string where
  "upper_chars = ''ABCDEFGHIJKLMNOPQRSTUVWXYZ''"

definition is_digit :: "char \<Rightarrow> bool" where
  "is_digit c \<longleftrightarrow> c \<in> set digit_chars"

definition is_lower_ascii :: "char \<Rightarrow> bool" where
  "is_lower_ascii c \<longleftrightarrow> c \<in> set lower_chars"

definition is_upper_ascii :: "char \<Rightarrow> bool" where
  "is_upper_ascii c \<longleftrightarrow> c \<in> set upper_chars"

definition is_alnum :: "char \<Rightarrow> bool" where
  "is_alnum c \<longleftrightarrow> is_digit c \<or> is_lower_ascii c \<or> is_upper_ascii c"

text \<open>The pattern \<^verbatim>\<open>^[A-Za-z0-9][A-Za-z0-9_\-\.]{0,127}$\<close> of identifiers.\<close>

definition identifier_ok :: "string \<Rightarrow> bool" where
  "identifier_ok s \<longleftrightarrow>
     s \<noteq> [] \<and> is_alnum (hd s) \<and> length s \<le> 128 \<and>
     list_all (\<lambda>c. is_alnum c \<or> c \<in> set ''_-.'') (tl s)"

text \<open>The pattern \<^verbatim>\<open>^sha256:[0-9a-f]{64}$\<close> of fingerprints.\<close>

definition fingerprint_ok :: "string \<Rightarrow> bool" where
  "fingerprint_ok s \<longleftrightarrow>
     take 7 s = ''sha256:'' \<and> length s = 71 \<and>
     list_all (\<lambda>c. is_digit c \<or> c \<in> set ''abcdef'') (drop 7 s)"

text \<open>The pattern \<^verbatim>\<open>^[A-Za-z0-9][A-Za-z0-9_.:-]{0,127}$\<close> of idempotency keys.\<close>

definition key_ok :: "string \<Rightarrow> bool" where
  "key_ok s \<longleftrightarrow>
     s \<noteq> [] \<and> is_alnum (hd s) \<and> length s \<le> 128 \<and>
     list_all (\<lambda>c. is_alnum c \<or> c \<in> set ''_.:-'') (tl s)"

lemmas char_class_defs [pattern_simps] =
  is_digit_def is_lower_ascii_def is_upper_ascii_def is_alnum_def
  digit_chars_def lower_chars_def upper_chars_def

lemmas string_pattern_defs [pattern_simps] =
  identifier_ok_def fingerprint_ok_def key_ok_def

text \<open>An optional value is checked only when it is present (pydantic's \<open>str | None\<close>).\<close>

fun opt_all :: "('a \<Rightarrow> bool) \<Rightarrow> 'a option \<Rightarrow> bool" where
  "opt_all P None = True"
| "opt_all P (Some x) = P x"

lemma identifier_ok_nonempty [dest]: "identifier_ok s \<Longrightarrow> s \<noteq> []"
  by (simp add: identifier_ok_def)

lemma identifier_ok_length: "identifier_ok s \<Longrightarrow> length s \<le> 128"
  by (simp add: identifier_ok_def)

lemma fingerprint_ok_length: "fingerprint_ok s \<Longrightarrow> length s = 71"
  by (simp add: fingerprint_ok_def)

section \<open>Text\<close>

text \<open>ASCII lower-casing and the \<open>marker in text\<close> test of Python.\<close>

definition lower_char :: "char \<Rightarrow> char" where
  "lower_char c = (if is_upper_ascii c then char_of (of_char c + 32 :: nat) else c)"

definition str_lower :: "string \<Rightarrow> string" where
  "str_lower = map lower_char"

fun str_in :: "string \<Rightarrow> string \<Rightarrow> bool" where
  "str_in p [] = (p = [])"
| "str_in p (c # cs) = (take (length p) (c # cs) = p \<or> str_in p cs)"

lemma str_in_iff_sublist: "str_in p s \<longleftrightarrow> sublist p s"
proof (induction s)
  case Nil
  then show ?case by (simp add: sublist_Nil_right)
next
  case (Cons c cs)
  have "take (length p) (c # cs) = p \<longleftrightarrow> prefix p (c # cs)"
    by (metis append_eq_conv_conj append_take_drop_id prefix_def)
  with Cons show ?case by (simp add: sublist_Cons_right)
qed

text \<open>\<open>\w\<close> of Python's \<open>re\<close> for code points up to U+00FF.\<close>

definition is_word_char :: "char \<Rightarrow> bool" where
  "is_word_char c \<longleftrightarrow> is_alnum c \<or> c = CHR ''_'' \<or>
     (let n = (of_char c :: nat)
      in n \<in> set [170, 178, 179, 181, 185, 186, 188, 189, 190] \<or> 192 \<le> n \<and> n \<noteq> 215 \<and> n \<noteq> 247)"

text \<open>The end of a keyword that stands at position \<open>i\<close> of the lower-cased text as a whole word.\<close>

definition keyword_ends :: "string list \<Rightarrow> string \<Rightarrow> nat \<Rightarrow> nat list" where
  "keyword_ends kws s i =
     map (\<lambda>kw. i + length kw)
       (filter (\<lambda>kw. take (length kw) (drop i s) = kw \<and>
                     (i = 0 \<or> \<not> is_word_char (s ! (i - 1))) \<and>
                     (i + length kw \<ge> length s \<or> \<not> is_word_char (s ! (i + length kw)))) kws)"

text \<open>A value between single quotes, as the messages of the program print it.\<close>

definition quoted :: "string \<Rightarrow> string" where
  "quoted s = [CHR 0x27] @ s @ [CHR 0x27]"

lemma length_quoted [simp]: "length (quoted s) = length s + 2"
  by (simp add: quoted_def)

text \<open>Decimal rendering of Python integers (\<open>str(n)\<close>).\<close>

fun string_of_nat :: "nat \<Rightarrow> string" where
  "string_of_nat n =
     (if n < 10 then [digit_chars ! n]
      else string_of_nat (n div 10) @ [digit_chars ! (n mod 10)])"

declare string_of_nat.simps [simp del]

definition string_of_int :: "int \<Rightarrow> string" where
  "string_of_int i = (if 0 \<le> i then string_of_nat (nat i) else CHR ''-'' # string_of_nat (nat \<bar>i\<bar>))"

lemma digit_chars_nth: "n < 10 \<Longrightarrow> is_digit (digit_chars ! n)"
  unfolding is_digit_def by (rule nth_mem) (simp add: digit_chars_def)

lemma string_of_nat_digits: "list_all is_digit (string_of_nat n)"
proof (induction n rule: string_of_nat.induct)
  case (1 n)
  show ?case
  proof (cases "n < 10")
    case True
    then show ?thesis by (subst string_of_nat.simps) (simp add: digit_chars_nth)
  next
    case False
    with "1.IH" show ?thesis by (subst string_of_nat.simps) (simp add: digit_chars_nth)
  qed
qed

lemma string_of_nat_nonempty [simp]: "string_of_nat n \<noteq> []"
  by (subst string_of_nat.simps) simp

section \<open>Dicts as association lists\<close>

abbreviation dict_get :: "('k, 'v) dict \<Rightarrow> 'k \<Rightarrow> 'v option" where
  "dict_get d \<equiv> map_of d"

abbreviation dict_set :: "'k \<Rightarrow> 'v \<Rightarrow> ('k, 'v) dict \<Rightarrow> ('k, 'v) dict" where
  "dict_set k v d \<equiv> AList.update k v d"

abbreviation dict_del :: "'k \<Rightarrow> ('k, 'v) dict \<Rightarrow> ('k, 'v) dict" where
  "dict_del k d \<equiv> AList.delete k d"

abbreviation dict_ok :: "('k, 'v) dict \<Rightarrow> bool" where
  "dict_ok d \<equiv> distinct (map fst d)"

lemma dict_get_set [dict_simps, simp]:
  "dict_get (dict_set k v d) k' = (if k' = k then Some v else dict_get d k')"
  by (simp add: update_conv')

lemma dict_get_del [dict_simps, simp]:
  "dict_get (dict_del k d) k' = (if k' = k then None else dict_get d k')"
  by (simp add: delete_conv')

lemma dict_ok_set [simp, intro]: "dict_ok d \<Longrightarrow> dict_ok (dict_set k v d)"
  by (rule distinct_update)

lemma dict_ok_del [simp, intro]: "dict_ok d \<Longrightarrow> dict_ok (dict_del k d)"
  by (rule distinct_delete)

declare fcard_fempty [simp]

lemma fmap_of_sorted_list [simp]: "fmap_of_list (sorted_list_of_fmap m) = m"
  by (rule fmap_ext) (simp add: fmlookup_of_list)

text \<open>Deleting a batch of keys one after the other (\<open>for k in batch: del d[k]\<close>).\<close>

definition dict_del_all :: "'k list \<Rightarrow> ('k, 'v) dict \<Rightarrow> ('k, 'v) dict" where
  "dict_del_all ks d = fold dict_del ks d"

lemma dict_del_all_simps [simp]:
  "dict_del_all [] d = d"
  "dict_del_all (k # ks) d = dict_del_all ks (dict_del k d)"
  by (simp_all add: dict_del_all_def)

lemma dict_get_del_all [dict_simps, simp]:
  "dict_get (dict_del_all ks d) k = (if k \<in> set ks then None else dict_get d k)"
  by (induction ks arbitrary: d) auto

lemma dict_ok_del_all [simp, intro]: "dict_ok d \<Longrightarrow> dict_ok (dict_del_all ks d)"
  by (induction ks arbitrary: d) auto

lemma dict_items_get: "dict_ok d \<Longrightarrow> (k, v) \<in> set d \<longleftrightarrow> dict_get d k = Some v"
  by simp

lemma length_dict_set:
  "length (dict_set k v d) = (if k \<in> fst ` set d then length d else Suc (length d))"
  by (induction d) auto

lemma length_dict_del: "dict_ok d \<Longrightarrow> k \<in> fst ` set d \<Longrightarrow> Suc (length (dict_del k d)) = length d"
proof (induction d)
  case Nil
  then show ?case by simp
next
  case (Cons p d)
  show ?case
  proof (cases "fst p = k")
    case True
    with Cons.prems have "k \<notin> fst ` set d" by auto
    then have "dict_del k d = d" by (rule delete_id)
    with True show ?thesis by simp
  next
    case False
    with Cons show ?thesis by auto
  qed
qed

section \<open>Sorted batches\<close>

text \<open>Python's \<open>sorted(k for k, v in d.items() if P(k, v))\<close>.\<close>

definition sorted_keys :: "('k::linorder \<Rightarrow> 'v \<Rightarrow> bool) \<Rightarrow> ('k, 'v) dict \<Rightarrow> 'k list" where
  "sorted_keys P d = sort (map fst (filter (\<lambda>(k, v). P k v) d))"

lemma set_sorted_keys:
  "dict_ok d \<Longrightarrow> set (sorted_keys P d) = {k. \<exists>v. dict_get d k = Some v \<and> P k v}"
  by (force simp: sorted_keys_def)

lemma sorted_sorted_keys [simp]: "sorted (sorted_keys P d)"
  by (simp add: sorted_keys_def)

lemma distinct_sorted_keys [simp]: "dict_ok d \<Longrightarrow> distinct (sorted_keys P d)"
  by (simp add: sorted_keys_def distinct_map_filter)

section \<open>Reachable states and invariants\<close>

text \<open>
  The states a component can reach from its initial states, for any sequence of its
  operations, and the states it reaches in exactly \<open>n\<close> operations.
\<close>

inductive reachable :: "('s \<Rightarrow> bool) \<Rightarrow> ('s \<Rightarrow> 's \<Rightarrow> bool) \<Rightarrow> 's \<Rightarrow> bool"
  for init :: "'s \<Rightarrow> bool" and step :: "'s \<Rightarrow> 's \<Rightarrow> bool" where
  reachable_init: "init s \<Longrightarrow> reachable init step s"
| reachable_step: "reachable init step s \<Longrightarrow> step s t \<Longrightarrow> reachable init step t"

inductive run :: "('s \<Rightarrow> 's \<Rightarrow> bool) \<Rightarrow> nat \<Rightarrow> 's \<Rightarrow> 's \<Rightarrow> bool"
  for step :: "'s \<Rightarrow> 's \<Rightarrow> bool" where
  run_none: "run step 0 s s"
| run_more: "run step n s t \<Longrightarrow> step t u \<Longrightarrow> run step (Suc n) s u"

inductive_cases run_zeroE: "run step 0 s t"
inductive_cases run_SucE: "run step (Suc n) s t"

text \<open>The contract of a component whose operations all keep an invariant.\<close>

locale safe_system =
  fixes init :: "'s \<Rightarrow> bool" and step :: "'s \<Rightarrow> 's \<Rightarrow> bool" and inv :: "'s \<Rightarrow> bool"
  assumes inv_init: "init s \<Longrightarrow> inv s"
    and inv_step: "inv s \<Longrightarrow> step s t \<Longrightarrow> inv t"
begin

lemma reachable_inv: "reachable init step s \<Longrightarrow> inv s"
  by (induction rule: reachable.induct) (auto intro: inv_init inv_step)

lemma run_inv: "run step n s t \<Longrightarrow> inv s \<Longrightarrow> inv t"
  by (induction rule: run.induct) (auto intro: inv_step)

end

text \<open>A component each of whose operations spends one unit of a bounded resource.\<close>

locale spending_system = safe_system +
  fixes spent :: "'s \<Rightarrow> nat" and allowance :: "'s \<Rightarrow> nat"
  assumes spent_step: "inv s \<Longrightarrow> step s t \<Longrightarrow> spent t = Suc (spent s)"
    and allowance_step: "inv s \<Longrightarrow> step s t \<Longrightarrow> allowance t = allowance s"
    and within_allowance: "inv s \<Longrightarrow> spent s \<le> allowance s"
begin

lemma run_spends: "run step n s t \<Longrightarrow> inv s \<Longrightarrow> spent t = spent s + n \<and> allowance t = allowance s"
proof (induction rule: run.induct)
  case (run_none s)
  then show ?case by simp
next
  case (run_more n s t u)
  then have "inv t" by (blast intro: run_inv)
  with run_more spent_step [of t u] allowance_step [of t u] show ?case by simp
qed

lemma run_bounded: "run step n s t \<Longrightarrow> inv s \<Longrightarrow> spent s + n \<le> allowance s"
  using run_spends [of n s t] run_inv [of n s t] within_allowance [of t] by simp

end

end
