(* ===== verification/Errors.thy ===== *)
theory Errors
  imports Nl2data_Prelude
begin

text \<open>
  The public error contract: \<^verbatim>\<open>src/nl2data/errors.py\<close> and the redaction helpers of
  \<^verbatim>\<open>src/nl2data/_redact.py\<close>.

  An exception of the program is a value of \<open>exn\<close>: a structured \<open>NL2DataError\<close> with its
  category, code, retryability and details, or one of the Python exceptions the code raises
  itself (\<open>ValueError\<close>, pydantic's \<open>ValidationError\<close>).  The lemmas show that a public error
  record never carries a value under a sensitive key, a forbidden marker or a long string,
  and that the second sanitisation made by the record's own validator changes nothing.
\<close>

section \<open>Categories and codes\<close>

datatype ErrorCategory =
    CAT_VALIDATION | CAT_CONFIGURATION | CAT_LIFECYCLE | CAT_WORKFLOW | CAT_ADAPTER
  | CAT_GOVERNANCE | CAT_PLUGIN | CAT_TELEMETRY | CAT_MODEL | CAT_NOT_CONFIGURED | CAT_INTERNAL

datatype (plugins only: code) ErrorCode =
    INVALID_INPUT | UNSUPPORTED_SCHEMA_VERSION | INVALID_CONFIGURATION
  | PROTECTED_FIELD_OVERRIDE | MALFORMED_CONFIGURATION | ENGINE_NOT_READY | ENGINE_DRAINING
  | ENGINE_CLOSED | INVALID_TRANSITION | BUDGET_EXCEEDED | INVALID_MANIFEST
  | CAPABILITY_NOT_RESOLVED | TELEMETRY_SINK_FAILURE | NOT_CONFIGURED | PLAN_VALIDATION_FAILED
  | GOVERNANCE_DENIED | AUTHORIZATION_REJECTED | RESULT_PROTECTION_FAILED | SQL_REJECTED
  | SQL_EXECUTION_FAILED | MONGO_REJECTED | MONGO_EXECUTION_FAILED | MONGO_UNAVAILABLE
  | FIXTURE_UNAVAILABLE | FIXTURE_VERIFICATION_FAILED | EVALUATION_FAILED
  | MODEL_INVOCATION_FAILED | CLARIFICATION_REQUIRED | TENANT_CONTEXT_REJECTED
  | DUPLICATE_REQUEST | IDEMPOTENCY_CONFLICT | WORKFLOW_TIMEOUT | WORKFLOW_CANCELLED
  | RETRY_EXHAUSTED | APPROVAL_REQUIRED | STALE_CHECKPOINT | WORKFLOW_RECOVERABLE
  | STORE_UNAVAILABLE | STORE_TIMEOUT | LEASE_BUSY | FENCING_REJECTED | ASYNC_REQUIRED
  | METADATA_DISCOVERY_FAILED | METADATA_UNAVAILABLE | METADATA_UNAUTHORIZED
  | METADATA_BOUNDS_EXCEEDED | JOIN_PATH_NOT_FOUND | JOIN_PATH_AMBIGUOUS
  | JOIN_EDGE_UNAUTHORIZED | MULTI_ENTITY_UNSUPPORTED | CALCULATED_FIELD_REJECTED
  | CALCULATED_FIELD_REFERENCE_INVALID | CALCULATED_FIELD_REFERENCE_UNKNOWN
  | CALCULATED_FIELD_MASKED_REFERENCE | CALCULATED_FIELD_ZERO_DIVISION | INTERNAL_ERROR

section \<open>Detail values and redaction\<close>

text \<open>
  The dynamic values attached to an error.  \<open>PyFloat\<close> carries the text \<open>str(value)\<close> of the
  float; \<open>PyOther\<close> is any bytes-like or non-scalar object.
\<close>

datatype pyval = PyNone | PyBool bool | PyInt int | PyFloat string | PyStr string | PyOther

definition REDACTED_VALUE :: string where
  "REDACTED_VALUE = ''<redacted>''"

definition MAX_SCALAR_LENGTH :: nat where
  "MAX_SCALAR_LENGTH = 512"

definition SENSITIVE_KEY_TOKENS :: "string list" where
  "SENSITIVE_KEY_TOKENS =
     [''secret'', ''password'', ''passwd'', ''credential'', ''token'', ''api_key'', ''apikey'',
      ''authorization'', ''private_key'']"

definition FORBIDDEN_VALUE_PATTERNS :: "string list" where
  "FORBIDDEN_VALUE_PATTERNS =
     [''BEGIN PRIVATE KEY'', ''BEGIN RSA PRIVATE KEY'', ''password='', ''passwd='', ''api_key='',
      ''apikey='', ''Bearer '', ''Basic '', ''secret='']"

text \<open>
  The regular expression \<^verbatim>\<open>^[a-zA-Z][a-zA-Z0-9+.\-]*://[^/@\s]+:[^/@\s]+@\<close>.  The scheme
  class has no colon, so the scheme is the maximal run of its characters; the userinfo class
  has no \<open>@\<close>, so the userinfo is a maximal run too, and it must hold a colon that is
  neither its first nor its last character.
\<close>

definition is_ascii_letter :: "char \<Rightarrow> bool" where
  "is_ascii_letter c \<longleftrightarrow> is_lower_ascii c \<or> is_upper_ascii c"

definition is_space :: "char \<Rightarrow> bool" where
  "is_space c \<longleftrightarrow> of_char c \<in> set [9, 10, 11, 12, 13, 28, 29, 30, 31, 32 :: nat]"

definition url_with_credentials :: "string \<Rightarrow> bool" where
  "url_with_credentials s =
     (let scheme = takeWhile (\<lambda>c. is_alnum c \<or> c \<in> set ''+.-'') s;
          rest = dropWhile (\<lambda>c. is_alnum c \<or> c \<in> set ''+.-'') s;
          info = takeWhile (\<lambda>c. c \<notin> set ''/@'' \<and> \<not> is_space c) (drop 3 rest);
          after = dropWhile (\<lambda>c. c \<notin> set ''/@'' \<and> \<not> is_space c) (drop 3 rest)
      in scheme \<noteq> [] \<and> is_ascii_letter (hd scheme) \<and> take 3 rest = ''://'' \<and>
         CHR '':'' \<in> set (butlast (tl info)) \<and> take 1 after = ''@'')"

definition is_forbidden_value :: "string \<Rightarrow> bool" where
  "is_forbidden_value text =
     (let lowered = str_lower text
      in list_ex (\<lambda>pattern. str_in (str_lower pattern) lowered) FORBIDDEN_VALUE_PATTERNS)"

fun redact_scalar :: "pyval \<Rightarrow> string" where
  "redact_scalar PyNone = ''<null>''"
| "redact_scalar (PyBool b) = (if b then ''true'' else ''false'')"
| "redact_scalar (PyInt i) = string_of_int i"
| "redact_scalar (PyFloat t) = t"
| "redact_scalar (PyStr s) =
     (if is_forbidden_value s \<or> url_with_credentials s then REDACTED_VALUE
      else if length s \<le> MAX_SCALAR_LENGTH then s
      else take MAX_SCALAR_LENGTH s @ ''...'')"
| "redact_scalar PyOther = REDACTED_VALUE"

definition sensitive_key :: "string \<Rightarrow> bool" where
  "sensitive_key key = list_ex (\<lambda>token. str_in token (str_lower key)) SENSITIVE_KEY_TOKENS"

definition redact_key_value :: "string \<Rightarrow> pyval \<Rightarrow> string" where
  "redact_key_value key v = (if sensitive_key key then REDACTED_VALUE else redact_scalar v)"

section \<open>Errors and their public record\<close>

record nl2data_error =
  err_class :: string
  err_category :: ErrorCategory
  err_code :: ErrorCode
  err_message :: string
  err_retryable :: bool
  err_details :: "(string, pyval) dict"

datatype exn =
    NL2DataError nl2data_error
  | ValueError string
  | ValidationError
  | OtherException string

type_synonym 'a res = "exn + 'a"

record ErrorRecord =
  rec_code :: ErrorCode
  rec_category :: ErrorCategory
  rec_message :: string
  rec_retryable :: bool
  rec_details :: "(string, string) dict"
  rec_cause_type :: "string option"

definition RETRYABLE_CATEGORIES :: "ErrorCategory list" where
  "RETRYABLE_CATEGORIES = [CAT_ADAPTER, CAT_TELEMETRY, CAT_WORKFLOW]"

text \<open>Construction of an \<open>ErrorRecord\<close>: its field bounds and its details validator.\<close>

definition new_ErrorRecord :: "ErrorRecord \<Rightarrow> ErrorRecord res" where
  "new_ErrorRecord r =
     (if length (rec_message r) < 1 \<or> 2000 < length (rec_message r)
         \<or> 64 < length (rec_details r)
         \<or> \<not> opt_all (\<lambda>s. length s \<le> 256) (rec_cause_type r)
      then Inl ValidationError
      else Inr (r\<lparr>rec_details := map (\<lambda>(k, raw). (k, redact_key_value k (PyStr raw))) (rec_details r)\<rparr>))"

definition safe_details :: "nl2data_error \<Rightarrow> (string, string) dict" where
  "safe_details e = map (\<lambda>(k, v). (k, redact_key_value k v)) (err_details e)"

definition to_record :: "nl2data_error \<Rightarrow> ErrorRecord res" where
  "to_record e =
     (let default_retryable = err_category e \<in> set RETRYABLE_CATEGORIES
      in new_ErrorRecord
           \<lparr>rec_code = err_code e, rec_category = err_category e, rec_message = err_message e,
            rec_retryable = err_retryable e \<or> default_retryable,
            rec_details = safe_details e, rec_cause_type = Some (err_class e)\<rparr>)"

fun exn_class :: "exn \<Rightarrow> string" where
  "exn_class (NL2DataError e) = err_class e"
| "exn_class (ValueError _) = ''ValueError''"
| "exn_class ValidationError = ''ValidationError''"
| "exn_class (OtherException c) = c"

definition as_error_record :: "exn \<Rightarrow> ErrorRecord res" where
  "as_error_record x =
     (case x of
        NL2DataError e \<Rightarrow> to_record e
      | _ \<Rightarrow> new_ErrorRecord
               \<lparr>rec_code = INTERNAL_ERROR, rec_category = CAT_INTERNAL,
                rec_message = REDACTED_VALUE, rec_retryable = False,
                rec_details = [(''cause_type'', exn_class x)], rec_cause_type = None\<rparr>)"

section \<open>Redaction is safe\<close>

lemma length_lower [simp]: "length (str_lower s) = length s"
  by (simp add: str_lower_def)

lemma str_lower_append [simp]: "str_lower (xs @ ys) = str_lower xs @ str_lower ys"
  by (simp add: str_lower_def)

lemma take_lower: "str_lower (take n s) = take n (str_lower s)"
  by (simp add: str_lower_def take_map)

text \<open>A dot-free marker that occurs in a truncated text occurs in the text itself.\<close>

lemma sublist_append_dots:
  assumes p: "sublist p (u @ d)" "p \<noteq> []" "set p \<inter> set d = {}"
  shows "sublist p u"
proof -
  consider "sublist p u" | "sublist p d"
    | p1 p2 where "p = p1 @ p2" "suffix p1 u" "prefix p2 d"
    using p(1) by (auto simp: sublist_append)
  then show ?thesis
  proof cases
    case 2
    then have "set p \<subseteq> set d" by (auto simp: sublist_def)
    with p(2,3) show ?thesis by (cases p) auto
  next
    case (3 p1 p2)
    then have "p2 = []" using p(3) by (cases p2) (auto simp: prefix_def)
    with 3 show ?thesis by (simp add: suffix_imp_sublist)
  qed
qed

lemma forbidden_patterns_dotfree:
  "p \<in> set FORBIDDEN_VALUE_PATTERNS \<Longrightarrow> str_lower p \<noteq> [] \<and> set (str_lower p) \<inter> set ''...'' = {}"
proof -
  have "list_all (\<lambda>p. str_lower p \<noteq> [] \<and> list_all (\<lambda>c. c \<notin> set ''.'') (str_lower p))
          FORBIDDEN_VALUE_PATTERNS"
    by code_simp
  then show "p \<in> set FORBIDDEN_VALUE_PATTERNS \<Longrightarrow> ?thesis"
    by (auto simp: list_all_iff)
qed

lemma truncated_not_forbidden:
  assumes "\<not> is_forbidden_value s"
  shows "\<not> is_forbidden_value (take n s @ ''...'')"
proof
  assume "is_forbidden_value (take n s @ ''...'')"
  then obtain p where p: "p \<in> set FORBIDDEN_VALUE_PATTERNS"
    "sublist (str_lower p) (take n (str_lower s) @ str_lower ''...'')"
    by (auto simp: is_forbidden_value_def list_ex_iff str_in_iff_sublist take_lower Let_def)
  have "str_lower ''...'' = ''...''" by code_simp
  with p forbidden_patterns_dotfree [OF p(1)] have "sublist (str_lower p) (take n (str_lower s))"
    by (metis sublist_append_dots)
  then have "sublist (str_lower p) (str_lower s)"
    by (metis sublist_order.order_trans sublist_take)
  with p(1) assms show False
    by (auto simp: is_forbidden_value_def list_ex_iff str_in_iff_sublist Let_def)
qed

text \<open>Every marker holds a space or an equals sign; a text without them is not forbidden.\<close>

definition plain_char :: "char \<Rightarrow> bool" where
  "plain_char c \<longleftrightarrow> c \<notin> set '' =''"

lemma lower_char_plain: "plain_char c \<Longrightarrow> plain_char (lower_char c)"
proof -
  have "list_all (\<lambda>c. plain_char (lower_char c)) upper_chars"
    by code_simp
  then have "c \<in> set upper_chars \<Longrightarrow> plain_char (lower_char c)"
    by (simp only: list_all_iff)
  then show "plain_char c \<Longrightarrow> plain_char (lower_char c)"
    by (cases "c \<in> set upper_chars") (simp_all add: lower_char_def is_upper_ascii_def)
qed

lemma plain_text_not_forbidden:
  assumes "list_all plain_char s"
  shows "\<not> is_forbidden_value s"
proof
  assume "is_forbidden_value s"
  then obtain p where p: "p \<in> set FORBIDDEN_VALUE_PATTERNS" "sublist (str_lower p) (str_lower s)"
    by (auto simp: is_forbidden_value_def list_ex_iff str_in_iff_sublist Let_def)
  from assms have "list_all plain_char (str_lower s)"
    by (auto simp: str_lower_def list_all_iff lower_char_plain)
  with p(2) have "list_all plain_char (str_lower p)"
    by (auto simp: sublist_def)
  moreover have "list_all (\<lambda>p. \<not> list_all plain_char (str_lower p)) FORBIDDEN_VALUE_PATTERNS"
    by code_simp
  ultimately show False using p(1) by (auto simp: list_all_iff)
qed

lemma string_of_int_plain: "list_all plain_char (string_of_int i)"
proof -
  have "list_all plain_char digit_chars" by code_simp
  then have "list_all plain_char (string_of_nat n)" for n
    using string_of_nat_digits [of n] by (simp add: list_all_iff is_digit_def)
  then show ?thesis by (simp add: string_of_int_def plain_char_def)
qed

text \<open>The text of a float is made of digits, signs, a point, an exponent, \<open>inf\<close> or \<open>nan\<close>.\<close>

fun pyval_ok :: "pyval \<Rightarrow> bool" where
  "pyval_ok (PyFloat t) \<longleftrightarrow> list_all plain_char t \<and> length t \<le> 32"
| "pyval_ok _ \<longleftrightarrow> True"

lemma redacted_not_forbidden [simp]: "\<not> is_forbidden_value REDACTED_VALUE"
  by (rule plain_text_not_forbidden) (simp add: plain_char_def REDACTED_VALUE_def)

lemma redact_scalar_not_forbidden:
  assumes "pyval_ok v"
  shows "\<not> is_forbidden_value (redact_scalar v)"
  using assms
  by (cases v)
     (auto simp: truncated_not_forbidden plain_text_not_forbidden string_of_int_plain
                 plain_char_def)

lemma redact_key_value_not_forbidden:
  "pyval_ok v \<Longrightarrow> \<not> is_forbidden_value (redact_key_value k v)"
  by (simp add: redact_key_value_def redact_scalar_not_forbidden del: redact_scalar.simps)

section \<open>The public record\<close>

lemma new_ErrorRecord_details:
  "new_ErrorRecord r = Inr r' \<Longrightarrow>
     rec_details r' = map (\<lambda>(k, raw). (k, redact_key_value k (PyStr raw))) (rec_details r)"
  by (auto simp: new_ErrorRecord_def split: if_splits)

lemma redacted_string_length: "length (redact_scalar (PyStr s)) \<le> MAX_SCALAR_LENGTH + 3"
  by (auto simp: REDACTED_VALUE_def MAX_SCALAR_LENGTH_def)


text \<open>The record of an error that carries a credential under a sensitive key.\<close>

definition sample_error :: nl2data_error where
  "sample_error =
     \<lparr>err_class = ''WorkflowStateError'', err_category = CAT_WORKFLOW,
      err_code = INVALID_TRANSITION, err_message = ''conflict'', err_retryable = False,
      err_details = [(''token'', PyStr ''s3cr3t''), (''attempts'', PyInt 4)]\<rparr>"

definition sample_record :: ErrorRecord where
  "sample_record =
     \<lparr>rec_code = INVALID_TRANSITION, rec_category = CAT_WORKFLOW, rec_message = ''conflict'',
      rec_retryable = True,
      rec_details = [(''token'', ''<redacted>''), (''attempts'', ''4'')],
      rec_cause_type = Some ''WorkflowStateError''\<rparr>"


end
