(* ===== verification/Workflow_State.thy ===== *)
theory Workflow_State
  imports Errors
begin

text \<open>
  The versioned immutable workflow state and its transitions:
  \<^verbatim>\<open>src/nl2data_core/workflow/models.py\<close> and
  \<^verbatim>\<open>src/nl2data_core/workflow/transitions.py\<close>.

  \<open>transition\<close> and \<open>checkpoint\<close> are the only operations that derive a new state; both
  rebuild it through the validating constructor \<open>new_WorkflowState\<close>.  The step relation
  \<open>wf_step\<close> has one rule for each of them, and the reachability theorems give the budget
  and history invariants of every workflow, whatever its sequence of operations.
\<close>

section \<open>Data model\<close>

datatype WorkflowStatus = CREATED | QUEUED | RUNNING | SUCCEEDED | FAILED | CLOSED

fun status_value :: "WorkflowStatus \<Rightarrow> string" where
  "status_value CREATED = ''created''"
| "status_value QUEUED = ''queued''"
| "status_value RUNNING = ''running''"
| "status_value SUCCEEDED = ''succeeded''"
| "status_value FAILED = ''failed''"
| "status_value CLOSED = ''closed''"

datatype WorkflowStage =
    INITIALIZE | MEMORY | INTENT | PLAN | VALIDATE | COMPILE | GUARD | GOVERN | AUTHORIZE
  | EXECUTE | PROTECT | PERSIST | COMPLETE

fun stage_value :: "WorkflowStage \<Rightarrow> string" where
  "stage_value INITIALIZE = ''initialize''"
| "stage_value MEMORY = ''memory''"
| "stage_value INTENT = ''intent''"
| "stage_value PLAN = ''plan''"
| "stage_value VALIDATE = ''validate''"
| "stage_value COMPILE = ''compile''"
| "stage_value GUARD = ''guard''"
| "stage_value GOVERN = ''govern''"
| "stage_value AUTHORIZE = ''authorize''"
| "stage_value EXECUTE = ''execute''"
| "stage_value PROTECT = ''protect''"
| "stage_value PERSIST = ''persist''"
| "stage_value COMPLETE = ''complete''"

definition TERMINAL_STATUSES :: "WorkflowStatus list" where
  "TERMINAL_STATUSES = [SUCCEEDED, FAILED, CLOSED]"

abbreviation terminal :: "WorkflowStatus \<Rightarrow> bool" where
  "terminal st \<equiv> st \<in> set TERMINAL_STATUSES"

definition WorkflowTransitionError :: "string \<Rightarrow> (string, pyval) dict \<Rightarrow> exn" where
  "WorkflowTransitionError message details =
     NL2DataError \<lparr>err_class = ''WorkflowTransitionError'', err_category = CAT_WORKFLOW,
       err_code = INVALID_TRANSITION, err_message = message, err_retryable = False,
       err_details = details\<rparr>"

definition WorkflowBudgetError :: "string \<Rightarrow> (string, pyval) dict \<Rightarrow> exn" where
  "WorkflowBudgetError message details =
     NL2DataError \<lparr>err_class = ''WorkflowBudgetError'', err_category = CAT_WORKFLOW,
       err_code = BUDGET_EXCEEDED, err_message = message, err_retryable = False,
       err_details = details\<rparr>"

definition WorkflowStateError :: "string \<Rightarrow> (string, pyval) dict \<Rightarrow> bool \<Rightarrow> exn" where
  "WorkflowStateError message details retryable =
     NL2DataError \<lparr>err_class = ''WorkflowStateError'', err_category = CAT_WORKFLOW,
       err_code = INVALID_TRANSITION, err_message = message, err_retryable = retryable,
       err_details = details\<rparr>"

record WorkflowBudget =
  max_attempts :: int
  max_events :: int
  max_retries :: int
  max_repairs :: int
  max_duration_seconds :: rat

definition budget_valid :: "WorkflowBudget \<Rightarrow> bool" where
  "budget_valid b \<longleftrightarrow>
     1 \<le> max_attempts b \<and> max_attempts b \<le> 100 \<and>
     1 \<le> max_events b \<and> max_events b \<le> 10000 \<and>
     1 \<le> max_retries b \<and> max_retries b \<le> 100 \<and>
     1 \<le> max_repairs b \<and> max_repairs b \<le> 100 \<and>
     0 < max_duration_seconds b \<and> max_duration_seconds b \<le> 86400"

definition default_budget :: WorkflowBudget where
  "default_budget =
     \<lparr>max_attempts = 3, max_events = 100, max_retries = 3, max_repairs = 1,
      max_duration_seconds = 300\<rparr>"

record WorkflowEvent =
  event_id :: string
  ev_workflow_id :: string
  from_status :: WorkflowStatus
  to_status :: WorkflowStatus
  occurred_at :: timestamp
  metadata :: "(string, string) fmap"

definition event_valid :: "WorkflowEvent \<Rightarrow> bool" where
  "event_valid e \<longleftrightarrow>
     identifier_ok (event_id e) \<and> identifier_ok (ev_workflow_id e) \<and> fcard (fmdom (metadata e)) \<le> 32"

definition new_WorkflowEvent :: "WorkflowEvent \<Rightarrow> WorkflowEvent res" where
  "new_WorkflowEvent e = (if event_valid e then Inr e else Inl ValidationError)"

record WorkflowState =
  version :: int
  workflow_id :: string
  request_id :: string
  tenant_scope_fingerprint :: "string option"
  status :: WorkflowStatus
  attempts :: int
  budget :: WorkflowBudget
  events :: "WorkflowEvent list"
  evidence_fingerprints :: "string fset"
  current_stage :: "WorkflowStage option"
  gate_evidence_fingerprints :: "string fset"
  compatibility_fingerprints :: "(string, string) fmap"
  cancellation_requested :: bool
  deadline_at :: "timestamp option"
  retry_count :: int
  repair_count :: int

text \<open>The field bounds, patterns and field validators of the pydantic model.\<close>

definition state_valid :: "WorkflowState \<Rightarrow> bool" where
  "state_valid s \<longleftrightarrow>
     version s = 1 \<and> identifier_ok (workflow_id s) \<and> identifier_ok (request_id s) \<and>
     opt_all fingerprint_ok (tenant_scope_fingerprint s) \<and>
     0 \<le> attempts s \<and> attempts s \<le> 100 \<and>
     fBall (evidence_fingerprints s) fingerprint_ok \<and>
     fBall (gate_evidence_fingerprints s) fingerprint_ok \<and>
     fcard (fmdom (compatibility_fingerprints s)) \<le> 16 \<and>
     fmpred (\<lambda>k v. identifier_ok k \<and> fingerprint_ok v) (compatibility_fingerprints s) \<and>
     0 \<le> retry_count s \<and> retry_count s \<le> 100 \<and>
     0 \<le> repair_count s \<and> repair_count s \<le> 100"

definition new_WorkflowState :: "WorkflowState \<Rightarrow> WorkflowState res" where
  "new_WorkflowState s = (if state_valid s then Inr s else Inl ValidationError)"

section \<open>Transitions\<close>

fun ALLOWED_TRANSITIONS :: "WorkflowStatus \<Rightarrow> WorkflowStatus list" where
  "ALLOWED_TRANSITIONS CREATED = [QUEUED, FAILED, CLOSED]"
| "ALLOWED_TRANSITIONS QUEUED = [RUNNING, FAILED, CLOSED]"
| "ALLOWED_TRANSITIONS RUNNING = [QUEUED, SUCCEEDED, FAILED, CLOSED]"
| "ALLOWED_TRANSITIONS SUCCEEDED = []"
| "ALLOWED_TRANSITIONS FAILED = []"
| "ALLOWED_TRANSITIONS CLOSED = []"

definition transition_details :: "WorkflowStatus \<Rightarrow> WorkflowStatus \<Rightarrow> (string, pyval) dict" where
  "transition_details current target =
     [(''from'', PyStr (status_value current)), (''to'', PyStr (status_value target))]"

definition validate_transition :: "WorkflowStatus \<Rightarrow> WorkflowStatus \<Rightarrow> unit res" where
  "validate_transition current target =
     (if terminal current then
        Inl (WorkflowTransitionError
               (''cannot transition from terminal status '' @ quoted (status_value current))
               (transition_details current target))
      else if target \<notin> set (ALLOWED_TRANSITIONS current) then
        Inl (WorkflowTransitionError
               (''transition from '' @ quoted (status_value current) @ '' to ''
                 @ quoted (status_value target) @ '' is not allowed'')
               (transition_details current target))
      else Inr ())"

text \<open>The event budget check shared by \<open>transition\<close> and \<open>checkpoint\<close>.\<close>

definition check_event_budget :: "WorkflowState \<Rightarrow> unit res" where
  "check_event_budget state =
     (if int (length (events state)) + 1 > max_events (budget state) then
        Inl (WorkflowBudgetError
               (''event budget exhausted (max '' @ string_of_int (max_events (budget state)) @ '')'')
               [(''events'', PyInt (int (length (events state)) + 1)),
                (''max_events'', PyInt (max_events (budget state)))])
      else Inr ())"

text \<open>
  \<open>now\<close> is the clock reading used when \<open>occurred_at\<close> is absent; an absent \<open>metadata\<close> is
  the empty dict.
\<close>

definition transition ::
  "WorkflowState \<Rightarrow> WorkflowStatus \<Rightarrow> string \<Rightarrow> timestamp option \<Rightarrow> (string, string) fmap
    \<Rightarrow> int option \<Rightarrow> int option \<Rightarrow> timestamp \<Rightarrow> WorkflowState res" where
  "transition state target ev_id occurred meta retry_override repair_override now =
     bind_res (validate_transition (status state) target) (\<lambda>_.
     bind_res
       (if target = RUNNING then
          (if attempts state + 1 > max_attempts (budget state) then
             Inl (WorkflowBudgetError
                    (''attempt budget exhausted (max ''
                      @ string_of_int (max_attempts (budget state)) @ '')'')
                    [(''attempts'', PyInt (attempts state + 1)),
                     (''max_attempts'', PyInt (max_attempts (budget state)))])
           else Inr (attempts state + 1))
        else Inr (attempts state)) (\<lambda>new_attempts.
     bind_res (check_event_budget state) (\<lambda>_.
     bind_res
       (new_WorkflowEvent
          \<lparr>event_id = ev_id, ev_workflow_id = workflow_id state, from_status = status state,
           to_status = target, occurred_at = (case occurred of None \<Rightarrow> now | Some t \<Rightarrow> t),
           metadata = meta\<rparr>) (\<lambda>event.
     new_WorkflowState
       (state\<lparr>status := target, attempts := new_attempts, events := events state @ [event],
          retry_count := (case retry_override of None \<Rightarrow> retry_count state | Some n \<Rightarrow> n),
          repair_count := (case repair_override of None \<Rightarrow> repair_count state | Some n \<Rightarrow> n)\<rparr>)))))"

definition checkpoint ::
  "WorkflowState \<Rightarrow> WorkflowStage \<Rightarrow> string \<Rightarrow> timestamp option \<Rightarrow> (string, string) fmap
    \<Rightarrow> string fset option \<Rightarrow> (string, string) fmap option \<Rightarrow> bool option \<Rightarrow> timestamp
    \<Rightarrow> WorkflowState res" where
  "checkpoint state stage ev_id occurred meta gates compat_fps cancel now =
     bind_res
       (if terminal (status state) then
          Inl (WorkflowTransitionError
                 (''cannot checkpoint terminal workflow '' @ quoted (workflow_id state))
                 [(''workflow_id'', PyStr (workflow_id state)),
                  (''status'', PyStr (status_value (status state)))])
        else Inr ()) (\<lambda>_.
     bind_res (check_event_budget state) (\<lambda>_.
     bind_res
       (new_WorkflowEvent
          \<lparr>event_id = ev_id, ev_workflow_id = workflow_id state, from_status = status state,
           to_status = status state, occurred_at = (case occurred of None \<Rightarrow> now | Some t \<Rightarrow> t),
           metadata = fmupd ''stage'' (stage_value stage) meta\<rparr>) (\<lambda>event.
     new_WorkflowState
       (state\<lparr>events := events state @ [event], current_stage := Some stage,
          gate_evidence_fingerprints :=
            (case gates of None \<Rightarrow> gate_evidence_fingerprints state | Some g \<Rightarrow> g),
          compatibility_fingerprints :=
            (case compat_fps of None \<Rightarrow> compatibility_fingerprints state | Some c \<Rightarrow> c),
          cancellation_requested :=
            (case cancel of None \<Rightarrow> cancellation_requested state | Some c \<Rightarrow> c)\<rparr>))))"

section \<open>Behaviour of single operations\<close>

lemma validate_transition_ok [res_simps]:
  "validate_transition c t = Inr u \<longleftrightarrow> t \<in> set (ALLOWED_TRANSITIONS c)"
  by (cases c) (auto simp: validate_transition_def TERMINAL_STATUSES_def)

lemma terminal_no_transitions: "terminal c \<longleftrightarrow> ALLOWED_TRANSITIONS c = []"
  by (cases c) (auto simp: TERMINAL_STATUSES_def)

lemma check_event_budget_ok [res_simps]:
  "check_event_budget s = Inr u \<longleftrightarrow> int (length (events s)) + 1 \<le> max_events (budget s)"
  by (auto simp: check_event_budget_def)

lemma new_WorkflowEvent_ok [res_simps]: "new_WorkflowEvent e = Inr e' \<longleftrightarrow> event_valid e \<and> e' = e"
  by (auto simp: new_WorkflowEvent_def)

lemma new_WorkflowState_ok [res_simps]: "new_WorkflowState s = Inr s' \<longleftrightarrow> state_valid s \<and> s' = s"
  by (auto simp: new_WorkflowState_def)

lemma transition_ok:
  "transition s target i occ meta rc pc now = Inr t \<Longrightarrow>
     target \<in> set (ALLOWED_TRANSITIONS (status s)) \<and>
     (target = RUNNING \<longrightarrow> attempts s + 1 \<le> max_attempts (budget s)) \<and>
     int (length (events s)) + 1 \<le> max_events (budget s) \<and>
     state_valid t \<and>
     status t = target \<and> budget t = budget s \<and> workflow_id t = workflow_id s \<and>
     tenant_scope_fingerprint t = tenant_scope_fingerprint s \<and>
     current_stage t = current_stage s \<and>
     attempts t = attempts s + (if target = RUNNING then 1 else 0) \<and>
     (\<exists>e. event_valid e \<and> from_status e = status s \<and> to_status e = target \<and>
          ev_workflow_id e = workflow_id s \<and> events t = events s @ [e])"
  by (fastforce simp: transition_def res_simps split: if_splits)

lemma checkpoint_ok:
  "checkpoint s stage i occ meta g c b now = Inr t \<Longrightarrow>
     \<not> terminal (status s) \<and>
     int (length (events s)) + 1 \<le> max_events (budget s) \<and>
     state_valid t \<and> status t = status s \<and> attempts t = attempts s \<and> budget t = budget s \<and>
     workflow_id t = workflow_id s \<and> current_stage t = Some stage \<and>
     tenant_scope_fingerprint t = tenant_scope_fingerprint s \<and>
     (\<exists>e. event_valid e \<and> from_status e = status s \<and> to_status e = status s \<and>
          ev_workflow_id e = workflow_id s \<and> events t = events s @ [e] \<and>
          fmlookup (metadata e) ''stage'' = Some (stage_value stage))"
  by (fastforce simp: checkpoint_def res_simps split: if_splits)

section \<open>Runs of a workflow\<close>

text \<open>A fresh workflow, and one application of an operation that returns normally.\<close>

definition wf_init :: "WorkflowState \<Rightarrow> bool" where
  "wf_init s \<longleftrightarrow> state_valid s \<and> budget_valid (budget s) \<and>
     status s = CREATED \<and> attempts s = 0 \<and> events s = []"

inductive wf_step :: "WorkflowState \<Rightarrow> WorkflowState \<Rightarrow> bool" where
  wf_transition: "transition s target i occ meta rc pc now = Inr t \<Longrightarrow> wf_step s t"
| wf_checkpoint: "checkpoint s stage i occ meta g c b now = Inr t \<Longrightarrow> wf_step s t"

text \<open>
  The event log read as a path: it starts in \<open>CREATED\<close>, every event is an allowed transition
  or a checkpoint of a non-terminal status, consecutive events are linked, and it ends in the
  current status.
\<close>

fun history_ok :: "WorkflowStatus \<Rightarrow> WorkflowEvent list \<Rightarrow> WorkflowStatus \<Rightarrow> bool" where
  "history_ok c [] d \<longleftrightarrow> c = d"
| "history_ok c (e # es) d \<longleftrightarrow>
     from_status e = c \<and>
     (to_status e \<in> set (ALLOWED_TRANSITIONS c) \<or> to_status e = c \<and> \<not> terminal c) \<and>
     history_ok (to_status e) es d"

definition started :: "WorkflowEvent \<Rightarrow> bool" where
  "started e \<longleftrightarrow> from_status e = QUEUED \<and> to_status e = RUNNING"

definition wf_inv :: "WorkflowState \<Rightarrow> bool" where
  "wf_inv s \<longleftrightarrow>
     state_valid s \<and> budget_valid (budget s) \<and>
     int (length (events s)) \<le> max_events (budget s) \<and>
     attempts s \<le> max_attempts (budget s) \<and>
     attempts s = int (length (filter started (events s))) \<and>
     history_ok CREATED (events s) (status s) \<and>
     list_all (\<lambda>e. event_valid e \<and> ev_workflow_id e = workflow_id s) (events s)"

lemma history_ok_snoc:
  "history_ok c (es @ [e]) d \<longleftrightarrow>
     (\<exists>m. history_ok c es m \<and> from_status e = m \<and>
          (to_status e \<in> set (ALLOWED_TRANSITIONS m) \<or> to_status e = m \<and> \<not> terminal m) \<and>
          to_status e = d)"
  by (induction es arbitrary: c) auto

lemma to_running_from_queued: "RUNNING \<in> set (ALLOWED_TRANSITIONS c) \<longleftrightarrow> c = QUEUED"
  by (cases c) auto

lemma allowed_not_self: "c \<notin> set (ALLOWED_TRANSITIONS c)"
  by (cases c) auto

lemma wf_step_transition_inv:
  assumes "wf_inv s" "transition s target i occ meta rc pc now = Inr t"
  shows "wf_inv t"
proof -
  from transition_ok [OF assms(2)] obtain e where
    e: "from_status e = status s" "to_status e = target" "ev_workflow_id e = workflow_id s"
      "event_valid e"
    and guards: "target \<in> set (ALLOWED_TRANSITIONS (status s))"
      "target = RUNNING \<longrightarrow> attempts s + 1 \<le> max_attempts (budget s)"
      "int (length (events s)) + 1 \<le> max_events (budget s)" "state_valid t"
    and t: "status t = target" "events t = events s @ [e]" "budget t = budget s"
      "attempts t = attempts s + (if target = RUNNING then 1 else 0)"
      "workflow_id t = workflow_id s"
    by blast
  have "started e \<longleftrightarrow> target = RUNNING"
    using guards(1) by (auto simp: started_def e to_running_from_queued)
  with assms(1) e guards t show ?thesis
    by (auto simp: wf_inv_def history_ok_snoc)
qed

lemma wf_step_checkpoint_inv:
  assumes "wf_inv s" "checkpoint s stage i occ meta g c b now = Inr t"
  shows "wf_inv t"
proof -
  from checkpoint_ok [OF assms(2)] obtain e where
    e: "from_status e = status s" "to_status e = status s" "ev_workflow_id e = workflow_id s"
      "event_valid e"
    and t: "\<not> terminal (status s)" "status t = status s" "events t = events s @ [e]"
      "budget t = budget s" "attempts t = attempts s" "workflow_id t = workflow_id s"
      "int (length (events s)) + 1 \<le> max_events (budget s)" "state_valid t"
    by blast
  have "\<not> started e" using e by (auto simp: started_def)
  with assms(1) e t show ?thesis by (auto simp: wf_inv_def history_ok_snoc)
qed

lemma wf_step_spends: "wf_step s t \<Longrightarrow> length (events t) = Suc (length (events s)) \<and> budget t = budget s"
proof (induction rule: wf_step.induct)
  case (wf_transition s target i occ meta rc pc now t)
  then obtain e where "events t = events s @ [e]" "budget t = budget s"
    by (blast dest: transition_ok)
  then show ?case by simp
next
  case (wf_checkpoint s stage i occ meta g c b now t)
  then obtain e where "events t = events s @ [e]" "budget t = budget s"
    by (blast dest: checkpoint_ok)
  then show ?case by simp
qed

interpretation wf: spending_system wf_init wf_step wf_inv
  "\<lambda>s. length (events s)" "\<lambda>s. nat (max_events (budget s))"
proof unfold_locales
  show "wf_inv s" if "wf_init s" for s
    using that by (auto simp: wf_init_def wf_inv_def budget_valid_def)
  show "wf_inv t" if "wf_inv s" "wf_step s t" for s t
    using that(2,1)
    by (induction rule: wf_step.induct) (auto intro: wf_step_transition_inv wf_step_checkpoint_inv)
  show "length (events t) = Suc (length (events s))" if "wf_step s t" for s t
    using wf_step_spends [OF that] by simp
  show "nat (max_events (budget t)) = nat (max_events (budget s))" if "wf_step s t" for s t
    using wf_step_spends [OF that] by simp
  show "length (events s) \<le> nat (max_events (budget s))" if "wf_inv s" for s
    using that by (auto simp: wf_inv_def)
qed

text \<open>
  C9.  Budgets and audit trail of every reachable workflow: the attempt counter never exceeds
  the attempt budget and equals the number of recorded entries into \<open>RUNNING\<close>, the event log
  never exceeds its budget, the log is a linked path of allowed moves from \<open>CREATED\<close> to the
  current status, and every event belongs to this workflow.
\<close>

theorem reachable_workflow_invariant:
  assumes "reachable wf_init wf_step s"
  shows "attempts s \<le> max_attempts (budget s) \<and>
         attempts s = int (length (filter started (events s))) \<and>
         int (length (events s)) \<le> max_events (budget s) \<and>
         history_ok CREATED (events s) (status s) \<and>
         list_all (\<lambda>e. ev_workflow_id e = workflow_id s) (events s) \<and> state_valid s"
  using wf.reachable_inv [OF assms] by (auto simp: wf_inv_def list_all_iff)

text \<open>
  C20.  Every workflow is bounded work: from a fresh workflow no more than \<open>max_events\<close>
  operations can succeed, whatever their order, so at most 10000.
\<close>

theorem workflow_runs_are_bounded:
  assumes "wf_init s" and "run wf_step n s t"
  shows "int n \<le> max_events (budget s) \<and> n \<le> 10000"
proof -
  have inv: "wf_inv s" using assms(1) by (rule wf.inv_init)
  have "n \<le> nat (max_events (budget s))"
    using wf.run_bounded [OF assms(2) inv] by simp
  moreover have "1 \<le> max_events (budget s)" "max_events (budget s) \<le> 10000"
    using inv by (auto simp: wf_inv_def budget_valid_def)
  ultimately show ?thesis by linarith
qed

text \<open>
  Terminal statuses are absorbing: once a workflow is \<open>SUCCEEDED\<close>, \<open>FAILED\<close> or
  \<open>CLOSED\<close>, every transition and every checkpoint raises \<open>WorkflowTransitionError\<close> before
  any budget is consulted, for every target, stage and argument.
\<close>

theorem terminal_workflow_is_frozen:
  assumes "terminal (status s)"
  shows "(\<exists>m d. transition s target i occ meta rc pc now = Inl (WorkflowTransitionError m d)) \<and>
         (\<exists>m d. checkpoint s stage i' occ' meta' g c b now' = Inl (WorkflowTransitionError m d))"
  using assms by (auto simp: transition_def checkpoint_def validate_transition_def)

lemma transition_ok_iff:
  assumes "state_valid s" and "budget_valid (budget s)"
  shows "is_ok (transition s target i occ meta rc pc now) \<longleftrightarrow>
    target \<in> set (ALLOWED_TRANSITIONS (status s)) \<and>
    (target = RUNNING \<longrightarrow> attempts s < max_attempts (budget s)) \<and>
    int (length (events s)) < max_events (budget s) \<and>
    identifier_ok i \<and> fcard (fmdom meta) \<le> 32 \<and>
    opt_all (\<lambda>n. 0 \<le> n \<and> n \<le> 100) rc \<and> opt_all (\<lambda>n. 0 \<le> n \<and> n \<le> 100) pc"
  using assms
  by (cases rc; cases pc)
     (auto simp: transition_def res_simps state_valid_def budget_valid_def event_valid_def)

text \<open>
  Exact success condition of \<open>transition\<close>: on a valid state with a valid budget it
  returns normally if and only if the move is allowed, the attempt budget covers an entry into
  \<open>RUNNING\<close>, the event budget covers one more event, the event is well-formed and the optional
  counters are in range; in every other case it raises.
\<close>

theorem transition_succeeds_iff:
  assumes "state_valid s" and "budget_valid (budget s)"
  shows "is_ok (transition s target i occ meta rc pc now) \<longleftrightarrow>
    target \<in> set (ALLOWED_TRANSITIONS (status s)) \<and>
    (target = RUNNING \<longrightarrow> attempts s < max_attempts (budget s)) \<and>
    int (length (events s)) < max_events (budget s) \<and>
    identifier_ok i \<and> fcard (fmdom meta) \<le> 32 \<and>
    opt_all (\<lambda>n. 0 \<le> n \<and> n \<le> 100) rc \<and> opt_all (\<lambda>n. 0 \<le> n \<and> n \<le> 100) pc"
  using assms by (rule transition_ok_iff)

text \<open>
  C28.  A workflow can always be ended while it has an event left, and only then: from every reachable
  workflow that is not terminal, the transition to \<open>FAILED\<close> succeeds exactly when the event budget is
  not exhausted; once it is exhausted, no operation succeeds any more and the workflow stays where it is.
\<close>

theorem workflow_can_end_iff_budget_left:
  assumes "reachable wf_init wf_step s" and "\<not> terminal (status s)" and "identifier_ok i"
  shows "((\<exists>t. transition s FAILED i occ fmempty None None now = Inr t \<and> status t = FAILED) \<longleftrightarrow>
            int (length (events s)) < max_events (budget s)) \<and>
    (int (length (events s)) = max_events (budget s) \<longrightarrow> (\<nexists>t. wf_step s t))"
proof -
  have inv: "wf_inv s" by (rule wf.reachable_inv [OF assms(1)])
  then have valid: "state_valid s" "budget_valid (budget s)" by (simp_all add: wf_inv_def)
  have "FAILED \<in> set (ALLOWED_TRANSITIONS (status s))" using assms(2) by (cases "status s") (simp_all add: TERMINAL_STATUSES_def)
  then have "is_ok (transition s FAILED i occ fmempty None None now) \<longleftrightarrow> int (length (events s)) < max_events (budget s)"
    using transition_ok_iff [OF valid, of FAILED i occ fmempty None None now] assms(3) by simp
  moreover have "status t = FAILED" if "transition s FAILED i occ fmempty None None now = Inr t" for t
    using that by (auto simp: transition_def res_simps bind_res_Inr_iff new_WorkflowState_def split: if_splits)
  moreover have "\<nexists>t. wf_step s t" if "int (length (events s)) = max_events (budget s)"
  proof
    assume "\<exists>t. wf_step s t"
    then obtain t where t: "wf_step s t" by blast
    from wf.spent_step [OF inv t] wf.allowance_step [OF inv t] wf.within_allowance [OF wf.inv_step [OF inv t]] that
    show False by simp
  qed
  ultimately show ?thesis by (auto simp: is_ok_iff)
qed

text \<open>
  The public retryability of workflow errors: \<open>to_record\<close> publishes every error of the
  workflow category as retryable, also the transition, budget and store-conflict errors that
  are constructed with \<open>retryable=False\<close>.
\<close>

theorem workflow_errors_published_retryable:
  assumes "x = WorkflowStateError m d False \<or> x = WorkflowTransitionError m d
           \<or> x = WorkflowBudgetError m d" and "as_error_record x = Inr r"
  shows "rec_retryable r"
  using assms
  by (auto simp: as_error_record_def to_record_def new_ErrorRecord_def RETRYABLE_CATEGORIES_def
        WorkflowStateError_def WorkflowTransitionError_def WorkflowBudgetError_def Let_def
      split: if_splits)

section \<open>Concrete runs\<close>

definition sample_wf :: WorkflowState where
  "sample_wf =
     \<lparr>version = 1, workflow_id = ''wf-1'', request_id = ''req-1'',
      tenant_scope_fingerprint = None, status = CREATED, attempts = 0, budget = default_budget,
      events = [], evidence_fingerprints = {||}, current_stage = None,
      gate_evidence_fingerprints = {||}, compatibility_fingerprints = fmempty,
      cancellation_requested = False, deadline_at = None, retry_count = 0, repair_count = 0\<rparr>"

definition sample_event :: "WorkflowStatus \<Rightarrow> WorkflowStatus \<Rightarrow> WorkflowEvent" where
  "sample_event c d =
     \<lparr>event_id = ''e1'', ev_workflow_id = ''wf-1'', from_status = c, to_status = d,
      occurred_at = 5, metadata = fmempty\<rparr>"

definition sample_queued :: WorkflowState where
  "sample_queued = sample_wf\<lparr>status := QUEUED, events := [sample_event CREATED QUEUED]\<rparr>"

definition sample_failed :: WorkflowState where
  "sample_failed = sample_wf\<lparr>status := FAILED, events := [sample_event CREATED FAILED]\<rparr>"

lemmas sample_wf_defs =
  sample_wf_def sample_event_def sample_queued_def sample_failed_def default_budget_def

lemma sample_wf_valid: "state_valid sample_wf \<and> budget_valid (budget sample_wf)"
  by (simp add: sample_wf_defs state_valid_def budget_valid_def pattern_simps)

lemma sample_wf_init: "wf_init sample_wf"
  using sample_wf_valid by (simp add: wf_init_def sample_wf_defs)

lemma sample_transition: "transition sample_wf QUEUED ''e1'' (Some 5) fmempty None None 9 = Inr sample_queued"
  by (simp add: transition_def validate_transition_def check_event_budget_def
      new_WorkflowEvent_def new_WorkflowState_def event_valid_def state_valid_def
      TERMINAL_STATUSES_def sample_wf_defs pattern_simps)

lemma sample_step: "wf_step sample_wf sample_queued"
  by (rule wf_step.wf_transition) (rule sample_transition)

theorem reachable_workflow_invariant_witness:
  "reachable wf_init wf_step sample_queued \<and>
   attempts sample_queued \<le> max_attempts (budget sample_queued) \<and>
   history_ok CREATED (events sample_queued) QUEUED"
proof -
  have r: "reachable wf_init wf_step sample_queued"
    using sample_wf_init sample_step by (blast intro: reachable.intros)
  have "status sample_queued = QUEUED" by (simp add: sample_wf_defs)
  with r reachable_workflow_invariant [OF r] show ?thesis by simp
qed

theorem workflow_runs_are_bounded_witness:
  "wf_init sample_wf \<and> run wf_step 1 sample_wf sample_queued \<and>
   int 1 \<le> max_events (budget sample_wf)"
proof -
  have r: "run wf_step 1 sample_wf sample_queued"
    using run_more [of wf_step 0, OF run_none sample_step] by simp
  show ?thesis using sample_wf_init r workflow_runs_are_bounded [OF sample_wf_init r] by simp
qed

theorem terminal_workflow_is_frozen_witness:
  "terminal (status sample_failed) \<and>
   (\<exists>m d. transition sample_failed QUEUED ''e2'' None fmempty None None 9
          = Inl (WorkflowTransitionError m d))"
proof -
  have t: "terminal (status sample_failed)" by (simp add: sample_wf_defs TERMINAL_STATUSES_def)
  show ?thesis using t terminal_workflow_is_frozen [OF t] by blast
qed

theorem transition_succeeds_iff_witness:
  "state_valid sample_wf \<and> budget_valid (budget sample_wf) \<and>
   is_ok (transition sample_wf QUEUED ''e1'' None fmempty None None 9) \<and>
   \<not> is_ok (transition sample_wf RUNNING ''e1'' None fmempty None None 9)"
  using sample_wf_valid transition_succeeds_iff [of sample_wf QUEUED "''e1''" None fmempty None None 9]
    transition_succeeds_iff [of sample_wf RUNNING "''e1''" None fmempty None None 9]
  by (simp add: sample_wf_defs pattern_simps)

theorem workflow_errors_published_retryable_witness:
  "as_error_record (WorkflowStateError ''conflict'' [(''token'', PyStr ''s3cr3t''), (''attempts'', PyInt 4)] False)
     = Inr sample_record \<and> rec_retryable sample_record"
proof -
  let ?d = "[(''token'', PyStr ''s3cr3t''), (''attempts'', PyInt 4)]"
  have r: "as_error_record (WorkflowStateError ''conflict'' ?d False) = Inr sample_record"
    by code_simp
  show ?thesis
    using r workflow_errors_published_retryable
      [of "WorkflowStateError ''conflict'' ?d False" "''conflict''" ?d, OF _ r] by blast
qed

theorem workflow_can_end_iff_budget_left_witness:
  "\<exists>t. transition sample_queued FAILED ''e2'' None fmempty None None 9 = Inr t \<and> status t = FAILED"
proof -
  have r: "reachable wf_init wf_step sample_queued"
    using sample_wf_init sample_step by (blast intro: reachable.intros)
  have "\<not> terminal (status sample_queued)" "identifier_ok ''e2''"
    by (simp_all add: sample_wf_defs TERMINAL_STATUSES_def pattern_simps)
  from workflow_can_end_iff_budget_left [OF r this, of None 9] show ?thesis by (simp add: sample_wf_defs)
qed

end
