(* ===== verification/Workflow_Snapshot.thy ===== *)
theory Workflow_Snapshot
  imports Workflow_State
begin

text \<open>
  Safe snapshots of workflow states: the \<open>serialize_safe\<close> methods of
  \<^verbatim>\<open>src/nl2data_core/workflow/models.py\<close>, and \<open>serialize_snapshot\<close> and
  \<open>deserialize_snapshot\<close> of \<^verbatim>\<open>src/nl2data_core/workflow/durable.py\<close>.

  A snapshot is modelled as the JSON document whose text \<open>json.dumps\<close> writes (object members
  in key order, as \<open>sort_keys=True\<close> writes them) and \<open>json.loads\<close> reads back; \<open>JText\<close> is a
  text that is not JSON.  \<open>JTime\<close> is the ISO text of an instant and \<open>JNum\<close> the text of a
  float.  Restoring accepts exactly the JSON types that \<open>serialize_safe\<close> writes.
\<close>

section \<open>Documents\<close>

datatype json =
    JNull | JBool bool | JInt int | JNum rat | JTime timestamp | JStr string
  | JArr "json list" | JObj "(string \<times> json) list" | JText string

fun members :: "json \<Rightarrow> (string, json) dict option" where
  "members (JObj ms) = Some ms"
| "members _ = None"

text \<open>A present optional value, or JSON null.\<close>

fun jopt :: "('a \<Rightarrow> json) \<Rightarrow> 'a option \<Rightarrow> json" where
  "jopt f None = JNull"
| "jopt f (Some x) = f x"

definition jstr_dict :: "(string, string) fmap \<Rightarrow> json" where
  "jstr_dict m = JObj (map (\<lambda>(k, v). (k, JStr v)) (sorted_list_of_fmap m))"

definition jstr_set :: "string fset \<Rightarrow> json" where
  "jstr_set S = JArr (map JStr (sorted_list_of_fset S))"

section \<open>Safe serialization\<close>

definition event_serialize_safe :: "WorkflowEvent \<Rightarrow> json" where
  "event_serialize_safe e =
     JObj [(''event_id'', JStr (event_id e)),
           (''from_status'', JStr (status_value (from_status e))),
           (''metadata'', jstr_dict (metadata e)),
           (''occurred_at'', JTime (occurred_at e)),
           (''to_status'', JStr (status_value (to_status e))),
           (''workflow_id'', JStr (ev_workflow_id e))]"

definition budget_document :: "WorkflowBudget \<Rightarrow> json" where
  "budget_document b =
     JObj [(''max_attempts'', JInt (max_attempts b)),
           (''max_duration_seconds'', JNum (max_duration_seconds b)),
           (''max_events'', JInt (max_events b)),
           (''max_repairs'', JInt (max_repairs b)),
           (''max_retries'', JInt (max_retries b))]"

definition serialize_safe :: "WorkflowState \<Rightarrow> (string, json) dict" where
  "serialize_safe s =
     [(''attempts'', JInt (attempts s)),
      (''budget'', budget_document (budget s)),
      (''cancellation_requested'', JBool (cancellation_requested s)),
      (''compatibility_fingerprints'', jstr_dict (compatibility_fingerprints s)),
      (''current_stage'', jopt (\<lambda>st. JStr (stage_value st)) (current_stage s)),
      (''deadline_at'', jopt JTime (deadline_at s)),
      (''events'', JArr (map event_serialize_safe (events s))),
      (''evidence_fingerprints'', jstr_set (evidence_fingerprints s)),
      (''gate_evidence_fingerprints'', jstr_set (gate_evidence_fingerprints s)),
      (''repair_count'', JInt (repair_count s)),
      (''request_id'', JStr (request_id s)),
      (''retry_count'', JInt (retry_count s)),
      (''status'', JStr (status_value (status s))),
      (''tenant_scope_fingerprint'', jopt JStr (tenant_scope_fingerprint s)),
      (''version'', JInt (version s)),
      (''workflow_id'', JStr (workflow_id s))]"

definition SNAPSHOT_SCHEMA_VERSION :: int where
  "SNAPSHOT_SCHEMA_VERSION = 1"

definition serialize_snapshot :: "WorkflowState \<Rightarrow> json" where
  "serialize_snapshot s =
     JObj [(''schema_version'', JInt SNAPSHOT_SCHEMA_VERSION), (''state'', JObj (serialize_safe s))]"

section \<open>Restoring\<close>

definition RAW_PAYLOAD_FIELDS :: "string list" where
  "RAW_PAYLOAD_FIELDS =
     [''prompt'', ''raw_prompt'', ''query'', ''raw_query'', ''sql'', ''statement'', ''result'',
      ''raw_result'', ''rows'', ''credentials'', ''password'', ''secret'', ''token'', ''api_key'',
      ''authorization'', ''cookie'', ''private_key'', ''connection'', ''cursor'', ''provider'',
      ''client'', ''session'']"

definition WorkflowSerializationError :: "string \<Rightarrow> ErrorCode \<Rightarrow> (string, pyval) dict \<Rightarrow> exn" where
  "WorkflowSerializationError message code details =
     NL2DataError \<lparr>err_class = ''WorkflowSerializationError'', err_category = CAT_WORKFLOW,
       err_code = code, err_message = message, err_retryable = False, err_details = details\<rparr>"

text \<open>Field parsers of the model: each accepts the JSON type the field is written with.\<close>

fun as_int :: "json \<Rightarrow> int res" where
  "as_int (JInt i) = Inr i" | "as_int _ = Inl ValidationError"

fun as_num :: "json \<Rightarrow> rat res" where
  "as_num (JNum q) = Inr q" | "as_num _ = Inl ValidationError"

fun as_str :: "json \<Rightarrow> string res" where
  "as_str (JStr s) = Inr s" | "as_str _ = Inl ValidationError"

fun as_bool :: "json \<Rightarrow> bool res" where
  "as_bool (JBool b) = Inr b" | "as_bool _ = Inl ValidationError"

fun as_time :: "json \<Rightarrow> timestamp res" where
  "as_time (JTime t) = Inr t" | "as_time _ = Inl ValidationError"

fun as_list :: "json \<Rightarrow> json list res" where
  "as_list (JArr xs) = Inr xs" | "as_list _ = Inl ValidationError"

fun as_opt :: "(json \<Rightarrow> 'a res) \<Rightarrow> json \<Rightarrow> 'a option res" where
  "as_opt f JNull = Inr None"
| "as_opt f j = bind_res (f j) (\<lambda>x. Inr (Some x))"

fun map_res :: "('a \<Rightarrow> 'e + 'b) \<Rightarrow> 'a list \<Rightarrow> 'e + 'b list" where
  "map_res f [] = Inr []"
| "map_res f (x # xs) = bind_res (f x) (\<lambda>y. bind_res (map_res f xs) (\<lambda>ys. Inr (y # ys)))"

definition as_str_set :: "json \<Rightarrow> string fset res" where
  "as_str_set j = bind_res (as_list j) (\<lambda>xs. bind_res (map_res as_str xs) (\<lambda>ss. Inr (fset_of_list ss)))"

definition as_str_dict :: "json \<Rightarrow> (string, string) fmap res" where
  "as_str_dict j =
     (case members j of
        None \<Rightarrow> Inl ValidationError
      | Some ms \<Rightarrow> bind_res (map_res (\<lambda>(k, v). bind_res (as_str v) (\<lambda>s. Inr (k, s))) ms)
                    (\<lambda>kvs. Inr (fmap_of_list kvs)))"

definition parse_status :: "json \<Rightarrow> WorkflowStatus res" where
  "parse_status j = bind_res (as_str j) (\<lambda>v.
     (case find (\<lambda>st. status_value st = v) [CREATED, QUEUED, RUNNING, SUCCEEDED, FAILED, CLOSED] of
        None \<Rightarrow> Inl ValidationError | Some st \<Rightarrow> Inr st))"

definition parse_stage :: "json \<Rightarrow> WorkflowStage res" where
  "parse_stage j = bind_res (as_str j) (\<lambda>v.
     (case find (\<lambda>st. stage_value st = v)
             [INITIALIZE, MEMORY, INTENT, PLAN, VALIDATE, COMPILE, GUARD, GOVERN, AUTHORIZE,
              EXECUTE, PROTECT, PERSIST, COMPLETE] of
        None \<Rightarrow> Inl ValidationError | Some st \<Rightarrow> Inr st))"

text \<open>A required member and an optional member with its default.\<close>

definition required :: "(string, json) dict \<Rightarrow> string \<Rightarrow> (json \<Rightarrow> 'a res) \<Rightarrow> 'a res" where
  "required ms k f = (case dict_get ms k of None \<Rightarrow> Inl ValidationError | Some j \<Rightarrow> f j)"

definition optional :: "(string, json) dict \<Rightarrow> string \<Rightarrow> (json \<Rightarrow> 'a res) \<Rightarrow> 'a \<Rightarrow> 'a res" where
  "optional ms k f dflt = (case dict_get ms k of None \<Rightarrow> Inr dflt | Some j \<Rightarrow> f j)"

definition no_extra :: "(string, json) dict \<Rightarrow> string list \<Rightarrow> unit res" where
  "no_extra ms names = ensure (list_all (\<lambda>(k, _). k \<in> set names) ms) ValidationError"

text \<open>\<open>clock\<close> is the default of an event's \<open>occurred_at\<close>.\<close>

definition parse_event :: "timestamp \<Rightarrow> json \<Rightarrow> WorkflowEvent res" where
  "parse_event clock j =
     (case members j of
        None \<Rightarrow> Inl ValidationError
      | Some ms \<Rightarrow>
          bind_res (no_extra ms [''event_id'', ''workflow_id'', ''from_status'', ''to_status'',
                                 ''occurred_at'', ''metadata'']) (\<lambda>_.
          bind_res (required ms ''event_id'' as_str) (\<lambda>eid.
          bind_res (required ms ''workflow_id'' as_str) (\<lambda>wid.
          bind_res (required ms ''from_status'' parse_status) (\<lambda>c.
          bind_res (required ms ''to_status'' parse_status) (\<lambda>d.
          bind_res (optional ms ''occurred_at'' as_time clock) (\<lambda>t.
          bind_res (optional ms ''metadata'' as_str_dict fmempty) (\<lambda>m.
          new_WorkflowEvent
            \<lparr>event_id = eid, ev_workflow_id = wid, from_status = c, to_status = d,
             occurred_at = t, metadata = m\<rparr>))))))))"

definition new_WorkflowBudget :: "WorkflowBudget \<Rightarrow> WorkflowBudget res" where
  "new_WorkflowBudget b = (if budget_valid b then Inr b else Inl ValidationError)"

definition parse_budget :: "json \<Rightarrow> WorkflowBudget res" where
  "parse_budget j =
     (case members j of
        None \<Rightarrow> Inl ValidationError
      | Some ms \<Rightarrow>
          bind_res (no_extra ms [''max_attempts'', ''max_events'', ''max_retries'',
                                 ''max_repairs'', ''max_duration_seconds'']) (\<lambda>_.
          bind_res (optional ms ''max_attempts'' as_int 3) (\<lambda>a.
          bind_res (optional ms ''max_events'' as_int 100) (\<lambda>e.
          bind_res (optional ms ''max_retries'' as_int 3) (\<lambda>r.
          bind_res (optional ms ''max_repairs'' as_int 1) (\<lambda>p.
          bind_res (optional ms ''max_duration_seconds'' as_num 300) (\<lambda>d.
          new_WorkflowBudget
            \<lparr>max_attempts = a, max_events = e, max_retries = r, max_repairs = p,
             max_duration_seconds = d\<rparr>)))))))"

definition STATE_FIELDS :: "string list" where
  "STATE_FIELDS =
     [''version'', ''workflow_id'', ''request_id'', ''tenant_scope_fingerprint'', ''status'',
      ''attempts'', ''budget'', ''events'', ''evidence_fingerprints'', ''current_stage'',
      ''gate_evidence_fingerprints'', ''compatibility_fingerprints'', ''cancellation_requested'',
      ''deadline_at'', ''retry_count'', ''repair_count'']"

definition parse_state :: "timestamp \<Rightarrow> (string, json) dict \<Rightarrow> WorkflowState res" where
  "parse_state clock ms =
     bind_res (no_extra ms STATE_FIELDS) (\<lambda>_.
     bind_res (optional ms ''version'' as_int 1) (\<lambda>v.
     bind_res (required ms ''workflow_id'' as_str) (\<lambda>wid.
     bind_res (required ms ''request_id'' as_str) (\<lambda>rid.
     bind_res (optional ms ''tenant_scope_fingerprint'' (as_opt as_str) None) (\<lambda>scope.
     bind_res (optional ms ''status'' parse_status CREATED) (\<lambda>st.
     bind_res (optional ms ''attempts'' as_int 0) (\<lambda>att.
     bind_res (optional ms ''budget'' parse_budget default_budget) (\<lambda>b.
     bind_res (optional ms ''events'' (\<lambda>j. bind_res (as_list j) (map_res (parse_event clock))) []) (\<lambda>evs.
     bind_res (optional ms ''evidence_fingerprints'' as_str_set {||}) (\<lambda>ev_fps.
     bind_res (optional ms ''current_stage'' (as_opt parse_stage) None) (\<lambda>stage.
     bind_res (optional ms ''gate_evidence_fingerprints'' as_str_set {||}) (\<lambda>gates.
     bind_res (optional ms ''compatibility_fingerprints'' as_str_dict fmempty) (\<lambda>comp.
     bind_res (optional ms ''cancellation_requested'' as_bool False) (\<lambda>cancel.
     bind_res (optional ms ''deadline_at'' (as_opt as_time) None) (\<lambda>dl.
     bind_res (optional ms ''retry_count'' as_int 0) (\<lambda>rc.
     bind_res (optional ms ''repair_count'' as_int 0) (\<lambda>pc.
     new_WorkflowState
       \<lparr>version = v, workflow_id = wid, request_id = rid, tenant_scope_fingerprint = scope,
        status = st, attempts = att, budget = b, events = evs, evidence_fingerprints = ev_fps,
        current_stage = stage, gate_evidence_fingerprints = gates,
        compatibility_fingerprints = comp, cancellation_requested = cancel, deadline_at = dl,
        retry_count = rc, repair_count = pc\<rparr>)))))))))))))))))"

text \<open>\<open>except ValidationError\<close> turns a model failure into a serialization error.\<close>

fun on_validation_error :: "'a res \<Rightarrow> exn \<Rightarrow> 'a res" where
  "on_validation_error (Inl ValidationError) x = Inl x"
| "on_validation_error r x = r"

text \<open>Python's \<open>version != 1\<close>: the boolean true and the float 1.0 are equal to 1 too.\<close>

fun is_version_one :: "json option \<Rightarrow> bool" where
  "is_version_one (Some (JInt i)) \<longleftrightarrow> i = SNAPSHOT_SCHEMA_VERSION"
| "is_version_one (Some (JNum q)) \<longleftrightarrow> q = of_int SNAPSHOT_SCHEMA_VERSION"
| "is_version_one (Some (JBool b)) \<longleftrightarrow> b"
| "is_version_one _ \<longleftrightarrow> False"

definition deserialize_snapshot :: "timestamp \<Rightarrow> json \<Rightarrow> WorkflowState res" where
  "deserialize_snapshot clock payload =
     (case payload of
        JText _ \<Rightarrow>
          Inl (WorkflowSerializationError ''durable snapshot is not valid JSON'' INVALID_INPUT
                 [(''cause_type'', PyStr ''JSONDecodeError'')])
      | JObj document \<Rightarrow>
          (if \<not> is_version_one (dict_get document ''schema_version'') then
             Inl (WorkflowSerializationError ''unsupported durable snapshot schema version''
                    UNSUPPORTED_SCHEMA_VERSION [])
           else
             (case dict_get document ''state'' of
                Some (JObj state_document) \<Rightarrow>
                  (if list_ex (\<lambda>(k, _). k \<in> set RAW_PAYLOAD_FIELDS) state_document then
                     Inl (WorkflowSerializationError ''durable snapshot contains raw payload fields''
                            INVALID_INPUT [])
                   else on_validation_error (parse_state clock state_document)
                          (WorkflowSerializationError ''durable snapshot is not a valid workflow state''
                             INVALID_INPUT [(''cause_type'', PyStr ''ValidationError'')]))
              | _ \<Rightarrow> Inl (WorkflowSerializationError
                             ''durable snapshot is missing the safe state object'' INVALID_INPUT [])))
      | _ \<Rightarrow> Inl (WorkflowSerializationError ''durable snapshot must be a JSON object''
                    INVALID_INPUT []))"

section \<open>Round trip\<close>

lemma map_res_map:
  "(\<And>x. x \<in> set xs \<Longrightarrow> f (g x) = Inr (h x)) \<Longrightarrow> map_res f (map g xs) = Inr (map h xs)"
  by (induction xs) auto

lemma map_res_Inr_set:
  "map_res f xs = Inr ys \<Longrightarrow> y \<in> set ys \<Longrightarrow> \<exists>x \<in> set xs. f x = Inr y"
  by (induction xs arbitrary: ys) (auto simp: bind_res_Inr_iff)

lemma as_str_set_jstr_set [simp]: "as_str_set (jstr_set S) = Inr S"
  by (simp add: as_str_set_def jstr_set_def map_res_map [where h = "\<lambda>x. x"])

lemma as_str_dict_jstr_dict [simp]: "as_str_dict (jstr_dict m) = Inr m"
proof -
  have "map_res (\<lambda>(k, v). bind_res (as_str v) (\<lambda>s. Inr (k, s)))
          (map (\<lambda>(k, v). (k, JStr v)) (sorted_list_of_fmap m)) = Inr (map (\<lambda>x. x) (sorted_list_of_fmap m))"
    by (rule map_res_map) auto
  then show ?thesis by (simp add: as_str_dict_def jstr_dict_def)
qed

lemma parse_status_value [simp]: "parse_status (JStr (status_value st)) = Inr st"
  by (cases st) (simp_all add: parse_status_def)

lemma parse_stage_value [simp]: "parse_stage (JStr (stage_value st)) = Inr st"
  by (cases st) (simp_all add: parse_stage_def)

lemma as_opt_not_null: "j \<noteq> JNull \<Longrightarrow> as_opt f j = bind_res (f j) (\<lambda>x. Inr (Some x))"
  by (cases j) auto

lemma as_opt_jopt:
  "(\<And>x. f (g x) = Inr x) \<Longrightarrow> (\<And>x. g x \<noteq> JNull) \<Longrightarrow> as_opt f (jopt g v) = Inr v"
  by (cases v) (simp_all add: as_opt_not_null)

lemma parse_event_serialize [simp]:
  "event_valid e \<Longrightarrow> parse_event clock (event_serialize_safe e) = Inr e"
  by (cases e) (simp add: parse_event_def event_serialize_safe_def no_extra_def required_def optional_def
      new_WorkflowEvent_def)

lemma parse_budget_document [simp]: "budget_valid b \<Longrightarrow> parse_budget (budget_document b) = Inr b"
  by (cases b) (simp add: parse_budget_def budget_document_def no_extra_def optional_def
      new_WorkflowBudget_def)

text \<open>What a persisted state satisfies: the validity of the state and of its nested models.\<close>

definition snapshot_valid :: "WorkflowState \<Rightarrow> bool" where
  "snapshot_valid s \<longleftrightarrow> state_valid s \<and> budget_valid (budget s) \<and> list_all event_valid (events s)"

lemma wf_inv_snapshot_valid: "wf_inv s \<Longrightarrow> snapshot_valid s"
  by (auto simp: wf_inv_def snapshot_valid_def list_all_iff)

lemma parse_events_serialize:
  "list_all event_valid es \<Longrightarrow>
     map_res (parse_event clock) (map event_serialize_safe es) = Inr es"
  using map_res_map [of es "parse_event clock" event_serialize_safe "\<lambda>x. x"]
  by (simp add: list_all_iff)

lemma parse_state_serialize:
  assumes "snapshot_valid s"
  shows "parse_state clock (serialize_safe s) = Inr s"
proof -
  have "as_opt parse_stage (jopt (\<lambda>st. JStr (stage_value st)) (current_stage s)) = Inr (current_stage s)"
    "as_opt as_time (jopt JTime (deadline_at s)) = Inr (deadline_at s)"
    "as_opt as_str (jopt JStr (tenant_scope_fingerprint s)) = Inr (tenant_scope_fingerprint s)"
    by (simp_all add: as_opt_jopt)
  with assms show ?thesis
    by (cases s) (simp add: parse_state_def serialize_safe_def snapshot_valid_def no_extra_def required_def
        optional_def STATE_FIELDS_def new_WorkflowState_def parse_events_serialize)
qed

lemma serialize_safe_keys: "map fst (serialize_safe s) = 
  [''attempts'', ''budget'', ''cancellation_requested'', ''compatibility_fingerprints'',
   ''current_stage'', ''deadline_at'', ''events'', ''evidence_fingerprints'',
   ''gate_evidence_fingerprints'', ''repair_count'', ''request_id'', ''retry_count'', ''status'',
   ''tenant_scope_fingerprint'', ''version'', ''workflow_id'']"
  by (simp add: serialize_safe_def)

lemma serialize_safe_no_raw: "\<not> list_ex (\<lambda>(k, _). k \<in> set RAW_PAYLOAD_FIELDS) (serialize_safe s)"
proof -
  have "set (map fst (serialize_safe s)) \<inter> set RAW_PAYLOAD_FIELDS = {}"
    unfolding serialize_safe_keys by (simp add: RAW_PAYLOAD_FIELDS_def)
  then show ?thesis by (force simp: list_ex_iff)
qed

lemma deserialize_serialize:
  "snapshot_valid s \<Longrightarrow> deserialize_snapshot clock (serialize_snapshot s) = Inr s"
  using serialize_safe_no_raw [of s]
  by (simp add: deserialize_snapshot_def serialize_snapshot_def SNAPSHOT_SCHEMA_VERSION_def
      parse_state_serialize)

text \<open>
  C21.  Durable snapshots are lossless: every workflow state reachable through transitions and
  checkpoints is restored from its snapshot exactly as it was.
\<close>

theorem snapshot_roundtrip:
  assumes "reachable wf_init wf_step s"
  shows "deserialize_snapshot clock (serialize_snapshot s) = Inr s"
  using wf.reachable_inv [OF assms] by (intro deserialize_serialize wf_inv_snapshot_valid)

section \<open>Restoring fails closed\<close>

text \<open>Parsers raise nothing but pydantic's \<open>ValidationError\<close>.\<close>

definition validating :: "'a res \<Rightarrow> bool" where
  "validating r \<longleftrightarrow> (\<forall>x. r = Inl x \<longrightarrow> x = ValidationError)"

lemma validating_Inr [intro!, simp]: "validating (Inr x)"
  by (simp add: validating_def)

lemma validating_ValidationError [intro!, simp]: "validating (Inl ValidationError)"
  by (simp add: validating_def)

lemma validating_bind [intro!]:
  "validating m \<Longrightarrow> (\<And>x. validating (f x)) \<Longrightarrow> validating (bind_res m f)"
  by (auto simp: validating_def bind_res_Inl_iff)

lemma validating_map_res [intro!]: "(\<And>x. validating (f x)) \<Longrightarrow> validating (map_res f xs)"
  by (induction xs) auto

lemma validating_leaves [intro!, simp]:
  "validating (as_int j)" "validating (as_num j)" "validating (as_str j)" "validating (as_bool j)"
  "validating (as_time j)" "validating (as_list j)"
  by (cases j; simp)+

lemma validating_as_opt [intro!]: "(\<And>j. validating (f j)) \<Longrightarrow> validating (as_opt f j)"
  by (cases j) auto

lemma validating_required [intro!]: "(\<And>j. validating (f j)) \<Longrightarrow> validating (required ms k f)"
  by (auto simp: required_def split: option.split)

lemma validating_optional [intro!]: "(\<And>j. validating (f j)) \<Longrightarrow> validating (optional ms k f d)"
  by (auto simp: optional_def split: option.split)

lemma validating_no_extra [intro!, simp]: "validating (no_extra ms names)"
  by (simp add: validating_def no_extra_def)

lemma validating_constructors [intro!, simp]:
  "validating (new_WorkflowEvent e)" "validating (new_WorkflowBudget b)"
  "validating (new_WorkflowState s)"
  by (simp_all add: new_WorkflowEvent_def new_WorkflowBudget_def new_WorkflowState_def)

lemma validating_parsers [intro!, simp]:
  "validating (parse_status j)" "validating (parse_stage j)" "validating (as_str_set j)"
  "validating (as_str_dict j)"
  by (auto simp: parse_status_def parse_stage_def as_str_set_def as_str_dict_def
      split: option.split prod.split)

lemma validating_parse_event [intro!, simp]: "validating (parse_event clock j)"
  unfolding parse_event_def by (auto split: option.split)

lemma validating_parse_budget [intro!, simp]: "validating (parse_budget j)"
  unfolding parse_budget_def by (auto split: option.split)

lemma validating_parse_state: "validating (parse_state clock ms)"
  unfolding parse_state_def by (intro validating_bind) auto

lemma parse_event_valid: "parse_event clock j = Inr e \<Longrightarrow> event_valid e"
  by (auto simp: parse_event_def res_simps split: option.splits)

lemma parse_budget_valid: "parse_budget j = Inr b \<Longrightarrow> budget_valid b"
  by (auto simp: parse_budget_def res_simps new_WorkflowBudget_def split: option.splits if_splits)

lemma optional_cases:
  "optional ms k f d = Inr v \<Longrightarrow> v = d \<or> (\<exists>j. f j = Inr v)"
  by (auto simp: optional_def split: option.splits)

lemma parse_state_valid:
  assumes "parse_state clock ms = Inr s"
  shows "snapshot_valid s"
proof -
  from assms obtain b evs where
    b: "optional ms ''budget'' parse_budget default_budget = Inr b" "budget s = b"
    and evs: "optional ms ''events''
       (\<lambda>j. bind_res (as_list j) (map_res (parse_event clock))) [] = Inr evs" "events s = evs"
    and s: "state_valid s"
    by (auto simp: parse_state_def bind_res_Inr_iff new_WorkflowState_ok)
  have "budget_valid (budget s)"
    using optional_cases [OF b(1)] b(2)
    by (auto dest: parse_budget_valid simp: default_budget_def budget_valid_def)
  moreover have "list_all event_valid (events s)"
    using optional_cases [OF evs(1)] evs(2)
    by (auto simp: list_all_iff bind_res_Inr_iff dest!: map_res_Inr_set dest: parse_event_valid)
  ultimately show ?thesis using s by (simp add: snapshot_valid_def)
qed

lemma on_validation_error_Inr: "on_validation_error r x = Inr y \<longleftrightarrow> r = Inr y"
  by (cases "(r, x)" rule: on_validation_error.cases) auto

lemma on_validation_error_Inl:
  "validating r \<Longrightarrow> on_validation_error r x = Inl y \<Longrightarrow> y = x"
  by (cases "(r, x)" rule: on_validation_error.cases) (auto simp: validating_def)

text \<open>
  Restoring fails closed: whatever the stored document, a state is returned only when the
  schema version is supported, the state object carries no raw payload member, and the state,
  its budget and all its events satisfy the bounds of their models; in every other case the
  error raised is a \<open>WorkflowSerializationError\<close>.
\<close>

theorem restore_fails_closed:
  "case deserialize_snapshot clock payload of
     Inr s \<Rightarrow> snapshot_valid s \<and>
       (\<exists>document state_document.
          payload = JObj document \<and> is_version_one (dict_get document ''schema_version'') \<and>
          dict_get document ''state'' = Some (JObj state_document) \<and>
          \<not> list_ex (\<lambda>(k, _). k \<in> set RAW_PAYLOAD_FIELDS) state_document)
   | Inl x \<Rightarrow> \<exists>m c d. x = WorkflowSerializationError m c d"
proof (cases "deserialize_snapshot clock payload")
  case (Inl x)
  then show ?thesis
    by (auto simp: deserialize_snapshot_def
        dest!: on_validation_error_Inl [OF validating_parse_state]
        split: json.splits option.splits if_splits)
next
  case (Inr s)
  then show ?thesis
    by (auto simp: deserialize_snapshot_def on_validation_error_Inr
        dest: parse_state_valid split: json.splits option.splits if_splits)
qed

theorem snapshot_roundtrip_witness:
  "reachable wf_init wf_step sample_queued \<and>
   deserialize_snapshot 0 (serialize_snapshot sample_queued) = Inr sample_queued"
proof -
  have r: "reachable wf_init wf_step sample_queued"
    using sample_wf_init sample_step by (blast intro: reachable.intros)
  show ?thesis using r snapshot_roundtrip [OF r, of 0] by simp
qed

end
