(* ===== verification/Workflow_Store.thy ===== *)
theory Workflow_Store
  imports Workflow_Snapshot
begin

text \<open>
  The replaceable workflow state store: the \<open>StateStore\<close> protocol and \<open>InMemoryStateStore\<close> of
  \<^verbatim>\<open>src/nl2data_core/workflow/store.py\<close>.

  The locale \<open>rewrite_store\<close> states what every implementation promises: what a lookup returns after a create, an
  update and a cleanup, and when an update may succeed; \<open>state_store\<close> adds that every accepted update writes a new
  revision.  The clients' guarantees (stale writers are rejected, an unchanged revision means an unchanged snapshot,
  terminal statuses are final) are proved once inside them and hold of every implementation that interprets them: the
  in-memory store here, the SQLite store in \<open>Sqlite_Store\<close>, the PostgreSQL store in \<open>Postgres_Store\<close>.
  \<open>'env\<close> is what one call finds around it: the clock, and for a database the faults of the connection.
\<close>

section \<open>The store protocol\<close>

text \<open>The writes of a store: any sequence of successful creates and updates, by any callers.\<close>

inductive store_write ::
  "('env \<Rightarrow> 'st \<Rightarrow> WorkflowState \<Rightarrow> 'e + 'st)
    \<Rightarrow> ('env \<Rightarrow> 'st \<Rightarrow> string \<Rightarrow> WorkflowStatus \<Rightarrow> WorkflowState \<Rightarrow> int option \<Rightarrow> string option \<Rightarrow> 'e + 'st)
    \<Rightarrow> 'st \<Rightarrow> 'st \<Rightarrow> bool"
  for create and update where
  write_create: "snapshot_valid s \<Longrightarrow> create env st s = Inr st' \<Longrightarrow> store_write create update st st'"
| write_update: "snapshot_valid s \<Longrightarrow> opt_all fingerprint_ok sc \<Longrightarrow>
     update env st w exp_status s exp_version sc = Inr st' \<Longrightarrow> store_write create update st st'"

locale rewrite_store =
  fixes inv :: "'st \<Rightarrow> bool"
    and env_ok :: "'env \<Rightarrow> bool"
    and create :: "'env \<Rightarrow> 'st \<Rightarrow> WorkflowState \<Rightarrow> 'e + 'st"
    and get :: "'env \<Rightarrow> 'st \<Rightarrow> string \<Rightarrow> string option \<Rightarrow> 'e + WorkflowState option"
    and get_revision :: "'st \<Rightarrow> string \<Rightarrow> string option \<Rightarrow> 'e + int option"
    and update :: "'env \<Rightarrow> 'st \<Rightarrow> string \<Rightarrow> WorkflowStatus \<Rightarrow> WorkflowState \<Rightarrow> int option
                    \<Rightarrow> string option \<Rightarrow> 'e + 'st"
    and cleanup :: "'env \<Rightarrow> 'st \<Rightarrow> timestamp \<Rightarrow> timestamp \<Rightarrow> int \<Rightarrow> 'e + 'st \<times> int"
  assumes create_inv: "inv st \<Longrightarrow> snapshot_valid s \<Longrightarrow> create env st s = Inr st' \<Longrightarrow> inv st'"
    and update_inv: "inv st \<Longrightarrow> snapshot_valid s \<Longrightarrow> opt_all fingerprint_ok sc \<Longrightarrow>
          update env st w e s v sc = Inr st' \<Longrightarrow> inv st'"
    and cleanup_inv: "inv st \<Longrightarrow> env_ok env \<Longrightarrow> cleanup env st tb eb m = Inr (st', n) \<Longrightarrow> inv st'"
    and get_total: "inv st \<Longrightarrow> opt_all fingerprint_ok sc \<Longrightarrow> \<exists>r. get env st w sc = Inr r"
    and get_scope: "inv st \<Longrightarrow> opt_all fingerprint_ok sc \<Longrightarrow> get env st w sc = Inr (Some s) \<Longrightarrow>
          tenant_scope_fingerprint s = sc"
    and revision_iff: "inv st \<Longrightarrow> opt_all fingerprint_ok sc \<Longrightarrow>
          get_revision st w sc = Inr None \<longleftrightarrow> get env st w sc = Inr None"
    and revision_total: "inv st \<Longrightarrow> opt_all fingerprint_ok sc \<Longrightarrow> \<exists>r. get_revision st w sc = Inr r"
    and create_fresh: "inv st \<Longrightarrow> snapshot_valid s \<Longrightarrow> create env st s = Inr st' \<Longrightarrow>
          get_revision st (workflow_id s) (tenant_scope_fingerprint s) = Inr None"
    and create_stores: "inv st \<Longrightarrow> snapshot_valid s \<Longrightarrow> create env st s = Inr st' \<Longrightarrow>
          get env' st' (workflow_id s) (tenant_scope_fingerprint s) = Inr (Some s) \<and>
          get_revision st' (workflow_id s) (tenant_scope_fingerprint s) = Inr (Some 1)"
    and create_frame: "inv st \<Longrightarrow> snapshot_valid s \<Longrightarrow> create env st s = Inr st' \<Longrightarrow>
          opt_all fingerprint_ok sc \<Longrightarrow> (w, sc) \<noteq> (workflow_id s, tenant_scope_fingerprint s) \<Longrightarrow>
          get env' st' w sc = get env' st w sc \<and> get_revision st' w sc = get_revision st w sc"
    and update_guard: "inv st \<Longrightarrow> snapshot_valid s \<Longrightarrow> opt_all fingerprint_ok sc \<Longrightarrow>
          update env st w e s v sc = Inr st' \<Longrightarrow>
          \<exists>c r. get env' st w sc = Inr (Some c) \<and> get_revision st w sc = Inr (Some r) \<and>
            (terminal (status c) \<longrightarrow> status s = status c) \<and> tenant_scope_fingerprint s = sc"
    and update_effect: "inv st \<Longrightarrow> snapshot_valid s \<Longrightarrow> opt_all fingerprint_ok sc \<Longrightarrow>
          update env st w e s v sc = Inr st' \<Longrightarrow> get_revision st w sc = Inr (Some r) \<Longrightarrow>
          get env' st w sc = Inr (Some c) \<Longrightarrow>
          get env' st' w sc = Inr (Some s) \<and> get_revision st' w sc = Inr (Some (r + 1)) \<and>
            status c = e \<and> (v = None \<or> v = Some r) \<or>
          terminal (status c) \<and> get env' st' w sc = Inr (Some c) \<and> get_revision st' w sc = Inr (Some r)"
    and update_frame: "inv st \<Longrightarrow> snapshot_valid s \<Longrightarrow> opt_all fingerprint_ok sc \<Longrightarrow>
          update env st w e s v sc = Inr st' \<Longrightarrow> opt_all fingerprint_ok sc' \<Longrightarrow> (w', sc') \<noteq> (w, sc) \<Longrightarrow>
          get env' st' w' sc' = get env' st w' sc' \<and> get_revision st' w' sc' = get_revision st w' sc'"
    and cleanup_frame: "inv st \<Longrightarrow> env_ok env \<Longrightarrow> cleanup env st tb eb m = Inr (st', n) \<Longrightarrow>
          opt_all fingerprint_ok sc \<Longrightarrow>
          get env' st' w sc = get env' st w sc \<and> get_revision st' w sc = get_revision st w sc \<or>
          get env' st' w sc = Inr None \<and>
            (\<exists>c. get env' st w sc = Inr (Some c) \<and> terminal (status c))"
begin

lemma write_inv: "store_write create update st st' \<Longrightarrow> inv st \<Longrightarrow> inv st'"
  by (induction rule: store_write.induct) (auto intro: create_inv update_inv)

lemma writes_inv: "run (store_write create update) n st st' \<Longrightarrow> inv st \<Longrightarrow> inv st'"
  by (induction rule: run.induct) (auto intro: write_inv)

text \<open>One write moves a visible record forward, and never away from a terminal status.\<close>

definition moved :: "'st \<Rightarrow> 'st \<Rightarrow> string \<Rightarrow> string option \<Rightarrow> int \<Rightarrow> WorkflowState \<Rightarrow> bool" where
  "moved st st' w sc r c \<longleftrightarrow>
     (\<exists>r' c'. get_revision st' w sc = Inr (Some r') \<and> (\<forall>env. get env st' w sc = Inr (Some c')) \<and>
        r \<le> r' \<and> (r' = r \<longrightarrow> c' = c) \<and> (terminal (status c) \<longrightarrow> status c' = status c))"

lemma write_moves:
  assumes step: "store_write create update st st'" and "inv st" "opt_all fingerprint_ok sc"
    and rev: "get_revision st w sc = Inr (Some r)" and got: "\<forall>env. get env st w sc = Inr (Some c)"
  shows "moved st st' w sc r c"
  using step
proof cases
  case (write_create s env)
  then have "get_revision st (workflow_id s) (tenant_scope_fingerprint s) = Inr None"
    using assms create_fresh by blast
  then have "(w, sc) \<noteq> (workflow_id s, tenant_scope_fingerprint s)" using rev by auto
  then have "get_revision st' w sc = Inr (Some r) \<and> (\<forall>env. get env st' w sc = Inr (Some c))"
    using create_frame [OF \<open>inv st\<close> write_create] assms by metis
  then show ?thesis by (auto simp: moved_def)
next
  case (write_update s sc' env w' e v)
  show ?thesis
  proof (cases "(w, sc) = (w', sc')")
    case True
    with update_guard [OF \<open>inv st\<close> write_update, of env] got
    have fin: "terminal (status c) \<longrightarrow> status s = status c" by auto
    have "get env st' w sc = Inr (Some s) \<and> get_revision st' w sc = Inr (Some (r + 1)) \<or>
        get env st' w sc = Inr (Some c) \<and> get_revision st' w sc = Inr (Some r)" for env
      using update_effect [OF \<open>inv st\<close> write_update, of r env c] rev got True by auto
    then consider "get_revision st' w sc = Inr (Some (r + 1))" "\<forall>env. get env st' w sc = Inr (Some s)"
      | "get_revision st' w sc = Inr (Some r)" "\<forall>env. get env st' w sc = Inr (Some c)"
      by (metis add_cancel_right_right option.inject sum.inject(2) zero_neq_one)
    then show ?thesis using fin by cases (auto simp: moved_def)
  next
    case False
    with update_frame [OF \<open>inv st\<close> write_update, of sc w] assms show ?thesis
      by (auto simp: moved_def)
  qed
qed

lemma writes_move:
  "run (store_write create update) n st st' \<Longrightarrow> inv st \<Longrightarrow> opt_all fingerprint_ok sc \<Longrightarrow>
   get_revision st w sc = Inr (Some r) \<Longrightarrow> \<forall>env. get env st w sc = Inr (Some c) \<Longrightarrow>
   moved st st' w sc r c"
proof (induction rule: run.induct)
  case (run_none st)
  then show ?case by (auto simp: moved_def)
next
  case (run_more n st t u)
  then obtain r1 c1 where mid: "get_revision t w sc = Inr (Some r1)" "\<forall>env. get env t w sc = Inr (Some c1)"
    "r \<le> r1" "r1 = r \<longrightarrow> c1 = c" "terminal (status c) \<longrightarrow> status c1 = status c"
    unfolding moved_def by blast
  have "inv t" using run_more writes_inv by blast
  then obtain r2 c2 where "get_revision u w sc = Inr (Some r2)" "\<forall>env. get env u w sc = Inr (Some c2)"
    "r1 \<le> r2" "r2 = r1 \<longrightarrow> c2 = c1" "terminal (status c1) \<longrightarrow> status c2 = status c1"
    using write_moves [of t u sc w r1 c1] mid run_more unfolding moved_def by blast
  with mid show ?case unfolding moved_def by (intro exI [of _ r2] exI [of _ c2]) auto
qed

end

text \<open>
  A store in which every accepted update writes: it never answers a repeated terminal write without
  storing it.
\<close>

locale state_store = rewrite_store +
  assumes update_writes: "inv st \<Longrightarrow> snapshot_valid s \<Longrightarrow> opt_all fingerprint_ok sc \<Longrightarrow>
          update env st w e s v sc = Inr st' \<Longrightarrow> get_revision st' w sc \<noteq> get_revision st w sc"
begin

lemma update_stores:
  assumes "inv st" "snapshot_valid s" "opt_all fingerprint_ok sc" "update env st w e s v sc = Inr st'"
    and "get_revision st w sc = Inr (Some r)"
  shows "get env' st' w sc = Inr (Some s) \<and> get_revision st' w sc = Inr (Some (r + 1)) \<and> (v = None \<or> v = Some r)"
proof -
  obtain c where "get env' st w sc = Inr (Some c)" using update_guard [OF assms(1-4), of env'] by blast
  then show ?thesis using update_effect [OF assms, of env' c] update_writes [OF assms(1-4)] assms(5) by auto
qed

text \<open>Two writers that read the same revision: the slower one is rejected.\<close>

lemma stale_writer_rejected:
  assumes "inv st" "snapshot_valid s1" "snapshot_valid s2" "opt_all fingerprint_ok sc"
    and "update env1 st w e1 s1 v sc = Inr st1" and "get_revision st w sc = Inr (Some r)"
  shows "\<exists>x. update env2 st1 w e2 s2 (Some r) sc = Inl x"
proof (cases "update env2 st1 w e2 s2 (Some r) sc")
  case (Inr st2)
  have "inv st1" using assms update_inv by blast
  moreover have "get_revision st1 w sc = Inr (Some (r + 1))"
    using assms update_stores by blast
  ultimately show ?thesis using update_stores [OF _ _ _ Inr] assms by fastforce
qed auto

end

section \<open>The in-memory store\<close>

record mem_store =
  mem_states :: "(string, WorkflowState) dict"
  mem_revisions :: "(string, int) dict"
  mem_updated_at :: "(string, timestamp) dict"

definition mem_empty :: mem_store where
  "mem_empty = \<lparr>mem_states = [], mem_revisions = [], mem_updated_at = []\<rparr>"

text \<open>\<open>d[k]\<close> and \<open>del d[k]\<close> raise \<open>KeyError\<close> on an absent key.\<close>

definition dict_index :: "('k, 'v) dict \<Rightarrow> 'k \<Rightarrow> 'v res" where
  "dict_index d k = (case dict_get d k of None \<Rightarrow> Inl (OtherException ''KeyError'') | Some v \<Rightarrow> Inr v)"

definition dict_pop :: "'k \<Rightarrow> ('k, 'v) dict \<Rightarrow> ('k, 'v) dict res" where
  "dict_pop k d = (case dict_get d k of None \<Rightarrow> Inl (OtherException ''KeyError'') | Some v \<Rightarrow> Inr (dict_del k d))"

text \<open>The message \<open>workflow '<id>' <problem>\<close> of the store's conflicts.\<close>

definition workflow_message :: "string \<Rightarrow> string \<Rightarrow> string" where
  "workflow_message w problem = ''workflow '' @ quoted w @ '' '' @ problem"

definition mem_create :: "timestamp \<Rightarrow> mem_store \<Rightarrow> WorkflowState \<Rightarrow> mem_store res" where
  "mem_create now st state =
     (if dict_get (mem_states st) (workflow_id state) \<noteq> None then
        Inl (WorkflowStateError (workflow_message (workflow_id state) ''already exists'')
               [(''workflow_id'', PyStr (workflow_id state))] False)
      else Inr \<lparr>mem_states = dict_set (workflow_id state) state (mem_states st),
                mem_revisions = dict_set (workflow_id state) 1 (mem_revisions st),
                mem_updated_at = dict_set (workflow_id state) now (mem_updated_at st)\<rparr>)"

definition mem_get :: "mem_store \<Rightarrow> string \<Rightarrow> string option \<Rightarrow> WorkflowState option" where
  "mem_get st w sc =
     (case dict_get (mem_states st) w of
        None \<Rightarrow> None
      | Some s \<Rightarrow> if tenant_scope_fingerprint s \<noteq> sc then None else Some s)"

definition mem_get_revision :: "mem_store \<Rightarrow> string \<Rightarrow> string option \<Rightarrow> int option res" where
  "mem_get_revision st w sc =
     (case dict_get (mem_states st) w of
        None \<Rightarrow> Inr None
      | Some s \<Rightarrow> if tenant_scope_fingerprint s \<noteq> sc then Inr None
                  else bind_res (dict_index (mem_revisions st) w) (\<lambda>r. Inr (Some r)))"

definition mem_get_checkpoint :: "mem_store \<Rightarrow> string \<Rightarrow> string \<Rightarrow> string option \<Rightarrow> WorkflowState option" where
  "mem_get_checkpoint st w req sc =
     (case dict_get (mem_states st) w of
        None \<Rightarrow> None
      | Some s \<Rightarrow> if request_id s \<noteq> req then None
                  else if tenant_scope_fingerprint s \<noteq> sc then None else Some s)"

definition mem_update ::
  "timestamp \<Rightarrow> mem_store \<Rightarrow> string \<Rightarrow> WorkflowStatus \<Rightarrow> WorkflowState \<Rightarrow> int option \<Rightarrow> string option
    \<Rightarrow> mem_store res" where
  "mem_update now st w expected_status state expected_version sc =
     (case dict_get (mem_states st) w of
        None \<Rightarrow> Inl (WorkflowStateError (workflow_message w ''not found'') [(''workflow_id'', PyStr w)] False)
      | Some cur \<Rightarrow>
          if tenant_scope_fingerprint cur \<noteq> sc then
            Inl (WorkflowStateError (workflow_message w ''tenant scope mismatch'')
                   [(''workflow_id'', PyStr w)] False)
          else if tenant_scope_fingerprint cur \<noteq> tenant_scope_fingerprint state then
            Inl (WorkflowStateError (workflow_message w ''state tenant scope mismatch'')
                   [(''workflow_id'', PyStr w)] False)
          else if terminal (status cur) \<and> status state \<noteq> status cur then
            Inl (WorkflowTransitionError
                   (''cannot transition from terminal status '' @ quoted (status_value (status cur)))
                   (transition_details (status cur) (status state)))
          else if status cur \<noteq> expected_status then
            Inl (WorkflowStateError (workflow_message w ''status changed concurrently'')
                   [(''workflow_id'', PyStr w), (''expected'', PyStr (status_value expected_status))] False)
          else
            bind_res (dict_index (mem_revisions st) w) (\<lambda>revision.
              if expected_version \<noteq> None \<and> Some revision \<noteq> expected_version then
                Inl (WorkflowStateError (workflow_message w ''version changed concurrently'')
                       [(''workflow_id'', PyStr w),
                        (''expected_version'', PyStr (string_of_int (the expected_version))),
                        (''actual'', PyStr (string_of_int revision))] False)
              else Inr \<lparr>mem_states = dict_set w state (mem_states st),
                        mem_revisions = dict_set w (revision + 1) (mem_revisions st),
                        mem_updated_at = dict_set w now (mem_updated_at st)\<rparr>))"

definition mem_list_ids :: "mem_store \<Rightarrow> string option \<Rightarrow> string list" where
  "mem_list_ids st sc = sorted_keys (\<lambda>_ s. tenant_scope_fingerprint s = sc) (mem_states st)"

text \<open>The comprehension of \<open>cleanup\<close> reads \<open>_updated_at[workflow_id]\<close> of terminal states only.\<close>

fun mem_removable :: "(string, timestamp) dict \<Rightarrow> timestamp \<Rightarrow> (string, WorkflowState) dict \<Rightarrow> string list res" where
  "mem_removable updated terminal_before [] = Inr []"
| "mem_removable updated terminal_before ((w, s) # rest) =
     (if terminal (status s) then
        bind_res (dict_index updated w) (\<lambda>t.
        bind_res (mem_removable updated terminal_before rest) (\<lambda>ws.
        Inr (if t \<le> terminal_before then w # ws else ws)))
      else mem_removable updated terminal_before rest)"

fun mem_remove :: "string list \<Rightarrow> mem_store \<Rightarrow> mem_store res" where
  "mem_remove [] st = Inr st"
| "mem_remove (w # ws) st =
     bind_res (dict_pop w (mem_states st)) (\<lambda>states.
     bind_res (dict_pop w (mem_revisions st)) (\<lambda>revisions.
     bind_res (dict_pop w (mem_updated_at st)) (\<lambda>updated.
     mem_remove ws \<lparr>mem_states = states, mem_revisions = revisions, mem_updated_at = updated\<rparr>)))"

definition mem_cleanup :: "timestamp \<Rightarrow> mem_store \<Rightarrow> timestamp \<Rightarrow> timestamp \<Rightarrow> int \<Rightarrow> (mem_store \<times> int) res" where
  "mem_cleanup now st terminal_before expired_before max_records =
     (if max_records < 1 then Inl (ValueError ''max_records must be positive'')
      else bind_res (mem_removable (mem_updated_at st) terminal_before (mem_states st)) (\<lambda>ws.
           (let removed = take (nat max_records) (sort ws)
            in bind_res (mem_remove removed st) (\<lambda>st'. Inr (st', int (length removed))))))"

section \<open>Invariant and protocol laws of the in-memory store\<close>

definition mem_inv :: "mem_store \<Rightarrow> bool" where
  "mem_inv st \<longleftrightarrow>
     dict_ok (mem_states st) \<and> dict_ok (mem_revisions st) \<and> dict_ok (mem_updated_at st) \<and>
     set (map fst (mem_revisions st)) = set (map fst (mem_states st)) \<and>
     set (map fst (mem_updated_at st)) = set (map fst (mem_states st))"

lemma keys_del: "set (map fst (dict_del k d)) = set (map fst d) - {k}"
  by (simp add: delete_keys)

lemma keys_set: "set (map fst (dict_set k v d)) = insert k (set (map fst d))"
  by (simp add: dom_update)

lemma keys_get: "k \<in> set (map fst d) \<longleftrightarrow> (\<exists>v. dict_get d k = Some v)"
  by (metis map_of_eq_None_iff not_Some_eq set_map)

lemma mem_inv_companions:
  "mem_inv st \<Longrightarrow> dict_get (mem_states st) w = Some s \<Longrightarrow>
   (\<exists>r. dict_get (mem_revisions st) w = Some r) \<and> (\<exists>t. dict_get (mem_updated_at st) w = Some t)"
  unfolding mem_inv_def by (metis keys_get)

lemma mem_create_ok:
  "mem_create now st s = Inr st' \<longleftrightarrow>
     dict_get (mem_states st) (workflow_id s) = None \<and>
     st' = \<lparr>mem_states = dict_set (workflow_id s) s (mem_states st),
            mem_revisions = dict_set (workflow_id s) 1 (mem_revisions st),
            mem_updated_at = dict_set (workflow_id s) now (mem_updated_at st)\<rparr>"
  by (auto simp: mem_create_def)

lemma mem_update_ok:
  "mem_update now st w e s v sc = Inr st' \<longleftrightarrow>
     (\<exists>cur r. dict_get (mem_states st) w = Some cur \<and> dict_get (mem_revisions st) w = Some r \<and>
        tenant_scope_fingerprint cur = sc \<and> tenant_scope_fingerprint s = sc \<and>
        (terminal (status cur) \<longrightarrow> status s = status cur) \<and> status cur = e \<and>
        (v = None \<or> v = Some r) \<and>
        st' = \<lparr>mem_states = dict_set w s (mem_states st),
               mem_revisions = dict_set w (r + 1) (mem_revisions st),
               mem_updated_at = dict_set w now (mem_updated_at st)\<rparr>)"
  by (auto simp: mem_update_def dict_index_def split: option.splits if_splits)

lemma mem_removable_eq:
  "\<forall>w \<in> set (map fst d). \<exists>t. dict_get updated w = Some t \<Longrightarrow>
   mem_removable updated tb d =
     Inr (map fst (filter (\<lambda>(w, s). terminal (status s) \<and> the (dict_get updated w) \<le> tb) d))"
proof (induction d)
  case (Cons p d)
  then show ?case by (cases p; cases "terminal (status (snd p))") (auto simp: dict_index_def)
qed simp

lemma mem_inv_del:
  "mem_inv st \<Longrightarrow> mem_inv \<lparr>mem_states = dict_del w (mem_states st),
     mem_revisions = dict_del w (mem_revisions st), mem_updated_at = dict_del w (mem_updated_at st)\<rparr>"
  unfolding mem_inv_def mem_store.simps keys_del by simp

lemma mem_remove_eq:
  "mem_inv st \<Longrightarrow> distinct ws \<Longrightarrow> set ws \<subseteq> set (map fst (mem_states st)) \<Longrightarrow>
   mem_remove ws st =
     Inr \<lparr>mem_states = dict_del_all ws (mem_states st), mem_revisions = dict_del_all ws (mem_revisions st),
          mem_updated_at = dict_del_all ws (mem_updated_at st)\<rparr>"
proof (induction ws arbitrary: st)
  case Nil
  then show ?case by simp
next
  case (Cons w ws)
  let ?st = "\<lparr>mem_states = dict_del w (mem_states st), mem_revisions = dict_del w (mem_revisions st),
              mem_updated_at = dict_del w (mem_updated_at st)\<rparr>"
  from Cons.prems obtain s where "dict_get (mem_states st) w = Some s" by (metis keys_get list.set_intros(1) subsetD)
  moreover from this Cons.prems obtain r t where
    "dict_get (mem_revisions st) w = Some r" "dict_get (mem_updated_at st) w = Some t"
    using mem_inv_companions by blast
  moreover have "set ws \<subseteq> set (map fst (mem_states ?st))"
    using Cons.prems unfolding mem_store.simps keys_del by auto
  ultimately show ?case
    using Cons.IH [of ?st] Cons.prems mem_inv_del [of st w] by (simp add: dict_pop_def)
qed

definition mem_batch :: "mem_store \<Rightarrow> timestamp \<Rightarrow> int \<Rightarrow> string list" where
  "mem_batch st tb m = take (nat m)
     (sorted_keys (\<lambda>w s. terminal (status s) \<and> the (dict_get (mem_updated_at st) w) \<le> tb) (mem_states st))"

lemma mem_batch_keys:
  "mem_inv st \<Longrightarrow> w \<in> set (mem_batch st tb m) \<Longrightarrow>
   \<exists>s t. dict_get (mem_states st) w = Some s \<and> terminal (status s) \<and>
     dict_get (mem_updated_at st) w = Some t \<and> t \<le> tb"
proof -
  assume inv: "mem_inv st" and "w \<in> set (mem_batch st tb m)"
  then obtain s where "dict_get (mem_states st) w = Some s" "terminal (status s)"
      "the (dict_get (mem_updated_at st) w) \<le> tb"
    unfolding mem_batch_def by (auto dest!: in_set_takeD simp: set_sorted_keys mem_inv_def)
  with mem_inv_companions [OF inv] show ?thesis by fastforce
qed

lemma mem_cleanup_eq:
  assumes "mem_inv st" "1 \<le> m"
  shows "mem_cleanup now st tb eb m =
     (let ws = mem_batch st tb m
      in Inr (\<lparr>mem_states = dict_del_all ws (mem_states st), mem_revisions = dict_del_all ws (mem_revisions st),
               mem_updated_at = dict_del_all ws (mem_updated_at st)\<rparr>, int (length ws)))"
proof -
  have "\<forall>w \<in> set (map fst (mem_states st)). \<exists>t. dict_get (mem_updated_at st) w = Some t"
    using assms(1) mem_inv_companions keys_get by metis
  moreover have "distinct (mem_batch st tb m)"
    using assms(1) by (simp add: mem_batch_def mem_inv_def)
  moreover have "set (mem_batch st tb m) \<subseteq> set (map fst (mem_states st))"
    using mem_batch_keys [OF assms(1)] keys_get by (metis subsetI)
  ultimately show ?thesis
    using assms(2) mem_remove_eq [OF assms(1), of "mem_batch st tb m"] mem_removable_eq
    by (simp add: mem_cleanup_def Let_def mem_batch_def sorted_keys_def)
qed

lemma mem_inv_del_all:
  "mem_inv st \<Longrightarrow> mem_inv \<lparr>mem_states = dict_del_all ws (mem_states st),
     mem_revisions = dict_del_all ws (mem_revisions st), mem_updated_at = dict_del_all ws (mem_updated_at st)\<rparr>"
proof (induction ws arbitrary: st)
  case (Cons w ws)
  from Cons.IH [OF mem_inv_del [OF Cons.prems, of w]] show ?case by simp
qed (simp add: mem_inv_def)

lemma mem_cleanup_ok:
  "mem_inv st \<Longrightarrow> mem_cleanup now st tb eb m = Inr (st', n) \<Longrightarrow>
   1 \<le> m \<and> n = int (length (mem_batch st tb m)) \<and>
   st' = \<lparr>mem_states = dict_del_all (mem_batch st tb m) (mem_states st),
          mem_revisions = dict_del_all (mem_batch st tb m) (mem_revisions st),
          mem_updated_at = dict_del_all (mem_batch st tb m) (mem_updated_at st)\<rparr>"
proof -
  assume inv: "mem_inv st" and run: "mem_cleanup now st tb eb m = Inr (st', n)"
  then have "1 \<le> m" by (simp add: mem_cleanup_def split: if_splits)
  with run mem_cleanup_eq [OF inv this] show ?thesis by (auto simp: Let_def)
qed

lemma mem_inv_set:
  "mem_inv st \<Longrightarrow> mem_inv \<lparr>mem_states = dict_set w s (mem_states st),
     mem_revisions = dict_set w r (mem_revisions st), mem_updated_at = dict_set w t (mem_updated_at st)\<rparr>"
  unfolding mem_inv_def mem_store.simps keys_set by simp

lemma mem_inv_create: "mem_inv st \<Longrightarrow> mem_create now st s = Inr st' \<Longrightarrow> mem_inv st'"
  unfolding mem_create_ok by (simp add: mem_inv_set)

lemma mem_inv_update: "mem_inv st \<Longrightarrow> mem_update now st w e s v sc = Inr st' \<Longrightarrow> mem_inv st'"
  unfolding mem_update_ok by (elim exE conjE) (simp add: mem_inv_set)

lemma mem_inv_cleanup: "mem_inv st \<Longrightarrow> mem_cleanup now st tb eb m = Inr (st', n) \<Longrightarrow> mem_inv st'"
  using mem_cleanup_ok [of st now tb eb m st' n] mem_inv_del_all by simp

lemma mem_get_cleanup:
  assumes "mem_inv st" "mem_cleanup now st tb eb m = Inr (st', n)"
  shows "mem_get st' w sc = mem_get st w sc \<and> mem_get_revision st' w sc = mem_get_revision st w sc \<or>
    mem_get st' w sc = None \<and> (mem_get st w sc = None \<or> (\<exists>c. mem_get st w sc = Some c \<and> terminal (status c)))"
  using mem_cleanup_ok [OF assms] mem_batch_keys [OF assms(1), of w tb m]
  by (cases "w \<in> set (mem_batch st tb m)")
     (auto simp: mem_get_def mem_get_revision_def dict_index_def split: option.splits)

lemma mem_revision_eq:
  "mem_inv st \<Longrightarrow> mem_get_revision st w sc =
     Inr (case mem_get st w sc of None \<Rightarrow> None | Some s \<Rightarrow> dict_get (mem_revisions st) w)"
  using mem_inv_companions
  by (fastforce simp: mem_get_revision_def mem_get_def dict_index_def split: option.splits)

interpretation mem: state_store mem_inv "\<lambda>_. True" mem_create "\<lambda>_ st w sc. Inr (mem_get st w sc)"
  mem_get_revision mem_update mem_cleanup
proof (unfold_locales, goal_cases)
  case (3 st env tb eb m st' n)
  then show ?case by (blast intro: mem_inv_cleanup)
next
  case (14 st env tb eb m st' n sc env' w)
  then show ?case using mem_get_cleanup [of st env tb eb m st' n w sc] mem_inv_cleanup
    by (auto simp: mem_revision_eq)
qed (use mem_inv_companions in \<open>fastforce simp: mem_create_ok mem_update_ok mem_revision_eq mem_get_def
       mem_inv_set split: option.splits if_splits\<close>)+

section \<open>Properties of the in-memory store\<close>

text \<open>Every state the in-memory store can be in: any mix of creates, updates and cleanups.\<close>

inductive mem_step :: "mem_store \<Rightarrow> mem_store \<Rightarrow> bool" where
  mem_write: "store_write mem_create mem_update st st' \<Longrightarrow> mem_step st st'"
| mem_clean: "mem_cleanup now st tb eb m = Inr (st', n) \<Longrightarrow> mem_step st st'"

interpretation mem_sys: safe_system "\<lambda>st. st = mem_empty" mem_step mem_inv
proof unfold_locales
  show "mem_inv st" if "st = mem_empty" for st using that by (simp add: mem_inv_def mem_empty_def)
  show "mem_inv t" if "mem_inv s" "mem_step s t" for s t
    using that(2,1) by cases (auto intro: mem.write_inv mem_inv_cleanup)
qed

text \<open>
  Optimistic concurrency control of the in-memory store: in every reachable store, once some
  update of a workflow has succeeded, an update that expects the revision from before it fails.
\<close>

theorem memory_stale_writer_rejected:
  assumes "reachable (\<lambda>st. st = mem_empty) mem_step st"
    and "snapshot_valid s1" "snapshot_valid s2" "opt_all fingerprint_ok sc"
    and "mem_update now1 st w e1 s1 v sc = Inr st1"
    and "mem_get_revision st w sc = Inr (Some r)"
  shows "\<exists>x. mem_update now2 st1 w e2 s2 (Some r) sc = Inl x"
  using assms mem.stale_writer_rejected mem_sys.reachable_inv by blast

text \<open>
  Bounded cleanup of the in-memory store: in every reachable store a cleanup of at least one
  record succeeds; it removes at most \<open>max_records\<close> workflows, each of them terminal and last
  updated no later than the cutoff; every other workflow keeps its state and revision; and when it
  removes fewer than \<open>max_records\<close>, no such workflow is left.
\<close>

theorem memory_cleanup_bounded:
  assumes "reachable (\<lambda>st. st = mem_empty) mem_step st" and "1 \<le> m"
  shows "\<exists>st' removed. mem_cleanup now st tb eb m = Inr (st', int (length removed)) \<and>
    distinct removed \<and> int (length removed) \<le> m \<and>
    (\<forall>w. dict_get (mem_states st') w = (if w \<in> set removed then None else dict_get (mem_states st) w) \<and>
         dict_get (mem_revisions st') w = (if w \<in> set removed then None else dict_get (mem_revisions st) w)) \<and>
    (\<forall>w \<in> set removed. \<exists>s t. dict_get (mem_states st) w = Some s \<and> terminal (status s) \<and>
         dict_get (mem_updated_at st) w = Some t \<and> t \<le> tb) \<and>
    (int (length removed) < m \<longrightarrow>
       (\<forall>w s t. dict_get (mem_states st') w = Some s \<and> dict_get (mem_updated_at st) w = Some t \<and>
          terminal (status s) \<longrightarrow> tb < t))"
proof -
  have inv: "mem_inv st" using assms(1) by (rule mem_sys.reachable_inv)
  let ?ws = "mem_batch st tb m"
  let ?st = "\<lparr>mem_states = dict_del_all ?ws (mem_states st), mem_revisions = dict_del_all ?ws (mem_revisions st),
     mem_updated_at = dict_del_all ?ws (mem_updated_at st)\<rparr>"
  have "tb < t" if short: "int (length ?ws) < m" and gone: "w \<notin> set ?ws"
    and s: "dict_get (mem_states st) w = Some s" "dict_get (mem_updated_at st) w = Some t"
      "terminal (status s)" for w s t
  proof (rule ccontr)
    assume "\<not> tb < t"
    moreover have "?ws = sorted_keys (\<lambda>w s. terminal (status s) \<and> the (dict_get (mem_updated_at st) w) \<le> tb)
        (mem_states st)"
      using short by (auto simp: mem_batch_def)
    ultimately show False using gone s inv by (simp add: set_sorted_keys mem_inv_def)
  qed
  moreover have "mem_cleanup now st tb eb m = Inr (?st, int (length ?ws))"
    using mem_cleanup_eq [OF inv assms(2)] by (simp add: Let_def)
  moreover have "distinct ?ws" "int (length ?ws) \<le> m"
    using inv assms(2) by (auto simp: mem_batch_def mem_inv_def)
  ultimately show ?thesis
    using mem_batch_keys [OF inv, of _ tb m] by (intro exI [of _ ?st] exI [of _ ?ws]) auto
qed

section \<open>Concrete runs of the in-memory store\<close>

definition mem_failed :: mem_store where
  "mem_failed = \<lparr>mem_states = [(''wf-1'', sample_failed)], mem_revisions = [(''wf-1'', 1)],
                 mem_updated_at = [(''wf-1'', 10)]\<rparr>"

lemma sample_snapshot_valid: "snapshot_valid sample_failed" "snapshot_valid sample_queued"
  by (simp_all add: snapshot_valid_def sample_wf_defs state_valid_def budget_valid_def event_valid_def
      pattern_simps)

lemma mem_failed_reachable: "reachable (\<lambda>st. st = mem_empty) mem_step mem_failed"
proof -
  have "mem_create 10 mem_empty sample_failed = Inr mem_failed"
    by (simp add: mem_create_def mem_empty_def mem_failed_def sample_wf_defs)
  then have "mem_step mem_empty mem_failed"
    by (rule mem_write [OF write_create [OF sample_snapshot_valid(1)]])
  then show ?thesis by (blast intro: reachable.intros)
qed

theorem memory_stale_writer_rejected_witness:
  "\<exists>st1 x. mem_update 11 mem_failed ''wf-1'' FAILED sample_failed (Some 1) None = Inr st1 \<and>
     mem_update 12 st1 ''wf-1'' FAILED sample_failed (Some 1) None = Inl x"
proof -
  have upd: "mem_update 11 mem_failed ''wf-1'' FAILED sample_failed (Some 1) None =
      Inr \<lparr>mem_states = [(''wf-1'', sample_failed)], mem_revisions = [(''wf-1'', 2)],
           mem_updated_at = [(''wf-1'', 11)]\<rparr>"
    by (simp add: mem_update_def mem_failed_def sample_wf_defs dict_index_def)
  have rev: "mem_get_revision mem_failed ''wf-1'' None = Inr (Some 1)"
    by (simp add: mem_get_revision_def mem_failed_def sample_wf_defs dict_index_def)
  show ?thesis
    using memory_stale_writer_rejected [OF mem_failed_reachable sample_snapshot_valid(1)
        sample_snapshot_valid(1) _ upd rev, of 12 FAILED] upd
    by auto
qed

theorem memory_cleanup_bounded_witness:
  "reachable (\<lambda>st. st = mem_empty) mem_step mem_failed \<and>
   (\<exists>st' (removed :: string list). mem_cleanup 50 mem_failed 20 20 5 = Inr (st', int (length removed)) \<and>
      int (length removed) \<le> 5 \<and> dict_get (mem_states st') ''wf-1'' = None)"
proof -
  obtain st' and removed :: "string list" where run: "mem_cleanup 50 mem_failed 20 20 5 = Inr (st', int (length removed))"
    and bound: "int (length removed) \<le> 5"
    using memory_cleanup_bounded [OF mem_failed_reachable, of 5 50 20 20] by force
  have "mem_cleanup 50 mem_failed 20 20 5 =
      Inr (\<lparr>mem_states = [], mem_revisions = [], mem_updated_at = []\<rparr>, 1)"
    by (simp add: mem_cleanup_def mem_failed_def sample_wf_defs dict_index_def dict_pop_def
        TERMINAL_STATUSES_def)
  with run bound mem_failed_reachable show ?thesis by auto
qed

end
