(* ===== verification/Sqlite_Store.thy ===== *)
theory Sqlite_Store
  imports Workflow_Store
begin

text \<open>
  The durable SQLite store: \<^verbatim>\<open>src/nl2data_core/workflow/sqlite_store.py\<close> and the records and
  namespaces of \<^verbatim>\<open>src/nl2data_core/workflow/durable.py\<close>.

  A table is a dict from its primary key to its row; a status column holds the enum whose value the
  code writes there, a timestamp column the instant whose UTC ISO text it writes (the order of these
  texts is the order of the instants).  \<open>sql_env\<close> is what a call finds around it: the clock, the
  \<open>sqlite3.Error\<close> it meets, if any, at which statement, and the order in which SQLite returns the
  rows of a query without \<open>ORDER BY\<close>.  A transaction that raises is rolled back: it returns no
  database.  The interpretation \<open>sql\<close> shows that the store keeps the protocol of
  \<open>Workflow_Store\<close>.
\<close>

section \<open>Database\<close>

datatype sql_fault = BeginFails string | SelectFails string | WriteFails string

record sql_env =
  clock :: timestamp
  fault :: "sql_fault option"
  scan :: "(string \<times> string) list \<Rightarrow> (string \<times> string) list"

definition sql_env_ok :: "sql_env \<Rightarrow> bool" where
  "sql_env_ok env \<longleftrightarrow>
     (\<forall>ks. distinct ks \<longrightarrow> distinct (scan env ks) \<and> set (scan env ks) = set ks)"

record DurableWorkflowRecord =
  schema_version :: int
  row_workflow_id :: string
  row_request_id :: string
  row_scope :: "string option"
  scope_namespace :: string
  row_status :: WorkflowStatus
  revision :: int
  snapshot :: json
  created_at :: timestamp
  updated_at :: timestamp
  expires_at :: "timestamp option"

datatype IdempotencyStatus = RESERVED | COMPLETED

record IdempotencyRecord =
  idempotency_key :: string
  idem_request_id :: string
  idem_scope :: "string option"
  idem_namespace :: string
  idem_workflow_id :: string
  idem_status :: IdempotencyStatus
  terminal_outcome_fingerprint :: "string option"
  idem_created_at :: timestamp
  idem_updated_at :: timestamp
  idem_expires_at :: "timestamp option"

record sql_db =
  conn_open :: bool
  user_version :: int
  workflow_states :: "(string \<times> string, DurableWorkflowRecord) dict"
  idempotency_records :: "(string \<times> string, IdempotencyRecord) dict"

definition SCHEMA_VERSION :: int where
  "SCHEMA_VERSION = 1"

definition IdempotencyConflictError :: "string \<Rightarrow> (string, pyval) dict \<Rightarrow> exn" where
  "IdempotencyConflictError message details =
     NL2DataError \<lparr>err_class = ''IdempotencyConflictError'', err_category = CAT_WORKFLOW,
       err_code = IDEMPOTENCY_CONFLICT, err_message = message, err_retryable = False,
       err_details = details\<rparr>"

section \<open>Namespaces, connection and error mapping\<close>

definition tenant_scope_namespace :: "string \<Rightarrow> string \<Rightarrow> string res" where
  "tenant_scope_namespace fp kind =
     (if \<not> fingerprint_ok fp then Inl (ValueError ''scope fingerprint must be a sha256 fingerprint'')
      else if \<not> identifier_ok kind then Inl (ValueError ''kind must be an identifier-safe component'')
      else Inr (''tenant:'' @ kind @ '':'' @ fp))"

fun namespace :: "string option \<Rightarrow> string res" where
  "namespace None = Inr []"
| "namespace (Some fp) = tenant_scope_namespace fp ''workflow''"

text \<open>The property \<open>_connection\<close>.\<close>

definition connection :: "sql_db \<Rightarrow> unit res" where
  "connection db = ensure (conn_open db) (WorkflowStateError ''durable store is closed'' [] False)"

text \<open>\<open>_begin_immediate\<close> stands before the \<open>try\<close>: its \<open>sqlite3.Error\<close> is not mapped.\<close>

definition begin_immediate :: "sql_env \<Rightarrow> sql_db \<Rightarrow> unit res" where
  "begin_immediate env db = bind_res (connection db) (\<lambda>_.
     (case fault env of Some (BeginFails m) \<Rightarrow> Inl (OtherException ''OperationalError'') | _ \<Rightarrow> Inr ()))"

definition select_stmt :: "sql_env \<Rightarrow> (string \<Rightarrow> exn) \<Rightarrow> unit res" where
  "select_stmt env mapped = (case fault env of Some (SelectFails m) \<Rightarrow> Inl (mapped m) | _ \<Rightarrow> Inr ())"

definition write_stmt :: "sql_env \<Rightarrow> (string \<Rightarrow> exn) \<Rightarrow> unit res" where
  "write_stmt env mapped = (case fault env of Some (WriteFails m) \<Rightarrow> Inl (mapped m) | _ \<Rightarrow> Inr ())"

definition locked_message :: "string \<Rightarrow> bool" where
  "locked_message m \<longleftrightarrow> str_in ''locked'' (str_lower m) \<or> str_in ''busy'' (str_lower m)"

definition integrity_error :: "string \<Rightarrow> string \<Rightarrow> exn" where
  "integrity_error w operation =
     WorkflowStateError (workflow_message w ''already exists'')
       [(''workflow_id'', PyStr w), (''operation'', PyStr operation)] False"

definition mapped_error :: "string \<Rightarrow> string \<Rightarrow> string \<Rightarrow> exn" where
  "mapped_error w operation message =
     WorkflowStateError (''durable store '' @ operation @ '' failed'')
       [(''operation'', PyStr operation), (''workflow_id'', PyStr w),
        (''cause'', PyStr (take 200 message))] (locked_message message)"

definition initialize_schema :: "sql_env \<Rightarrow> sql_db \<Rightarrow> sql_db res" where
  "initialize_schema env db =
     bind_res (connection db) (\<lambda>_.
     if user_version db > SCHEMA_VERSION then
       Inl (WorkflowSerializationError
              (''database schema version '' @ string_of_int (user_version db)
                @ '' is newer than supported '' @ string_of_int SCHEMA_VERSION)
              UNSUPPORTED_SCHEMA_VERSION
              [(''database_schema_version'', PyStr (string_of_int (user_version db))),
               (''supported'', PyStr (string_of_int SCHEMA_VERSION))])
     else bind_res (write_stmt env (\<lambda>m. WorkflowStateError ''durable store initialization failed''
              [(''cause'', PyStr (take 200 m))] (locked_message m))) (\<lambda>_.
          Inr (if user_version db = 0 then db\<lparr>user_version := SCHEMA_VERSION\<rparr> else db)))"

definition sql_close :: "sql_db \<Rightarrow> sql_db" where
  "sql_close db = db\<lparr>conn_open := False\<rparr>"

section \<open>Workflow state operations\<close>

definition sql_create :: "sql_env \<Rightarrow> sql_db \<Rightarrow> WorkflowState \<Rightarrow> sql_db res" where
  "sql_create env db state =
     bind_res (namespace (tenant_scope_fingerprint state)) (\<lambda>ns.
     bind_res (begin_immediate env db) (\<lambda>_.
     if dict_get (workflow_states db) (ns, workflow_id state) \<noteq> None
     then Inl (integrity_error (workflow_id state) ''create'')
     else bind_res (write_stmt env (mapped_error (workflow_id state) ''create'')) (\<lambda>_.
       Inr (db\<lparr>workflow_states := dict_set (ns, workflow_id state)
         \<lparr>schema_version = SCHEMA_VERSION, row_workflow_id = workflow_id state,
          row_request_id = request_id state, row_scope = tenant_scope_fingerprint state,
          scope_namespace = ns, row_status = status state, revision = 1,
          snapshot = serialize_snapshot state, created_at = clock env, updated_at = clock env,
          expires_at = None\<rparr> (workflow_states db)\<rparr>))))"

text \<open>A restore error is raised again with the workflow id; the details of the cause win.\<close>

fun malformed_error :: "string \<Rightarrow> exn \<Rightarrow> exn" where
  "malformed_error w (NL2DataError e) =
     (if err_class e = ''WorkflowSerializationError'' then
        WorkflowSerializationError (''stored snapshot for workflow '' @ quoted w @ '' is malformed'')
          (err_code e) (fold (\<lambda>(k, v). dict_set k v) (err_details e) [(''workflow_id'', PyStr w)])
      else NL2DataError e)"
| "malformed_error w e = e"

definition read_state ::
  "sql_env \<Rightarrow> sql_db \<Rightarrow> string \<Rightarrow> string option \<Rightarrow> string option \<Rightarrow> WorkflowState option res" where
  "read_state env db w req sc =
     bind_res (namespace sc) (\<lambda>ns.
     bind_res (connection db) (\<lambda>_.
     (case dict_get (workflow_states db) (ns, w) of
        None \<Rightarrow> Inr None
      | Some row \<Rightarrow>
          if req \<noteq> None \<and> Some (row_request_id row) \<noteq> req then Inr None
          else (case deserialize_snapshot (clock env) (snapshot row) of
                  Inl e \<Rightarrow> Inl (malformed_error w e)
                | Inr s \<Rightarrow> Inr (Some s)))))"

definition sql_get :: "sql_env \<Rightarrow> sql_db \<Rightarrow> string \<Rightarrow> string option \<Rightarrow> WorkflowState option res" where
  "sql_get env db w sc = read_state env db w None sc"

definition sql_get_checkpoint ::
  "sql_env \<Rightarrow> sql_db \<Rightarrow> string \<Rightarrow> string \<Rightarrow> string option \<Rightarrow> WorkflowState option res" where
  "sql_get_checkpoint env db w req sc = read_state env db w (Some req) sc"

definition sql_get_revision :: "sql_db \<Rightarrow> string \<Rightarrow> string option \<Rightarrow> int option res" where
  "sql_get_revision db w sc =
     bind_res (connection db) (\<lambda>_. bind_res (namespace sc) (\<lambda>ns.
     Inr (map_option revision (dict_get (workflow_states db) (ns, w)))))"

definition durable_record_valid :: "DurableWorkflowRecord \<Rightarrow> bool" where
  "durable_record_valid r \<longleftrightarrow>
     schema_version r = 1 \<and> identifier_ok (row_workflow_id r) \<and> identifier_ok (row_request_id r) \<and>
     opt_all fingerprint_ok (row_scope r) \<and> 1 \<le> revision r"

definition sql_get_record :: "sql_db \<Rightarrow> string \<Rightarrow> string option \<Rightarrow> DurableWorkflowRecord option res" where
  "sql_get_record db w sc =
     bind_res (connection db) (\<lambda>_. bind_res (namespace sc) (\<lambda>ns.
     (case dict_get (workflow_states db) (ns, w) of
        None \<Rightarrow> Inr None
      | Some row \<Rightarrow> if durable_record_valid row then Inr (Some row) else Inl ValidationError)))"

definition sql_update ::
  "sql_env \<Rightarrow> sql_db \<Rightarrow> string \<Rightarrow> WorkflowStatus \<Rightarrow> WorkflowState \<Rightarrow> int option \<Rightarrow> string option \<Rightarrow> sql_db res" where
  "sql_update env db w expected_status state expected_version sc =
     bind_res (namespace sc) (\<lambda>ns.
     bind_res (begin_immediate env db) (\<lambda>_.
     bind_res (select_stmt env (mapped_error w ''update'')) (\<lambda>_.
     (case dict_get (workflow_states db) (ns, w) of
        None \<Rightarrow> Inl (WorkflowStateError (workflow_message w ''not found'') [(''workflow_id'', PyStr w)] False)
      | Some row \<Rightarrow>
          if row_scope row \<noteq> tenant_scope_fingerprint state then
            Inl (WorkflowStateError (workflow_message w ''tenant scope mismatch'')
                   [(''workflow_id'', PyStr w)] False)
          else if terminal (row_status row) \<and> status state \<noteq> row_status row then
            Inl (WorkflowTransitionError
                   (''cannot transition from terminal status '' @ quoted (status_value (row_status row)))
                   (transition_details (row_status row) (status state)))
          else if row_status row \<noteq> expected_status then
            Inl (WorkflowStateError (workflow_message w ''status changed concurrently'')
                   [(''workflow_id'', PyStr w), (''expected'', PyStr (status_value expected_status)),
                    (''actual'', PyStr (status_value (row_status row)))] False)
          else if expected_version \<noteq> None \<and> Some (revision row) \<noteq> expected_version then
            Inl (WorkflowStateError (workflow_message w ''version changed concurrently'')
                   [(''workflow_id'', PyStr w),
                    (''expected_version'', PyStr (string_of_int (the expected_version))),
                    (''actual'', PyStr (string_of_int (revision row)))] False)
          else bind_res (write_stmt env (mapped_error w ''update'')) (\<lambda>_.
            Inr (db\<lparr>workflow_states := dict_set (ns, w)
              (row\<lparr>row_request_id := request_id state, row_scope := tenant_scope_fingerprint state,
                 row_status := status state, revision := revision row + 1,
                 snapshot := serialize_snapshot state, updated_at := clock env\<rparr>)
              (workflow_states db)\<rparr>))))))"

definition sql_list_ids :: "sql_db \<Rightarrow> string option \<Rightarrow> string list res" where
  "sql_list_ids db sc =
     bind_res (connection db) (\<lambda>_. bind_res (namespace sc) (\<lambda>ns.
     Inr (map snd (sorted_keys (\<lambda>k _. fst k = ns) (workflow_states db)))))"

text \<open>A query with \<open>LIMIT\<close> and no order: the first \<open>m\<close> matching keys in SQLite's order.\<close>

definition limited :: "sql_env \<Rightarrow> ('v \<Rightarrow> bool) \<Rightarrow> int \<Rightarrow> (string \<times> string, 'v) dict \<Rightarrow> (string \<times> string) list" where
  "limited env P m table = take (nat m) (scan env (map fst (filter (\<lambda>(_, row). P row) table)))"

definition sql_cleanup :: "sql_env \<Rightarrow> sql_db \<Rightarrow> timestamp \<Rightarrow> timestamp \<Rightarrow> int \<Rightarrow> (sql_db \<times> int) res" where
  "sql_cleanup env db terminal_before expired_before max_records =
     (if max_records < 1 then Inl (ValueError ''max_records must be positive'')
      else bind_res (begin_immediate env db) (\<lambda>_.
        (let failed = (\<lambda>m. WorkflowStateError ''durable store cleanup failed''
                             [(''cause'', PyStr (take 200 m))] True);
             states = limited env (\<lambda>row. terminal (row_status row) \<and> updated_at row \<le> terminal_before)
                        max_records (workflow_states db);
             keys = limited env (\<lambda>row. \<exists>t \<in> set_option (idem_expires_at row). t \<le> expired_before)
                        max_records (idempotency_records db)
         in bind_res (select_stmt env failed) (\<lambda>_. bind_res (write_stmt env failed) (\<lambda>_.
            Inr (db\<lparr>workflow_states := dict_del_all states (workflow_states db),
                    idempotency_records := dict_del_all keys (idempotency_records db)\<rparr>,
                 int (length states) + int (length keys)))))))"

section \<open>Idempotency-key records\<close>

definition validate_identity ::
  "string \<Rightarrow> string option \<Rightarrow> string option \<Rightarrow> string option \<Rightarrow> unit res" where
  "validate_identity key req w sc =
     bind_res (ensure (key_ok key) (WorkflowStateError ''idempotency key is not identifier-safe''
                 [(''idempotency_key'', PyStr (take 128 key))] False)) (\<lambda>_.
     bind_res (ensure (opt_all identifier_ok req)
                 (WorkflowStateError ''idempotency request identity is not identifier-safe''
                   [(''request_id'', PyStr (take 128 (the req)))] False)) (\<lambda>_.
     bind_res (ensure (opt_all identifier_ok w)
                 (WorkflowStateError ''idempotency workflow identity is not identifier-safe''
                   [(''workflow_id'', PyStr (take 128 (the w)))] False)) (\<lambda>_.
     ensure (opt_all fingerprint_ok sc)
       (WorkflowStateError ''idempotency scope must be a sha256 fingerprint''
         [(''tenant_scope_fingerprint'', PyStr (take 128 (the sc)))] False))))"

definition key_message :: "string \<Rightarrow> string \<Rightarrow> string" where
  "key_message key problem = ''idempotency key '' @ quoted key @ '' '' @ problem"

definition expired :: "timestamp \<Rightarrow> IdempotencyRecord \<Rightarrow> bool" where
  "expired now r \<longleftrightarrow> (case idem_expires_at r of None \<Rightarrow> False | Some t \<Rightarrow> t \<le> now)"

definition reserve_idempotency ::
  "sql_env \<Rightarrow> sql_db \<Rightarrow> string \<Rightarrow> string \<Rightarrow> string \<Rightarrow> string option \<Rightarrow> timestamp option
    \<Rightarrow> (sql_db \<times> IdempotencyRecord) res" where
  "reserve_idempotency env db key req w sc expiry =
     bind_res (validate_identity key (Some req) (Some w) sc) (\<lambda>_.
     bind_res (namespace sc) (\<lambda>ns.
     bind_res (begin_immediate env db) (\<lambda>_.
     (let failed = (\<lambda>m. WorkflowStateError ''idempotency reservation failed''
                          [(''idempotency_key'', PyStr key), (''cause'', PyStr (take 200 m))] True);
          fresh = \<lparr>idempotency_key = key, idem_request_id = req, idem_scope = sc, idem_namespace = ns,
                   idem_workflow_id = w, idem_status = RESERVED, terminal_outcome_fingerprint = None,
                   idem_created_at = clock env, idem_updated_at = clock env,
                   idem_expires_at = expiry\<rparr>
      in bind_res (select_stmt env failed) (\<lambda>_.
         (case dict_get (idempotency_records db) (ns, key) of
            Some row \<Rightarrow>
              if expired (clock env) row then
                bind_res (write_stmt env failed) (\<lambda>_.
                Inr (db\<lparr>idempotency_records :=
                       dict_set (ns, key) fresh (dict_del (ns, key) (idempotency_records db))\<rparr>, fresh))
              else if idem_request_id row \<noteq> req then
                Inl (IdempotencyConflictError (key_message key ''is bound to a different request'')
                       [(''idempotency_key'', PyStr key), (''bound_request_id'', PyStr (idem_request_id row))])
              else if idem_scope row \<noteq> sc then
                Inl (IdempotencyConflictError (key_message key ''is bound to a different tenant scope'')
                       [(''idempotency_key'', PyStr key)])
              else if idem_workflow_id row \<noteq> w then
                Inl (IdempotencyConflictError (key_message key ''is bound to a different workflow'')
                       [(''idempotency_key'', PyStr key)])
              else Inr (db, row)
          | None \<Rightarrow>
              bind_res (write_stmt env failed) (\<lambda>_.
              Inr (db\<lparr>idempotency_records := dict_set (ns, key) fresh (idempotency_records db)\<rparr>, fresh))))))))"

definition complete_idempotency ::
  "sql_env \<Rightarrow> sql_db \<Rightarrow> string \<Rightarrow> string \<Rightarrow> string \<Rightarrow> string option \<Rightarrow> (sql_db \<times> IdempotencyRecord) res" where
  "complete_idempotency env db key w outcome sc =
     bind_res (validate_identity key None (Some w) sc) (\<lambda>_.
     bind_res (namespace sc) (\<lambda>ns.
     bind_res (begin_immediate env db) (\<lambda>_.
     (let failed = (\<lambda>m. WorkflowStateError ''idempotency completion failed''
                          [(''idempotency_key'', PyStr key), (''cause'', PyStr (take 200 m))] True)
      in bind_res (select_stmt env failed) (\<lambda>_.
         (case dict_get (idempotency_records db) (ns, key) of
            None \<Rightarrow> Inl (WorkflowStateError (key_message key ''not found'')
                           [(''idempotency_key'', PyStr key)] False)
          | Some row \<Rightarrow>
              if idem_scope row \<noteq> sc then
                Inl (IdempotencyConflictError (key_message key ''is bound to a different tenant scope'')
                       [(''idempotency_key'', PyStr key)])
              else if idem_workflow_id row \<noteq> w then
                Inl (IdempotencyConflictError (key_message key ''is bound to a different workflow'')
                       [(''idempotency_key'', PyStr key)])
              else if idem_status row \<noteq> RESERVED then
                Inl (IdempotencyConflictError (key_message key ''is already completed'')
                       [(''idempotency_key'', PyStr key)])
              else if \<not> fingerprint_ok outcome then
                Inl (WorkflowStateError ''terminal outcome reference must be a sha256 fingerprint''
                       [(''idempotency_key'', PyStr key)] False)
              else bind_res (write_stmt env failed) (\<lambda>_.
                (let row' = row\<lparr>idem_workflow_id := w, idem_status := COMPLETED,
                                terminal_outcome_fingerprint := Some outcome,
                                idem_updated_at := clock env\<rparr>
                 in Inr (db\<lparr>idempotency_records := dict_set (ns, key) row' (idempotency_records db)\<rparr>,
                         row')))))))))"

definition get_idempotency :: "sql_db \<Rightarrow> string \<Rightarrow> string option \<Rightarrow> IdempotencyRecord option res" where
  "get_idempotency db key sc =
     bind_res (connection db) (\<lambda>_. bind_res (namespace sc) (\<lambda>ns.
     Inr (dict_get (idempotency_records db) (ns, key))))"

section \<open>Invariant and protocol laws\<close>

definition ns_of :: "string option \<Rightarrow> string" where
  "ns_of sc = (case sc of None \<Rightarrow> [] | Some fp \<Rightarrow> ''tenant:workflow:'' @ fp)"

lemma namespace_eq [simp]: "opt_all fingerprint_ok sc \<Longrightarrow> namespace sc = Inr (ns_of sc)"
  by (cases sc) (simp_all add: ns_of_def tenant_scope_namespace_def identifier_ok_def char_class_defs)

declare namespace.simps [simp del]

lemma ns_of_eq_iff [simp]: "ns_of a = ns_of b \<longleftrightarrow> a = b"
  by (cases a; cases b) (simp_all add: ns_of_def)

lemma begin_immediate_ok: "begin_immediate env db = Inr u \<longleftrightarrow> conn_open db \<and> (\<forall>m. fault env \<noteq> Some (BeginFails m))"
  by (auto simp: begin_immediate_def connection_def bind_res_Inr_iff split: option.splits sql_fault.splits)

lemma select_stmt_ok: "select_stmt env f = Inr u \<longleftrightarrow> (\<forall>m. fault env \<noteq> Some (SelectFails m))"
  by (auto simp: select_stmt_def split: option.splits sql_fault.splits)

lemma write_stmt_ok: "write_stmt env f = Inr u \<longleftrightarrow> (\<forall>m. fault env \<noteq> Some (WriteFails m))"
  by (auto simp: write_stmt_def split: option.splits sql_fault.splits)

lemmas stmt_ok [res_simps] = begin_immediate_ok select_stmt_ok write_stmt_ok

definition row_holds :: "string \<times> string \<Rightarrow> DurableWorkflowRecord \<Rightarrow> WorkflowState \<Rightarrow> bool" where
  "row_holds k row s \<longleftrightarrow>
     snapshot_valid s \<and> snapshot row = serialize_snapshot s \<and> row_status row = status s \<and>
     row_scope row = tenant_scope_fingerprint s \<and> row_request_id row = request_id s \<and>
     k = (ns_of (row_scope row), row_workflow_id row) \<and> durable_record_valid row"

definition sql_inv :: "sql_db \<Rightarrow> bool" where
  "sql_inv db \<longleftrightarrow>
     conn_open db \<and> dict_ok (workflow_states db) \<and> dict_ok (idempotency_records db) \<and>
     (\<forall>k row. dict_get (workflow_states db) k = Some row \<longrightarrow> (\<exists>s. row_holds k row s))"

definition new_row :: "sql_env \<Rightarrow> WorkflowState \<Rightarrow> DurableWorkflowRecord" where
  "new_row env s =
     \<lparr>schema_version = SCHEMA_VERSION, row_workflow_id = workflow_id s, row_request_id = request_id s,
      row_scope = tenant_scope_fingerprint s, scope_namespace = ns_of (tenant_scope_fingerprint s),
      row_status = status s, revision = 1, snapshot = serialize_snapshot s,
      created_at = clock env, updated_at = clock env, expires_at = None\<rparr>"

definition next_row :: "sql_env \<Rightarrow> WorkflowState \<Rightarrow> DurableWorkflowRecord \<Rightarrow> DurableWorkflowRecord" where
  "next_row env s row =
     row\<lparr>row_request_id := request_id s, row_scope := tenant_scope_fingerprint s, row_status := status s,
       revision := revision row + 1, snapshot := serialize_snapshot s, updated_at := clock env\<rparr>"

lemma snapshot_valid_fields:
  "snapshot_valid s \<Longrightarrow> identifier_ok (workflow_id s) \<and> identifier_ok (request_id s) \<and>
     opt_all fingerprint_ok (tenant_scope_fingerprint s)"
  by (simp add: snapshot_valid_def state_valid_def)

lemma sql_create_ok:
  "snapshot_valid s \<Longrightarrow> sql_create env db s = Inr db' \<Longrightarrow>
   conn_open db \<and> dict_get (workflow_states db) (ns_of (tenant_scope_fingerprint s), workflow_id s) = None \<and>
   db' = db\<lparr>workflow_states :=
     dict_set (ns_of (tenant_scope_fingerprint s), workflow_id s) (new_row env s) (workflow_states db)\<rparr>"
  using snapshot_valid_fields [of s]
  by (auto simp: sql_create_def bind_res_Inr_iff stmt_ok new_row_def split: if_splits)

lemma sql_update_ok:
  "opt_all fingerprint_ok sc \<Longrightarrow> sql_update env db w e s v sc = Inr db' \<Longrightarrow>
   conn_open db \<and> (\<exists>row. dict_get (workflow_states db) (ns_of sc, w) = Some row \<and>
     row_scope row = tenant_scope_fingerprint s \<and> row_status row = e \<and>
     (terminal e \<longrightarrow> status s = e) \<and> (v = None \<or> v = Some (revision row)) \<and>
     db' = db\<lparr>workflow_states := dict_set (ns_of sc, w) (next_row env s row) (workflow_states db)\<rparr>)"
  by (auto simp: sql_update_def bind_res_Inr_iff stmt_ok next_row_def split: option.splits if_splits)

lemma row_holds_new: "snapshot_valid s \<Longrightarrow>
   row_holds (ns_of (tenant_scope_fingerprint s), workflow_id s) (new_row env s) s"
  using snapshot_valid_fields [of s]
  by (simp add: row_holds_def new_row_def durable_record_valid_def SCHEMA_VERSION_def)

lemma row_holds_next:
  "row_holds k row c \<Longrightarrow> snapshot_valid s \<Longrightarrow> row_scope row = tenant_scope_fingerprint s \<Longrightarrow>
   row_holds k (next_row env s row) s"
  using snapshot_valid_fields [of s] by (simp add: row_holds_def next_row_def durable_record_valid_def)

lemma sql_inv_holds:
  "sql_inv db \<Longrightarrow> dict_get (workflow_states db) k = Some row \<Longrightarrow> \<exists>s. row_holds k row s"
  unfolding sql_inv_def by blast

lemma sql_inv_set:
  "sql_inv db \<Longrightarrow> row_holds k row s \<Longrightarrow> sql_inv (db\<lparr>workflow_states := dict_set k row (workflow_states db)\<rparr>)"
  by (auto simp: sql_inv_def)

lemma sql_inv_create: "sql_inv db \<Longrightarrow> snapshot_valid s \<Longrightarrow> sql_create env db s = Inr db' \<Longrightarrow> sql_inv db'"
  using sql_create_ok [of s env db db'] sql_inv_set row_holds_new by blast

lemma sql_inv_update:
  "sql_inv db \<Longrightarrow> snapshot_valid s \<Longrightarrow> opt_all fingerprint_ok sc \<Longrightarrow>
   sql_update env db w e s v sc = Inr db' \<Longrightarrow> sql_inv db'"
  using sql_update_ok [of sc env db w e s v db']
  by (metis sql_inv_set row_holds_next sql_inv_holds)

lemma limited_keys:
  assumes "sql_env_ok env" "dict_ok d"
  shows "distinct (limited env P m d)" "length (limited env P m d) \<le> nat m"
    "k \<in> set (limited env P m d) \<Longrightarrow> \<exists>row. dict_get d k = Some row \<and> P row"
proof -
  let ?ks = "map fst (filter (\<lambda>(_, row). P row) d)"
  have "distinct ?ks" using assms(2) by (simp add: distinct_map_filter)
  then have scan: "distinct (scan env ?ks)" "set (scan env ?ks) = set ?ks"
    using assms(1) unfolding sql_env_ok_def by blast+
  show "distinct (limited env P m d)" "length (limited env P m d) \<le> nat m"
    using scan(1) by (simp_all add: limited_def)
  show "\<exists>row. dict_get d k = Some row \<and> P row" if "k \<in> set (limited env P m d)"
  proof -
    from that scan(2) have "k \<in> set ?ks" unfolding limited_def by (metis in_set_takeD)
    then obtain row where "(k, row) \<in> set d" "P row" by auto
    with assms(2) show ?thesis by auto
  qed
qed

lemma limited_complete:
  assumes "sql_env_ok env" "dict_ok d" "length (limited env P m d) < nat m" "dict_get d k = Some row" "P row"
  shows "k \<in> set (limited env P m d)"
proof -
  let ?ks = "map fst (filter (\<lambda>(_, row). P row) d)"
  have "distinct ?ks" using assms(2) by (simp add: distinct_map_filter)
  then have "set (scan env ?ks) = set ?ks" using assms(1) unfolding sql_env_ok_def by blast
  moreover have "limited env P m d = scan env ?ks" using assms(3) by (simp add: limited_def)
  moreover have "k \<in> set ?ks" using assms(4,5) map_of_SomeD by force
  ultimately show ?thesis by simp
qed

lemma row_get:
  assumes "sql_inv db" "opt_all fingerprint_ok sc"
  shows "sql_get env db w sc = Inr None \<and> sql_get_revision db w sc = Inr None \<and>
           dict_get (workflow_states db) (ns_of sc, w) = None \<or>
         (\<exists>row s. dict_get (workflow_states db) (ns_of sc, w) = Some row \<and> row_holds (ns_of sc, w) row s \<and>
           sql_get env db w sc = Inr (Some s) \<and> sql_get_revision db w sc = Inr (Some (revision row)))"
proof (cases "dict_get (workflow_states db) (ns_of sc, w)")
  case None
  with assms show ?thesis
    by (simp add: sql_get_def read_state_def sql_get_revision_def connection_def sql_inv_def)
next
  case (Some row)
  with assms sql_inv_holds obtain s where "row_holds (ns_of sc, w) row s" by blast
  with Some assms show ?thesis
    by (auto simp: sql_get_def read_state_def sql_get_revision_def connection_def sql_inv_def
        row_holds_def deserialize_serialize)
qed

lemma read_rows_eq:
  "sql_get env db w sc = sql_get env db' w sc \<and> sql_get_revision db w sc = sql_get_revision db' w sc"
  if "conn_open db = conn_open db'" "opt_all fingerprint_ok sc"
    "dict_get (workflow_states db) (ns_of sc, w) = dict_get (workflow_states db') (ns_of sc, w)"
  using that by (simp add: sql_get_def read_state_def sql_get_revision_def connection_def)

definition terminal_batch :: "sql_env \<Rightarrow> sql_db \<Rightarrow> timestamp \<Rightarrow> int \<Rightarrow> (string \<times> string) list" where
  "terminal_batch env db tb m =
     limited env (\<lambda>row. terminal (row_status row) \<and> updated_at row \<le> tb) m (workflow_states db)"

definition expired_batch :: "sql_env \<Rightarrow> sql_db \<Rightarrow> timestamp \<Rightarrow> int \<Rightarrow> (string \<times> string) list" where
  "expired_batch env db eb m =
     limited env (\<lambda>row. \<exists>t \<in> set_option (idem_expires_at row). t \<le> eb) m (idempotency_records db)"

lemma sql_cleanup_ok:
  assumes "sql_cleanup env db tb eb m = Inr (db', n)"
  shows "1 \<le> m \<and> conn_open db \<and>
   db' = db\<lparr>workflow_states := dict_del_all (terminal_batch env db tb m) (workflow_states db),
            idempotency_records := dict_del_all (expired_batch env db eb m) (idempotency_records db)\<rparr> \<and>
   n = int (length (terminal_batch env db tb m)) + int (length (expired_batch env db eb m))"
  using assms unfolding terminal_batch_def expired_batch_def
  by (auto simp: sql_cleanup_def bind_res_Inr_iff stmt_ok Let_def split: if_splits)

lemma sql_inv_cleanup:
  "sql_inv db \<Longrightarrow> sql_env_ok env \<Longrightarrow> sql_cleanup env db tb eb m = Inr (db', n) \<Longrightarrow> sql_inv db'"
  using sql_cleanup_ok [of env db tb eb m db' n] by (auto simp: sql_inv_def split: if_splits)

lemma sql_get_cleanup:
  assumes "sql_inv db" "sql_env_ok env" "sql_cleanup env db tb eb m = Inr (db', n)" "opt_all fingerprint_ok sc"
  shows "sql_get env' db' w sc = sql_get env' db w sc \<and> sql_get_revision db' w sc = sql_get_revision db w sc \<or>
    sql_get env' db' w sc = Inr None \<and> (\<exists>c. sql_get env' db w sc = Inr (Some c) \<and> terminal (status c))"
proof (cases "(ns_of sc, w) \<in> set (terminal_batch env db tb m)")
  case True
  then obtain row where "dict_get (workflow_states db) (ns_of sc, w) = Some row" "terminal (row_status row)"
    using limited_keys(3) [OF assms(2)] assms(1) unfolding terminal_batch_def sql_inv_def by blast
  then have "\<exists>c. sql_get env' db w sc = Inr (Some c) \<and> terminal (status c)"
    using row_get [OF assms(1,4), of env' w] by (auto simp: row_holds_def)
  moreover have "sql_get env' db' w sc = Inr None"
    using sql_cleanup_ok [OF assms(3)] True assms(4) by (simp add: sql_get_def read_state_def connection_def)
  ultimately show ?thesis by blast
next
  case False
  then have "sql_get env' db' w sc = sql_get env' db w sc \<and> sql_get_revision db' w sc = sql_get_revision db w sc"
    using sql_cleanup_ok [OF assms(3)] assms(4) by (intro read_rows_eq) simp_all
  then show ?thesis by blast
qed

interpretation sql: state_store sql_inv sql_env_ok sql_create sql_get sql_get_revision sql_update sql_cleanup
proof (unfold_locales, goal_cases)
  case (1 st s env st')
  then show ?case by (rule sql_inv_create)
next
  case (2 st s sc env w e v st')
  then show ?case by (rule sql_inv_update)
next
  case (3 st env tb eb m st' n)
  then show ?case by (rule sql_inv_cleanup)
next
  case (4 st sc env w)
  then show ?case using row_get [of st sc env w] by auto
next
  case (5 st sc env w s)
  then show ?case using row_get [of st sc env w] by (auto simp: row_holds_def)
next
  case (6 st sc w env)
  then show ?case using row_get [of st sc env w] by auto
next
  case (7 st sc w)
  then show ?case using row_get [of st sc undefined w] by auto
next
  case (8 st s env st')
  then show ?case using sql_create_ok [of s env st st'] snapshot_valid_fields [of s]
    by (simp add: sql_get_revision_def connection_def)
next
  case (9 st s env st' env')
  then show ?case using sql_create_ok [of s env st st'] snapshot_valid_fields [of s]
    by (simp add: sql_get_def read_state_def sql_get_revision_def connection_def new_row_def deserialize_serialize)
next
  case (10 st s env st' sc w env')
  then show ?case using sql_create_ok [of s env st st'] by (intro read_rows_eq) auto
next
  case (11 st s sc env w e v st' env')
  then show ?case using sql_update_ok [of sc env st w e s v st'] row_get [of st sc env' w]
    by (auto simp: row_holds_def)
next
  case (12 st s sc env w e v st' r env' c)
  then show ?case using sql_update_ok [of sc env st w e s v st'] row_get [of st sc env' w]
    by (auto simp: sql_get_def read_state_def sql_get_revision_def connection_def next_row_def row_holds_def
        deserialize_serialize)
next
  case (13 st s sc env w e v st' sc' w' env')
  then show ?case using sql_update_ok [of sc env st w e s v st'] by (intro read_rows_eq) auto
next
  case (14 st env tb eb m st' n sc env' w)
  then show ?case by (rule sql_get_cleanup)
next
  case (15 st s sc env w e v st')
  then show ?case using sql_update_ok [of sc env st w e s v st']
    by (auto simp: sql_get_revision_def connection_def next_row_def)
qed

section \<open>Steps of the store\<close>

text \<open>The calls of one tenant scope, with the scope they are made in, and the cleanup of the service.\<close>

inductive scoped_step :: "string option \<Rightarrow> sql_db \<Rightarrow> sql_db \<Rightarrow> bool" where
  step_create: "snapshot_valid s \<Longrightarrow> sql_create env db s = Inr db' \<Longrightarrow>
     scoped_step (tenant_scope_fingerprint s) db db'"
| step_update: "snapshot_valid s \<Longrightarrow> opt_all fingerprint_ok sc \<Longrightarrow>
     sql_update env db w e s v sc = Inr db' \<Longrightarrow> scoped_step sc db db'"
| step_reserve: "reserve_idempotency env db key req w sc expiry = Inr (db', r) \<Longrightarrow> scoped_step sc db db'"
| step_complete: "complete_idempotency env db key w outcome sc = Inr (db', r) \<Longrightarrow> scoped_step sc db db'"

inductive sql_step :: "sql_db \<Rightarrow> sql_db \<Rightarrow> bool" where
  sql_scoped: "scoped_step sc db db' \<Longrightarrow> sql_step db db'"
| sql_clean: "sql_env_ok env \<Longrightarrow> sql_cleanup env db tb eb m = Inr (db', n) \<Longrightarrow> sql_step db db'"

definition sql_init :: "sql_db \<Rightarrow> bool" where
  "sql_init db \<longleftrightarrow> db = \<lparr>conn_open = True, user_version = SCHEMA_VERSION, workflow_states = [], idempotency_records = []\<rparr>"

lemma validate_identity_ok:
  "validate_identity key req w sc = Inr u \<longleftrightarrow>
     key_ok key \<and> opt_all identifier_ok req \<and> opt_all identifier_ok w \<and> opt_all fingerprint_ok sc"
  by (auto simp: validate_identity_def bind_res_Inr_iff)

definition fresh_record ::
  "sql_env \<Rightarrow> string \<Rightarrow> string \<Rightarrow> string \<Rightarrow> string option \<Rightarrow> timestamp option \<Rightarrow> IdempotencyRecord" where
  "fresh_record env key req w sc expiry =
     \<lparr>idempotency_key = key, idem_request_id = req, idem_scope = sc, idem_namespace = ns_of sc,
      idem_workflow_id = w, idem_status = RESERVED, terminal_outcome_fingerprint = None,
      idem_created_at = clock env, idem_updated_at = clock env, idem_expires_at = expiry\<rparr>"

lemma reserve_valid:
  "reserve_idempotency env db key req w sc expiry = Inr x \<Longrightarrow>
   key_ok key \<and> identifier_ok req \<and> identifier_ok w \<and> opt_all fingerprint_ok sc \<and> conn_open db"
  unfolding reserve_idempotency_def by (auto simp: bind_res_Inr_iff stmt_ok validate_identity_ok Let_def)

lemma reserve_bound:
  assumes "reserve_idempotency env db key req w sc expiry = Inr (db', r)"
    and "dict_get (idempotency_records db) (ns_of sc, key) = Some row" and "\<not> expired (clock env) row"
  shows "r = row \<and> db' = db \<and> idem_request_id row = req \<and> idem_workflow_id row = w \<and> idem_scope row = sc"
  using assms reserve_valid [OF assms(1)]
  by (auto simp: reserve_idempotency_def bind_res_Inr_iff Let_def split: if_splits)

lemma reserve_fresh:
  assumes "reserve_idempotency env db key req w sc expiry = Inr (db', r)"
    and "\<forall>old. dict_get (idempotency_records db) (ns_of sc, key) = Some old \<longrightarrow> expired (clock env) old"
  shows "r = fresh_record env key req w sc expiry \<and>
     (\<exists>d. db' = db\<lparr>idempotency_records := dict_set (ns_of sc, key) r d\<rparr> \<and>
        (d = idempotency_records db \<or> d = dict_del (ns_of sc, key) (idempotency_records db)))"
proof (cases "dict_get (idempotency_records db) (ns_of sc, key)")
  case None
  then show ?thesis using assms(1) reserve_valid [OF assms(1)] unfolding fresh_record_def
    by (auto simp: reserve_idempotency_def bind_res_Inr_iff Let_def)
next
  case (Some old)
  then show ?thesis using assms reserve_valid [OF assms(1)] unfolding fresh_record_def
    by (auto simp: reserve_idempotency_def bind_res_Inr_iff Let_def)
qed

lemma reserve_ok:
  assumes "reserve_idempotency env db key req w sc expiry = Inr (db', r)"
  shows "idem_request_id r = req \<and> idem_workflow_id r = w \<and> idem_scope r = sc \<and>
    (db' = db \<and> dict_get (idempotency_records db) (ns_of sc, key) = Some r \<and> \<not> expired (clock env) r \<or>
     r = fresh_record env key req w sc expiry \<and>
       (\<exists>d. db' = db\<lparr>idempotency_records := dict_set (ns_of sc, key) r d\<rparr> \<and>
        (d = idempotency_records db \<or> d = dict_del (ns_of sc, key) (idempotency_records db))))"
  using reserve_bound [OF assms] reserve_fresh [OF assms] by (fastforce simp: fresh_record_def)

lemma complete_ok:
  "complete_idempotency env db key w outcome sc = Inr (db', r) \<Longrightarrow>
   opt_all fingerprint_ok sc \<and> conn_open db \<and> fingerprint_ok outcome \<and>
   (\<exists>old. dict_get (idempotency_records db) (ns_of sc, key) = Some old \<and> idem_status old = RESERVED \<and>
      idem_workflow_id old = w \<and> idem_scope old = sc \<and>
      r = old\<lparr>idem_workflow_id := w, idem_status := COMPLETED, terminal_outcome_fingerprint := Some outcome,
              idem_updated_at := clock env\<rparr> \<and>
      db' = db\<lparr>idempotency_records := dict_set (ns_of sc, key) r (idempotency_records db)\<rparr>)"
  by (auto simp: complete_idempotency_def bind_res_Inr_iff stmt_ok validate_identity_ok Let_def
      split: option.splits if_splits)

lemma complete_stored:
  assumes "complete_idempotency env db key w outcome sc = Inr (db', r)"
  shows "idem_status r = COMPLETED \<and> terminal_outcome_fingerprint r = Some outcome \<and>
     get_idempotency db' key sc = Inr (Some r) \<and> dict_get (idempotency_records db') (ns_of sc, key) = Some r"
  using complete_ok [OF assms] by (auto simp: get_idempotency_def connection_def)

lemma completed_is_final:
  assumes "dict_get (idempotency_records db) (ns_of sc, key) = Some r" and "idem_status r = COMPLETED"
  shows "\<exists>x. complete_idempotency env db key w outcome sc = Inl x"
proof (cases "complete_idempotency env db key w outcome sc")
  case (Inr p)
  obtain db' r' where "p = (db', r')" by fastforce
  with complete_ok [of env db key w outcome sc db' r'] Inr assms show ?thesis by auto
qed simp

lemma sql_inv_idem:
  "sql_inv db \<Longrightarrow> dict_ok d \<Longrightarrow> sql_inv (db\<lparr>idempotency_records := d\<rparr>)"
  by (simp add: sql_inv_def)

lemma sql_inv_idem_ok: "sql_inv db \<Longrightarrow> dict_ok (idempotency_records db)"
  by (simp add: sql_inv_def)

lemma sql_inv_scoped_step: "scoped_step sc db db' \<Longrightarrow> sql_inv db \<Longrightarrow> sql_inv db'"
proof (induction rule: scoped_step.induct)
  case (step_reserve env db key req w sc expiry db' r)
  then show ?case using reserve_ok [OF step_reserve(1)] by (auto intro!: sql_inv_idem dest: sql_inv_idem_ok)
next
  case (step_complete env db key w outcome sc db' r)
  then show ?case using complete_ok [OF step_complete(1)] by (auto intro!: sql_inv_idem dest: sql_inv_idem_ok)
qed (blast intro: sql_inv_create sql_inv_update)+

interpretation sql_sys: safe_system sql_init sql_step sql_inv
proof unfold_locales
  show "sql_inv db" if "sql_init db" for db using that by (simp add: sql_init_def sql_inv_def)
  show "sql_inv t" if "sql_inv s" "sql_step s t" for s t
    using that(2,1) by cases (auto intro: sql_inv_scoped_step sql_inv_cleanup)
qed

lemma scoped_step_frame:
  "scoped_step sc db db' \<Longrightarrow>
   conn_open db' = conn_open db \<and>
   (\<forall>k. fst k \<noteq> ns_of sc \<longrightarrow>
      dict_get (workflow_states db') k = dict_get (workflow_states db) k \<and>
      dict_get (idempotency_records db') k = dict_get (idempotency_records db) k)"
proof (induction rule: scoped_step.induct)
  case (step_create s env db db')
  then show ?case using sql_create_ok [OF step_create] by auto
next
  case (step_update s sc env db w e v db')
  then show ?case using sql_update_ok [OF step_update(2,3)] by auto
next
  case (step_reserve env db key req w sc expiry db' r)
  then show ?case using reserve_ok [OF step_reserve(1)] by auto
next
  case (step_complete env db key w outcome sc db' r)
  then show ?case using complete_ok [OF step_complete(1)] by auto
qed

lemma snd_le:
  fixes a b :: "'a::linorder \<times> 'b::linorder"
  shows "a \<le> b \<Longrightarrow> fst a = fst b \<Longrightarrow> snd a \<le> snd b"
  by (simp add: less_eq_prod_def)

lemma list_ids_eq:
  assumes "sql_inv db" "opt_all fingerprint_ok sc"
  shows "\<exists>ws. sql_list_ids db sc = Inr ws \<and> sorted ws \<and> distinct ws \<and>
     set ws = {w. dict_get (workflow_states db) (ns_of sc, w) \<noteq> None}"
proof -
  let ?ks = "sorted_keys (\<lambda>k _. fst k = ns_of sc) (workflow_states db)"
  have ok: "dict_ok (workflow_states db)" using assms(1) by (simp add: sql_inv_def)
  have ks: "set ?ks = {k. fst k = ns_of sc \<and> dict_get (workflow_states db) k \<noteq> None}"
    using set_sorted_keys [OF ok, of "\<lambda>k _. fst k = ns_of sc"] by auto
  have same: "\<forall>a \<in> set ?ks. \<forall>b \<in> set ?ks. fst a = fst b" using ks by auto
  have "sorted (map snd ?ks)"
    unfolding sorted_map using sorted_sorted_keys [of "\<lambda>k _. fst k = ns_of sc" "workflow_states db"]
    by (rule sorted_wrt_mono_rel [rotated]) (use same snd_le in blast)
  moreover have "distinct (map snd ?ks)"
    unfolding distinct_map
    using distinct_sorted_keys [OF ok, of "\<lambda>k _. fst k = ns_of sc"] same
    by (intro conjI inj_onI prod_eqI) blast+
  moreover have "set (map snd ?ks) = {w. dict_get (workflow_states db) (ns_of sc, w) \<noteq> None}"
    using ks by force
  moreover have "sql_list_ids db sc = Inr (map snd ?ks)"
    using assms by (simp add: sql_list_ids_def connection_def sql_inv_def)
  ultimately show ?thesis by blast
qed

lemma scoped_list_ids:
  assumes "sql_inv db" "sql_inv db'" "opt_all fingerprint_ok sc"
    and "\<forall>w. dict_get (workflow_states db') (ns_of sc, w) = dict_get (workflow_states db) (ns_of sc, w)"
  shows "sql_list_ids db' sc = sql_list_ids db sc"
proof -
  obtain xs where "sql_list_ids db sc = Inr xs" "sorted xs" "distinct xs"
    "set xs = {w. dict_get (workflow_states db) (ns_of sc, w) \<noteq> None}"
    using list_ids_eq [OF assms(1,3)] by blast
  moreover obtain ys where "sql_list_ids db' sc = Inr ys" "sorted ys" "distinct ys"
    "set ys = {w. dict_get (workflow_states db') (ns_of sc, w) \<noteq> None}"
    using list_ids_eq [OF assms(2,3)] by blast
  ultimately show ?thesis using sorted_distinct_set_unique [of xs ys] assms(4) by simp
qed

section \<open>Properties\<close>

text \<open>
  Durable optimistic concurrency: from any reachable database, whatever sequence of creates and
  updates follows, a stored workflow stays stored, its revision never decreases, an unchanged
  revision means an unchanged state, and a terminal status is never left.
\<close>

theorem sqlite_writes_move_forward:
  assumes "reachable sql_init sql_step db" and "run (store_write sql_create sql_update) n db db'"
    and "opt_all fingerprint_ok sc"
    and "sql_get_revision db w sc = Inr (Some r)" and "\<forall>env. sql_get env db w sc = Inr (Some s)"
  shows "\<exists>r' s'. sql_get_revision db' w sc = Inr (Some r') \<and> (\<forall>env. sql_get env db' w sc = Inr (Some s')) \<and>
    r \<le> r' \<and> (r' = r \<longrightarrow> s' = s) \<and> (terminal (status s) \<longrightarrow> status s' = status s)"
  using sql.writes_move [OF assms(2) sql_sys.reachable_inv [OF assms(1)] assms(3,4,5)]
  unfolding sql.moved_def by blast


text \<open>
  C22.  Tenant isolation: a create, an update, a reservation or a completion made in one scope leaves
  everything another scope can read unchanged (states, revisions, workflow ids, idempotency
  records), and a lookup only ever returns a state of the scope it is made in.
\<close>

theorem sqlite_tenant_isolation:
  assumes "reachable sql_init sql_step db" and "scoped_step sc db db'"
    and "opt_all fingerprint_ok sc'" and "sc' \<noteq> sc"
  shows "sql_get env db' w sc' = sql_get env db w sc' \<and>
    sql_get_revision db' w sc' = sql_get_revision db w sc' \<and>
    sql_list_ids db' sc' = sql_list_ids db sc' \<and>
    get_idempotency db' key sc' = get_idempotency db key sc' \<and>
    (\<forall>s. sql_get env db' w sc' = Inr (Some s) \<longrightarrow> tenant_scope_fingerprint s = sc')"
proof -
  have inv: "sql_inv db" using assms(1) by (rule sql_sys.reachable_inv)
  then have inv': "sql_inv db'" using assms(2) by (blast intro: sql_inv_scoped_step)
  note frame = scoped_step_frame [OF assms(2)]
  have "\<forall>w. dict_get (workflow_states db') (ns_of sc', w) = dict_get (workflow_states db) (ns_of sc', w)"
    "\<forall>k. dict_get (idempotency_records db') (ns_of sc', k) = dict_get (idempotency_records db) (ns_of sc', k)"
    using frame assms(4) by auto
  then show ?thesis
    using frame read_rows_eq [of db' db sc' w env] scoped_list_ids [OF inv inv' assms(3)]
      sql.get_scope [OF inv' assms(3), of env w] assms(3)
    by (simp add: get_idempotency_def connection_def)
qed

text \<open>
  Bounded durable cleanup: whatever order SQLite returns rows in, a successful cleanup deletes
  only terminal workflows last updated no later than one cutoff and idempotency records that expire
  no later than the other, at most \<open>max_records\<close> of each; all other rows stay as they were; and a
  batch below the limit has removed every such row.
\<close>

theorem sqlite_cleanup_bounded:
  assumes "reachable sql_init sql_step db" and "sql_env_ok env"
    and "sql_cleanup env db tb eb m = Inr (db', n)"
  shows "\<exists>ws ks. n = int (length ws) + int (length ks) \<and> int (length ws) \<le> m \<and> int (length ks) \<le> m \<and>
    (\<forall>k. dict_get (workflow_states db') k = (if k \<in> set ws then None else dict_get (workflow_states db) k) \<and>
         dict_get (idempotency_records db') k = (if k \<in> set ks then None else dict_get (idempotency_records db) k)) \<and>
    (\<forall>k \<in> set ws. \<exists>row. dict_get (workflow_states db) k = Some row \<and> terminal (row_status row) \<and> updated_at row \<le> tb) \<and>
    (\<forall>k \<in> set ks. \<exists>row t. dict_get (idempotency_records db) k = Some row \<and> idem_expires_at row = Some t \<and> t \<le> eb) \<and>
    (int (length ws) < m \<longrightarrow> (\<forall>k row. dict_get (workflow_states db') k = Some row \<and> terminal (row_status row)
        \<longrightarrow> tb < updated_at row))"
proof -
  let ?ws = "terminal_batch env db tb m" and ?ks = "expired_batch env db eb m"
  have inv: "dict_ok (workflow_states db)" "dict_ok (idempotency_records db)"
    using sql_sys.reachable_inv [OF assms(1)] by (simp_all add: sql_inv_def)
  note ok = sql_cleanup_ok [OF assms(3)]
  have "tb < updated_at row" if "int (length ?ws) < m" "k \<notin> set ?ws"
      "dict_get (workflow_states db) k = Some row" "terminal (row_status row)" for k row
    using limited_complete [OF assms(2) inv(1), of _ m k row] that unfolding terminal_batch_def
    by (metis (mono_tags, lifting) nat_int not_le zless_nat_conj nat_less_eq_zless of_nat_0_le_iff)
  moreover have "int (length ?ws) \<le> m" "int (length ?ks) \<le> m"
    using limited_keys(2) [OF assms(2)] inv ok unfolding terminal_batch_def expired_batch_def
    by (metis (no_types, lifting) le_nat_iff order_trans zero_le_one)+
  moreover have "\<exists>row. dict_get (workflow_states db) k = Some row \<and> terminal (row_status row) \<and> updated_at row \<le> tb"
    if "k \<in> set ?ws" for k
    using limited_keys(3) [OF assms(2) inv(1)] that unfolding terminal_batch_def by blast
  moreover have "\<exists>row t. dict_get (idempotency_records db) k = Some row \<and> idem_expires_at row = Some t \<and> t \<le> eb"
    if "k \<in> set ?ks" for k
  proof -
    from limited_keys(3) [OF assms(2) inv(2)] that obtain row where
      "dict_get (idempotency_records db) k = Some row" "\<exists>t \<in> set_option (idem_expires_at row). t \<le> eb"
      unfolding expired_batch_def by blast
    then show ?thesis by auto
  qed
  ultimately show ?thesis using ok by (intro exI [of _ ?ws] exI [of _ ?ks]) auto
qed

text \<open>
  Idempotency keys bind once: after a reservation, and as long as the record has not expired, a
  reservation of the same key and scope for another request or workflow raises a conflict, the
  same reservation returns the stored record and changes nothing; a key is completed at most once,
  and only by the workflow it is bound to.
\<close>

theorem idempotency_key_binds_once:
  assumes "reserve_idempotency env db key req w sc expiry = Inr (db1, r)"
    and "\<not> expired (clock env') r"
  shows "(\<forall>req' w' expiry' x. reserve_idempotency env' db1 key req' w' sc expiry' = Inr x \<longrightarrow>
            req' = req \<and> w' = w \<and> x = (db1, r)) \<and>
         (\<forall>w' outcome db2 r2. complete_idempotency env' db1 key w' outcome sc = Inr (db2, r2) \<longrightarrow>
            w' = w \<and> idem_status r2 = COMPLETED \<and> terminal_outcome_fingerprint r2 = Some outcome \<and>
            get_idempotency db2 key sc = Inr (Some r2) \<and>
            (\<forall>env'' w'' outcome'. \<exists>x. complete_idempotency env'' db2 key w'' outcome' sc = Inl x))"
proof (intro conjI allI impI)
  have held: "dict_get (idempotency_records db1) (ns_of sc, key) = Some r"
    and bound: "idem_request_id r = req" "idem_workflow_id r = w"
    using reserve_ok [OF assms(1)] by auto
  fix req' w' expiry' x
  assume "reserve_idempotency env' db1 key req' w' sc expiry' = Inr x"
  then show "req' = req" "w' = w" "x = (db1, r)"
    using reserve_bound [of env' db1 key req' w' sc expiry' "fst x" "snd x", OF _ held assms(2)] bound
    by (auto simp: prod_eq_iff)
next
  have held: "dict_get (idempotency_records db1) (ns_of sc, key) = Some r" and bound: "idem_workflow_id r = w"
    using reserve_ok [OF assms(1)] by auto
  fix w' outcome db2 r2
  assume "complete_idempotency env' db1 key w' outcome sc = Inr (db2, r2)"
  note fin = complete_stored [OF this] complete_ok [OF this]
  show "w' = w" using fin(2) held bound by auto
  show "idem_status r2 = COMPLETED" "terminal_outcome_fingerprint r2 = Some outcome"
    "get_idempotency db2 key sc = Inr (Some r2)" using fin(1) by auto
  show "\<exists>x. complete_idempotency env'' db2 key w'' outcome' sc = Inl x" for env'' w'' outcome'
    using completed_is_final fin(1) by blast
qed

text \<open>
  A database that is locked when a call starts its transaction is not reported as a structured
  store conflict: every writing operation lets the raw \<open>OperationalError\<close> of
  \<open>BEGIN IMMEDIATE\<close> escape, which the public boundary then publishes as an internal error.
\<close>

theorem sqlite_locked_begin_escapes:
  assumes "conn_open db" and "fault env = Some (BeginFails message)" and "opt_all fingerprint_ok sc"
    and "snapshot_valid s"
  shows "sql_create env db s = Inl (OtherException ''OperationalError'') \<and>
    sql_update env db w e s v sc = Inl (OtherException ''OperationalError'') \<and>
    (1 \<le> m \<longrightarrow> sql_cleanup env db tb eb m = Inl (OtherException ''OperationalError''))"
proof -
  have "begin_immediate env db = Inl (OtherException ''OperationalError'')"
    using assms by (simp add: begin_immediate_def connection_def)
  then show ?thesis using assms snapshot_valid_fields [of s]
    by (simp add: sql_create_def sql_update_def sql_cleanup_def)
qed

text \<open>
  The two stores differ on workflow ids shared between tenants: when a workflow id is taken in
  one scope, the in-memory store rejects its creation in every other scope, while the SQLite store
  accepts it.
\<close>

theorem stores_differ_across_tenants:
  assumes "dict_get (mem_states st) (workflow_id s) = Some c" and "tenant_scope_fingerprint c \<noteq> tenant_scope_fingerprint s"
    and "sql_inv db" and "sql_get_revision db (workflow_id s) (tenant_scope_fingerprint s) = Inr None"
    and "fault env = None" and "snapshot_valid s"
  shows "(\<exists>x. mem_create now st s = Inl x) \<and> (\<exists>db'. sql_create env db s = Inr db')"
proof -
  have "dict_get (workflow_states db) (ns_of (tenant_scope_fingerprint s), workflow_id s) = None"
    using row_get [OF assms(3), of "tenant_scope_fingerprint s" env "workflow_id s"] assms(4)
      snapshot_valid_fields [OF assms(6)] by auto
  moreover have "conn_open db" using assms(3) by (simp add: sql_inv_def)
  ultimately show ?thesis using assms(1,5) snapshot_valid_fields [OF assms(6)]
    by (simp add: mem_create_def sql_create_def begin_immediate_def write_stmt_def connection_def)
qed

section \<open>Concrete runs\<close>

definition env_at :: "timestamp \<Rightarrow> sql_env" where
  "env_at now = \<lparr>clock = now, fault = None, scan = (\<lambda>ks. ks)\<rparr>"

definition sql_fresh :: sql_db where
  "sql_fresh = \<lparr>conn_open = True, user_version = 1, workflow_states = [], idempotency_records = []\<rparr>"

definition sample_scope :: string where
  "sample_scope = ''sha256:'' @ replicate 64 CHR ''a''"

definition sample_tenant_wf :: WorkflowState where
  "sample_tenant_wf = sample_wf\<lparr>tenant_scope_fingerprint := Some sample_scope\<rparr>"

definition sql_one :: sql_db where
  "sql_one = sql_fresh\<lparr>workflow_states := [(([], ''wf-1''), new_row (env_at 5) sample_wf)]\<rparr>"

definition sql_two :: sql_db where
  "sql_two = sql_fresh\<lparr>workflow_states :=
     [(([], ''wf-1''), next_row (env_at 6) sample_queued (new_row (env_at 5) sample_wf))]\<rparr>"

lemma sample_scope_ok: "fingerprint_ok sample_scope"
  by (simp add: fingerprint_ok_def sample_scope_def list_all_iff)

lemma sample_tenant_valid: "snapshot_valid sample_tenant_wf" "snapshot_valid sample_wf"
  using sample_scope_ok
  by (simp_all add: snapshot_valid_def sample_tenant_wf_def sample_wf_defs state_valid_def
      budget_valid_def event_valid_def string_pattern_defs(1) char_class_defs)

lemma env_at_ok: "sql_env_ok (env_at now)"
  by (simp add: sql_env_ok_def env_at_def)

lemma sql_fresh_reachable: "reachable sql_init sql_step sql_fresh"
  by (rule reachable_init) (simp add: sql_init_def sql_fresh_def SCHEMA_VERSION_def)

lemma sql_one_create: "sql_create (env_at 5) sql_fresh sample_wf = Inr sql_one"
  by (simp add: sql_create_def begin_immediate_def write_stmt_def connection_def env_at_def sql_fresh_def
      sql_one_def new_row_def ns_of_def sample_wf_defs)

lemma sql_one_reachable: "reachable sql_init sql_step sql_one"
  using sql_fresh_reachable sql_scoped [OF step_create [OF sample_tenant_valid(2) sql_one_create]]
  by (rule reachable_step)

lemma sql_two_update: "sql_update (env_at 6) sql_one ''wf-1'' CREATED sample_queued (Some 1) None = Inr sql_two"
  by (simp add: sql_update_def begin_immediate_def select_stmt_def write_stmt_def connection_def env_at_def
      sql_fresh_def sql_one_def sql_two_def new_row_def next_row_def ns_of_def sample_wf_defs TERMINAL_STATUSES_def)

lemma sql_one_reads: "sql_get_revision sql_one ''wf-1'' None = Inr (Some 1) \<and>
    (\<forall>env. sql_get env sql_one ''wf-1'' None = Inr (Some sample_wf))"
proof -
  have "workflow_id sample_wf = ''wf-1'' \<and> tenant_scope_fingerprint sample_wf = None"
    by (simp add: sample_wf_def)
  with sql.create_stores [OF sql_sys.reachable_inv [OF sql_fresh_reachable] sample_tenant_valid(2) sql_one_create]
  show ?thesis by auto
qed

theorem sqlite_writes_move_forward_witness:
  "run (store_write sql_create sql_update) 1 sql_one sql_two \<and>
   (\<exists>r' s'. sql_get_revision sql_two ''wf-1'' None = Inr (Some r') \<and>
     (\<forall>env. sql_get env sql_two ''wf-1'' None = Inr (Some s')) \<and> 1 \<le> r')"
proof -
  have "store_write sql_create sql_update sql_one sql_two"
    by (rule write_update [where update = sql_update, OF sample_snapshot_valid(2) _ sql_two_update]) simp
  then have steps: "run (store_write sql_create sql_update) 1 sql_one sql_two"
    using run_more [OF run_none] by simp
  then show ?thesis
    using sqlite_writes_move_forward [OF sql_one_reachable steps, of None "''wf-1''" 1 sample_wf] sql_one_reads
    by auto
qed


theorem sqlite_tenant_isolation_witness:
  "\<exists>db'. sql_create (env_at 9) sql_one sample_tenant_wf = Inr db' \<and>
     sql_get (env_at 9) db' ''wf-1'' None = Inr (Some sample_wf)"
proof -
  have "\<exists>db'. sql_create (env_at 9) sql_one sample_tenant_wf = Inr db'"
    using sample_scope_ok
    by (simp add: sql_create_def begin_immediate_def write_stmt_def connection_def env_at_def sql_fresh_def
        sql_one_def ns_of_def sample_tenant_wf_def)
  then obtain db' where created: "sql_create (env_at 9) sql_one sample_tenant_wf = Inr db'" by blast
  have "tenant_scope_fingerprint sample_tenant_wf \<noteq> None" by (simp add: sample_tenant_wf_def)
  with sqlite_tenant_isolation [OF sql_one_reachable step_create [OF sample_tenant_valid(1) created],
      of None "env_at 9" "''wf-1''"] created sql_one_reads
  show ?thesis by auto
qed

definition sql_done :: sql_db where
  "sql_done = sql_fresh\<lparr>workflow_states := [(([], ''wf-1''), new_row (env_at 5) sample_failed)]\<rparr>"

lemma sql_done_reachable: "reachable sql_init sql_step sql_done"
proof -
  have "sql_create (env_at 5) sql_fresh sample_failed = Inr sql_done"
    by (simp add: sql_create_def begin_immediate_def write_stmt_def connection_def env_at_def sql_fresh_def
        sql_done_def new_row_def ns_of_def sample_wf_defs)
  from sql_fresh_reachable sql_scoped [OF step_create [OF sample_snapshot_valid(1) this]]
  show ?thesis by (rule reachable_step)
qed

theorem sqlite_cleanup_bounded_witness:
  "sql_env_ok (env_at 30) \<and> sql_cleanup (env_at 30) sql_done 20 20 3 = Inr (sql_fresh, 1) \<and>
   (\<exists>(ws :: (string \<times> string) list) (ks :: (string \<times> string) list). 1 = int (length ws) + int (length ks) \<and> int (length ws) \<le> 3)"
proof -
  have run: "sql_cleanup (env_at 30) sql_done 20 20 3 = Inr (sql_fresh, 1)"
    by (simp add: sql_cleanup_def begin_immediate_def select_stmt_def write_stmt_def connection_def
        env_at_def sql_done_def sql_fresh_def limited_def new_row_def sample_wf_defs TERMINAL_STATUSES_def)
  show ?thesis
    using env_at_ok run sqlite_cleanup_bounded [OF sql_done_reachable env_at_ok run] by blast
qed

theorem idempotency_key_binds_once_witness:
  "\<exists>db1 r. reserve_idempotency (env_at 5) sql_fresh ''k1'' ''req-1'' ''wf-1'' None (Some 50) = Inr (db1, r) \<and>
     (\<exists>x. reserve_idempotency (env_at 9) db1 ''k1'' ''req-2'' ''wf-1'' None None = Inl x)"
proof -
  define r where "r = fresh_record (env_at 5) ''k1'' ''req-1'' ''wf-1'' None (Some 50)"
  define db1 where "db1 = sql_fresh\<lparr>idempotency_records := [(([], ''k1''), r)]\<rparr>"
  have res: "reserve_idempotency (env_at 5) sql_fresh ''k1'' ''req-1'' ''wf-1'' None (Some 50) = Inr (db1, r)"
    by (simp add: reserve_idempotency_def validate_identity_def begin_immediate_def select_stmt_def write_stmt_def
        connection_def env_at_def sql_fresh_def r_def db1_def fresh_record_def ns_of_def Let_def pattern_simps)
  have "\<not> expired (clock (env_at 9)) r" by (simp add: expired_def r_def fresh_record_def env_at_def)
  from conjunct1 [OF idempotency_key_binds_once [OF res this], rule_format, of "''req-2''" "''wf-1''" None]
  have "reserve_idempotency (env_at 9) db1 ''k1'' ''req-2'' ''wf-1'' None None \<noteq> Inr x" for x by (cases x) auto
  then have "\<exists>x. reserve_idempotency (env_at 9) db1 ''k1'' ''req-2'' ''wf-1'' None None = Inl x"
    by (cases "reserve_idempotency (env_at 9) db1 ''k1'' ''req-2'' ''wf-1'' None None") auto
  with res show ?thesis by blast
qed

theorem sqlite_locked_begin_escapes_witness:
  "sql_create (env_at 5\<lparr>fault := Some (BeginFails ''database is locked'')\<rparr>) sql_fresh sample_wf =
     Inl (OtherException ''OperationalError'')"
proof -
  have "conn_open sql_fresh" by (simp add: sql_fresh_def)
  then show ?thesis
    using sqlite_locked_begin_escapes [of sql_fresh "env_at 5\<lparr>fault := Some (BeginFails ''database is locked'')\<rparr>"
        "''database is locked''" None sample_wf] sample_tenant_valid(2) by simp
qed

theorem stores_differ_across_tenants_witness:
  "(\<exists>x. mem_create 9 mem_failed sample_tenant_wf = Inl x) \<and>
   (\<exists>db'. sql_create (env_at 9) sql_done sample_tenant_wf = Inr db')"
proof (rule stores_differ_across_tenants)
  show "dict_get (mem_states mem_failed) (workflow_id sample_tenant_wf) = Some sample_failed"
    by (simp add: mem_failed_def sample_tenant_wf_def sample_wf_def)
  show "tenant_scope_fingerprint sample_failed \<noteq> tenant_scope_fingerprint sample_tenant_wf"
    by (simp add: sample_tenant_wf_def sample_wf_defs)
  show "sql_inv sql_done" by (rule sql_sys.reachable_inv [OF sql_done_reachable])
  show "sql_get_revision sql_done (workflow_id sample_tenant_wf) (tenant_scope_fingerprint sample_tenant_wf) = Inr None"
    using sample_scope_ok
    by (simp add: sql_get_revision_def connection_def sql_done_def sql_fresh_def sample_tenant_wf_def ns_of_def)
qed (simp_all add: env_at_def sample_tenant_valid)

end
