(* ===== verification/Shared_Errors.thy ===== *)
theory Shared_Errors
  imports Errors
begin

text \<open>
  The errors of the shared workflow backend: \<^verbatim>\<open>src/nl2data_core/workflow/shared_errors.py\<close> and the
  classification of driver failures in \<^verbatim>\<open>nl2data_workflow_postgres/client.py\<close>.

  A \<open>SharedStoreError\<close> is not an \<open>NL2DataError\<close>; \<open>pg_exn\<close> is what a call of the shared store can
  raise.  A driver failure is known by the name of its class and by the driver classes it is an
  instance of: the class hierarchy of psycopg is part of the value, not of the model.
\<close>

datatype SharedStoreErrorCode =
    STORE_UNAVAILABLE | STORE_TIMEOUT | SCHEMA_MISMATCH | STATE_CONFLICT | LEASE_BUSY | FENCING_REJECTED

definition RETRYABLE_CODES :: "SharedStoreErrorCode list" where
  "RETRYABLE_CODES = [STORE_UNAVAILABLE, STORE_TIMEOUT, LEASE_BUSY]"

fun PUBLIC_CODE :: "SharedStoreErrorCode \<Rightarrow> ErrorCode" where
  "PUBLIC_CODE STORE_UNAVAILABLE = ErrorCode.STORE_UNAVAILABLE"
| "PUBLIC_CODE STORE_TIMEOUT = ErrorCode.STORE_TIMEOUT"
| "PUBLIC_CODE SCHEMA_MISMATCH = UNSUPPORTED_SCHEMA_VERSION"
| "PUBLIC_CODE STATE_CONFLICT = INVALID_TRANSITION"
| "PUBLIC_CODE LEASE_BUSY = ErrorCode.LEASE_BUSY"
| "PUBLIC_CODE FENCING_REJECTED = ErrorCode.FENCING_REJECTED"

definition PUBLIC_REJECTED :: "SharedStoreErrorCode list" where
  "PUBLIC_REJECTED = [SCHEMA_MISMATCH, STATE_CONFLICT, LEASE_BUSY, FENCING_REJECTED]"

text \<open>Of the retained cause only the name of its class is read.\<close>

record SharedStoreError =
  ss_code :: SharedStoreErrorCode
  ss_message :: string
  ss_details :: "(string, pyval) dict"
  ss_cause :: "string option"

record driver_error =
  drv_class :: string
  drv_instance_of :: "string list"

datatype pg_exn = is_Shared: Shared SharedStoreError | is_Core: Core exn | is_Driver: Driver driver_error

definition shared_retryable :: "SharedStoreError \<Rightarrow> bool" where
  "shared_retryable e \<longleftrightarrow> ss_code e \<in> set RETRYABLE_CODES"

definition shared_safe_details :: "SharedStoreError \<Rightarrow> (string, string) dict" where
  "shared_safe_details e = map (\<lambda>(k, v). (k, redact_key_value k v)) (ss_details e)"

definition is_public_rejected :: "SharedStoreError \<Rightarrow> bool" where
  "is_public_rejected e \<longleftrightarrow> ss_code e \<in> set PUBLIC_REJECTED"

record SharedStoreErrorRecord =
  sr_code :: SharedStoreErrorCode
  sr_message :: string
  sr_retryable :: bool
  sr_details :: "(string, string) dict"
  sr_cause_type :: "string option"

definition new_SharedStoreErrorRecord :: "SharedStoreErrorRecord \<Rightarrow> SharedStoreErrorRecord res" where
  "new_SharedStoreErrorRecord r =
     (if length (sr_message r) < 1 \<or> 2000 < length (sr_message r) \<or> 64 < length (sr_details r)
         \<or> \<not> opt_all (\<lambda>s. length s \<le> 256) (sr_cause_type r)
      then Inl ValidationError
      else Inr (r\<lparr>sr_details := map (\<lambda>(k, raw). (k, redact_key_value k (PyStr raw))) (sr_details r)\<rparr>))"

definition shared_to_record :: "SharedStoreError \<Rightarrow> SharedStoreErrorRecord res" where
  "shared_to_record e =
     new_SharedStoreErrorRecord
       \<lparr>sr_code = ss_code e, sr_message = ss_message e, sr_retryable = shared_retryable e,
        sr_details = shared_safe_details e, sr_cause_type = ss_cause e\<rparr>"

definition to_public_record :: "SharedStoreError \<Rightarrow> ErrorRecord res" where
  "to_public_record e =
     new_ErrorRecord
       \<lparr>rec_code = PUBLIC_CODE (ss_code e), rec_category = CAT_WORKFLOW, rec_message = ss_message e,
        rec_retryable = shared_retryable e, rec_details = shared_safe_details e,
        rec_cause_type = Some ''SharedStoreError''\<rparr>"

section \<open>Driver failures\<close>

definition is_connect_error :: "driver_error \<Rightarrow> bool" where
  "is_connect_error e \<longleftrightarrow>
     drv_class e \<in> set [''OperationalError'', ''InterfaceError'', ''ConnectionError'', ''PoolTimeout'', ''PoolClosed''] \<or>
     ''psycopg_pool.PoolTimeout'' \<in> set (drv_instance_of e) \<or>
     ''psycopg.OperationalError'' \<in> set (drv_instance_of e) \<or> ''psycopg.InterfaceError'' \<in> set (drv_instance_of e)"

definition is_timeout_error :: "driver_error \<Rightarrow> bool" where
  "is_timeout_error e \<longleftrightarrow>
     drv_class e \<in> set [''TimeoutError'', ''QueryCanceledError'', ''QueryCanceled'', ''Timeout''] \<or>
     ''psycopg.errors.QueryCanceled'' \<in> set (drv_instance_of e)"

definition is_duplicate_key_error :: "driver_error \<Rightarrow> bool" where
  "is_duplicate_key_error e \<longleftrightarrow>
     drv_class e \<in> set [''UniqueViolation'', ''IntegrityError''] \<or>
     ''psycopg.errors.UniqueViolation'' \<in> set (drv_instance_of e)"

definition is_serialization_error :: "driver_error \<Rightarrow> bool" where
  "is_serialization_error e \<longleftrightarrow>
     drv_class e \<in> set [''SerializationFailure'', ''DeadlockDetected''] \<or>
     ''psycopg.errors.SerializationFailure'' \<in> set (drv_instance_of e) \<or>
     ''psycopg.errors.DeadlockDetected'' \<in> set (drv_instance_of e)"

text \<open>\<open>_map_backend_error\<close> on a driver exception; the store's own errors pass through unchanged.\<close>

definition map_backend_error :: "driver_error \<Rightarrow> string \<Rightarrow> SharedStoreError" where
  "map_backend_error e operation =
     (let mapped = (\<lambda>code message. \<lparr>ss_code = code, ss_message = message,
            ss_details = [(''operation'', PyStr operation), (''cause_type'', PyStr (drv_class e))],
            ss_cause = Some (drv_class e)\<rparr>)
      in if is_timeout_error e then mapped STORE_TIMEOUT ''shared state backend command timed out''
         else if is_duplicate_key_error e then
           mapped STATE_CONFLICT ''shared state backend rejected a duplicate record''
         else if is_connect_error e \<or> is_serialization_error e then
           mapped STORE_UNAVAILABLE ''shared state backend is unreachable''
         else mapped STORE_UNAVAILABLE REDACTED_VALUE)"

fun pg_exn_class :: "pg_exn \<Rightarrow> string" where
  "pg_exn_class (Shared _) = ''SharedStoreError''"
| "pg_exn_class (Core x) = exn_class x"
| "pg_exn_class (Driver e) = drv_class e"

definition normalize_shared_error :: "pg_exn \<Rightarrow> SharedStoreError" where
  "normalize_shared_error x =
     (let name = pg_exn_class x;
          mapped = (\<lambda>code message. \<lparr>ss_code = code, ss_message = message,
            ss_details = [(''cause_type'', PyStr name)], ss_cause = Some name\<rparr>)
      in case x of
           Shared e \<Rightarrow> e
         | _ \<Rightarrow>
           if name \<in> set [''TimeoutError'', ''QueryCanceledError'', ''QueryCanceled'', ''Timeout''] then
             mapped STORE_TIMEOUT ''shared state backend command timed out''
           else if name \<in> set [''UniqueViolation'', ''IntegrityError''] then
             mapped STATE_CONFLICT ''shared state backend rejected a duplicate record''
           else if name \<in> set [''OperationalError'', ''InterfaceError'', ''ConnectionError'', ''PoolTimeout''] then
             mapped STORE_UNAVAILABLE ''shared state backend is unreachable''
           else mapped STORE_UNAVAILABLE REDACTED_VALUE)"

section \<open>Records of shared errors\<close>

lemma new_SharedStoreErrorRecord_ok:
  "new_SharedStoreErrorRecord r = Inr r' \<longleftrightarrow>
     sr_message r \<noteq> [] \<and> length (sr_message r) \<le> 2000 \<and> length (sr_details r) \<le> 64 \<and>
     opt_all (\<lambda>s. length s \<le> 256) (sr_cause_type r) \<and>
     r' = r\<lparr>sr_details := map (\<lambda>(k, raw). (k, redact_key_value k (PyStr raw))) (sr_details r)\<rparr>"
  by (auto simp: new_SharedStoreErrorRecord_def Suc_le_eq)

lemma redacted_detail:
  assumes "(k, v) \<in> set (map (\<lambda>(k, raw). (k, redact_key_value k (PyStr raw))) d)"
  shows "(sensitive_key k \<longrightarrow> v = REDACTED_VALUE) \<and> \<not> is_forbidden_value v \<and> length v \<le> 515"
proof -
  obtain raw where v: "v = redact_key_value k (PyStr raw)" using assms by auto
  have "\<not> is_forbidden_value v" unfolding v by (rule redact_key_value_not_forbidden) simp
  moreover have "length v \<le> 515" using redacted_string_length [of raw]
    by (auto simp: v redact_key_value_def REDACTED_VALUE_def MAX_SCALAR_LENGTH_def)
  ultimately show ?thesis by (simp add: v redact_key_value_def)
qed

text \<open>The driver text never enters an error: of the cause only the class name is kept.\<close>

lemma normalized_shape:
  assumes "\<not> is_Shared x"
  shows "ss_message (normalize_shared_error x) \<in>
      {''shared state backend command timed out'', ''shared state backend rejected a duplicate record'',
       ''shared state backend is unreachable'', REDACTED_VALUE} \<and>
    ss_details (normalize_shared_error x) = [(''cause_type'', PyStr (pg_exn_class x))] \<and>
    ss_cause (normalize_shared_error x) = Some (pg_exn_class x)"
  using assms by (cases x) (simp_all add: normalize_shared_error_def Let_def)

text \<open>
  Normalizing any exception of the backend whose class name fits a record gives a publishable
  error: both its backend record and its public record exist, they carry the same retryability, every
  detail is redacted, and the error is retryable exactly when the backend is unavailable, timed out
  or the lease is busy; a refused workflow that is not a busy lease is never retryable.
\<close>

theorem normalized_shared_error_publishable:
  assumes "\<not> is_Shared x" and "length (pg_exn_class x) \<le> 256"
  shows "\<exists>r p. shared_to_record (normalize_shared_error x) = Inr r \<and>
    to_public_record (normalize_shared_error x) = Inr p \<and> rec_retryable p = sr_retryable r \<and>
    (\<forall>(k, v) \<in> set (rec_details p). (sensitive_key k \<longrightarrow> v = REDACTED_VALUE) \<and> \<not> is_forbidden_value v) \<and>
    (sr_retryable r \<longleftrightarrow> ss_code (normalize_shared_error x) \<in> {STORE_UNAVAILABLE, STORE_TIMEOUT, LEASE_BUSY}) \<and>
    (is_public_rejected (normalize_shared_error x) \<and> ss_code (normalize_shared_error x) \<noteq> LEASE_BUSY
       \<longrightarrow> \<not> sr_retryable r)"
proof -
  let ?e = "normalize_shared_error x"
  have fits: "ss_message ?e \<noteq> []" "length (ss_message ?e) \<le> 2000" "length (shared_safe_details ?e) \<le> 64"
      "opt_all (\<lambda>s. length s \<le> 256) (ss_cause ?e)"
    using normalized_shape [OF assms(1)] assms(2) by (auto simp: shared_safe_details_def REDACTED_VALUE_def)
  obtain r where r: "shared_to_record ?e = Inr r" "sr_retryable r = shared_retryable ?e"
    using fits by (simp add: shared_to_record_def new_SharedStoreErrorRecord_ok)
  obtain p where p: "to_public_record ?e = Inr p" "rec_retryable p = shared_retryable ?e"
      "rec_details p = map (\<lambda>(k, raw). (k, redact_key_value k (PyStr raw))) (shared_safe_details ?e)"
    using fits by (auto simp: to_public_record_def new_ErrorRecord_def)
  have "\<forall>(k, v) \<in> set (rec_details p). (sensitive_key k \<longrightarrow> v = REDACTED_VALUE) \<and> \<not> is_forbidden_value v"
    unfolding p(3) using redacted_detail by blast
  then show ?thesis using r p
    by (auto simp: shared_retryable_def RETRYABLE_CODES_def is_public_rejected_def PUBLIC_REJECTED_def)
qed

text \<open>
  The module documentation counts a busy lease among the errors that are not retryable; the table of
  retryable codes holds it, so it is published as retryable and as rejected at once.
\<close>

theorem busy_lease_published_retryable:
  "shared_retryable \<lparr>ss_code = LEASE_BUSY, ss_message = m, ss_details = d, ss_cause = c\<rparr> \<and>
   is_public_rejected \<lparr>ss_code = LEASE_BUSY, ss_message = m, ss_details = d, ss_cause = c\<rparr>"
  by (simp add: shared_retryable_def RETRYABLE_CODES_def is_public_rejected_def PUBLIC_REJECTED_def)

theorem normalized_shared_error_publishable_witness:
  "\<exists>p. to_public_record (normalize_shared_error (Driver \<lparr>drv_class = ''PoolTimeout'', drv_instance_of = []\<rparr>)) = Inr p \<and>
     rec_retryable p"
proof -
  let ?x = "Driver \<lparr>drv_class = ''PoolTimeout'', drv_instance_of = []\<rparr>"
  have name: "\<not> is_Shared ?x" "length (pg_exn_class ?x) \<le> 256" by simp_all
  obtain r p where "shared_to_record (normalize_shared_error ?x) = Inr r"
      "to_public_record (normalize_shared_error ?x) = Inr p" "rec_retryable p = sr_retryable r"
      "sr_retryable r \<longleftrightarrow> ss_code (normalize_shared_error ?x) \<in> {STORE_UNAVAILABLE, STORE_TIMEOUT, LEASE_BUSY}"
    using normalized_shared_error_publishable [OF name] by blast
  moreover have "ss_code (normalize_shared_error ?x) = STORE_UNAVAILABLE"
    by (simp add: normalize_shared_error_def Let_def)
  ultimately show ?thesis by auto
qed

end
