(* ===== verification/Postgres_Store.thy ===== *)
theory Postgres_Store
  imports Sqlite_Store Shared_Errors
begin

text \<open>
  The shared PostgreSQL store with leases and fencing tokens:
  \<^verbatim>\<open>packages/nl2data-workflow-postgres/src/nl2data_workflow_postgres/store.py\<close> with its
  configuration, and the lease contract of \<^verbatim>\<open>src/nl2data_core/workflow/lease.py\<close>.

  The database is shared by several workers; \<open>pg_env\<close> is what one call of one worker finds: its
  configuration, whether its store object is closed, its own clock and the clock of the server, and
  the driver failure it meets, if any: at the checkout of a connection, at the n-th statement of its
  transaction, or at the commit.  A transaction that raises is rolled back and returns no database.

  Transactions run at the isolation level of the driver's default, read committed: a conditional
  statement is atomic, but a second statement that explains why it matched no row may see what other
  workers committed in between.  Operations with such a second statement take two databases, the one
  the conditional statement sees and the one the second statement sees.  A status column holds the
  enum whose text the code writes there; durations are in microseconds, the resolution of
  \<open>timedelta\<close>; \<open>BIGINT\<close> columns overflow at \<open>2 ^ 63\<close>.
\<close>

section \<open>Configuration, rows and environment\<close>

record WorkflowPostgresConfig =
  cfg_namespace :: string
  pool_size :: int
  connect_timeout :: int
  command_timeout :: int
  pool_acquire_timeout :: int
  cfg_schema_version :: int
  cleanup_batch_size :: int
  lease_ttl :: int
  lease_renewal_margin :: int
  clock_tolerance :: int

definition schema_pattern :: "string \<Rightarrow> bool" where
  "schema_pattern s \<longleftrightarrow>
     s \<noteq> [] \<and> is_ascii_letter (hd s) \<and> list_all (\<lambda>c. is_alnum c \<or> c = CHR ''_'') (tl s) \<and> length s \<le> 64"

definition SECOND :: int where
  "SECOND = 1000000"

definition config_valid :: "WorkflowPostgresConfig \<Rightarrow> bool" where
  "config_valid c \<longleftrightarrow>
     schema_pattern (cfg_namespace c) \<and> 1 \<le> pool_size c \<and> pool_size c \<le> 64 \<and>
     100000 \<le> connect_timeout c \<and> connect_timeout c \<le> 30 * SECOND \<and>
     100000 \<le> command_timeout c \<and> command_timeout c \<le> 120 * SECOND \<and>
     100000 \<le> pool_acquire_timeout c \<and> pool_acquire_timeout c \<le> 60 * SECOND \<and>
     cfg_schema_version c = SCHEMA_VERSION \<and> 1 \<le> cleanup_batch_size c \<and> cleanup_batch_size c \<le> 10000 \<and>
     SECOND \<le> lease_ttl c \<and> lease_ttl c \<le> 86400 * SECOND \<and>
     100000 \<le> lease_renewal_margin c \<and> lease_renewal_margin c \<le> 3600 * SECOND \<and>
     0 \<le> clock_tolerance c \<and> clock_tolerance c \<le> 60 * SECOND \<and> lease_renewal_margin c < lease_ttl c"

definition new_WorkflowPostgresConfig :: "WorkflowPostgresConfig \<Rightarrow> WorkflowPostgresConfig res" where
  "new_WorkflowPostgresConfig c = (if config_valid c then Inr c else Inl ValidationError)"

record lease_row =
  lease_owner :: string
  lease_token :: int
  lease_expires_at :: timestamp
  lease_updated_at :: timestamp

record pg_db =
  pg_schema_version :: "int option"
  pg_states :: "(string \<times> string, DurableWorkflowRecord) dict"
  pg_keys :: "(string \<times> string, IdempotencyRecord) dict"
  pg_leases :: "(string \<times> string, lease_row) dict"

datatype pg_fault = CheckoutFails driver_error | StatementFails nat driver_error | CommitFails driver_error

record pg_env =
  config :: WorkflowPostgresConfig
  closed :: bool
  client_now :: timestamp
  server_now :: timestamp
  pg_fault :: "pg_fault option"

record WorkflowLease =
  wl_workflow_id :: string
  wl_scope :: "string option"
  wl_owner_id :: string
  wl_fencing_token :: int
  wl_expires_at :: timestamp
  wl_updated_at :: timestamp

definition MAX_BIGINT :: int where
  "MAX_BIGINT = 2 ^ 63 - 1"

definition new_WorkflowLease :: "WorkflowLease \<Rightarrow> pg_exn + WorkflowLease" where
  "new_WorkflowLease l =
     (if identifier_ok (wl_workflow_id l) \<and> opt_all fingerprint_ok (wl_scope l) \<and> identifier_ok (wl_owner_id l) \<and>
         1 \<le> wl_fencing_token l \<and> wl_fencing_token l \<le> MAX_BIGINT
      then Inr l else Inl (Core ValidationError))"

definition lease_valid :: "WorkflowLease \<Rightarrow> timestamp \<Rightarrow> int \<Rightarrow> bool" where
  "lease_valid l now tolerance \<longleftrightarrow> wl_expires_at l > now + tolerance"

definition validate_lease_identity :: "string \<Rightarrow> string option \<Rightarrow> string option \<Rightarrow> pg_exn + unit" where
  "validate_lease_identity w owner sc =
     bind_res (ensure (identifier_ok w) (Core (ValueError ''lease workflow identity is not identifier-safe''))) (\<lambda>_.
     bind_res (ensure (opt_all identifier_ok owner)
                 (Core (ValueError ''lease owner identity is not identifier-safe''))) (\<lambda>_.
     ensure (opt_all fingerprint_ok sc) (Core (ValueError ''lease scope must be a sha256 fingerprint''))))"

section \<open>Transactions and statements\<close>

text \<open>An exception of the core raised inside a call of the store.\<close>

fun lift_core :: "'a res \<Rightarrow> pg_exn + 'a" where
  "lift_core (Inl x) = Inl (Core x)"
| "lift_core (Inr a) = Inr a"

definition shared_error :: "SharedStoreErrorCode \<Rightarrow> string \<Rightarrow> (string, pyval) dict \<Rightarrow> pg_exn" where
  "shared_error code message details =
     Shared \<lparr>ss_code = code, ss_message = message, ss_details = details, ss_cause = None\<rparr>"

definition pg_namespace :: "string option \<Rightarrow> pg_exn + string" where
  "pg_namespace sc = lift_core (namespace sc)"

text \<open>The checkout and the commit are outside every handler: their failures are raised as they are.\<close>

definition transaction :: "pg_env \<Rightarrow> (pg_exn + 'a) \<Rightarrow> pg_exn + 'a" where
  "transaction env body =
     (if closed env then
        Inl (shared_error STORE_UNAVAILABLE ''shared state store is closed'' [(''cause_type'', PyStr ''ClosedStore'')])
      else case pg_fault env of
        Some (CheckoutFails e) \<Rightarrow> Inl (Driver e)
      | _ \<Rightarrow> bind_res body (\<lambda>r.
          (case pg_fault env of Some (CommitFails e) \<Rightarrow> Inl (Driver e) | _ \<Rightarrow> Inr r)))"

definition execute :: "pg_env \<Rightarrow> nat \<Rightarrow> string \<Rightarrow> pg_exn + unit" where
  "execute env n name =
     (case pg_fault env of
        Some (StatementFails m e) \<Rightarrow> if m = n then Inl (Shared (map_backend_error e name)) else Inr ()
      | _ \<Rightarrow> Inr ())"

text \<open>\<open>x + 1\<close> in a \<open>BIGINT\<close> column: out of range, the statement fails.\<close>

definition bigint_succ :: "int \<Rightarrow> string \<Rightarrow> pg_exn + int" where
  "bigint_succ x name =
     (if x + 1 > MAX_BIGINT then
        Inl (Shared (map_backend_error
          \<lparr>drv_class = ''NumericValueOutOfRange'', drv_instance_of = [''psycopg.DataError'']\<rparr> name))
      else Inr (x + 1))"

definition pg_close :: "pg_env \<Rightarrow> pg_env" where
  "pg_close env = env\<lparr>closed := True\<rparr>"

definition pg_get_schema_version :: "pg_env \<Rightarrow> pg_db \<Rightarrow> pg_exn + int" where
  "pg_get_schema_version env db =
     transaction env (bind_res (execute env 0 ''read_schema_version'') (\<lambda>_.
       Inr (case pg_schema_version db of None \<Rightarrow> 0 | Some v \<Rightarrow> v)))"

text \<open>
  The three first statements create the schema and its metadata table and read the version; the
  eight statements of the migration to version 1 create the three tables and their indexes.
\<close>

definition pg_initialize_schema :: "pg_env \<Rightarrow> pg_db \<Rightarrow> pg_exn + pg_db" where
  "pg_initialize_schema env db =
     transaction env (
       bind_res (execute env 0 ''migration'') (\<lambda>_.
       bind_res (execute env 1 ''migration'') (\<lambda>_.
       bind_res (execute env 2 ''read_schema_version'') (\<lambda>_.
       (let current = (case pg_schema_version db of None \<Rightarrow> 0 | Some v \<Rightarrow> v);
            target = cfg_schema_version (config env)
        in if current > target then
             Inl (shared_error SCHEMA_MISMATCH
                    (''database schema version '' @ string_of_int current @ '' is newer than the configured ''
                      @ string_of_int target)
                    [(''database_schema_version'', PyStr (string_of_int current)),
                     (''configured'', PyStr (string_of_int target))])
           else if current > SCHEMA_VERSION then
             Inl (shared_error SCHEMA_MISMATCH
                    (''database schema version '' @ string_of_int current @ '' is newer than supported ''
                      @ string_of_int SCHEMA_VERSION)
                    [(''database_schema_version'', PyStr (string_of_int current)),
                     (''supported'', PyStr (string_of_int SCHEMA_VERSION))])
           else if current < target then
             bind_res (each_res (\<lambda>n. execute env n ''migration'') [3..<11]) (\<lambda>_.
             bind_res (execute env 11 ''write_schema_version'') (\<lambda>_.
             Inr (db\<lparr>pg_schema_version := Some target\<rparr>)))
           else Inr db)))))"

section \<open>Workflow state operations\<close>

definition pg_new_row :: "pg_env \<Rightarrow> string \<Rightarrow> WorkflowState \<Rightarrow> DurableWorkflowRecord" where
  "pg_new_row env ns s =
     \<lparr>schema_version = SCHEMA_VERSION, row_workflow_id = workflow_id s, row_request_id = request_id s,
      row_scope = tenant_scope_fingerprint s, scope_namespace = ns, row_status = status s, revision = 1,
      snapshot = serialize_snapshot s, created_at = client_now env, updated_at = client_now env,
      expires_at = None\<rparr>"

definition pg_create :: "pg_env \<Rightarrow> pg_db \<Rightarrow> WorkflowState \<Rightarrow> pg_exn + pg_db" where
  "pg_create env db state =
     bind_res (pg_namespace (tenant_scope_fingerprint state)) (\<lambda>ns.
     transaction env (
       bind_res (execute env 0 ''create_workflow'') (\<lambda>_.
       if dict_get (pg_states db) (ns, workflow_id state) \<noteq> None then
         Inl (Core (WorkflowStateError (workflow_message (workflow_id state) ''already exists'')
                     [(''workflow_id'', PyStr (workflow_id state))] False))
       else Inr (db\<lparr>pg_states := dict_set (ns, workflow_id state) (pg_new_row env ns state) (pg_states db)\<rparr>))))"

fun pg_malformed :: "string \<Rightarrow> 'a res \<Rightarrow> pg_exn + 'a" where
  "pg_malformed w (Inl x) = Inl (Core (malformed_error w x))"
| "pg_malformed w (Inr a) = Inr a"

definition pg_read_state ::
  "pg_env \<Rightarrow> pg_db \<Rightarrow> string \<Rightarrow> string option \<Rightarrow> string option \<Rightarrow> pg_exn + WorkflowState option" where
  "pg_read_state env db w req sc =
     bind_res (pg_namespace sc) (\<lambda>ns.
     bind_res (transaction env (
       bind_res (execute env 0 (if req \<noteq> None then ''read_checkpoint'' else ''read_snapshot'')) (\<lambda>_.
       Inr (case dict_get (pg_states db) (ns, w) of
              None \<Rightarrow> None
            | Some row \<Rightarrow> if req \<noteq> None \<and> Some (row_request_id row) \<noteq> req then None else Some row)))) (\<lambda>found.
     (case found of
        None \<Rightarrow> Inr None
      | Some row \<Rightarrow> bind_res (pg_malformed w (deserialize_snapshot (client_now env) (snapshot row))) (\<lambda>s.
          Inr (Some s)))))"

definition pg_get :: "pg_env \<Rightarrow> pg_db \<Rightarrow> string \<Rightarrow> string option \<Rightarrow> pg_exn + WorkflowState option" where
  "pg_get env db w sc = pg_read_state env db w None sc"

definition pg_get_checkpoint ::
  "pg_env \<Rightarrow> pg_db \<Rightarrow> string \<Rightarrow> string \<Rightarrow> string option \<Rightarrow> pg_exn + WorkflowState option" where
  "pg_get_checkpoint env db w req sc = pg_read_state env db w (Some req) sc"

definition pg_get_revision :: "pg_env \<Rightarrow> pg_db \<Rightarrow> string \<Rightarrow> string option \<Rightarrow> pg_exn + int option" where
  "pg_get_revision env db w sc =
     bind_res (pg_namespace sc) (\<lambda>ns.
     transaction env (bind_res (execute env 0 ''read_revision'') (\<lambda>_.
       Inr (map_option revision (dict_get (pg_states db) (ns, w))))))"

definition pg_get_record :: "pg_env \<Rightarrow> pg_db \<Rightarrow> string \<Rightarrow> string option \<Rightarrow> pg_exn + DurableWorkflowRecord option" where
  "pg_get_record env db w sc =
     bind_res (pg_namespace sc) (\<lambda>ns.
     bind_res (transaction env (bind_res (execute env 0 ''read_state_row'') (\<lambda>_.
       Inr (dict_get (pg_states db) (ns, w))))) (\<lambda>found.
     (case found of
        None \<Rightarrow> Inr None
      | Some row \<Rightarrow> if durable_record_valid row then Inr (Some row) else Inl (Core ValidationError))))"

text \<open>The subquery of the fenced statements: the lease of the caller, valid on the server clock.\<close>

definition lease_live :: "pg_env \<Rightarrow> pg_db \<Rightarrow> string \<Rightarrow> string \<Rightarrow> string \<Rightarrow> int \<Rightarrow> bool" where
  "lease_live env db ns w owner token \<longleftrightarrow>
     (case dict_get (pg_leases db) (ns, w) of
        None \<Rightarrow> False
      | Some l \<Rightarrow> lease_owner l = owner \<and> lease_token l = token \<and>
                  lease_expires_at l > server_now env + clock_tolerance (config env))"

text \<open>Ownership is enforced only when both the owner and the token are supplied.\<close>

fun fence_ok :: "pg_env \<Rightarrow> pg_db \<Rightarrow> string \<Rightarrow> string \<Rightarrow> string option \<Rightarrow> int option \<Rightarrow> bool" where
  "fence_ok env db ns w (Some owner) (Some token) = lease_live env db ns w owner token"
| "fence_ok env db ns w _ _ = True"

definition fenced_name :: "string \<Rightarrow> string option \<Rightarrow> int option \<Rightarrow> string" where
  "fenced_name name owner token = (if owner \<noteq> None \<and> token \<noteq> None then name @ ''_fenced'' else name)"

text \<open>The row the conditional \<open>UPDATE\<close> matches.\<close>

definition update_target ::
  "pg_env \<Rightarrow> pg_db \<Rightarrow> string \<Rightarrow> string \<Rightarrow> WorkflowStatus \<Rightarrow> int option \<Rightarrow> string option \<Rightarrow> string option \<Rightarrow> int option
    \<Rightarrow> DurableWorkflowRecord option" where
  "update_target env db ns w expected_status expected_version sc owner token =
     (case dict_get (pg_states db) (ns, w) of
        None \<Rightarrow> None
      | Some row \<Rightarrow>
          if row_status row = expected_status \<and> row_scope row = sc \<and>
             (expected_version = None \<or> expected_version = Some (revision row)) \<and>
             \<not> terminal (row_status row) \<and> fence_ok env db ns w owner token
          then Some row else None)"

definition pg_next_row :: "pg_env \<Rightarrow> WorkflowState \<Rightarrow> int \<Rightarrow> DurableWorkflowRecord \<Rightarrow> DurableWorkflowRecord" where
  "pg_next_row env s n row =
     row\<lparr>row_request_id := request_id s, row_scope := tenant_scope_fingerprint s, row_status := status s,
       revision := n, snapshot := serialize_snapshot s, updated_at := client_now env\<rparr>"

text \<open>What the caller is told when the statement matched no row.\<close>

definition update_missed ::
  "pg_env \<Rightarrow> pg_db \<Rightarrow> string \<Rightarrow> string \<Rightarrow> WorkflowStatus \<Rightarrow> WorkflowState \<Rightarrow> int option \<Rightarrow> pg_exn + pg_db" where
  "update_missed env mid ns w expected_status state expected_version =
     bind_res (execute env 1 ''read_state_row'') (\<lambda>_.
     (case dict_get (pg_states mid) (ns, w) of
        None \<Rightarrow> Inl (Core (WorkflowStateError (workflow_message w ''not found'') [(''workflow_id'', PyStr w)] False))
      | Some row \<Rightarrow>
          if row_scope row \<noteq> tenant_scope_fingerprint state then
            Inl (Core (WorkflowStateError (workflow_message w ''tenant scope mismatch'')
                   [(''workflow_id'', PyStr w)] False))
          else if terminal (row_status row) then
            (if status state \<noteq> row_status row then
               Inl (Core (WorkflowTransitionError
                      (''cannot transition from terminal status '' @ quoted (status_value (row_status row)))
                      (transition_details (row_status row) (status state))))
             else Inr mid)
          else if row_status row \<noteq> expected_status then
            Inl (Core (WorkflowStateError (workflow_message w ''status changed concurrently'')
                   [(''workflow_id'', PyStr w), (''expected'', PyStr (status_value expected_status)),
                    (''actual'', PyStr (status_value (row_status row)))] False))
          else if expected_version \<noteq> None \<and> Some (revision row) \<noteq> expected_version then
            Inl (Core (WorkflowStateError (workflow_message w ''version changed concurrently'')
                   [(''workflow_id'', PyStr w),
                    (''expected_version'', PyStr (string_of_int (the expected_version))),
                    (''actual'', PyStr (string_of_int (revision row)))] False))
          else Inl (shared_error FENCING_REJECTED (workflow_message w ''lease ownership was lost'')
                      [(''workflow_id'', PyStr w)])))"

definition pg_update ::
  "pg_env \<Rightarrow> pg_db \<Rightarrow> pg_db \<Rightarrow> string \<Rightarrow> WorkflowStatus \<Rightarrow> WorkflowState \<Rightarrow> int option \<Rightarrow> string option
    \<Rightarrow> string option \<Rightarrow> int option \<Rightarrow> pg_exn + pg_db" where
  "pg_update env db mid w expected_status state expected_version sc owner token =
     (if workflow_id state \<noteq> w then
        Inl (Core (WorkflowStateError ''workflow snapshot identity does not match the requested workflow''
               [(''workflow_id'', PyStr w)] False))
      else if tenant_scope_fingerprint state \<noteq> sc then
        Inl (Core (WorkflowStateError (workflow_message w ''tenant scope mismatch'') [(''workflow_id'', PyStr w)] False))
      else bind_res (pg_namespace sc) (\<lambda>ns.
        transaction env (
          bind_res (execute env 0 (fenced_name ''update_state'' owner token)) (\<lambda>_.
          (case update_target env db ns w expected_status expected_version sc owner token of
             Some row \<Rightarrow> bind_res (bigint_succ (revision row) (fenced_name ''update_state'' owner token)) (\<lambda>n.
               Inr (db\<lparr>pg_states := dict_set (ns, w) (pg_next_row env state n row) (pg_states db)\<rparr>))
           | None \<Rightarrow> update_missed env mid ns w expected_status state expected_version)))))"

definition pg_list_ids :: "pg_env \<Rightarrow> pg_db \<Rightarrow> string option \<Rightarrow> pg_exn + string list" where
  "pg_list_ids env db sc =
     bind_res (pg_namespace sc) (\<lambda>ns.
     transaction env (bind_res (execute env 0 ''list_ids'') (\<lambda>_.
       Inr (map snd (sorted_keys (\<lambda>k _. fst k = ns) (pg_states db))))))"

text \<open>
  A bounded delete: of the rows that satisfy the condition, the first \<open>m\<close> in the order of their
  instant and id.  Rows of several namespaces with the same instant and id keep the table order.
\<close>

definition oldest :: "('v \<Rightarrow> bool) \<Rightarrow> ('v \<Rightarrow> timestamp) \<Rightarrow> int \<Rightarrow> (string \<times> string, 'v) dict \<Rightarrow> (string \<times> string) list" where
  "oldest P instant m table =
     take (nat m) (map fst (sort_key (\<lambda>(k, row). (instant row, snd k)) (filter (\<lambda>(_, row). P row) table)))"

definition pg_cleanup :: "pg_env \<Rightarrow> pg_db \<Rightarrow> timestamp \<Rightarrow> timestamp \<Rightarrow> int \<Rightarrow> pg_exn + pg_db \<times> int" where
  "pg_cleanup env db terminal_before expired_before max_records =
     (if max_records < 1 then Inl (Core (ValueError ''max_records must be positive''))
      else
        (let batch = min max_records (cleanup_batch_size (config env));
             lease_cutoff = expired_before - clock_tolerance (config env);
             states = oldest (\<lambda>row. terminal (row_status row) \<and> updated_at row \<le> terminal_before) updated_at
                        batch (pg_states db);
             keys = oldest (expired expired_before) (\<lambda>row. the (idem_expires_at row)) batch (pg_keys db);
             leases = oldest (\<lambda>l. lease_expires_at l \<le> lease_cutoff) lease_expires_at batch (pg_leases db)
         in transaction env (
              bind_res (execute env 0 ''delete_states_batch'') (\<lambda>_.
              bind_res (execute env 1 ''delete_idempotency_batch'') (\<lambda>_.
              bind_res (execute env 2 ''delete_leases_batch'') (\<lambda>_.
              Inr (db\<lparr>pg_states := dict_del_all states (pg_states db), pg_keys := dict_del_all keys (pg_keys db),
                     pg_leases := dict_del_all leases (pg_leases db)\<rparr>,
                   int (length states) + int (length keys) + int (length leases))))))))"

section \<open>Idempotency-key records\<close>

definition pg_fresh_record ::
  "pg_env \<Rightarrow> string \<Rightarrow> string \<Rightarrow> string \<Rightarrow> string \<Rightarrow> string option \<Rightarrow> timestamp option \<Rightarrow> IdempotencyRecord" where
  "pg_fresh_record env ns key req w sc expiry =
     \<lparr>idempotency_key = key, idem_request_id = req, idem_scope = sc, idem_namespace = ns,
      idem_workflow_id = w, idem_status = RESERVED, terminal_outcome_fingerprint = None,
      idem_created_at = client_now env, idem_updated_at = client_now env, idem_expires_at = expiry\<rparr>"

definition key_conflict :: "string \<Rightarrow> string \<Rightarrow> pg_exn" where
  "key_conflict key problem =
     Core (IdempotencyConflictError (key_message key problem) [(''idempotency_key'', PyStr key)])"

definition key_missing :: "string \<Rightarrow> pg_exn" where
  "key_missing key = Core (WorkflowStateError (key_message key ''not found'') [(''idempotency_key'', PyStr key)] False)"

text \<open>
  The key is taken: the row is read and locked, so that the deletion and the second insertion of an
  expired key cannot be crossed by another worker.
\<close>

definition reserve_taken ::
  "pg_env \<Rightarrow> pg_db \<Rightarrow> string \<Rightarrow> string \<Rightarrow> string \<Rightarrow> string \<Rightarrow> string option \<Rightarrow> timestamp option
    \<Rightarrow> pg_exn + pg_db \<times> IdempotencyRecord" where
  "reserve_taken env mid ns key req w sc expiry =
     bind_res (execute env 1 ''read_idempotency_row'') (\<lambda>_.
     (case dict_get (pg_keys mid) (ns, key) of
        None \<Rightarrow> Inl (key_missing key)
      | Some row \<Rightarrow>
          if expired (client_now env) row then
            bind_res (execute env 2 ''delete_idempotency'') (\<lambda>_.
            bind_res (execute env 3 ''insert_idempotency'') (\<lambda>_.
            (let fresh = pg_fresh_record env ns key req w sc expiry
             in Inr (mid\<lparr>pg_keys := dict_set (ns, key) fresh (dict_del (ns, key) (pg_keys mid))\<rparr>, fresh))))
          else if idem_request_id row \<noteq> req then
            Inl (Core (IdempotencyConflictError (key_message key ''is bound to a different request'')
                   [(''idempotency_key'', PyStr key), (''bound_request_id'', PyStr (idem_request_id row))]))
          else if idem_scope row \<noteq> sc then Inl (key_conflict key ''is bound to a different tenant scope'')
          else if idem_workflow_id row \<noteq> w then Inl (key_conflict key ''is bound to a different workflow'')
          else Inr (mid, row)))"

definition pg_reserve_idempotency ::
  "pg_env \<Rightarrow> pg_db \<Rightarrow> pg_db \<Rightarrow> string \<Rightarrow> string \<Rightarrow> string \<Rightarrow> string option \<Rightarrow> timestamp option
    \<Rightarrow> pg_exn + pg_db \<times> IdempotencyRecord" where
  "pg_reserve_idempotency env db mid key req w sc expiry =
     bind_res (lift_core (validate_identity key (Some req) (Some w) sc)) (\<lambda>_.
     bind_res (pg_namespace sc) (\<lambda>ns.
     transaction env (
       bind_res (execute env 0 ''insert_idempotency'') (\<lambda>_.
       (let fresh = pg_fresh_record env ns key req w sc expiry
        in if dict_get (pg_keys db) (ns, key) = None
           then Inr (db\<lparr>pg_keys := dict_set (ns, key) fresh (pg_keys db)\<rparr>, fresh)
           else reserve_taken env mid ns key req w sc expiry)))))"

definition complete_missed ::
  "pg_env \<Rightarrow> pg_db \<Rightarrow> string \<Rightarrow> string \<Rightarrow> string \<Rightarrow> string option \<Rightarrow> pg_exn + pg_db \<times> IdempotencyRecord" where
  "complete_missed env mid ns key w sc =
     bind_res (execute env 1 ''read_idempotency_row'') (\<lambda>_.
     (case dict_get (pg_keys mid) (ns, key) of
        None \<Rightarrow> Inl (key_missing key)
      | Some row \<Rightarrow>
          if idem_scope row \<noteq> sc then Inl (key_conflict key ''is bound to a different tenant scope'')
          else if idem_workflow_id row \<noteq> w then Inl (key_conflict key ''is bound to a different workflow'')
          else if idem_status row \<noteq> RESERVED then Inl (key_conflict key ''is already completed'')
          else Inl (shared_error FENCING_REJECTED (key_message key ''lease ownership was lost'')
                      [(''idempotency_key'', PyStr key), (''workflow_id'', PyStr w)])))"

text \<open>
  The conditional \<open>UPDATE\<close> matches the reserved row of the key whatever workflow it is bound to, and
  rebinds it.
\<close>

definition pg_complete_idempotency ::
  "pg_env \<Rightarrow> pg_db \<Rightarrow> pg_db \<Rightarrow> string \<Rightarrow> string \<Rightarrow> string \<Rightarrow> string option \<Rightarrow> string option \<Rightarrow> int option
    \<Rightarrow> pg_exn + pg_db \<times> IdempotencyRecord" where
  "pg_complete_idempotency env db mid key w outcome sc owner token =
     bind_res (lift_core (validate_identity key None (Some w) sc)) (\<lambda>_.
     bind_res (ensure (fingerprint_ok outcome)
       (Core (WorkflowStateError ''terminal outcome reference must be a sha256 fingerprint''
                [(''idempotency_key'', PyStr key)] False))) (\<lambda>_.
     bind_res (pg_namespace sc) (\<lambda>ns.
     transaction env (
       bind_res (execute env 0 (fenced_name ''complete_idempotency'' owner token)) (\<lambda>_.
       (case dict_get (pg_keys db) (ns, key) of
          Some row \<Rightarrow>
            if idem_status row = RESERVED \<and> fence_ok env db ns w owner token then
              (let row' = row\<lparr>idem_workflow_id := w, idem_status := COMPLETED,
                               terminal_outcome_fingerprint := Some outcome, idem_updated_at := client_now env\<rparr>
               in Inr (db\<lparr>pg_keys := dict_set (ns, key) row' (pg_keys db)\<rparr>, row'))
            else complete_missed env mid ns key w sc
        | None \<Rightarrow> complete_missed env mid ns key w sc))))))"

definition pg_get_idempotency :: "pg_env \<Rightarrow> pg_db \<Rightarrow> string \<Rightarrow> string option \<Rightarrow> pg_exn + IdempotencyRecord option" where
  "pg_get_idempotency env db key sc =
     bind_res (pg_namespace sc) (\<lambda>ns.
     transaction env (bind_res (execute env 0 ''read_idempotency_plain'') (\<lambda>_.
       Inr (dict_get (pg_keys db) (ns, key)))))"

section \<open>Leases\<close>

definition lease_of_row :: "string \<Rightarrow> string option \<Rightarrow> lease_row \<Rightarrow> pg_exn + WorkflowLease" where
  "lease_of_row w sc l =
     new_WorkflowLease \<lparr>wl_workflow_id = w, wl_scope = sc, wl_owner_id = lease_owner l,
       wl_fencing_token = lease_token l, wl_expires_at = lease_expires_at l, wl_updated_at = lease_updated_at l\<rparr>"

text \<open>
  Acquisition is one statement: an insertion, or the takeover of a lease that expired before the
  server clock by more than the tolerance.  The expiry is computed on the worker's own clock.
\<close>

definition acquire_lease ::
  "pg_env \<Rightarrow> pg_db \<Rightarrow> string \<Rightarrow> string \<Rightarrow> string option \<Rightarrow> int option \<Rightarrow> pg_exn + pg_db \<times> WorkflowLease" where
  "acquire_lease env db w owner sc ttl_override =
     bind_res (validate_lease_identity w (Some owner) sc) (\<lambda>_.
     (let ttl = (case ttl_override of None \<Rightarrow> lease_ttl (config env) | Some t \<Rightarrow> t)
      in if ttl < SECOND \<or> ttl > 86400 * SECOND then
           Inl (Core (ValueError ''lease TTL must be between 1 and 86400 seconds''))
         else bind_res (pg_namespace sc) (\<lambda>ns.
           transaction env (
             bind_res (execute env 0 ''acquire_lease'') (\<lambda>_.
             bind_res
               (case dict_get (pg_leases db) (ns, w) of
                  None \<Rightarrow> Inr 1
                | Some l \<Rightarrow>
                    if lease_expires_at l \<le> server_now env - clock_tolerance (config env)
                    then bigint_succ (lease_token l) ''acquire_lease''
                    else Inl (shared_error LEASE_BUSY (workflow_message w ''lease is busy'')
                                [(''workflow_id'', PyStr w)])) (\<lambda>token.
             (let row = \<lparr>lease_owner = owner, lease_token = token, lease_expires_at = client_now env + ttl,
                         lease_updated_at = server_now env\<rparr>
              in bind_res (lease_of_row w sc row) (\<lambda>lease.
                 Inr (db\<lparr>pg_leases := dict_set (ns, w) row (pg_leases db)\<rparr>, lease)))))))))"

definition renew_missed ::
  "pg_env \<Rightarrow> pg_db \<Rightarrow> string \<Rightarrow> string \<Rightarrow> string \<Rightarrow> int \<Rightarrow> pg_exn" where
  "renew_missed env mid ns w owner token =
     (let rejected = (\<lambda>problem. shared_error FENCING_REJECTED (workflow_message w problem) [(''workflow_id'', PyStr w)])
      in case dict_get (pg_leases mid) (ns, w) of
           None \<Rightarrow> rejected ''has no lease''
         | Some l \<Rightarrow> if lease_owner l \<noteq> owner \<or> lease_token l \<noteq> token
                     then rejected ''lease ownership was superseded''
                     else rejected ''lease has expired'')"

definition renew_lease ::
  "pg_env \<Rightarrow> pg_db \<Rightarrow> pg_db \<Rightarrow> string \<Rightarrow> string \<Rightarrow> int \<Rightarrow> string option \<Rightarrow> pg_exn + pg_db \<times> WorkflowLease" where
  "renew_lease env db mid w owner token sc =
     bind_res (validate_lease_identity w (Some owner) sc) (\<lambda>_.
     bind_res (pg_namespace sc) (\<lambda>ns.
     transaction env (
       bind_res (execute env 0 ''renew_lease'') (\<lambda>_.
       if lease_live env db ns w owner token then
         (let row = \<lparr>lease_owner = owner, lease_token = token,
                     lease_expires_at = client_now env + lease_ttl (config env), lease_updated_at = server_now env\<rparr>
          in bind_res (lease_of_row w sc row) (\<lambda>lease.
             Inr (db\<lparr>pg_leases := dict_set (ns, w) row (pg_leases db)\<rparr>, lease)))
       else bind_res (execute env 1 ''inspect_lease'') (\<lambda>_.
         Inl (renew_missed env mid ns w owner token))))))"

definition release_lease ::
  "pg_env \<Rightarrow> pg_db \<Rightarrow> string \<Rightarrow> string \<Rightarrow> int \<Rightarrow> string option \<Rightarrow> pg_exn + pg_db \<times> bool" where
  "release_lease env db w owner token sc =
     bind_res (validate_lease_identity w (Some owner) sc) (\<lambda>_.
     bind_res (pg_namespace sc) (\<lambda>ns.
     transaction env (
       bind_res (execute env 0 ''release_lease'') (\<lambda>_.
       (case dict_get (pg_leases db) (ns, w) of
          Some l \<Rightarrow>
            if lease_owner l = owner \<and> lease_token l = token
            then Inr (db\<lparr>pg_leases := dict_del (ns, w) (pg_leases db)\<rparr>, True)
            else Inr (db, False)
        | None \<Rightarrow> Inr (db, False))))))"

definition inspect_lease :: "pg_env \<Rightarrow> pg_db \<Rightarrow> string \<Rightarrow> string option \<Rightarrow> pg_exn + WorkflowLease option" where
  "inspect_lease env db w sc =
     bind_res (pg_namespace sc) (\<lambda>ns.
     bind_res (transaction env (bind_res (execute env 0 ''inspect_lease'') (\<lambda>_.
       Inr (dict_get (pg_leases db) (ns, w))))) (\<lambda>found.
     (case found of None \<Rightarrow> Inr None | Some l \<Rightarrow> bind_res (lease_of_row w sc l) (\<lambda>x. Inr (Some x)))))"

section \<open>Which calls return\<close>

definition no_escape :: "pg_env \<Rightarrow> bool" where
  "no_escape env \<longleftrightarrow> \<not> closed env \<and> (\<forall>e. pg_fault env \<noteq> Some (CheckoutFails e)) \<and> (\<forall>e. pg_fault env \<noteq> Some (CommitFails e))"

lemma transaction_ok [res_simps]: "transaction env body = Inr r \<longleftrightarrow> no_escape env \<and> body = Inr r"
  by (auto simp: transaction_def no_escape_def bind_res_Inr_iff split: option.splits pg_fault.splits)

lemma execute_ok [res_simps]: "execute env n name = Inr u \<longleftrightarrow> (\<forall>e. pg_fault env \<noteq> Some (StatementFails n e))"
  by (auto simp: execute_def split: option.splits pg_fault.splits)

lemma bigint_succ_ok [res_simps]: "bigint_succ x name = Inr y \<longleftrightarrow> x < MAX_BIGINT \<and> y = x + 1"
  by (auto simp: bigint_succ_def)

lemma lift_core_ok [res_simps]: "lift_core r = Inr x \<longleftrightarrow> r = Inr x"
  by (cases r) auto

lemma pg_malformed_ok [res_simps]: "pg_malformed w r = Inr x \<longleftrightarrow> r = Inr x"
  by (cases r) auto

lemma pg_namespace_eq [simp]: "opt_all fingerprint_ok sc \<Longrightarrow> pg_namespace sc = Inr (ns_of sc)"
  by (simp add: pg_namespace_def)

lemma validate_lease_identity_ok [res_simps]:
  "validate_lease_identity w owner sc = Inr u \<longleftrightarrow>
     identifier_ok w \<and> opt_all identifier_ok owner \<and> opt_all fingerprint_ok sc"
  by (auto simp: validate_lease_identity_def bind_res_Inr_iff)

lemma lease_of_row_ok [res_simps]:
  "lease_of_row w sc l = Inr x \<longleftrightarrow>
     identifier_ok w \<and> opt_all fingerprint_ok sc \<and> identifier_ok (lease_owner l) \<and>
     1 \<le> lease_token l \<and> lease_token l \<le> MAX_BIGINT \<and>
     x = \<lparr>wl_workflow_id = w, wl_scope = sc, wl_owner_id = lease_owner l, wl_fencing_token = lease_token l,
          wl_expires_at = lease_expires_at l, wl_updated_at = lease_updated_at l\<rparr>"
  by (auto simp: lease_of_row_def new_WorkflowLease_def)

lemma pg_create_ok:
  "snapshot_valid s \<Longrightarrow> pg_create env db s = Inr db' \<Longrightarrow>
   dict_get (pg_states db) (ns_of (tenant_scope_fingerprint s), workflow_id s) = None \<and>
   db' = db\<lparr>pg_states := dict_set (ns_of (tenant_scope_fingerprint s), workflow_id s)
     (pg_new_row env (ns_of (tenant_scope_fingerprint s)) s) (pg_states db)\<rparr>"
  using snapshot_valid_fields [of s] by (auto simp: pg_create_def res_simps split: if_splits)

definition writable ::
  "pg_env \<Rightarrow> pg_db \<Rightarrow> string \<Rightarrow> WorkflowStatus \<Rightarrow> int option \<Rightarrow> string option \<Rightarrow> string option \<Rightarrow> int option
    \<Rightarrow> DurableWorkflowRecord \<Rightarrow> bool" where
  "writable env db w e v sc owner token row \<longleftrightarrow>
     dict_get (pg_states db) (ns_of sc, w) = Some row \<and> row_status row = e \<and> row_scope row = sc \<and>
     (v = None \<or> v = Some (revision row)) \<and> \<not> terminal e \<and> fence_ok env db (ns_of sc) w owner token"

lemma update_target_Some:
  "update_target env db (ns_of sc) w e v sc owner token = Some row \<longleftrightarrow> writable env db w e v sc owner token row"
  by (auto simp: update_target_def writable_def split: option.splits if_splits)

lemma update_missed_ok:
  "update_missed env mid ns w e s v = Inr db' \<Longrightarrow>
   db' = mid \<and> (\<exists>row. dict_get (pg_states mid) (ns, w) = Some row \<and> row_scope row = tenant_scope_fingerprint s \<and>
     terminal (row_status row) \<and> status s = row_status row)"
  by (auto simp: update_missed_def bind_res_Inr_iff split: option.splits if_splits)

text \<open>A successful update wrote the matched row, or found a terminal row that already has the status.\<close>

lemma pg_update_ok:
  assumes "pg_update env db mid w e s v sc owner token = Inr db'"
  shows "workflow_id s = w \<and> tenant_scope_fingerprint s = sc \<and> no_escape env \<and>
    (\<exists>ns. pg_namespace sc = Inr ns) \<and>
    (opt_all fingerprint_ok sc \<longrightarrow>
      (\<exists>row. writable env db w e v sc owner token row \<and> revision row < MAX_BIGINT \<and>
         db' = db\<lparr>pg_states := dict_set (ns_of sc, w) (pg_next_row env s (revision row + 1) row) (pg_states db)\<rparr>) \<or>
      db' = mid \<and> (\<exists>row. dict_get (pg_states mid) (ns_of sc, w) = Some row \<and> row_scope row = sc \<and>
         terminal (row_status row) \<and> status s = row_status row))"
proof -
  have ids: "workflow_id s = w" "tenant_scope_fingerprint s = sc" "no_escape env"
      and "\<exists>ns. pg_namespace sc = Inr ns"
    using assms by (auto simp: pg_update_def res_simps split: if_splits)
  moreover have "(\<exists>row. writable env db w e v sc owner token row \<and> revision row < MAX_BIGINT \<and>
         db' = db\<lparr>pg_states := dict_set (ns_of sc, w) (pg_next_row env s (revision row + 1) row) (pg_states db)\<rparr>) \<or>
      db' = mid \<and> (\<exists>row. dict_get (pg_states mid) (ns_of sc, w) = Some row \<and> row_scope row = sc \<and>
         terminal (row_status row) \<and> status s = row_status row)" if sc: "opt_all fingerprint_ok sc"
  proof (cases "update_target env db (ns_of sc) w e v sc owner token")
    case None
    then have "update_missed env mid (ns_of sc) w e s v = Inr db'"
      using assms ids sc by (simp add: pg_update_def res_simps)
    then show ?thesis using update_missed_ok ids(2) by blast
  next
    case (Some row)
    then have "revision row < MAX_BIGINT \<and>
        db' = db\<lparr>pg_states := dict_set (ns_of sc, w) (pg_next_row env s (revision row + 1) row) (pg_states db)\<rparr>"
      using assms ids sc by (auto simp: pg_update_def res_simps)
    with Some show ?thesis unfolding update_target_Some by blast
  qed
  ultimately show ?thesis by blast
qed

section \<open>Invariant and the protocol of the store\<close>

definition lease_row_valid :: "lease_row \<Rightarrow> bool" where
  "lease_row_valid l \<longleftrightarrow> identifier_ok (lease_owner l) \<and> 1 \<le> lease_token l \<and> lease_token l \<le> MAX_BIGINT"

definition pg_inv :: "pg_db \<Rightarrow> bool" where
  "pg_inv db \<longleftrightarrow>
     dict_ok (pg_states db) \<and> dict_ok (pg_keys db) \<and> dict_ok (pg_leases db) \<and>
     (\<forall>k row. dict_get (pg_states db) k = Some row \<longrightarrow> (\<exists>s. row_holds k row s)) \<and>
     (\<forall>k l. dict_get (pg_leases db) k = Some l \<longrightarrow> lease_row_valid l)"

lemma pg_inv_states_set:
  "pg_inv db \<Longrightarrow> row_holds k row s \<Longrightarrow> pg_inv (db\<lparr>pg_states := dict_set k row (pg_states db)\<rparr>)"
  by (auto simp: pg_inv_def)

lemma pg_row_holds_new:
  "snapshot_valid s \<Longrightarrow> row_holds (ns_of (tenant_scope_fingerprint s), workflow_id s)
     (pg_new_row env (ns_of (tenant_scope_fingerprint s)) s) s"
  using snapshot_valid_fields [of s]
  by (simp add: row_holds_def pg_new_row_def durable_record_valid_def SCHEMA_VERSION_def)

lemma pg_row_holds_next:
  "row_holds k row c \<Longrightarrow> snapshot_valid s \<Longrightarrow> row_scope row = tenant_scope_fingerprint s \<Longrightarrow>
   row_holds k (pg_next_row env s (revision row + 1) row) s"
  using snapshot_valid_fields [of s] by (simp add: row_holds_def pg_next_row_def durable_record_valid_def)

lemma pg_inv_row: "pg_inv db \<Longrightarrow> dict_get (pg_states db) k = Some row \<Longrightarrow> \<exists>s. row_holds k row s"
  unfolding pg_inv_def by blast

lemma pg_inv_create: "pg_inv db \<Longrightarrow> snapshot_valid s \<Longrightarrow> pg_create env db s = Inr db' \<Longrightarrow> pg_inv db'"
  using pg_create_ok [of s env db db'] pg_inv_states_set pg_row_holds_new by blast

lemma pg_inv_update:
  "pg_inv db \<Longrightarrow> pg_inv mid \<Longrightarrow> snapshot_valid s \<Longrightarrow> pg_update env db mid w e s v sc owner token = Inr db' \<Longrightarrow> pg_inv db'"
  using pg_update_ok [of env db mid w e s v sc owner token db'] snapshot_valid_fields [of s]
  unfolding writable_def by (metis pg_inv_states_set pg_row_holds_next pg_inv_row)

lemma oldest_keys:
  assumes "k \<in> set (oldest P instant m d)" "dict_ok d"
  shows "\<exists>row. dict_get d k = Some row \<and> P row"
proof -
  from assms(1) have "k \<in> fst ` set (filter (\<lambda>(_, row). P row) d)"
    unfolding oldest_def by (auto dest!: in_set_takeD)
  then show ?thesis using assms(2) by auto
qed

lemma pg_cleanup_ok:
  assumes "pg_cleanup env db tb eb m = Inr (db', n)"
  shows "\<exists>states keys leases.
    db' = db\<lparr>pg_states := dict_del_all states (pg_states db), pg_keys := dict_del_all keys (pg_keys db),
             pg_leases := dict_del_all leases (pg_leases db)\<rparr> \<and>
    states = oldest (\<lambda>row. terminal (row_status row) \<and> updated_at row \<le> tb) updated_at
               (min m (cleanup_batch_size (config env))) (pg_states db) \<and>
    keys = oldest (expired eb) (\<lambda>row. the (idem_expires_at row)) (min m (cleanup_batch_size (config env))) (pg_keys db) \<and>
    leases = oldest (\<lambda>l. lease_expires_at l \<le> eb - clock_tolerance (config env)) lease_expires_at
               (min m (cleanup_batch_size (config env))) (pg_leases db) \<and>
    n = int (length states) + int (length keys) + int (length leases)"
  using assms by (auto simp: pg_cleanup_def Let_def res_simps split: if_splits)

lemma pg_inv_cleanup: "pg_inv db \<Longrightarrow> pg_cleanup env db tb eb m = Inr (db', n) \<Longrightarrow> pg_inv db'"
  using pg_cleanup_ok [of env db tb eb m db' n] by (auto simp: pg_inv_def split: if_splits)

text \<open>What a caller without faults reads; the clocks and the bounds do not matter for a read.\<close>

definition observer :: pg_env where
  "observer =
     \<lparr>config = \<lparr>cfg_namespace = ''shared'', pool_size = 5, connect_timeout = 5 * SECOND, command_timeout = 10 * SECOND,
        pool_acquire_timeout = 5 * SECOND, cfg_schema_version = SCHEMA_VERSION, cleanup_batch_size = 500,
        lease_ttl = 120 * SECOND, lease_renewal_margin = 20 * SECOND, clock_tolerance = 2 * SECOND\<rparr>,
      closed = False, client_now = 0, server_now = 0, pg_fault = None\<rparr>"

lemma observer_quiet: "transaction observer body = body" "execute observer n name = Inr ()"
  by (cases body; simp add: transaction_def observer_def) (simp add: execute_def observer_def)

definition pg_see :: "pg_db \<Rightarrow> string \<Rightarrow> string option \<Rightarrow> pg_exn + WorkflowState option" where
  "pg_see db w sc = pg_get observer db w sc"

definition pg_see_revision :: "pg_db \<Rightarrow> string \<Rightarrow> string option \<Rightarrow> pg_exn + int option" where
  "pg_see_revision db w sc = pg_get_revision observer db w sc"

lemma pg_row_get:
  assumes "pg_inv db" "opt_all fingerprint_ok sc"
  shows "pg_see db w sc = Inr None \<and> pg_see_revision db w sc = Inr None \<and>
           dict_get (pg_states db) (ns_of sc, w) = None \<or>
         (\<exists>row s. dict_get (pg_states db) (ns_of sc, w) = Some row \<and> row_holds (ns_of sc, w) row s \<and>
           pg_see db w sc = Inr (Some s) \<and> pg_see_revision db w sc = Inr (Some (revision row)))"
proof (cases "dict_get (pg_states db) (ns_of sc, w)")
  case None
  with assms show ?thesis
    by (simp add: pg_see_def pg_get_def pg_read_state_def pg_see_revision_def pg_get_revision_def observer_quiet)
next
  case (Some row)
  with assms pg_inv_row obtain s where "row_holds (ns_of sc, w) row s" by blast
  with Some assms show ?thesis
    by (auto simp: pg_see_def pg_get_def pg_read_state_def pg_see_revision_def pg_get_revision_def observer_quiet
        row_holds_def deserialize_serialize)
qed

lemma pg_see_eq:
  "pg_see db w sc = pg_see db' w sc \<and> pg_see_revision db w sc = pg_see_revision db' w sc"
  if "opt_all fingerprint_ok sc" "dict_get (pg_states db) (ns_of sc, w) = dict_get (pg_states db') (ns_of sc, w)"
  using that by (simp add: pg_see_def pg_get_def pg_read_state_def pg_see_revision_def pg_get_revision_def)

lemma pg_see_row:
  assumes "opt_all fingerprint_ok sc" "dict_get (pg_states db) (ns_of sc, w) = Some row" "snapshot row = serialize_snapshot s"
    "snapshot_valid s"
  shows "pg_see db w sc = Inr (Some s) \<and> pg_see_revision db w sc = Inr (Some (revision row))"
  using assms by (simp add: pg_see_def pg_get_def pg_read_state_def pg_see_revision_def pg_get_revision_def
      observer_quiet deserialize_serialize)

text \<open>A caller of the store: the environment of the call and the ownership it presents.\<close>

type_synonym caller = "pg_env \<times> string option \<times> int option"

fun call_create :: "caller \<Rightarrow> pg_db \<Rightarrow> WorkflowState \<Rightarrow> pg_exn + pg_db" where
  "call_create (env, owner, token) db s = pg_create env db s"

fun call_update ::
  "caller \<Rightarrow> pg_db \<Rightarrow> string \<Rightarrow> WorkflowStatus \<Rightarrow> WorkflowState \<Rightarrow> int option \<Rightarrow> string option \<Rightarrow> pg_exn + pg_db" where
  "call_update (env, owner, token) db w e s v sc = pg_update env db db w e s v sc owner token"

fun call_cleanup :: "caller \<Rightarrow> pg_db \<Rightarrow> timestamp \<Rightarrow> timestamp \<Rightarrow> int \<Rightarrow> pg_exn + pg_db \<times> int" where
  "call_cleanup (env, owner, token) db tb eb m = pg_cleanup env db tb eb m"

lemma call_create_ok:
  "snapshot_valid s \<Longrightarrow> call_create c db s = Inr db' \<Longrightarrow>
   dict_get (pg_states db) (ns_of (tenant_scope_fingerprint s), workflow_id s) = None \<and>
   db' = db\<lparr>pg_states := dict_set (ns_of (tenant_scope_fingerprint s), workflow_id s)
     (pg_new_row (fst c) (ns_of (tenant_scope_fingerprint s)) s) (pg_states db)\<rparr>"
  using pg_create_ok [of s "fst c" db db'] by (cases c) simp

lemma call_update_ok:
  assumes "call_update c db w e s v sc = Inr db'" "opt_all fingerprint_ok sc"
  shows "workflow_id s = w \<and> tenant_scope_fingerprint s = sc \<and>
    (\<exists>row. dict_get (pg_states db) (ns_of sc, w) = Some row \<and> row_scope row = sc \<and>
       (row_status row = e \<and> (v = None \<or> v = Some (revision row)) \<and> \<not> terminal e \<and>
          db' = db\<lparr>pg_states := dict_set (ns_of sc, w) (pg_next_row (fst c) s (revision row + 1) row) (pg_states db)\<rparr> \<or>
        db' = db \<and> terminal (row_status row) \<and> status s = row_status row))"
  using assms pg_update_ok [of "fst c" db db w e s v sc "fst (snd c)" "snd (snd c)" db']
  unfolding writable_def by (cases c) (simp, blast)

lemma pg_get_cleanup:
  assumes "pg_inv db" "pg_cleanup env db tb eb m = Inr (db', n)" "opt_all fingerprint_ok sc"
  shows "pg_see db' w sc = pg_see db w sc \<and> pg_see_revision db' w sc = pg_see_revision db w sc \<or>
    pg_see db' w sc = Inr None \<and> (\<exists>c. pg_see db w sc = Inr (Some c) \<and> terminal (status c))"
proof -
  let ?old = "oldest (\<lambda>row. terminal (row_status row) \<and> updated_at row \<le> tb) updated_at
               (min m (cleanup_batch_size (config env))) (pg_states db)"
  have states: "pg_states db' = dict_del_all ?old (pg_states db)" using pg_cleanup_ok [OF assms(2)] by auto
  show ?thesis
  proof (cases "(ns_of sc, w) \<in> set ?old")
    case True
    then obtain row where "dict_get (pg_states db) (ns_of sc, w) = Some row" "terminal (row_status row)"
      using oldest_keys [OF True] assms(1) unfolding pg_inv_def by blast
    then have "\<exists>c. pg_see db w sc = Inr (Some c) \<and> terminal (status c)"
      using pg_row_get [OF assms(1,3), of w] by (auto simp: row_holds_def)
    moreover have "pg_see db' w sc = Inr None"
      using states True assms(3) pg_row_get [OF pg_inv_cleanup [OF assms(1,2)] assms(3), of w] by simp
    ultimately show ?thesis by blast
  next
    case False
    then show ?thesis using states pg_see_eq [OF assms(3), of db' w db] by simp
  qed
qed

lemma call_update_effect:
  assumes "pg_inv db" "snapshot_valid s" "opt_all fingerprint_ok sc" "call_update c db w e s v sc = Inr db'"
    and "pg_see_revision db w sc = Inr (Some r)" "pg_see db w sc = Inr (Some cur)"
  shows "pg_see db' w sc = Inr (Some s) \<and> pg_see_revision db' w sc = Inr (Some (r + 1)) \<and>
      status cur = e \<and> (v = None \<or> v = Some r) \<or>
    terminal (status cur) \<and> pg_see db' w sc = Inr (Some cur) \<and> pg_see_revision db' w sc = Inr (Some r)"
proof -
  obtain row where row: "dict_get (pg_states db) (ns_of sc, w) = Some row"
      "row_status row = e \<and> (v = None \<or> v = Some (revision row)) \<and>
         db' = db\<lparr>pg_states := dict_set (ns_of sc, w) (pg_next_row (fst c) s (revision row + 1) row) (pg_states db)\<rparr> \<or>
       db' = db \<and> terminal (row_status row)"
    using call_update_ok [OF assms(4,3)] by blast
  have cur: "r = revision row" "status cur = row_status row"
    using pg_row_get [OF assms(1,3), of w] row(1) assms(5,6) by (auto simp: row_holds_def)
  from row(2) show ?thesis
  proof
    assume new: "row_status row = e \<and> (v = None \<or> v = Some (revision row)) \<and>
      db' = db\<lparr>pg_states := dict_set (ns_of sc, w) (pg_next_row (fst c) s (revision row + 1) row) (pg_states db)\<rparr>"
    then have "pg_see db' w sc = Inr (Some s) \<and> pg_see_revision db' w sc = Inr (Some (r + 1))"
      using pg_see_row [OF assms(3), of db' w "pg_next_row (fst c) s (revision row + 1) row" s] assms(2) cur(1)
      by (simp add: pg_next_row_def)
    then show ?thesis using new cur by auto
  qed (use assms(5,6) cur in auto)
qed

interpretation pg: rewrite_store pg_inv "\<lambda>_. True" call_create "\<lambda>_. pg_see" pg_see_revision call_update call_cleanup
proof (unfold_locales, goal_cases)
  case (1 st s env st')
  then show ?case by (cases env) (auto intro: pg_inv_create)
next
  case (2 st s sc env w e v st')
  then show ?case by (cases env) (auto intro: pg_inv_update)
next
  case (3 st env tb eb m st' n)
  then show ?case by (cases env) (auto intro: pg_inv_cleanup)
next
  case (4 st sc env w)
  then show ?case using pg_row_get [of st sc w] by auto
next
  case (5 st sc env w s)
  then show ?case using pg_row_get [of st sc w] by (auto simp: row_holds_def)
next
  case (6 st sc w env)
  then show ?case using pg_row_get [of st sc w] by auto
next
  case (7 st sc w)
  then show ?case using pg_row_get [of st sc w] by auto
next
  case (8 st s env st')
  then show ?case using call_create_ok [of s env st st'] snapshot_valid_fields [of s]
      pg_row_get [of st "tenant_scope_fingerprint s" "workflow_id s"] by auto
next
  case (9 st s env st' env')
  then show ?case using call_create_ok [of s env st st'] snapshot_valid_fields [of s]
      pg_see_row [of "tenant_scope_fingerprint s" st' "workflow_id s" _ s] by (simp add: pg_new_row_def)
next
  case (10 st s env st' sc w env')
  then show ?case using call_create_ok [of s env st st'] by (intro pg_see_eq) auto
next
  case (11 st s sc env w e v st' env')
  then show ?case using call_update_ok [of env st w e s v sc st'] pg_row_get [of st sc w]
    by (auto simp: row_holds_def)
next
  case (12 st s sc env w e v st' r env' c)
  then show ?case by (rule call_update_effect)
next
  case (13 st s sc env w e v st' sc' w' env')
  then show ?case using call_update_ok [of env st w e s v sc st'] by (intro pg_see_eq) auto
next
  case (14 st env tb eb m st' n sc env' w)
  then show ?case by (cases env) (auto dest: pg_get_cleanup)
qed

end
