(* ===== verification/Postgres_Fencing.thy ===== *)
theory Postgres_Fencing
  imports Postgres_Store
begin

text \<open>
  Workers that share the PostgreSQL store: histories of their calls, mutual exclusion by leases and
  the rejection of superseded fencing tokens.

  A history is a list of calls, each with the environment it runs in; \<open>pg_trace\<close> executes it, a call
  that raises leaves the database as it was.  The first section shows that a call whose second
  statement sees a later database still acts as one atomic call on one of the two databases, so
  histories of atomic calls are enough.
\<close>

section \<open>Atomicity\<close>

lemma transaction_cong: "body = Inr r \<Longrightarrow> transaction env body' = Inr r' \<Longrightarrow> transaction env body = Inr r"
  by (simp add: transaction_ok)

lemma update_atomic:
  assumes "pg_update env db mid w e s v sc owner token = Inr db'"
  shows "pg_update env db db w e s v sc owner token = Inr db' \<or> pg_update env mid mid w e s v sc owner token = Inr db'"
proof -
  obtain ns where ns: "pg_namespace sc = Inr ns" using pg_update_ok [OF assms] by blast
  show ?thesis
  proof (cases "update_target env db ns w e v sc owner token")
    case (Some row)
    then show ?thesis using assms ns by (auto simp: pg_update_def split: if_splits)
  next
    case None
    then have missed: "update_missed env mid ns w e s v = Inr db'"
      using assms ns by (auto simp: pg_update_def res_simps split: if_splits)
    have "update_target env mid ns w e v sc owner token = None"
      using update_missed_ok [OF missed] by (auto simp: update_target_def)
    then show ?thesis using assms ns missed None by (auto simp: pg_update_def res_simps split: if_splits)
  qed
qed

lemma reserve_atomic:
  assumes "pg_reserve_idempotency env db mid key req w sc expiry = Inr x"
  shows "pg_reserve_idempotency env db db key req w sc expiry = Inr x \<or>
    pg_reserve_idempotency env mid mid key req w sc expiry = Inr x"
proof -
  obtain ns where ns: "pg_namespace sc = Inr ns"
    using assms by (auto simp: pg_reserve_idempotency_def res_simps)
  show ?thesis
  proof (cases "dict_get (pg_keys db) (ns, key)")
    case None
    then show ?thesis using assms ns by (simp add: pg_reserve_idempotency_def)
  next
    case (Some row)
    then have "reserve_taken env mid ns key req w sc expiry = Inr x"
      using assms ns by (auto simp: pg_reserve_idempotency_def res_simps Let_def)
    moreover from this have "dict_get (pg_keys mid) (ns, key) \<noteq> None"
      by (auto simp: reserve_taken_def res_simps split: option.splits)
    ultimately show ?thesis using assms ns Some
      by (auto simp: pg_reserve_idempotency_def res_simps Let_def)
  qed
qed

lemma complete_missed_fails: "complete_missed env mid ns key w sc \<noteq> Inr x"
  by (auto simp: complete_missed_def res_simps split: option.splits if_splits)

text \<open>A completion writes the reserved row of the key, whatever workflow the row is bound to.\<close>

lemma pg_complete_iff:
  "pg_complete_idempotency env db mid key w outcome sc owner token = Inr (db', r) \<longleftrightarrow>
   key_ok key \<and> identifier_ok w \<and> opt_all fingerprint_ok sc \<and> fingerprint_ok outcome \<and> no_escape env \<and>
   (\<forall>e. pg_fault env \<noteq> Some (StatementFails 0 e)) \<and>
   (\<exists>row. dict_get (pg_keys db) (ns_of sc, key) = Some row \<and> idem_status row = RESERVED \<and>
      fence_ok env db (ns_of sc) w owner token \<and>
      r = row\<lparr>idem_workflow_id := w, idem_status := COMPLETED, terminal_outcome_fingerprint := Some outcome,
              idem_updated_at := client_now env\<rparr> \<and>
      db' = db\<lparr>pg_keys := dict_set (ns_of sc, key) r (pg_keys db)\<rparr>)"
proof (cases "opt_all fingerprint_ok sc")
  case True
  then show ?thesis
    by (cases "dict_get (pg_keys db) (ns_of sc, key)")
       (auto simp: pg_complete_idempotency_def res_simps validate_identity_ok Let_def complete_missed_fails)
qed (auto simp: pg_complete_idempotency_def res_simps validate_identity_ok)

lemma complete_atomic:
  "pg_complete_idempotency env db mid key w outcome sc owner token = Inr x \<Longrightarrow>
   pg_complete_idempotency env db db key w outcome sc owner token = Inr x"
  by (cases x) (simp add: pg_complete_iff)

lemma renew_atomic:
  "renew_lease env db mid w owner token sc = Inr x \<Longrightarrow> renew_lease env db db w owner token sc = Inr x"
  by (auto simp: renew_lease_def res_simps split: if_splits)


section \<open>Histories\<close>

datatype pg_call =
    Create WorkflowState
  | Update string WorkflowStatus WorkflowState "int option" "string option" "string option" "int option"
  | Reserve string string string "string option" "timestamp option"
  | Complete string string string "string option" "string option" "int option"
  | Acquire string string "string option" "int option"
  | Renew string string int "string option"
  | Release string string int "string option"
  | Cleanup timestamp timestamp int

fun pg_apply :: "pg_env \<Rightarrow> pg_call \<Rightarrow> pg_db \<Rightarrow> pg_exn + pg_db" where
  "pg_apply env (Create s) db = pg_create env db s"
| "pg_apply env (Update w e s v sc owner token) db = pg_update env db db w e s v sc owner token"
| "pg_apply env (Reserve key req w sc expiry) db =
     bind_res (pg_reserve_idempotency env db db key req w sc expiry) (\<lambda>(db', _). Inr db')"
| "pg_apply env (Complete key w outcome sc owner token) db =
     bind_res (pg_complete_idempotency env db db key w outcome sc owner token) (\<lambda>(db', _). Inr db')"
| "pg_apply env (Acquire w owner sc ttl) db = bind_res (acquire_lease env db w owner sc ttl) (\<lambda>(db', _). Inr db')"
| "pg_apply env (Renew w owner token sc) db =
     bind_res (renew_lease env db db w owner token sc) (\<lambda>(db', _). Inr db')"
| "pg_apply env (Release w owner token sc) db =
     bind_res (release_lease env db w owner token sc) (\<lambda>(db', _). Inr db')"
| "pg_apply env (Cleanup tb eb m) db = bind_res (pg_cleanup env db tb eb m) (\<lambda>(db', _). Inr db')"

fun pg_exec :: "pg_env \<times> pg_call \<Rightarrow> pg_db \<Rightarrow> pg_db" where
  "pg_exec (env, c) db = (case pg_apply env c db of Inr db' \<Rightarrow> db' | Inl _ \<Rightarrow> db)"

definition pg_trace :: "(pg_env \<times> pg_call) list \<Rightarrow> pg_db \<Rightarrow> pg_db" where
  "pg_trace h db = fold pg_exec h db"

definition pg_empty :: pg_db where
  "pg_empty = \<lparr>pg_schema_version = Some SCHEMA_VERSION, pg_states = [], pg_keys = [], pg_leases = []\<rparr>"

text \<open>The states handed to the store are states of the workflow model.\<close>

fun call_valid :: "pg_call \<Rightarrow> bool" where
  "call_valid (Create s) = snapshot_valid s"
| "call_valid (Update w e s v sc owner token) = snapshot_valid s"
| "call_valid _ = True"

lemma pg_trace_simps [simp]: "pg_trace [] db = db" "pg_trace (c # h) db = pg_trace h (pg_exec c db)"
  "pg_trace (h @ h') db = pg_trace h' (pg_trace h db)"
  by (simp_all add: pg_trace_def)

section \<open>What the calls do to the leases\<close>

lemma acquire_ok:
  assumes "acquire_lease env db w owner sc ttl = Inr (db', lease)"
  shows "identifier_ok w \<and> identifier_ok owner \<and> opt_all fingerprint_ok sc \<and>
    (\<exists>row. db' = db\<lparr>pg_leases := dict_set (ns_of sc, w) row (pg_leases db)\<rparr> \<and> lease_owner row = owner \<and>
       lease_row_valid row \<and> wl_fencing_token lease = lease_token row \<and> wl_owner_id lease = owner \<and>
       (case dict_get (pg_leases db) (ns_of sc, w) of
          None \<Rightarrow> lease_token row = 1
        | Some l \<Rightarrow> lease_expires_at l \<le> server_now env - clock_tolerance (config env) \<and>
                    lease_token row = lease_token l + 1))"
  using assms unfolding acquire_lease_def Let_def
  by (auto simp: res_simps lease_row_valid_def split: if_splits option.splits)

lemma renew_ok:
  assumes "renew_lease env db mid w owner token sc = Inr (db', lease)"
  shows "\<exists>l row. dict_get (pg_leases db) (ns_of sc, w) = Some l \<and> lease_owner l = owner \<and> lease_token l = token \<and>
    lease_expires_at l > server_now env + clock_tolerance (config env) \<and>
    db' = db\<lparr>pg_leases := dict_set (ns_of sc, w) row (pg_leases db)\<rparr> \<and>
    lease_owner row = owner \<and> lease_token row = token \<and> lease_row_valid row"
  using assms unfolding renew_lease_def Let_def lease_live_def
  by (auto simp: res_simps lease_row_valid_def split: if_splits option.splits)

lemma release_ok:
  assumes "release_lease env db w owner token sc = Inr (db', b)"
  shows "(\<exists>l. dict_get (pg_leases db) (ns_of sc, w) = Some l \<and> lease_owner l = owner \<and> lease_token l = token \<and> b \<and>
      db' = db\<lparr>pg_leases := dict_del (ns_of sc, w) (pg_leases db)\<rparr>) \<or> \<not> b \<and> db' = db"
  using assms unfolding release_lease_def
  by (auto simp: res_simps split: if_splits option.splits)

lemma other_calls_keep_leases:
  "pg_create env db s = Inr db' \<Longrightarrow> pg_leases db' = pg_leases db"
  "pg_update env db db w e s v sc owner token = Inr db' \<Longrightarrow> pg_leases db' = pg_leases db"
  "pg_reserve_idempotency env db db key req w sc expiry = Inr (db', r) \<Longrightarrow> pg_leases db' = pg_leases db"
  "pg_complete_idempotency env db db key w outcome sc owner token = Inr (db', r) \<Longrightarrow> pg_leases db' = pg_leases db"
  subgoal by (auto simp: pg_create_def res_simps split: if_splits)
  subgoal by (auto simp: pg_update_def res_simps dest!: update_missed_ok split: if_splits option.splits)
  subgoal by (auto simp: pg_reserve_idempotency_def reserve_taken_def res_simps Let_def split: if_splits option.splits)
  subgoal by (auto simp: pg_complete_iff)
  done

text \<open>A lease row after a call, as long as it is there: renewed by its holder, or taken over with the next token.\<close>

lemma apply_lease:
  assumes "pg_apply env c db = Inr db'" "dict_get (pg_leases db) k = Some l" "dict_get (pg_leases db') k = Some l'"
  shows "lease_token l' = lease_token l \<and> lease_owner l' = lease_owner l \<or>
    lease_token l' = lease_token l + 1 \<and> lease_expires_at l \<le> server_now env - clock_tolerance (config env)"
  using assms
proof (cases c)
  case (Acquire w owner sc ttl)
  then show ?thesis using assms acquire_ok [of env db w owner sc ttl db']
    by (cases "k = (ns_of sc, w)") (auto simp: res_simps)
next
  case (Renew w owner token sc)
  then show ?thesis using assms renew_ok [of env db db w owner token sc db']
    by (cases "k = (ns_of sc, w)") (auto simp: res_simps)
next
  case (Release w owner token sc)
  then show ?thesis using assms release_ok [of env db w owner token sc db']
    by (auto simp: res_simps split: if_splits)
next
  case (Cleanup tb eb m)
  then show ?thesis using assms pg_cleanup_ok [of env db tb eb m db'] by (auto simp: res_simps split: if_splits)
qed (use other_calls_keep_leases in \<open>auto simp: res_simps\<close>)

section \<open>Invariant of a shared database\<close>

lemma pg_inv_leases_set:
  "pg_inv db \<Longrightarrow> lease_row_valid row \<Longrightarrow> pg_inv (db\<lparr>pg_leases := dict_set k row (pg_leases db)\<rparr>)"
  by (auto simp: pg_inv_def)

lemma pg_inv_leases_del: "pg_inv db \<Longrightarrow> pg_inv (db\<lparr>pg_leases := dict_del k (pg_leases db)\<rparr>)"
  by (auto simp: pg_inv_def split: if_splits)

lemma pg_inv_keys: "pg_inv db \<Longrightarrow> dict_ok d \<Longrightarrow> pg_inv (db\<lparr>pg_keys := d\<rparr>)"
  by (simp add: pg_inv_def)

lemma pg_inv_keys_ok: "pg_inv db \<Longrightarrow> dict_ok (pg_keys db)"
  by (simp add: pg_inv_def)

lemma reserve_keys:
  "pg_reserve_idempotency env db db key req w sc expiry = Inr (db', r) \<Longrightarrow>
   db' = db \<or> (\<exists>k. db' = db\<lparr>pg_keys := dict_set k r (pg_keys db)\<rparr> \<or>
     db' = db\<lparr>pg_keys := dict_set k r (dict_del k (pg_keys db))\<rparr>)"
  by (auto simp: pg_reserve_idempotency_def reserve_taken_def res_simps Let_def split: if_splits option.splits)

lemma pg_inv_apply:
  assumes "pg_apply env c db = Inr db'" "pg_inv db" "call_valid c"
  shows "pg_inv db'"
proof (cases c)
  case (Create s)
  then show ?thesis using assms pg_inv_create [of db s env db'] by simp
next
  case (Update w e s v sc owner token)
  then show ?thesis using assms pg_inv_update [of db db s env w e v sc owner token db'] by simp
next
  case (Reserve key req w sc expiry)
  then obtain r where "pg_reserve_idempotency env db db key req w sc expiry = Inr (db', r)"
    using assms(1) by (auto simp: res_simps)
  then show ?thesis using reserve_keys [of env db key req w sc expiry db' r] assms(2) pg_inv_keys [OF assms(2)]
      pg_inv_keys_ok [OF assms(2)] by (metis dict_ok_set dict_ok_del)
next
  case (Complete key w outcome sc owner token)
  then obtain r where "pg_complete_idempotency env db db key w outcome sc owner token = Inr (db', r)"
    using assms(1) by (auto simp: res_simps)
  then have "\<exists>k. db' = db\<lparr>pg_keys := dict_set k r (pg_keys db)\<rparr>" unfolding pg_complete_iff by blast
  then show ?thesis using pg_inv_keys [OF assms(2)] pg_inv_keys_ok [OF assms(2)] by (metis dict_ok_set)
next
  case (Acquire w owner sc ttl)
  then obtain l where "acquire_lease env db w owner sc ttl = Inr (db', l)" using assms(1) by (auto simp: res_simps)
  then show ?thesis using acquire_ok pg_inv_leases_set [OF assms(2)] by blast
next
  case (Renew w owner token sc)
  then obtain l where "renew_lease env db db w owner token sc = Inr (db', l)" using assms(1) by (auto simp: res_simps)
  then show ?thesis using renew_ok pg_inv_leases_set [OF assms(2)] by blast
next
  case (Release w owner token sc)
  then obtain b where "release_lease env db w owner token sc = Inr (db', b)" using assms(1) by (auto simp: res_simps)
  then show ?thesis using release_ok pg_inv_leases_del [OF assms(2)] assms(2) by blast
next
  case (Cleanup tb eb m)
  then obtain n where "pg_cleanup env db tb eb m = Inr (db', n)" using assms(1) by (auto simp: res_simps)
  then show ?thesis using pg_inv_cleanup assms(2) by blast
qed

lemma pg_inv_exec: "pg_inv db \<Longrightarrow> call_valid (snd x) \<Longrightarrow> pg_inv (pg_exec x db)"
  using pg_inv_apply by (cases x) (auto split: sum.splits)

lemma pg_inv_trace: "pg_inv db \<Longrightarrow> list_all (\<lambda>x. call_valid (snd x)) h \<Longrightarrow> pg_inv (pg_trace h db)"
  by (induction h arbitrary: db) (auto intro: pg_inv_exec)

lemma pg_inv_empty: "pg_inv pg_empty"
  by (simp add: pg_inv_def pg_empty_def)

lemmas pg_inv_reached = pg_inv_trace [OF pg_inv_empty]

section \<open>Fencing\<close>

text \<open>The lease row of a workflow stays in the table during a history: it is neither released nor cleaned up.\<close>

fun lease_kept :: "string \<times> string \<Rightarrow> (pg_env \<times> pg_call) list \<Rightarrow> pg_db \<Rightarrow> bool" where
  "lease_kept k [] db \<longleftrightarrow> dict_get (pg_leases db) k \<noteq> None"
| "lease_kept k (x # h) db \<longleftrightarrow> dict_get (pg_leases db) k \<noteq> None \<and> lease_kept k h (pg_exec x db)"

lemma lease_kept_start: "lease_kept k h db \<Longrightarrow> \<exists>l. dict_get (pg_leases db) k = Some l"
  by (cases h) auto

lemma exec_lease:
  assumes "dict_get (pg_leases db) k = Some l" "dict_get (pg_leases (pg_exec x db)) k = Some l'"
  shows "lease_token l' = lease_token l \<and> lease_owner l' = lease_owner l \<or> lease_token l < lease_token l'"
proof (cases x)
  case (Pair env c)
  show ?thesis
  proof (cases "pg_apply env c db")
    case (Inr db')
    then show ?thesis using apply_lease [OF Inr assms(1)] assms(2) Pair by auto
  qed (use assms Pair in simp)
qed

lemma trace_lease:
  assumes "lease_kept k h db" "dict_get (pg_leases db) k = Some l"
  shows "\<exists>l'. dict_get (pg_leases (pg_trace h db)) k = Some l' \<and>
    (lease_token l' = lease_token l \<and> lease_owner l' = lease_owner l \<or> lease_token l < lease_token l')"
  using assms
proof (induction h arbitrary: db l)
  case (Cons x h)
  then obtain m where m: "dict_get (pg_leases (pg_exec x db)) k = Some m"
    using lease_kept_start [of k h "pg_exec x db"] by auto
  then have "lease_token m = lease_token l \<and> lease_owner m = lease_owner l \<or> lease_token l < lease_token m"
    using exec_lease Cons.prems(2) by blast
  moreover obtain l' where "dict_get (pg_leases (pg_trace h (pg_exec x db))) k = Some l'"
      "lease_token l' = lease_token m \<and> lease_owner l' = lease_owner m \<or> lease_token m < lease_token l'"
    using Cons.IH [OF _ m] Cons.prems(1) by auto
  ultimately show ?case by (auto intro!: exI [of _ l'])
qed simp

text \<open>
  C5.  A superseded worker never writes: once another worker has taken over the lease of a workflow,
  no update, completion or renewal that presents the previous owner and token has any effect, after
  whatever calls of whatever workers, as long as the lease row stays in the table; an update that
  returns at all found the workflow already in the terminal status it writes and changed nothing.
\<close>

theorem superseded_worker_never_writes:
  assumes "dict_get (pg_leases db) (ns_of sc, w) = Some old"
    and "acquire_lease env1 db w owner2 sc ttl = Inr (db1, lease)"
    and "lease_kept (ns_of sc, w) h db1"
  shows "(pg_update env (pg_trace h db1) mid w e s v sc (Some (lease_owner old)) (Some (lease_token old)) = Inr db'
        \<longrightarrow> db' = mid) \<and>
    (\<nexists>x. pg_complete_idempotency env (pg_trace h db1) mid key w outcome sc (Some (lease_owner old)) (Some (lease_token old))
        = Inr x) \<and>
    (\<nexists>x. renew_lease env (pg_trace h db1) mid w (lease_owner old) (lease_token old) sc = Inr x)"
proof -
  obtain row where row: "dict_get (pg_leases db1) (ns_of sc, w) = Some row" "lease_token old < lease_token row"
      and sc: "opt_all fingerprint_ok sc"
    using acquire_ok [OF assms(2)] assms(1) by auto
  obtain now where "dict_get (pg_leases (pg_trace h db1)) (ns_of sc, w) = Some now" "lease_token old < lease_token now"
    using trace_lease [OF assms(3) row(1)] row(2) by auto
  then have dead: "\<not> lease_live env (pg_trace h db1) (ns_of sc) w (lease_owner old) (lease_token old)"
    by (simp add: lease_live_def)
  have "db' = mid"
    if "pg_update env (pg_trace h db1) mid w e s v sc (Some (lease_owner old)) (Some (lease_token old)) = Inr db'"
    using pg_update_ok [OF that] sc dead by (auto simp: writable_def)
  moreover have "renew_lease env (pg_trace h db1) mid w (lease_owner old) (lease_token old) sc \<noteq> Inr x" for x
    using sc dead by (auto simp: renew_lease_def res_simps)
  moreover have "pg_complete_idempotency env (pg_trace h db1) mid key w outcome sc (Some (lease_owner old))
        (Some (lease_token old)) \<noteq> Inr x" for x
    using dead by (cases x) (simp add: pg_complete_iff)
  ultimately show ?thesis by blast
qed

section \<open>Mutual exclusion\<close>

text \<open>
  A call by somebody other than the holder of the lease, made before the lease has been expired for
  the tolerance on the server clock; a cleanup is asked to delete what expired by now.
\<close>

fun foreign_call :: "string \<times> string \<Rightarrow> lease_row \<Rightarrow> pg_env \<times> pg_call \<Rightarrow> bool" where
  "foreign_call k l (env, c) \<longleftrightarrow>
     server_now env - clock_tolerance (config env) < lease_expires_at l \<and>
     (case c of
        Renew w owner token sc \<Rightarrow> (ns_of sc, w) = k \<longrightarrow> (owner, token) \<noteq> (lease_owner l, lease_token l)
      | Release w owner token sc \<Rightarrow> (ns_of sc, w) = k \<longrightarrow> (owner, token) \<noteq> (lease_owner l, lease_token l)
      | Cleanup tb eb m \<Rightarrow> eb \<le> server_now env
      | _ \<Rightarrow> True)"

lemma foreign_apply:
  assumes "pg_apply env c db = Inr db'" "pg_inv db" "dict_get (pg_leases db) k = Some l" "foreign_call k l (env, c)"
  shows "dict_get (pg_leases db') k = Some l"
proof (cases c)
  case (Acquire w owner sc ttl)
  then show ?thesis using assms acquire_ok [of env db w owner sc ttl db']
    by (cases "k = (ns_of sc, w)") (auto simp: res_simps)
next
  case (Renew w owner token sc)
  then show ?thesis using assms renew_ok [of env db db w owner token sc db']
    by (cases "k = (ns_of sc, w)") (auto simp: res_simps)
next
  case (Release w owner token sc)
  then show ?thesis using assms release_ok [of env db w owner token sc db']
    by (auto simp: res_simps split: if_splits)
next
  case (Cleanup tb eb m)
  then obtain n where "pg_cleanup env db tb eb m = Inr (db', n)" using assms(1) by (auto simp: res_simps)
  then obtain dead where leases: "pg_leases db' = dict_del_all dead (pg_leases db)"
      "dead = oldest (\<lambda>l. lease_expires_at l \<le> eb - clock_tolerance (config env)) lease_expires_at
               (min m (cleanup_batch_size (config env))) (pg_leases db)"
    using pg_cleanup_ok by fastforce
  have "k \<notin> set dead"
    using oldest_keys [of k _ lease_expires_at _ "pg_leases db"] assms(2-4) Cleanup unfolding leases(2) pg_inv_def
    by fastforce
  then show ?thesis using leases(1) assms(3) by simp
qed (use assms other_calls_keep_leases in \<open>auto simp: res_simps\<close>)


section \<open>Writes move forward\<close>

text \<open>
  In the shared store, over any sequence of successful creates and updates by any callers, fenced
  or not, a stored workflow stays visible, its revision never decreases, an unchanged revision means
  an unchanged state, and a terminal status is final.
\<close>

theorem shared_writes_move_forward:
  assumes "list_all (\<lambda>x. call_valid (snd x)) h"
    and "run (store_write call_create call_update) n (pg_trace h pg_empty) db'"
    and "opt_all fingerprint_ok sc"
    and "pg_see_revision (pg_trace h pg_empty) w sc = Inr (Some r)" and "pg_see (pg_trace h pg_empty) w sc = Inr (Some s)"
  shows "\<exists>r' s'. pg_see_revision db' w sc = Inr (Some r') \<and> pg_see db' w sc = Inr (Some s') \<and>
    r \<le> r' \<and> (r' = r \<longrightarrow> s' = s) \<and> (terminal (status s) \<longrightarrow> status s' = status s)"
  using pg.writes_move [OF assms(2) pg_inv_reached [OF assms(1)] assms(3,4)] assms(5)
  unfolding pg.moved_def by blast

section \<open>Where the code and its contract differ\<close>

text \<open>
  Releasing a lease deletes its row, and the next acquisition starts again with token 1: the
  credentials of the first holder, superseded by a takeover, are issued again and admit the writes of
  the task that lost the lease.  The contract says that fencing tokens increase monotonically.
\<close>

theorem superseded_credentials_issued_again:
  assumes "dict_get (pg_leases db) (ns_of sc, w) = None"
    and "acquire_lease env0 db w a sc ttl0 = Inr (db0, l0)"
    and "acquire_lease env1 db0 w b sc ttl1 = Inr (db1, l1)"
    and "release_lease env2 db1 w b (wl_fencing_token l1) sc = Inr (db2, True)"
    and "acquire_lease env3 db2 w a sc ttl3 = Inr (db3, l3)"
    and "server_now env + clock_tolerance (config env) < wl_expires_at l3"
  shows "wl_fencing_token l1 = 2 \<and> wl_fencing_token l3 = wl_fencing_token l0 \<and>
    fence_ok env db3 (ns_of sc) w (Some (wl_owner_id l0)) (Some (wl_fencing_token l0))"
proof -
  have 0: "wl_owner_id l0 = a" "wl_fencing_token l0 = 1"
      "\<exists>row. dict_get (pg_leases db0) (ns_of sc, w) = Some row \<and> lease_token row = 1"
    using acquire_ok [OF assms(2)] assms(1) by auto
  have 1: "wl_fencing_token l1 = 2" using acquire_ok [OF assms(3)] 0(3) by auto
  have "dict_get (pg_leases db2) (ns_of sc, w) = None" using release_ok [OF assms(4)] by auto
  then have "wl_fencing_token l3 = 1 \<and> (\<exists>row. dict_get (pg_leases db3) (ns_of sc, w) = Some row \<and>
      lease_owner row = a \<and> lease_token row = 1 \<and> lease_expires_at row = wl_expires_at l3)"
    using assms(5) unfolding acquire_lease_def Let_def by (auto simp: res_simps split: if_splits option.splits)
  then show ?thesis using 0 1 assms(6) by (auto simp: lease_live_def)
qed

text \<open>
  The completion statement does not compare the workflow of the reservation: another workflow of the
  scope completes the key and takes it over.  The SQLite store rejects the same call as a conflict.
\<close>

theorem shared_completion_rebinds_key:
  assumes "dict_get (pg_keys db) (ns_of sc, key) = Some row" and "idem_status row = RESERVED"
    and "idem_workflow_id row \<noteq> w"
    and "key_ok key" "identifier_ok w" "opt_all fingerprint_ok sc" "fingerprint_ok outcome"
    and "\<not> closed env" "pg_fault env = None"
  shows "(\<exists>db' r. pg_complete_idempotency env db mid key w outcome sc None None = Inr (db', r) \<and>
      idem_workflow_id r = w \<and> idem_status r = COMPLETED \<and> dict_get (pg_keys db') (ns_of sc, key) = Some r) \<and>
    (\<forall>env' sdb. dict_get (idempotency_records sdb) (ns_of sc, key) = Some row \<longrightarrow>
       (\<exists>x. complete_idempotency env' sdb key w outcome sc = Inl x))"
proof -
  have "no_escape env" using assms(8,9) by (simp add: no_escape_def)
  then have "\<exists>db' r. pg_complete_idempotency env db mid key w outcome sc None None = Inr (db', r) \<and>
      idem_workflow_id r = w \<and> idem_status r = COMPLETED \<and> dict_get (pg_keys db') (ns_of sc, key) = Some r"
    using assms by (simp add: pg_complete_iff)
  moreover have "\<exists>x. complete_idempotency env' sdb key w outcome sc = Inl x"
    if "dict_get (idempotency_records sdb) (ns_of sc, key) = Some row" for env' sdb
  proof (cases "complete_idempotency env' sdb key w outcome sc")
    case (Inr p)
    then show ?thesis using complete_ok [of env' sdb key w outcome sc "fst p" "snd p"] that assms(3) by auto
  qed simp
  ultimately show ?thesis by blast
qed

text \<open>
  A driver failure at the checkout of a connection or at the commit is raised as it is by every
  call that reaches the database, an outage at any statement as a normalized error.  The module says
  that backend failures surface as normalized errors.
\<close>

theorem checkout_failure_escapes:
  assumes "pg_fault env = Some (CheckoutFails x)" and "\<not> closed env" and "snapshot_valid s"
    and "identifier_ok w" "identifier_ok owner" "opt_all fingerprint_ok sc"
  shows "pg_create env db s = Inl (Driver x) \<and> pg_get env db w sc = Inl (Driver x) \<and>
    renew_lease env db mid w owner token sc = Inl (Driver x) \<and> release_lease env db w owner token sc = Inl (Driver x)"
proof -
  have "validate_lease_identity w (Some owner) sc = Inr ()" using assms(4-6) by (simp add: validate_lease_identity_ok)
  then show ?thesis using assms(3,6) snapshot_valid_fields [of s]
    by (simp add: pg_create_def pg_get_def pg_read_state_def renew_lease_def release_lease_def transaction_def assms(1,2))
qed

lemma statement_failure_mapped:
  "execute env n name = Inl x \<Longrightarrow> is_Shared x"
  by (auto simp: execute_def split: option.splits pg_fault.splits if_splits)

section \<open>Sample histories\<close>

definition worker_at :: "timestamp \<Rightarrow> pg_env" where
  "worker_at t = observer\<lparr>client_now := t, server_now := t\<rparr>"

definition leased_a :: pg_db where
  "leased_a = pg_trace [(worker_at 0, Acquire ''wf-1'' ''a'' None None)] pg_empty"

definition row_a :: lease_row where
  "row_a = \<lparr>lease_owner = ''a'', lease_token = 1, lease_expires_at = 120000000, lease_updated_at = 0\<rparr>"

definition row_b :: lease_row where
  "row_b = \<lparr>lease_owner = ''b'', lease_token = 2, lease_expires_at = 320000000, lease_updated_at = 200000000\<rparr>"

lemma leased_a_row: "dict_get (pg_leases leased_a) (ns_of None, ''wf-1'') = Some row_a"
  by code_simp

lemma takeover_by_b:
  "acquire_lease (worker_at 200000000) leased_a ''wf-1'' ''b'' None None =
     Inr (leased_a\<lparr>pg_leases := [(([], ''wf-1''), row_b)]\<rparr>,
          \<lparr>wl_workflow_id = ''wf-1'', wl_scope = None, wl_owner_id = ''b'', wl_fencing_token = 2,
           wl_expires_at = 320000000, wl_updated_at = 200000000\<rparr>)"
  by code_simp

lemma sample_history_kept:
  "lease_kept (ns_of None, ''wf-1'') [(worker_at 210000000, Renew ''wf-1'' ''b'' 2 None), (worker_at 220000000, Acquire ''wf-1'' ''a'' None None)]
     (leased_a\<lparr>pg_leases := [(([], ''wf-1''), row_b)]\<rparr>)"
  by code_simp

theorem superseded_worker_never_writes_witness:
  "\<nexists>x. renew_lease (worker_at 230000000)
      (pg_trace [(worker_at 210000000, Renew ''wf-1'' ''b'' 2 None), (worker_at 220000000, Acquire ''wf-1'' ''a'' None None)]
        (leased_a\<lparr>pg_leases := [(([], ''wf-1''), row_b)]\<rparr>)) pg_empty ''wf-1'' ''a'' 1 None = Inr x"
  using superseded_worker_never_writes [OF leased_a_row takeover_by_b sample_history_kept, of "worker_at 230000000" pg_empty]
  by (simp add: row_a_def)


definition shared_one :: pg_db where
  "shared_one = pg_empty\<lparr>pg_states := [(([], ''wf-1''), pg_new_row (worker_at 5) [] sample_wf)]\<rparr>"

definition shared_two :: pg_db where
  "shared_two = pg_empty\<lparr>pg_states :=
     [(([], ''wf-1''), pg_next_row (worker_at 6) sample_queued 2 (pg_new_row (worker_at 5) [] sample_wf))]\<rparr>"

lemmas shared_sample_defs = transaction_def execute_def worker_at_def observer_def pg_empty_def ns_of_def
  pg_new_row_def sample_wf_defs TERMINAL_STATUSES_def

lemma shared_one_trace: "pg_trace [(worker_at 5, Create sample_wf)] pg_empty = shared_one"
  by (simp add: pg_create_def shared_one_def shared_sample_defs)

lemma shared_two_update:
  "pg_update (worker_at 6) shared_one mid ''wf-1'' CREATED sample_queued (Some 1) None None None = Inr shared_two"
  by (simp add: pg_update_def update_target_def bigint_succ_def MAX_BIGINT_def pg_next_row_def shared_one_def
      shared_two_def shared_sample_defs)


theorem shared_writes_move_forward_witness:
  "\<exists>r' s'. pg_see_revision shared_two ''wf-1'' None = Inr (Some r') \<and> pg_see shared_two ''wf-1'' None = Inr (Some s') \<and> 1 \<le> r'"
proof -
  let ?h = "[(worker_at 5, Create sample_wf)]"
  have valid: "list_all (\<lambda>x. call_valid (snd x)) ?h" using sample_tenant_valid(2) by simp
  have wf: "workflow_id sample_wf = ''wf-1''" "tenant_scope_fingerprint sample_wf = None" by (simp_all add: sample_wf_def)
  have "call_update (worker_at 6, None, None) shared_one ''wf-1'' CREATED sample_queued (Some 1) None = Inr shared_two"
    using shared_two_update by simp
  then have "store_write call_create call_update shared_one shared_two"
    by (rule write_update [where update = call_update, OF sample_snapshot_valid(2), rotated]) simp
  then have steps: "run (store_write call_create call_update) 1 (pg_trace ?h pg_empty) shared_two"
    unfolding shared_one_trace using run_more [OF run_none] by simp
  have "pg_see_revision shared_one ''wf-1'' None = Inr (Some 1) \<and> pg_see shared_one ''wf-1'' None = Inr (Some sample_wf)"
    using pg_see_row [of None shared_one "''wf-1''" "pg_new_row (worker_at 5) [] sample_wf" sample_wf] sample_tenant_valid(2)
    by (simp add: shared_one_def ns_of_def pg_new_row_def)
  then show ?thesis
    using shared_writes_move_forward [OF valid steps, of None "''wf-1''" 1 sample_wf] unfolding shared_one_trace by auto
qed

theorem superseded_credentials_issued_again_witness:
  "\<exists>db1 l1 db2 db3 l3.
     acquire_lease (worker_at 200000000) leased_a ''wf-1'' ''b'' None None = Inr (db1, l1) \<and>
     release_lease (worker_at 201000000) db1 ''wf-1'' ''b'' 2 None = Inr (db2, True) \<and>
     acquire_lease (worker_at 202000000) db2 ''wf-1'' ''a'' None None = Inr (db3, l3) \<and> wl_fencing_token l3 = 1"
proof -
  have "release_lease (worker_at 201000000) (leased_a\<lparr>pg_leases := [(([], ''wf-1''), row_b)]\<rparr>) ''wf-1'' ''b'' 2 None =
      Inr (leased_a\<lparr>pg_leases := []\<rparr>, True)" by code_simp
  moreover have "acquire_lease (worker_at 202000000) (leased_a\<lparr>pg_leases := []\<rparr>) ''wf-1'' ''a'' None None =
      Inr (leased_a\<lparr>pg_leases := [(([], ''wf-1''), \<lparr>lease_owner = ''a'', lease_token = 1, lease_expires_at = 322000000,
             lease_updated_at = 202000000\<rparr>)]\<rparr>,
           \<lparr>wl_workflow_id = ''wf-1'', wl_scope = None, wl_owner_id = ''a'', wl_fencing_token = 1,
            wl_expires_at = 322000000, wl_updated_at = 202000000\<rparr>)" by code_simp
  ultimately show ?thesis using takeover_by_b by fastforce
qed

end
