(* ===== verification/Sha256.thy ===== *)
theory Sha256
  imports Nl2data_Prelude "HOL-Library.Word"
begin

unbundle bit_operations_syntax

text \<open>
  The digest \<open>hashlib.sha256(data).hexdigest()\<close> that every fingerprint of the program is built
  from: SHA-256 of FIPS 180-4 over byte strings, on 32-bit words whose addition wraps.  The theory
  shows what the program relies on: a digest is 64 lowercase hexadecimal characters.
\<close>

section \<open>Words and bytes\<close>

type_synonym w32 = "32 word"

definition rotr :: "nat \<Rightarrow> w32 \<Rightarrow> w32" where
  "rotr n x = drop_bit n x OR push_bit (32 - n) x"

definition byte_of :: "char \<Rightarrow> nat" where
  "byte_of c = of_char c"

fun be_word :: "nat list \<Rightarrow> w32" where
  "be_word bs = foldl (\<lambda>w b. push_bit 8 w OR of_nat b) 0 bs"

definition be_bytes :: "nat \<Rightarrow> nat \<Rightarrow> nat list" where
  "be_bytes k n = map (\<lambda>i. (n div 256 ^ (k - 1 - i)) mod 256) [0..<k]"

function chunks :: "nat \<Rightarrow> 'a list \<Rightarrow> 'a list list" where
  "chunks k xs = (if xs = [] \<or> k = 0 then [] else take k xs # chunks k (drop k xs))"
  by pat_completeness auto
termination by (relation "measure (\<lambda>(k, xs). length xs)") auto

declare chunks.simps [simp del]

section \<open>Compression\<close>

text \<open>
  The round constants are the first 32 bits of the fractional parts of the cube roots of the first
  64 primes, the initial state those of the square roots of the first eight.  Both are computed from
  that definition: \<open>frac_root k n\<close> finds \<open>\<lfloor>n powr (1 / k) * 2 ^ 32\<rfloor>\<close> bit by bit and keeps its low 32 bits.
\<close>

definition small_primes :: "nat list" where
  "small_primes = filter (\<lambda>n. list_all (\<lambda>d. n mod d \<noteq> 0) [2..<n]) [2..<312]"

definition root_bits :: "nat \<Rightarrow> nat \<Rightarrow> nat" where
  "root_bits k n = fold (\<lambda>b r. if (r + 2 ^ b) ^ k \<le> n * 2 ^ (32 * k) then r + 2 ^ b else r) (rev [0..<40]) 0"

definition frac_root :: "nat \<Rightarrow> nat \<Rightarrow> w32" where
  "frac_root k n = of_nat (root_bits k n)"

definition round_constants :: "w32 list" where
  "round_constants = map (frac_root 3) (take 64 small_primes)"

text \<open>The message schedule, newest word first.\<close>

definition small_sigma0 :: "w32 \<Rightarrow> w32" where
  "small_sigma0 x = rotr 7 x XOR rotr 18 x XOR drop_bit 3 x"

definition small_sigma1 :: "w32 \<Rightarrow> w32" where
  "small_sigma1 x = rotr 17 x XOR rotr 19 x XOR drop_bit 10 x"

fun extend_schedule :: "nat \<Rightarrow> w32 list \<Rightarrow> w32 list" where
  "extend_schedule 0 ws = ws"
| "extend_schedule (Suc n) ws =
     extend_schedule n
       ((small_sigma1 (ws ! 1) + ws ! 6 + small_sigma0 (ws ! 14) + ws ! 15) # ws)"

definition schedule :: "nat list \<Rightarrow> w32 list" where
  "schedule block = rev (extend_schedule 48 (rev (map be_word (chunks 4 block))))"

datatype hash_state = HS w32 w32 w32 w32 w32 w32 w32 w32

fun sha_round :: "w32 \<times> w32 \<Rightarrow> hash_state \<Rightarrow> hash_state" where
  "sha_round (k, w) (HS a b c d e f g h) =
     (let s1 = rotr 6 e XOR rotr 11 e XOR rotr 25 e;
          ch = (e AND f) XOR (NOT e AND g);
          t1 = h + s1 + ch + k + w;
          s0 = rotr 2 a XOR rotr 13 a XOR rotr 22 a;
          maj = (a AND b) XOR (a AND c) XOR (b AND c)
      in HS (t1 + (s0 + maj)) a b c (d + t1) e f g)"

fun add_state :: "hash_state \<Rightarrow> hash_state \<Rightarrow> hash_state" where
  "add_state (HS a b c d e f g h) (HS a' b' c' d' e' f' g' h') =
     HS (a + a') (b + b') (c + c') (d + d') (e + e') (f + f') (g + g') (h + h')"

definition sha_block :: "nat list \<Rightarrow> hash_state \<Rightarrow> hash_state" where
  "sha_block block st = add_state st (fold sha_round (zip round_constants (schedule block)) st)"

definition initial_state :: hash_state where
  "initial_state = HS (frac_root 2 2) (frac_root 2 3) (frac_root 2 5) (frac_root 2 7) (frac_root 2 11)
     (frac_root 2 13) (frac_root 2 17) (frac_root 2 19)"

definition pad_message :: "nat list \<Rightarrow> nat list" where
  "pad_message m =
     m @ [0x80] @ replicate ((119 - length m mod 64) mod 64) 0 @ be_bytes 8 (8 * length m)"

definition sha256_state :: "string \<Rightarrow> hash_state" where
  "sha256_state s = fold sha_block (chunks 64 (pad_message (map byte_of s))) initial_state"

section \<open>Hexadecimal digests\<close>

definition hex_chars :: string where
  "hex_chars = ''0123456789abcdef''"

definition hex_word :: "w32 \<Rightarrow> string" where
  "hex_word w = map (\<lambda>i. hex_chars ! ((unat w div 16 ^ (7 - i)) mod 16)) [0..<8]"

fun hex_state :: "hash_state \<Rightarrow> string" where
  "hex_state (HS a b c d e f g h) = concat (map hex_word [a, b, c, d, e, f, g, h])"

definition sha256_hexdigest :: "string \<Rightarrow> string" where
  "sha256_hexdigest s = hex_state (sha256_state s)"

definition hex_digit :: "char \<Rightarrow> bool" where
  "hex_digit c \<longleftrightarrow> is_digit c \<or> c \<in> set ''abcdef''"

lemma hex_chars_digits: "n < 16 \<Longrightarrow> hex_digit (hex_chars ! n)"
proof -
  assume "n < 16"
  then have "hex_chars ! n \<in> set hex_chars" by (intro nth_mem) (simp add: hex_chars_def)
  then show ?thesis by (auto simp: hex_chars_def hex_digit_def is_digit_def digit_chars_def)
qed

lemma hex_word_shape [simp]: "length (hex_word w) = 8" "list_all hex_digit (hex_word w)"
  using hex_chars_digits by (simp_all add: hex_word_def list_all_iff)

lemma sha256_hexdigest_shape: "length (sha256_hexdigest s) = 64" "list_all hex_digit (sha256_hexdigest s)"
  by (cases "sha256_state s"; simp add: sha256_hexdigest_def)+

lemma fingerprint_shape: "fingerprint_ok (''sha256:'' @ sha256_hexdigest s)"
  using sha256_hexdigest_shape [of s] by (simp add: fingerprint_ok_def hex_digit_def [abs_def])

end
