(* ===== verification/Canonical_Json.thy ===== *)
theory Canonical_Json
  imports Errors Sha256
begin

text \<open>
  The strict canonicalization profile \<open>jcs-v1\<close> of \<^verbatim>\<open>src/nl2data_core/canonical.py\<close>: the
  JSON-safe check, the canonical encoder and the SHA-256 fingerprint that every component of the
  program derives its identities from.

  A payload is a \<open>jv\<close>: a Python float is given by its \<open>repr\<close>, a dict by its items in insertion
  order, any other Python object by the name of its type.

  The theory shows that the encoder accepts exactly the JSON-safe payloads, that on payloads
  without floats the canonical text determines the payload up to the order of dict members and
  is determined by it, and hence that two payloads share a fingerprint only if they are the same
  payload or their texts are a SHA-256 collision.
\<close>

section \<open>Payloads\<close>

datatype dict_key = KStr string | KOther string string

datatype jv =
    VNull | VBool bool | VInt int | VFloat string | VStr string
  | VList "jv list" | VDict "(dict_key \<times> jv) list" | VEnum string | VOther string

datatype canonicalization_error = CanonicalizationError (error_message: string) (error_path: string) (value_type: string)

type_synonym 'a canon = "canonicalization_error + 'a"

definition NOT_JSON_SAFE :: string where
  "NOT_JSON_SAFE = ''value is not a JSON-safe object, array, string, number, boolean, or null''"

definition finite_repr :: "string \<Rightarrow> bool" where
  "finite_repr r \<longleftrightarrow> r \<notin> set [''nan'', ''inf'', ''-inf'']"

fun validate_json_safe :: "jv \<Rightarrow> string \<Rightarrow> unit canon"
and validate_items :: "(dict_key \<times> jv) list \<Rightarrow> string \<Rightarrow> unit canon"
and validate_elements :: "jv list \<Rightarrow> nat \<Rightarrow> string \<Rightarrow> unit canon" where
  "validate_json_safe VNull path = Inr ()"
| "validate_json_safe (VBool b) path = Inr ()"
| "validate_json_safe (VStr s) path = Inr ()"
| "validate_json_safe (VEnum cls) path =
     Inl (CanonicalizationError
            ''enums must be prepared to their JSON-safe value before canonicalization'' path cls)"
| "validate_json_safe (VInt i) path = Inr ()"
| "validate_json_safe (VFloat r) path =
     ensure (finite_repr r)
       (CanonicalizationError ''non-finite numbers are not JSON-safe values'' path ''float'')"
| "validate_json_safe (VDict items) path = validate_items items path"
| "validate_json_safe (VList xs) path = validate_elements xs 0 path"
| "validate_json_safe (VOther cls) path = Inl (CanonicalizationError NOT_JSON_SAFE path cls)"
| "validate_items [] path = Inr ()"
| "validate_items ((KStr k, v) # items) path =
     bind_res (validate_json_safe v (path @ ''.'' @ k)) (\<lambda>_. validate_items items path)"
| "validate_items ((KOther r cls, v) # items) path =
     Inl (CanonicalizationError ''object keys must be prepared strings'' (path @ ''.'' @ r) cls)"
| "validate_elements [] i path = Inr ()"
| "validate_elements (v # vs) i path =
     bind_res (validate_json_safe v (path @ ''['' @ string_of_nat i @ '']''))
       (\<lambda>_. validate_elements vs (Suc i) path)"

section \<open>Numbers\<close>

definition partition_at :: "char \<Rightarrow> string \<Rightarrow> string \<times> string" where
  "partition_at c s = (takeWhile (\<lambda>x. x \<noteq> c) s, drop 1 (dropWhile (\<lambda>x. x \<noteq> c) s))"

definition digit_value :: "char \<Rightarrow> nat" where
  "digit_value c = of_char c - 48"

definition nat_of_digits :: "string \<Rightarrow> nat" where
  "nat_of_digits s = foldl (\<lambda>n c. 10 * n + digit_value c) 0 s"

text \<open>\<open>int(text)\<close> of a signed decimal exponent.\<close>

definition int_of_text :: "string \<Rightarrow> int" where
  "int_of_text s =
     (if take 1 s = ''-'' then - int (nat_of_digits (drop 1 s))
      else if take 1 s = ''+'' then int (nat_of_digits (drop 1 s)) else int (nat_of_digits s))"

text \<open>\<open>while len(digits) > 1 and digits.endswith("0"): digits = digits[:-1]\<close>.\<close>

function strip_trailing_zeros :: "string \<Rightarrow> string" where
  "strip_trailing_zeros ds =
     (if length ds > 1 \<and> last ds = CHR ''0'' then strip_trailing_zeros (butlast ds) else ds)"
  by pat_completeness auto
termination by (relation "measure length") auto

declare strip_trailing_zeros.simps [simp del]

definition es6_body :: "string \<Rightarrow> int \<Rightarrow> string" where
  "es6_body digits n =
     (let digit_count = int (length digits)
      in if digit_count \<le> n \<and> n \<le> 21 then digits @ replicate (nat (n - digit_count)) CHR ''0''
         else if 0 < n \<and> n \<le> 21 then take (nat n) digits @ ''.'' @ drop (nat n) digits
         else if - 6 < n \<and> n \<le> 0 then ''0.'' @ replicate (nat (- n)) CHR ''0'' @ digits
         else take 1 digits @ (if digit_count > 1 then ''.'' @ drop 1 digits else '''')
                @ ''e'' @ (if n - 1 \<ge> 0 then ''+'' else ''-'') @ string_of_nat (nat \<bar>n - 1\<bar>))"

text \<open>\<open>_es6_number\<close>, on the \<open>repr\<close> of a finite float.\<close>

definition es6_number :: "string \<Rightarrow> string" where
  "es6_number r =
     (if r = ''0.0'' \<or> r = ''-0.0'' then ''0''
      else
        (let negative = (take 1 r = ''-'');
             text = (if negative then drop 1 r else r);
             (mantissa, exponent) =
               (if CHR ''e'' \<in> set text
                then (case partition_at CHR ''e'' text of (m, e) \<Rightarrow> (m, int_of_text e)) else (text, 0));
             (integer_part, fraction_part) = partition_at CHR ''.'' mantissa;
             digits = integer_part @ fraction_part;
             stripped = length (takeWhile (\<lambda>c. c = CHR ''0'') digits);
             digits = (if drop stripped digits = [] then ''0'' else drop stripped digits);
             point = int (length integer_part) - int stripped;
             digits = strip_trailing_zeros digits;
             body = es6_body digits (point + exponent)
         in if negative then ''-'' @ body else body))"

section \<open>Strings\<close>

definition escape_of :: "char \<Rightarrow> string option" where
  "escape_of c = map_of
     [(CHR 0x22, [CHR 0x5C, CHR 0x22]), (CHR 0x5C, [CHR 0x5C, CHR 0x5C]), (CHR 0x08, [CHR 0x5C, CHR ''b'']),
      (CHR 0x0C, [CHR 0x5C, CHR ''f'']), (CHR 0x0A, [CHR 0x5C, CHR ''n'']), (CHR 0x0D, [CHR 0x5C, CHR ''r'']),
      (CHR 0x09, [CHR 0x5C, CHR ''t''])] c"

definition is_control :: "char \<Rightarrow> bool" where
  "is_control c \<longleftrightarrow> (of_char c :: nat) < 32"

definition escape_char :: "char \<Rightarrow> string" where
  "escape_char c =
     (case escape_of c of
        Some e \<Rightarrow> e
      | None \<Rightarrow>
          if is_control c
          then [CHR 0x5C, CHR ''u'', CHR ''0'', CHR ''0'', hex_chars ! (of_char c div 16), hex_chars ! (of_char c mod 16)]
          else [c])"

definition encode_string :: "string \<Rightarrow> string" where
  "encode_string s =
     (if \<not> list_ex (\<lambda>c. escape_of c \<noteq> None \<or> is_control c) s
      then [CHR 0x22] @ s @ [CHR 0x22]
      else [CHR 0x22] @ concat (map escape_char s) @ [CHR 0x22])"

text \<open>
  \<open>name.encode("utf-16-be")\<close> by code units (a code point below U+0100 is one unit), and
  \<open>text.encode("utf-8")\<close> (two bytes from U+0080 on).
\<close>

definition utf16_units :: "string \<Rightarrow> nat list" where
  "utf16_units s = map of_char s"

definition utf8_char :: "char \<Rightarrow> string" where
  "utf8_char c =
     (let n = (of_char c :: nat)
      in if n < 128 then [c] else [char_of (192 + n div 64), char_of (128 + n mod 64)])"

definition utf8_bytes :: "string \<Rightarrow> string" where
  "utf8_bytes s = concat (map utf8_char s)"

section \<open>The encoder\<close>

fun joined :: "string list \<Rightarrow> string" where
  "joined [] = []"
| "joined [x] = x"
| "joined (x # y # ys) = x @ '','' @ joined (y # ys)"

fun key_text :: "dict_key \<Rightarrow> string" where
  "key_text (KStr k) = k"
| "key_text (KOther r cls) = r"

text \<open>The members of a dict in canonical order: sorted by the UTF-16 code units of their names.\<close>

definition by_name :: "(dict_key \<times> 'v) list \<Rightarrow> (dict_key \<times> 'v) list" where
  "by_name items = sort_key (\<lambda>p. utf16_units (key_text (fst p))) items"

definition member_text :: "dict_key \<times> string \<Rightarrow> string" where
  "member_text p = encode_string (key_text (fst p)) @ '':'' @ snd p"

fun encode :: "jv \<Rightarrow> string" where
  "encode VNull = ''null''"
| "encode (VBool b) = (if b then ''true'' else ''false'')"
| "encode (VStr s) = encode_string s"
| "encode (VInt i) = string_of_int i"
| "encode (VFloat r) = es6_number r"
| "encode (VList xs) = ''['' @ joined (map encode xs) @ '']''"
| "encode (VDict items) =
     ''{'' @ joined (map member_text (by_name (map (\<lambda>(k, v). (k, encode v)) items))) @ ''}''"
| "encode (VEnum cls) = []"
| "encode (VOther cls) = []"

definition strict_canonical_json :: "jv \<Rightarrow> string canon" where
  "strict_canonical_json payload =
     bind_res (validate_json_safe payload ''$'') (\<lambda>_. Inr (encode payload))"

definition strict_canonical_bytes :: "jv \<Rightarrow> string canon" where
  "strict_canonical_bytes payload = bind_res (strict_canonical_json payload) (\<lambda>text. Inr (utf8_bytes text))"

definition strict_sha256_fingerprint :: "jv \<Rightarrow> string canon" where
  "strict_sha256_fingerprint payload =
     bind_res (strict_canonical_bytes payload) (\<lambda>bytes. Inr (''sha256:'' @ sha256_hexdigest bytes))"

text \<open>The fingerprint of a payload that the models have built from JSON-safe values.\<close>

definition fingerprint_of :: "jv \<Rightarrow> string" where
  "fingerprint_of payload = ''sha256:'' @ sha256_hexdigest (utf8_bytes (encode payload))"

lemmas fingerprint_defs = strict_sha256_fingerprint_def strict_canonical_bytes_def

section \<open>What the check accepts\<close>

fun json_safe :: "jv \<Rightarrow> bool" where
  "json_safe VNull = True"
| "json_safe (VBool b) = True"
| "json_safe (VStr s) = True"
| "json_safe (VInt i) = True"
| "json_safe (VFloat r) = finite_repr r"
| "json_safe (VList xs) = list_all json_safe xs"
| "json_safe (VDict items) = list_all (\<lambda>(k, v). (\<exists>s. k = KStr s) \<and> json_safe v) items"
| "json_safe (VEnum cls) = False"
| "json_safe (VOther cls) = False"

lemma validate_json_safe_iff:
  "validate_json_safe v path = Inr u \<longleftrightarrow> json_safe v"
  "validate_items items path = Inr u' \<longleftrightarrow> list_all (\<lambda>(k, v). (\<exists>s. k = KStr s) \<and> json_safe v) items"
  "validate_elements vs i path = Inr u'' \<longleftrightarrow> list_all json_safe vs"
proof (induction v path and items path and vs i path arbitrary: u and u' and u''
    rule: validate_json_safe_validate_items_validate_elements.induct)
qed (simp_all add: bind_res_Inr_iff)

section \<open>Decimal integers are read back\<close>

lemma digit_value_nth: "n < 10 \<Longrightarrow> digit_value (digit_chars ! n) = n"
proof -
  assume "n < 10"
  then have "n \<in> set [0, 1, 2, 3, 4, 5, 6, 7, 8, 9]" by auto
  then show ?thesis by (auto simp: digit_value_def digit_chars_def)
qed

lemma nat_of_string_of_nat [simp]: "nat_of_digits (string_of_nat n) = n"
proof (induction n rule: string_of_nat.induct)
  case (1 n)
  then show ?case
    by (subst string_of_nat.simps) (auto simp: nat_of_digits_def digit_value_nth)
qed

lemma string_of_nat_inj [simp]: "string_of_nat m = string_of_nat n \<longleftrightarrow> m = n"
  by (metis nat_of_string_of_nat)

text \<open>A rest of a text that does not continue a number.\<close>

definition delim :: "string \<Rightarrow> bool" where
  "delim r \<longleftrightarrow> (case r of [] \<Rightarrow> True | c # _ \<Rightarrow> \<not> is_digit c)"

lemma takeWhile_digits: "delim r \<Longrightarrow> takeWhile is_digit (string_of_nat n @ r) = string_of_nat n"
  using string_of_nat_digits [of n]
  by (subst takeWhile_append2) (auto simp: list_all_iff delim_def split: list.splits)

lemma string_of_nat_prefix:
  assumes "string_of_nat m @ r = string_of_nat n @ r'" "delim r" "delim r'"
  shows "m = n \<and> r = r'"
proof -
  have "string_of_nat m = string_of_nat n" using assms takeWhile_digits by metis
  with assms show ?thesis by simp
qed

lemma hd_string_of_nat: "is_digit (hd (string_of_nat n))"
  using string_of_nat_digits [of n] by (cases "string_of_nat n") auto

lemma minus_not_digit [simp]: "\<not> is_digit CHR ''-''"
  by (simp add: is_digit_def digit_chars_def)

lemma string_of_int_prefix:
  assumes "string_of_int i @ r = string_of_int j @ r'" "delim r" "delim r'"
  shows "i = j \<and> r = r'"
proof -
  have hd: "hd (string_of_nat n) \<noteq> CHR ''-''" for n
    using hd_string_of_nat [of n] by (metis minus_not_digit)
  have heads: "hd (string_of_int i @ r) = hd (string_of_int j @ r')" using assms(1) by simp
  consider "i < 0" "j < 0" | "0 \<le> i" "0 \<le> j" | "i < 0" "0 \<le> j" | "0 \<le> i" "j < 0" by linarith
  then show ?thesis
  proof cases
    case 1
    with assms string_of_nat_prefix [of "nat (- i)" r "nat (- j)" r'] show ?thesis
      by (auto simp: string_of_int_def eq_nat_nat_iff)
  next
    case 2
    with assms string_of_nat_prefix [of "nat i" r "nat j" r'] show ?thesis
      by (auto simp: string_of_int_def eq_nat_nat_iff)
  next
    case 3
    with heads hd [of "nat j"] show ?thesis by (simp add: string_of_int_def)
  next
    case 4
    with heads hd [of "nat i"] show ?thesis by (simp add: string_of_int_def)
  qed
qed

section \<open>Escaped strings are read back\<close>

lemma escape_char_plain: "escape_of c = None \<Longrightarrow> \<not> is_control c \<Longrightarrow> escape_char c = [c]"
  by (simp add: escape_char_def)

lemma encode_string_eq: "encode_string s = [CHR 0x22] @ concat (map escape_char s) @ [CHR 0x22]"
proof (cases "list_ex (\<lambda>c. escape_of c \<noteq> None \<or> is_control c) s")
  case False
  then have "concat (map escape_char s) = s"
    by (induction s) (auto simp: escape_char_plain)
  then show ?thesis by (simp add: encode_string_def)
qed (simp add: encode_string_def)

lemma hex_chars_nth_eq: "i < 16 \<Longrightarrow> j < 16 \<Longrightarrow> hex_chars ! i = hex_chars ! j \<longleftrightarrow> i = j"
  by (rule nth_eq_iff_index_eq) (simp_all add: hex_chars_def)

lemma escape_of_cases:
  "escape_of c = None \<and> c \<noteq> CHR 0x5C \<and> c \<noteq> CHR 0x22 \<or>
   (\<exists>d. escape_of c = Some [CHR 0x5C, d] \<and> d \<noteq> CHR ''u'')"
  by (auto simp: escape_of_def)

lemma escape_of_inj: "escape_of c = Some e \<Longrightarrow> escape_of d = Some e \<Longrightarrow> c = d"
  by (auto simp: escape_of_def split: if_splits)

lemma control_code_inj:
  assumes "is_control c" "is_control d"
    and "hex_chars ! (of_char c div 16) = hex_chars ! (of_char d div 16)"
    and "hex_chars ! (of_char c mod 16) = hex_chars ! (of_char d mod 16)"
  shows "c = d"
proof -
  have "(of_char c :: nat) div 16 = of_char d div 16" "(of_char c :: nat) mod 16 = of_char d mod 16"
    using assms by (simp_all add: hex_chars_nth_eq is_control_def)
  then have "(of_char c :: nat) = of_char d" by (metis div_mult_mod_eq)
  then show ?thesis by simp
qed

lemma escape_char_prefix: "escape_char c @ r = escape_char d @ r' \<Longrightarrow> c = d \<and> r = r'"
  using escape_of_cases [of c] escape_of_cases [of d] escape_of_inj [of c _ d] control_code_inj [of c d]
  by (auto simp: escape_char_def split: if_splits)

lemma escape_char_not_quote: "hd (escape_char c) \<noteq> CHR 0x22 \<and> escape_char c \<noteq> []"
  using escape_of_cases [of c] by (auto simp: escape_char_def)

lemma escaped_prefix:
  "concat (map escape_char s) @ CHR 0x22 # r = concat (map escape_char t) @ CHR 0x22 # r' \<Longrightarrow> s = t \<and> r = r'"
proof (induction s arbitrary: t)
  case Nil
  then show ?case using escape_char_not_quote by (cases t) (auto, metis hd_append list.sel(1))
next
  case (Cons c s)
  show ?case
  proof (cases t)
    case Nil
    with Cons.prems escape_char_not_quote [of c] show ?thesis
      by (auto, metis hd_append list.sel(1))
  next
    case (Cons d t')
    with Cons.prems escape_char_prefix [of c "concat (map escape_char s) @ CHR 0x22 # r" d]
    have "c = d" "concat (map escape_char s) @ CHR 0x22 # r = concat (map escape_char t') @ CHR 0x22 # r'"
      by simp_all
    with Cons.IH Cons show ?thesis by blast
  qed
qed

lemma encode_string_prefix: "encode_string s @ r = encode_string t @ r' \<Longrightarrow> s = t \<and> r = r'"
  using escaped_prefix [of s r t r'] by (simp add: encode_string_eq)

section \<open>The canonical text determines the payload\<close>

text \<open>A payload with its members in canonical order, and its text without any sorting.\<close>

fun normal :: "jv \<Rightarrow> jv" where
  "normal (VList xs) = VList (map normal xs)"
| "normal (VDict items) = VDict (by_name (map (\<lambda>(k, v). (k, normal v)) items))"
| "normal v = v"

fun plain_text :: "jv \<Rightarrow> string" where
  "plain_text (VList xs) = ''['' @ joined (map plain_text xs) @ '']''"
| "plain_text (VDict items) = ''{'' @ joined (map (\<lambda>(k, v). member_text (k, plain_text v)) items) @ ''}''"
| "plain_text v = encode v"

lemma insort_key_map: "insort_key f (g x) (map g xs) = map g (insort_key (\<lambda>x. f (g x)) x xs)"
  by (induction xs) auto

lemma sort_key_map: "sort_key f (map g xs) = map g (sort_key (\<lambda>x. f (g x)) xs)"
  by (induction xs) (simp_all add: insort_key_map)

lemma by_name_map:
  "by_name (map (\<lambda>p. (fst p, f (snd p))) items) = map (\<lambda>p. (fst p, f (snd p))) (by_name items)"
  unfolding by_name_def by (subst sort_key_map) simp

lemma set_by_name [simp]: "set (by_name items) = set items"
  by (simp add: by_name_def)

lemma encode_normal: "encode v = plain_text (normal v)"
proof (induction v rule: normal.induct)
  case (1 xs)
  then show ?case by (simp cong: map_cong)
next
  case (2 items)
  then have "\<forall>p \<in> set (by_name items). encode (snd p) = plain_text (normal (snd p))" by force
  then show ?case
    by (simp add: by_name_map by_name_map [of "\<lambda>v. plain_text (normal v)"] case_prod_unfold comp_def
        cong: map_cong)
qed simp_all

fun float_free :: "jv \<Rightarrow> bool" where
  "float_free (VFloat r) = False"
| "float_free (VList xs) = list_all float_free xs"
| "float_free (VDict items) = list_all (\<lambda>(k, v). float_free v) items"
| "float_free v = True"

text \<open>The payloads on which the text is unambiguous: JSON-safe and without floats.\<close>

fun exact :: "jv \<Rightarrow> bool" where
  "exact VNull = True"
| "exact (VBool b) = True"
| "exact (VStr s) = True"
| "exact (VInt i) = True"
| "exact (VFloat r) = False"
| "exact (VList xs) = list_all exact xs"
| "exact (VDict items) = list_all (\<lambda>(k, v). (\<exists>s. k = KStr s) \<and> exact v) items"
| "exact (VEnum cls) = False"
| "exact (VOther cls) = False"

lemma exact_iff: "exact v \<longleftrightarrow> json_safe v \<and> float_free v"
  by (induction v) (auto simp: list_all_iff split: prod.splits)

lemma exact_normal: "exact v \<Longrightarrow> exact (normal v)"
  by (induction v) (auto simp: list_all_iff split: prod.splits)

lemma text_start:
  "exact v \<Longrightarrow> plain_text v \<noteq> [] \<and> hd (plain_text v) \<notin> set '']},:''"
proof (cases v)
  case (VInt i)
  have "is_digit (hd (string_of_nat (nat i)))" by (rule hd_string_of_nat)
  then show "plain_text v \<noteq> [] \<and> hd (plain_text v) \<notin> set '']},:''"
    using VInt by (auto simp: string_of_int_def is_digit_def digit_chars_def)
qed (auto simp: encode_string_eq)

lemma joined_Cons: "joined (x # xs) = x @ (if xs = [] then [] else '','' @ joined xs)"
  by (cases xs) simp_all

text \<open>Separated items up to a closing bracket are read back when each item is.\<close>

lemma joined_prefix:
  assumes close: "\<not> is_digit cl" "cl \<noteq> CHR '',''"
    and elem: "\<And>x y q q'. x \<in> set xs \<Longrightarrow> P y \<Longrightarrow> txt x @ q = txt y @ q' \<Longrightarrow> delim q \<Longrightarrow> delim q' \<Longrightarrow>
                 x = y \<and> q = q'"
    and start: "\<And>x. P x \<Longrightarrow> txt x \<noteq> [] \<and> hd (txt x) \<noteq> cl"
  shows "joined (map txt xs) @ cl # r = joined (map txt ys) @ cl # r' \<Longrightarrow> list_all P xs \<Longrightarrow> list_all P ys \<Longrightarrow>
    xs = ys \<and> r = r'"
  using elem
proof (induction xs arbitrary: ys)
  case Nil
  show ?case
  proof (cases ys)
    case (Cons y ys')
    with Nil start [of y] have "hd (txt y) = cl" "txt y \<noteq> []"
      by (auto simp: joined_Cons dest!: arg_cong [of _ _ hd])
    with Nil Cons start [of y] show ?thesis by simp
  qed (use Nil in simp)
next
  case (Cons x xs)
  define rest where "rest zs = (if zs = [] then [cl] else '','' @ joined (map txt zs) @ [cl])" for zs
  have unroll: "joined (map txt (z # zs)) @ cl # q = txt z @ rest zs @ q" for z zs q
    by (simp add: rest_def joined_Cons)
  have delims: "delim (rest zs @ q)" for zs q
    using close(1) by (simp add: rest_def delim_def is_digit_def digit_chars_def)
  show ?case
  proof (cases ys)
    case Nil
    then have "txt x @ rest xs @ r = cl # r'" using Cons.prems(1) unroll [of x xs r] by simp
    with start [of x] Cons.prems(2) show ?thesis by (cases "txt x") simp_all
  next
    case (Cons y ys')
    have "txt x @ rest xs @ r = txt y @ rest ys' @ r'"
      using Cons.prems(1) unroll [of x xs r] unroll [of y ys' r'] Cons by simp
    then have xy: "x = y" "rest xs @ r = rest ys' @ r'"
      using Cons.prems(4) [of x y "rest xs @ r" "rest ys' @ r'"] Cons.prems(3) delims Cons by simp_all
    then have "joined (map txt xs) @ cl # r = joined (map txt ys') @ cl # r' \<or> xs = [] \<and> ys' = [] \<and> r = r'"
      using close(2) by (auto simp: rest_def split: if_splits)
    then show ?thesis using Cons.IH [of ys'] Cons.prems xy(1) Cons by auto
  qed
qed

lemma string_of_int_start: "string_of_int i @ r = c # q \<Longrightarrow> is_digit c \<or> c = CHR ''-''"
  using hd_string_of_nat [of "nat i"]
  by (cases "string_of_nat (nat i)") (auto simp: string_of_int_def split: if_splits)

lemma string_of_int_not [simp]:
  "\<not> is_digit c \<Longrightarrow> c \<noteq> CHR ''-'' \<Longrightarrow> string_of_int i @ r \<noteq> c # q"
  "\<not> is_digit c \<Longrightarrow> c \<noteq> CHR ''-'' \<Longrightarrow> c # q \<noteq> string_of_int i @ r"
  using string_of_int_start [of i r c q] by (metis, metis)

lemma not_digits [simp]:
  "\<not> is_digit CHR ''n''" "\<not> is_digit CHR ''t''" "\<not> is_digit CHR ''f''" "\<not> is_digit CHR 0x22"
  "\<not> is_digit CHR ''[''" "\<not> is_digit CHR ''{''" "\<not> is_digit CHR '']''" "\<not> is_digit CHR ''}''"
  by (simp_all add: is_digit_def digit_chars_def)

definition member_exact :: "dict_key \<times> jv \<Rightarrow> bool" where
  "member_exact p \<longleftrightarrow> (\<exists>s. fst p = KStr s) \<and> exact (snd p)"

lemma member_prefix:
  assumes "\<And>w q q'. exact w \<Longrightarrow> plain_text (snd p) @ q = plain_text w @ q' \<Longrightarrow> delim q \<Longrightarrow> delim q' \<Longrightarrow>
             snd p = w \<and> q = q'"
    and "member_exact p" "member_exact p'" "delim q" "delim q'"
    and "member_text (fst p, plain_text (snd p)) @ q = member_text (fst p', plain_text (snd p')) @ q'"
  shows "p = p' \<and> q = q'"
proof -
  from assms(2,3) obtain k k' where k: "fst p = KStr k" "fst p' = KStr k'" by (auto simp: member_exact_def)
  with assms(6) have "encode_string k @ '':'' @ plain_text (snd p) @ q = encode_string k' @ '':'' @ plain_text (snd p') @ q'"
    by (simp add: member_text_def)
  from encode_string_prefix [OF this] have "k = k'" "plain_text (snd p) @ q = plain_text (snd p') @ q'" by simp_all
  with assms(1) [of "snd p'" q q'] assms(3-5) have "snd p = snd p' \<and> q = q'" by (simp add: member_exact_def)
  with k \<open>k = k'\<close> show ?thesis by (simp add: prod_eq_iff)
qed

lemma text_prefix:
  "exact v \<Longrightarrow> exact w \<Longrightarrow> plain_text v @ r = plain_text w @ r' \<Longrightarrow> delim r \<Longrightarrow> delim r' \<Longrightarrow> v = w \<and> r = r'"
proof (induction v arbitrary: w r r')
  case (VList xs)
  show ?case
  proof (cases w)
    case (VList ys)
    have "xs = ys \<and> r = r'"
    proof (rule joined_prefix [of "CHR '']''" xs exact plain_text])
      show "plain_text x \<noteq> [] \<and> hd (plain_text x) \<noteq> CHR '']''" if "exact x" for x
        using text_start [OF that] by simp
    qed (use VList.prems VList VList.IH in \<open>auto simp: list_all_iff\<close>)
    with VList show ?thesis by simp
  qed (use VList.prems in \<open>auto simp: encode_string_eq split: if_splits\<close>)
next
  case (VDict items)
  show ?case
  proof (cases w)
    case (VDict items')
    have "items = items' \<and> r = r'"
    proof (rule joined_prefix [of "CHR ''}''" items member_exact "\<lambda>p. member_text (fst p, plain_text (snd p))"])
      fix p p' q q'
      assume "p \<in> set items" "member_exact p'" "delim q" "delim q'"
        "member_text (fst p, plain_text (snd p)) @ q = member_text (fst p', plain_text (snd p')) @ q'"
      moreover from \<open>p \<in> set items\<close> VDict.prems(1) have "member_exact p"
        by (auto simp: list_all_iff member_exact_def)
      moreover have "snd p = w \<and> q = q'" if "exact w" "plain_text (snd p) @ q = plain_text w @ q'" "delim q" "delim q'" for w q q'
      proof -
        have "snd p \<in> Basic_BNFs.snds p" by (cases p) simp
        with VDict.IH [OF \<open>p \<in> set items\<close>, of "snd p" w q q'] that \<open>member_exact p\<close>
        show ?thesis by (simp add: member_exact_def)
      qed
      ultimately show "p = p' \<and> q = q'" using member_prefix [of p p' q q'] by blast
    next
      show "member_text (fst x, plain_text (snd x)) \<noteq> [] \<and> hd (member_text (fst x, plain_text (snd x))) \<noteq> CHR ''}''" for x
        by (simp add: member_text_def encode_string_eq)
    qed (use VDict.prems VDict in \<open>auto simp: list_all_iff member_exact_def case_prod_unfold\<close>)
    with VDict show ?thesis by simp
  qed (use VDict.prems in \<open>auto simp: encode_string_eq split: if_splits\<close>)
next
  case (VStr s)
  then show ?case using encode_string_prefix [of s r _ r']
    by (cases w) (auto simp: encode_string_eq split: if_splits)
next
  case (VInt i)
  then show ?case using string_of_int_prefix [of i r _ r']
    by (cases w) (auto simp: encode_string_eq split: if_splits)
next
  case VNull
  then show ?case by (cases w) (auto simp: encode_string_eq split: if_splits)
next
  case (VBool b)
  then show ?case by (cases w) (auto simp: encode_string_eq split: if_splits)
qed simp_all

section \<open>Properties\<close>

lemma canonical_json_text: "json_safe v \<Longrightarrow> strict_canonical_json v = Inr (encode v)"
  by (simp add: strict_canonical_json_def bind_res_Inr_iff validate_json_safe_iff)

lemma fingerprint_of_eq: "json_safe v \<Longrightarrow> strict_sha256_fingerprint v = Inr (fingerprint_of v)"
  by (simp add: fingerprint_defs canonical_json_text fingerprint_of_def)

lemma fingerprint_of_ok [simp]: "fingerprint_ok (fingerprint_of v)"
  unfolding fingerprint_of_def by (rule fingerprint_shape)

lemma utf16_units_inj [simp]: "utf16_units s = utf16_units t \<longleftrightarrow> s = t"
  by (simp add: utf16_units_def inj_map_eq_map inj_on_def)

lemma utf8_char_prefix: "utf8_char c @ r = utf8_char d @ r' \<Longrightarrow> c = d \<and> r = r'"
proof -
  assume eq: "utf8_char c @ r = utf8_char d @ r'"
  have bound: "(of_char x :: nat) < 256" for x
    using of_char_of [of "of_char x :: nat"] by (metis char_of_char mod_less_divisor zero_less_numeral)
  have lead: "(of_char (char_of (192 + n div 64)) :: nat) = 192 + n div 64"
    "(of_char (char_of (128 + n mod 64)) :: nat) = 128 + n mod 64" if "n < 256" for n :: nat
    using that by (simp_all add: less_mult_imp_div_less)
  show ?thesis
  proof (cases "(of_char c :: nat) < 128"; cases "(of_char d :: nat) < 128")
    assume "(of_char c :: nat) < 128" "\<not> (of_char d :: nat) < 128"
    with eq lead [OF bound, of d] show ?thesis by (auto simp: utf8_char_def Let_def)
  next
    assume "\<not> (of_char c :: nat) < 128" "(of_char d :: nat) < 128"
    with eq lead [OF bound, of c] show ?thesis by (auto simp: utf8_char_def Let_def)
  next
    assume "\<not> (of_char c :: nat) < 128" "\<not> (of_char d :: nat) < 128"
    with eq have parts: "char_of (192 + of_char c div 64 :: nat) = char_of (192 + of_char d div 64 :: nat)"
        "char_of (128 + of_char c mod 64 :: nat) = char_of (128 + of_char d mod 64 :: nat)" and "r = r'"
      by (simp_all add: utf8_char_def Let_def)
    then have "(of_char c :: nat) div 64 = of_char d div 64" "(of_char c :: nat) mod 64 = of_char d mod 64"
      using lead [OF bound] by (metis add_left_imp_eq)+
    then have "(of_char c :: nat) = of_char d" by (metis div_mult_mod_eq)
    with \<open>r = r'\<close> show ?thesis by simp
  qed (use eq in \<open>simp add: utf8_char_def Let_def\<close>)
qed

lemma utf8_bytes_inj [simp]: "utf8_bytes s = utf8_bytes t \<longleftrightarrow> s = t"
proof
  show "s = t" if "utf8_bytes s = utf8_bytes t"
    using that
  proof (induction s arbitrary: t)
    case Nil
    then show ?case by (cases t) (auto simp: utf8_bytes_def utf8_char_def Let_def split: if_splits)
  next
    case (Cons c s)
    then obtain d t' where t: "t = d # t'"
      by (cases t) (auto simp: utf8_bytes_def utf8_char_def Let_def split: if_splits)
    with Cons.prems utf8_char_prefix [of c "utf8_bytes s" d "utf8_bytes t'"] Cons.IH show ?case
      by (simp add: utf8_bytes_def)
  qed
qed simp

lemma by_name_unique:
  assumes "distinct (map (\<lambda>p. key_text (fst p)) items)" and "distinct (map (\<lambda>p. key_text (fst p)) items')"
    and "set items = set items'"
  shows "by_name items = by_name items'"
proof -
  let ?f = "\<lambda>p. utf16_units (key_text (fst p))"
  have "distinct (map ?f (by_name xs))" if "distinct (map (\<lambda>p. key_text (fst p)) xs)"
    for xs :: "(dict_key \<times> 'a) list"
    using that by (simp add: distinct_map by_name_def inj_on_def)
  moreover have "sorted (map ?f (by_name xs))" for xs :: "(dict_key \<times> 'a) list"
    by (simp add: by_name_def)
  moreover have "inj_on ?f (set items)" using assms(1) by (simp add: distinct_map inj_on_def)
  ultimately show ?thesis
    using assms by (intro map_sorted_distinct_set_unique [of ?f]) simp_all
qed

text \<open>
  The encoder is fail-closed: it returns a text exactly for the JSON-safe payloads, and raises
  a \<open>CanonicalizationError\<close> for every other one; every fingerprint it leads to has the form
  \<open>sha256:\<close> and 64 lowercase hexadecimal digits.
\<close>

theorem canonical_json_total:
  "(is_ok (strict_canonical_json v) \<longleftrightarrow> json_safe v) \<and>
   (if json_safe v
    then (case strict_sha256_fingerprint v of Inl e \<Rightarrow> False | Inr fp \<Rightarrow> fingerprint_ok fp)
    else (\<exists>m p c. strict_sha256_fingerprint v = Inl (CanonicalizationError m p c)))"
proof (cases "json_safe v")
  case True
  then show ?thesis
    by (simp add: fingerprint_defs canonical_json_text fingerprint_shape [simplified])
next
  case False
  then obtain e where "validate_json_safe v ''$'' = Inl e"
    by (cases "validate_json_safe v ''$''") (auto simp: validate_json_safe_iff)
  with False show ?thesis
    by (cases e) (simp add: fingerprint_defs strict_canonical_json_def)
qed

text \<open>
  Canonical texts are exact: two JSON-safe payloads without floats have the same canonical text
  if and only if they are the same payload once the members of their dicts are put in the
  canonical order of their names.
\<close>

theorem canonical_json_exact:
  assumes "json_safe v" "float_free v" "json_safe w" "float_free w"
  shows "strict_canonical_json v = strict_canonical_json w \<longleftrightarrow> normal v = normal w"
proof -
  have "exact v" "exact w" using assms by (simp_all add: exact_iff)
  then have "plain_text (normal v) = plain_text (normal w) \<longleftrightarrow> normal v = normal w"
    using text_prefix [of "normal v" "normal w" "[]" "[]"] exact_normal by (auto simp: delim_def)
  then show ?thesis using assms by (simp add: canonical_json_text encode_normal)
qed

text \<open>
  Fingerprints ignore the order of dict members: two JSON-safe dicts with the same members, in
  whatever order, have the same fingerprint.
\<close>

theorem fingerprint_order_independent:
  assumes "distinct (map fst items)" and "distinct (map fst items')" and "set items = set items'"
    and "json_safe (VDict items)"
  shows "strict_sha256_fingerprint (VDict items) = strict_sha256_fingerprint (VDict items')"
proof -
  have safe: "json_safe (VDict items')" using assms(3,4) by (auto simp: list_all_iff)
  have "distinct (map (\<lambda>p. key_text (fst p)) xs)" if "distinct (map fst xs)" "json_safe (VDict xs)"
    for xs :: "(dict_key \<times> jv) list"
  proof -
    have "\<exists>s. k = KStr s" if "k \<in> set (map fst xs)" for k
      using that \<open>json_safe (VDict xs)\<close> by (auto simp: list_all_iff)
    then have "inj_on key_text (set (map fst xs))" by (metis inj_onI key_text.simps(1))
    with that(1) show ?thesis using distinct_map [of key_text "map fst xs"] by (simp add: comp_def)
  qed
  then have "by_name items = by_name items'" using assms safe by (intro by_name_unique) auto
  then have "normal (VDict items) = normal (VDict items')"
    by (simp add: by_name_map case_prod_unfold)
  then show ?thesis using assms(4) safe
    by (simp add: fingerprint_defs canonical_json_text encode_normal del: json_safe.simps)
qed


section \<open>Payloads of the models\<close>

fun vopt :: "('a \<Rightarrow> jv) \<Rightarrow> 'a option \<Rightarrow> jv" where
  "vopt f None = VNull"
| "vopt f (Some x) = f x"

abbreviation vdict :: "(string \<times> jv) list \<Rightarrow> jv" where
  "vdict ms \<equiv> VDict (map (\<lambda>(k, v). (KStr k, v)) ms)"

lemma json_safe_vopt [simp]: "(\<And>x. json_safe (f x)) \<Longrightarrow> json_safe (vopt f y)"
  by (cases y) simp_all

lemma float_free_vopt [simp]: "(\<And>x. float_free (f x)) \<Longrightarrow> float_free (vopt f y)"
  by (cases y) simp_all

lemma normal_vopt_VStr [simp]: "normal (vopt VStr x) = vopt VStr x"
  by (cases x) simp_all

lemma normal_member_eq:
  assumes "normal (vdict ms) = normal (vdict ms')" and "dict_ok ms'"
    and "(k, v) \<in> set ms" and "(k, v') \<in> set ms'"
  shows "normal v = normal v'"
proof -
  have "set (map (\<lambda>(k, v). (KStr k, normal v)) ms) = set (map (\<lambda>(k, v). (KStr k, normal v)) ms')"
    using assms(1) set_by_name by (simp add: case_prod_unfold comp_def) (metis (no_types, lifting) set_by_name set_map)
  moreover have "(KStr k, normal v) \<in> set (map (\<lambda>(k, v). (KStr k, normal v)) ms)" using assms(3) by force
  ultimately obtain w where "(k, w) \<in> set ms'" "normal v = normal w" by auto
  with assms(2,4) show ?thesis by (metis map_of_eq_Some_iff option.inject)
qed

text \<open>The member of a dict under a name, which the canonical order keeps.\<close>

definition vmember :: "string \<Rightarrow> jv \<Rightarrow> jv option" where
  "vmember k v = (case v of VDict items \<Rightarrow> map_of items (KStr k) | _ \<Rightarrow> None)"

lemma vmember_normal:
  assumes "dict_ok ms"
  shows "vmember k (normal (vdict ms)) = map_option normal (map_of ms k)"
proof -
  let ?items = "map (\<lambda>(k, v). (KStr k, normal v)) ms"
  have keys: "distinct (map fst ?items)"
    using assms by (auto simp: distinct_map inj_on_def case_prod_unfold)
  then have "distinct (map fst (by_name ?items))"
    using distinct_map [of fst ?items] distinct_map [of fst "by_name ?items"]
    unfolding by_name_def set_sort distinct_sort by blast
  then have "map_of (by_name ?items) = map_of ?items"
    using map_of_inject_set [OF _ keys] set_by_name by blast
  moreover have "map_of ?items (KStr k) = map_option normal (map_of ms k)"
    by (induction ms) auto
  ultimately show ?thesis by (simp add: vmember_def case_prod_unfold comp_def)
qed

lemma normal_vdict_eq:
  assumes "normal (vdict ms) = normal (vdict ms')" "dict_ok ms" "dict_ok ms'"
  shows "map_option normal (map_of ms k) = map_option normal (map_of ms' k)"
  using vmember_normal [of ms k] vmember_normal [of ms' k] assms by simp

section \<open>Concrete payloads\<close>

definition sample_payload :: jv where
  "sample_payload = VDict [(KStr ''session_id'', VStr ''s-1''), (KStr ''adapter_id'', VNull)]"

definition sample_payload' :: jv where
  "sample_payload' = VDict [(KStr ''adapter_id'', VNull), (KStr ''session_id'', VStr ''s-1'')]"

lemmas sample_payload_defs = sample_payload_def sample_payload'_def

lemma sample_payload_normal: "normal sample_payload = sample_payload'" "normal sample_payload' = sample_payload'"
  by (simp_all add: sample_payload_defs by_name_def utf16_units_def)

theorem canonical_json_exact_witness:
  "strict_canonical_json sample_payload = strict_canonical_json sample_payload' \<and>
   strict_canonical_json sample_payload \<noteq> strict_canonical_json VNull"
  using canonical_json_exact [of sample_payload sample_payload'] canonical_json_exact [of sample_payload VNull]
    sample_payload_normal
  by (simp add: sample_payload_defs)

theorem fingerprint_order_independent_witness:
  "strict_sha256_fingerprint sample_payload = strict_sha256_fingerprint sample_payload'"
  unfolding sample_payload_defs
  by (rule fingerprint_order_independent) (auto simp: utf16_units_def)


end
