(* ===== verification/Query_Expr.thy ===== *)
theory Query_Expr
  imports Canonical_Json
begin

text \<open>
  The bounded expression algebra of the canonical query IR:
  \<^verbatim>\<open>src/nl2data_core/planning/ir/expressions.py\<close>.

  An expression is a tree of the closed union \<open>IRExpression\<close>; the constructor functions \<open>new_...\<close> run
  the validators of the pydantic models, and \<open>constructible\<close> is what they can build.  A member typed
  \<open>Literal[...]\<close> is a string its constructor checks; a tuple of scalars is a \<open>VList\<close>.  The value of a
  predicate is optional because pydantic does not validate a default: \<open>None\<close> is an omitted value.
  Enum members are left out of the scalar values.

  The theory shows that every constructible tree keeps the bounds of the grammar at every node, and
  that the canonical payload determines the expression.
\<close>

section \<open>Scalars\<close>

definition MAX_EXPRESSION_DEPTH :: int where "MAX_EXPRESSION_DEPTH = 6"
definition MAX_EXPRESSION_NODES :: int where "MAX_EXPRESSION_NODES = 24"
definition EXPRESSION_CAPABILITY :: string where "EXPRESSION_CAPABILITY = ''computed_expressions''"
definition PRIOR_PERIOD_CAPABILITY :: string where "PRIOR_PERIOD_CAPABILITY = ''prior_period''"

fun is_scalar :: "jv \<Rightarrow> bool" where
  "is_scalar VNull = True"
| "is_scalar (VBool b) = True"
| "is_scalar (VInt i) = True"
| "is_scalar (VFloat r) = True"
| "is_scalar (VStr s) = True"
| "is_scalar _ = False"

text \<open>\<open>_check_scalar\<close>: a scalar, and finite if it is a float.\<close>

definition scalar_ok :: "jv \<Rightarrow> bool" where
  "scalar_ok v \<longleftrightarrow> is_scalar v \<and> (case v of VFloat r \<Rightarrow> finite_repr r | _ \<Rightarrow> True)"

fun literal_short :: "jv \<Rightarrow> bool" where
  "literal_short (VStr s) = (length s \<le> 256)"
| "literal_short _ = True"

section \<open>Expressions\<close>

record IRPredicateExpr =
  pred_op :: string
  pred_operand :: string
  pred_value :: jv

datatype IRExpression =
    IRFieldExpr string
  | IRLiteralExpr jv
  | IRPredicate IRPredicateExpr
  | IRBinaryExpr string IRExpression IRExpression string
  | IRRoundExpr IRExpression int
  | IRCoalesceExpr "IRExpression list"
  | IRNullIfExpr IRExpression IRExpression
  | IRCaseExpr "(IRPredicateExpr \<times> IRExpression) list" "IRExpression option"
  | IRDateTruncExpr string string
  | IRAggregateExpr string string "IRPredicateExpr option"
  | IRPriorPeriodExpr string string string "IRPredicateExpr option"

text \<open>Python's \<open>max\<close> of a non-empty collection of positive numbers.\<close>

definition max_of :: "int list \<Rightarrow> int" where
  "max_of ns = fold max ns 0"

primrec expression_depth :: "IRExpression \<Rightarrow> int" where
  "expression_depth (IRFieldExpr f) = 1"
| "expression_depth (IRLiteralExpr v) = 1"
| "expression_depth (IRPredicate p) = 1"
| "expression_depth (IRBinaryExpr op l r z) = 1 + max (expression_depth l) (expression_depth r)"
| "expression_depth (IRRoundExpr e n) = 1 + expression_depth e"
| "expression_depth (IRCoalesceExpr es) = 1 + max_of (map expression_depth es)"
| "expression_depth (IRNullIfExpr l r) = 1 + max (expression_depth l) (expression_depth r)"
| "expression_depth (IRCaseExpr whens dflt) =
     (let depth = fold (\<lambda>w d. max d (1 + snd w)) (map (map_prod id expression_depth) whens) 1
      in case map_option expression_depth dflt of None \<Rightarrow> depth | Some n \<Rightarrow> max depth (1 + n))"
| "expression_depth (IRDateTruncExpr b f) = 2"
| "expression_depth (IRAggregateExpr fn f p) = 2"
| "expression_depth (IRPriorPeriodExpr a b f p) = 2"

primrec expression_node_count :: "IRExpression \<Rightarrow> int" where
  "expression_node_count (IRFieldExpr f) = 1"
| "expression_node_count (IRLiteralExpr v) = 1"
| "expression_node_count (IRPredicate p) = 1"
| "expression_node_count (IRBinaryExpr op l r z) = 1 + expression_node_count l + expression_node_count r"
| "expression_node_count (IRRoundExpr e n) = 1 + expression_node_count e"
| "expression_node_count (IRCoalesceExpr es) = 1 + sum_list (map expression_node_count es)"
| "expression_node_count (IRNullIfExpr l r) = 1 + expression_node_count l + expression_node_count r"
| "expression_node_count (IRCaseExpr whens dflt) =
     (let count = 1 + sum_list (map (\<lambda>w. 1 + snd w) (map (map_prod id expression_node_count) whens))
      in case map_option expression_node_count dflt of None \<Rightarrow> count | Some n \<Rightarrow> count + 1 + n)"
| "expression_node_count (IRDateTruncExpr b f) = 2"
| "expression_node_count (IRAggregateExpr fn f p) = 2 + (if p \<noteq> None then 1 else 0)"
| "expression_node_count (IRPriorPeriodExpr a b f p) = 2 + (if p \<noteq> None then 1 else 0)"

definition check_bounds :: "IRExpression \<Rightarrow> bool" where
  "check_bounds e \<longleftrightarrow>
     \<not> (expression_depth e > MAX_EXPRESSION_DEPTH \<or> expression_node_count e > MAX_EXPRESSION_NODES)"

primrec iter_nodes :: "IRExpression \<Rightarrow> IRExpression list" where
  "iter_nodes (IRFieldExpr f) = [IRFieldExpr f]"
| "iter_nodes (IRLiteralExpr v) = [IRLiteralExpr v]"
| "iter_nodes (IRPredicate p) = [IRPredicate p]"
| "iter_nodes (IRBinaryExpr op l r z) = IRBinaryExpr op l r z # iter_nodes l @ iter_nodes r"
| "iter_nodes (IRRoundExpr e n) = IRRoundExpr e n # iter_nodes e"
| "iter_nodes (IRCoalesceExpr es) = IRCoalesceExpr es # concat (map iter_nodes es)"
| "iter_nodes (IRNullIfExpr l r) = IRNullIfExpr l r # iter_nodes l @ iter_nodes r"
| "iter_nodes (IRCaseExpr whens dflt) =
     IRCaseExpr whens dflt # concat (map snd (map (map_prod id iter_nodes) whens)) @
       (case map_option iter_nodes dflt of None \<Rightarrow> [] | Some ns \<Rightarrow> ns)"
| "iter_nodes (IRDateTruncExpr b f) = [IRDateTruncExpr b f]"
| "iter_nodes (IRAggregateExpr fn f p) = [IRAggregateExpr fn f p]"
| "iter_nodes (IRPriorPeriodExpr a b f p) = [IRPriorPeriodExpr a b f p]"

definition filter_field :: "IRPredicateExpr option \<Rightarrow> string fset" where
  "filter_field p = (case p of None \<Rightarrow> {||} | Some q \<Rightarrow> {|pred_operand q|})"

primrec expression_field_ids :: "IRExpression \<Rightarrow> string fset" where
  "expression_field_ids (IRFieldExpr f) = {|f|}"
| "expression_field_ids (IRLiteralExpr v) = {||}"
| "expression_field_ids (IRPredicate p) = {|pred_operand p|}"
| "expression_field_ids (IRBinaryExpr op l r z) = expression_field_ids l |\<union>| expression_field_ids r"
| "expression_field_ids (IRRoundExpr e n) = expression_field_ids e"
| "expression_field_ids (IRCoalesceExpr es) = fold (|\<union>|) (map expression_field_ids es) {||}"
| "expression_field_ids (IRNullIfExpr l r) = expression_field_ids l |\<union>| expression_field_ids r"
| "expression_field_ids (IRCaseExpr whens dflt) =
     (let ids = fold (\<lambda>w s. finsert (pred_operand (fst w)) s |\<union>| snd w) (map (map_prod id expression_field_ids) whens) {||}
      in case map_option expression_field_ids dflt of None \<Rightarrow> ids | Some s \<Rightarrow> ids |\<union>| s)"
| "expression_field_ids (IRDateTruncExpr b f) = {|f|}"
| "expression_field_ids (IRAggregateExpr fn f p) = finsert f (filter_field p)"
| "expression_field_ids (IRPriorPeriodExpr a b f p) = finsert f (filter_field p)"

primrec expression_has_aggregates :: "IRExpression \<Rightarrow> bool" where
  "expression_has_aggregates (IRFieldExpr f) = False"
| "expression_has_aggregates (IRLiteralExpr v) = False"
| "expression_has_aggregates (IRPredicate p) = False"
| "expression_has_aggregates (IRBinaryExpr op l r z) = (expression_has_aggregates l \<or> expression_has_aggregates r)"
| "expression_has_aggregates (IRRoundExpr e n) = expression_has_aggregates e"
| "expression_has_aggregates (IRCoalesceExpr es) = list_ex id (map expression_has_aggregates es)"
| "expression_has_aggregates (IRNullIfExpr l r) = (expression_has_aggregates l \<or> expression_has_aggregates r)"
| "expression_has_aggregates (IRCaseExpr whens dflt) =
     (list_ex snd (map (map_prod id expression_has_aggregates) whens) \<or>
      (case map_option expression_has_aggregates dflt of None \<Rightarrow> False | Some b \<Rightarrow> b))"
| "expression_has_aggregates (IRDateTruncExpr b f) = False"
| "expression_has_aggregates (IRAggregateExpr fn f p) = True"
| "expression_has_aggregates (IRPriorPeriodExpr a b f p) = False"

fun is_prior_period :: "IRExpression \<Rightarrow> bool" where
  "is_prior_period (IRPriorPeriodExpr a b f p) = True"
| "is_prior_period _ = False"

fun is_aggregate :: "IRExpression \<Rightarrow> bool" where
  "is_aggregate (IRAggregateExpr fn f p) = True"
| "is_aggregate _ = False"

definition iter_prior_period_nodes :: "IRExpression \<Rightarrow> IRExpression list" where
  "iter_prior_period_nodes e = filter is_prior_period (iter_nodes e)"

definition iter_aggregate_nodes :: "IRExpression \<Rightarrow> IRExpression list" where
  "iter_aggregate_nodes e = filter is_aggregate (iter_nodes e)"

definition expression_required_capabilities :: "IRExpression \<Rightarrow> string fset" where
  "expression_required_capabilities e =
     (if list_ex is_prior_period (iter_nodes e) then {|EXPRESSION_CAPABILITY, PRIOR_PERIOD_CAPABILITY|}
      else {|EXPRESSION_CAPABILITY|})"

section \<open>Construction\<close>

definition new_IRFieldExpr :: "string \<Rightarrow> IRExpression res" where
  "new_IRFieldExpr f = (if identifier_ok f then Inr (IRFieldExpr f) else Inl ValidationError)"

definition new_IRLiteralExpr :: "jv option \<Rightarrow> IRExpression res" where
  "new_IRLiteralExpr v =
     (case v of
        None \<Rightarrow> Inr (IRLiteralExpr VNull)
      | Some x \<Rightarrow> if scalar_ok x \<and> literal_short x then Inr (IRLiteralExpr x) else Inl ValidationError)"

text \<open>The value validator of a predicate; a list is stored as a tuple.\<close>

definition predicate_value_ok :: "string \<Rightarrow> jv \<Rightarrow> bool" where
  "predicate_value_ok op v =
     (if op \<in> set [''is_null'', ''is_not_null''] then v = VNull
      else if op = ''in'' then
        (case v of VList xs \<Rightarrow> xs \<noteq> [] \<and> list_all scalar_ok xs \<and> length xs \<le> 16 | _ \<Rightarrow> False)
      else scalar_ok v)"

definition new_IRPredicateExpr :: "string \<Rightarrow> string \<Rightarrow> jv option \<Rightarrow> IRPredicateExpr res" where
  "new_IRPredicateExpr op operand v =
     (if op \<notin> set [''eq'', ''ne'', ''gt'', ''gte'', ''lt'', ''lte'', ''in'', ''is_null'', ''is_not_null''] \<or>
         \<not> identifier_ok operand \<or> \<not> opt_all (predicate_value_ok op) v
      then Inl ValidationError
      else Inr \<lparr>pred_op = op, pred_operand = operand, pred_value = (case v of None \<Rightarrow> VNull | Some x \<Rightarrow> x)\<rparr>)"

definition bounded :: "IRExpression \<Rightarrow> IRExpression res" where
  "bounded e = (if check_bounds e then Inr e else Inl ValidationError)"

definition new_IRBinaryExpr :: "string \<Rightarrow> IRExpression \<Rightarrow> IRExpression \<Rightarrow> string \<Rightarrow> IRExpression res" where
  "new_IRBinaryExpr op l r policy =
     (if op \<notin> set [''add'', ''sub'', ''mul'', ''div''] \<or> policy \<notin> set [''null'', ''error''] \<or>
         (op \<noteq> ''div'' \<and> policy \<noteq> ''error'')
      then Inl ValidationError else bounded (IRBinaryExpr op l r policy))"

definition new_IRRoundExpr :: "IRExpression \<Rightarrow> int \<Rightarrow> IRExpression res" where
  "new_IRRoundExpr e scale = (if scale < 0 \<or> 6 < scale then Inl ValidationError else bounded (IRRoundExpr e scale))"

definition new_IRCoalesceExpr :: "IRExpression list \<Rightarrow> IRExpression res" where
  "new_IRCoalesceExpr es =
     (if es = [] \<or> 4 < length es then Inl ValidationError else bounded (IRCoalesceExpr es))"

definition new_IRNullIfExpr :: "IRExpression \<Rightarrow> IRExpression \<Rightarrow> IRExpression res" where
  "new_IRNullIfExpr l r = bounded (IRNullIfExpr l r)"

definition new_IRCaseExpr :: "(IRPredicateExpr \<times> IRExpression) list \<Rightarrow> IRExpression option \<Rightarrow> IRExpression res" where
  "new_IRCaseExpr whens dflt =
     (if whens = [] \<or> 8 < length whens then Inl ValidationError else bounded (IRCaseExpr whens dflt))"

definition new_IRDateTruncExpr :: "string \<Rightarrow> string \<Rightarrow> IRExpression res" where
  "new_IRDateTruncExpr bucket operand =
     (if bucket \<notin> set [''day'', ''week'', ''month''] \<or> \<not> identifier_ok operand then Inl ValidationError
      else Inr (IRDateTruncExpr bucket operand))"

definition new_IRAggregateExpr :: "string \<Rightarrow> string \<Rightarrow> IRPredicateExpr option \<Rightarrow> IRExpression res" where
  "new_IRAggregateExpr func operand p =
     (if func \<notin> set [''count'', ''count_distinct'', ''sum'', ''avg'', ''min'', ''max''] \<or> \<not> identifier_ok operand
      then Inl ValidationError else Inr (IRAggregateExpr func operand p))"

definition new_IRPriorPeriodExpr :: "string \<Rightarrow> string \<Rightarrow> string \<Rightarrow> IRPredicateExpr option \<Rightarrow> IRExpression res" where
  "new_IRPriorPeriodExpr aggregate bucket operand p =
     (if aggregate \<notin> set [''count'', ''sum''] \<or> bucket \<notin> set [''week'', ''month''] \<or> \<not> identifier_ok operand
      then Inl ValidationError else Inr (IRPriorPeriodExpr aggregate bucket operand p))"

definition predicate_built :: "IRPredicateExpr \<Rightarrow> bool" where
  "predicate_built p \<longleftrightarrow>
     new_IRPredicateExpr (pred_op p) (pred_operand p) (Some (pred_value p)) = Inr p \<or>
     new_IRPredicateExpr (pred_op p) (pred_operand p) None = Inr p"

inductive constructible :: "IRExpression \<Rightarrow> bool" where
  c_field: "new_IRFieldExpr f = Inr e \<Longrightarrow> constructible e"
| c_literal: "new_IRLiteralExpr v = Inr e \<Longrightarrow> constructible e"
| c_predicate: "predicate_built p \<Longrightarrow> constructible (IRPredicate p)"
| c_binary: "constructible l \<Longrightarrow> constructible r \<Longrightarrow> new_IRBinaryExpr op l r z = Inr e \<Longrightarrow> constructible e"
| c_round: "constructible x \<Longrightarrow> new_IRRoundExpr x n = Inr e \<Longrightarrow> constructible e"
| c_coalesce: "(\<And>x. x \<in> set xs \<Longrightarrow> constructible x) \<Longrightarrow> new_IRCoalesceExpr xs = Inr e \<Longrightarrow> constructible e"
| c_nullif: "constructible l \<Longrightarrow> constructible r \<Longrightarrow> new_IRNullIfExpr l r = Inr e \<Longrightarrow> constructible e"
| c_case: "(\<And>p x. (p, x) \<in> set ws \<Longrightarrow> predicate_built p \<and> constructible x) \<Longrightarrow>
    (\<And>x. d = Some x \<Longrightarrow> constructible x) \<Longrightarrow> new_IRCaseExpr ws d = Inr e \<Longrightarrow> constructible e"
| c_trunc: "new_IRDateTruncExpr b f = Inr e \<Longrightarrow> constructible e"
| c_aggregate: "opt_all predicate_built p \<Longrightarrow> new_IRAggregateExpr fn f p = Inr e \<Longrightarrow> constructible e"
| c_prior: "opt_all predicate_built p \<Longrightarrow> new_IRPriorPeriodExpr a b f p = Inr e \<Longrightarrow> constructible e"

section \<open>Canonical payload\<close>

definition field_payload :: "string \<Rightarrow> jv" where
  "field_payload f = vdict [(''kind'', VStr ''field''), (''field_id'', VStr f)]"

definition predicate_payload :: "IRPredicateExpr \<Rightarrow> jv" where
  "predicate_payload p = vdict
     [(''kind'', VStr ''predicate''), (''op'', VStr (pred_op p)), (''operand'', field_payload (pred_operand p)),
      (''value'', pred_value p)]"

definition filter_member :: "IRPredicateExpr option \<Rightarrow> (string \<times> jv) list" where
  "filter_member p = (case p of None \<Rightarrow> [] | Some q \<Rightarrow> [(''filter'', predicate_payload q)])"

primrec expression_payload :: "IRExpression \<Rightarrow> jv" where
  "expression_payload (IRFieldExpr f) = field_payload f"
| "expression_payload (IRLiteralExpr v) = vdict [(''kind'', VStr ''literal''), (''value'', v)]"
| "expression_payload (IRPredicate p) = predicate_payload p"
| "expression_payload (IRBinaryExpr op l r z) = vdict
     [(''kind'', VStr ''binary''), (''op'', VStr op), (''left'', expression_payload l), (''right'', expression_payload r),
      (''zero_division_policy'', VStr z)]"
| "expression_payload (IRRoundExpr e n) = vdict
     [(''kind'', VStr ''round''), (''operand'', expression_payload e), (''scale'', VInt n)]"
| "expression_payload (IRCoalesceExpr es) = vdict
     [(''kind'', VStr ''coalesce''), (''operands'', VList (map expression_payload es))]"
| "expression_payload (IRNullIfExpr l r) = vdict
     [(''kind'', VStr ''nullif''), (''left'', expression_payload l), (''right'', expression_payload r)]"
| "expression_payload (IRCaseExpr whens dflt) = vdict
     ([(''kind'', VStr ''case''),
       (''whens'', VList (map (\<lambda>w. vdict [(''condition'', predicate_payload (fst w)), (''result'', snd w)])
                          (map (map_prod id expression_payload) whens)))] @
      (case map_option expression_payload dflt of None \<Rightarrow> [] | Some d \<Rightarrow> [(''default'', d)]))"
| "expression_payload (IRDateTruncExpr b f) = vdict
     [(''kind'', VStr ''date_trunc''), (''bucket'', VStr b), (''operand'', field_payload f)]"
| "expression_payload (IRAggregateExpr fn f p) = vdict
     ([(''kind'', VStr ''aggregate''), (''func'', VStr fn), (''operand'', field_payload f)] @ filter_member p)"
| "expression_payload (IRPriorPeriodExpr a b f p) = vdict
     ([(''kind'', VStr ''prior_period''), (''aggregate'', VStr a), (''bucket'', VStr b), (''operand'', field_payload f)] @
      filter_member p)"

section \<open>Equality of payloads\<close>

text \<open>
  The number a Python float stands for, from its \<open>repr\<close>: the decimal of the text, rounded to the
  53 bits of a double when it is larger than those hold exactly.
\<close>

fun bit_length :: "nat \<Rightarrow> nat" where
  "bit_length n = (if n = 0 then 0 else Suc (bit_length (n div 2)))"

declare bit_length.simps [simp del]

definition decimal_value :: "string \<Rightarrow> rat" where
  "decimal_value r =
     (let negative = (take 1 r = ''-'');
          text = (if negative then drop 1 r else r);
          (mantissa, exponent) =
            (if CHR ''e'' \<in> set text
             then (case partition_at CHR ''e'' text of (m, e) \<Rightarrow> (m, int_of_text e)) else (text, 0));
          (integer_part, fraction_part) = partition_at CHR ''.'' mantissa;
          point = exponent - int (length fraction_part);
          digits = of_nat (nat_of_digits (integer_part @ fraction_part));
          v = (if 0 \<le> point then digits * 10 ^ nat point else digits / 10 ^ nat (- point))
      in if negative then - v else v)"

definition round_half_even :: "rat \<Rightarrow> int" where
  "round_half_even x =
     (let f = \<lfloor>x\<rfloor>; d = x - of_int f
      in if d < 1 / 2 then f else if d > 1 / 2 then f + 1 else if even f then f else f + 1)"

definition float_value :: "string \<Rightarrow> rat" where
  "float_value r =
     (let v = decimal_value r; n = bit_length (nat \<lfloor>\<bar>v\<bar>\<rfloor>)
      in if n \<le> 53 then v else of_int (round_half_even (v / 2 ^ (n - 53))) * 2 ^ (n - 53))"

fun numeric :: "jv \<Rightarrow> rat option" where
  "numeric (VBool b) = Some (if b then 1 else 0)"
| "numeric (VInt i) = Some (of_int i)"
| "numeric (VFloat r) = Some (float_value r)"
| "numeric _ = None"

text \<open>\<open>==\<close> of Python on payloads: numbers of all types compare by value, dicts by their items.\<close>

fun py_eq :: "jv \<Rightarrow> jv \<Rightarrow> bool"
and py_eq_list :: "jv list \<Rightarrow> jv list \<Rightarrow> bool"
and py_eq_items :: "(dict_key \<times> jv) list \<Rightarrow> (dict_key \<times> jv) list \<Rightarrow> bool" where
  "py_eq VNull w = (w = VNull)"
| "py_eq (VBool b) w = (numeric w = Some (if b then 1 else 0))"
| "py_eq (VInt i) w = (numeric w = Some (of_int i))"
| "py_eq (VFloat r) w = (numeric w = Some (float_value r))"
| "py_eq (VStr s) w = (w = VStr s)"
| "py_eq (VList xs) w = (case w of VList ys \<Rightarrow> py_eq_list xs ys | _ \<Rightarrow> False)"
| "py_eq (VDict xs) w = (case w of VDict ys \<Rightarrow> length xs = length ys \<and> py_eq_items xs ys | _ \<Rightarrow> False)"
| "py_eq (VEnum c) w = False"
| "py_eq (VOther c) w = False"
| "py_eq_list [] ys = (ys = [])"
| "py_eq_list (x # xs) ys = (case ys of [] \<Rightarrow> False | y # ys' \<Rightarrow> py_eq x y \<and> py_eq_list xs ys')"
| "py_eq_items [] ys = True"
| "py_eq_items ((k, v) # xs) ys =
     ((case map_of ys k of None \<Rightarrow> False | Some w \<Rightarrow> py_eq v w) \<and> py_eq_items xs ys)"

definition expressions_equal :: "IRExpression \<Rightarrow> IRExpression \<Rightarrow> bool" where
  "expressions_equal l r = py_eq (expression_payload l) (expression_payload r)"

section \<open>Traversals\<close>

lemma fold_max_ge: "(m :: int) \<le> fold (\<lambda>w d. max d (f w)) ws m \<and> (w \<in> set ws \<longrightarrow> f w \<le> fold (\<lambda>w d. max d (f w)) ws m)"
proof (induction ws arbitrary: m)
  case (Cons x ws)
  show ?case using Cons.IH [of "max m (f x)"] by auto
qed simp

lemma max_of_bounds: "0 \<le> max_of ns" "n \<in> set ns \<Longrightarrow> n \<le> max_of ns"
proof -
  have "max_of ns = fold (\<lambda>n d. max d n) ns 0" by (simp add: max_of_def max.commute fun_eq_iff cong: fold_cong)
  then show "0 \<le> max_of ns" "n \<in> set ns \<Longrightarrow> n \<le> max_of ns"
    using fold_max_ge [of 0 "\<lambda>n. n" ns n] by auto
qed

lemma int_sum_list: "int (sum_list xs) = sum_list (map int xs)"
  by (induction xs) auto

lemma fold_union: "x |\<in>| fold (|\<union>|) ss s \<longleftrightarrow> x |\<in>| s \<or> (\<exists>t \<in> set ss. x |\<in>| t)"
  by (induction ss arbitrary: s) auto

lemma fold_case_fields:
  "x |\<in>| fold (\<lambda>w s. finsert (pred_operand (fst w)) (s |\<union>| snd w)) ws s \<longleftrightarrow>
     x |\<in>| s \<or> (\<exists>w \<in> set ws. x = pred_operand (fst w) \<or> x |\<in>| snd w)"
  by (induction ws arbitrary: s) auto

lemma depth_positive: "1 \<le> expression_depth e"
proof (induction e)
  case (IRCaseExpr ws d)
  have "m \<le> fold (\<lambda>w d. max d (1 + snd w)) ws m" for m and ws :: "(IRPredicateExpr \<times> int) list"
    using fold_max_ge [of m "\<lambda>w. 1 + snd w" ws] by blast
  then show ?case by (auto simp: Let_def le_max_iff_disj split: option.splits)
next
  case (IRCoalesceExpr es)
  then show ?case using max_of_bounds(1) [of "map expression_depth es"] by simp
qed (simp_all add: max_def)

lemma sum_list_mono_int: "(\<And>x. x \<in> set xs \<Longrightarrow> f x \<le> (g x :: int)) \<Longrightarrow> sum_list (map f xs) \<le> sum_list (map g xs)"
  by (induction xs) (auto intro: add_mono)

lemma snd_in_snds [simp]: "snd w \<in> Basic_BNFs.snds w"
  by (cases w) (simp add: prod_set_simps)

lemma nodes_le_count: "int (length (iter_nodes e)) \<le> expression_node_count e"
proof (induction e)
  case (IRCoalesceExpr es)
  then have "sum_list (map (\<lambda>x. int (length (iter_nodes x))) es) \<le> sum_list (map expression_node_count es)"
    by (intro sum_list_mono_int) simp
  then show ?case by (simp add: length_concat comp_def int_sum_list)
next
  case (IRCaseExpr ws d)
  have "sum_list (map (\<lambda>w. int (length (iter_nodes (snd w)))) ws) \<le>
      sum_list (map (\<lambda>w. 1 + expression_node_count (snd w)) ws)"
  proof (rule sum_list_mono_int)
    fix w assume "w \<in> set ws"
    then have "int (length (iter_nodes (snd w))) \<le> expression_node_count (snd w)"
      by (rule IRCaseExpr.IH(1) [OF _ snd_in_snds])
    then show "int (length (iter_nodes (snd w))) \<le> 1 + expression_node_count (snd w)" by simp
  qed
  moreover have "int (length (iter_nodes x)) \<le> expression_node_count x" if "d = Some x" for x
    using IRCaseExpr.IH(2) [of x] that by simp
  ultimately show ?case
    by (cases d) (fastforce simp: Let_def length_concat comp_def map_prod_def case_prod_unfold int_sum_list)+
qed auto


lemma has_aggregates_iff: "expression_has_aggregates e \<longleftrightarrow> iter_aggregate_nodes e \<noteq> []"
proof (induction e)
  case (IRCaseExpr ws d)
  have "expression_has_aggregates (snd w) \<longleftrightarrow> iter_aggregate_nodes (snd w) \<noteq> []" if "w \<in> set ws" for w
    by (rule IRCaseExpr.IH(1) [OF that snd_in_snds])
  moreover have "expression_has_aggregates x \<longleftrightarrow> iter_aggregate_nodes x \<noteq> []" if "d = Some x" for x
    using IRCaseExpr.IH(2) [of x] that by simp
  ultimately show ?case
    by (cases d) (auto simp: iter_aggregate_nodes_def list_ex_iff filter_empty_conv map_prod_def case_prod_unfold)
qed (auto simp: iter_aggregate_nodes_def list_ex_iff filter_empty_conv)

lemma node_itself: "e \<in> set (iter_nodes e)"
  by (cases e) auto

section \<open>The grammar is bounded\<close>

lemmas constructor_defs = new_IRFieldExpr_def new_IRLiteralExpr_def new_IRBinaryExpr_def new_IRRoundExpr_def
  new_IRCoalesceExpr_def new_IRNullIfExpr_def new_IRCaseExpr_def new_IRDateTruncExpr_def new_IRAggregateExpr_def
  new_IRPriorPeriodExpr_def bounded_def

lemma leaf_bounds:
  "expression_depth e \<le> 2 \<Longrightarrow> expression_node_count e \<le> 3 \<Longrightarrow> check_bounds e"
  by (simp add: check_bounds_def MAX_EXPRESSION_DEPTH_def MAX_EXPRESSION_NODES_def)

lemma constructible_bounds: "constructible e \<Longrightarrow> check_bounds e"
  by (induction rule: constructible.induct)
     (auto simp: constructor_defs leaf_bounds split: if_splits option.splits)

text \<open>Every node of a constructible tree was itself built by a constructor.\<close>

lemma constructible_nodes: "constructible e \<Longrightarrow> n \<in> set (iter_nodes e) \<Longrightarrow> constructible n"
proof (induction arbitrary: n rule: constructible.induct)
  case (c_case ws d e)
  have "constructible e" by (rule constructible.c_case [of ws d]) (use c_case in blast)+
  moreover have e: "e = IRCaseExpr ws d" using c_case.hyps by (auto simp: constructor_defs split: if_splits)
  ultimately show ?case using c_case.IH c_case.prems
    by (cases d) (auto simp: map_prod_def case_prod_unfold)
next
  case (c_binary l r op z e)
  then have "constructible e" by (blast intro: constructible.c_binary)
  with c_binary show ?case by (auto simp: constructor_defs split: if_splits)
next
  case (c_round x k e)
  then have "constructible e" by (blast intro: constructible.c_round)
  with c_round show ?case by (auto simp: constructor_defs split: if_splits)
next
  case (c_coalesce xs e)
  then have "constructible e" by (blast intro: constructible.c_coalesce)
  with c_coalesce show ?case by (auto simp: constructor_defs split: if_splits)
next
  case (c_nullif l r e)
  then have "constructible e" by (blast intro: constructible.c_nullif)
  with c_nullif show ?case by (auto simp: constructor_defs split: if_splits)
qed (auto simp: constructor_defs intro: constructible.intros split: if_splits option.splits)

lemma predicate_built_field: "predicate_built p \<Longrightarrow> identifier_ok (pred_operand p)"
  by (auto simp: predicate_built_def new_IRPredicateExpr_def split: if_splits)

lemma filter_field_member: "x |\<in>| filter_field p \<longleftrightarrow> (\<exists>q. p = Some q \<and> x = pred_operand q)"
  by (auto simp: filter_field_def split: option.splits)

lemma constructible_fields: "constructible e \<Longrightarrow> f |\<in>| expression_field_ids e \<Longrightarrow> identifier_ok f"
proof (induction rule: constructible.induct)
  case (c_case ws d e)
  have e: "e = IRCaseExpr ws d" using c_case.hyps by (auto simp: constructor_defs split: if_splits)
  show ?case using c_case.IH c_case.prems predicate_built_field
    by (cases d) (auto simp: e Let_def fold_case_fields map_prod_def case_prod_unfold)
next
  case (c_aggregate p fn g e)
  then show ?case by (cases p) (auto simp: constructor_defs filter_field_member predicate_built_field split: if_splits)
next
  case (c_prior p a b g e)
  then show ?case by (cases p) (auto simp: constructor_defs filter_field_member predicate_built_field split: if_splits)
qed (auto simp: constructor_defs predicate_built_field fold_union split: if_splits option.splits)


section \<open>The payload determines the expression\<close>

text \<open>A scalar, or a tuple of scalars: the values predicates and literals hold.\<close>

definition flat :: "jv \<Rightarrow> bool" where
  "flat v \<longleftrightarrow> scalar_ok v \<or> (\<exists>xs. v = VList xs \<and> list_all scalar_ok xs)"

lemma scalar_normal: "scalar_ok v \<Longrightarrow> normal v = v"
  by (cases v) (simp_all add: scalar_ok_def)

lemma flat_normal: "flat v \<Longrightarrow> normal v = v"
  by (auto simp: flat_def scalar_normal list_all_iff intro!: map_idI)

lemma scalar_json_safe: "scalar_ok v \<Longrightarrow> json_safe v"
  by (cases v) (simp_all add: scalar_ok_def)

lemma flat_json_safe: "flat v \<Longrightarrow> json_safe v"
  by (auto simp: flat_def scalar_json_safe list_all_iff)

definition flat_filter :: "IRPredicateExpr option \<Rightarrow> bool" where
  "flat_filter p = opt_all (\<lambda>q. flat (pred_value q)) p"

primrec flat_values :: "IRExpression \<Rightarrow> bool" where
  "flat_values (IRFieldExpr f) = True"
| "flat_values (IRLiteralExpr v) = flat v"
| "flat_values (IRPredicate p) = flat (pred_value p)"
| "flat_values (IRBinaryExpr op l r z) = (flat_values l \<and> flat_values r)"
| "flat_values (IRRoundExpr e n) = flat_values e"
| "flat_values (IRCoalesceExpr es) = list_all id (map flat_values es)"
| "flat_values (IRNullIfExpr l r) = (flat_values l \<and> flat_values r)"
| "flat_values (IRCaseExpr ws d) =
     (list_all (\<lambda>w. flat (pred_value (fst w)) \<and> snd w) (map (map_prod id flat_values) ws) \<and>
      opt_all id (map_option flat_values d))"
| "flat_values (IRDateTruncExpr b f) = True"
| "flat_values (IRAggregateExpr fn f p) = flat_filter p"
| "flat_values (IRPriorPeriodExpr a b f p) = flat_filter p"

lemma predicate_built_flat: "predicate_built p \<Longrightarrow> flat (pred_value p)"
proof -
  have "predicate_value_ok op v \<Longrightarrow> flat v" for op v
    by (auto simp: predicate_value_ok_def flat_def scalar_ok_def split: if_splits jv.splits)
  moreover have "flat VNull" by (simp add: flat_def scalar_ok_def)
  moreover assume "predicate_built p"
  ultimately show ?thesis
    by (cases p) (auto simp: predicate_built_def new_IRPredicateExpr_def split: if_splits)
qed

lemma constructible_flat: "constructible e \<Longrightarrow> flat_values e"
proof (induction rule: constructible.induct)
  case (c_literal v e)
  then show ?case by (auto simp: constructor_defs flat_def scalar_ok_def split: if_splits option.splits)
next
  case (c_case ws d e)
  have "e = IRCaseExpr ws d" using c_case.hyps by (auto simp: constructor_defs split: if_splits)
  then show ?case using c_case.IH predicate_built_flat by (cases d) (auto simp: list_all_iff)
next
  case (c_aggregate p fn g e)
  then show ?case by (cases p) (auto simp: constructor_defs flat_filter_def predicate_built_flat split: if_splits)
next
  case (c_prior p a b g e)
  then show ?case by (cases p) (auto simp: constructor_defs flat_filter_def predicate_built_flat split: if_splits)
qed (auto simp: constructor_defs predicate_built_flat list_all_iff split: if_splits)

lemma json_safe_vdict: "json_safe (vdict ms) \<longleftrightarrow> list_all (\<lambda>(k, v). json_safe v) ms"
  by (simp add: list_all_iff case_prod_unfold)

lemma predicate_payload_safe: "flat (pred_value p) \<Longrightarrow> json_safe (predicate_payload p)"
  by (simp add: predicate_payload_def field_payload_def flat_json_safe)

lemma payload_safe: "flat_values e \<Longrightarrow> json_safe (expression_payload e)"
proof (induction e)
  case (IRCaseExpr ws d)
  have "json_safe (expression_payload (snd w))" if "w \<in> set ws" for w
    using IRCaseExpr.IH(1) [OF that snd_in_snds] IRCaseExpr.prems that by (auto simp: list_all_iff)
  moreover have "json_safe (expression_payload x)" if "d = Some x" for x
    using IRCaseExpr.IH(2) [of x] IRCaseExpr.prems that by simp
  moreover have "json_safe (predicate_payload (fst w))" if "w \<in> set ws" for w
    using IRCaseExpr.prems that predicate_payload_safe by (auto simp: list_all_iff)
  ultimately show ?case by (cases d) (auto simp: list_all_iff)
qed (auto simp: field_payload_def predicate_payload_safe flat_json_safe flat_filter_def filter_member_def list_all_iff
  split: option.splits)


fun payload_members :: "IRExpression \<Rightarrow> (string \<times> jv) list" where
  "payload_members (IRFieldExpr f) = [(''kind'', VStr ''field''), (''field_id'', VStr f)]"
| "payload_members (IRLiteralExpr v) = [(''kind'', VStr ''literal''), (''value'', v)]"
| "payload_members (IRPredicate p) =
     [(''kind'', VStr ''predicate''), (''op'', VStr (pred_op p)), (''operand'', field_payload (pred_operand p)),
      (''value'', pred_value p)]"
| "payload_members (IRBinaryExpr op l r z) =
     [(''kind'', VStr ''binary''), (''op'', VStr op), (''left'', expression_payload l), (''right'', expression_payload r),
      (''zero_division_policy'', VStr z)]"
| "payload_members (IRRoundExpr e n) =
     [(''kind'', VStr ''round''), (''operand'', expression_payload e), (''scale'', VInt n)]"
| "payload_members (IRCoalesceExpr es) =
     [(''kind'', VStr ''coalesce''), (''operands'', VList (map expression_payload es))]"
| "payload_members (IRNullIfExpr l r) =
     [(''kind'', VStr ''nullif''), (''left'', expression_payload l), (''right'', expression_payload r)]"
| "payload_members (IRCaseExpr ws d) =
     [(''kind'', VStr ''case''),
      (''whens'', VList (map (\<lambda>w. vdict [(''condition'', predicate_payload (fst w)),
                                       (''result'', expression_payload (snd w))]) ws))] @
     (case d of None \<Rightarrow> [] | Some x \<Rightarrow> [(''default'', expression_payload x)])"
| "payload_members (IRDateTruncExpr b f) =
     [(''kind'', VStr ''date_trunc''), (''bucket'', VStr b), (''operand'', field_payload f)]"
| "payload_members (IRAggregateExpr fn f p) =
     [(''kind'', VStr ''aggregate''), (''func'', VStr fn), (''operand'', field_payload f)] @ filter_member p"
| "payload_members (IRPriorPeriodExpr a b f p) =
     [(''kind'', VStr ''prior_period''), (''aggregate'', VStr a), (''bucket'', VStr b), (''operand'', field_payload f)] @
      filter_member p"

lemma payload_as_members: "expression_payload e = vdict (payload_members e)" "dict_ok (payload_members e)"
  by (cases e; auto simp: field_payload_def predicate_payload_def filter_member_def case_prod_unfold split: option.splits)+

lemma payload_members_eq:
  assumes "normal (expression_payload e) = normal (expression_payload e')"
  shows "map_option normal (map_of (payload_members e) k) = map_option normal (map_of (payload_members e') k)"
  using assms unfolding payload_as_members(1) by (rule normal_vdict_eq) (rule payload_as_members(2))+

lemma field_payload_inj: "normal (field_payload f) = normal (field_payload g) \<longleftrightarrow> f = g"
  using payload_members_eq [of "IRFieldExpr f" "IRFieldExpr g" "''field_id''"] by auto

lemma predicate_payload_inj:
  assumes "normal (predicate_payload p) = normal (predicate_payload q)" "flat (pred_value p)" "flat (pred_value q)"
  shows "p = q"
proof -
  have eq: "normal (expression_payload (IRPredicate p)) = normal (expression_payload (IRPredicate q))"
    using assms(1) by simp
  show ?thesis
    using payload_members_eq [OF eq, of "''op''"] payload_members_eq [OF eq, of "''operand''"]
      payload_members_eq [OF eq, of "''value''"] assms(2,3)
    by (cases p; cases q) (simp add: field_payload_inj flat_normal)
qed

lemma filter_member_inj:
  assumes "map_option normal (map_of (filter_member p) ''filter'') = map_option normal (map_of (filter_member q) ''filter'')"
    and "flat_filter p" "flat_filter q"
  shows "p = q"
  using assms predicate_payload_inj
  by (cases p; cases q) (auto simp: filter_member_def flat_filter_def)


lemma map_determines:
  assumes "map f xs = map f ys" "\<And>x y. x \<in> set xs \<Longrightarrow> y \<in> set ys \<Longrightarrow> f x = f y \<Longrightarrow> x = y"
  shows "xs = ys"
  using assms by (simp add: list_eq_iff_nth_eq)

lemma when_payload_inj:
  assumes "normal (vdict [(''condition'', predicate_payload p), (''result'', v)]) =
           normal (vdict [(''condition'', predicate_payload q), (''result'', w)])"
    and "flat (pred_value p)" "flat (pred_value q)"
  shows "p = q \<and> normal v = normal w"
proof -
  note member = normal_vdict_eq [OF assms(1)]
  from member [of "''condition''"] have "normal (predicate_payload p) = normal (predicate_payload q)" by simp
  moreover from member [of "''result''"] have "normal v = normal w" by simp
  ultimately show ?thesis using predicate_payload_inj assms(2,3) by blast
qed

lemma case_payload_inj:
  assumes "normal (expression_payload (IRCaseExpr ws d)) = normal (expression_payload e')"
    and "flat_values (IRCaseExpr ws d)" "flat_values e'"
    and branch: "\<And>w x. w \<in> set ws \<Longrightarrow> flat_values x \<Longrightarrow>
      normal (expression_payload (snd w)) = normal (expression_payload x) \<Longrightarrow> snd w = x"
    and dflt: "\<And>x y. d = Some x \<Longrightarrow> flat_values y \<Longrightarrow>
      normal (expression_payload x) = normal (expression_payload y) \<Longrightarrow> x = y"
  shows "IRCaseExpr ws d = e'"
proof -
  note member = payload_members_eq [OF assms(1)]
  let ?when = "\<lambda>w. normal (vdict [(''condition'', predicate_payload (fst w)), (''result'', expression_payload (snd w))])"
  from member [of "''kind''"] obtain ws' d' where e': "e' = IRCaseExpr ws' d'" by (cases e') auto
  have "map ?when ws = map ?when ws'" using member [of "''whens''"] by (simp add: e' comp_def)
  then have "ws = ws'"
  proof (rule map_determines)
    fix w w' assume w: "w \<in> set ws" "w' \<in> set ws'" "?when w = ?when w'"
    then have "flat (pred_value (fst w))" "flat (pred_value (fst w'))" "flat_values (snd w')"
      using assms(2,3) by (auto simp: e' list_all_iff)
    with w branch when_payload_inj show "w = w'" by (metis prod_eqI)
  qed
  moreover have "d = d'"
  proof -
    have "map_option (\<lambda>x. normal (expression_payload x)) d = map_option (\<lambda>x. normal (expression_payload x)) d'"
      using member [of "''default''"] by (cases d; cases d') (auto simp: e')
    then show ?thesis using dflt assms(3) by (cases d; cases d') (auto simp: e')
  qed
  ultimately show ?thesis by (simp add: e')
qed

lemma payload_inj:
  "normal (expression_payload e) = normal (expression_payload e') \<Longrightarrow> flat_values e \<Longrightarrow> flat_values e' \<Longrightarrow> e = e'"
proof (induction e arbitrary: e')
  case (IRCaseExpr ws d)
  have "snd w = x" if "w \<in> set ws" "flat_values x" "normal (expression_payload (snd w)) = normal (expression_payload x)" for w x
    using IRCaseExpr.IH(1) [OF that(1) snd_in_snds that(3)] IRCaseExpr.prems(2) that by (auto simp: list_all_iff)
  moreover have "x = y" if "d = Some x" "flat_values y" "normal (expression_payload x) = normal (expression_payload y)" for x y
    using IRCaseExpr.IH(2) [of x y] IRCaseExpr.prems(2) that by simp
  ultimately show ?case by (rule case_payload_inj [OF IRCaseExpr.prems])
next
  case (IRCoalesceExpr es)
  note member = payload_members_eq [OF IRCoalesceExpr.prems(1)]
  from member [of "''kind''"] obtain es' where e': "e' = IRCoalesceExpr es'" by (cases e') auto
  have "map (\<lambda>x. normal (expression_payload x)) es = map (\<lambda>x. normal (expression_payload x)) es'"
    using member [of "''operands''"] by (simp add: e' comp_def)
  then have "es = es'"
    by (rule map_determines) (use IRCoalesceExpr.IH IRCoalesceExpr.prems(2,3) in \<open>auto simp: e' list_all_iff\<close>)
  then show ?case by (simp add: e')
next
  case (IRAggregateExpr fn f p)
  note member = payload_members_eq [OF IRAggregateExpr.prems(1)]
  show ?case using member [of "''kind''"] member [of "''func''"] member [of "''operand''"] member [of "''filter''"]
      IRAggregateExpr.prems(2,3) filter_member_inj
    by (cases e') (auto simp: field_payload_inj)
next
  case (IRPriorPeriodExpr a b f p)
  note member = payload_members_eq [OF IRPriorPeriodExpr.prems(1)]
  show ?case using member [of "''kind''"] member [of "''aggregate''"] member [of "''bucket''"] member [of "''operand''"]
      member [of "''filter''"] IRPriorPeriodExpr.prems(2,3) filter_member_inj
    by (cases e') (auto simp: field_payload_inj)
next
  case (IRBinaryExpr op l r z)
  note member = payload_members_eq [OF IRBinaryExpr.prems(1)]
  show ?case using member [of "''kind''"] member [of "''op''"] member [of "''left''"] member [of "''right''"]
      member [of "''zero_division_policy''"] IRBinaryExpr.prems(2,3) IRBinaryExpr.IH
    by (cases e') auto
next
  case (IRNullIfExpr l r)
  note member = payload_members_eq [OF IRNullIfExpr.prems(1)]
  show ?case using member [of "''kind''"] member [of "''left''"] member [of "''right''"] IRNullIfExpr.prems(2,3)
      IRNullIfExpr.IH
    by (cases e') auto
next
  case (IRRoundExpr x n)
  note member = payload_members_eq [OF IRRoundExpr.prems(1)]
  show ?case using member [of "''kind''"] member [of "''operand''"] member [of "''scale''"] IRRoundExpr.prems(2,3)
      IRRoundExpr.IH
    by (cases e') auto
next
  case (IRPredicate p)
  show ?case using payload_members_eq [OF IRPredicate.prems(1), of "''kind''"] IRPredicate.prems predicate_payload_inj
    by (cases e') auto
next
  case (IRLiteralExpr v)
  note member = payload_members_eq [OF IRLiteralExpr.prems(1)]
  show ?case using member [of "''kind''"] member [of "''value''"] IRLiteralExpr.prems(2,3)
    by (cases e') (auto simp: flat_normal)
next
  case (IRDateTruncExpr b f)
  note member = payload_members_eq [OF IRDateTruncExpr.prems(1)]
  show ?case using member [of "''kind''"] member [of "''bucket''"] member [of "''operand''"]
    by (cases e') (auto simp: field_payload_inj)
next
  case (IRFieldExpr f)
  note member = payload_members_eq [OF IRFieldExpr.prems(1)]
  show ?case using member [of "''kind''"] member [of "''field_id''"] by (cases e') auto
qed


section \<open>Properties\<close>

text \<open>
  The grammar is bounded: every expression the models can build has at most 24 nodes and depth
  at most 6, so has every expression nested in it, which is itself one the models can build; all
  fields it names are identifiers; it has an aggregate exactly when the iteration over its nodes
  finds one; and it asks for the prior-period capability exactly when it has a prior-period node.
\<close>

theorem expression_grammar_bounded:
  assumes "constructible e"
  shows "length (iter_nodes e) \<le> 24 \<and>
    (\<forall>n \<in> set (iter_nodes e). constructible n \<and> expression_depth n \<le> 6 \<and> expression_node_count n \<le> 24) \<and>
    (\<forall>f. f |\<in>| expression_field_ids e \<longrightarrow> identifier_ok f) \<and>
    (expression_has_aggregates e \<longleftrightarrow> iter_aggregate_nodes e \<noteq> []) \<and>
    (PRIOR_PERIOD_CAPABILITY |\<in>| expression_required_capabilities e \<longleftrightarrow> iter_prior_period_nodes e \<noteq> [])"
proof -
  have bounds: "expression_depth n \<le> 6 \<and> expression_node_count n \<le> 24" if "constructible n" for n
    using constructible_bounds [OF that]
    by (simp add: check_bounds_def MAX_EXPRESSION_DEPTH_def MAX_EXPRESSION_NODES_def)
  have "length (iter_nodes e) \<le> 24" using nodes_le_count [of e] bounds [OF assms] by simp
  moreover have "PRIOR_PERIOD_CAPABILITY |\<in>| expression_required_capabilities e \<longleftrightarrow> iter_prior_period_nodes e \<noteq> []"
    by (simp add: expression_required_capabilities_def iter_prior_period_nodes_def filter_empty_conv list_ex_iff
      EXPRESSION_CAPABILITY_def PRIOR_PERIOD_CAPABILITY_def)
  ultimately show ?thesis
    using assms bounds constructible_nodes constructible_fields has_aggregates_iff by blast
qed

definition sample_ratio :: IRExpression where
  "sample_ratio = IRBinaryExpr ''div'' (IRAggregateExpr ''sum'' ''revenue'' None)
     (IRPriorPeriodExpr ''sum'' ''month'' ''revenue'' None) ''null''"

lemma sample_ratio_constructible: "constructible sample_ratio"
proof -
  have name: "identifier_ok ''revenue''" by (simp add: pattern_simps)
  have "constructible (IRAggregateExpr ''sum'' ''revenue'' None)"
    by (rule c_aggregate [of None "''sum''" "''revenue''"]) (simp_all add: new_IRAggregateExpr_def name)
  moreover have "constructible (IRPriorPeriodExpr ''sum'' ''month'' ''revenue'' None)"
    by (rule c_prior [of None "''sum''" "''month''" "''revenue''"]) (simp_all add: new_IRPriorPeriodExpr_def name)
  ultimately show ?thesis
    by (rule c_binary [of _ _ "''div''" "''null''"])
       (simp add: new_IRBinaryExpr_def bounded_def check_bounds_def MAX_EXPRESSION_DEPTH_def MAX_EXPRESSION_NODES_def
         sample_ratio_def)
qed

theorem expression_grammar_bounded_witness:
  "length (iter_nodes sample_ratio) \<le> 24 \<and> expression_has_aggregates sample_ratio \<and>
   PRIOR_PERIOD_CAPABILITY |\<in>| expression_required_capabilities sample_ratio"
  using expression_grammar_bounded [OF sample_ratio_constructible]
  by (simp add: sample_ratio_def iter_prior_period_nodes_def)

text \<open>
  The canonical text of an expression identifies it: two expressions without floats have the same
  canonical text exactly when they are the same expression.
\<close>

theorem canonical_text_identifies_expression:
  assumes "constructible e" "constructible e'" "float_free (expression_payload e)" "float_free (expression_payload e')"
  shows "strict_canonical_json (expression_payload e) = strict_canonical_json (expression_payload e') \<longleftrightarrow> e = e'"
proof -
  have flat: "flat_values e" "flat_values e'" using assms(1,2) constructible_flat by blast+
  have "exact (expression_payload e)" "exact (expression_payload e')"
    using flat payload_safe assms(3,4) by (simp_all add: exact_iff)
  then have "encode (expression_payload e) = encode (expression_payload e') \<longleftrightarrow>
      normal (expression_payload e) = normal (expression_payload e')"
    using text_prefix [of "normal (expression_payload e)" "normal (expression_payload e')" "[]" "[]"] exact_normal
    by (auto simp: delim_def encode_normal)
  then show ?thesis using flat payload_inj payload_safe by (auto simp: canonical_json_text)
qed

text \<open>
  \<open>expressions_equal\<close> compares payloads with \<open>==\<close>, for which \<open>True\<close> and \<open>1\<close> are equal: the literals
  true and 1 are equal for it although their canonical texts differ.
\<close>

theorem expressions_equal_not_canonical:
  "expressions_equal (IRLiteralExpr (VBool True)) (IRLiteralExpr (VInt 1)) \<and>
   strict_canonical_json (expression_payload (IRLiteralExpr (VBool True))) \<noteq>
   strict_canonical_json (expression_payload (IRLiteralExpr (VInt 1)))"
proof -
  have "constructible (IRLiteralExpr v)" if "scalar_ok v" "literal_short v" for v
    by (rule c_literal [of "Some v"]) (simp add: new_IRLiteralExpr_def that)
  from this [of "VBool True"] this [of "VInt 1"]
  have "constructible (IRLiteralExpr (VBool True))" "constructible (IRLiteralExpr (VInt 1))"
    by (simp_all add: scalar_ok_def)
  then show ?thesis
    using canonical_text_identifies_expression [of "IRLiteralExpr (VBool True)" "IRLiteralExpr (VInt 1)"]
    by (simp add: expressions_equal_def)
qed

text \<open>
  A predicate \<open>in\<close> without a value is accepted: the validator that asks for a non-empty list of values
  does not run for an omitted one.
\<close>

theorem predicate_in_without_values:
  assumes "identifier_ok operand"
  shows "new_IRPredicateExpr ''in'' operand None =
      Inr \<lparr>pred_op = ''in'', pred_operand = operand, pred_value = VNull\<rparr> \<and>
    new_IRPredicateExpr ''in'' operand (Some VNull) = Inl ValidationError"
  using assms by (simp add: new_IRPredicateExpr_def predicate_value_ok_def)

end
