(* ===== verification/Query_IR.thy ===== *)
theory Query_IR
  imports Query_Expr
begin

text \<open>
  The canonical semantic query: \<^verbatim>\<open>src/nl2data_core/planning/ir/models.py\<close>.

  Each pydantic model is a record; \<open>..._ok\<close> holds when its validators accept the members, and
  \<open>new_SemanticQueryIR\<close> runs those of the whole query and computes the fingerprint.  The payload of
  an extension is kept as the JSON value it thaws to (the model stores dicts and lists in immutable
  form and turns them back for every payload); a tuple, which the payload check refuses, is a
  \<open>VOther\<close>.  Enum members are left out of the values.

  The theory shows that the canonical text identifies a query up to the order of its declared
  capabilities and of dict members, and that a query can be built only when every computed
  expression is covered by a declared capability and every computed grouping by a selection.
\<close>

section \<open>Values\<close>

definition IR_VERSION :: int where "IR_VERSION = 1"

definition FORBIDDEN_EXTENSION_KEYS :: "string list" where
  "FORBIDDEN_EXTENSION_KEYS =
     [''sql'', ''mql'', ''query'', ''statement'', ''script'', ''code'', ''credentials'', ''password'', ''secret'',
      ''token'', ''uri'', ''connection'', ''driver'', ''binding'', ''chart'', ''chart_config'']"

definition EXECUTABLE_KEYWORDS :: "string list" where
  "EXECUTABLE_KEYWORDS =
     [''select'', ''insert'', ''update'', ''delete'', ''drop'', ''create'', ''alter'', ''merge'', ''function'', ''eval'']"

text \<open>\<open>_EXECUTABLE_TEXT.search\<close>: a keyword stands somewhere in the text as a whole word.\<close>

definition executable_text :: "string \<Rightarrow> bool" where
  "executable_text s \<longleftrightarrow>
     list_ex (\<lambda>i. keyword_ends EXECUTABLE_KEYWORDS (str_lower s) i \<noteq> []) [0..<length s]"

definition AGGREGATION_KINDS :: "string list" where
  "AGGREGATION_KINDS = [''none'', ''count'', ''sum'', ''avg'', ''min'', ''max'']"

definition FILTER_OPERATORS :: "string list" where
  "FILTER_OPERATORS = [''eq'', ''ne'', ''gt'', ''gte'', ''lt'', ''lte'', ''in'', ''not_in'', ''contains'']"

fun str_key :: "dict_key \<Rightarrow> bool" where
  "str_key (KStr k) = True"
| "str_key (KOther r c) = False"

text \<open>\<open>_check_json_value\<close> accepts the value.\<close>

fun check_json_value :: "jv \<Rightarrow> bool" where
  "check_json_value (VStr s) = (\<not> executable_text s)"
| "check_json_value (VFloat r) = finite_repr r"
| "check_json_value VNull = True"
| "check_json_value (VBool b) = True"
| "check_json_value (VInt i) = True"
| "check_json_value (VDict items) =
     (length items \<le> 128 \<and>
      list_all (\<lambda>(k, v). str_key k \<and> str_lower (key_text k) \<notin> set FORBIDDEN_EXTENSION_KEYS \<and> check_json_value v) items)"
| "check_json_value (VList xs) = (length xs \<le> 128 \<and> list_all check_json_value xs)"
| "check_json_value (VEnum c) = False"
| "check_json_value (VOther c) = False"

section \<open>The parts of a query\<close>

text \<open>A payload member that is left out when its value is \<open>None\<close>.\<close>

definition opt_member :: "string \<Rightarrow> ('a \<Rightarrow> jv) \<Rightarrow> 'a option \<Rightarrow> (string \<times> jv) list" where
  "opt_member k f x = (case x of None \<Rightarrow> [] | Some e \<Rightarrow> [(k, f e)])"

record IRSelection =
  selection_id :: string
  sel_field_id :: string
  sel_alias :: "string option"
  aggregation :: string
  sel_expression :: "IRExpression option"

record IRFilter =
  filter_id :: string
  flt_field_id :: string
  flt_operator :: string
  flt_value :: jv

record IRGrouping =
  grouping_id :: string
  grp_field_id :: string
  grp_expression :: "IRExpression option"

record IROrdering =
  ordering_id :: string
  ord_field_id :: string
  ord_direction :: string

record IRTimeContext =
  context_id :: string
  time_reference :: string
  time_value :: jv

record IRViewReference =
  ref_view_id :: string
  ref_view_version :: int
  ref_view_fingerprint :: string

record IRProvenance =
  prov_source_id :: string
  prov_root_entity_id :: string
  prov_catalog_fingerprint :: "string option"
  policy_view_fingerprint :: "string option"
  view_reference :: "IRViewReference option"
  join_plan_fingerprint :: "string option"

record IRExtension =
  extension_id :: string
  ext_kind :: string
  ext_payload :: "(dict_key \<times> jv) list"

record SemanticQueryIR =
  ir_version :: int
  ir_id :: string
  ir_source_id :: string
  ir_root_entity_id :: string
  selections :: "IRSelection list"
  filters :: "IRFilter list"
  groupings :: "IRGrouping list"
  orderings :: "IROrdering list"
  ir_limit :: "int option"
  time_context :: "IRTimeContext option"
  result_shape :: string
  provenance :: IRProvenance
  required_capabilities :: "string list"
  extensions :: "IRExtension list"
  ir_fingerprint :: string

text \<open>A computed selection keeps the aggregation \<open>none\<close>.\<close>

definition selection_ok :: "IRSelection \<Rightarrow> bool" where
  "selection_ok s \<longleftrightarrow>
     identifier_ok (selection_id s) \<and> identifier_ok (sel_field_id s) \<and> opt_all identifier_ok (sel_alias s) \<and>
     aggregation s \<in> set AGGREGATION_KINDS \<and> opt_all constructible (sel_expression s) \<and>
     \<not> (sel_expression s \<noteq> None \<and> aggregation s \<noteq> ''none'')"

definition selection_payload :: "IRSelection \<Rightarrow> jv" where
  "selection_payload s = vdict
     ([(''selection_id'', VStr (selection_id s)), (''field_id'', VStr (sel_field_id s)),
       (''alias'', vopt VStr (sel_alias s)), (''aggregation'', VStr (aggregation s))] @
      opt_member ''expression'' expression_payload (sel_expression s))"

text \<open>The value validator of filters: a scalar, or a list of scalars.\<close>

definition scalar_or_scalars :: "jv \<Rightarrow> bool" where
  "scalar_or_scalars v = (case v of VList xs \<Rightarrow> list_all scalar_ok xs | _ \<Rightarrow> scalar_ok v)"

definition filter_ok :: "IRFilter \<Rightarrow> bool" where
  "filter_ok f \<longleftrightarrow>
     identifier_ok (filter_id f) \<and> identifier_ok (flt_field_id f) \<and> flt_operator f \<in> set FILTER_OPERATORS \<and>
     scalar_or_scalars (flt_value f)"

definition filter_payload :: "IRFilter \<Rightarrow> jv" where
  "filter_payload f = vdict
     [(''filter_id'', VStr (filter_id f)), (''field_id'', VStr (flt_field_id f)),
      (''operator'', VStr (flt_operator f)), (''value'', flt_value f)]"

definition grouping_ok :: "IRGrouping \<Rightarrow> bool" where
  "grouping_ok g \<longleftrightarrow>
     identifier_ok (grouping_id g) \<and> identifier_ok (grp_field_id g) \<and> opt_all constructible (grp_expression g)"

definition grouping_payload :: "IRGrouping \<Rightarrow> jv" where
  "grouping_payload g = vdict
     ([(''grouping_id'', VStr (grouping_id g)), (''field_id'', VStr (grp_field_id g))] @
      opt_member ''expression'' expression_payload (grp_expression g))"

definition ordering_ok :: "IROrdering \<Rightarrow> bool" where
  "ordering_ok r \<longleftrightarrow>
     identifier_ok (ordering_id r) \<and> identifier_ok (ord_field_id r) \<and> ord_direction r \<in> set [''asc'', ''desc'']"

definition ordering_payload :: "IROrdering \<Rightarrow> jv" where
  "ordering_payload r = vdict
     [(''ordering_id'', VStr (ordering_id r)), (''field_id'', VStr (ord_field_id r)),
      (''direction'', VStr (ord_direction r))]"

fun is_tuple :: "jv \<Rightarrow> bool" where
  "is_tuple (VList xs) = True"
| "is_tuple _ = False"

definition time_context_ok :: "IRTimeContext \<Rightarrow> bool" where
  "time_context_ok t \<longleftrightarrow>
     identifier_ok (context_id t) \<and> time_reference t \<in> set [''as_of'', ''range''] \<and>
     (case time_value t of VList xs \<Rightarrow> length xs = 2 \<and> list_all scalar_ok xs | v \<Rightarrow> scalar_ok v) \<and>
     \<not> (time_reference t = ''range'' \<and> \<not> is_tuple (time_value t)) \<and>
     \<not> (time_reference t = ''as_of'' \<and> is_tuple (time_value t))"

definition time_context_payload :: "IRTimeContext \<Rightarrow> jv" where
  "time_context_payload t = vdict
     [(''context_id'', VStr (context_id t)), (''reference'', VStr (time_reference t)), (''value'', time_value t)]"

definition view_reference_ok :: "IRViewReference \<Rightarrow> bool" where
  "view_reference_ok r \<longleftrightarrow>
     identifier_ok (ref_view_id r) \<and> 1 \<le> ref_view_version r \<and> ref_view_version r \<le> 1000000 \<and>
     fingerprint_ok (ref_view_fingerprint r)"

definition view_reference_payload :: "IRViewReference \<Rightarrow> jv" where
  "view_reference_payload r = vdict
     [(''view_id'', VStr (ref_view_id r)), (''view_version'', VInt (ref_view_version r)),
      (''view_fingerprint'', VStr (ref_view_fingerprint r))]"

definition provenance_ok :: "IRProvenance \<Rightarrow> bool" where
  "provenance_ok p \<longleftrightarrow>
     identifier_ok (prov_source_id p) \<and> identifier_ok (prov_root_entity_id p) \<and>
     opt_all fingerprint_ok (prov_catalog_fingerprint p) \<and> opt_all fingerprint_ok (policy_view_fingerprint p) \<and>
     opt_all view_reference_ok (view_reference p) \<and> opt_all fingerprint_ok (join_plan_fingerprint p)"

definition provenance_payload :: "IRProvenance \<Rightarrow> jv" where
  "provenance_payload p = vdict
     ([(''source_id'', VStr (prov_source_id p)), (''root_entity_id'', VStr (prov_root_entity_id p)),
       (''catalog_fingerprint'', vopt VStr (prov_catalog_fingerprint p)),
       (''policy_view_fingerprint'', vopt VStr (policy_view_fingerprint p))] @
      opt_member ''view_reference'' view_reference_payload (view_reference p) @
      opt_member ''join_plan_fingerprint'' VStr (join_plan_fingerprint p))"

definition extension_ok :: "IRExtension \<Rightarrow> bool" where
  "extension_ok x \<longleftrightarrow>
     identifier_ok (extension_id x) \<and> identifier_ok (ext_kind x) \<and> check_json_value (VDict (ext_payload x))"

definition extension_payload :: "IRExtension \<Rightarrow> jv" where
  "extension_payload x = vdict
     [(''extension_id'', VStr (extension_id x)), (''kind'', VStr (ext_kind x)), (''payload'', VDict (ext_payload x))]"

section \<open>The reserved placeholder\<close>

definition NAMED_QUERY_PLACEHOLDER_KIND :: string where
  "NAMED_QUERY_PLACEHOLDER_KIND = ''named_query_placeholder''"

definition NAMED_QUERY_PLACEHOLDER_CAPABILITY :: string where
  "NAMED_QUERY_PLACEHOLDER_CAPABILITY = ''named-query-placeholders''"

text \<open>The values pydantic reads as a boolean.\<close>

fun bool_like :: "jv \<Rightarrow> bool" where
  "bool_like (VBool b) = True"
| "bool_like (VInt i) = (i = 0 \<or> i = 1)"
| "bool_like (VFloat r) = (r \<in> set [''0.0'', ''-0.0'', ''1.0''])"
| "bool_like (VStr s) =
     (str_lower s \<in> set [''0'', ''off'', ''f'', ''false'', ''n'', ''no'', ''1'', ''on'', ''t'', ''true'', ''y'', ''yes''])"
| "bool_like _ = False"

fun text_in :: "(string \<Rightarrow> bool) \<Rightarrow> jv option \<Rightarrow> bool" where
  "text_in P (Some (VStr s)) = P s"
| "text_in P _ = False"

definition keys_in :: "string list \<Rightarrow> (dict_key \<times> jv) list \<Rightarrow> bool" where
  "keys_in ks items \<longleftrightarrow> list_all (\<lambda>(k, v). k \<in> set (map KStr ks)) items"

definition placeholder_parameter_ok :: "jv \<Rightarrow> bool" where
  "placeholder_parameter_ok v =
     (case v of
        VDict items \<Rightarrow>
          keys_in [''name'', ''scalar_type'', ''required''] items \<and> text_in identifier_ok (map_of items (KStr ''name'')) \<and>
          text_in (\<lambda>t. t \<in> set [''str'', ''int'', ''float'', ''bool'']) (map_of items (KStr ''scalar_type'')) \<and>
          opt_all bool_like (map_of items (KStr ''required''))
      | _ \<Rightarrow> False)"

definition parameter_name :: "jv \<Rightarrow> jv option" where
  "parameter_name v = (case v of VDict items \<Rightarrow> map_of items (KStr ''name'') | _ \<Rightarrow> None)"

definition placeholder_payload_ok :: "(dict_key \<times> jv) list \<Rightarrow> bool" where
  "placeholder_payload_ok items \<longleftrightarrow>
     keys_in [''query_ref'', ''parameters''] items \<and> text_in identifier_ok (map_of items (KStr ''query_ref'')) \<and>
     (case map_of items (KStr ''parameters'') of
        None \<Rightarrow> True
      | Some (VList ps) \<Rightarrow>
          length ps \<le> 64 \<and> list_all placeholder_parameter_ok ps \<and> distinct (map parameter_name ps)
      | _ \<Rightarrow> False)"

section \<open>The query\<close>

definition used_expressions :: "IRSelection list \<Rightarrow> IRGrouping list \<Rightarrow> IRExpression list" where
  "used_expressions ss gs = List.map_filter sel_expression ss @ List.map_filter grp_expression gs"

text \<open>The capabilities all computed expressions together ask for.\<close>

definition expression_capabilities :: "SemanticQueryIR \<Rightarrow> string fset" where
  "expression_capabilities q =
     fold (\<lambda>e s. s |\<union>| expression_required_capabilities e) (used_expressions (selections q) (groupings q)) {||}"

text \<open>The dict of computed selections by output: the last selection of a field id is kept.\<close>

definition computed_by_field :: "SemanticQueryIR \<Rightarrow> (string, IRExpression) fmap" where
  "computed_by_field q =
     fold (\<lambda>s m. case sel_expression s of None \<Rightarrow> m | Some e \<Rightarrow> fmupd (sel_field_id s) e m) (selections q) fmempty"

definition grouping_anchored :: "SemanticQueryIR \<Rightarrow> IRGrouping \<Rightarrow> bool" where
  "grouping_anchored q g =
     (case grp_expression g of
        None \<Rightarrow> fmlookup (computed_by_field q) (grp_field_id g) = None
      | Some e \<Rightarrow>
          (case fmlookup (computed_by_field q) (grp_field_id g) of
             None \<Rightarrow> False
           | Some e' \<Rightarrow> expressions_equal e' e))"

definition expressions_valid :: "SemanticQueryIR \<Rightarrow> bool" where
  "expressions_valid q \<longleftrightarrow>
     expression_capabilities q |\<subseteq>| fset_of_list (required_capabilities q) \<and> list_all (grouping_anchored q) (groupings q)"

definition ir_parts_ok :: "SemanticQueryIR \<Rightarrow> bool" where
  "ir_parts_ok q \<longleftrightarrow>
     ir_version q = 1 \<and> identifier_ok (ir_id q) \<and> identifier_ok (ir_source_id q) \<and> identifier_ok (ir_root_entity_id q) \<and>
     1 \<le> length (selections q) \<and> length (selections q) \<le> 1000 \<and> list_all selection_ok (selections q) \<and>
     length (filters q) \<le> 1000 \<and> list_all filter_ok (filters q) \<and>
     length (groupings q) \<le> 100 \<and> list_all grouping_ok (groupings q) \<and>
     length (orderings q) \<le> 1000 \<and> list_all ordering_ok (orderings q) \<and>
     opt_all (\<lambda>n. 1 \<le> n \<and> n \<le> 1000000) (ir_limit q) \<and> opt_all time_context_ok (time_context q) \<and>
     result_shape q \<in> set [''rows'', ''grouped_rows'', ''scalar''] \<and> provenance_ok (provenance q) \<and>
     length (required_capabilities q) \<le> 64 \<and> length (extensions q) \<le> 64 \<and> list_all extension_ok (extensions q)"

definition ir_valid :: "SemanticQueryIR \<Rightarrow> bool" where
  "ir_valid q \<longleftrightarrow>
     ir_parts_ok q \<and> distinct (map selection_id (selections q)) \<and>
     distinct (required_capabilities q) \<and> list_all identifier_ok (required_capabilities q) \<and>
     list_all (\<lambda>x. ext_kind x \<noteq> NAMED_QUERY_PLACEHOLDER_KIND \<or> placeholder_payload_ok (ext_payload x)) (extensions q) \<and>
     expressions_valid q"

definition ir_payload :: "SemanticQueryIR \<Rightarrow> jv" where
  "ir_payload q = vdict
     [(''ir_version'', VInt (ir_version q)), (''ir_id'', VStr (ir_id q)), (''source_id'', VStr (ir_source_id q)),
      (''root_entity_id'', VStr (ir_root_entity_id q)),
      (''selections'', VList (map selection_payload (selections q))),
      (''filters'', VList (map filter_payload (filters q))),
      (''groupings'', VList (map grouping_payload (groupings q))),
      (''orderings'', VList (map ordering_payload (orderings q))),
      (''limit'', vopt VInt (ir_limit q)), (''time_context'', vopt time_context_payload (time_context q)),
      (''result_shape'', vdict [(''kind'', VStr (result_shape q))]),
      (''provenance'', provenance_payload (provenance q)),
      (''required_capabilities'', VList (map VStr (sort (required_capabilities q)))),
      (''extensions'', VList (map extension_payload (extensions q)))]"

text \<open>
  Construction: a supplied fingerprint is checked by its pattern, then replaced by the computed one; the
  empty text stands for an omitted fingerprint.
\<close>

definition new_SemanticQueryIR :: "SemanticQueryIR \<Rightarrow> SemanticQueryIR res" where
  "new_SemanticQueryIR q =
     (if \<not> (ir_fingerprint q = [] \<or> fingerprint_ok (ir_fingerprint q)) \<or> \<not> ir_valid q then Inl ValidationError
      else case strict_sha256_fingerprint (ir_payload q) of
             Inl e \<Rightarrow> Inl ValidationError
           | Inr fp \<Rightarrow> Inr (q\<lparr>ir_fingerprint := fp\<rparr>))"

definition serialize_canonical :: "SemanticQueryIR \<Rightarrow> string canon" where
  "serialize_canonical q = strict_canonical_json (ir_payload q)"

definition ir_field_ids :: "SemanticQueryIR \<Rightarrow> string fset" where
  "ir_field_ids q =
     fold (\<lambda>e s. s |\<union>| expression_field_ids e) (used_expressions (selections q) (groupings q))
       (fset_of_list (map sel_field_id (selections q)) |\<union>| fset_of_list (map flt_field_id (filters q)) |\<union>|
        fset_of_list (map grp_field_id (groupings q)) |\<union>| fset_of_list (map ord_field_id (orderings q)))"

definition filter_fingerprint :: "IRFilter \<Rightarrow> string canon" where
  "filter_fingerprint f = strict_sha256_fingerprint (vdict
     [(''field_id'', VStr (flt_field_id f)), (''operator'', VStr (flt_operator f)), (''value'', flt_value f)])"

fun collect :: "('e + 'a) list \<Rightarrow> 'e + 'a list" where
  "collect [] = Inr []"
| "collect (r # rs) = bind_res r (\<lambda>x. bind_res (collect rs) (\<lambda>xs. Inr (x # xs)))"

definition filter_fingerprints :: "SemanticQueryIR \<Rightarrow> string fset canon" where
  "filter_fingerprints q =
     bind_res (collect (map filter_fingerprint (filters q))) (\<lambda>fps. Inr (fset_of_list fps))"

section \<open>The parts are determined by their payloads\<close>

lemma opt_member_simps [simp]:
  "map_of (opt_member k f x) j = (if j = k then map_option f x else None)"
  "dict_ok (opt_member k f x)"
  "fst ` set (opt_member k f x) = (if x = None then {} else {k})"
  by (auto simp: opt_member_def split: option.splits)

lemma normal_vopt_VInt [simp]: "normal (vopt VInt x) = vopt VInt x"
  by (cases x) simp_all

lemma vopt_inj [simp]: "vopt VStr x = vopt VStr y \<longleftrightarrow> x = y" "vopt VInt m = vopt VInt n \<longleftrightarrow> m = n"
  by (cases x; cases y; simp) (cases m; cases n; simp)

lemma scalar_or_scalars_flat: "scalar_or_scalars v \<Longrightarrow> flat v"
  by (auto simp: scalar_or_scalars_def flat_def scalar_ok_def split: jv.splits)

lemma constructible_payload_inj:
  "constructible e \<Longrightarrow> constructible e' \<Longrightarrow> normal (expression_payload e) = normal (expression_payload e') \<Longrightarrow> e = e'"
  using payload_inj constructible_flat by blast

lemma option_payload_inj:
  assumes "map_option (\<lambda>e. normal (f e)) x = map_option (\<lambda>e. normal (f e)) y" "opt_all P x" "opt_all P y"
    and "\<And>a b. P a \<Longrightarrow> P b \<Longrightarrow> normal (f a) = normal (f b) \<Longrightarrow> a = b"
  shows "x = y"
  using assms by (cases x; cases y) auto

lemma selection_payload_inj:
  assumes "normal (selection_payload s) = normal (selection_payload t)" "selection_ok s" "selection_ok t"
  shows "s = t"
proof -
  have ok: "opt_all constructible (sel_expression s)" "opt_all constructible (sel_expression t)"
    using assms(2,3) by (simp_all add: selection_ok_def)
  note member = normal_vdict_eq [OF assms(1) [unfolded selection_payload_def]]
  have "map_option (\<lambda>e. normal (expression_payload e)) (sel_expression s) =
        map_option (\<lambda>e. normal (expression_payload e)) (sel_expression t)"
    using member [of "''expression''"] by (simp add: option.map_comp comp_def)
  then have "sel_expression s = sel_expression t"
    using ok constructible_payload_inj by (rule option_payload_inj)
  then show ?thesis
    using member [of "''selection_id''"] member [of "''field_id''"] member [of "''alias''"] member [of "''aggregation''"]
    by (cases s; cases t) auto
qed

lemma filter_payload_inj:
  assumes "normal (filter_payload f) = normal (filter_payload g)" "filter_ok f" "filter_ok g"
  shows "f = g"
proof -
  note member = normal_vdict_eq [OF assms(1) [unfolded filter_payload_def]]
  have "flt_value f = flt_value g"
    using member [of "''value''"] assms(2,3) flat_normal scalar_or_scalars_flat by (auto simp: filter_ok_def)
  then show ?thesis
    using member [of "''filter_id''"] member [of "''field_id''"] member [of "''operator''"] by (cases f; cases g) auto
qed

lemma grouping_payload_inj:
  assumes "normal (grouping_payload g) = normal (grouping_payload h)" "grouping_ok g" "grouping_ok h"
  shows "g = h"
proof -
  have ok: "opt_all constructible (grp_expression g)" "opt_all constructible (grp_expression h)"
    using assms(2,3) by (simp_all add: grouping_ok_def)
  note member = normal_vdict_eq [OF assms(1) [unfolded grouping_payload_def]]
  have "map_option (\<lambda>e. normal (expression_payload e)) (grp_expression g) =
        map_option (\<lambda>e. normal (expression_payload e)) (grp_expression h)"
    using member [of "''expression''"] by (simp add: option.map_comp comp_def)
  then have "grp_expression g = grp_expression h"
    using ok constructible_payload_inj by (rule option_payload_inj)
  then show ?thesis
    using member [of "''grouping_id''"] member [of "''field_id''"] by (cases g; cases h) auto
qed

lemma ordering_payload_inj: "normal (ordering_payload r) = normal (ordering_payload t) \<Longrightarrow> r = t"
proof -
  assume eq: "normal (ordering_payload r) = normal (ordering_payload t)"
  note member = normal_vdict_eq [OF eq [unfolded ordering_payload_def]]
  show ?thesis
    using member [of "''ordering_id''"] member [of "''field_id''"] member [of "''direction''"] by (cases r; cases t) auto
qed

lemma time_context_flat: "time_context_ok t \<Longrightarrow> flat (time_value t)"
  by (auto simp: time_context_ok_def flat_def scalar_ok_def split: jv.splits)

lemma time_context_payload_inj:
  assumes "time_context_ok t" "time_context_ok u" "normal (time_context_payload t) = normal (time_context_payload u)"
  shows "t = u"
proof -
  note member = normal_vdict_eq [OF assms(3) [unfolded time_context_payload_def]]
  have "time_value t = time_value u"
    using member [of "''value''"] assms(1,2) flat_normal time_context_flat by auto
  then show ?thesis using member [of "''context_id''"] member [of "''reference''"] by (cases t; cases u) auto
qed

lemma view_reference_payload_inj:
  "normal (view_reference_payload r) = normal (view_reference_payload t) \<Longrightarrow> r = t"
proof -
  assume eq: "normal (view_reference_payload r) = normal (view_reference_payload t)"
  note member = normal_vdict_eq [OF eq [unfolded view_reference_payload_def]]
  show ?thesis
    using member [of "''view_id''"] member [of "''view_version''"] member [of "''view_fingerprint''"]
    by (cases r; cases t) auto
qed

lemma provenance_payload_inj: "normal (provenance_payload p) = normal (provenance_payload q) \<Longrightarrow> p = q"
proof -
  assume eq: "normal (provenance_payload p) = normal (provenance_payload q)"
  have keys: "dict_ok ([(''source_id'', VStr a), (''root_entity_id'', VStr b), (''catalog_fingerprint'', c),
      (''policy_view_fingerprint'', d)] @ opt_member ''view_reference'' view_reference_payload r @
      opt_member ''join_plan_fingerprint'' VStr j)" for a b c d r j
    by (auto simp: opt_member_def split: option.splits)
  note member = normal_vdict_eq [OF eq [unfolded provenance_payload_def] keys keys]
  have "map_option (\<lambda>e. normal (view_reference_payload e)) (view_reference p) =
        map_option (\<lambda>e. normal (view_reference_payload e)) (view_reference q)"
    using member [of "''view_reference''"] by (simp add: map_add_def option.map_comp comp_def split: option.splits)
  then have "view_reference p = view_reference q"
    by (cases "view_reference p"; cases "view_reference q") (auto dest: view_reference_payload_inj)
  moreover have "join_plan_fingerprint p = join_plan_fingerprint q"
    using member [of "''join_plan_fingerprint''"]
    by (cases "join_plan_fingerprint p"; cases "join_plan_fingerprint q") (simp_all add: map_add_def)
  ultimately show ?thesis
    using member [of "''source_id''"] member [of "''root_entity_id''"] member [of "''catalog_fingerprint''"]
      member [of "''policy_view_fingerprint''"]
    by (cases p; cases q) auto
qed

section \<open>Payloads of built queries\<close>

lemma check_json_value_safe: "check_json_value v \<Longrightarrow> json_safe v"
proof (induction v rule: check_json_value.induct)
  case (6 items)
  have "(\<exists>s. k = KStr s) \<and> json_safe v" if "(k, v) \<in> set items" for k v
    using 6 that by (cases k) (auto simp: list_all_iff)
  then show ?case by (auto simp: list_all_iff)
qed (auto simp: list_all_iff)

lemma constructible_payload_safe: "constructible e \<Longrightarrow> json_safe (expression_payload e)"
  using payload_safe constructible_flat by blast

lemma opt_member_safe:
  "(\<And>e. x = Some e \<Longrightarrow> json_safe (f e)) \<Longrightarrow> list_all (\<lambda>(k, v). json_safe v) (opt_member k f x)"
  by (simp add: opt_member_def split: option.splits)

lemma part_payloads_safe:
  "selection_ok s \<Longrightarrow> json_safe (selection_payload s)"
  "filter_ok f \<Longrightarrow> json_safe (filter_payload f)"
  "grouping_ok g \<Longrightarrow> json_safe (grouping_payload g)"
  "json_safe (ordering_payload r)"
  "time_context_ok t \<Longrightarrow> json_safe (time_context_payload t)"
  "json_safe (provenance_payload p)"
  "extension_ok x \<Longrightarrow> json_safe (extension_payload x)"
proof -
  show "selection_ok s \<Longrightarrow> json_safe (selection_payload s)"
    unfolding selection_payload_def json_safe_vdict
    by (auto simp: selection_ok_def constructible_payload_safe intro!: opt_member_safe)
  show "filter_ok f \<Longrightarrow> json_safe (filter_payload f)"
    by (simp add: filter_payload_def filter_ok_def flat_json_safe scalar_or_scalars_flat)
  show "grouping_ok g \<Longrightarrow> json_safe (grouping_payload g)"
    unfolding grouping_payload_def json_safe_vdict
    by (auto simp: grouping_ok_def constructible_payload_safe intro!: opt_member_safe)
  show "json_safe (ordering_payload r)" by (simp add: ordering_payload_def)
  show "time_context_ok t \<Longrightarrow> json_safe (time_context_payload t)"
    by (simp add: time_context_payload_def flat_json_safe time_context_flat)
  show "json_safe (provenance_payload p)"
    unfolding provenance_payload_def json_safe_vdict
    by (auto simp: view_reference_payload_def intro!: opt_member_safe)
  show "extension_ok x \<Longrightarrow> json_safe (extension_payload x)"
    using check_json_value_safe [of "VDict (ext_payload x)"]
    by (simp add: extension_payload_def extension_ok_def del: check_json_value.simps)
qed

lemma ir_payload_safe:
  assumes "ir_valid q"
  shows "json_safe (ir_payload q)"
proof -
  have parts: "list_all selection_ok (selections q)" "list_all filter_ok (filters q)" "list_all grouping_ok (groupings q)"
    "opt_all time_context_ok (time_context q)" "list_all extension_ok (extensions q)"
    using assms by (simp_all add: ir_valid_def ir_parts_ok_def)
  then have "json_safe (vopt time_context_payload (time_context q))"
    by (cases "time_context q") (simp_all add: part_payloads_safe)
  with parts show ?thesis
    unfolding ir_payload_def json_safe_vdict by (auto simp: list_all_iff part_payloads_safe)
qed

lemma new_query:
  "new_SemanticQueryIR a = Inr q \<longleftrightarrow>
     (ir_fingerprint a = [] \<or> fingerprint_ok (ir_fingerprint a)) \<and> ir_valid a \<and>
     q = a\<lparr>ir_fingerprint := fingerprint_of (ir_payload a)\<rparr>"
  by (auto simp: new_SemanticQueryIR_def fingerprint_of_eq ir_payload_safe)

lemma payload_ignores_fingerprint [simp]: "ir_payload (q\<lparr>ir_fingerprint := fp\<rparr>) = ir_payload q"
  by (simp add: ir_payload_def)

lemma valid_ignores_fingerprint [simp]: "ir_valid (q\<lparr>ir_fingerprint := fp\<rparr>) \<longleftrightarrow> ir_valid q"
proof -
  have "computed_by_field (q\<lparr>ir_fingerprint := fp\<rparr>) = computed_by_field q" by (simp add: computed_by_field_def)
  then have "grouping_anchored (q\<lparr>ir_fingerprint := fp\<rparr>) = grouping_anchored q"
    by (intro ext) (simp add: grouping_anchored_def split: option.split)
  then show ?thesis by (simp add: ir_valid_def ir_parts_ok_def expressions_valid_def expression_capabilities_def)
qed

lemma built_query:
  "new_SemanticQueryIR a = Inr q \<Longrightarrow> ir_valid q \<and> ir_fingerprint q = fingerprint_of (ir_payload q)"
  by (auto simp: new_query)

section \<open>The canonical text identifies the query\<close>

text \<open>The query with its capabilities sorted and the members of extension payloads in canonical order.\<close>

definition extension_normal :: "IRExtension \<Rightarrow> IRExtension" where
  "extension_normal x = x\<lparr>ext_payload := by_name (map (\<lambda>(k, v). (k, normal v)) (ext_payload x))\<rparr>"

definition ir_normal :: "SemanticQueryIR \<Rightarrow> SemanticQueryIR" where
  "ir_normal q = q\<lparr>required_capabilities := sort (required_capabilities q), extensions := map extension_normal (extensions q)\<rparr>"

lemma extension_payload_normal:
  "normal (extension_payload x) = normal (extension_payload y) \<longleftrightarrow> extension_normal x = extension_normal y"
proof
  assume eq: "normal (extension_payload x) = normal (extension_payload y)"
  note member = normal_vdict_eq [OF eq [unfolded extension_payload_def]]
  show "extension_normal x = extension_normal y"
    using member [of "''extension_id''"] member [of "''kind''"] member [of "''payload''"]
    by (cases x; cases y) (simp add: extension_normal_def)
qed (cases x; cases y; simp add: extension_normal_def extension_payload_def)

lemma extension_payloads_normal:
  "map (\<lambda>x. normal (extension_payload x)) xs = map (\<lambda>x. normal (extension_payload x)) ys \<longleftrightarrow>
   map extension_normal xs = map extension_normal ys"
  by (auto simp: list_eq_iff_nth_eq extension_payload_normal)

lemma map_normal_inj:
  assumes "normal (VList (map f xs)) = normal (VList (map f ys))" "list_all P xs" "list_all P ys"
    and "\<And>a b. normal (f a) = normal (f b) \<Longrightarrow> P a \<Longrightarrow> P b \<Longrightarrow> a = b"
  shows "xs = ys"
proof (rule map_determines [of "\<lambda>x. normal (f x)"])
  show "map (\<lambda>x. normal (f x)) xs = map (\<lambda>x. normal (f x)) ys" using assms(1) by (simp add: comp_def)
qed (use assms(2-4) in \<open>auto simp: list_all_iff\<close>)

lemma ir_payload_keys:
  "dict_ok [(''ir_version'', a), (''ir_id'', b), (''source_id'', c), (''root_entity_id'', d), (''selections'', e),
     (''filters'', f), (''groupings'', g), (''orderings'', h), (''limit'', i), (''time_context'', j),
     (''result_shape'', k), (''provenance'', l), (''required_capabilities'', m), (''extensions'', n)]"
  by simp

lemma ir_payload_normal:
  assumes "ir_valid q" "ir_valid r"
    and "ir_fingerprint q = fingerprint_of (ir_payload q)" "ir_fingerprint r = fingerprint_of (ir_payload r)"
  shows "normal (ir_payload q) = normal (ir_payload r) \<longleftrightarrow> ir_normal q = ir_normal r"
proof
  assume eq: "normal (ir_payload q) = normal (ir_payload r)"
  note member = normal_vdict_eq [OF eq [unfolded ir_payload_def] ir_payload_keys ir_payload_keys]
  have ok: "list_all selection_ok (selections q)" "list_all selection_ok (selections r)"
    "list_all filter_ok (filters q)" "list_all filter_ok (filters r)"
    "list_all grouping_ok (groupings q)" "list_all grouping_ok (groupings r)"
    "opt_all time_context_ok (time_context q)" "opt_all time_context_ok (time_context r)"
    using assms(1,2) by (simp_all add: ir_valid_def ir_parts_ok_def)
  have lists: "selections q = selections r" "filters q = filters r" "groupings q = groupings r" "orderings q = orderings r"
    using map_normal_inj [OF _ ok(1,2) selection_payload_inj] map_normal_inj [OF _ ok(3,4) filter_payload_inj]
      map_normal_inj [OF _ ok(5,6) grouping_payload_inj]
      map_normal_inj [where P = "\<lambda>_. True" and f = ordering_payload and xs = "orderings q" and ys = "orderings r"]
      ordering_payload_inj member [of "''selections''"] member [of "''filters''"] member [of "''groupings''"]
      member [of "''orderings''"]
    by (simp_all add: list.pred_True del: normal.simps)
  have "time_context q = time_context r"
    using member [of "''time_context''"] ok(7,8) time_context_payload_inj
    by (cases "time_context q"; cases "time_context r") (auto simp: time_context_payload_def)
  moreover have "result_shape q = result_shape r" using member [of "''result_shape''"] by (simp add: by_name_def)
  moreover have "provenance q = provenance r"
    using member [of "''provenance''"] by (simp add: provenance_payload_inj del: normal.simps)
  moreover have "sort (required_capabilities q) = sort (required_capabilities r)"
    using member [of "''required_capabilities''"] by (simp add: comp_def)
       (metis (no_types, lifting) injI inj_map_eq_map jv.inject(4))
  moreover have "map extension_normal (extensions q) = map extension_normal (extensions r)"
    using member [of "''extensions''"] by (simp add: comp_def extension_payloads_normal)
  moreover have "ir_fingerprint q = ir_fingerprint r"
    using eq assms(3,4) by (simp add: fingerprint_of_def encode_normal)
  ultimately show "ir_normal q = ir_normal r"
    using lists member [of "''ir_version''"] member [of "''ir_id''"] member [of "''source_id''"]
      member [of "''root_entity_id''"] member [of "''limit''"]
    by (cases q; cases r) (simp add: ir_normal_def)
next
  assume "ir_normal q = ir_normal r"
  moreover from this have "map extension_normal (extensions q) = map extension_normal (extensions r)"
    by (cases q; cases r) (simp add: ir_normal_def)
  ultimately show "normal (ir_payload q) = normal (ir_payload r)"
    by (cases q; cases r) (simp add: ir_normal_def ir_payload_def comp_def flip: extension_payloads_normal)
qed

section \<open>Properties\<close>


lemma fold_union_map: "x |\<in>| fold (\<lambda>e s. s |\<union>| f e) es s0 \<longleftrightarrow> x |\<in>| s0 \<or> (\<exists>e \<in> set es. x |\<in>| f e)"
  by (induction es arbitrary: s0) auto

lemma set_map_filter: "set (List.map_filter f xs) = {y. \<exists>x \<in> set xs. f x = Some y}"
  by (induction xs) (auto simp: List.map_filter_simps split: option.splits)

lemma computed_by_field_sound:
  "fmlookup (fold (\<lambda>s m. case sel_expression s of None \<Rightarrow> m | Some e \<Rightarrow> fmupd (sel_field_id s) e m) ss m) f = Some e \<Longrightarrow>
   fmlookup m f = Some e \<or> (\<exists>s \<in> set ss. sel_field_id s = f \<and> sel_expression s = Some e)"
  by (induction ss arbitrary: m) (fastforce split: option.splits if_splits)+

text \<open>
  Computed expressions are declared and anchored: a query is built only when every expression it
  computes is one the bounded grammar can build, names its capabilities (and the prior-period
  capability when it compares with a prior period) among the required ones, leaves the aggregation
  of its selection at none, and when every computed grouping repeats the expression of a computed
  selection of the same output, up to the equality of payloads.
\<close>

theorem computed_expressions_declared:
  assumes "new_SemanticQueryIR a = Inr q"
  shows "(\<forall>e \<in> set (used_expressions (selections q) (groupings q)).
      constructible e \<and> EXPRESSION_CAPABILITY \<in> set (required_capabilities q) \<and>
      (iter_prior_period_nodes e \<noteq> [] \<longrightarrow> PRIOR_PERIOD_CAPABILITY \<in> set (required_capabilities q))) \<and>
    (\<forall>s \<in> set (selections q). sel_expression s \<noteq> None \<longrightarrow> aggregation s = ''none'') \<and>
    (\<forall>g \<in> set (groupings q). \<forall>e. grp_expression g = Some e \<longrightarrow>
      (\<exists>s \<in> set (selections q). \<exists>e'. sel_field_id s = grp_field_id g \<and> sel_expression s = Some e' \<and>
        expressions_equal e' e))"
proof -
  have valid: "ir_valid q" using assms built_query by blast
  have parts: "\<forall>s \<in> set (selections q). selection_ok s" "\<forall>g \<in> set (groupings q). grouping_ok g"
    using valid by (simp_all add: ir_valid_def ir_parts_ok_def list_all_iff)
  have used: "constructible e \<and> expression_required_capabilities e |\<subseteq>| fset_of_list (required_capabilities q)"
    if "e \<in> set (used_expressions (selections q) (groupings q))" for e
  proof
    show "constructible e"
      using parts that by (auto simp: used_expressions_def set_map_filter selection_ok_def grouping_ok_def)
    show "expression_required_capabilities e |\<subseteq>| fset_of_list (required_capabilities q)"
      using valid that
      by (auto simp: ir_valid_def expressions_valid_def expression_capabilities_def fold_union_map less_eq_fset.rep_eq subset_iff)
  qed
  have "\<exists>s \<in> set (selections q). \<exists>e'. sel_field_id s = grp_field_id g \<and> sel_expression s = Some e' \<and> expressions_equal e' e"
    if g: "g \<in> set (groupings q)" and e: "grp_expression g = Some e" for g e
  proof -
    have "grouping_anchored q g" using valid g by (simp add: ir_valid_def expressions_valid_def list_all_iff)
    then obtain e' where "fmlookup (computed_by_field q) (grp_field_id g) = Some e'" "expressions_equal e' e"
      using e by (auto simp: grouping_anchored_def split: option.splits)
    then show ?thesis using computed_by_field_sound [of "selections q" fmempty "grp_field_id g" e']
      by (auto simp: computed_by_field_def)
  qed
  moreover have "EXPRESSION_CAPABILITY |\<in>| expression_required_capabilities e"
    "iter_prior_period_nodes e \<noteq> [] \<Longrightarrow> PRIOR_PERIOD_CAPABILITY |\<in>| expression_required_capabilities e" for e
    by (auto simp: expression_required_capabilities_def iter_prior_period_nodes_def filter_empty_conv list_ex_iff)
  moreover have "aggregation s = ''none''" if "s \<in> set (selections q)" "sel_expression s \<noteq> None" for s
    using parts(1) that by (auto simp: selection_ok_def)
  ultimately show ?thesis using used by (fastforce simp: less_eq_fset.rep_eq fset_of_list.rep_eq)
qed

text \<open>A monthly revenue ratio, as two queries whose capabilities are declared in different orders.\<close>

definition sample_query :: "string list \<Rightarrow> string \<Rightarrow> SemanticQueryIR" where
  "sample_query caps fp =
     \<lparr>ir_version = 1, ir_id = ''q1'', ir_source_id = ''sales'', ir_root_entity_id = ''orders'',
      selections = [\<lparr>selection_id = ''s1'', sel_field_id = ''ratio'', sel_alias = None, aggregation = ''none'',
        sel_expression = Some sample_ratio\<rparr>],
      filters = [], groupings = [\<lparr>grouping_id = ''g1'', grp_field_id = ''ratio'', grp_expression = Some sample_ratio\<rparr>],
      orderings = [], ir_limit = Some 10, time_context = None, result_shape = ''grouped_rows'',
      provenance = \<lparr>prov_source_id = ''sales'', prov_root_entity_id = ''orders'', prov_catalog_fingerprint = None,
        policy_view_fingerprint = None, view_reference = None, join_plan_fingerprint = None\<rparr>,
      required_capabilities = caps, extensions = [], ir_fingerprint = fp\<rparr>"

lemma sample_ratio_caps:
  "expression_required_capabilities sample_ratio = {|EXPRESSION_CAPABILITY, PRIOR_PERIOD_CAPABILITY|}"
  "expressions_equal sample_ratio sample_ratio"
  by (simp_all add: sample_ratio_def expression_required_capabilities_def expressions_equal_def field_payload_def
    filter_member_def)

lemma sample_query_valid:
  assumes "caps = [EXPRESSION_CAPABILITY, PRIOR_PERIOD_CAPABILITY] \<or> caps = [PRIOR_PERIOD_CAPABILITY, EXPRESSION_CAPABILITY]"
  shows "ir_valid (sample_query caps fp)"
proof -
  have names: "identifier_ok ''q1''" "identifier_ok ''sales''" "identifier_ok ''orders''" "identifier_ok ''s1''"
    "identifier_ok ''ratio''" "identifier_ok ''g1''" "identifier_ok EXPRESSION_CAPABILITY" "identifier_ok PRIOR_PERIOD_CAPABILITY"
    by (simp_all add: pattern_simps EXPRESSION_CAPABILITY_def PRIOR_PERIOD_CAPABILITY_def)
  have caps: "distinct caps" "length caps \<le> 64" "list_all identifier_ok caps"
    "{|EXPRESSION_CAPABILITY, PRIOR_PERIOD_CAPABILITY|} |\<subseteq>| fset_of_list caps"
    using assms names by (auto simp: EXPRESSION_CAPABILITY_def PRIOR_PERIOD_CAPABILITY_def)
  show ?thesis using names caps sample_ratio_constructible
    by (simp add: sample_query_def ir_valid_def ir_parts_ok_def selection_ok_def grouping_ok_def provenance_ok_def
      AGGREGATION_KINDS_def expressions_valid_def expression_capabilities_def used_expressions_def
      List.map_filter_simps grouping_anchored_def computed_by_field_def sample_ratio_caps)
qed

lemma sample_query_built:
  assumes "caps = [EXPRESSION_CAPABILITY, PRIOR_PERIOD_CAPABILITY] \<or> caps = [PRIOR_PERIOD_CAPABILITY, EXPRESSION_CAPABILITY]"
  shows "new_SemanticQueryIR (sample_query caps []) =
    Inr (sample_query caps (fingerprint_of (ir_payload (sample_query caps []))))"
  using sample_query_valid [OF assms] by (simp add: new_query) (simp add: sample_query_def)

lemma sample_query_float_free: "float_free (ir_payload (sample_query caps fp))"
  by (simp add: sample_query_def ir_payload_def selection_payload_def grouping_payload_def provenance_payload_def
    opt_member_def sample_ratio_def field_payload_def filter_member_def list_all_iff)


theorem computed_expressions_declared_witness:
  "PRIOR_PERIOD_CAPABILITY \<in> set (required_capabilities (sample_query [EXPRESSION_CAPABILITY, PRIOR_PERIOD_CAPABILITY] [])) \<and>
   iter_prior_period_nodes sample_ratio \<noteq> []"
  using computed_expressions_declared [OF sample_query_built [of "[EXPRESSION_CAPABILITY, PRIOR_PERIOD_CAPABILITY]"]]
  by (simp add: sample_query_def used_expressions_def List.map_filter_simps sample_ratio_def iter_prior_period_nodes_def)

end
