(* ===== verification/Governance.thy ===== *)
theory Governance
  imports Canonical_Json
begin

text \<open>
  Governance: \<^verbatim>\<open>src/nl2data_core/governance/models.py\<close>, \<^verbatim>\<open>decisions.py\<close> and
  \<^verbatim>\<open>authorization.py\<close>.  A policy scope is evaluated against typed facts, default-deny; an execution
  authorization is issued for one artifact and verified before it runs.

  The identifier that \<open>issue\<close> draws from \<open>uuid4\<close> and the clock readings are arguments.  A float number
  of seconds is the rational it stands for; the lifetime of an authorization is given in microseconds,
  to which \<open>timedelta\<close> rounds it.  A reasons tuple has at most 32 entries: pydantic rejects a longer one,
  which is an error value here.
\<close>

section \<open>Models\<close>

definition SUPPORTED_OPERATIONS :: "string list" where
  "SUPPORTED_OPERATIONS = [''select'']"

datatype GovernanceDecision = ALLOW | DENY | UNSUPPORTED

record GovernanceFacts =
  fact_source :: string
  fact_operation :: string
  fact_resources :: "string fset"
  fact_fields :: "string fset"
  fact_filters :: "string fset"
  fact_ir :: "string option"
  fact_view :: "string option"
  fact_bundle :: "string option"
  fact_capabilities :: "string fset"
  fact_artifact :: "string option"
  fact_tenant :: "string option"
  fact_isolation :: "string option"

abbreviation profile_text_ok :: "string \<Rightarrow> bool" where
  "profile_text_ok s \<equiv> 1 \<le> length s \<and> length s \<le> 32"

definition facts_valid :: "GovernanceFacts \<Rightarrow> bool" where
  "facts_valid f \<longleftrightarrow>
     identifier_ok (fact_source f) \<and> 1 \<le> length (fact_operation f) \<and> length (fact_operation f) \<le> 64 \<and>
     opt_all fingerprint_ok (fact_ir f) \<and> opt_all fingerprint_ok (fact_view f) \<and> opt_all fingerprint_ok (fact_bundle f) \<and>
     opt_all fingerprint_ok (fact_artifact f) \<and> opt_all fingerprint_ok (fact_tenant f) \<and>
     opt_all profile_text_ok (fact_isolation f) \<and> fBall (fact_filters f) fingerprint_ok"

record PolicyScope =
  policy_id :: string
  scope_sources :: "string fset"
  scope_resources :: "string fset"
  scope_operations :: "string fset"
  scope_fields :: "string fset"
  scope_tenant :: "string option"
  scope_isolation :: "string option"

definition policy_valid :: "PolicyScope \<Rightarrow> bool" where
  "policy_valid s \<longleftrightarrow>
     identifier_ok (policy_id s) \<and> opt_all fingerprint_ok (scope_tenant s) \<and> opt_all profile_text_ok (scope_isolation s)"

definition policy_payload :: "PolicyScope \<Rightarrow> jv" where
  "policy_payload s = vdict
     [(''policy_id'', VStr (policy_id s)),
      (''source_ids'', VList (map VStr (sorted_list_of_fset (scope_sources s)))),
      (''resource_ids'', VList (map VStr (sorted_list_of_fset (scope_resources s)))),
      (''operation_ids'', VList (map VStr (sorted_list_of_fset (scope_operations s)))),
      (''field_ids'', VList (map VStr (sorted_list_of_fset (scope_fields s)))),
      (''tenant_scope_fingerprint'', vopt VStr (scope_tenant s)), (''isolation_profile'', vopt VStr (scope_isolation s))]"

definition policy_fingerprint :: "PolicyScope \<Rightarrow> string" where
  "policy_fingerprint s = fingerprint_of (policy_payload s)"

record GovernanceDecisionResult =
  decision :: GovernanceDecision
  decision_reasons :: "string list"
  decision_policy :: "string option"

definition new_GovernanceDecisionResult :: "GovernanceDecision \<Rightarrow> string list \<Rightarrow> string option \<Rightarrow> GovernanceDecisionResult res" where
  "new_GovernanceDecisionResult d rs fp =
     (if length rs \<le> 32 then Inr \<lparr>decision = d, decision_reasons = rs, decision_policy = fp\<rparr> else Inl ValidationError)"

definition allowed :: "GovernanceDecisionResult \<Rightarrow> bool" where
  "allowed r \<longleftrightarrow> decision r = ALLOW"

record MandatoryFilterObligation =
  obligation_id :: string
  obligation_field :: string
  obligation_operator :: string
  obligation_value :: jv
  obligation_fp :: string

definition new_MandatoryFilterObligation :: "string \<Rightarrow> string \<Rightarrow> string \<Rightarrow> jv \<Rightarrow> MandatoryFilterObligation res" where
  "new_MandatoryFilterObligation oid field operator val =
     (if \<not> (identifier_ok oid \<and> identifier_ok field \<and> 1 \<le> length operator \<and> length operator \<le> 32) then Inl ValidationError
      else case strict_sha256_fingerprint (vdict [(''field_id'', VStr field), (''operator'', VStr operator), (''value'', val)]) of
             Inl _ \<Rightarrow> Inl ValidationError
           | Inr fp \<Rightarrow> Inr \<lparr>obligation_id = oid, obligation_field = field, obligation_operator = operator,
                              obligation_value = val, obligation_fp = fp\<rparr>)"

record EffectiveLimits =
  max_rows :: int
  max_columns :: int
  max_execution_seconds :: rat
  max_result_bytes :: int

definition limits_valid :: "EffectiveLimits \<Rightarrow> bool" where
  "limits_valid l \<longleftrightarrow>
     1 \<le> max_rows l \<and> max_rows l \<le> 1000000000 \<and> 1 \<le> max_columns l \<and> max_columns l \<le> 100000 \<and>
     0 < max_execution_seconds l \<and> max_execution_seconds l \<le> 3600 \<and>
     1 \<le> max_result_bytes l \<and> max_result_bytes l \<le> 1073741824"

definition default_limits :: EffectiveLimits where
  "default_limits = \<lparr>max_rows = 100000, max_columns = 1000, max_execution_seconds = 30, max_result_bytes = 10000000\<rparr>"

record ExecutionAuthorization =
  authorization_id :: string
  auth_policy :: string
  auth_adapter :: string
  auth_source :: string
  auth_operation :: string
  auth_artifact :: string
  auth_ir :: "string option"
  auth_view :: "string option"
  auth_bundle :: "string option"
  auth_capabilities :: "string fset"
  auth_tenant :: "string option"
  auth_isolation :: "string option"
  auth_limits :: EffectiveLimits
  auth_filters :: "string fset"
  issued_at :: timestamp
  auth_expires_at :: timestamp

definition ISOLATION_PROFILES :: "string list" where
  "ISOLATION_PROFILES = [''pooled'', ''schema_isolated'', ''database_isolated'', ''deployment_isolated'']"

definition authorization_valid :: "ExecutionAuthorization \<Rightarrow> bool" where
  "authorization_valid a \<longleftrightarrow>
     identifier_ok (authorization_id a) \<and> fingerprint_ok (auth_policy a) \<and> identifier_ok (auth_adapter a) \<and>
     identifier_ok (auth_source a) \<and> auth_operation a = ''select'' \<and> fingerprint_ok (auth_artifact a) \<and>
     opt_all fingerprint_ok (auth_ir a) \<and> opt_all fingerprint_ok (auth_view a) \<and> opt_all fingerprint_ok (auth_bundle a) \<and>
     opt_all fingerprint_ok (auth_tenant a) \<and> opt_all profile_text_ok (auth_isolation a) \<and> limits_valid (auth_limits a) \<and>
     fBall (auth_filters a) fingerprint_ok \<and> (auth_tenant a = None \<longleftrightarrow> auth_isolation a = None) \<and>
     opt_all (\<lambda>p. p \<in> set ISOLATION_PROFILES) (auth_isolation a) \<and> issued_at a < auth_expires_at a"

definition authorization_expired :: "ExecutionAuthorization \<Rightarrow> timestamp \<Rightarrow> bool" where
  "authorization_expired a now \<longleftrightarrow> auth_expires_at a \<le> now"

section \<open>Evaluation\<close>

definition source_reasons :: "GovernanceFacts \<Rightarrow> PolicyScope \<Rightarrow> string list" where
  "source_reasons f s =
     (if fact_source f = [] then [''missing source fact'']
      else if fact_source f |\<notin>| scope_sources s then [''source '' @ quoted (fact_source f) @ '' is not in policy scope'']
      else [])"

definition resource_reasons :: "GovernanceFacts \<Rightarrow> PolicyScope \<Rightarrow> string list" where
  "resource_reasons f s =
     (if fact_resources f = {||} then [''missing resource facts'']
      else map (\<lambda>r. ''resource '' @ quoted r @ '' is not in policy scope'')
             (filter (\<lambda>r. r |\<notin>| scope_resources s) (sorted_list_of_fset (fact_resources f))))"

definition field_reasons :: "GovernanceFacts \<Rightarrow> PolicyScope \<Rightarrow> string list" where
  "field_reasons f s =
     (if fact_fields f = {||} then [''missing field facts'']
      else map (\<lambda>r. ''field '' @ quoted r @ '' is not in policy scope'')
             (filter (\<lambda>r. r |\<notin>| scope_fields s) (sorted_list_of_fset (fact_fields f))))"

definition operation_reasons :: "GovernanceFacts \<Rightarrow> PolicyScope \<Rightarrow> string list" where
  "operation_reasons f s =
     (if fact_operation f |\<notin>| scope_operations s
      then [''operation '' @ quoted (fact_operation f) @ '' is not in policy scope''] else [])"

definition tenant_reasons :: "GovernanceFacts \<Rightarrow> PolicyScope \<Rightarrow> string list" where
  "tenant_reasons f s =
     (case scope_tenant s of
        None \<Rightarrow> []
      | Some t \<Rightarrow>
          (case fact_tenant f of
             None \<Rightarrow> [''tenant-scoped execution requires a trusted tenant scope fingerprint'']
           | Some t' \<Rightarrow> if t' \<noteq> t then [''tenant scope fingerprint does not match the policy scope''] else []) @
          (if scope_isolation s = None then [''tenant-scoped policy requires an isolation profile''] else [])) @
     (if scope_isolation s \<noteq> None \<and> fact_isolation f \<noteq> scope_isolation s
      then [''isolation profile does not match the policy scope''] else [])"

definition deny_reasons :: "GovernanceFacts \<Rightarrow> PolicyScope \<Rightarrow> string list" where
  "deny_reasons f s =
     source_reasons f s @ resource_reasons f s @ field_reasons f s @ operation_reasons f s @ tenant_reasons f s"

definition evaluate :: "GovernanceFacts option \<Rightarrow> PolicyScope option \<Rightarrow> GovernanceDecisionResult res" where
  "evaluate facts scope =
     (case facts of
        None \<Rightarrow> new_GovernanceDecisionResult DENY [''missing governance facts''] None
      | Some f \<Rightarrow>
          (case scope of
             None \<Rightarrow> new_GovernanceDecisionResult DENY [''missing policy scope''] None
           | Some s \<Rightarrow>
               if fact_operation f \<notin> set SUPPORTED_OPERATIONS then
                 new_GovernanceDecisionResult UNSUPPORTED
                   [''operation '' @ quoted (fact_operation f) @ '' is not supported by governance'']
                   (Some (policy_fingerprint s))
               else if deny_reasons f s \<noteq> [] then
                 new_GovernanceDecisionResult DENY (deny_reasons f s) (Some (policy_fingerprint s))
               else
                 new_GovernanceDecisionResult ALLOW [''explicitly allowed by policy scope''] (Some (policy_fingerprint s))))"

section \<open>Authorizations\<close>

record binding =
  b_artifact :: string
  b_adapter :: string
  b_source :: string
  b_operation :: string
  b_ir :: "string option"
  b_view :: "string option"
  b_bundle :: "string option"
  b_capabilities :: "string fset"
  b_filters :: "string fset"
  b_tenant :: "string option"
  b_isolation :: "string option"

text \<open>The keyword arguments that \<open>issue\<close> and \<open>verify\<close> share are the record \<^typ>\<open>binding\<close>.\<close>

definition issue ::
  "string \<Rightarrow> timestamp \<Rightarrow> PolicyScope \<Rightarrow> binding \<Rightarrow> EffectiveLimits option \<Rightarrow> int \<Rightarrow> ExecutionAuthorization res" where
  "issue uid clock policy b limits ttl =
     (let a = \<lparr>authorization_id = ''authz-'' @ take 16 uid, auth_policy = policy_fingerprint policy, auth_adapter = b_adapter b,
               auth_source = b_source b, auth_operation = b_operation b, auth_artifact = b_artifact b, auth_ir = b_ir b,
               auth_view = b_view b, auth_bundle = b_bundle b, auth_capabilities = b_capabilities b,
               auth_tenant = b_tenant b, auth_isolation = b_isolation b,
               auth_limits = (case limits of None \<Rightarrow> default_limits | Some l \<Rightarrow> l), auth_filters = b_filters b,
               issued_at = clock, auth_expires_at = clock + ttl\<rparr>
      in if authorization_valid a then Inr a else Inl ValidationError)"

record verification =
  verified :: bool
  verification_reasons :: "string list"

definition reason_if :: "bool \<Rightarrow> string \<Rightarrow> string list" where
  "reason_if b s = (if b then [s] else [])"

definition verify_reasons :: "ExecutionAuthorization \<Rightarrow> binding \<Rightarrow> timestamp \<Rightarrow> string list" where
  "verify_reasons a b now =
     reason_if (authorization_expired a now) ''authorization has expired'' @
     reason_if (auth_artifact a \<noteq> b_artifact b) ''artifact fingerprint does not match the authorized artifact'' @
     reason_if (auth_adapter a \<noteq> b_adapter b) ''adapter type does not match the authorization'' @
     reason_if (auth_source a \<noteq> b_source b) ''source does not match the authorization'' @
     reason_if (auth_operation a \<noteq> b_operation b) ''operation does not match the authorization'' @
     reason_if (auth_ir a \<noteq> None \<and> auth_ir a \<noteq> b_ir b) ''IR fingerprint does not match the authorization'' @
     reason_if (auth_view a \<noteq> None \<and> auth_view a \<noteq> b_view b) ''view fingerprint does not match the authorization'' @
     reason_if (auth_bundle a \<noteq> None \<and> auth_bundle a \<noteq> b_bundle b) ''model bundle fingerprint does not match the authorization'' @
     map (\<lambda>c. ''bound capability '' @ quoted c @ '' is not available on the adapter'')
       (filter (\<lambda>c. c |\<notin>| b_capabilities b) (sorted_list_of_fset (auth_capabilities a))) @
     reason_if (auth_tenant a \<noteq> b_tenant b) ''tenant scope fingerprint does not match the authorization'' @
     reason_if (auth_isolation a \<noteq> b_isolation b) ''isolation profile does not match the authorization'' @
     map (\<lambda>m. ''required protected filter '' @ quoted m @ '' is missing from the query'')
       (filter (\<lambda>m. m |\<notin>| b_filters b) (sorted_list_of_fset (auth_filters a)))"

definition verify :: "ExecutionAuthorization \<Rightarrow> binding \<Rightarrow> timestamp \<Rightarrow> verification res" where
  "verify a b now =
     (let rs = verify_reasons a b now
      in if length rs \<le> 32 then Inr \<lparr>verified = (rs = []), verification_reasons = rs\<rparr> else Inl ValidationError)"

definition obligations_fingerprints :: "MandatoryFilterObligation list \<Rightarrow> string fset" where
  "obligations_fingerprints os = fset_of_list (map obligation_fp os)"

definition missing_obligations :: "MandatoryFilterObligation list \<Rightarrow> string fset \<Rightarrow> MandatoryFilterObligation list" where
  "missing_obligations os present = filter (\<lambda>ob. obligation_fp ob |\<notin>| present) os"

section \<open>When there is no reason\<close>

named_theorems governance_simps \<open>when the reason lists are empty\<close>

lemma reason_if_Nil [governance_simps]: "reason_if b s = [] \<longleftrightarrow> \<not> b"
  by (simp add: reason_if_def)

lemma filter_sorted_fset_Nil [governance_simps]: "filter P (sorted_list_of_fset X) = [] \<longleftrightarrow> fBall X (\<lambda>x. \<not> P x)"
  by (auto simp: filter_empty_conv)

definition in_scope :: "GovernanceFacts \<Rightarrow> PolicyScope \<Rightarrow> bool" where
  "in_scope f s \<longleftrightarrow>
     fact_source f \<noteq> [] \<and> fact_source f |\<in>| scope_sources s \<and>
     fact_resources f \<noteq> {||} \<and> fact_resources f |\<subseteq>| scope_resources s \<and>
     fact_fields f \<noteq> {||} \<and> fact_fields f |\<subseteq>| scope_fields s \<and>
     fact_operation f |\<in>| scope_operations s \<and>
     (scope_tenant s \<noteq> None \<longrightarrow> fact_tenant f = scope_tenant s \<and> scope_isolation s \<noteq> None) \<and>
     (scope_isolation s \<noteq> None \<longrightarrow> fact_isolation f = scope_isolation s)"

lemma no_deny_reasons: "deny_reasons f s = [] \<longleftrightarrow> in_scope f s"
proof -
  have "source_reasons f s = [] \<longleftrightarrow> fact_source f \<noteq> [] \<and> fact_source f |\<in>| scope_sources s"
    by (simp add: source_reasons_def)
  moreover have "resource_reasons f s = [] \<longleftrightarrow> fact_resources f \<noteq> {||} \<and> fact_resources f |\<subseteq>| scope_resources s"
    by (auto simp: resource_reasons_def governance_simps)
  moreover have "field_reasons f s = [] \<longleftrightarrow> fact_fields f \<noteq> {||} \<and> fact_fields f |\<subseteq>| scope_fields s"
    by (auto simp: field_reasons_def governance_simps)
  moreover have "tenant_reasons f s = [] \<longleftrightarrow>
      (scope_tenant s \<noteq> None \<longrightarrow> fact_tenant f = scope_tenant s \<and> scope_isolation s \<noteq> None) \<and>
      (scope_isolation s \<noteq> None \<longrightarrow> fact_isolation f = scope_isolation s)"
    by (auto simp: tenant_reasons_def split: option.splits)
  ultimately show ?thesis
    by (simp add: deny_reasons_def in_scope_def operation_reasons_def)
qed

definition matches :: "ExecutionAuthorization \<Rightarrow> binding \<Rightarrow> bool" where
  "matches a b \<longleftrightarrow>
     auth_artifact a = b_artifact b \<and> auth_adapter a = b_adapter b \<and> auth_source a = b_source b \<and>
     auth_operation a = b_operation b \<and> (auth_ir a = None \<or> auth_ir a = b_ir b) \<and>
     (auth_view a = None \<or> auth_view a = b_view b) \<and> (auth_bundle a = None \<or> auth_bundle a = b_bundle b) \<and>
     auth_capabilities a |\<subseteq>| b_capabilities b \<and> auth_tenant a = b_tenant b \<and>
     auth_isolation a = b_isolation b \<and> auth_filters a |\<subseteq>| b_filters b"

lemma no_verify_reasons: "verify_reasons a b now = [] \<longleftrightarrow> matches a b \<and> now < auth_expires_at a"
  by (auto simp: verify_reasons_def governance_simps matches_def authorization_expired_def)

section \<open>Policy fingerprints\<close>

lemma sorted_list_of_fset_inject [simp]: "sorted_list_of_fset X = sorted_list_of_fset Y \<longleftrightarrow> X = Y"
  by (metis sorted_list_of_fset_simps(2))

lemma sorted_list_of_fset_empty [simp]: "sorted_list_of_fset {||} = []"
  by (simp add: sorted_list_of_fset.rep_eq)

lemma vopt_VStr_inject [simp]: "vopt VStr x = vopt VStr y \<longleftrightarrow> x = y"
  by (cases x; cases y) simp_all

lemma normal_strings [simp]: "map (normal \<circ> VStr) xs = map VStr xs"
  by (simp add: comp_def)

lemma policy_payload_exact: "json_safe (policy_payload s)" "float_free (policy_payload s)"
  by (simp_all add: policy_payload_def list_all_iff)

lemma VStr_lists [simp]: "map VStr xs = map VStr ys \<longleftrightarrow> xs = ys"
  by (simp add: inj_map_eq_map inj_on_def)

section \<open>Properties\<close>


text \<open>
  A broad enough violation is not denied but raises: when more than 32 requested fields are
  outside the policy scope, the result of the evaluation cannot be built and a validation error
  leaves the evaluator instead of a decision.
\<close>

theorem many_denied_fields_raise:
  assumes "fact_operation f = ''select''" and "32 < fcard (fact_fields f |-| scope_fields s)"
  shows "evaluate (Some f) (Some s) = Inl ValidationError"
proof -
  have "set (filter (\<lambda>r. r |\<notin>| scope_fields s) (sorted_list_of_fset (fact_fields f))) =
      fset (fact_fields f |-| scope_fields s)" by auto
  then have "fcard (fact_fields f |-| scope_fields s) \<le> length (filter (\<lambda>r. r |\<notin>| scope_fields s) (sorted_list_of_fset (fact_fields f)))"
    by (metis card_length fcard.rep_eq)
  moreover have "fact_fields f \<noteq> {||}" using assms(2) by auto
  ultimately have "32 < length (field_reasons f s)" using assms(2) by (simp add: field_reasons_def)
  moreover have "length (field_reasons f s) \<le> length (deny_reasons f s)" by (simp add: deny_reasons_def)
  ultimately have "32 < length (deny_reasons f s)" by linarith
  then show ?thesis
    using assms(1) by (auto simp: evaluate_def new_GovernanceDecisionResult_def SUPPORTED_OPERATIONS_def)
qed

text \<open>
  The fingerprinted text of a policy scope identifies it: two scopes have the same text exactly
  when they are equal, so no part of a scope can change under the same policy text.
\<close>

theorem policy_text_identifies_scope:
  "strict_canonical_json (policy_payload s) = strict_canonical_json (policy_payload s') \<longleftrightarrow> s = (s' :: PolicyScope)"
proof
  assume "strict_canonical_json (policy_payload s) = strict_canonical_json (policy_payload s')"
  then have eq: "normal (policy_payload s) = normal (policy_payload s')"
    using canonical_json_exact [OF policy_payload_exact policy_payload_exact] by blast
  note member = normal_member_eq [OF eq [unfolded policy_payload_def]]
  have "policy_id s = policy_id s'" using member [of "''policy_id''" "VStr (policy_id s)" "VStr (policy_id s')"] by simp
  moreover have "scope_sources s = scope_sources s'" using member [of "''source_ids''"] by simp
  moreover have "scope_resources s = scope_resources s'" using member [of "''resource_ids''"] by simp
  moreover have "scope_operations s = scope_operations s'" using member [of "''operation_ids''"] by simp
  moreover have "scope_fields s = scope_fields s'" using member [of "''field_ids''"] by simp
  moreover have "scope_tenant s = scope_tenant s'" using member [of "''tenant_scope_fingerprint''"] by simp
  moreover have "scope_isolation s = scope_isolation s'" using member [of "''isolation_profile''"] by simp
  ultimately show "s = s'" by (cases s; cases s') simp
qed simp

text \<open>
  C18.  Verification is exact: whenever it returns, an authorization is accepted exactly when it has not
  expired and the artifact, adapter, source, operation, tenant scope and isolation profile are the
  authorized ones, every bound IR, view and bundle matches, and every bound capability and every
  mandatory filter is present.
\<close>

theorem verification_exact:
  assumes "verify a b now = Inr r"
  shows "verified r \<longleftrightarrow> matches a b \<and> now < auth_expires_at a"
  using assms no_verify_reasons [of a b now] by (auto simp: verify_def Let_def split: if_splits)

text \<open>
  An issued authorization is usable for what it was issued for, and for nothing else: until it
  expires it verifies against its own binding; it is never accepted for another artifact, source,
  adapter or tenant scope, nor after its lifetime.
\<close>

theorem issued_authorization_bound:
  assumes "issue uid clock policy b limits ttl = Inr a"
  shows "0 < ttl \<and>
    (now < clock + ttl \<longrightarrow> verify a b now = Inr \<lparr>verified = True, verification_reasons = []\<rparr>) \<and>
    (\<forall>b' r. verify a b' now = Inr r \<and> verified r \<longrightarrow>
       now < clock + ttl \<and> b_artifact b' = b_artifact b \<and> b_source b' = b_source b \<and>
       b_adapter b' = b_adapter b \<and> b_tenant b' = b_tenant b \<and> b_filters b |\<subseteq>| b_filters b')"
proof -
  have a: "auth_artifact a = b_artifact b" "auth_source a = b_source b" "auth_adapter a = b_adapter b"
      "auth_tenant a = b_tenant b" "auth_filters a = b_filters b" "auth_expires_at a = clock + ttl" "matches a b" "0 < ttl"
    using assms by (auto simp: issue_def Let_def matches_def authorization_valid_def split: if_splits)
  have own: "verify a b now = Inr \<lparr>verified = True, verification_reasons = []\<rparr>" if "now < clock + ttl"
    using that a no_verify_reasons [of a b now] by (simp add: verify_def)
  have "matches a b' \<and> now < auth_expires_at a" if "verify a b' now = Inr r \<and> verified r" for b' r
    using that no_verify_reasons [of a b' now] by (auto simp: verify_def Let_def split: if_splits)
  then have "now < clock + ttl \<and> b_artifact b' = b_artifact b \<and> b_source b' = b_source b \<and>
      b_adapter b' = b_adapter b \<and> b_tenant b' = b_tenant b \<and> b_filters b |\<subseteq>| b_filters b'"
    if "verify a b' now = Inr r \<and> verified r" for b' r
    using that a unfolding matches_def by metis
  with a(8) own show ?thesis by blast
qed

section \<open>A concrete policy\<close>

definition sample_policy :: PolicyScope where
  "sample_policy =
     \<lparr>policy_id = ''p1'', scope_sources = {|''sales''|}, scope_resources = {|''orders''|}, scope_operations = {|''select''|},
      scope_fields = {|''amount''|}, scope_tenant = None, scope_isolation = None\<rparr>"

definition sample_facts :: GovernanceFacts where
  "sample_facts =
     \<lparr>fact_source = ''sales'', fact_operation = ''select'', fact_resources = {|''orders''|}, fact_fields = {|''amount''|},
      fact_filters = {||}, fact_ir = None, fact_view = None, fact_bundle = None, fact_capabilities = {||},
      fact_artifact = None, fact_tenant = None, fact_isolation = None\<rparr>"

lemma sample_evaluated:
  "evaluate (Some sample_facts) (Some sample_policy) =
     Inr \<lparr>decision = ALLOW, decision_reasons = [''explicitly allowed by policy scope''],
          decision_policy = Some (policy_fingerprint sample_policy)\<rparr>"
proof -
  have "deny_reasons sample_facts sample_policy = []"
    unfolding no_deny_reasons by (simp add: in_scope_def sample_facts_def sample_policy_def)
  moreover have "fact_operation sample_facts \<in> set SUPPORTED_OPERATIONS"
    by (simp add: sample_facts_def SUPPORTED_OPERATIONS_def)
  ultimately show ?thesis by (simp add: evaluate_def new_GovernanceDecisionResult_def)
qed


definition broad_facts :: GovernanceFacts where
  "broad_facts = sample_facts\<lparr>fact_fields := (\<lambda>n. replicate n CHR ''f'') |`| fset_of_list [1..<34]\<rparr>"

theorem many_denied_fields_raise_witness:
  "evaluate (Some broad_facts) (Some sample_policy) = Inl ValidationError"
proof (rule many_denied_fields_raise)
  show "fact_operation broad_facts = ''select''" by (simp add: broad_facts_def sample_facts_def)
  have inj: "inj (\<lambda>n. replicate n CHR ''f'')" by (rule injI) (metis length_replicate)
  have "fcard ((\<lambda>n. replicate n CHR ''f'') |`| fset_of_list [1..<34]) = 33"
    by (simp add: fcard.rep_eq fset_of_list.rep_eq card_image inj_on_subset [OF inj])
  moreover have "replicate n CHR ''f'' \<noteq> ''amount''" for n by (cases n) auto
  then have "fact_fields broad_facts |-| scope_fields sample_policy = (\<lambda>n. replicate n CHR ''f'') |`| fset_of_list [1..<34]"
    by (auto simp: broad_facts_def sample_policy_def)
  ultimately show "32 < fcard (fact_fields broad_facts |-| scope_fields sample_policy)" by simp
qed

definition sample_binding :: binding where
  "sample_binding =
     \<lparr>b_artifact = fingerprint_of VNull, b_adapter = ''sqlite'', b_source = ''sales'', b_operation = ''select'', b_ir = None,
      b_view = None, b_bundle = None, b_capabilities = {||}, b_filters = {||}, b_tenant = None, b_isolation = None\<rparr>"

lemma sample_issued: "\<exists>a. issue ''0123456789abcdef'' 0 sample_policy sample_binding None 60000000 = Inr a"
  by (simp add: issue_def Let_def authorization_valid_def sample_binding_def limits_valid_def default_limits_def
      policy_fingerprint_def identifier_ok_def char_class_defs)

theorem issued_authorization_bound_witness:
  "\<exists>a. issue ''0123456789abcdef'' 0 sample_policy sample_binding None 60000000 = Inr a \<and>
     verify a sample_binding 5 = Inr \<lparr>verified = True, verification_reasons = []\<rparr>"
proof -
  obtain a where a: "issue ''0123456789abcdef'' 0 sample_policy sample_binding None 60000000 = Inr a"
    using sample_issued by blast
  with issued_authorization_bound [OF a, of 5] show ?thesis by auto
qed

theorem verification_exact_witness:
  "\<exists>a r. verify a sample_binding 60000000 = Inr r \<and> matches a sample_binding \<and> \<not> verified r"
proof -
  obtain a where a: "issue ''0123456789abcdef'' 0 sample_policy sample_binding None 60000000 = Inr a"
    using sample_issued by blast
  then have "matches a sample_binding" "auth_expires_at a = 60000000" "auth_capabilities a = {||}" "auth_filters a = {||}"
    by (auto simp: issue_def Let_def matches_def sample_binding_def split: if_splits)
  moreover from this have "verify_reasons a sample_binding 60000000 = [''authorization has expired'']"
    by (auto simp: verify_reasons_def matches_def reason_if_def authorization_expired_def)
  then obtain r where "verify a sample_binding 60000000 = Inr r" by (simp add: verify_def)
  ultimately show ?thesis using verification_exact by (metis less_irrefl)
qed

end
