(* ===== verification/Result_Protection.thy ===== *)
theory Result_Protection
  imports Query_IR Governance
begin

text \<open>
  Protection of adapter output before it becomes a public result:
  \<^verbatim>\<open>src/nl2data_core/workflow/protection.py\<close>, with the result of an adapter
  (\<^verbatim>\<open>src/nl2data_core/adapters/models.py\<close>), the public result and outcome
  (\<^verbatim>\<open>src/nl2data/models.py\<close>) and the physical binding of \<^verbatim>\<open>src/nl2data_core/planning/models.py\<close>.

  A cell is a value of the scalar union or, for everything a driver may return besides, \<open>VOther\<close> of
  its class name.  \<open>str\<close> of a float is its \<open>repr\<close>; the text of the timeout in an error detail is the
  parameter \<open>float_text\<close>.
\<close>

section \<open>Physical bindings\<close>

record ColumnBinding =
  cb_field_id :: string
  cb_physical_name :: string
  cb_entity_id :: "string option"

record EntityBinding =
  eb_entity_id :: string
  eb_physical_name :: string

record PhysicalBinding =
  object_id :: string
  dialect :: string
  column_bindings :: "ColumnBinding list"
  entity_bindings :: "EntityBinding list"

definition binding_ok :: "PhysicalBinding \<Rightarrow> bool" where
  "binding_ok b \<longleftrightarrow>
     identifier_ok (object_id b) \<and> 1 \<le> length (dialect b) \<and> length (dialect b) \<le> 32 \<and>
     list_all (\<lambda>c. identifier_ok (cb_field_id c) \<and> identifier_ok (cb_physical_name c) \<and> opt_all identifier_ok (cb_entity_id c))
       (column_bindings b) \<and>
     list_all (\<lambda>e. identifier_ok (eb_entity_id e) \<and> identifier_ok (eb_physical_name e)) (entity_bindings b)"

definition physical_name :: "PhysicalBinding \<Rightarrow> string \<Rightarrow> string option" where
  "physical_name b f = map_option cb_physical_name (List.find (\<lambda>c. cb_field_id c = f) (column_bindings b))"

definition entity_for :: "PhysicalBinding \<Rightarrow> string \<Rightarrow> string option" where
  "entity_for b f =
     (case List.find (\<lambda>c. cb_field_id c = f) (column_bindings b) of None \<Rightarrow> None | Some c \<Rightarrow> cb_entity_id c)"

definition physical_object :: "PhysicalBinding \<Rightarrow> string option \<Rightarrow> string option" where
  "physical_object b entity =
     (case entity of
        None \<Rightarrow> Some (object_id b)
      | Some e \<Rightarrow> map_option eb_physical_name (List.find (\<lambda>x. eb_entity_id x = e) (entity_bindings b)))"

section \<open>Results\<close>

record ExecutionResult =
  exec_result_id :: string
  exec_fingerprint :: string
  row_count :: int
  exec_columns :: "string list"
  exec_rows :: "jv list list"
  duration_ms :: int
  exec_metadata :: "(string, string) dict"

definition execution_result_ok :: "ExecutionResult \<Rightarrow> bool" where
  "execution_result_ok r \<longleftrightarrow>
     identifier_ok (exec_result_id r) \<and> fingerprint_ok (exec_fingerprint r) \<and> 0 \<le> row_count r \<and>
     length (exec_columns r) \<le> 1000 \<and> length (exec_rows r) \<le> 1000000 \<and> 0 \<le> duration_ms r \<and>
     length (exec_metadata r) \<le> 64 \<and> list_all (list_all is_scalar) (exec_rows r)"

record QueryResult =
  qr_result_id :: string
  qr_fingerprint :: "string option"
  column_names :: "string list"
  qr_rows :: "jv list list"

definition query_result_ok :: "QueryResult \<Rightarrow> bool" where
  "query_result_ok r \<longleftrightarrow>
     1 \<le> length (qr_result_id r) \<and> length (qr_result_id r) \<le> 128 \<and> opt_all (\<lambda>f. length f \<le> 128) (qr_fingerprint r) \<and>
     length (column_names r) \<le> 1000 \<and> list_all (\<lambda>c. c \<noteq> [] \<and> length c \<le> 256) (column_names r) \<and>
     length (qr_rows r) \<le> 1000000 \<and> list_all (list_all is_scalar) (qr_rows r)"

definition new_QueryResult :: "QueryResult \<Rightarrow> QueryResult res" where
  "new_QueryResult r = (if query_result_ok r then Inr r else Inl ValidationError)"

text \<open>\<open>str(cell)\<close>.\<close>

fun cell_text :: "jv \<Rightarrow> string" where
  "cell_text VNull = ''None''"
| "cell_text (VBool b) = (if b then ''True'' else ''False'')"
| "cell_text (VInt i) = string_of_int i"
| "cell_text (VFloat r) = r"
| "cell_text (VStr s) = s"
| "cell_text v = []"

definition result_size_bytes :: "string list \<Rightarrow> jv list list \<Rightarrow> int" where
  "result_size_bytes columns rows =
     int (sum_list (map (\<lambda>c. length (utf8_bytes c)) columns)) +
     int (sum_list (map (\<lambda>v. length (utf8_bytes (cell_text v))) (concat rows)))"

section \<open>Protection\<close>

definition ResultProtectionError :: "string \<Rightarrow> (string \<times> pyval) list \<Rightarrow> exn" where
  "ResultProtectionError message details = NL2DataError
     \<lparr>err_class = ''ResultProtectionError'', err_category = CAT_GOVERNANCE, err_code = RESULT_PROTECTION_FAILED,
      err_message = message, err_retryable = False, err_details = details\<rparr>"

text \<open>The column name one selection may expose.\<close>

definition output_column :: "PhysicalBinding option \<Rightarrow> IRSelection \<Rightarrow> string option" where
  "output_column binding s =
     (case sel_alias s of
        Some a \<Rightarrow> Some a
      | None \<Rightarrow>
          (case binding of
             None \<Rightarrow> None
           | Some b \<Rightarrow>
               (case physical_name b (sel_field_id s) of
                  None \<Rightarrow> None
                | Some p \<Rightarrow> Some (if aggregation s \<noteq> ''none'' then aggregation s @ ''_'' @ p else p))))"

definition allowed_output_columns :: "SemanticQueryIR \<Rightarrow> PhysicalBinding option \<Rightarrow> string fset" where
  "allowed_output_columns q binding = fset_of_list (List.map_filter (output_column binding) (selections q))"

text \<open>
  The product of a float and 1000, rounded to the 53 bits of a double.  A product below \<open>2\<^sup>-\<^sup>8\<close> is left
  exact: \<open>int\<close> truncates it to zero either way.
\<close>

definition milliseconds :: "rat \<Rightarrow> int" where
  "milliseconds s =
     (let v = s * 1000; n = bit_length (nat \<lfloor>v * 2 ^ 60\<rfloor>)
      in if n \<le> 53 then \<lfloor>v\<rfloor>
         else \<lfloor>of_int (round_half_even (v * 2 ^ 60 / 2 ^ (n - 53))) * 2 ^ (n - 53) / 2 ^ 60 :: rat\<rfloor>)"

definition check_bounds_of :: "(rat \<Rightarrow> string) \<Rightarrow> EffectiveLimits \<Rightarrow> ExecutionResult \<Rightarrow> unit res" where
  "check_bounds_of float_text limits r =
     (let size = result_size_bytes (exec_columns r) (exec_rows r)
      in if max_rows limits < row_count r
         then Inl (ResultProtectionError ''result row count exceeds the authorized bound''
                [(''max_rows'', PyStr (string_of_int (max_rows limits))), (''actual'', PyStr (string_of_int (row_count r)))])
         else if max_columns limits < int (length (exec_columns r))
         then Inl (ResultProtectionError ''result column count exceeds the authorized bound''
                [(''max_columns'', PyStr (string_of_int (max_columns limits))),
                 (''actual'', PyStr (string_of_nat (length (exec_columns r))))])
         else if max_result_bytes limits < size
         then Inl (ResultProtectionError ''result bytes exceed the authorized maximum''
                [(''max_result_bytes'', PyStr (string_of_int (max_result_bytes limits))), (''actual'', PyStr (string_of_int size))])
         else if milliseconds (max_execution_seconds limits) < duration_ms r
         then Inl (ResultProtectionError ''result execution exceeded the authorized timeout''
                [(''max_execution_seconds'', PyStr (float_text (max_execution_seconds limits))),
                 (''actual_duration_ms'', PyStr (string_of_int (duration_ms r)))])
         else Inr ())"

text \<open>\<open>type(cell).__name__\<close> of a value outside the scalar union.\<close>

fun class_name :: "jv \<Rightarrow> string" where
  "class_name (VOther c) = c"
| "class_name (VEnum c) = c"
| "class_name (VList xs) = ''list''"
| "class_name (VDict d) = ''dict''"
| "class_name _ = []"

fun check_cells :: "nat \<Rightarrow> nat \<Rightarrow> jv list \<Rightarrow> unit res" where
  "check_cells i j [] = Inr ()"
| "check_cells i j (v # vs) =
     (if is_scalar v then check_cells i (Suc j) vs
      else Inl (ResultProtectionError ''result contains a value outside the protected scalar set''
             [(''row_index'', PyStr (string_of_nat i)), (''column_index'', PyStr (string_of_nat j)),
              (''value_type'', PyStr (class_name v))]))"

fun check_rows :: "nat \<Rightarrow> jv list list \<Rightarrow> unit res" where
  "check_rows i [] = Inr ()"
| "check_rows i (row # rows) = bind_res (check_cells i 0 row) (\<lambda>_. check_rows (Suc i) rows)"

text \<open>\<open>tuple(row[index] for index in keep)\<close>: a row that is too short raises \<open>IndexError\<close>.\<close>

definition pick :: "nat list \<Rightarrow> jv list \<Rightarrow> jv list res" where
  "pick keep row =
     (if list_all (\<lambda>k. k < length row) keep then Inr (map (\<lambda>k. row ! k) keep) else Inl (OtherException ''IndexError''))"

fun pick_all :: "nat list \<Rightarrow> jv list list \<Rightarrow> jv list list res" where
  "pick_all keep [] = Inr []"
| "pick_all keep (row # rows) = bind_res (pick keep row) (\<lambda>r. bind_res (pick_all keep rows) (\<lambda>rs. Inr (r # rs)))"

definition kept :: "string fset \<Rightarrow> string list \<Rightarrow> nat list" where
  "kept scope columns = filter (\<lambda>i. columns ! i |\<in>| scope) [0..<length columns]"

definition protect_result ::
  "(rat \<Rightarrow> string) \<Rightarrow> ExecutionResult \<Rightarrow> SemanticQueryIR \<Rightarrow> PhysicalBinding option \<Rightarrow> EffectiveLimits \<Rightarrow> QueryResult res" where
  "protect_result float_text r q binding limits =
     bind_res (check_bounds_of float_text limits r) (\<lambda>_.
     bind_res (check_rows 0 (exec_rows r)) (\<lambda>_.
       let keep = kept (allowed_output_columns q binding) (exec_columns r)
       in if keep = [] \<and> exec_columns r \<noteq> []
          then Inl (ResultProtectionError ''result has no columns inside the authorized field scope''
                 [(''column_count'', PyStr (string_of_nat (length (exec_columns r))))])
          else bind_res (pick_all keep (exec_rows r)) (\<lambda>rows.
            case new_QueryResult \<lparr>qr_result_id = exec_result_id r, qr_fingerprint = Some (exec_fingerprint r),
                   column_names = map (\<lambda>k. exec_columns r ! k) keep, qr_rows = rows\<rparr> of
              Inr p \<Rightarrow> Inr p
            | Inl e \<Rightarrow> Inl (ResultProtectionError ''result could not be protected into the public scalar contract''
                         [(''cause_type'', PyStr (exn_class e))]))))"

section \<open>Outcomes\<close>

datatype OutcomeStatus = OUT_SUCCEEDED | OUT_FAILED | OUT_NOT_CONFIGURED | OUT_REJECTED | OUT_CLARIFICATION

record QueryClarification =
  clarification_id :: string
  question :: string
  clar_options :: "(string \<times> string \<times> string option) list"

definition clarification_ok :: "QueryClarification \<Rightarrow> bool" where
  "clarification_ok c \<longleftrightarrow>
     1 \<le> length (clarification_id c) \<and> length (clarification_id c) \<le> 128 \<and>
     1 \<le> length (question c) \<and> length (question c) \<le> 2000 \<and> length (clar_options c) \<le> 10 \<and>
     list_all (\<lambda>(i, l, d). 1 \<le> length i \<and> length i \<le> 128 \<and> 1 \<le> length l \<and> length l \<le> 256 \<and>
       opt_all (\<lambda>t. length t \<le> 1024) d) (clar_options c)"

record QueryOutcome =
  out_status :: OutcomeStatus
  out_request_id :: string
  out_workflow_id :: "string option"
  out_tenant :: "string option"
  out_result :: "QueryResult option"
  out_clarification :: "QueryClarification option"
  out_error :: "ErrorRecord option"
  attempts_used :: int
  out_occurred_at :: timestamp

definition consistent_payload :: "QueryOutcome \<Rightarrow> bool" where
  "consistent_payload r =
     (case out_status r of
        OUT_SUCCEEDED \<Rightarrow> out_result r \<noteq> None \<and> \<not> (out_error r \<noteq> None \<or> out_clarification r \<noteq> None)
      | OUT_CLARIFICATION \<Rightarrow> \<not> (out_result r \<noteq> None \<or> out_error r \<noteq> None \<or> out_clarification r = None)
      | _ \<Rightarrow> \<not> (out_result r \<noteq> None \<or> out_clarification r \<noteq> None) \<and> out_error r \<noteq> None)"

definition new_QueryOutcome :: "QueryOutcome \<Rightarrow> QueryOutcome res" where
  "new_QueryOutcome r =
     (if 1 \<le> length (out_request_id r) \<and> length (out_request_id r) \<le> 128 \<and>
         opt_all (\<lambda>w. 1 \<le> length w \<and> length w \<le> 128) (out_workflow_id r) \<and> opt_all fingerprint_ok (out_tenant r) \<and>
         opt_all query_result_ok (out_result r) \<and> opt_all clarification_ok (out_clarification r) \<and>
         0 \<le> attempts_used r \<and> attempts_used r \<le> 10 \<and> consistent_payload r
      then Inr r else Inl ValidationError)"

section \<open>What protection returns\<close>

lemma check_cells_iff: "check_cells i j vs = Inr u \<longleftrightarrow> list_all is_scalar vs"
  by (induction vs arbitrary: j) auto

lemma check_rows_iff: "check_rows i rows = Inr u \<longleftrightarrow> list_all (list_all is_scalar) rows"
  by (induction rows arbitrary: i) (auto simp: bind_res_Inr_iff check_cells_iff)

lemma pick_all_iff:
  "pick_all keep rows = Inr out \<longleftrightarrow>
     list_all (\<lambda>row. list_all (\<lambda>k. k < length row) keep) rows \<and> out = map (\<lambda>row. map (\<lambda>k. row ! k) keep) rows"
  by (induction rows arbitrary: out) (auto simp: bind_res_Inr_iff pick_def)

lemma pick_all_raises: "pick_all keep rows = Inl e \<Longrightarrow> e = OtherException ''IndexError''"
  by (induction rows) (auto simp: bind_res_Inl_iff pick_def split: if_splits)

lemma kept_bound: "k \<in> set (kept scope columns) \<Longrightarrow> k < length columns \<and> columns ! k |\<in>| scope"
  by (simp add: kept_def)

lemma kept_columns: "map (\<lambda>k. columns ! k) (kept scope columns) = filter (\<lambda>c. c |\<in>| scope) columns"
proof -
  have "map (\<lambda>k. columns ! k) (kept scope columns) = filter (\<lambda>c. c |\<in>| scope) (map (\<lambda>k. columns ! k) [0..<length columns])"
    by (simp add: kept_def filter_map comp_def)
  then show ?thesis by (simp add: map_nth)
qed

lemma output_column_short:
  assumes "selection_ok s" "opt_all binding_ok binding" "output_column binding s = Some c"
  shows "c \<noteq> [] \<and> length c \<le> 256"
proof (cases "sel_alias s")
  case (Some a)
  then show ?thesis using assms by (auto simp: output_column_def selection_ok_def dest: identifier_ok_length)
next
  case None
  then obtain b p where bp: "binding = Some b" "physical_name b (sel_field_id s) = Some p"
    "c = (if aggregation s \<noteq> ''none'' then aggregation s @ ''_'' @ p else p)"
    using assms(3) by (auto simp: output_column_def split: option.splits)
  have "identifier_ok p"
    using bp(2) assms(2) unfolding bp(1) physical_name_def binding_ok_def
    by (auto simp: find_Some_iff list_all_iff)
  moreover have "length (aggregation s) \<le> 5" using assms(1) by (auto simp: selection_ok_def AGGREGATION_KINDS_def)
  ultimately show ?thesis using bp(3) by (auto dest: identifier_ok_length)
qed

lemma allowed_short:
  assumes "ir_valid q" "opt_all binding_ok binding" "c |\<in>| allowed_output_columns q binding"
  shows "c \<noteq> [] \<and> length c \<le> 256"
proof -
  obtain s where "s \<in> set (selections q)" "output_column binding s = Some c"
    using assms(3) by (auto simp: allowed_output_columns_def fset_of_list_elem set_map_filter)
  moreover from this have "selection_ok s" using assms(1) by (simp add: ir_valid_def ir_parts_ok_def list_all_iff)
  ultimately show ?thesis using assms(2) output_column_short by blast
qed

lemma sum_list_filter_le: "sum_list (map (f :: 'a \<Rightarrow> nat) (filter P xs)) \<le> sum_list (map f xs)"
  by (induction xs) auto

text \<open>Choosing some cells of a row by increasing positions never adds to its size.\<close>

lemma sum_list_pick_le:
  fixes f :: "'a \<Rightarrow> nat"
  assumes "sorted ks" "distinct ks" "\<forall>k \<in> set ks. k < length row"
  shows "sum_list (map (\<lambda>k. f (row ! k)) ks) \<le> sum_list (map f row)"
proof -
  have "sum_list (map (\<lambda>k. f (row ! k)) ks) = sum (\<lambda>k. f (row ! k)) (set ks)"
    using assms(2) by (simp add: sum_list_distinct_conv_sum_set)
  also have "\<dots> \<le> sum (\<lambda>k. f (row ! k)) {0..<length row}" using assms(3) by (intro sum_mono2) auto
  also have "\<dots> = sum_list (map f row)" by (simp add: sum_list_sum_nth)
  finally show ?thesis .
qed

lemma kept_sorted: "sorted (kept scope columns)" "distinct (kept scope columns)"
  by (simp_all add: kept_def sorted_wrt_filter)

lemma picked_size_le:
  assumes "list_all (\<lambda>row. list_all (\<lambda>k. k < length row) ks) rows" "sorted ks" "distinct ks"
  shows "sum_list (map f (concat (map (\<lambda>row. map (\<lambda>k. row ! k) ks) rows))) \<le> sum_list (map (f :: 'a \<Rightarrow> nat) (concat rows))"
  using assms(1)
proof (induction rows)
  case (Cons row rows)
  then show ?case using sum_list_pick_le [OF assms(2,3), of row f]
    by (simp add: list_all_iff comp_def add_mono)
qed simp

lemma protected_size_le:
  assumes "pick_all (kept scope columns) rows = Inr out"
  shows "result_size_bytes (filter (\<lambda>c. c |\<in>| scope) columns) out \<le> result_size_bytes columns rows"
  using assms picked_size_le [of "kept scope columns" rows "\<lambda>v. length (utf8_bytes (cell_text v))", OF _ kept_sorted]
    sum_list_filter_le [of "\<lambda>c. length (utf8_bytes c)" "\<lambda>c. c |\<in>| scope" columns]
  by (simp add: pick_all_iff result_size_bytes_def)

lemma protect_result_iff:
  assumes "execution_result_ok r" "ir_valid q" "opt_all binding_ok binding"
  shows "protect_result float_text r q binding limits = Inr p \<longleftrightarrow>
    check_bounds_of float_text limits r = Inr () \<and>
    (exec_columns r = [] \<or> (\<exists>c \<in> set (exec_columns r). c |\<in>| allowed_output_columns q binding)) \<and>
    pick_all (kept (allowed_output_columns q binding) (exec_columns r)) (exec_rows r) = Inr (qr_rows p) \<and>
    p = \<lparr>qr_result_id = exec_result_id r, qr_fingerprint = Some (exec_fingerprint r),
         column_names = filter (\<lambda>c. c |\<in>| allowed_output_columns q binding) (exec_columns r), qr_rows = qr_rows p\<rparr>"
proof -
  let ?scope = "allowed_output_columns q binding"
  have cells: "check_rows 0 (exec_rows r) = Inr ()" using assms(1) by (simp add: check_rows_iff execution_result_ok_def)
  have nonempty: "kept ?scope (exec_columns r) = [] \<longleftrightarrow> \<not> (\<exists>c \<in> set (exec_columns r). c |\<in>| ?scope)"
    using kept_columns [of "exec_columns r" ?scope] by (metis (no_types, lifting) filter_empty_conv map_is_Nil_conv)
  have public: "query_result_ok \<lparr>qr_result_id = exec_result_id r, qr_fingerprint = Some (exec_fingerprint r),
      column_names = filter (\<lambda>c. c |\<in>| ?scope) (exec_columns r), qr_rows = rows\<rparr>"
    if "pick_all (kept ?scope (exec_columns r)) (exec_rows r) = Inr rows" for rows
  proof -
    have "length (filter (\<lambda>c. c |\<in>| ?scope) (exec_columns r)) \<le> 1000"
      by (rule order_trans [OF length_filter_le]) (use assms(1) in \<open>simp add: execution_result_ok_def\<close>)
    moreover have "list_all (\<lambda>c. c \<noteq> [] \<and> length c \<le> 256) (filter (\<lambda>c. c |\<in>| ?scope) (exec_columns r))"
      using allowed_short [OF assms(2,3)] by (auto simp: list_all_iff)
    moreover have "length rows \<le> 1000000 \<and> list_all (list_all is_scalar) rows"
      using that assms(1) by (auto simp: pick_all_iff execution_result_ok_def list_all_iff)
    moreover have "1 \<le> length (exec_result_id r)" "length (exec_result_id r) \<le> 128" "length (exec_fingerprint r) \<le> 128"
      using assms(1) by (auto simp: execution_result_ok_def Suc_le_eq dest: identifier_ok_length fingerprint_ok_length)
    ultimately show ?thesis by (simp add: query_result_ok_def)
  qed
  show ?thesis
    using nonempty public
    by (auto simp: protect_result_def bind_res_Inr_iff cells kept_columns new_QueryResult_def Let_def split: sum.splits if_splits)
qed

section \<open>Properties\<close>


text \<open>
  Protection fails closed: for every adapter result and query the models can build, the call
  either returns a protected result or raises a \<open>ResultProtectionError\<close>, except for a result with a
  row shorter than its columns, for which it may raise an \<open>IndexError\<close>; and no row is that short when
  every row has as many cells as the result has columns.
\<close>

theorem protection_fails_closed:
  assumes "execution_result_ok r" "new_SemanticQueryIR a = Inr q" "opt_all binding_ok binding"
  shows "case protect_result float_text r q binding limits of
      Inr p \<Rightarrow> query_result_ok p
    | Inl e \<Rightarrow> (\<exists>m d. e = ResultProtectionError m d) \<or>
        (e = OtherException ''IndexError'' \<and> (\<exists>row \<in> set (exec_rows r). length row < length (exec_columns r)))"
proof (cases "protect_result float_text r q binding limits")
  case (Inr p)
  then show ?thesis
    by (auto simp: protect_result_def bind_res_Inr_iff Let_def new_QueryResult_def split: if_splits sum.splits)
next
  case (Inl e)
  let ?keep = "kept (allowed_output_columns q binding) (exec_columns r)"
  have cells: "check_rows 0 (exec_rows r) = Inr ()" using assms(1) by (simp add: check_rows_iff execution_result_ok_def)
  have "check_bounds_of float_text limits r = Inl e \<Longrightarrow> \<exists>m d. e = ResultProtectionError m d"
    by (auto simp: check_bounds_of_def Let_def split: if_splits)
  moreover have "\<exists>row \<in> set (exec_rows r). length row < length (exec_columns r)" if "pick_all ?keep (exec_rows r) = Inl e"
  proof -
    have "\<not> list_all (\<lambda>row. list_all (\<lambda>k. k < length row) ?keep) (exec_rows r)"
      using that pick_all_iff [of ?keep "exec_rows r"] by auto
    then obtain row k where "row \<in> set (exec_rows r)" "k \<in> set ?keep" "\<not> k < length row" by (auto simp: list_all_iff)
    with kept_bound [of k] show ?thesis by (meson not_less order.strict_trans1)
  qed
  moreover have "(case new_QueryResult x of Inr p \<Rightarrow> Inr p | Inl e' \<Rightarrow> Inl (ResultProtectionError m (d e'))) = Inl e \<Longrightarrow>
      \<exists>m d. e = ResultProtectionError m d" for x m d
    by (cases "new_QueryResult x") auto
  moreover have "check_bounds_of float_text limits r = Inl e \<or> (\<exists>m d. e = ResultProtectionError m d) \<or>
      pick_all ?keep (exec_rows r) = Inl e"
  proof (cases "check_bounds_of float_text limits r")
    case (Inr u)
    show ?thesis
    proof (cases "pick_all ?keep (exec_rows r)")
      case (Inr rows)
      with Inl \<open>check_bounds_of float_text limits r = Inr u\<close> calculation(3) show ?thesis
        by (fastforce simp: protect_result_def cells Let_def split: if_splits)
    qed (use Inl Inr in \<open>auto simp: protect_result_def cells Let_def split: if_splits\<close>)
  qed (use Inl in \<open>simp add: protect_result_def\<close>)
  ultimately show ?thesis using Inl pick_all_raises [of ?keep "exec_rows r" e] by auto
qed

section \<open>Concrete results\<close>

definition one_selection :: "string option \<Rightarrow> string \<Rightarrow> IRExpression option \<Rightarrow> SemanticQueryIR" where
  "one_selection alias f e = (sample_query [EXPRESSION_CAPABILITY, PRIOR_PERIOD_CAPABILITY] [])
     \<lparr>selections := [\<lparr>selection_id = ''s1'', sel_field_id = f, sel_alias = alias, aggregation = ''none'', sel_expression = e\<rparr>],
      groupings := []\<rparr>"

definition orders_binding :: PhysicalBinding where
  "orders_binding = \<lparr>object_id = ''orders'', dialect = ''sqlite'',
     column_bindings = [\<lparr>cb_field_id = ''region'', cb_physical_name = ''region'', cb_entity_id = None\<rparr>], entity_bindings = []\<rparr>"

definition sample_result :: "string list \<Rightarrow> jv list list \<Rightarrow> ExecutionResult" where
  "sample_result cols rows = \<lparr>exec_result_id = ''r1'', exec_fingerprint = ''sha256:'' @ replicate 64 CHR ''0'', row_count = 1,
     exec_columns = cols, exec_rows = rows, duration_ms = 0, exec_metadata = []\<rparr>"

lemma sample_result_ok:
  "length cols \<le> 9 \<Longrightarrow> length rows \<le> 9 \<Longrightarrow> list_all (list_all is_scalar) rows \<Longrightarrow> execution_result_ok (sample_result cols rows)"
  by (simp add: sample_result_def execution_result_ok_def pattern_simps list_all_iff)

lemma orders_binding_ok: "opt_all binding_ok (Some orders_binding)"
  by (simp add: orders_binding_def binding_ok_def pattern_simps)

lemma one_selection_built:
  assumes "identifier_ok f" "opt_all constructible e"
    and "case e of None \<Rightarrow> True | Some x \<Rightarrow> expression_required_capabilities x |\<subseteq>| {|EXPRESSION_CAPABILITY, PRIOR_PERIOD_CAPABILITY|}"
  shows "new_SemanticQueryIR (one_selection None f e) =
    Inr ((one_selection None f e)\<lparr>ir_fingerprint := fingerprint_of (ir_payload (one_selection None f e))\<rparr>)"
proof -
  have valid: "ir_valid (sample_query [EXPRESSION_CAPABILITY, PRIOR_PERIOD_CAPABILITY] [])" by (rule sample_query_valid) simp
  have "ir_valid (one_selection None f e)"
    using assms valid
    by (cases e) (simp_all add: ir_valid_def ir_parts_ok_def one_selection_def selection_ok_def sample_query_def
      AGGREGATION_KINDS_def expressions_valid_def expression_capabilities_def used_expressions_def List.map_filter_simps)
  then show ?thesis by (simp add: new_query) (simp add: one_selection_def sample_query_def)
qed

lemma region_ok: "identifier_ok ''region''" "identifier_ok ''ratio''"
  by (simp_all add: pattern_simps)

lemma sample_protected:
  "protect_result ft (sample_result [''region'', ''secret''] [[VStr ''EU'', VInt 7]])
     ((one_selection None ''region'' None)\<lparr>ir_fingerprint := fp\<rparr>) (Some orders_binding) default_limits =
   Inr \<lparr>qr_result_id = ''r1'', qr_fingerprint = Some (''sha256:'' @ replicate 64 CHR ''0''), column_names = [''region''],
        qr_rows = [[VStr ''EU'']]\<rparr>"
proof -
  have "bit_length 0 = 0" by (simp add: bit_length.simps)
  have seconds: "0 \<le> milliseconds 30" by (simp add: milliseconds_def Let_def round_half_even_def)
  have bytes: "length (utf8_bytes s) \<le> 2 * length s" for s
    by (induction s) (auto simp: utf8_bytes_def utf8_char_def Let_def)
  have "result_size_bytes [''region'', ''secret''] [[VStr ''EU'', VInt 7]] \<le> 10000000"
    using bytes [of "''region''"] bytes [of "''secret''"] bytes [of "''EU''"] bytes [of "string_of_int 7"]
      string_of_nat_digits
    by (simp add: result_size_bytes_def string_of_int_def string_of_nat.simps)
  then have "check_bounds_of ft default_limits (sample_result [''region'', ''secret''] [[VStr ''EU'', VInt 7]]) = Inr ()"
    using seconds by (simp add: check_bounds_of_def sample_result_def default_limits_def Let_def)
  then show ?thesis
    by (simp add: protect_result_def Let_def sample_result_def kept_def allowed_output_columns_def one_selection_def
      List.map_filter_simps output_column_def orders_binding_def physical_name_def pick_def new_QueryResult_def
      query_result_ok_def upt_conv_Cons)
qed


theorem protection_fails_closed_witness:
  "case protect_result (\<lambda>_. []) (sample_result [''region'', ''secret''] [[VStr ''EU'']])
     ((one_selection None ''region'' None)\<lparr>ir_fingerprint := fingerprint_of (ir_payload (one_selection None ''region'' None))\<rparr>)
     (Some orders_binding) default_limits of
     Inr p \<Rightarrow> query_result_ok p
   | Inl e \<Rightarrow> (\<exists>m d. e = ResultProtectionError m d) \<or>
        (e = OtherException ''IndexError'' \<and>
         (\<exists>row \<in> set (exec_rows (sample_result [''region'', ''secret''] [[VStr ''EU'']])).
            length row < length (exec_columns (sample_result [''region'', ''secret''] [[VStr ''EU'']]))))"
  by (rule protection_fails_closed [OF sample_result_ok one_selection_built [OF region_ok(1)] orders_binding_ok]) simp_all

text \<open>A computed selection without an alias exposes no column, so its output is dropped from every result.\<close>

theorem computed_output_dropped:
  assumes "sel_expression s = Some e" "sel_alias s = None" "physical_name b (sel_field_id s) = None"
  shows "output_column (Some b) s = None"
  using assms by (simp add: output_column_def)

text \<open>
  The row bound is compared with the count the adapter reports: a result that reports one row and carries
  more passes a bound of one row.
\<close>

theorem reported_row_count_trusted:
  assumes "max_rows limits = 1" "0 \<le> milliseconds (max_execution_seconds limits)" "1 \<le> max_columns limits"
    and "result_size_bytes [''region''] (replicate n [VNull]) \<le> max_result_bytes limits"
  shows "check_bounds_of ft limits (sample_result [''region''] (replicate n [VNull])) = Inr ()"
  using assms by (simp add: check_bounds_of_def sample_result_def Let_def)

end
