(* ===== verification/Memory_Model.thy ===== *)
theory Memory_Model
  imports Canonical_Json
begin

text \<open>
  Memory records and memory errors: \<^verbatim>\<open>src/nl2data_core/memory/models.py\<close> and
  \<^verbatim>\<open>src/nl2data_core/memory/errors.py\<close>.

  The pydantic models become records with a validating constructor.  A \<open>fingerprint\<close> field is
  always recomputed from the other fields by the model, so it is a function of the record here.
  Instants are microseconds; \<open>isoformat\<close> is Python's ISO text of a UTC instant.
\<close>

section \<open>ISO texts of instants\<close>

definition padded :: "nat \<Rightarrow> int \<Rightarrow> string" where
  "padded k n = (let s = string_of_int n in replicate (k - length s) CHR ''0'' @ s)"

definition civil_date :: "int \<Rightarrow> int \<times> int \<times> int" where
  "civil_date days =
     (let z = days + 719468; era = z div 146097; doe = z mod 146097;
          yoe = (doe - doe div 1460 + doe div 36524 - doe div 146096) div 365;
          doy = doe - (365 * yoe + yoe div 4 - yoe div 100);
          mp = (5 * doy + 2) div 153; d = doy - (153 * mp + 2) div 5 + 1;
          m = (if mp < 10 then mp + 3 else mp - 9)
      in (yoe + era * 400 + (if m \<le> 2 then 1 else 0), m, d))"

definition isoformat :: "timestamp \<Rightarrow> string" where
  "isoformat t =
     (let days = t div 86400000000; us = t mod 86400000000; s = us div 1000000; frac = us mod 1000000
      in case civil_date days of (y, m, d) \<Rightarrow>
           padded 4 y @ ''-'' @ padded 2 m @ ''-'' @ padded 2 d @ ''T''
           @ padded 2 (s div 3600) @ '':'' @ padded 2 (s div 60 mod 60) @ '':'' @ padded 2 (s mod 60)
           @ (if frac = 0 then '''' else ''.'' @ padded 6 frac) @ ''+00:00'')"

section \<open>Scans of free text\<close>

definition MAX_METADATA_KEYS :: nat where "MAX_METADATA_KEYS = 32"
definition MAX_METADATA_VALUE_CHARS :: nat where "MAX_METADATA_VALUE_CHARS = 256"
definition MAX_SEMANTIC_TEXT_CHARS :: nat where "MAX_SEMANTIC_TEXT_CHARS = 2000"
definition MAX_TTL_SECONDS :: int where "MAX_TTL_SECONDS = 3153600"
definition MAX_REFERENCE_FIELD_IDS :: nat where "MAX_REFERENCE_FIELD_IDS = 256"
definition MAX_RECALL_RECORDS :: int where "MAX_RECALL_RECORDS = 1000"

lemmas memory_bounds =
  MAX_METADATA_KEYS_def MAX_METADATA_VALUE_CHARS_def MAX_SEMANTIC_TEXT_CHARS_def MAX_TTL_SECONDS_def
  MAX_REFERENCE_FIELD_IDS_def MAX_RECALL_RECORDS_def

definition SQL_VERBS :: "string list" where
  "SQL_VERBS = [''select'', ''insert'', ''update'', ''delete'', ''drop'', ''create'', ''alter'', ''truncate'',
                ''merge'', ''exec'', ''execute'']"

definition SQL_CLAUSES :: "string list" where
  "SQL_CLAUSES = [''from'', ''into'', ''set'', ''table'', ''values'']"

text \<open>
  The shape of the SQL patterns, for a list of verbs: a verb, at most 200 characters, a clause word, each
  as a whole word; and the regular expression \<open>_SQL_STATEMENT\<close>.
\<close>

definition sql_shape :: "string list \<Rightarrow> string \<Rightarrow> bool" where
  "sql_shape verbs value =
     (let s = str_lower value
      in list_ex (\<lambda>i. list_ex (\<lambda>e.
           list_ex (\<lambda>j. e \<le> j \<and> j \<le> e + 200 \<and> keyword_ends SQL_CLAUSES s j \<noteq> []) [0..<length s])
             (keyword_ends verbs s i)) [0..<length s])"

definition sql_statement :: "string \<Rightarrow> bool" where
  "sql_statement value = sql_shape SQL_VERBS value"

definition SECRET_MARKERS :: "string list" where
  "SECRET_MARKERS = [''password='', ''passwd='', ''secret='', ''api_key='', ''apikey='', ''token='', ''dsn='',
                     ''private key'', ''bearer '', ''client_secret='', ''access_key='']"

definition scan_raw_text :: "string \<Rightarrow> string option" where
  "scan_raw_text value =
     (if sql_statement value then Some ''executable_sql''
      else if list_ex (\<lambda>m. str_in m (str_lower value)) SECRET_MARKERS then Some ''secret_marker''
      else None)"

definition RAW_PAYLOAD_KEY_NAMES :: "string list" where
  "RAW_PAYLOAD_KEY_NAMES =
     [''sql'', ''mql'', ''query'', ''prompt'', ''rows'', ''documents'', ''credentials'', ''password'', ''secret'',
      ''api_key'', ''token'', ''cursor'', ''connection'', ''statement'', ''shell'', ''script'', ''code'', ''ast'',
      ''driver'', ''native'']"

fun reject_raw_payload :: "jv \<Rightarrow> string \<Rightarrow> unit res"
and reject_raw_items :: "(dict_key \<times> jv) list \<Rightarrow> string \<Rightarrow> unit res"
and reject_raw_elements :: "jv list \<Rightarrow> nat \<Rightarrow> string \<Rightarrow> unit res" where
  "reject_raw_payload (VDict items) path = reject_raw_items items path"
| "reject_raw_payload (VList xs) path = reject_raw_elements xs 0 path"
| "reject_raw_payload v path = Inr ()"
| "reject_raw_items [] path = Inr ()"
| "reject_raw_items ((k, v) # items) path =
     (if str_lower (key_text k) \<in> set RAW_PAYLOAD_KEY_NAMES
      then Inl (ValueError (path @ ''.'' @ key_text k @ '' is a raw payload field and cannot be stored in memory''))
      else bind_res (reject_raw_payload v (path @ ''.'' @ key_text k)) (\<lambda>_. reject_raw_items items path))"
| "reject_raw_elements [] i path = Inr ()"
| "reject_raw_elements (v # vs) i path =
     bind_res (reject_raw_payload v (path @ ''['' @ string_of_nat i @ '']''))
       (\<lambda>_. reject_raw_elements vs (Suc i) path)"

section \<open>Records\<close>

datatype MemoryRecordKind = WORKING | SESSION | QUERY_REFERENCE | SEMANTIC_DECISION | AUDIT_REFERENCE

record MemoryScope =
  ms_tenant :: "string option"
  ms_session :: string
  ms_conversation :: "string option"
  ms_adapter :: "string option"
  ms_source :: "string option"

definition scope_valid :: "MemoryScope \<Rightarrow> bool" where
  "scope_valid s \<longleftrightarrow>
     opt_all fingerprint_ok (ms_tenant s) \<and> identifier_ok (ms_session s) \<and>
     opt_all identifier_ok (ms_conversation s) \<and> opt_all identifier_ok (ms_adapter s) \<and>
     opt_all identifier_ok (ms_source s)"

definition scope_fingerprint :: "MemoryScope \<Rightarrow> string" where
  "scope_fingerprint s = fingerprint_of (vdict
     [(''tenant_scope_fingerprint'', vopt VStr (ms_tenant s)), (''session_id'', VStr (ms_session s)),
      (''conversation_id'', vopt VStr (ms_conversation s)), (''adapter_id'', vopt VStr (ms_adapter s)),
      (''source_id'', vopt VStr (ms_source s))])"

record QueryReference =
  reference_id :: string
  intent_fp :: "string option"
  ir_fp :: "string option"
  artifact_fp :: "string option"
  ref_policy_fp :: "string option"
  ref_catalog_fp :: "string option"
  ref_view_fp :: "string option"
  ref_adapter_id :: "string option"
  ref_source_id :: string
  root_entity_id :: "string option"
  ref_field_ids :: "string fset"

definition reference_valid :: "QueryReference \<Rightarrow> bool" where
  "reference_valid r \<longleftrightarrow>
     identifier_ok (reference_id r) \<and> opt_all fingerprint_ok (intent_fp r) \<and>
     opt_all fingerprint_ok (ir_fp r) \<and> opt_all fingerprint_ok (artifact_fp r) \<and>
     opt_all fingerprint_ok (ref_policy_fp r) \<and> opt_all fingerprint_ok (ref_catalog_fp r) \<and>
     opt_all fingerprint_ok (ref_view_fp r) \<and> opt_all identifier_ok (ref_adapter_id r) \<and>
     identifier_ok (ref_source_id r) \<and> opt_all identifier_ok (root_entity_id r) \<and>
     fcard (ref_field_ids r) \<le> MAX_REFERENCE_FIELD_IDS \<and>
     fBall (ref_field_ids r) (\<lambda>f. f \<noteq> [] \<and> length f \<le> 128)"

definition reference_payload :: "QueryReference \<Rightarrow> (string \<times> jv) list" where
  "reference_payload r =
     [(''reference_id'', VStr (reference_id r)), (''intent_fingerprint'', vopt VStr (intent_fp r)),
      (''ir_fingerprint'', vopt VStr (ir_fp r)), (''artifact_fingerprint'', vopt VStr (artifact_fp r)),
      (''policy_fingerprint'', vopt VStr (ref_policy_fp r)), (''catalog_fingerprint'', vopt VStr (ref_catalog_fp r)),
      (''semantic_view_fingerprint'', vopt VStr (ref_view_fp r)), (''adapter_id'', vopt VStr (ref_adapter_id r)),
      (''source_id'', VStr (ref_source_id r)), (''root_entity_id'', vopt VStr (root_entity_id r)),
      (''field_ids'', VList (map VStr (sorted_list_of_fset (ref_field_ids r))))]"

definition reference_fingerprint :: "QueryReference \<Rightarrow> string" where
  "reference_fingerprint r = fingerprint_of (vdict (reference_payload r))"

record SemanticDecision =
  decision_id :: string
  confirmed_interpretation :: string
  dec_policy_fp :: string
  dec_catalog_fp :: string

definition decision_valid :: "SemanticDecision \<Rightarrow> bool" where
  "decision_valid d \<longleftrightarrow>
     identifier_ok (decision_id d) \<and> 1 \<le> length (confirmed_interpretation d) \<and>
     length (confirmed_interpretation d) \<le> MAX_SEMANTIC_TEXT_CHARS \<and>
     fingerprint_ok (dec_policy_fp d) \<and> fingerprint_ok (dec_catalog_fp d) \<and>
     scan_raw_text (confirmed_interpretation d) = None"

definition decision_payload :: "SemanticDecision \<Rightarrow> (string \<times> jv) list" where
  "decision_payload d =
     [(''decision_id'', VStr (decision_id d)), (''confirmed_interpretation'', VStr (confirmed_interpretation d)),
      (''policy_fingerprint'', VStr (dec_policy_fp d)), (''catalog_fingerprint'', VStr (dec_catalog_fp d))]"

definition decision_fingerprint :: "SemanticDecision \<Rightarrow> string" where
  "decision_fingerprint d = fingerprint_of (vdict (decision_payload d))"

datatype MemoryPayload =
    WorkingPayload string "string option"
  | SessionPayload string
  | QueryReferencePayload QueryReference
  | SemanticDecisionPayload SemanticDecision
  | AuditReferencePayload string string

fun payload_valid :: "MemoryPayload \<Rightarrow> bool" where
  "payload_valid (WorkingPayload label detail) \<longleftrightarrow>
     1 \<le> length label \<and> length label \<le> 256 \<and>
     opt_all (\<lambda>d. length d \<le> MAX_SEMANTIC_TEXT_CHARS \<and> scan_raw_text d = None) detail"
| "payload_valid (SessionPayload summary) \<longleftrightarrow>
     1 \<le> length summary \<and> length summary \<le> MAX_SEMANTIC_TEXT_CHARS \<and> scan_raw_text summary = None"
| "payload_valid (QueryReferencePayload r) \<longleftrightarrow> reference_valid r"
| "payload_valid (SemanticDecisionPayload d) \<longleftrightarrow> decision_valid d"
| "payload_valid (AuditReferencePayload audit_id event_fp) \<longleftrightarrow> identifier_ok audit_id \<and> fingerprint_ok event_fp"

fun payload_kind :: "MemoryPayload \<Rightarrow> MemoryRecordKind" where
  "payload_kind (WorkingPayload label detail) = WORKING"
| "payload_kind (SessionPayload summary) = SESSION"
| "payload_kind (QueryReferencePayload r) = QUERY_REFERENCE"
| "payload_kind (SemanticDecisionPayload d) = SEMANTIC_DECISION"
| "payload_kind (AuditReferencePayload audit_id event_fp) = AUDIT_REFERENCE"

text \<open>\<open>model_dump(mode="json")\<close> of the payloads, with the \<open>field_ids\<close> of a reference sorted.\<close>

fun payload_dump :: "MemoryPayload \<Rightarrow> jv" where
  "payload_dump (WorkingPayload label detail) =
     vdict [(''payload_kind'', VStr ''working''), (''label'', VStr label), (''detail'', vopt VStr detail)]"
| "payload_dump (SessionPayload summary) =
     vdict [(''payload_kind'', VStr ''session''), (''session_summary'', VStr summary)]"
| "payload_dump (QueryReferencePayload r) =
     vdict [(''payload_kind'', VStr ''query_reference''),
            (''reference'', vdict (reference_payload r @ [(''fingerprint'', VStr (reference_fingerprint r))]))]"
| "payload_dump (SemanticDecisionPayload d) =
     vdict [(''payload_kind'', VStr ''semantic_decision''),
            (''decision'', vdict (decision_payload d @ [(''fingerprint'', VStr (decision_fingerprint d))]))]"
| "payload_dump (AuditReferencePayload audit_id event_fp) =
     vdict [(''payload_kind'', VStr ''audit_reference''), (''audit_id'', VStr audit_id),
            (''event_fingerprint'', VStr event_fp)]"

record MemoryRecord =
  record_id :: string
  mem_scope :: MemoryScope
  payload :: MemoryPayload
  mem_created_at :: timestamp
  ttl_seconds :: int
  mem_expires_at :: timestamp
  mem_metadata :: "(string, string) dict"

definition metadata_key_ok :: "string \<Rightarrow> bool" where
  "metadata_key_ok k \<longleftrightarrow>
     k \<noteq> [] \<and> length k \<le> 64 \<and> list_all (\<lambda>c. is_alnum c \<or> c \<in> set ''_-.'') k"

definition metadata_valid :: "(string, string) dict \<Rightarrow> bool" where
  "metadata_valid m \<longleftrightarrow>
     length m \<le> MAX_METADATA_KEYS \<and>
     list_all (\<lambda>(k, v). metadata_key_ok k \<and> length v \<le> MAX_METADATA_VALUE_CHARS \<and> scan_raw_text v = None) m \<and>
     reject_raw_payload (vdict (map (\<lambda>(k, v). (k, VStr v)) m)) ''metadata'' = Inr ()"

text \<open>The validating constructor, with the \<open>_finalize\<close> step that derives \<open>expires_at\<close>.\<close>

definition new_MemoryRecord ::
  "string \<Rightarrow> MemoryScope \<Rightarrow> MemoryPayload \<Rightarrow> timestamp \<Rightarrow> int \<Rightarrow> timestamp option \<Rightarrow> (string, string) dict
    \<Rightarrow> MemoryRecord res" where
  "new_MemoryRecord rid scope pl created ttl expires meta =
     (if \<not> (identifier_ok rid \<and> scope_valid scope \<and> payload_valid pl \<and>
            1 \<le> ttl \<and> ttl \<le> MAX_TTL_SECONDS \<and> metadata_valid meta)
      then Inl ValidationError
      else
        (let exp = (case expires of None \<Rightarrow> created + 1000000 * ttl | Some t \<Rightarrow> t)
         in if exp \<le> created then Inl ValidationError
            else if payload_kind pl \<noteq> WORKING \<and> ms_tenant scope = None then Inl ValidationError
            else Inr \<lparr>record_id = rid, mem_scope = scope, payload = pl, mem_created_at = created,
                      ttl_seconds = ttl, mem_expires_at = exp, mem_metadata = meta\<rparr>))"

definition kind :: "MemoryRecord \<Rightarrow> MemoryRecordKind" where
  "kind r = payload_kind (payload r)"

definition is_expired :: "MemoryRecord \<Rightarrow> timestamp \<Rightarrow> bool" where
  "is_expired r now \<longleftrightarrow> mem_expires_at r \<le> now"

definition record_payload :: "MemoryRecord \<Rightarrow> jv" where
  "record_payload r = vdict
     [(''record_id'', VStr (record_id r)), (''scope_fingerprint'', VStr (scope_fingerprint (mem_scope r))),
      (''payload'', payload_dump (payload r)), (''created_at'', VStr (isoformat (mem_created_at r))),
      (''ttl_seconds'', VInt (ttl_seconds r)), (''expires_at'', VStr (isoformat (mem_expires_at r))),
      (''metadata'', vdict (map (\<lambda>(k, v). (k, VStr v)) (sort_key fst (mem_metadata r))))]"

definition record_fingerprint :: "MemoryRecord \<Rightarrow> string" where
  "record_fingerprint r = fingerprint_of (record_payload r)"

record MemoryRecallBudget =
  rb_max_records :: int
  rb_max_chars :: int
  rb_max_tokens :: int

definition recall_budget_valid :: "MemoryRecallBudget \<Rightarrow> bool" where
  "recall_budget_valid b \<longleftrightarrow>
     1 \<le> rb_max_records b \<and> rb_max_records b \<le> MAX_RECALL_RECORDS \<and>
     1 \<le> rb_max_chars b \<and> rb_max_chars b \<le> 1000000 \<and>
     1 \<le> rb_max_tokens b \<and> rb_max_tokens b \<le> 250000"

definition default_recall_budget :: MemoryRecallBudget where
  "default_recall_budget = \<lparr>rb_max_records = 100, rb_max_chars = 100000, rb_max_tokens = 25000\<rparr>"

record MemoryRecallProjection =
  proj_scope_fp :: string
  proj_records :: "MemoryRecord list"
  truncated :: bool
  char_count :: int
  token_estimate :: int

definition projection_fingerprint :: "MemoryRecallProjection \<Rightarrow> string" where
  "projection_fingerprint p = fingerprint_of (vdict
     [(''scope_fingerprint'', VStr (proj_scope_fp p)),
      (''records'', VList (map (\<lambda>r. VStr (record_fingerprint r)) (proj_records p))),
      (''truncated'', VBool (truncated p)), (''char_count'', VInt (char_count p)),
      (''token_estimate'', VInt (token_estimate p))])"

definition projection_valid :: "MemoryRecallProjection \<Rightarrow> bool" where
  "projection_valid p \<longleftrightarrow>
     fingerprint_ok (proj_scope_fp p) \<and> int (length (proj_records p)) \<le> MAX_RECALL_RECORDS \<and>
     0 \<le> char_count p \<and> 0 \<le> token_estimate p"

section \<open>Memory errors\<close>

datatype MemoryErrorCategory = AVAILABILITY | SCOPE | BOUNDS | REQUEST | UNKNOWN

datatype MemoryErrorCode =
  MEMORY_UNAVAILABLE | SCOPE_MISMATCH | RECORD_REJECTED | BUDGET_EXHAUSTED | UNKNOWN_MEMORY_ERROR

definition RETRYABLE_CODES :: "MemoryErrorCode list" where
  "RETRYABLE_CODES = [MEMORY_UNAVAILABLE]"

fun CATEGORY_BY_CODE :: "MemoryErrorCode \<Rightarrow> MemoryErrorCategory" where
  "CATEGORY_BY_CODE MEMORY_UNAVAILABLE = AVAILABILITY"
| "CATEGORY_BY_CODE SCOPE_MISMATCH = SCOPE"
| "CATEGORY_BY_CODE RECORD_REJECTED = REQUEST"
| "CATEGORY_BY_CODE BUDGET_EXHAUSTED = BOUNDS"
| "CATEGORY_BY_CODE UNKNOWN_MEMORY_ERROR = UNKNOWN"

record MemoryInvocationError =
  mi_code :: MemoryErrorCode
  mi_message :: string
  mi_details :: "(string, pyval) dict"
  mi_cause :: "string option"

text \<open>What a provider call can raise: a structured failure, or any other exception by its type.\<close>

datatype memory_exn =
    MemoryFailure MemoryInvocationError
  | TimeoutRaised string | ConnectionRaised string | InvalidDataRaised string | OtherRaised string

type_synonym 'a mem_res = "memory_exn + 'a"

definition memory_failure :: "MemoryErrorCode \<Rightarrow> string \<Rightarrow> (string, pyval) dict \<Rightarrow> memory_exn" where
  "memory_failure code message details =
     MemoryFailure \<lparr>mi_code = code, mi_message = message, mi_details = details, mi_cause = None\<rparr>"

record MemoryErrorRecord =
  mer_code :: MemoryErrorCode
  mer_category :: MemoryErrorCategory
  mer_message :: string
  mer_retryable :: bool
  mer_details :: "(string, string) dict"
  mer_cause_type :: "string option"

fun is_pystr :: "pyval \<Rightarrow> bool" where
  "is_pystr (PyStr s) = True"
| "is_pystr v = False"

text \<open>The record declares \<open>details: dict[str, str]\<close>: other values are rejected, not converted.\<close>

definition memory_to_record :: "MemoryInvocationError \<Rightarrow> MemoryErrorRecord res" where
  "memory_to_record e =
     (if 1 \<le> length (mi_message e) \<and> length (mi_message e) \<le> 2000 \<and> length (mi_details e) \<le> 64 \<and>
         list_all (\<lambda>(k, v). is_pystr v) (mi_details e) \<and>
         opt_all (\<lambda>c. length c \<le> 256) (mi_cause e)
      then Inr \<lparr>mer_code = mi_code e, mer_category = CATEGORY_BY_CODE (mi_code e), mer_message = mi_message e,
                mer_retryable = (mi_code e \<in> set RETRYABLE_CODES),
                mer_details = map (\<lambda>(k, v). (k, redact_key_value k v)) (mi_details e),
                mer_cause_type = mi_cause e\<rparr>
      else Inl ValidationError)"

definition wrapped :: "MemoryErrorCode \<Rightarrow> string \<Rightarrow> string \<Rightarrow> MemoryInvocationError" where
  "wrapped code message cls =
     \<lparr>mi_code = code, mi_message = message, mi_details = [(''cause_type'', PyStr cls)], mi_cause = Some cls\<rparr>"

fun normalize_memory_error :: "memory_exn \<Rightarrow> MemoryErrorRecord res" where
  "normalize_memory_error (MemoryFailure e) = memory_to_record e"
| "normalize_memory_error (TimeoutRaised cls) =
     memory_to_record (wrapped MEMORY_UNAVAILABLE ''memory call timed out'' cls)"
| "normalize_memory_error (ConnectionRaised cls) =
     memory_to_record (wrapped MEMORY_UNAVAILABLE ''memory provider is unreachable'' cls)"
| "normalize_memory_error (InvalidDataRaised cls) =
     memory_to_record (wrapped RECORD_REJECTED ''memory provider returned invalid data'' cls)"
| "normalize_memory_error (OtherRaised cls) =
     memory_to_record (wrapped UNKNOWN_MEMORY_ERROR REDACTED_VALUE cls)"

section \<open>Properties\<close>

lemma new_MemoryRecord_ok:
  "new_MemoryRecord rid scope pl created ttl expires meta = Inr r \<longleftrightarrow>
     identifier_ok rid \<and> scope_valid scope \<and> payload_valid pl \<and> 1 \<le> ttl \<and> ttl \<le> MAX_TTL_SECONDS \<and>
     metadata_valid meta \<and> created < mem_expires_at r \<and> (payload_kind pl = WORKING \<or> ms_tenant scope \<noteq> None) \<and>
     r = \<lparr>record_id = rid, mem_scope = scope, payload = pl, mem_created_at = created, ttl_seconds = ttl,
          mem_expires_at = (case expires of None \<Rightarrow> created + 1000000 * ttl | Some t \<Rightarrow> t), mem_metadata = meta\<rparr>"
  by (auto simp: new_MemoryRecord_def Let_def)

lemma raw_items_rejected:
  "reject_raw_items items path = Inr u \<Longrightarrow> (k, v) \<in> set items \<Longrightarrow>
   str_lower (key_text k) \<notin> set RAW_PAYLOAD_KEY_NAMES"
  by (induction items) (auto simp: bind_res_Inr_iff split: if_splits)

text \<open>
  What every memory record guarantees: it expires after it was created, only working notes live
  without a tenant scope, and none of its metadata is named like a raw payload or contains text
  that looks like a SQL statement or a credential.
\<close>

theorem memory_record_guarantees:
  assumes "new_MemoryRecord rid scope pl created ttl expires meta = Inr r"
  shows "mem_created_at r < mem_expires_at r \<and> (kind r = WORKING \<or> ms_tenant (mem_scope r) \<noteq> None) \<and>
    payload_valid (payload r) \<and>
    (\<forall>(k, v) \<in> set (mem_metadata r). str_lower k \<notin> set RAW_PAYLOAD_KEY_NAMES \<and> scan_raw_text v = None)"
proof -
  have ok: "metadata_valid meta" "r = \<lparr>record_id = rid, mem_scope = scope, payload = pl, mem_created_at = created,
      ttl_seconds = ttl, mem_expires_at = (case expires of None \<Rightarrow> created + 1000000 * ttl | Some t \<Rightarrow> t),
      mem_metadata = meta\<rparr>" and rest: "created < mem_expires_at r" "payload_valid pl"
      "payload_kind pl = WORKING \<or> ms_tenant scope \<noteq> None"
    using assms unfolding new_MemoryRecord_ok by blast+
  have "str_lower k \<notin> set RAW_PAYLOAD_KEY_NAMES \<and> scan_raw_text v = None" if "(k, v) \<in> set meta" for k v
  proof -
    have "(KStr k, VStr v) \<in> set (map (\<lambda>(k, v). (KStr k, v)) (map (\<lambda>(k, v). (k, VStr v)) meta))"
      using that by force
    then show ?thesis using ok(1) that raw_items_rejected [of _ "''metadata''" "()" "KStr k" "VStr v"]
      by (fastforce simp: metadata_valid_def list_all_iff)
  qed
  with ok(2) rest show ?thesis by (auto simp: kind_def)
qed

text \<open>
  The time-to-live of a record is capped at 36.5 days: a lifetime of 365 days, which the comment
  on the bound names, is rejected whatever the rest of the record is.
\<close>

theorem memory_ttl_of_a_year_rejected:
  "new_MemoryRecord rid scope pl created (365 * 86400) expires meta = Inl ValidationError \<and>
   2 * MAX_TTL_SECONDS = 73 * 86400"
  by (simp add: new_MemoryRecord_def MAX_TTL_SECONDS_def)

text \<open>
  Any exception of a memory provider is published safely: normalizing it yields a record whose
  details are redacted, retryable exactly for unavailability, and for an exception that is not a
  structured memory failure nothing of its message is kept.
\<close>

theorem normalized_memory_error_safe:
  assumes "normalize_memory_error e = Inr r"
  shows "(mer_retryable r \<longleftrightarrow> mer_code r = MEMORY_UNAVAILABLE) \<and>
    mer_category r = CATEGORY_BY_CODE (mer_code r) \<and>
    (\<forall>(k, v) \<in> set (mer_details r). \<not> is_forbidden_value v \<and> (sensitive_key k \<longrightarrow> v = REDACTED_VALUE)) \<and>
    (\<forall>cls. e = OtherRaised cls \<longrightarrow> mer_message r = REDACTED_VALUE)"
proof -
  obtain i where i: "memory_to_record i = Inr r" "\<forall>cls. e = OtherRaised cls \<longrightarrow> mi_message i = REDACTED_VALUE"
    using assms by (cases e) (auto simp: wrapped_def)
  have "\<not> is_forbidden_value (redact_key_value k v) \<and> (sensitive_key k \<longrightarrow> redact_key_value k v = REDACTED_VALUE)"
    if "(k, v) \<in> set (mi_details i)" for k v
  proof -
    have "is_pystr v" using i(1) that by (auto simp: memory_to_record_def list_all_iff split: if_splits)
    then obtain s where "v = PyStr s" by (cases v) auto
    then show ?thesis using redact_key_value_not_forbidden [of v k] by (simp add: redact_key_value_def)
  qed
  with i show ?thesis
    by (auto simp: memory_to_record_def RETRYABLE_CODES_def split: if_splits)
qed

section \<open>Concrete records\<close>

definition tenant_a :: string where
  "tenant_a = ''sha256:'' @ replicate 64 CHR ''a''"

definition sample_mem_scope :: MemoryScope where
  "sample_mem_scope =
     \<lparr>ms_tenant = Some tenant_a, ms_session = ''s1'', ms_conversation = None, ms_adapter = None, ms_source = None\<rparr>"

definition sample_mem_record :: MemoryRecord where
  "sample_mem_record =
     \<lparr>record_id = ''m1'', mem_scope = sample_mem_scope, payload = AuditReferencePayload ''a1'' tenant_a,
      mem_created_at = 0, ttl_seconds = 60, mem_expires_at = 60000000, mem_metadata = []\<rparr>"

lemma tenant_a_ok: "fingerprint_ok tenant_a"
  by (simp add: fingerprint_ok_def tenant_a_def list_all_iff)

lemma sample_mem_record_new:
  "new_MemoryRecord ''m1'' sample_mem_scope (AuditReferencePayload ''a1'' tenant_a) 0 60 None [] = Inr sample_mem_record"
  using tenant_a_ok
  by (simp add: new_MemoryRecord_def sample_mem_record_def sample_mem_scope_def scope_valid_def metadata_valid_def
      identifier_ok_def char_class_defs memory_bounds)

theorem memory_record_guarantees_witness:
  "new_MemoryRecord ''m1'' sample_mem_scope (AuditReferencePayload ''a1'' tenant_a) 0 60 None [] = Inr sample_mem_record \<and>
   mem_created_at sample_mem_record < mem_expires_at sample_mem_record"
  using sample_mem_record_new memory_record_guarantees [OF sample_mem_record_new] by blast

theorem normalized_memory_error_safe_witness:
  "\<exists>r. normalize_memory_error (OtherRaised ''RuntimeError'') = Inr r \<and> mer_message r = REDACTED_VALUE \<and> \<not> mer_retryable r"
proof -
  obtain r where r: "normalize_memory_error (OtherRaised ''RuntimeError'') = Inr r"
    by (simp add: memory_to_record_def wrapped_def REDACTED_VALUE_def)
  have "mer_code r = UNKNOWN_MEMORY_ERROR" using r by (auto simp: memory_to_record_def wrapped_def split: if_splits)
  with r normalized_memory_error_safe [OF r] show ?thesis by auto
qed

end
