(* ===== verification/Memory_Provider.thy ===== *)
theory Memory_Provider
  imports Memory_Model
begin

text \<open>
  The deterministic in-memory provider: \<^verbatim>\<open>src/nl2data_core/memory/inmemory.py\<close>, behind the
  protocol of \<^verbatim>\<open>src/nl2data_core/memory/protocol.py\<close>.

  The provider is a record of its dict, its insertion order and its reserved ids.  The size of a
  record is the length of its legacy canonical serialization, which depends on Unicode
  normalization tables: it is the parameter \<open>size_of\<close> of \<open>recall\<close>.  The locale \<open>memory_provider\<close>
  states what a client of the protocol relies on when it recalls records; the in-memory provider
  interprets it.  The theory also shows two ways in which the provider departs from its
  documentation: a deleted and re-appended record is recalled twice, and an expired id does not
  stay reserved.
\<close>

section \<open>The protocol\<close>

definition scope_matches :: "MemoryScope \<Rightarrow> MemoryScope \<Rightarrow> bool" where
  "scope_matches rs qs =
     (if ms_tenant qs \<noteq> None \<and> ms_tenant rs \<noteq> ms_tenant qs then False
      else if ms_tenant qs = None \<and> ms_tenant rs \<noteq> None then False
      else if ms_session rs \<noteq> ms_session qs then False
      else if ms_conversation qs \<noteq> None \<and> ms_conversation rs \<noteq> ms_conversation qs then False
      else (ms_adapter qs = None \<or> ms_adapter rs = ms_adapter qs) \<and>
           (ms_source qs = None \<or> ms_source rs = ms_source qs))"

locale memory_provider =
  fixes inv :: "'p \<Rightarrow> bool"
    and is_available :: "'p \<Rightarrow> bool"
    and recall :: "'p \<Rightarrow> MemoryScope \<Rightarrow> MemoryRecallBudget option \<Rightarrow> timestamp \<Rightarrow> MemoryRecallProjection mem_res"
  assumes recall_scoped: "inv p \<Longrightarrow> recall p qs budget now = Inr proj \<Longrightarrow> r \<in> set (proj_records proj) \<Longrightarrow>
            scope_matches (mem_scope r) qs \<and> \<not> is_expired r now"
    and recall_unavailable: "\<not> is_available p \<Longrightarrow> \<exists>e. recall p qs budget now = Inl (MemoryFailure e) \<and>
            mi_code e = MEMORY_UNAVAILABLE"
begin

lemma recalled_same_tenant:
  "inv p \<Longrightarrow> recall p qs budget now = Inr proj \<Longrightarrow> r \<in> set (proj_records proj) \<Longrightarrow>
   ms_tenant (mem_scope r) = ms_tenant qs \<and> ms_session (mem_scope r) = ms_session qs"
  using recall_scoped [of p qs budget now proj r] by (auto simp: scope_matches_def split: if_splits)

end

section \<open>The in-memory provider\<close>

record provider =
  available :: bool
  max_records :: int
  records :: "(string, MemoryRecord) dict"
  order :: "string list"
  expired_ids :: "string fset"

definition new_provider :: "bool \<Rightarrow> int \<Rightarrow> provider" where
  "new_provider avail cap =
     \<lparr>available = avail, max_records = cap, records = [], order = [], expired_ids = {||}\<rparr>"

definition ensure_available :: "provider \<Rightarrow> unit mem_res" where
  "ensure_available p =
     ensure (available p) (memory_failure MEMORY_UNAVAILABLE ''memory provider is unavailable'' [])"

definition append :: "provider \<Rightarrow> MemoryRecord \<Rightarrow> provider mem_res" where
  "append p r =
     bind_res (ensure_available p) (\<lambda>_.
     if dict_get (records p) (record_id r) \<noteq> None \<or> record_id r |\<in>| expired_ids p then
       Inl (memory_failure RECORD_REJECTED ''memory record id already exists''
              [(''record_id'', PyStr (record_id r))])
     else if int (length (records p)) \<ge> max_records p then
       Inl (memory_failure BUDGET_EXHAUSTED ''memory provider capacity is exhausted''
              [(''max_records'', PyStr (string_of_int (max_records p)))])
     else Inr (p\<lparr>records := dict_set (record_id r) r (records p), order := order p @ [record_id r]\<rparr>))"

text \<open>The first loop of \<open>recall\<close>, over the insertion order, and the sort that follows it.\<close>

definition eligible :: "provider \<Rightarrow> MemoryScope \<Rightarrow> timestamp \<Rightarrow> MemoryRecord list" where
  "eligible p qs now =
     concat (map (\<lambda>rid. case dict_get (records p) rid of
                          None \<Rightarrow> []
                        | Some r \<Rightarrow> if is_expired r now then []
                                    else if \<not> scope_matches (mem_scope r) qs then [] else [r]) (order p))"

definition MAX_CHARS_PER_TOKEN :: int where
  "MAX_CHARS_PER_TOKEN = 4"

fun select_records ::
  "(MemoryRecord \<Rightarrow> nat) \<Rightarrow> MemoryRecallBudget \<Rightarrow> MemoryRecord list \<Rightarrow> MemoryRecord list \<Rightarrow> int
    \<Rightarrow> MemoryRecord list \<times> int \<times> bool" where
  "select_records size_of b [] selected chars = (selected, chars, False)"
| "select_records size_of b (r # rs) selected chars =
     (let size = int (size_of r); tokens = (chars + size) div MAX_CHARS_PER_TOKEN
      in if int (length selected) \<ge> rb_max_records b \<or> chars + size > rb_max_chars b \<or> tokens > rb_max_tokens b
         then (selected, chars, True)
         else select_records size_of b rs (selected @ [r]) (chars + size))"

definition recall ::
  "(MemoryRecord \<Rightarrow> nat) \<Rightarrow> provider \<Rightarrow> MemoryScope \<Rightarrow> MemoryRecallBudget option \<Rightarrow> timestamp
    \<Rightarrow> MemoryRecallProjection mem_res" where
  "recall size_of p qs budget now =
     bind_res (ensure_available p) (\<lambda>_.
     (let b = (case budget of None \<Rightarrow> default_recall_budget | Some b \<Rightarrow> b);
          candidates = sort_key (\<lambda>r. (mem_created_at r, record_id r)) (eligible p qs now)
      in case select_records size_of b candidates [] 0 of (selected, chars, trunc) \<Rightarrow>
           (let proj = \<lparr>proj_scope_fp = scope_fingerprint qs, proj_records = selected, truncated = trunc,
                        char_count = chars, token_estimate = chars div MAX_CHARS_PER_TOKEN\<rparr>
            in if projection_valid proj then Inr proj else Inl (InvalidDataRaised ''ValidationError''))))"

definition compare_and_set :: "provider \<Rightarrow> MemoryRecord \<Rightarrow> MemoryRecord \<Rightarrow> (provider \<times> bool) mem_res" where
  "compare_and_set p expected replacement =
     bind_res (ensure_available p) (\<lambda>_.
     if record_id replacement \<noteq> record_id expected then
       Inl (memory_failure RECORD_REJECTED ''replacement record id must match the expected record''
              [(''expected'', PyStr (record_id expected)), (''replacement'', PyStr (record_id replacement))])
     else if scope_fingerprint (mem_scope replacement) \<noteq> scope_fingerprint (mem_scope expected) then
       Inl (memory_failure SCOPE_MISMATCH ''replacement record scope must match the expected record'' [])
     else (case dict_get (records p) (record_id expected) of
             None \<Rightarrow> Inr (p, False)
           | Some stored \<Rightarrow>
               if record_fingerprint stored \<noteq> record_fingerprint expected then Inr (p, False)
               else Inr (p\<lparr>records := dict_set (record_id expected) replacement (records p)\<rparr>, True)))"

text \<open>The loop of \<open>compact\<close>: the records, the reserved ids, the remaining order and the count.\<close>

fun compact_loop ::
  "timestamp \<Rightarrow> string list \<Rightarrow> (string, MemoryRecord) dict \<Rightarrow> string fset \<Rightarrow> string list \<Rightarrow> int
    \<Rightarrow> (string, MemoryRecord) dict \<times> string fset \<times> string list \<times> int" where
  "compact_loop now [] recs expd remaining removed = (recs, expd, remaining, removed)"
| "compact_loop now (rid # ids) recs expd remaining removed =
     (case dict_get recs rid of
        None \<Rightarrow> compact_loop now ids recs (expd |-| {|rid|}) remaining removed
      | Some r \<Rightarrow>
          if is_expired r now then compact_loop now ids (dict_del rid recs) expd remaining (removed + 1)
          else compact_loop now ids recs expd (remaining @ [rid]) removed)"

definition compact :: "provider \<Rightarrow> timestamp \<Rightarrow> (provider \<times> int) mem_res" where
  "compact p now =
     bind_res (ensure_available p) (\<lambda>_.
     case compact_loop now (order p) (records p) (expired_ids p) [] 0 of
       (recs, expd, remaining, removed) \<Rightarrow>
         Inr (p\<lparr>records := recs, expired_ids := expd, order := remaining\<rparr>, removed))"

definition expire :: "provider \<Rightarrow> string \<Rightarrow> (provider \<times> bool) mem_res" where
  "expire p rid =
     bind_res (ensure_available p) (\<lambda>_.
     if dict_get (records p) rid = None then Inr (p, False)
     else Inr (p\<lparr>records := dict_del rid (records p), expired_ids := finsert rid (expired_ids p)\<rparr>, True))"

definition delete :: "provider \<Rightarrow> string \<Rightarrow> (provider \<times> bool) mem_res" where
  "delete p rid =
     bind_res (ensure_available p) (\<lambda>_.
     if dict_get (records p) rid = None then Inr (p, False)
     else Inr (p\<lparr>records := dict_del rid (records p)\<rparr>, True))"

section \<open>Steps and invariant\<close>

inductive provider_step :: "provider \<Rightarrow> provider \<Rightarrow> bool" where
  step_append: "append p r = Inr p' \<Longrightarrow> provider_step p p'"
| step_cas: "compare_and_set p expected replacement = Inr (p', flag) \<Longrightarrow> provider_step p p'"
| step_compact: "compact p now = Inr (p', n) \<Longrightarrow> provider_step p p'"
| step_expire: "expire p rid = Inr (p', flag) \<Longrightarrow> provider_step p p'"
| step_delete: "delete p rid = Inr (p', flag) \<Longrightarrow> provider_step p p'"

definition provider_init :: "provider \<Rightarrow> bool" where
  "provider_init p \<longleftrightarrow> (\<exists>avail cap. 0 \<le> cap \<and> p = new_provider avail cap)"

definition provider_inv :: "provider \<Rightarrow> bool" where
  "provider_inv p \<longleftrightarrow>
     dict_ok (records p) \<and> int (length (records p)) \<le> max_records p \<and>
     list_all (\<lambda>(rid, r). record_id r = rid \<and> rid \<in> set (order p) \<and> rid |\<notin>| expired_ids p) (records p)"

lemma provider_inv_get:
  "provider_inv p \<Longrightarrow> dict_get (records p) rid = Some r \<Longrightarrow>
   record_id r = rid \<and> rid \<in> set (order p) \<and> rid |\<notin>| expired_ids p"
  by (auto simp: provider_inv_def list_all_iff dest!: map_of_SomeD)

lemma provider_invI:
  assumes "dict_ok (records p)" "int (length (records p)) \<le> max_records p"
    and "\<And>rid r. dict_get (records p) rid = Some r \<Longrightarrow> record_id r = rid \<and> rid \<in> set (order p) \<and> rid |\<notin>| expired_ids p"
  shows "provider_inv p"
  using assms by (auto simp: provider_inv_def list_all_iff)

lemma length_del_le: "length (dict_del k d) \<le> length d"
  by (rule length_delete_le)

lemma compact_loop_result:
  "compact_loop now ids recs expd rem n = (recs', expd', rem', n') \<Longrightarrow> dict_ok recs \<Longrightarrow>
   dict_ok recs' \<and> length recs' \<le> length recs \<and> set rem \<subseteq> set rem' \<and> expd' |\<subseteq>| expd \<and>
   (\<forall>k. dict_get recs' k = (case dict_get recs k of
      None \<Rightarrow> None | Some r \<Rightarrow> if k \<in> set ids \<and> is_expired r now then None else Some r)) \<and>
   (\<forall>k \<in> set ids. dict_get recs' k \<noteq> None \<longrightarrow> k \<in> set rem') \<and>
   (\<forall>k \<in> set ids. dict_get recs k = None \<longrightarrow> k |\<notin>| expd')"
proof (induction ids arbitrary: recs expd rem n)
  case Nil
  then show ?case by (auto split: option.splits)
next
  case (Cons rid ids)
  show ?case
  proof (cases "dict_get recs rid")
    case None
    then have "compact_loop now ids recs (expd |-| {|rid|}) rem n = (recs', expd', rem', n')"
      using Cons.prems(1) by simp
    from Cons.IH [OF this Cons.prems(2)] None show ?thesis by (auto split: option.splits)
  next
    case (Some r)
    show ?thesis
    proof (cases "is_expired r now")
      case True
      then have "compact_loop now ids (dict_del rid recs) expd rem (n + 1) = (recs', expd', rem', n')"
        using Cons.prems(1) Some by simp
      note ih = Cons.IH [OF this dict_ok_del [OF Cons.prems(2)]]
      then have "length recs' \<le> length recs" using length_del_le [of rid recs] by linarith
      moreover have "dict_get recs' k = (case dict_get recs k of None \<Rightarrow> None
          | Some r \<Rightarrow> if k \<in> set (rid # ids) \<and> is_expired r now then None else Some r)" for k
        using ih True Some by (cases "k = rid") (simp_all split: option.split)
      ultimately show ?thesis using ih Some True by simp
    next
      case False
      then have "compact_loop now ids recs expd (rem @ [rid]) n = (recs', expd', rem', n')"
        using Cons.prems(1) Some by simp
      from Cons.IH [OF this Cons.prems(2)] False Some show ?thesis by (auto split: option.splits)
    qed
  qed
qed

lemma ensure_available_ok [res_simps]: "ensure_available p = Inr u \<longleftrightarrow> available p"
  by (simp add: ensure_available_def)

lemma append_ok:
  "append p r = Inr p' \<longleftrightarrow>
     available p \<and> dict_get (records p) (record_id r) = None \<and> record_id r |\<notin>| expired_ids p \<and>
     int (length (records p)) < max_records p \<and>
     p' = p\<lparr>records := dict_set (record_id r) r (records p), order := order p @ [record_id r]\<rparr>"
  by (auto simp: append_def bind_res_Inr_iff ensure_available_ok)

lemma length_dict_set_new: "dict_get d k = None \<Longrightarrow> length (dict_set k v d) = Suc (length d)"
  by (simp add: length_dict_set map_of_eq_None_iff)

lemma length_dict_set_old: "dict_get d k = Some w \<Longrightarrow> length (dict_set k v d) = length d"
  by (auto simp: length_dict_set dest!: map_of_SomeD intro: rev_image_eqI)

lemma provider_step_inv:
  assumes "provider_inv p" "provider_step p p'"
  shows "provider_inv p'"
  using assms(2)
proof cases
  case (step_append r)
  then show ?thesis using assms(1) provider_inv_get [OF assms(1)]
    by (intro provider_invI) (auto simp: append_ok length_dict_set_new provider_inv_def split: if_splits)
next
  case (step_cas expected replacement flag)
  then consider "p' = p" | stored where "dict_get (records p) (record_id expected) = Some stored"
      "record_id replacement = record_id expected"
      "p' = p\<lparr>records := dict_set (record_id expected) replacement (records p)\<rparr>"
    by (auto simp: compare_and_set_def bind_res_Inr_iff split: if_splits option.splits)
  then show ?thesis
  proof cases
    case 2
    then show ?thesis using assms(1) provider_inv_get [OF assms(1)]
      by (intro provider_invI) (auto simp: length_dict_set_old provider_inv_def split: if_splits)
  qed (use assms(1) in simp)
next
  case (step_compact now n)
  then obtain recs expd rem where loop: "compact_loop now (order p) (records p) (expired_ids p) [] 0 = (recs, expd, rem, n)"
    and p': "p' = p\<lparr>records := recs, expired_ids := expd, order := rem\<rparr>"
    by (auto simp: compact_def bind_res_Inr_iff split: prod.splits)
  have "dict_ok (records p)" using assms(1) by (simp add: provider_inv_def)
  note res = compact_loop_result [OF loop this]
  show ?thesis
  proof (rule provider_invI)
    fix rid r
    assume "dict_get (records p') rid = Some r"
    then have "dict_get recs rid = Some r" using p' by simp
    moreover from this res have "dict_get (records p) rid = Some r" by (auto split: option.splits if_splits)
    ultimately show "record_id r = rid \<and> rid \<in> set (order p') \<and> rid |\<notin>| expired_ids p'"
      using provider_inv_get [OF assms(1)] res p' by fastforce
  qed (use res p' assms(1) in \<open>auto simp: provider_inv_def\<close>)
next
  case (step_expire rid flag)
  then show ?thesis using assms(1) provider_inv_get [OF assms(1)] length_del_le [of rid "records p"]
    by (intro provider_invI) (auto simp: expire_def bind_res_Inr_iff provider_inv_def split: if_splits)
next
  case (step_delete rid flag)
  then show ?thesis using assms(1) provider_inv_get [OF assms(1)] length_del_le [of rid "records p"]
    by (intro provider_invI) (auto simp: delete_def bind_res_Inr_iff provider_inv_def split: if_splits)
qed

interpretation provider_sys: safe_system provider_init provider_step provider_inv
proof unfold_locales
  show "provider_inv p" if "provider_init p" for p
    using that by (auto simp: provider_init_def new_provider_def provider_inv_def)
qed (rule provider_step_inv)

section \<open>Recall\<close>

lemma select_records_result:
  "select_records size_of b rs selected chars = (sel, c, trunc) \<Longrightarrow>
   int (length selected) \<le> rb_max_records b \<Longrightarrow> chars \<le> rb_max_chars b \<Longrightarrow>
   chars div MAX_CHARS_PER_TOKEN \<le> rb_max_tokens b \<Longrightarrow>
   \<exists>k \<le> length rs. sel = selected @ take k rs \<and> c = chars + int (sum_list (map size_of (take k rs))) \<and>
     int (length sel) \<le> rb_max_records b \<and> c \<le> rb_max_chars b \<and> c div MAX_CHARS_PER_TOKEN \<le> rb_max_tokens b \<and>
     (if trunc then k < length rs \<and>
         (int (length sel) = rb_max_records b \<or> c + int (size_of (rs ! k)) > rb_max_chars b \<or>
          (c + int (size_of (rs ! k))) div MAX_CHARS_PER_TOKEN > rb_max_tokens b)
      else k = length rs)"
proof (induction rs arbitrary: selected chars)
  case Nil
  then show ?case by simp
next
  case (Cons r rs)
  let ?stop = "int (length selected) \<ge> rb_max_records b \<or> chars + int (size_of r) > rb_max_chars b \<or>
     (chars + int (size_of r)) div MAX_CHARS_PER_TOKEN > rb_max_tokens b"
  show ?case
  proof (cases ?stop)
    case True
    then have "sel = selected" "c = chars" "trunc" using Cons.prems(1) by (auto simp: Let_def)
    with True Cons.prems show ?thesis by (intro exI [of _ 0]) auto
  next
    case False
    then have "select_records size_of b rs (selected @ [r]) (chars + int (size_of r)) = (sel, c, trunc)"
      using Cons.prems(1) by (simp add: Let_def)
    from Cons.IH [OF this] False obtain k where "k \<le> length rs" "sel = (selected @ [r]) @ take k rs"
      "c = chars + int (size_of r) + int (sum_list (map size_of (take k rs)))"
      "int (length sel) \<le> rb_max_records b" "c \<le> rb_max_chars b" "c div MAX_CHARS_PER_TOKEN \<le> rb_max_tokens b"
      "if trunc then k < length rs \<and>
         (int (length sel) = rb_max_records b \<or> c + int (size_of (rs ! k)) > rb_max_chars b \<or>
          (c + int (size_of (rs ! k))) div MAX_CHARS_PER_TOKEN > rb_max_tokens b)
       else k = length rs"
      by auto
    then show ?thesis by (intro exI [of _ "Suc k"]) (auto split: if_splits)
  qed
qed

lemma select_records_subset:
  "select_records size_of b rs selected chars = (sel, c, trunc) \<Longrightarrow> set sel \<subseteq> set selected \<union> set rs"
proof (induction rs arbitrary: selected chars)
  case (Cons r rs)
  then show ?case by (fastforce simp: Let_def split: if_splits)
qed simp

lemma eligible_sound:
  "r \<in> set (eligible p qs now) \<Longrightarrow>
   scope_matches (mem_scope r) qs \<and> \<not> is_expired r now \<and> (\<exists>rid \<in> set (order p). dict_get (records p) rid = Some r)"
  by (auto simp: eligible_def split: option.splits if_splits)

lemma eligible_complete:
  "dict_get (records p) rid = Some r \<Longrightarrow> rid \<in> set (order p) \<Longrightarrow> scope_matches (mem_scope r) qs \<Longrightarrow>
   \<not> is_expired r now \<Longrightarrow> r \<in> set (eligible p qs now)"
  by (force simp: eligible_def)

abbreviation recall_key :: "MemoryRecord \<Rightarrow> timestamp \<times> string" where
  "recall_key r \<equiv> (mem_created_at r, record_id r)"

definition effective_budget :: "MemoryRecallBudget option \<Rightarrow> MemoryRecallBudget" where
  "effective_budget budget = (case budget of None \<Rightarrow> default_recall_budget | Some b \<Rightarrow> b)"

lemma default_recall_budget_valid: "recall_budget_valid default_recall_budget"
  by (simp add: recall_budget_valid_def default_recall_budget_def memory_bounds)

lemma recall_cases:
  assumes "recall size_of p qs budget now = Inr proj" "opt_all recall_budget_valid budget"
  shows "available p \<and> (\<exists>k. let cands = sort_key recall_key (eligible p qs now); b = effective_budget budget
     in k \<le> length cands \<and> proj_records proj = take k cands \<and>
        char_count proj = int (sum_list (map size_of (take k cands))) \<and>
        token_estimate proj = char_count proj div MAX_CHARS_PER_TOKEN \<and>
        int k \<le> rb_max_records b \<and> char_count proj \<le> rb_max_chars b \<and> token_estimate proj \<le> rb_max_tokens b \<and>
        (if truncated proj then k < length cands \<and>
           (int k = rb_max_records b \<or> char_count proj + int (size_of (cands ! k)) > rb_max_chars b \<or>
            (char_count proj + int (size_of (cands ! k))) div MAX_CHARS_PER_TOKEN > rb_max_tokens b)
         else k = length cands))"
proof -
  let ?b = "effective_budget budget" and ?cands = "sort_key recall_key (eligible p qs now)"
  obtain sel c trunc where sel: "select_records size_of ?b ?cands [] 0 = (sel, c, trunc)" by (rule prod_cases3)
  have valid: "recall_budget_valid ?b"
    using assms(2) default_recall_budget_valid by (cases budget) (simp_all add: effective_budget_def)
  have proj: "available p" "proj_records proj = sel" "char_count proj = c" "truncated proj = trunc"
    "token_estimate proj = c div MAX_CHARS_PER_TOKEN"
    using assms(1) sel
    by (auto simp: recall_def effective_budget_def bind_res_Inr_iff ensure_available_ok Let_def split: if_splits)
  obtain k where k: "k \<le> length ?cands" "sel = take k ?cands" "c = int (sum_list (map size_of (take k ?cands)))"
    "int (length sel) \<le> rb_max_records ?b" "c \<le> rb_max_chars ?b" "c div MAX_CHARS_PER_TOKEN \<le> rb_max_tokens ?b"
    "if trunc then k < length ?cands \<and>
         (int (length sel) = rb_max_records ?b \<or> c + int (size_of (?cands ! k)) > rb_max_chars ?b \<or>
          (c + int (size_of (?cands ! k))) div MAX_CHARS_PER_TOKEN > rb_max_tokens ?b)
      else k = length ?cands"
    using select_records_result [OF sel] valid by (auto simp: recall_budget_valid_def)
  then have "int (length sel) = int k" by simp
  with k proj show ?thesis unfolding Let_def by (intro conjI exI [of _ k]) (auto split: if_splits)
qed

interpretation inmemory: memory_provider provider_inv available "recall size_of" for size_of
proof unfold_locales
  fix p :: provider and qs budget now proj r
  assume "recall size_of p qs budget now = Inr proj" "r \<in> set (proj_records proj)"
  then obtain sel c trunc where "select_records size_of (effective_budget budget)
      (sort_key recall_key (eligible p qs now)) [] 0 = (sel, c, trunc)" "r \<in> set sel"
    by (auto simp: recall_def effective_budget_def bind_res_Inr_iff Let_def split: if_splits prod.splits)
  moreover have "select_records size_of b rs [] c = (sel, c', t) \<Longrightarrow> set sel \<subseteq> set rs" for b rs c sel c' t
    using select_records_subset [of size_of b rs "[]" c] by simp
  ultimately have "r \<in> set (eligible p qs now)" by fastforce
  then show "scope_matches (mem_scope r) qs \<and> \<not> is_expired r now" using eligible_sound by blast
next
  fix p :: provider and qs budget now
  assume "\<not> available p"
  then show "\<exists>e. recall size_of p qs budget now = Inl (MemoryFailure e) \<and> mi_code e = MEMORY_UNAVAILABLE"
    by (simp add: recall_def ensure_available_def memory_failure_def)
qed

section \<open>Properties\<close>


text \<open>
  C25.  Recall is bounded, scoped and complete: in every reachable provider a projection keeps within
  the record, character and token budgets, lists its records by creation time and id, contains only
  stored records that match the scope and have not expired, and, unless it is marked truncated,
  contains all of them.
\<close>

theorem recall_bounded_and_scoped:
  assumes "reachable provider_init provider_step p"
    and "recall size_of p qs budget now = Inr proj" and "opt_all recall_budget_valid budget"
  shows "int (length (proj_records proj)) \<le> rb_max_records (effective_budget budget) \<and>
    char_count proj = int (sum_list (map size_of (proj_records proj))) \<and>
    char_count proj \<le> rb_max_chars (effective_budget budget) \<and>
    token_estimate proj \<le> rb_max_tokens (effective_budget budget) \<and>
    sorted (map recall_key (proj_records proj)) \<and>
    (\<forall>r \<in> set (proj_records proj). dict_get (records p) (record_id r) = Some r \<and>
       scope_matches (mem_scope r) qs \<and> \<not> is_expired r now) \<and>
    (\<not> truncated proj \<longrightarrow> (\<forall>rid r. dict_get (records p) rid = Some r \<and> scope_matches (mem_scope r) qs \<and>
       \<not> is_expired r now \<longrightarrow> r \<in> set (proj_records proj)))"
proof -
  let ?cands = "sort_key recall_key (eligible p qs now)"
  have inv: "provider_inv p" using assms(1) by (rule provider_sys.reachable_inv)
  obtain k where k: "k \<le> length ?cands" "proj_records proj = take k ?cands"
      "char_count proj = int (sum_list (map size_of (take k ?cands)))"
      "int k \<le> rb_max_records (effective_budget budget)" "char_count proj \<le> rb_max_chars (effective_budget budget)"
      "token_estimate proj \<le> rb_max_tokens (effective_budget budget)"
      "\<not> truncated proj \<Longrightarrow> k = length ?cands"
    using recall_cases [OF assms(2,3)] unfolding Let_def by (metis (no_types, lifting))
  have "dict_get (records p) (record_id r) = Some r \<and> scope_matches (mem_scope r) qs \<and> \<not> is_expired r now"
    if "r \<in> set (proj_records proj)" for r
  proof -
    have "r \<in> set (eligible p qs now)" using that k(2) by (metis in_set_takeD set_sort)
    then show ?thesis using eligible_sound provider_inv_get [OF inv] by metis
  qed
  moreover have "r \<in> set (proj_records proj)" if "\<not> truncated proj" "dict_get (records p) rid = Some r"
      "scope_matches (mem_scope r) qs" "\<not> is_expired r now" for rid r
    using that k eligible_complete provider_inv_get [OF inv] by simp
  moreover have "sorted (map recall_key (proj_records proj))"
    unfolding k(2) take_map [symmetric] by (rule sorted_wrt_take) simp
  ultimately show ?thesis using k by simp blast
qed

text \<open>
  Appending a record of another tenant, session or conversation is invisible to a scope: it changes neither the records
  nor the accounting of any recall made there.
\<close>

theorem append_invisible_to_other_scopes:
  assumes "append p r = Inr p'"
    and "ms_tenant (mem_scope r) \<noteq> ms_tenant qs \<or> ms_session (mem_scope r) \<noteq> ms_session qs \<or>
      (ms_conversation qs \<noteq> None \<and> ms_conversation (mem_scope r) \<noteq> ms_conversation qs)"
  shows "recall size_of p' qs budget now = recall size_of p qs budget now"
proof -
  have "\<not> scope_matches (mem_scope r) qs" using assms(2) by (auto simp: scope_matches_def)
  then have "eligible p' qs now = eligible p qs now"
    using assms(1) by (auto simp: eligible_def append_ok intro!: arg_cong [of _ _ concat] map_cong)
  then show ?thesis using assms(1) by (simp add: recall_def append_ok ensure_available_def)
qed

lemma count_list_insort_key: "count_list (insort_key f x xs) y = count_list (x # xs) y"
  by (induction xs) auto

lemma count_list_sort_key: "count_list (sort_key f xs) y = count_list xs y"
  by (induction xs) (simp_all add: count_list_insort_key)

text \<open>
  A record that is deleted and then appended again under its id is recalled more than once: the
  deletion leaves its id in the insertion order, so every eligible list after the second append
  holds the new record at least twice.
\<close>

theorem reappended_record_recalled_twice:
  assumes "reachable provider_init provider_step p" and "dict_get (records p) rid = Some old"
    and "delete p rid = Inr (p1, True)" and "append p1 r = Inr p2" and "record_id r = rid"
    and "scope_matches (mem_scope r) qs" and "\<not> is_expired r now"
  shows "2 \<le> count_list (sort_key recall_key (eligible p2 qs now)) r"
proof -
  have "rid \<in> set (order p)"
    using provider_inv_get [OF provider_sys.reachable_inv [OF assms(1)] assms(2)] by simp
  have p2: "order p2 = order p @ [rid]" "dict_get (records p2) rid = Some r"
    using assms(3-5) by (auto simp: delete_def append_ok bind_res_Inr_iff split: if_splits)
  obtain xs ys where split: "order p = xs @ rid # ys" using \<open>rid \<in> set (order p)\<close> by (metis split_list)
  have "2 \<le> count_list (eligible p2 qs now) r"
    unfolding eligible_def p2(1) split using p2(2) assms(6,7) by simp
  then show ?thesis using count_list_sort_key [of recall_key "eligible p2 qs now" r] by simp
qed

text \<open>
  An expired id does not stay reserved: after \<open>expire\<close> and one \<open>compact\<close> the id is free, and
  a record with that id is accepted again.
\<close>

theorem expired_id_reusable_after_compact:
  assumes "reachable provider_init provider_step p" and "expire p rid = Inr (p1, True)"
    and "compact p1 now = Inr (p2, n)" and "record_id r = rid"
  shows "(\<exists>e. append p1 r = Inl e) \<and> (\<exists>p3. append p2 r = Inr p3)"
proof -
  have inv: "provider_inv p" using assms(1) by (rule provider_sys.reachable_inv)
  obtain old where old: "dict_get (records p) rid = Some old" "available p"
    and p1: "p1 = p\<lparr>records := dict_del rid (records p), expired_ids := finsert rid (expired_ids p)\<rparr>"
    using assms(2) by (auto simp: expire_def bind_res_Inr_iff ensure_available_ok split: if_splits)
  obtain recs expd rem where
    loop: "compact_loop now (order p1) (records p1) (expired_ids p1) [] 0 = (recs, expd, rem, n)"
    and p2: "p2 = p1\<lparr>records := recs, expired_ids := expd, order := rem\<rparr>"
    using assms(3) by (auto simp: compact_def bind_res_Inr_iff split: prod.splits)
  have gone: "dict_get (records p1) rid = None" "rid \<in> set (order p1)" "dict_ok (records p1)"
    using p1 old provider_inv_get [OF inv] inv by (auto simp: provider_inv_def)
  note res = compact_loop_result [OF loop gone(3)]
  have "length recs \<le> length (records p1)" using res by blast
  also have "Suc (length (records p1)) = length (records p)"
    using p1 old inv by (auto simp: provider_inv_def intro!: length_dict_del dest: map_of_SomeD intro: rev_image_eqI)
  finally have "int (length recs) < max_records p" using inv by (simp add: provider_inv_def)
  moreover have "dict_get recs rid = None" "rid |\<notin>| expd" using res gone by auto
  ultimately have "append p2 r = Inr (p2\<lparr>records := dict_set rid r recs, order := rem @ [rid]\<rparr>)"
    using p1 p2 old assms(4) by (simp add: append_ok)
  moreover have "append p1 r = Inl (memory_failure RECORD_REJECTED ''memory record id already exists''
      [(''record_id'', PyStr (record_id r))])"
    using p1 old(2) assms(4) by (simp add: append_def ensure_available_def)
  ultimately show ?thesis by blast
qed

section \<open>Concrete runs\<close>

definition sample_provider :: provider where
  "sample_provider = (new_provider True 10)\<lparr>records := [(''m1'', sample_mem_record)], order := [''m1'']\<rparr>"

definition other_mem_record :: MemoryRecord where
  "other_mem_record = sample_mem_record\<lparr>record_id := ''m2'', mem_scope := sample_mem_scope\<lparr>ms_session := ''s2''\<rparr>\<rparr>"

definition sample_projection :: MemoryRecallProjection where
  "sample_projection =
     \<lparr>proj_scope_fp = scope_fingerprint sample_mem_scope, proj_records = [sample_mem_record], truncated = False,
      char_count = 40, token_estimate = 10\<rparr>"

lemmas sample_provider_defs =
  sample_provider_def new_provider_def sample_mem_record_def sample_mem_scope_def other_mem_record_def

lemma sample_provider_reachable: "reachable provider_init provider_step sample_provider"
proof -
  have "append (new_provider True 10) sample_mem_record = Inr sample_provider"
    by (simp add: append_ok sample_provider_defs)
  moreover have "provider_init (new_provider True 10)" unfolding provider_init_def by (metis zero_le_numeral)
  ultimately show ?thesis by (blast intro: reachable.intros step_append)
qed

lemma scope_matches_refl [simp]: "scope_matches s s"
  by (auto simp: scope_matches_def)

lemma scope_fingerprint_ok [simp]: "fingerprint_ok (scope_fingerprint s)"
  by (simp add: scope_fingerprint_def)

lemma sample_recall: "recall (\<lambda>_. 40) sample_provider sample_mem_scope None 5 = Inr sample_projection"
  by (simp add: recall_def ensure_available_def eligible_def sample_provider_def new_provider_def
      sample_projection_def is_expired_def default_recall_budget_def projection_valid_def
      MAX_CHARS_PER_TOKEN_def memory_bounds sample_mem_record_def Let_def)


theorem recall_bounded_and_scoped_witness:
  "recall (\<lambda>_. 40) sample_provider sample_mem_scope None 5 = Inr sample_projection \<and>
   char_count sample_projection \<le> rb_max_chars (effective_budget None)"
  using sample_recall recall_bounded_and_scoped [OF sample_provider_reachable sample_recall] by simp

theorem append_invisible_to_other_scopes_witness:
  "\<exists>p'. append sample_provider other_mem_record = Inr p' \<and>
     recall (\<lambda>_. 40) p' sample_mem_scope None 5 = Inr sample_projection"
proof -
  obtain p' where app: "append sample_provider other_mem_record = Inr p'"
    by (simp add: append_ok sample_provider_defs)
  have "ms_tenant (mem_scope other_mem_record) \<noteq> ms_tenant sample_mem_scope \<or>
      ms_session (mem_scope other_mem_record) \<noteq> ms_session sample_mem_scope \<or>
      (ms_conversation sample_mem_scope \<noteq> None \<and>
       ms_conversation (mem_scope other_mem_record) \<noteq> ms_conversation sample_mem_scope)"
    by (simp add: other_mem_record_def sample_mem_scope_def)
  with append_invisible_to_other_scopes [OF app this, of "\<lambda>_. 40" None 5] app sample_recall
  show ?thesis by simp
qed

theorem reappended_record_recalled_twice_witness:
  "\<exists>p1 p2. delete sample_provider ''m1'' = Inr (p1, True) \<and> append p1 sample_mem_record = Inr p2 \<and>
     2 \<le> count_list (sort_key recall_key (eligible p2 sample_mem_scope 5)) sample_mem_record"
proof -
  have stored: "dict_get (records sample_provider) ''m1'' = Some sample_mem_record"
    by (simp add: sample_provider_def)
  obtain p1 where del: "delete sample_provider ''m1'' = Inr (p1, True)" and p1: "records p1 = []" "expired_ids p1 = {||}"
      "available p1" "max_records p1 = 10"
    by (simp add: delete_def ensure_available_def sample_provider_def new_provider_def)
  obtain p2 where app: "append p1 sample_mem_record = Inr p2" using p1 by (simp add: append_ok)
  have "scope_matches (mem_scope sample_mem_record) sample_mem_scope" "\<not> is_expired sample_mem_record 5"
    "record_id sample_mem_record = ''m1''"
    by (simp_all add: is_expired_def sample_mem_record_def)
  with reappended_record_recalled_twice [OF sample_provider_reachable stored del app] del app
  show ?thesis by blast
qed

theorem expired_id_reusable_after_compact_witness:
  "\<exists>p1 p2 p3. expire sample_provider ''m1'' = Inr (p1, True) \<and> compact p1 5 = Inr (p2, 0) \<and>
     append p2 sample_mem_record = Inr p3"
proof -
  define p1 where "p1 = sample_provider\<lparr>records := [], expired_ids := {|''m1''|}\<rparr>"
  have exp: "expire sample_provider ''m1'' = Inr (p1, True)"
    by (simp add: expire_def ensure_available_def sample_provider_def new_provider_def p1_def)
  obtain p2 where com: "compact p1 5 = Inr (p2, 0)"
    by (simp add: compact_def ensure_available_def p1_def sample_provider_def new_provider_def)
  have "record_id sample_mem_record = ''m1''" by (simp add: sample_mem_record_def)
  with expired_id_reusable_after_compact [OF sample_provider_reachable exp com] exp com show ?thesis by blast
qed

end
