(* ===== verification/Authorized_View.thy ===== *)
theory Authorized_View
  imports Canonical_Json
begin

text \<open>
  The authorized semantic view of \<^verbatim>\<open>src/nl2data_core/planning/validation.py\<close> and the provider
  context of \<^verbatim>\<open>src/nl2data_core/ai/context.py\<close>, which is assembled from it.

  Of a resolved view projection (\<^verbatim>\<open>src/nl2data_core/views/projection.py\<close>) the model keeps the
  members these two files read.  \<open>model_dump(mode="json")\<close> writes a frozenset in its iteration
  order, which Python does not fix: that order is the parameter \<open>set_order\<close>.
\<close>

section \<open>Views\<close>

record ResolvedField =
  rf_field_id :: string
  rf_alias :: "string option"
  rf_label :: string
  rf_description :: "string option"
  rf_data_type :: string
  rf_allowed_aggregations :: "string fset"

record ResolvedProjection =
  rp_source_id :: string
  rp_root_entity_ids :: "string fset"
  rp_field_ids :: "string fset"
  rp_calculated_field_ids :: "string fset"
  rp_entities :: "ResolvedField list list"
  rp_catalog_fingerprint :: "string option"
  rp_view_id :: string
  rp_view_version :: int
  rp_fingerprint :: string
  rp_allowed_operations :: "string fset"
  rp_allowed_relationships :: "string fset"
  rp_result_shape_constraints :: "string list"
  rp_purpose :: "string option"

record AuthorizedView =
  source_id :: string
  root_entity_ids :: "string fset"
  field_ids :: "string fset"
  calculated_field_ids :: "string fset"
  catalog_fingerprint :: "string option"
  view_id :: "string option"
  view_version :: "int option"
  view_fingerprint :: "string option"
  allowed_operations :: "string fset"
  allowed_relationships :: "string fset"
  field_aggregation_restrictions :: "(string, string fset) fmap option"
  result_shape_constraints :: "string list"
  purpose :: "string option"

definition binding_consistent :: "AuthorizedView \<Rightarrow> bool" where
  "binding_consistent v \<longleftrightarrow>
     (view_id v = None \<longleftrightarrow> view_version v = None) \<and> (view_version v = None \<longleftrightarrow> view_fingerprint v = None)"

definition view_valid :: "AuthorizedView \<Rightarrow> bool" where
  "view_valid v \<longleftrightarrow>
     identifier_ok (source_id v) \<and> opt_all fingerprint_ok (catalog_fingerprint v) \<and>
     opt_all identifier_ok (view_id v) \<and> opt_all (\<lambda>n. 1 \<le> n \<and> n \<le> 1000000) (view_version v) \<and>
     opt_all fingerprint_ok (view_fingerprint v) \<and> opt_all identifier_ok (purpose v) \<and> binding_consistent v"

definition view_bound :: "AuthorizedView \<Rightarrow> bool" where
  "view_bound v \<longleftrightarrow> view_fingerprint v \<noteq> None"

definition contains_field :: "AuthorizedView \<Rightarrow> string \<Rightarrow> bool" where
  "contains_field v f \<longleftrightarrow> f |\<in>| field_ids v"

definition contains_calculated_field :: "AuthorizedView \<Rightarrow> string \<Rightarrow> bool" where
  "contains_calculated_field v f \<longleftrightarrow> f |\<in>| calculated_field_ids v"

definition allowed_aggregations_for :: "AuthorizedView \<Rightarrow> string \<Rightarrow> string fset option" where
  "allowed_aggregations_for v f =
     (case field_aggregation_restrictions v of None \<Rightarrow> None | Some m \<Rightarrow> fmlookup m f)"

text \<open>The dict comprehension of \<open>from_projection\<close>: a later field of the same id wins.\<close>

definition aggregation_map :: "ResolvedField list \<Rightarrow> (string, string fset) fmap" where
  "aggregation_map fs = fold (\<lambda>f m. fmupd (rf_field_id f) (rf_allowed_aggregations f) m) fs fmempty"

definition from_projection :: "ResolvedProjection \<Rightarrow> AuthorizedView res" where
  "from_projection p =
     (let m = aggregation_map (concat (rp_entities p));
          v = \<lparr>source_id = rp_source_id p, root_entity_ids = rp_root_entity_ids p, field_ids = rp_field_ids p,
               calculated_field_ids = rp_calculated_field_ids p, catalog_fingerprint = rp_catalog_fingerprint p,
               view_id = Some (rp_view_id p), view_version = Some (rp_view_version p),
               view_fingerprint = Some (rp_fingerprint p), allowed_operations = rp_allowed_operations p,
               allowed_relationships = rp_allowed_relationships p,
               field_aggregation_restrictions = (if m = fmempty then None else Some m),
               result_shape_constraints = rp_result_shape_constraints p, purpose = rp_purpose p\<rparr>
      in if view_valid v then Inr v else Inl ValidationError)"

definition to_unbound :: "AuthorizedView \<Rightarrow> AuthorizedView" where
  "to_unbound v =
     v\<lparr>view_id := None, view_version := None, view_fingerprint := None, allowed_operations := {||},
       allowed_relationships := {||}, field_aggregation_restrictions := None, result_shape_constraints := [],
       purpose := None\<rparr>"

section \<open>Provider context\<close>

record SemanticReference =
  sr_field_id :: string
  sr_label :: string
  sr_description :: "string option"
  sr_data_type :: string
  sr_allowed_aggregations :: "string fset"

definition semantic_reference_valid :: "SemanticReference \<Rightarrow> bool" where
  "semantic_reference_valid r \<longleftrightarrow>
     identifier_ok (sr_field_id r) \<and> 1 \<le> length (sr_label r) \<and> length (sr_label r) \<le> 256 \<and>
     opt_all (\<lambda>d. length d \<le> 1024) (sr_description r) \<and>
     1 \<le> length (sr_data_type r) \<and> length (sr_data_type r) \<le> 32"

record AuthorizedModelContext =
  ctx_request_id :: string
  ctx_source_id :: string
  ctx_root_entity_ids :: "string fset"
  semantic_references :: "SemanticReference list"
  ctx_catalog_fingerprint :: "string option"
  max_output_tokens :: int

definition context_valid :: "AuthorizedModelContext \<Rightarrow> bool" where
  "context_valid c \<longleftrightarrow>
     identifier_ok (ctx_request_id c) \<and> identifier_ok (ctx_source_id c) \<and>
     fBall (ctx_root_entity_ids c) (\<lambda>e. e \<noteq> [] \<and> length e \<le> 128) \<and>
     length (semantic_references c) \<le> 1000 \<and> distinct (map sr_field_id (semantic_references c)) \<and>
     opt_all fingerprint_ok (ctx_catalog_fingerprint c) \<and>
     1 \<le> max_output_tokens c \<and> max_output_tokens c \<le> 131072"

definition reference_dump :: "(string fset \<Rightarrow> string list) \<Rightarrow> SemanticReference \<Rightarrow> jv" where
  "reference_dump set_order r = vdict
     [(''field_id'', VStr (sr_field_id r)), (''label'', VStr (sr_label r)),
      (''description'', vopt VStr (sr_description r)), (''data_type'', VStr (sr_data_type r)),
      (''allowed_aggregations'', VList (map VStr (set_order (sr_allowed_aggregations r))))]"

definition context_safe_payload :: "(string fset \<Rightarrow> string list) \<Rightarrow> AuthorizedModelContext \<Rightarrow> jv" where
  "context_safe_payload set_order c = vdict
     [(''request_id'', VStr (ctx_request_id c)), (''source_id'', VStr (ctx_source_id c)),
      (''root_entity_ids'', VList (map VStr (sorted_list_of_fset (ctx_root_entity_ids c)))),
      (''semantic_references'', VList (map (reference_dump set_order) (semantic_references c))),
      (''catalog_fingerprint'', vopt VStr (ctx_catalog_fingerprint c)),
      (''max_output_tokens'', VInt (max_output_tokens c))]"

definition context_fingerprint :: "(string fset \<Rightarrow> string list) \<Rightarrow> AuthorizedModelContext \<Rightarrow> string" where
  "context_fingerprint set_order c = fingerprint_of (context_safe_payload set_order c)"

fun map_results :: "('a \<Rightarrow> 'e + 'b) \<Rightarrow> 'a list \<Rightarrow> 'e + 'b list" where
  "map_results f [] = Inr []"
| "map_results f (x # xs) = bind_res (f x) (\<lambda>y. bind_res (map_results f xs) (\<lambda>ys. Inr (y # ys)))"

definition reference_of_field :: "ResolvedField \<Rightarrow> SemanticReference res" where
  "reference_of_field f =
     (let r = \<lparr>sr_field_id = rf_field_id f,
               sr_label = (case rf_alias f of None \<Rightarrow> rf_label f | Some a \<Rightarrow> if a = [] then rf_label f else a),
               sr_description = rf_description f, sr_data_type = rf_data_type f,
               sr_allowed_aggregations = rf_allowed_aggregations f\<rparr>
      in if semantic_reference_valid r then Inr r else Inl ValidationError)"

definition assemble_model_context ::
  "string \<Rightarrow> AuthorizedView \<Rightarrow> (string, SemanticReference) dict \<Rightarrow> int \<Rightarrow> ResolvedProjection option
    \<Rightarrow> AuthorizedModelContext res" where
  "assemble_model_context req v refs tokens projection =
     (let build = (\<lambda>c. if context_valid c then Inr c else Inl ValidationError)
      in case projection of
           Some p \<Rightarrow>
             bind_res (map_results reference_of_field (concat (rp_entities p))) (\<lambda>rs.
             build \<lparr>ctx_request_id = req, ctx_source_id = rp_source_id p, ctx_root_entity_ids = rp_root_entity_ids p,
                    semantic_references = rs, ctx_catalog_fingerprint = rp_catalog_fingerprint p,
                    max_output_tokens = tokens\<rparr>)
         | None \<Rightarrow>
             build \<lparr>ctx_request_id = req, ctx_source_id = source_id v, ctx_root_entity_ids = root_entity_ids v,
                    semantic_references = List.map_filter (dict_get refs) (sorted_list_of_fset (field_ids v)),
                    ctx_catalog_fingerprint = catalog_fingerprint v, max_output_tokens = tokens\<rparr>)"

section \<open>Properties\<close>

lemma set_map_filter_iff: "y \<in> set (List.map_filter f xs) \<longleftrightarrow> (\<exists>x \<in> set xs. f x = Some y)"
  by (induction xs) (auto simp: map_filter_simps split: option.splits)

lemma map_results_Inr: "map_results f xs = Inr ys \<Longrightarrow> \<forall>y \<in> set ys. \<exists>x \<in> set xs. f x = Inr y"
  by (induction xs arbitrary: ys) (fastforce simp: bind_res_Inr_iff)+


lemma context_payload_exact:
  "json_safe (context_safe_payload set_order c)" "float_free (context_safe_payload set_order c)"
  by (simp_all add: context_safe_payload_def reference_dump_def list_all_iff)

text \<open>
  The fingerprinted text of a provider context depends on the iteration order of a frozenset:
  when two orders list the aggregations of one of its references differently, the canonical texts
  of the same context differ, so its fingerprint is not stable across processes.
\<close>

theorem context_text_depends_on_set_order:
  assumes "r \<in> set (semantic_references c)"
    and "order1 (sr_allowed_aggregations r) \<noteq> order2 (sr_allowed_aggregations r)"
  shows "strict_canonical_json (context_safe_payload order1 c) \<noteq> strict_canonical_json (context_safe_payload order2 c)"
proof
  let ?refs = "\<lambda>ord. VList (map (reference_dump ord) (semantic_references c))"
  assume "strict_canonical_json (context_safe_payload order1 c) = strict_canonical_json (context_safe_payload order2 c)"
  then have "normal (context_safe_payload order1 c) = normal (context_safe_payload order2 c)"
    using canonical_json_exact [OF context_payload_exact context_payload_exact] by blast
  then have "normal (?refs order1) = normal (?refs order2)"
    unfolding context_safe_payload_def
    by (rule normal_member_eq [where k = "''semantic_references''"]) simp_all
  then have "normal (reference_dump order1 r) = normal (reference_dump order2 r)"
    using assms(1) by simp
  then have "normal (VList (map VStr (order1 (sr_allowed_aggregations r)))) =
      normal (VList (map VStr (order2 (sr_allowed_aggregations r))))"
    unfolding reference_dump_def
    by (rule normal_member_eq [where k = "''allowed_aggregations''"]) simp_all
  then have "order1 (sr_allowed_aggregations r) = order2 (sr_allowed_aggregations r)"
    by (simp add: comp_def inj_map_eq_map inj_on_def)
  with assms(2) show False by blast
qed

section \<open>Concrete contexts\<close>

definition sample_view :: AuthorizedView where
  "sample_view =
     \<lparr>source_id = ''sales'', root_entity_ids = {|''orders''|}, field_ids = {|''orders.amount''|},
      calculated_field_ids = {||}, catalog_fingerprint = None, view_id = None, view_version = None,
      view_fingerprint = None, allowed_operations = {||}, allowed_relationships = {||},
      field_aggregation_restrictions = None, result_shape_constraints = [], purpose = None\<rparr>"

definition sample_reference :: SemanticReference where
  "sample_reference =
     \<lparr>sr_field_id = ''orders.amount'', sr_label = ''Amount'', sr_description = None, sr_data_type = ''number'',
      sr_allowed_aggregations = {|''sum'', ''avg''|}\<rparr>"

definition sample_context :: AuthorizedModelContext where
  "sample_context =
     \<lparr>ctx_request_id = ''req-1'', ctx_source_id = ''sales'', ctx_root_entity_ids = {|''orders''|},
      semantic_references = [sample_reference], ctx_catalog_fingerprint = None, max_output_tokens = 4096\<rparr>"

lemma sorted_list_of_fset_single [simp]: "sorted_list_of_fset {|x|} = [x]"
  by (simp add: sorted_list_of_fset.rep_eq)

lemma sample_context_assembled:
  "assemble_model_context ''req-1'' sample_view [(''orders.amount'', sample_reference)] 4096 None = Inr sample_context"
  by (simp add: assemble_model_context_def sample_view_def sample_context_def context_valid_def
      sample_reference_def identifier_ok_def char_class_defs map_filter_simps Let_def)


theorem context_text_depends_on_set_order_witness:
  "strict_canonical_json (context_safe_payload sorted_list_of_fset sample_context) \<noteq>
   strict_canonical_json (context_safe_payload (\<lambda>S. rev (sorted_list_of_fset S)) sample_context)"
proof (rule context_text_depends_on_set_order)
  show "sample_reference \<in> set (semantic_references sample_context)" by (simp add: sample_context_def)
  have "sorted_list_of_fset {|''sum'', ''avg''|} = [''avg'', ''sum'']" by code_simp
  then show "sorted_list_of_fset (sr_allowed_aggregations sample_reference) \<noteq>
      rev (sorted_list_of_fset (sr_allowed_aggregations sample_reference))"
    by (simp add: sample_reference_def)
qed

end
