(* ===== verification/Memory_Context.thy ===== *)
theory Memory_Context
  imports Memory_Provider Authorized_View
begin

text \<open>
  Recalled memory in the current turn: \<^verbatim>\<open>src/nl2data_core/memory/context.py\<close> and
  \<^verbatim>\<open>src/nl2data_core/memory/resolver.py\<close>.

  \<open>resolve\<close> takes the two operations of the provider protocol it calls as arguments, with what a
  call returned or raised.  What its projections guarantee is proved once in the locale
  \<open>memory_provider\<close>, from the protocol's law on recalled records, and reached for the in-memory
  provider through its interpretation.
\<close>

section \<open>The current turn\<close>

definition view_fingerprint_of :: "AuthorizedView option \<Rightarrow> string option" where
  "view_fingerprint_of view =
     (case view of
        None \<Rightarrow> None
      | Some v \<Rightarrow>
          if view_bound v then view_fingerprint v
          else Some (fingerprint_of (vdict
            [(''source_id'', VStr (source_id v)),
             (''root_entity_ids'', VList (map VStr (sorted_list_of_fset (root_entity_ids v)))),
             (''field_ids'', VList (map VStr (sorted_list_of_fset (field_ids v)))),
             (''catalog_fingerprint'', vopt VStr (catalog_fingerprint v))])))"

record CurrentTurnContext =
  turn_session :: string
  turn_conversation :: "string option"
  turn_tenant :: "string option"
  turn_policy :: "string option"
  turn_catalog :: "string option"
  turn_view :: "string option"
  turn_source :: "string option"
  turn_adapter :: "string option"
  turn_artifact :: "string option"

definition turn_valid :: "CurrentTurnContext \<Rightarrow> bool" where
  "turn_valid t \<longleftrightarrow>
     identifier_ok (turn_session t) \<and> opt_all identifier_ok (turn_conversation t) \<and>
     opt_all fingerprint_ok (turn_tenant t) \<and> opt_all fingerprint_ok (turn_policy t) \<and>
     opt_all fingerprint_ok (turn_catalog t) \<and> opt_all fingerprint_ok (turn_view t) \<and>
     opt_all identifier_ok (turn_source t) \<and> opt_all identifier_ok (turn_adapter t) \<and>
     opt_all fingerprint_ok (turn_artifact t)"

definition turn_safe_payload :: "CurrentTurnContext \<Rightarrow> jv" where
  "turn_safe_payload t = vdict
     [(''session_id'', VStr (turn_session t)), (''conversation_id'', vopt VStr (turn_conversation t)),
      (''tenant_scope_fingerprint'', vopt VStr (turn_tenant t)), (''policy_fingerprint'', vopt VStr (turn_policy t)),
      (''catalog_fingerprint'', vopt VStr (turn_catalog t)), (''semantic_view_fingerprint'', vopt VStr (turn_view t)),
      (''source_id'', vopt VStr (turn_source t)), (''adapter_id'', vopt VStr (turn_adapter t)),
      (''artifact_fingerprint'', vopt VStr (turn_artifact t))]"

definition recall_scope :: "CurrentTurnContext \<Rightarrow> MemoryScope" where
  "recall_scope t =
     \<lparr>ms_tenant = turn_tenant t, ms_session = turn_session t, ms_conversation = turn_conversation t,
      ms_adapter = turn_adapter t, ms_source = turn_source t\<rparr>"

definition build_current_turn_context ::
  "string \<Rightarrow> string option \<Rightarrow> string option \<Rightarrow> AuthorizedView option \<Rightarrow> string option \<Rightarrow> string option
    \<Rightarrow> string option \<Rightarrow> CurrentTurnContext res" where
  "build_current_turn_context session conversation tenant_scope_fp view policy_fp adapter artifact =
     (let t = \<lparr>turn_session = session, turn_conversation = conversation, turn_tenant = tenant_scope_fp,
               turn_policy = policy_fp, turn_catalog = (case view of None \<Rightarrow> None | Some v \<Rightarrow> catalog_fingerprint v),
               turn_view = view_fingerprint_of view, turn_source = map_option source_id view,
               turn_adapter = adapter, turn_artifact = artifact\<rparr>
      in if turn_valid t then Inr t else Inl ValidationError)"

section \<open>Projection\<close>

datatype reference_kind = REF_QUERY | REF_DECISION

record MemoryReference =
  mr_kind :: reference_kind
  mr_reference_id :: string
  mr_policy :: "string option"
  mr_catalog :: "string option"
  mr_view :: "string option"
  mr_adapter :: "string option"
  mr_source :: "string option"
  mr_root_entity :: "string option"
  mr_field_ids :: "string fset"
  mr_interpretation :: "string option"
  mr_record_fp :: string

definition MAX_MEMORY_REFERENCES :: nat where "MAX_MEMORY_REFERENCES = 100"
definition MAX_STALE_REFERENCES :: nat where "MAX_STALE_REFERENCES = 100"

definition query_reference_stale ::
  "MemoryRecord \<Rightarrow> QueryReference \<Rightarrow> AuthorizedView \<Rightarrow> CurrentTurnContext \<Rightarrow> bool" where
  "query_reference_stale r ref v t \<longleftrightarrow>
     ms_tenant (mem_scope r) \<noteq> turn_tenant t \<or> ref_policy_fp ref \<noteq> turn_policy t \<or>
     ref_catalog_fp ref \<noteq> turn_catalog t \<or> ref_view_fp ref \<noteq> turn_view t \<or>
     ref_adapter_id ref \<noteq> turn_adapter t \<or> ref_source_id ref \<noteq> source_id v \<or>
     (root_entity_ids v \<noteq> {||} \<and> \<not> (\<exists>e \<in> set_option (root_entity_id ref). e |\<in>| root_entity_ids v)) \<or>
     (ref_field_ids ref \<noteq> {||} \<and> ref_field_ids ref |\<inter>| field_ids v = {||})"

definition project_record ::
  "MemoryRecord \<Rightarrow> AuthorizedView \<Rightarrow> CurrentTurnContext \<Rightarrow> timestamp \<Rightarrow> MemoryReference option \<times> bool" where
  "project_record r v t now =
     (if is_expired r now then (None, True)
      else case payload r of
        QueryReferencePayload ref \<Rightarrow>
          if query_reference_stale r ref v t then (None, True)
          else (Some \<lparr>mr_kind = REF_QUERY, mr_reference_id = reference_id ref, mr_policy = ref_policy_fp ref,
                      mr_catalog = ref_catalog_fp ref, mr_view = ref_view_fp ref, mr_adapter = ref_adapter_id ref,
                      mr_source = Some (ref_source_id ref), mr_root_entity = root_entity_id ref,
                      mr_field_ids = ref_field_ids ref, mr_interpretation = None,
                      mr_record_fp = record_fingerprint r\<rparr>, False)
      | SemanticDecisionPayload d \<Rightarrow>
          if (turn_policy t \<noteq> None \<and> Some (dec_policy_fp d) \<noteq> turn_policy t) \<or>
             (turn_catalog t \<noteq> None \<and> Some (dec_catalog_fp d) \<noteq> turn_catalog t) then (None, True)
          else (Some \<lparr>mr_kind = REF_DECISION, mr_reference_id = decision_id d, mr_policy = Some (dec_policy_fp d),
                      mr_catalog = Some (dec_catalog_fp d), mr_view = None, mr_adapter = None, mr_source = None,
                      mr_root_entity = None, mr_field_ids = {||},
                      mr_interpretation = Some (confirmed_interpretation d),
                      mr_record_fp = record_fingerprint r\<rparr>, False)
      | _ \<Rightarrow> (None, False))"

record MemoryContextProjection =
  model_context :: AuthorizedModelContext
  memory_references :: "MemoryReference list"
  stale_reference_ids :: "string list"

text \<open>The loop of \<open>project_recall_context\<close>: the references and the ids of stale records.\<close>

fun project_records ::
  "MemoryRecord list \<Rightarrow> AuthorizedView \<Rightarrow> CurrentTurnContext \<Rightarrow> timestamp \<Rightarrow> MemoryReference list \<times> string list" where
  "project_records [] v t now = ([], [])"
| "project_records (r # rs) v t now =
     (case project_records rs v t now of (refs, stale) \<Rightarrow>
        (case project_record r v t now of
           (_, True) \<Rightarrow> (refs, record_id r # stale)
         | (Some ref, False) \<Rightarrow> (ref # refs, stale)
         | (None, False) \<Rightarrow> (refs, stale)))"

definition project_recall_context ::
  "string \<Rightarrow> AuthorizedView \<Rightarrow> (string, SemanticReference) dict \<Rightarrow> CurrentTurnContext \<Rightarrow> MemoryRecallProjection
    \<Rightarrow> int \<Rightarrow> timestamp \<Rightarrow> ResolvedProjection option \<Rightarrow> MemoryContextProjection res" where
  "project_recall_context req v refs t proj tokens now resolved_view =
     bind_res (assemble_model_context req v refs tokens resolved_view) (\<lambda>ctx.
     case project_records (proj_records proj) v t now of (mrefs, stale) \<Rightarrow>
       Inr \<lparr>model_context = ctx, memory_references = take MAX_MEMORY_REFERENCES mrefs,
            stale_reference_ids = take MAX_STALE_REFERENCES stale\<rparr>)"

section \<open>Resolution\<close>

definition FOLLOW_UP_MARKERS :: "string list" where
  "FOLLOW_UP_MARKERS =
     [''previous'', ''prior'', ''earlier'', ''before'', ''last time'', ''same as'', ''same query'', ''same request'',
      ''again'', ''as before'', ''that query'', ''that request'', ''follow-up'', ''follow up'', ''previously'']"

definition depends_on_prior_context :: "string \<Rightarrow> bool" where
  "depends_on_prior_context prompt \<longleftrightarrow> list_ex (\<lambda>m. str_in m (str_lower prompt)) FOLLOW_UP_MARKERS"

datatype MultiTurnResolutionKind = PROJECTED | STATELESS | CLARIFICATION | REJECTED

record MultiTurnResolution =
  res_kind :: MultiTurnResolutionKind
  res_projection :: "MemoryContextProjection option"
  res_memory_unavailable :: bool
  res_stale :: "string list"
  res_reason :: string

definition resolution_consistent :: "MultiTurnResolution \<Rightarrow> bool" where
  "resolution_consistent r \<longleftrightarrow> (res_kind r = PROJECTED \<longleftrightarrow> res_projection r \<noteq> None)"

fun memory_code_value :: "MemoryErrorCode \<Rightarrow> string" where
  "memory_code_value MEMORY_UNAVAILABLE = ''MEMORY_UNAVAILABLE''"
| "memory_code_value SCOPE_MISMATCH = ''SCOPE_MISMATCH''"
| "memory_code_value RECORD_REJECTED = ''RECORD_REJECTED''"
| "memory_code_value BUDGET_EXHAUSTED = ''BUDGET_EXCEEDED''"
| "memory_code_value UNKNOWN_MEMORY_ERROR = ''UNKNOWN_MEMORY_ERROR''"

definition unavailable :: "bool \<Rightarrow> MultiTurnResolution" where
  "unavailable depends =
     (if depends then
        \<lparr>res_kind = CLARIFICATION, res_projection = None, res_memory_unavailable = True, res_stale = [],
         res_reason = ''memory is unavailable and the request depends on prior context''\<rparr>
      else
        \<lparr>res_kind = STATELESS, res_projection = None, res_memory_unavailable = True, res_stale = [],
         res_reason = ''memory is unavailable; resolving statelessly''\<rparr>)"

definition outcome_of :: "MemoryContextProjection \<Rightarrow> bool \<Rightarrow> MultiTurnResolution" where
  "outcome_of projected depends =
     (if stale_reference_ids projected \<noteq> [] then
        (if depends then
           \<lparr>res_kind = CLARIFICATION, res_projection = None, res_memory_unavailable = False,
            res_stale = stale_reference_ids projected,
            res_reason = ''prior references are stale; clarification required''\<rparr>
         else
           \<lparr>res_kind = STATELESS, res_projection = None, res_memory_unavailable = False,
            res_stale = stale_reference_ids projected,
            res_reason = ''prior references are stale; resolving statelessly''\<rparr>)
      else if memory_references projected = [] then
        (if depends then
           \<lparr>res_kind = CLARIFICATION, res_projection = None, res_memory_unavailable = False, res_stale = [],
            res_reason = ''no usable prior context for a follow-up request''\<rparr>
         else
           \<lparr>res_kind = STATELESS, res_projection = None, res_memory_unavailable = False, res_stale = [],
            res_reason = ''no prior context; resolving statelessly''\<rparr>)
      else
        \<lparr>res_kind = PROJECTED, res_projection = Some projected, res_memory_unavailable = False, res_stale = [],
         res_reason = ''recalled context projected into the provider context''\<rparr>)"

record resolver =
  rs_view :: AuthorizedView
  rs_references :: "(string, SemanticReference) dict"
  rs_turn :: CurrentTurnContext
  rs_budget :: "MemoryRecallBudget option"
  rs_resolved_view :: "ResolvedProjection option"

text \<open>
  \<open>clock\<close> is the provider's clock reading in \<open>recall\<close>, \<open>now\<close> the instant of the revalidation.
\<close>

definition resolve ::
  "('p \<Rightarrow> bool) \<Rightarrow> ('p \<Rightarrow> MemoryScope \<Rightarrow> MemoryRecallBudget option \<Rightarrow> timestamp \<Rightarrow> MemoryRecallProjection mem_res)
    \<Rightarrow> resolver \<Rightarrow> 'p option \<Rightarrow> string \<Rightarrow> string \<Rightarrow> timestamp \<Rightarrow> timestamp \<Rightarrow> MultiTurnResolution res" where
  "resolve is_available recall_op rs prov req prompt clock now =
     (let depends = depends_on_prior_context prompt
      in case prov of
           None \<Rightarrow> Inr (unavailable depends)
         | Some p \<Rightarrow>
             if \<not> is_available p then Inr (unavailable depends)
             else (case recall_op p (recall_scope (rs_turn rs)) (rs_budget rs) clock of
                     Inl (MemoryFailure e) \<Rightarrow>
                       if mi_code e = MEMORY_UNAVAILABLE then Inr (unavailable depends)
                       else Inr \<lparr>res_kind = REJECTED, res_projection = None, res_memory_unavailable = False,
                                 res_stale = [],
                                 res_reason = ''memory resolution failed: '' @ memory_code_value (mi_code e)\<rparr>
                   | Inl _ \<Rightarrow> Inr (unavailable depends)
                   | Inr proj \<Rightarrow>
                       bind_res (project_recall_context req (rs_view rs) (rs_references rs) (rs_turn rs) proj 4096
                                   now (rs_resolved_view rs))
                         (\<lambda>projected. Inr (outcome_of projected depends))))"

definition record_query_reference ::
  "('p \<Rightarrow> MemoryRecord \<Rightarrow> 'p mem_res) \<Rightarrow> 'p \<Rightarrow> CurrentTurnContext \<Rightarrow> string option \<Rightarrow> string option \<Rightarrow> string option
    \<Rightarrow> string \<Rightarrow> string option \<Rightarrow> string fset \<Rightarrow> int \<Rightarrow> timestamp \<Rightarrow> 'p mem_res" where
  "record_query_reference append_op p t intent ir artifact source root_entity used_fields ttl now =
     (let rid = take 16 (drop 7 (fingerprint_of (vdict [(''ir'', vopt VStr ir), (''intent'', vopt VStr intent)])))
      in if turn_tenant t = None then
           Inl (memory_failure RECORD_REJECTED ''query references require a tenant scope fingerprint'' [])
         else (case new_MemoryRecord (''mem-'' @ rid)
                      \<lparr>ms_tenant = turn_tenant t, ms_session = turn_session t, ms_conversation = turn_conversation t,
                       ms_adapter = turn_adapter t, ms_source = Some source\<rparr>
                      (QueryReferencePayload
                        \<lparr>reference_id = rid, intent_fp = intent, ir_fp = ir, artifact_fp = artifact,
                         ref_policy_fp = turn_policy t, ref_catalog_fp = turn_catalog t, ref_view_fp = turn_view t,
                         ref_adapter_id = turn_adapter t, ref_source_id = source, root_entity_id = root_entity,
                         ref_field_ids = used_fields\<rparr>)
                      now ttl None [] of
                 Inl e \<Rightarrow> Inl (InvalidDataRaised ''ValidationError'')
               | Inr r \<Rightarrow> append_op p r))"

section \<open>What is projected\<close>

lemma project_record_sound:
  "project_record r v t now = (Some ref, False) \<Longrightarrow>
   \<not> is_expired r now \<and> mr_record_fp ref = record_fingerprint r \<and>
   (turn_policy t \<noteq> None \<longrightarrow> mr_policy ref = turn_policy t) \<and>
   (turn_catalog t \<noteq> None \<longrightarrow> mr_catalog ref = turn_catalog t) \<and>
   (mr_kind ref = REF_QUERY \<longrightarrow> mr_policy ref = turn_policy t \<and> mr_catalog ref = turn_catalog t \<and>
      mr_view ref = turn_view t \<and> mr_adapter ref = turn_adapter t \<and> mr_source ref = Some (source_id v) \<and>
      ms_tenant (mem_scope r) = turn_tenant t)"
  by (auto simp: project_record_def query_reference_stale_def split: if_splits MemoryPayload.splits)

lemma project_record_stale_None: "project_record r v t now = (x, True) \<Longrightarrow> x = None"
  by (auto simp: project_record_def split: if_splits MemoryPayload.splits)

lemma project_records_sound:
  "project_records rs v t now = (refs, stale) \<Longrightarrow> ref \<in> set refs \<Longrightarrow>
   \<exists>r \<in> set rs. project_record r v t now = (Some ref, False)"
  by (induction rs arbitrary: refs stale)
     (auto split: prod.splits option.splits bool.splits if_splits)

lemma project_records_stale:
  "project_records rs v t now = (refs, stale) \<Longrightarrow>
   set stale = record_id ` {r \<in> set rs. snd (project_record r v t now)}"
  by (induction rs arbitrary: refs stale)
     (fastforce split: prod.splits option.splits bool.splits if_splits)+

lemma resolve_projected:
  assumes "resolve is_available recall_op rs prov req prompt clock now = Inr res" "res_projection res = Some mp"
  shows "\<exists>p proj. prov = Some p \<and> is_available p \<and>
     recall_op p (recall_scope (rs_turn rs)) (rs_budget rs) clock = Inr proj \<and>
     project_recall_context req (rs_view rs) (rs_references rs) (rs_turn rs) proj 4096 now (rs_resolved_view rs) = Inr mp \<and>
     stale_reference_ids mp = [] \<and> memory_references mp \<noteq> [] \<and> res_kind res = PROJECTED"
  using assms
  by (auto simp: resolve_def unavailable_def outcome_of_def bind_res_Inr_iff Let_def
      split: option.splits if_splits sum.splits memory_exn.splits)

context memory_provider
begin

lemma projected_references_scoped:
  assumes "\<And>p. prov = Some p \<Longrightarrow> inv p"
    and "resolve is_available recall rs prov req prompt clock now = Inr res" "res_projection res = Some mp"
    and "ref \<in> set (memory_references mp)"
  shows "\<exists>p proj r. prov = Some p \<and> recall p (recall_scope (rs_turn rs)) (rs_budget rs) clock = Inr proj \<and>
     r \<in> set (proj_records proj) \<and> project_record r (rs_view rs) (rs_turn rs) now = (Some ref, False) \<and>
     ms_tenant (mem_scope r) = turn_tenant (rs_turn rs) \<and> ms_session (mem_scope r) = turn_session (rs_turn rs)"
proof -
  from resolve_projected [OF assms(2,3)] obtain p proj where p: "prov = Some p"
      "recall p (recall_scope (rs_turn rs)) (rs_budget rs) clock = Inr proj"
      "project_recall_context req (rs_view rs) (rs_references rs) (rs_turn rs) proj 4096 now (rs_resolved_view rs) = Inr mp"
    by blast
  obtain refs stale where loop: "project_records (proj_records proj) (rs_view rs) (rs_turn rs) now = (refs, stale)"
    by fastforce
  then have "memory_references mp = take MAX_MEMORY_REFERENCES refs"
    using p(3) by (auto simp: project_recall_context_def bind_res_Inr_iff)
  then have "ref \<in> set refs" using assms(4) by (metis in_set_takeD)
  from project_records_sound [OF loop this] obtain r where
    r: "r \<in> set (proj_records proj)" "project_record r (rs_view rs) (rs_turn rs) now = (Some ref, False)" by blast
  have "ms_tenant (mem_scope r) = turn_tenant (rs_turn rs) \<and> ms_session (mem_scope r) = turn_session (rs_turn rs)"
    using recalled_same_tenant [OF assms(1) [OF p(1)] p(2) r(1)] by (simp add: recall_scope_def)
  with p r show ?thesis by blast
qed

end

section \<open>Properties\<close>

text \<open>
  Only fresh memory of the same tenant and session reaches the provider context: every reference
  of a projected resolution comes from a record that the provider recalled for this turn, of the
  turn's own tenant and session, not expired at revalidation, recorded under the turn's policy and
  catalog; a query reference also under the turn's view, adapter and source.  No projection is made
  when any recalled record is stale.
\<close>

theorem projected_memory_is_current:
  assumes "\<And>p. prov = Some p \<Longrightarrow> reachable provider_init provider_step p"
    and "resolve available (recall size_of) rs prov req prompt clock now = Inr res"
    and "res_projection res = Some mp" and "ref \<in> set (memory_references mp)"
  shows "stale_reference_ids mp = [] \<and>
    (\<exists>r. ms_tenant (mem_scope r) = turn_tenant (rs_turn rs) \<and> ms_session (mem_scope r) = turn_session (rs_turn rs) \<and>
       \<not> is_expired r now \<and> mr_record_fp ref = record_fingerprint r) \<and>
    (turn_policy (rs_turn rs) \<noteq> None \<longrightarrow> mr_policy ref = turn_policy (rs_turn rs)) \<and>
    (turn_catalog (rs_turn rs) \<noteq> None \<longrightarrow> mr_catalog ref = turn_catalog (rs_turn rs)) \<and>
    (mr_kind ref = REF_QUERY \<longrightarrow> mr_view ref = turn_view (rs_turn rs) \<and> mr_adapter ref = turn_adapter (rs_turn rs) \<and>
       mr_source ref = Some (source_id (rs_view rs)))"
proof -
  have "\<And>p. prov = Some p \<Longrightarrow> provider_inv p" using assms(1) provider_sys.reachable_inv by blast
  from inmemory.projected_references_scoped [OF this assms(2-4)] obtain r where
    r: "project_record r (rs_view rs) (rs_turn rs) now = (Some ref, False)"
    "ms_tenant (mem_scope r) = turn_tenant (rs_turn rs)" "ms_session (mem_scope r) = turn_session (rs_turn rs)"
    by blast
  show ?thesis using project_record_sound [OF r(1)] r(2,3) resolve_projected [OF assms(2,3)] by blast
qed

text \<open>
  Memory never fails a query: whatever the provider returns or raises, the resolver does not
  raise because of it; it rejects the request exactly when the provider reports a structured
  failure other than unavailability, and otherwise answers statelessly or asks for clarification,
  the latter only for prompts that depend on prior context.
\<close>

theorem memory_failure_degrades:
  assumes "recall_op p (recall_scope (rs_turn rs)) (rs_budget rs) clock = Inl e" and "is_available p"
  shows "\<exists>res. resolve is_available recall_op rs (Some p) req prompt clock now = Inr res \<and>
    resolution_consistent res \<and> res_projection res = None \<and>
    (res_kind res = REJECTED \<longleftrightarrow> (\<exists>f. e = MemoryFailure f \<and> mi_code f \<noteq> MEMORY_UNAVAILABLE)) \<and>
    (res_kind res \<noteq> REJECTED \<longrightarrow> res_memory_unavailable res \<and>
       res_kind res = (if depends_on_prior_context prompt then CLARIFICATION else STATELESS))"
  using assms
  by (cases e) (auto simp: resolve_def unavailable_def resolution_consistent_def Let_def)

text \<open>
  The per-turn revalidation does not look at the artifact of the turn: whichever artifact
  fingerprint the current turn carries, the same records are projected and the same are stale.
\<close>

theorem artifact_not_revalidated:
  "project_record r v (t\<lparr>turn_artifact := a\<rparr>) now = project_record r v t now"
  by (simp add: project_record_def query_reference_stale_def cong: MemoryPayload.case_cong)

text \<open>
  Query references of different tenants collide: their record id is a digest of the query alone,
  so once one tenant has recorded a query, recording the same query for any other tenant or session
  in the same provider is rejected.
\<close>

theorem query_references_collide_across_tenants:
  assumes "record_query_reference append p t1 intent ir artifact source root_entity used_fields ttl now1 = Inr p1"
  shows "\<exists>e. record_query_reference append p1 t2 intent ir artifact2 source2 root2 used_fields2 ttl2 now2 = Inl e"
proof -
  let ?rid = "''mem-'' @ take 16 (drop 7 (fingerprint_of (vdict [(''ir'', vopt VStr ir), (''intent'', vopt VStr intent)])))"
  obtain r where "append p r = Inr p1" "record_id r = ?rid"
    using assms(1) by (auto simp: record_query_reference_def Let_def new_MemoryRecord_ok split: if_splits sum.splits)
  then have taken: "dict_get (records p1) ?rid \<noteq> None" by (simp add: append_ok)
  have "\<exists>e. append p1 r' = Inl e" if "record_id r' = ?rid" for r'
  proof (cases "append p1 r'")
    case (Inr p2)
    then show ?thesis using taken that append_ok [of p1 r' p2] by simp
  qed simp
  then show ?thesis
    by (auto simp: record_query_reference_def Let_def new_MemoryRecord_ok split: sum.splits)
qed

section \<open>Concrete turns\<close>

definition sample_turn :: CurrentTurnContext where
  "sample_turn =
     \<lparr>turn_session = ''s1'', turn_conversation = None, turn_tenant = Some tenant_a, turn_policy = None,
      turn_catalog = None, turn_view = None, turn_source = None, turn_adapter = None, turn_artifact = None\<rparr>"

definition sample_resolver :: resolver where
  "sample_resolver =
     \<lparr>rs_view = sample_view, rs_references = [], rs_turn = sample_turn, rs_budget = None, rs_resolved_view = None\<rparr>"

definition decision_record :: MemoryRecord where
  "decision_record = sample_mem_record\<lparr>payload := SemanticDecisionPayload
     \<lparr>decision_id = ''d1'', confirmed_interpretation = ''net amount'', dec_policy_fp = tenant_a,
      dec_catalog_fp = tenant_a\<rparr>\<rparr>"

definition decision_reference :: MemoryReference where
  "decision_reference =
     \<lparr>mr_kind = REF_DECISION, mr_reference_id = ''d1'', mr_policy = Some tenant_a, mr_catalog = Some tenant_a,
      mr_view = None, mr_adapter = None, mr_source = None, mr_root_entity = None, mr_field_ids = {||},
      mr_interpretation = Some ''net amount'', mr_record_fp = record_fingerprint decision_record\<rparr>"

definition decision_provider :: provider where
  "decision_provider = (new_provider True 10)\<lparr>records := [(''m1'', decision_record)], order := [''m1'']\<rparr>"

definition decision_projection :: MemoryContextProjection where
  "decision_projection =
     \<lparr>model_context = sample_context\<lparr>semantic_references := []\<rparr>, memory_references = [decision_reference],
      stale_reference_ids = []\<rparr>"

definition decision_resolution :: MultiTurnResolution where
  "decision_resolution =
     \<lparr>res_kind = PROJECTED, res_projection = Some decision_projection, res_memory_unavailable = False, res_stale = [],
      res_reason = ''recalled context projected into the provider context''\<rparr>"

lemma decision_provider_reachable: "reachable provider_init provider_step decision_provider"
proof -
  have "append (new_provider True 10) decision_record = Inr decision_provider"
    by (simp add: append_ok decision_provider_def new_provider_def decision_record_def sample_mem_record_def)
  moreover have "provider_init (new_provider True 10)" unfolding provider_init_def by (metis zero_le_numeral)
  ultimately show ?thesis by (blast intro: reachable.intros step_append)
qed

lemma decision_recall:
  "recall (\<lambda>_. 40) decision_provider sample_mem_scope None 5 =
     Inr (sample_projection\<lparr>proj_records := [decision_record]\<rparr>)"
  by (simp add: recall_def ensure_available_def eligible_def decision_provider_def new_provider_def
      sample_projection_def is_expired_def default_recall_budget_def projection_valid_def
      MAX_CHARS_PER_TOKEN_def memory_bounds sample_mem_record_def decision_record_def Let_def)

lemma decision_projected:
  "project_record decision_record sample_view sample_turn 6 = (Some decision_reference, False)"
proof -
  have "\<not> is_expired decision_record 6" by (simp add: is_expired_def decision_record_def sample_mem_record_def)
  then show ?thesis
    by (simp add: project_record_def decision_reference_def sample_turn_def)
       (simp add: decision_record_def)
qed

lemma decision_resolved:
  "resolve available (recall (\<lambda>_. 40)) sample_resolver (Some decision_provider) ''req-1'' ''x'' 5 6 = Inr decision_resolution"
proof -
  have "recall_scope sample_turn = sample_mem_scope"
    by (simp add: recall_scope_def sample_turn_def sample_mem_scope_def)
  moreover have "assemble_model_context ''req-1'' sample_view [] 4096 None = Inr (sample_context\<lparr>semantic_references := []\<rparr>)"
    by (simp add: assemble_model_context_def sample_view_def sample_context_def context_valid_def
        identifier_ok_def char_class_defs map_filter_simps Let_def)
  moreover have "available decision_provider" by (simp add: decision_provider_def new_provider_def)
  ultimately show ?thesis
    by (simp add: resolve_def sample_resolver_def decision_recall project_recall_context_def decision_projected
        outcome_of_def decision_resolution_def decision_projection_def MAX_MEMORY_REFERENCES_def)
qed

theorem projected_memory_is_current_witness:
  "resolve available (recall (\<lambda>_. 40)) sample_resolver (Some decision_provider) ''req-1'' ''x'' 5 6 = Inr decision_resolution \<and>
   (\<exists>r. ms_tenant (mem_scope r) = Some tenant_a \<and> \<not> is_expired r 6 \<and>
      mr_record_fp decision_reference = record_fingerprint r)"
proof -
  have proj: "res_projection decision_resolution = Some decision_projection" by (simp add: decision_resolution_def)
  have ref: "decision_reference \<in> set (memory_references decision_projection)" by (simp add: decision_projection_def)
  have reach: "\<And>p. Some decision_provider = Some p \<Longrightarrow> reachable provider_init provider_step p"
    using decision_provider_reachable by simp
  have "turn_tenant (rs_turn sample_resolver) = Some tenant_a" by (simp add: sample_resolver_def sample_turn_def)
  then show ?thesis
    using decision_resolved projected_memory_is_current [OF reach decision_resolved proj ref] by auto
qed

theorem memory_failure_degrades_witness:
  "\<exists>res. resolve (\<lambda>_. True) (\<lambda>_ _ _ _. Inl (TimeoutRaised ''TimeoutError'')) sample_resolver (Some ()) ''req-1'' ''x'' 5 6 = Inr res \<and>
     res_kind res \<noteq> REJECTED \<and> res_memory_unavailable res"
proof -
  show ?thesis
    using memory_failure_degrades [where is_available = "\<lambda>_. True" and p = "()" and rs = sample_resolver and clock = 5
        and recall_op = "\<lambda>_ _ _ _. Inl (TimeoutRaised ''TimeoutError'')" and req = "''req-1''" and prompt = "''x''"
        and now = 6] by auto
qed

lemma digest_prefix_ok:
  assumes "fingerprint_ok s"
  shows "identifier_ok (take 16 (drop 7 s))" "identifier_ok (''mem-'' @ take 16 (drop 7 s))"
    "identifier_ok (CHR ''m'' # CHR ''e'' # CHR ''m'' # CHR ''-'' # take 16 (drop 7 s))"
proof -
  have lower_hex: "c \<in> set ''abcdef'' \<Longrightarrow> is_lower_ascii c" for c
    by (auto simp: is_lower_ascii_def lower_chars_def)
  have hex: "list_all (\<lambda>c. is_alnum c) (take 16 (drop 7 s))" "length (take 16 (drop 7 s)) = 16"
    using assms lower_hex by (auto simp: fingerprint_ok_def list_all_iff is_alnum_def dest!: in_set_takeD)
  then show "identifier_ok (take 16 (drop 7 s))"
    by (cases "take 16 (drop 7 s)") (auto simp: identifier_ok_def list_all_iff)
  show "identifier_ok (''mem-'' @ take 16 (drop 7 s))"
  proof -
    have "list_all (\<lambda>c. is_alnum c \<or> c \<in> set ''_-.'') (take 16 (drop 7 s))"
      using hex(1) by (auto simp: list_all_iff)
    moreover have "is_alnum (CHR ''m'')" "is_alnum (CHR ''e'')" by (simp_all add: char_class_defs)
    ultimately show ?thesis using hex(2) by (simp add: identifier_ok_def)
  qed
  then show "identifier_ok (CHR ''m'' # CHR ''e'' # CHR ''m'' # CHR ''-'' # take 16 (drop 7 s))" by simp
qed

theorem query_references_collide_across_tenants_witness:
  "\<exists>p1 e. record_query_reference append (new_provider True 10) sample_turn None None None ''sales'' None {||} 60 0 = Inr p1 \<and>
     record_query_reference append p1 (sample_turn\<lparr>turn_tenant := Some (fingerprint_of VNull)\<rparr>) None None None ''sales'' None {||} 60 0 = Inl e"
proof -
  have "\<exists>p1. record_query_reference append (new_provider True 10) sample_turn None None None ''sales'' None {||} 60 0 = Inr p1"
  proof -
    have "fingerprint_ok tenant_a" by (rule tenant_a_ok)
    then show ?thesis
      by (simp add: record_query_reference_def Let_def sample_turn_def new_MemoryRecord_def scope_valid_def
          metadata_valid_def memory_bounds digest_prefix_ok reference_valid_def append_ok new_provider_def
          identifier_ok_def [of "''s1''"] identifier_ok_def [of "''sales''"] char_class_defs)
  qed
  then obtain p1 where "record_query_reference append (new_provider True 10) sample_turn None None None ''sales'' None {||} 60 0 = Inr p1"
    by blast
  with query_references_collide_across_tenants [OF this] show ?thesis by blast
qed

end
