(* ===== verification/Join_Planner.thy ===== *)
theory Join_Planner
  imports Authorized_View
begin

text \<open>
  The deterministic join planner of \<^verbatim>\<open>src/nl2data_core/planning/join_planner.py\<close>, over the
  relationship graphs of \<^verbatim>\<open>src/nl2data_core/planning/models.py\<close> and the join plans of
  \<^verbatim>\<open>src/nl2data_core/planning/ir/models.py\<close>.

  The breadth-first search keeps the distances, path counts and parents of the code as maps.  Python
  does not fix the order in which \<open>for start in allowed_start_entities\<close> visits a set: the start
  entities are a list in some order, and the planner takes that order as the parameter
  \<open>set_order\<close>.  The loop that rebuilds the path follows the recorded parents; it is a partial
  function whose value is \<open>None\<close> when it does not return, and is shown to return.

  The search is proved against an inductive definition of the walks through the graph: it answers
  with the only shortest walk, or that there are several, or that there is none, whatever the order.
\<close>

section \<open>Relationship graphs\<close>

datatype Cardinality = ONE_TO_ONE | ONE_TO_MANY | MANY_TO_ONE | MANY_TO_MANY

fun cardinality_value :: "Cardinality \<Rightarrow> string" where
  "cardinality_value ONE_TO_ONE = ''one_to_one''"
| "cardinality_value ONE_TO_MANY = ''one_to_many''"
| "cardinality_value MANY_TO_ONE = ''many_to_one''"
| "cardinality_value MANY_TO_MANY = ''many_to_many''"

record RelationshipEdge =
  edge_id :: string
  relationship_id :: string
  left_entity_id :: string
  right_entity_id :: string
  left_field_id :: string
  right_field_id :: string
  cardinality :: Cardinality

definition edge_valid :: "RelationshipEdge \<Rightarrow> bool" where
  "edge_valid e \<longleftrightarrow>
     identifier_ok (edge_id e) \<and> identifier_ok (relationship_id e) \<and> identifier_ok (left_entity_id e) \<and>
     identifier_ok (right_entity_id e) \<and> identifier_ok (left_field_id e) \<and> identifier_ok (right_field_id e)"

definition edge_payload :: "RelationshipEdge \<Rightarrow> jv" where
  "edge_payload e = vdict
     [(''edge_id'', VStr (edge_id e)), (''relationship_id'', VStr (relationship_id e)),
      (''left_entity_id'', VStr (left_entity_id e)), (''right_entity_id'', VStr (right_entity_id e)),
      (''left_field_id'', VStr (left_field_id e)), (''right_field_id'', VStr (right_field_id e)),
      (''cardinality'', VStr (cardinality_value (cardinality e)))]"

record RelationshipGraph =
  graph_id :: string
  graph_source_id :: string
  edges :: "RelationshipEdge list"

definition graph_valid :: "RelationshipGraph \<Rightarrow> bool" where
  "graph_valid g \<longleftrightarrow>
     identifier_ok (graph_id g) \<and> identifier_ok (graph_source_id g) \<and> list_all edge_valid (edges g) \<and>
     distinct (map edge_id (edges g))"

definition graph_fingerprint :: "RelationshipGraph \<Rightarrow> string" where
  "graph_fingerprint g = fingerprint_of (vdict
     [(''graph_id'', VStr (graph_id g)), (''source_id'', VStr (graph_source_id g)),
      (''edges'', VList (map edge_payload (sort_key edge_id (edges g))))])"

section \<open>Join plans\<close>

record JoinStep =
  step_id :: string
  step_relationship_id :: string
  step_left_entity :: string
  step_right_entity :: string
  step_left_field :: string
  step_right_field :: string

definition step_payload :: "JoinStep \<Rightarrow> jv" where
  "step_payload s = vdict
     [(''step_id'', VStr (step_id s)), (''relationship_id'', VStr (step_relationship_id s)),
      (''left_entity_id'', VStr (step_left_entity s)), (''right_entity_id'', VStr (step_right_entity s)),
      (''left_field_id'', VStr (step_left_field s)), (''right_field_id'', VStr (step_right_field s)),
      (''join_type'', VStr ''inner'')]"

definition new_JoinStep :: "string \<Rightarrow> string \<Rightarrow> string \<Rightarrow> string \<Rightarrow> string \<Rightarrow> string \<Rightarrow> JoinStep res" where
  "new_JoinStep sid rel le re lf rf =
     (if list_all identifier_ok [sid, rel, le, re, lf, rf]
      then Inr \<lparr>step_id = sid, step_relationship_id = rel, step_left_entity = le, step_right_entity = re,
                step_left_field = lf, step_right_field = rf\<rparr>
      else Inl ValidationError)"

record LogicalJoinPlan =
  plan_id :: string
  plan_source_id :: string
  root_entity :: string
  steps :: "JoinStep list"

definition new_LogicalJoinPlan :: "string \<Rightarrow> string \<Rightarrow> string \<Rightarrow> JoinStep list \<Rightarrow> LogicalJoinPlan res" where
  "new_LogicalJoinPlan pid src rt ss =
     (if identifier_ok pid \<and> identifier_ok src \<and> identifier_ok rt
      then Inr \<lparr>plan_id = pid, plan_source_id = src, root_entity = rt, steps = ss\<rparr>
      else Inl ValidationError)"

definition plan_fingerprint :: "LogicalJoinPlan \<Rightarrow> string" where
  "plan_fingerprint p = fingerprint_of (vdict
     [(''plan_id'', VStr (plan_id p)), (''source_id'', VStr (plan_source_id p)),
      (''root_entity_id'', VStr (root_entity p)), (''steps'', VList (map step_payload (steps p)))])"

section \<open>Adjacency\<close>

datatype direction = Forward | Reverse

type_synonym hop = "RelationshipEdge \<times> direction \<times> string"
type_synonym adjacency = "(string, hop list) dict"

definition make_step :: "RelationshipEdge \<Rightarrow> direction \<Rightarrow> JoinStep res" where
  "make_step e d =
     (case d of
        Forward \<Rightarrow> new_JoinStep (''step-'' @ edge_id e) (relationship_id e) (left_entity_id e) (right_entity_id e)
                     (left_field_id e) (right_field_id e)
      | Reverse \<Rightarrow> new_JoinStep (''step-'' @ edge_id e) (relationship_id e) (right_entity_id e) (left_entity_id e)
                     (right_field_id e) (left_field_id e))"

definition hops_of :: "adjacency \<Rightarrow> string \<Rightarrow> hop list" where
  "hops_of adj v = (case dict_get adj v of None \<Rightarrow> [] | Some hs \<Rightarrow> hs)"

text \<open>\<open>adjacency.setdefault(v, []).append(h)\<close>\<close>

definition add_hop :: "string \<Rightarrow> hop \<Rightarrow> adjacency \<Rightarrow> adjacency" where
  "add_hop v h adj = dict_set v (hops_of adj v @ [h]) adj"

definition add_edge :: "RelationshipEdge \<Rightarrow> adjacency \<Rightarrow> adjacency" where
  "add_edge e adj =
     add_hop (right_entity_id e) (e, Reverse, left_entity_id e)
       (add_hop (left_entity_id e) (e, Forward, right_entity_id e) adj)"

definition build_adjacency :: "RelationshipEdge list \<Rightarrow> adjacency" where
  "build_adjacency es = map (\<lambda>(v, hs). (v, sort_key (\<lambda>h. edge_id (fst h)) hs)) (fold add_edge es [])"

section \<open>Breadth-first search\<close>

record search =
  distances :: "string \<rightharpoonup> nat"
  counts :: "string \<rightharpoonup> nat"
  parents :: "string \<rightharpoonup> hop list"
  queue :: "string list"

text \<open>
  One iteration of the inner loop.  The node was taken from the queue, so it has a distance and a
  count (lemma \<open>queued_known\<close>): \<open>the\<close> never meets \<open>None\<close> there.
\<close>

definition relax :: "string \<Rightarrow> hop \<Rightarrow> search \<Rightarrow> search" where
  "relax node h s =
     (case h of (e, d, neighbor) \<Rightarrow>
        case distances s neighbor of
          None \<Rightarrow>
            s\<lparr>distances := (distances s)(neighbor \<mapsto> the (distances s node) + 1),
              counts := (counts s)(neighbor \<mapsto> the (counts s node)),
              parents := (parents s)(neighbor \<mapsto> [(e, d, node)]),
              queue := queue s @ [neighbor]\<rparr>
        | Some k \<Rightarrow>
            if k = the (distances s node) + 1 then
              s\<lparr>counts := (counts s)(neighbor \<mapsto> the (counts s neighbor) + the (counts s node)),
                parents := (parents s)(neighbor \<mapsto>
                  (case parents s neighbor of None \<Rightarrow> [] | Some ps \<Rightarrow> ps) @ [(e, d, node)])\<rparr>
            else s)"

definition neighbors :: "adjacency \<Rightarrow> string set" where
  "neighbors adj = (\<Union>(v, hs) \<in> set adj. (\<lambda>(e, d, n). n) ` set hs)"

lemma finite_neighbors [simp]: "finite (neighbors adj)"
  by (auto simp: neighbors_def)

lemma hop_neighbor: "(e, d, n) \<in> set (hops_of adj v) \<Longrightarrow> n \<in> neighbors adj"
proof -
  assume "(e, d, n) \<in> set (hops_of adj v)"
  then obtain hs where "(v, hs) \<in> set adj" "(e, d, n) \<in> set hs"
    by (cases "dict_get adj v") (auto simp: hops_of_def dest: map_of_SomeD)
  then show ?thesis unfolding neighbors_def by (intro UN_I [of "(v, hs)"]) force+
qed

definition open_work :: "adjacency \<Rightarrow> search \<Rightarrow> nat" where
  "open_work adj s = 2 * card (neighbors adj - dom (distances s)) + length (queue s)"

lemma relax_work:
  assumes "snd (snd h) \<in> neighbors adj"
  shows "open_work adj (relax node h s) \<le> open_work adj s"
proof (cases h)
  case (fields e d n)
  show ?thesis
  proof (cases "distances s n")
    case None
    then have "n \<in> neighbors adj - dom (distances s)" using assms fields by auto
    then have "Suc (card (neighbors adj - dom (distances s) - {n})) = card (neighbors adj - dom (distances s))"
      by (intro card_Suc_Diff1) simp
    then have "card (neighbors adj - dom (distances s)) = Suc (card (neighbors adj - insert n (dom (distances s))))"
      by (metis Diff_insert)
    then show ?thesis using fields None by (simp add: relax_def open_work_def)
  next
    case (Some k)
    then show ?thesis using fields by (simp add: relax_def open_work_def)
  qed
qed

lemma fold_relax_work:
  "(\<And>h. h \<in> set hs \<Longrightarrow> snd (snd h) \<in> neighbors adj) \<Longrightarrow>
   open_work adj (fold (relax node) hs s) \<le> open_work adj s"
proof (induction hs arbitrary: s)
  case Nil
  then show ?case by simp
next
  case (Cons h hs)
  have "open_work adj (fold (relax node) hs (relax node h s)) \<le> open_work adj (relax node h s)"
    using Cons by simp
  also have "\<dots> \<le> open_work adj s" using Cons.prems by (intro relax_work) simp
  finally show ?case by simp
qed

function search_loop :: "adjacency \<Rightarrow> search \<Rightarrow> search" where
  "search_loop adj s =
     (case queue s of
        [] \<Rightarrow> s
      | node # rest \<Rightarrow> search_loop adj (fold (relax node) (hops_of adj node) (s\<lparr>queue := rest\<rparr>)))"
  by pat_completeness auto
termination
proof (relation "measure (\<lambda>(adj, s). open_work adj s)", goal_cases)
  case (2 adj s node rest)
  have "open_work adj (fold (relax node) (hops_of adj node) (s\<lparr>queue := rest\<rparr>)) \<le> open_work adj (s\<lparr>queue := rest\<rparr>)"
    by (intro fold_relax_work) (auto intro: hop_neighbor)
  also have "\<dots> < open_work adj s" using 2 by (simp add: open_work_def)
  finally show ?case by simp
qed simp

declare search_loop.simps [simp del]

definition start_state :: "adjacency \<Rightarrow> string list \<Rightarrow> search" where
  "start_state adj starts =
     (let qs = filter (\<lambda>v. dict_get adj v \<noteq> None) starts
      in \<lparr>distances = (\<lambda>v. if v \<in> set qs then Some 0 else None),
          counts = (\<lambda>v. if v \<in> set qs then Some 1 else None), parents = Map.empty, queue = qs\<rparr>)"

text \<open>
  The loop that rebuilds the path from the end; prepending keeps the list in the order that
  \<open>reversed(path)\<close> has at the end of the code.
\<close>

partial_function (option) rebuild ::
  "(string \<rightharpoonup> hop list) \<Rightarrow> string list \<Rightarrow> string \<Rightarrow> (RelationshipEdge \<times> direction) list
    \<Rightarrow> (RelationshipEdge \<times> direction) list option" where
  "rebuild ps starts current path =
     (if current \<in> set starts then Some path
      else case ps current of
             Some ((e, d, parent) # _) \<Rightarrow> rebuild ps starts parent ((e, d) # path)
           | _ \<Rightarrow> None)"

declare rebuild.simps [code]

datatype path_result = Path "(RelationshipEdge \<times> direction) list" | Ambiguous | NoPath

definition shortest_path :: "adjacency \<Rightarrow> string list \<Rightarrow> string \<Rightarrow> path_result option" where
  "shortest_path adj starts goal =
     (if goal \<in> set starts then Some (Path [])
      else if dict_get adj goal = None then Some NoPath
      else
        (let s = search_loop adj (start_state adj starts)
         in if distances s goal = None then Some NoPath
            else if 1 < the (counts s goal) then Some Ambiguous
            else map_option Path (rebuild (parents s) starts goal [])))"

section \<open>Planning\<close>

text \<open>Of a multi-entity intent the planner reads the identity, the source and the entity references.\<close>

record EntityRef =
  entity_id :: string
  entity_alias :: "string option"

record MultiEntityIntent =
  intent_id :: string
  intent_source_id :: string
  entity_refs :: "EntityRef list"

definition intent_valid :: "MultiEntityIntent \<Rightarrow> bool" where
  "intent_valid i \<longleftrightarrow>
     identifier_ok (intent_id i) \<and> identifier_ok (intent_source_id i) \<and> entity_refs i \<noteq> [] \<and>
     list_all (\<lambda>r. identifier_ok (entity_id r) \<and> opt_all identifier_ok (entity_alias r)) (entity_refs i) \<and>
     distinct (map entity_id (entity_refs i))"

datatype outcome_kind = PLAN | NOT_FOUND | AMBIGUOUS | UNAUTHORIZED

record JoinPlannerOutcome =
  outcome_kind :: outcome_kind
  outcome_plan :: "LogicalJoinPlan option"
  outcome_reason :: string

definition failed :: "outcome_kind \<Rightarrow> string \<Rightarrow> JoinPlannerOutcome" where
  "failed k why = \<lparr>outcome_kind = k, outcome_plan = None, outcome_reason = why\<rparr>"

definition planned :: "LogicalJoinPlan \<Rightarrow> JoinPlannerOutcome" where
  "planned p = \<lparr>outcome_kind = PLAN, outcome_plan = Some p, outcome_reason = []\<rparr>"

definition required_entities :: "MultiEntityIntent \<Rightarrow> string fset" where
  "required_entities i = fset_of_list (map entity_id (entity_refs i))"

definition empty_plan :: "MultiEntityIntent \<Rightarrow> string fset \<Rightarrow> JoinPlannerOutcome res" where
  "empty_plan i required =
     bind_res (new_LogicalJoinPlan (''plan-'' @ intent_id i) (intent_source_id i)
                 (if required = {||} then [] else fMin required) [])
       (\<lambda>p. Inr (planned p))"

record join_state =
  js_steps :: "JoinStep list"
  js_visited :: "string fset"
  js_used :: "string fset"

fun add_steps :: "(RelationshipEdge \<times> direction) list \<Rightarrow> join_state \<Rightarrow> join_state res" where
  "add_steps [] st = Inr st"
| "add_steps ((e, d) # path) st =
     (if edge_id e |\<in>| js_used st then add_steps path st
      else bind_res (make_step e d) (\<lambda>step.
             add_steps path
               \<lparr>js_steps = js_steps st @ [step], js_visited = finsert (right_entity_id e) (finsert (left_entity_id e) (js_visited st)),
                js_used = finsert (edge_id e) (js_used st)\<rparr>))"

text \<open>
  The loop over the sorted targets: a raised exception, the early return of an outcome
  (\<open>Inl\<close> inside), or the state it ends in.
\<close>

fun connect_targets ::
  "(string fset \<Rightarrow> string list) \<Rightarrow> adjacency \<Rightarrow> string list \<Rightarrow> join_state
    \<Rightarrow> (JoinPlannerOutcome + join_state) res option" where
  "connect_targets set_order adj [] st = Some (Inr (Inr st))"
| "connect_targets set_order adj (target # targets) st =
     (if target |\<in>| js_visited st then connect_targets set_order adj targets st
      else case shortest_path adj (set_order (js_visited st)) target of
             None \<Rightarrow> None
           | Some NoPath \<Rightarrow>
               Some (Inr (Inl (failed NOT_FOUND
                 (''no authorized path connects the required entities to '' @ quoted target))))
           | Some Ambiguous \<Rightarrow>
               Some (Inr (Inl (failed AMBIGUOUS
                 (''multiple equivalent shortest paths connect to '' @ quoted target))))
           | Some (Path path) \<Rightarrow>
               (case add_steps path st of
                  Inl e \<Rightarrow> Some (Inl e)
                | Inr st' \<Rightarrow> connect_targets set_order adj targets st'))"

definition first_unauthorized_entity :: "AuthorizedView \<Rightarrow> string fset \<Rightarrow> string option" where
  "first_unauthorized_entity v required =
     (if root_entity_ids v = {||} then None
      else List.find (\<lambda>e. e |\<notin>| root_entity_ids v) (sorted_list_of_fset required))"

definition first_unauthorized_edge :: "AuthorizedView \<Rightarrow> RelationshipGraph \<Rightarrow> RelationshipEdge option" where
  "first_unauthorized_edge v g = List.find (\<lambda>e. relationship_id e |\<notin>| allowed_relationships v) (edges g)"

definition plan ::
  "(string fset \<Rightarrow> string list) \<Rightarrow> RelationshipGraph \<Rightarrow> AuthorizedView \<Rightarrow> MultiEntityIntent
    \<Rightarrow> JoinPlannerOutcome res option" where
  "plan set_order g v i =
     (if intent_source_id i \<noteq> source_id v then
        Some (Inr (failed UNAUTHORIZED ''intent source does not match the authorized view''))
      else if graph_source_id g \<noteq> source_id v then
        Some (Inr (failed UNAUTHORIZED ''relationship graph source does not match the authorized view''))
      else
        (let required = required_entities i
         in if fcard required \<le> 1 then Some (empty_plan i required)
            else case first_unauthorized_entity v required of
              Some e \<Rightarrow> Some (Inr (failed UNAUTHORIZED (''entity '' @ quoted e @ '' is outside the authorized view'')))
            | None \<Rightarrow>
                (case first_unauthorized_edge v g of
                   Some e \<Rightarrow> Some (Inr (failed UNAUTHORIZED
                     (''relationship '' @ quoted (relationship_id e) @ '' is not authorized'')))
                 | None \<Rightarrow>
                     (let adj = build_adjacency (edges g);
                          start = fMin required
                      in case connect_targets set_order adj (sorted_list_of_fset (required |-| {|start|}))
                                \<lparr>js_steps = [], js_visited = {|start|}, js_used = {||}\<rparr> of
                           None \<Rightarrow> None
                         | Some (Inl e) \<Rightarrow> Some (Inl e)
                         | Some (Inr (Inl outcome)) \<Rightarrow> Some (Inr outcome)
                         | Some (Inr (Inr st)) \<Rightarrow>
                             Some (bind_res (new_LogicalJoinPlan (''plan-'' @ intent_id i) (intent_source_id i) start (js_steps st))
                                     (\<lambda>p. Inr (planned p)))))))"

section \<open>Walks\<close>

fun hop_from :: "RelationshipEdge \<Rightarrow> direction \<Rightarrow> string" where
  "hop_from e Forward = left_entity_id e"
| "hop_from e Reverse = right_entity_id e"

fun hop_to :: "RelationshipEdge \<Rightarrow> direction \<Rightarrow> string" where
  "hop_to e Forward = right_entity_id e"
| "hop_to e Reverse = left_entity_id e"

inductive walk :: "RelationshipEdge set \<Rightarrow> string set \<Rightarrow> (RelationshipEdge \<times> direction) list \<Rightarrow> string \<Rightarrow> bool"
  for es :: "RelationshipEdge set" and starts :: "string set" where
  walk_start: "v \<in> starts \<Longrightarrow> walk es starts [] v"
| walk_hop: "walk es starts p (hop_from e d) \<Longrightarrow> e \<in> es \<Longrightarrow> walk es starts (p @ [(e, d)]) (hop_to e d)"

inductive_cases walk_snocE: "walk es starts (p @ [h]) v"
inductive_cases walk_NilE: "walk es starts [] v"

definition walks :: "RelationshipEdge set \<Rightarrow> string set \<Rightarrow> string \<Rightarrow> nat \<Rightarrow> (RelationshipEdge \<times> direction) list set" where
  "walks es starts v n = {p. walk es starts p v \<and> length p = n}"

lemma walks_0: "walks es starts v 0 = (if v \<in> starts then {[]} else {})"
  by (auto simp: walks_def intro: walk_start elim: walk_NilE)

lemma walks_Suc:
  "walks es starts v (Suc n) =
     (\<Union>(e, d) \<in> {(e, d). e \<in> es \<and> hop_to e d = v}. (\<lambda>p. p @ [(e, d)]) ` walks es starts (hop_from e d) n)"
proof (intro equalityI subsetI)
  fix q assume "q \<in> walks es starts v (Suc n)"
  then obtain p h where q: "q = p @ [h]" "walk es starts (p @ [h]) v" "length p = n"
    by (cases q rule: rev_cases) (auto simp: walks_def)
  from q(2) show "q \<in> (\<Union>(e, d) \<in> {(e, d). e \<in> es \<and> hop_to e d = v}. (\<lambda>p. p @ [(e, d)]) ` walks es starts (hop_from e d) n)"
    using q(1,3) by (cases rule: walk_snocE) (auto simp: walks_def)
next
  fix q assume "q \<in> (\<Union>(e, d) \<in> {(e, d). e \<in> es \<and> hop_to e d = v}. (\<lambda>p. p @ [(e, d)]) ` walks es starts (hop_from e d) n)"
  then show "q \<in> walks es starts v (Suc n)" by (auto simp: walks_def intro: walk_hop)
qed

lemma finite_hops: "finite es \<Longrightarrow> finite {(e, d). e \<in> es \<and> hop_to e d = v}"
proof -
  assume "finite es"
  then have "finite (es \<times> {Forward, Reverse})" by simp
  then show ?thesis by (rule rev_finite_subset) (auto, metis direction.exhaust)
qed

lemma finite_walks [simp]: "finite es \<Longrightarrow> finite (walks es starts v n)"
  by (induction n arbitrary: v) (auto simp: walks_0 walks_Suc intro!: finite_UN_I finite_hops)


section \<open>The adjacency of a graph\<close>

lemma hops_of_Nil [simp]: "hops_of [] w = []"
  by (simp add: hops_of_def)

lemma hops_of_add_hop: "hops_of (add_hop v h adj) w = hops_of adj w @ (if w = v then [h] else [])"
  by (simp add: hops_of_def add_hop_def)

lemma hops_of_add_edge:
  "hops_of (add_edge e adj) w =
     hops_of adj w @ (if w = left_entity_id e then [(e, Forward, right_entity_id e)] else []) @
       (if w = right_entity_id e then [(e, Reverse, left_entity_id e)] else [])"
  by (simp add: add_edge_def hops_of_add_hop)

definition edge_hops :: "string \<Rightarrow> RelationshipEdge \<Rightarrow> hop list" where
  "edge_hops w e =
     (if w = left_entity_id e then [(e, Forward, right_entity_id e)] else []) @
       (if w = right_entity_id e then [(e, Reverse, left_entity_id e)] else [])"

lemma hops_of_fold: "hops_of (fold add_edge es adj) w = hops_of adj w @ concat (map (edge_hops w) es)"
  by (induction es arbitrary: adj) (simp_all add: hops_of_add_edge edge_hops_def)

lemma dict_get_map_values: "dict_get (map (\<lambda>(k, v). (k, f v)) d) k = map_option f (dict_get d k)"
  by (induction d) auto

lemma hops_of_build:
  "hops_of (build_adjacency es) w = sort_key (\<lambda>h. edge_id (fst h)) (concat (map (edge_hops w) es))"
proof -
  have "hops_of (build_adjacency es) w = sort_key (\<lambda>h. edge_id (fst h)) (hops_of (fold add_edge es []) w)"
    unfolding build_adjacency_def hops_of_def dict_get_map_values by (cases "dict_get (fold add_edge es []) w") simp_all
  then show ?thesis by (simp add: hops_of_fold)
qed

lemma in_hops_of_build:
  "(e, d, n) \<in> set (hops_of (build_adjacency es) w) \<longleftrightarrow> e \<in> set es \<and> w = hop_from e d \<and> n = hop_to e d"
  by (cases d) (auto simp: hops_of_build edge_hops_def)

lemma distinct_hops_of_build: "distinct es \<Longrightarrow> distinct (hops_of (build_adjacency es) w)"
  unfolding hops_of_build distinct_sort
proof (induction es)
  case Nil
  then show ?case by simp
next
  case (Cons e es)
  have "distinct (edge_hops w e)" by (simp add: edge_hops_def)
  moreover have "set (edge_hops w e) \<inter> (\<Union>x \<in> set es. set (edge_hops w x)) = {}"
    using Cons.prems by (auto simp: edge_hops_def split: if_splits)
  ultimately show ?case using Cons by simp
qed

lemma dict_get_add_hop: "dict_get (add_hop v h adj) w = None \<longleftrightarrow> dict_get adj w = None \<and> w \<noteq> v"
  by (simp add: add_hop_def)

lemma dict_get_fold_add_edge:
  "dict_get (fold add_edge es adj) w = None \<longleftrightarrow>
     dict_get adj w = None \<and> (\<forall>e \<in> set es. w \<noteq> left_entity_id e \<and> w \<noteq> right_entity_id e)"
  by (induction es arbitrary: adj) (auto simp: add_edge_def dict_get_add_hop)

lemma dict_get_build:
  "dict_get (build_adjacency es) w = None \<longleftrightarrow> (\<forall>e \<in> set es. \<forall>d. w \<noteq> hop_from e d)"
proof -
  have "(\<forall>d. w \<noteq> hop_from e d) \<longleftrightarrow> w \<noteq> left_entity_id e \<and> w \<noteq> right_entity_id e" for e
    by (metis (full_types) direction.exhaust hop_from.simps)
  then show ?thesis unfolding build_adjacency_def dict_get_map_values by (simp add: dict_get_fold_add_edge)
qed

section \<open>The search invariant\<close>

text \<open>
  \<open>H\<close> is the set of hops handled so far, with the node each leaves from; \<open>lo\<close> the distance of the
  node being expanded, and \<open>X\<close> holds that node until all of its hops are handled.
\<close>

type_synonym arc = "string \<times> RelationshipEdge \<times> direction \<times> string"

definition parent_arcs :: "search \<Rightarrow> arc set \<Rightarrow> string \<Rightarrow> nat \<Rightarrow> hop set" where
  "parent_arcs s H v k = {(e, d, u). (u, e, d, v) \<in> H \<and> distances s u = Some k}"

definition counts_ok :: "search \<Rightarrow> arc set \<Rightarrow> bool" where
  "counts_ok s H \<longleftrightarrow>
     (\<forall>v k. distances s v = Some (Suc k) \<longrightarrow>
        (\<exists>ps. parents s v = Some ps \<and> ps \<noteq> [] \<and> distinct ps \<and> set ps = parent_arcs s H v k \<and>
              counts s v = Some (\<Sum>(e, d, u)\<leftarrow>ps. the (counts s u))))"

definition starts_ok :: "string set \<Rightarrow> search \<Rightarrow> bool" where
  "starts_ok S s \<longleftrightarrow> (\<forall>v. distances s v = Some 0 \<longleftrightarrow> v \<in> S) \<and> (\<forall>v \<in> S. counts s v = Some 1)"

definition arcs_ok :: "adjacency \<Rightarrow> nat \<Rightarrow> arc set \<Rightarrow> search \<Rightarrow> bool" where
  "arcs_ok adj lo H s \<longleftrightarrow>
     (\<forall>u e d v. (u, e, d, v) \<in> H \<longrightarrow> (e, d, v) \<in> set (hops_of adj u) \<and> u \<notin> set (queue s) \<and>
        (\<exists>a b. distances s u = Some a \<and> distances s v = Some b \<and> b \<le> Suc a \<and> a \<le> lo))"

definition queue_ok :: "nat \<Rightarrow> search \<Rightarrow> bool" where
  "queue_ok lo s \<longleftrightarrow>
     distinct (queue s) \<and> sorted (map (the \<circ> distances s) (queue s)) \<and>
     (\<forall>v \<in> set (queue s). \<exists>k. distances s v = Some k \<and> lo \<le> k) \<and>
     (\<forall>v k. distances s v = Some k \<longrightarrow> k \<le> Suc lo)"

definition closed_ok :: "adjacency \<Rightarrow> string set \<Rightarrow> arc set \<Rightarrow> search \<Rightarrow> bool" where
  "closed_ok adj X H s \<longleftrightarrow>
     (\<forall>u e d v. distances s u \<noteq> None \<longrightarrow> u \<notin> set (queue s) \<longrightarrow> u \<notin> X \<longrightarrow>
        (e, d, v) \<in> set (hops_of adj u) \<longrightarrow> (u, e, d, v) \<in> H)"

definition search_inv :: "adjacency \<Rightarrow> string set \<Rightarrow> arc set \<Rightarrow> nat \<Rightarrow> string set \<Rightarrow> search \<Rightarrow> bool" where
  "search_inv adj S H lo X s \<longleftrightarrow>
     starts_ok S s \<and> arcs_ok adj lo H s \<and> counts_ok s H \<and> queue_ok lo s \<and> closed_ok adj X H s"

lemma queued_known:
  assumes "search_inv adj S H lo X s" and "distances s v = Some k"
  shows "\<exists>c. counts s v = Some c"
  using assms unfolding search_inv_def starts_ok_def counts_ok_def by (cases k) blast+

text \<open>The three branches of \<open>relax\<close>, for the node \<open>u\<close> being expanded.\<close>

definition expanding :: "adjacency \<Rightarrow> string set \<Rightarrow> arc set \<Rightarrow> nat \<Rightarrow> string set \<Rightarrow> search \<Rightarrow> string \<Rightarrow> nat \<Rightarrow> bool" where
  "expanding adj S H lo X s u c \<longleftrightarrow>
     search_inv adj S H lo X s \<and> distances s u = Some lo \<and> u \<notin> set (queue s) \<and> counts s u = Some c"

lemma expandingD:
  assumes "expanding adj S H lo X s u c"
  shows "starts_ok S s" "arcs_ok adj lo H s" "counts_ok s H" "queue_ok lo s" "closed_ok adj X H s"
    "distances s u = Some lo" "u \<notin> set (queue s)" "counts s u = Some c"
  using assms by (simp_all add: expanding_def search_inv_def)

lemma known_arc: "arcs_ok adj lo H s \<Longrightarrow> (a, f, g, b) \<in> H \<Longrightarrow> distances s a \<noteq> None \<and> distances s b \<noteq> None"
  by (fastforce simp: arcs_ok_def)

lemma low_arc: "arcs_ok adj lo H s \<Longrightarrow> (a, f, g, b) \<in> H \<Longrightarrow> distances s a = Some k \<Longrightarrow> k \<le> lo"
  by (fastforce simp: arcs_ok_def)

lemma counts_okD:
  "counts_ok s H \<Longrightarrow> distances s v = Some (Suc k) \<Longrightarrow>
   \<exists>ps. parents s v = Some ps \<and> ps \<noteq> [] \<and> distinct ps \<and> set ps = parent_arcs s H v k \<and>
        counts s v = Some (\<Sum>(e, d, u)\<leftarrow>ps. the (counts s u))"
  unfolding counts_ok_def by blast

lemma relax_new:
  assumes ex: "expanding adj S H lo X s u c" and arc: "(e, d, n) \<in> set (hops_of adj u)" "(u, e, d, n) \<notin> H"
    and n_dist: "distances s n = None"
  shows "search_inv adj S (insert (u, e, d, n) H) lo X (relax u (e, d, n) s)"
proof -
  note parts = expandingD(1-5) [OF ex] and u = expandingD(6-8) [OF ex]
  let ?s = "relax u (e, d, n) s"
  have s': "distances ?s = (distances s)(n \<mapsto> Suc lo)" "counts ?s = (counts s)(n \<mapsto> c)"
      "parents ?s = (parents s)(n \<mapsto> [(e, d, u)])" "queue ?s = queue s @ [n]"
    using n_dist u by (simp_all add: relax_def)
  have n: "n \<noteq> u" "n \<notin> set (queue s)" using n_dist u parts(4) by (auto simp: queue_ok_def)
  have fresh: "(a, f, g, b) \<in> H \<Longrightarrow> a \<noteq> n \<and> b \<noteq> n" for a f g b using known_arc [OF parts(2)] n_dist by blast
  have "starts_ok S ?s" using parts(1) n_dist unfolding starts_ok_def s' by (metis fun_upd_apply nat.simps(3) option.distinct(1) option.inject)
  moreover have "arcs_ok adj lo (insert (u, e, d, n) H) ?s"
    using parts(2) u arc n fresh unfolding arcs_ok_def s' by fastforce
  moreover have "queue_ok lo ?s"
  proof -
    have "map (the \<circ> (distances s)(n \<mapsto> Suc lo)) (queue s) = map (the \<circ> distances s) (queue s)" using n by auto
    then have "sorted (map (the \<circ> (distances s)(n \<mapsto> Suc lo)) (queue s))"
      using parts(4) unfolding queue_ok_def by (simp only:)
    moreover have "\<forall>v \<in> set (queue s). the (distances s v) \<le> Suc lo"
      using parts(4) unfolding queue_ok_def by fastforce
    ultimately show ?thesis using parts(4) n unfolding queue_ok_def s' by (auto simp: sorted_append)
  qed
  moreover have "closed_ok adj X (insert (u, e, d, n) H) ?s"
    using parts(5) unfolding closed_ok_def s' by auto
  moreover have "counts_ok ?s (insert (u, e, d, n) H)"
    unfolding counts_ok_def
  proof (intro allI impI)
    fix v k assume v: "distances ?s v = Some (Suc k)"
    show "\<exists>ps. parents ?s v = Some ps \<and> ps \<noteq> [] \<and> distinct ps \<and> set ps = parent_arcs ?s (insert (u, e, d, n) H) v k \<and>
              counts ?s v = Some (\<Sum>(e, d, u)\<leftarrow>ps. the (counts ?s u))"
    proof (cases "v = n")
      case True
      then have "k = lo" using v s' by simp
      then have "parent_arcs ?s (insert (u, e, d, n) H) v k = {(e, d, u)}"
        using True u n fresh by (auto simp: parent_arcs_def s')
      then show ?thesis using True u n by (simp add: s')
    next
      case False
      then obtain ps where ps: "parents s v = Some ps" "ps \<noteq> []" "distinct ps" "set ps = parent_arcs s H v k"
          "counts s v = Some (\<Sum>(e, d, u)\<leftarrow>ps. the (counts s u))"
        using counts_okD [OF parts(3), of v k] v s' by auto
      have "parent_arcs ?s (insert (u, e, d, n) H) v k = parent_arcs s H v k"
        using False fresh by (auto simp: parent_arcs_def s')
      moreover have "(\<Sum>(e, d, u)\<leftarrow>ps. the (counts ?s u)) = (\<Sum>(e, d, u)\<leftarrow>ps. the (counts s u))"
        using ps(4) fresh by (intro arg_cong [of _ _ sum_list] map_cong) (auto simp: parent_arcs_def s')
      ultimately show ?thesis using ps False by (simp add: s')
    qed
  qed
  ultimately show ?thesis by (simp add: search_inv_def)
qed

lemma relax_again:
  assumes ex: "expanding adj S H lo X s u c" and arc: "(e, d, n) \<in> set (hops_of adj u)" "(u, e, d, n) \<notin> H"
    and n_dist: "distances s n = Some (Suc lo)"
  shows "search_inv adj S (insert (u, e, d, n) H) lo X (relax u (e, d, n) s)"
proof -
  note parts = expandingD(1-5) [OF ex] and u = expandingD(6-8) [OF ex]
  let ?s = "relax u (e, d, n) s"
  obtain qs where qs: "parents s n = Some qs" "qs \<noteq> []" "distinct qs" "set qs = parent_arcs s H n lo"
      "counts s n = Some (\<Sum>(e, d, u)\<leftarrow>qs. the (counts s u))"
    using counts_okD [OF parts(3) n_dist] by blast
  have s': "distances ?s = distances s" "counts ?s = (counts s)(n \<mapsto> the (counts s n) + c)"
      "parents ?s = (parents s)(n \<mapsto> qs @ [(e, d, u)])" "queue ?s = queue s"
    using n_dist u qs by (simp_all add: relax_def)
  have n: "n \<noteq> u" "n \<notin> S" using n_dist u parts(1) unfolding starts_ok_def by (auto, metis nat.simps(3) option.inject)
  have not_parent: "(n, f, g, b) \<notin> H" for f g b using low_arc [OF parts(2), of n f g b "Suc lo"] n_dist by auto
  have sums: "(\<Sum>(e, d, u)\<leftarrow>ps. the (counts ?s u)) = (\<Sum>(e, d, u)\<leftarrow>ps. the (counts s u))"
    if "set ps \<subseteq> parent_arcs s H v k" for ps v k
    using that not_parent by (intro arg_cong [of _ _ sum_list] map_cong) (auto simp: parent_arcs_def s')
  have "starts_ok S ?s" using parts(1) n by (auto simp: starts_ok_def s')
  moreover have "arcs_ok adj lo (insert (u, e, d, n) H) ?s"
    using parts(2) u arc n_dist unfolding arcs_ok_def s' by fastforce
  moreover have "queue_ok lo ?s" using parts(4) by (simp add: queue_ok_def s')
  moreover have "closed_ok adj X (insert (u, e, d, n) H) ?s" using parts(5) unfolding closed_ok_def s' by auto
  moreover have "counts_ok ?s (insert (u, e, d, n) H)"
    unfolding counts_ok_def
  proof (intro allI impI)
    fix v k assume v: "distances ?s v = Some (Suc k)"
    show "\<exists>ps. parents ?s v = Some ps \<and> ps \<noteq> [] \<and> distinct ps \<and> set ps = parent_arcs ?s (insert (u, e, d, n) H) v k \<and>
              counts ?s v = Some (\<Sum>(e, d, u)\<leftarrow>ps. the (counts ?s u))"
    proof (cases "v = n")
      case True
      then have "k = lo" using v s' n_dist by simp
      then have "parent_arcs ?s (insert (u, e, d, n) H) v k = insert (e, d, u) (set qs)"
        using True u qs(4) by (auto simp: parent_arcs_def s')
      moreover have "(e, d, u) \<notin> set qs" using arc qs(4) by (auto simp: parent_arcs_def)
      moreover have "(\<Sum>(e, d, u)\<leftarrow>qs. the (counts ?s u)) = (\<Sum>(e, d, u)\<leftarrow>qs. the (counts s u))"
        using qs(4) by (intro sums [of _ n lo]) simp
      ultimately show ?thesis using True u n qs by (simp add: s')
    next
      case False
      then obtain ps where ps: "parents s v = Some ps" "ps \<noteq> []" "distinct ps" "set ps = parent_arcs s H v k"
          "counts s v = Some (\<Sum>(e, d, u)\<leftarrow>ps. the (counts s u))"
        using counts_okD [OF parts(3), of v k] v s' by auto
      have "parent_arcs ?s (insert (u, e, d, n) H) v k = parent_arcs s H v k"
        using False by (auto simp: parent_arcs_def s')
      then show ?thesis using ps False sums [of ps v k] by (simp add: s')
    qed
  qed
  ultimately show ?thesis by (simp add: search_inv_def)
qed

lemma relax_other:
  assumes ex: "expanding adj S H lo X s u c" and arc: "(e, d, n) \<in> set (hops_of adj u)" "(u, e, d, n) \<notin> H"
    and n_dist: "distances s n = Some k" "k \<noteq> Suc lo"
  shows "search_inv adj S (insert (u, e, d, n) H) lo X (relax u (e, d, n) s)"
proof -
  note parts = expandingD(1-5) [OF ex] and u = expandingD(6-8) [OF ex]
  have same: "relax u (e, d, n) s = s" using n_dist u by (simp add: relax_def)
  have "k \<le> Suc lo" using parts(4) n_dist(1) by (auto simp: queue_ok_def)
  then have "arcs_ok adj lo (insert (u, e, d, n) H) s"
    using parts(2) u arc n_dist unfolding arcs_ok_def by fastforce
  moreover have "parent_arcs s (insert (u, e, d, n) H) v j = parent_arcs s H v j" if "distances s v = Some (Suc j)" for v j
    using that u n_dist by (auto simp: parent_arcs_def)
  then have "counts_ok s (insert (u, e, d, n) H)" using parts(3) unfolding counts_ok_def by simp
  moreover have "closed_ok adj X (insert (u, e, d, n) H) s" using parts(5) unfolding closed_ok_def by auto
  ultimately show ?thesis using parts same by (simp add: search_inv_def)
qed

lemma relax_inv:
  assumes "expanding adj S H lo X s u c" and "(e, d, n) \<in> set (hops_of adj u)" "(u, e, d, n) \<notin> H"
  shows "expanding adj S (insert (u, e, d, n) H) lo X (relax u (e, d, n) s) u c"
proof -
  have "search_inv adj S (insert (u, e, d, n) H) lo X (relax u (e, d, n) s)"
    using relax_new [OF assms] relax_again [OF assms] relax_other [OF assms] by (metis option.exhaust)
  then show ?thesis
    using expandingD(6-8) [OF assms(1)] by (auto simp: expanding_def relax_def split: option.splits)
qed

lemma expand_inv:
  "expanding adj S H lo X s u c \<Longrightarrow> distinct hs \<Longrightarrow> set hs \<subseteq> set (hops_of adj u) \<Longrightarrow>
   (\<And>h. h \<in> set hs \<Longrightarrow> (u, h) \<notin> H) \<Longrightarrow>
   expanding adj S (H \<union> Pair u ` set hs) lo X (fold (relax u) hs s) u c"
proof (induction hs arbitrary: s H)
  case Nil
  then show ?case by simp
next
  case (Cons h hs)
  obtain e d n where h: "h = (e, d, n)" by (cases h) auto
  then have "expanding adj S (insert (u, e, d, n) H) lo X (relax u h s) u c"
    using relax_inv [OF Cons.prems(1), of e d n] Cons.prems(3,4) by simp
  from Cons.IH [OF this] Cons.prems h show ?case by (auto simp: insert_commute)
qed

lemma pop_inv:
  assumes inv: "search_inv adj S H lo {} s" and q: "queue s = u # rest"
  shows "\<exists>lo' c. expanding adj S H lo' {u} (s\<lparr>queue := rest\<rparr>) u c \<and> (\<forall>h. (u, h) \<notin> H)"
proof -
  have parts: "starts_ok S s" "arcs_ok adj lo H s" "counts_ok s H" "queue_ok lo s" "closed_ok adj {} H s"
    using inv by (simp_all add: search_inv_def)
  obtain lo' where lo': "distances s u = Some lo'" "lo \<le> lo'" using parts(4) q by (auto simp: queue_ok_def)
  obtain c where c: "counts s u = Some c" using queued_known [OF inv lo'(1)] by blast
  let ?s = "s\<lparr>queue := rest\<rparr>"
  have "starts_ok S ?s" using parts(1) by (simp add: starts_ok_def)
  moreover have "arcs_ok adj lo' H ?s"
    using parts(2) lo' q unfolding arcs_ok_def by (fastforce intro: order_trans)
  moreover have "counts_ok ?s H" using parts(3) by (simp add: counts_ok_def parent_arcs_def)
  moreover have "queue_ok lo' ?s"
  proof -
    have "\<forall>v \<in> set rest. \<exists>k. distances s v = Some k \<and> lo' \<le> k"
      using parts(4) q lo' unfolding queue_ok_def by fastforce
    moreover have "\<forall>v k. distances s v = Some k \<longrightarrow> k \<le> Suc lo'"
      using parts(4) lo'(2) unfolding queue_ok_def by (meson Suc_le_mono order_trans)
    ultimately show ?thesis using parts(4) q by (simp add: queue_ok_def)
  qed
  moreover have "closed_ok adj {u} H ?s" using parts(5) q by (auto simp: closed_ok_def)
  moreover have "u \<notin> set rest" using parts(4) q by (simp add: queue_ok_def)
  moreover have "\<forall>h. (u, h) \<notin> H" using parts(2) q by (auto simp: arcs_ok_def)
  ultimately show ?thesis using lo' c by (auto simp: expanding_def search_inv_def)
qed

lemma search_loop_inv:
  "search_inv adj S H lo {} s \<Longrightarrow> (\<And>u. distinct (hops_of adj u)) \<Longrightarrow>
   \<exists>H' lo'. search_inv adj S H' lo' {} (search_loop adj s) \<and> queue (search_loop adj s) = []"
proof (induction adj s arbitrary: H lo rule: search_loop.induct)
  case (1 adj s)
  show ?case
  proof (cases "queue s")
    case Nil
    then show ?thesis using "1.prems" by (subst (1 2) search_loop.simps) auto
  next
    case (Cons u rest)
    let ?t = "fold (relax u) (hops_of adj u) (s\<lparr>queue := rest\<rparr>)"
    obtain lo' c where ex: "expanding adj S H lo' {u} (s\<lparr>queue := rest\<rparr>) u c" "\<forall>h. (u, h) \<notin> H"
      using pop_inv [OF "1.prems"(1) Cons] by blast
    then have "expanding adj S (H \<union> Pair u ` set (hops_of adj u)) lo' {u} ?t u c"
      by (intro expand_inv) (auto simp: "1.prems"(2))
    then have "search_inv adj S (H \<union> Pair u ` set (hops_of adj u)) lo' {} ?t"
      by (auto simp: expanding_def search_inv_def closed_ok_def)
    from "1.IH" [OF Cons this "1.prems"(2)] show ?thesis
      using Cons by (subst (1 2) search_loop.simps) simp
  qed
qed

lemma start_state_inv:
  "distinct starts \<Longrightarrow>
   search_inv adj (set (filter (\<lambda>v. dict_get adj v \<noteq> None) starts)) {} 0 {} (start_state adj starts)"
proof -
  assume d: "distinct starts"
  let ?qs = "filter (\<lambda>v. dict_get adj v \<noteq> None) starts" and ?s = "start_state adj starts"
  have s: "distances ?s = (\<lambda>v. if v \<in> set ?qs then Some 0 else None)"
      "counts ?s = (\<lambda>v. if v \<in> set ?qs then Some 1 else None)" "queue ?s = ?qs"
    by (simp_all add: start_state_def)
  have "map (the \<circ> distances ?s) ?qs = replicate (length ?qs) 0"
    unfolding s by (rule map_replicate_const [THEN trans [rotated]]) (auto intro: map_cong)
  then have "queue_ok 0 ?s" using d unfolding queue_ok_def s(3) by (auto simp: s)
  moreover have "starts_ok (set ?qs) ?s" "arcs_ok adj 0 {} ?s" "counts_ok ?s {}" "closed_ok adj {} {} ?s"
    by (auto simp: starts_ok_def arcs_ok_def counts_ok_def closed_ok_def s split: if_splits)
  ultimately show ?thesis by (simp add: search_inv_def)
qed

section \<open>The finished search\<close>

definition finished :: "RelationshipEdge list \<Rightarrow> string set \<Rightarrow> search \<Rightarrow> bool" where
  "finished es starts s \<longleftrightarrow>
     (\<forall>v. distances s v = Some 0 \<longleftrightarrow> v \<in> starts \<and> dict_get (build_adjacency es) v \<noteq> None) \<and>
     (\<forall>v. distances s v = Some 0 \<longrightarrow> counts s v = Some 1) \<and>
     (\<forall>e d a. e \<in> set es \<longrightarrow> distances s (hop_from e d) = Some a \<longrightarrow>
        (\<exists>b. distances s (hop_to e d) = Some b \<and> b \<le> Suc a)) \<and>
     (\<forall>v k. distances s v = Some (Suc k) \<longrightarrow>
        (\<exists>ps. parents s v = Some ps \<and> ps \<noteq> [] \<and> distinct ps \<and>
           set ps = {(e, d, u). e \<in> set es \<and> u = hop_from e d \<and> v = hop_to e d \<and> distances s u = Some k} \<and>
           counts s v = Some (\<Sum>(e, d, u)\<leftarrow>ps. the (counts s u))))"

lemma search_finished:
  assumes "distinct es" "distinct starts"
  shows "finished es (set starts) (search_loop (build_adjacency es) (start_state (build_adjacency es) starts))"
proof -
  let ?adj = "build_adjacency es" and ?s = "search_loop (build_adjacency es) (start_state (build_adjacency es) starts)"
  obtain H lo where inv: "search_inv ?adj (set (filter (\<lambda>v. dict_get ?adj v \<noteq> None) starts)) H lo {} ?s"
      and q: "queue ?s = []"
    using search_loop_inv [OF start_state_inv [OF assms(2)]] distinct_hops_of_build [OF assms(1)] by blast
  have H: "(u, e, d, v) \<in> H \<longleftrightarrow> e \<in> set es \<and> u = hop_from e d \<and> v = hop_to e d \<and> distances ?s u \<noteq> None" for u e d v
    using inv q unfolding search_inv_def arcs_ok_def closed_ok_def in_hops_of_build by fastforce
  have arcs: "\<exists>b. distances ?s (hop_to e d) = Some b \<and> b \<le> Suc a"
    if "e \<in> set es" "distances ?s (hop_from e d) = Some a" for e d a
    using that H [of "hop_from e d" e d "hop_to e d"] inv unfolding search_inv_def arcs_ok_def by force
  have "parent_arcs ?s H v k = {(e, d, u). e \<in> set es \<and> u = hop_from e d \<and> v = hop_to e d \<and> distances ?s u = Some k}" for v k
    by (auto simp: parent_arcs_def H)
  with inv arcs show ?thesis by (simp add: finished_def search_inv_def starts_ok_def counts_ok_def)
qed

lemma finishedD:
  assumes "finished es starts s"
  shows "distances s v = Some 0 \<longleftrightarrow> v \<in> starts \<and> dict_get (build_adjacency es) v \<noteq> None"
    and "distances s v = Some 0 \<Longrightarrow> counts s v = Some 1"
    and "e \<in> set es \<Longrightarrow> distances s (hop_from e d) = Some a \<Longrightarrow> \<exists>b. distances s (hop_to e d) = Some b \<and> b \<le> Suc a"
    and "distances s v = Some (Suc k) \<Longrightarrow>
       \<exists>ps. parents s v = Some ps \<and> ps \<noteq> [] \<and> distinct ps \<and>
         set ps = {(e, d, u). e \<in> set es \<and> u = hop_from e d \<and> v = hop_to e d \<and> distances s u = Some k} \<and>
         counts s v = Some (\<Sum>(e, d, u)\<leftarrow>ps. the (counts s u))"
  using assms unfolding finished_def by blast+

lemma hop_to_from: "\<exists>d'. hop_to e d = hop_from e d'"
  by (cases d) (metis hop_to.simps hop_from.simps)+

lemma hop_ends_known: "e \<in> set es \<Longrightarrow> dict_get (build_adjacency es) (hop_from e d) \<noteq> None \<and> dict_get (build_adjacency es) (hop_to e d) \<noteq> None"
  using hop_to_from [of e d] dict_get_build by metis

lemma walk_reached:
  assumes fin: "finished es starts s" and "walk (set es) starts p v" and "dict_get (build_adjacency es) v \<noteq> None"
  shows "\<exists>k. distances s v = Some k \<and> k \<le> length p"
  using assms(2,3)
proof (induction rule: walk.induct)
  case (walk_start v)
  then show ?case using finishedD(1) [OF fin] by auto
next
  case (walk_hop p e d)
  then obtain k where "distances s (hop_from e d) = Some k" "k \<le> length p" using hop_ends_known by blast
  with finishedD(3) [OF fin walk_hop.hyps(2)] show ?case by fastforce
qed

lemma distance_known:
  assumes fin: "finished es starts s" and "distances s v = Some k"
  shows "dict_get (build_adjacency es) v \<noteq> None"
proof (cases k)
  case 0
  then show ?thesis using finishedD(1) [OF fin] assms(2) by blast
next
  case (Suc j)
  with assms(2) obtain ps where ps: "ps \<noteq> []"
      "set ps = {(e, d, u). e \<in> set es \<and> u = hop_from e d \<and> v = hop_to e d \<and> distances s u = Some j}"
    using finishedD(4) [OF fin, of v j] by blast
  then obtain e d where "e \<in> set es" "v = hop_to e d" by (cases ps) auto
  then show ?thesis using hop_ends_known by blast
qed

lemma card_walks_Suc:
  assumes "finite es"
  shows "card (walks es starts v (Suc n)) = (\<Sum>(e, d) \<in> {(e, d). e \<in> es \<and> hop_to e d = v}. card (walks es starts (hop_from e d) n))"
proof -
  let ?I = "{(e, d). e \<in> es \<and> hop_to e d = v}"
  have "card (walks es starts v (Suc n)) =
      (\<Sum>h \<in> ?I. card ((\<lambda>p. p @ [h]) ` walks es starts (hop_from (fst h) (snd h)) n))"
    unfolding walks_Suc case_prod_beta' using assms finite_hops [of es v]
    by (subst card_UN_disjoint) (auto simp: case_prod_beta')
  also have "\<dots> = (\<Sum>h \<in> ?I. card (walks es starts (hop_from (fst h) (snd h)) n))"
    by (intro sum.cong refl card_image) (simp add: inj_on_def)
  finally show ?thesis by (simp add: case_prod_beta')
qed

lemma count_walks:
  assumes fin: "finished es starts s"
  shows "distances s v = Some k \<Longrightarrow>
    counts s v = Some (card (walks (set es) starts v k)) \<and> walks (set es) starts v k \<noteq> {}"
proof (induction k arbitrary: v)
  case 0
  then show ?case using finishedD(1,2) [OF fin, of v] by (simp add: walks_0)
next
  case (Suc k)
  let ?A = "{(e, d, u). e \<in> set es \<and> u = hop_from e d \<and> v = hop_to e d \<and> distances s u = Some k}"
  let ?I = "{(e, d). e \<in> set es \<and> hop_to e d = v}"
  obtain ps where ps: "ps \<noteq> []" "distinct ps" "set ps = ?A" "counts s v = Some (\<Sum>(e, d, u)\<leftarrow>ps. the (counts s u))"
    using finishedD(4) [OF fin Suc.prems] by blast
  have off: "walks (set es) starts (hop_from e d) k = {}" if arc: "(e, d) \<in> ?I" "distances s (hop_from e d) \<noteq> Some k" for e d
  proof (rule ccontr)
    assume "walks (set es) starts (hop_from e d) k \<noteq> {}"
    then obtain p where "walk (set es) starts p (hop_from e d)" "length p = k" by (auto simp: walks_def)
    then obtain j where j: "distances s (hop_from e d) = Some j" "j \<le> k"
      using walk_reached [OF fin] hop_ends_known [of e es d] arc(1) by blast
    then have "k \<le> j" using finishedD(3) [OF fin, of e d j] arc(1) Suc.prems by auto
    with j arc(2) show False by simp
  qed
  have "(\<Sum>(e, d, u)\<leftarrow>ps. the (counts s u)) = (\<Sum>(e, d, u) \<in> ?A. the (counts s u))"
    using ps(2,3) by (simp add: sum_list_distinct_conv_sum_set)
  also have "\<dots> = (\<Sum>(e, d, u) \<in> ?A. card (walks (set es) starts u k))"
    using Suc.IH by (intro sum.cong) auto
  also have "\<dots> = (\<Sum>(e, d) \<in> {(e, d) \<in> ?I. distances s (hop_from e d) = Some k}. card (walks (set es) starts (hop_from e d) k))"
    by (rule sum.reindex_bij_witness [where i = "\<lambda>(e, d). (e, d, hop_from e d)" and j = "\<lambda>(e, d, u). (e, d)"]) auto
  also have "\<dots> = (\<Sum>(e, d) \<in> ?I. card (walks (set es) starts (hop_from e d) k))"
    using finite_hops [of "set es" v] off by (intro sum.mono_neutral_left) (auto, metis card.empty less_irrefl)
  also have "\<dots> = card (walks (set es) starts v (Suc k))" by (simp add: card_walks_Suc)
  finally have "counts s v = Some (card (walks (set es) starts v (Suc k)))" using ps(4) by simp
  moreover obtain e d u where "(e, d, u) \<in> ?A" using ps(1,3) by (cases ps) auto
  then have "walks (set es) starts v (Suc k) \<noteq> {}"
    using Suc.IH [of u] unfolding walks_Suc by blast
  ultimately show ?case by blast
qed

lemma rebuild_walk:
  assumes fin: "finished es (set starts) s"
  shows "distances s v = Some k \<Longrightarrow> counts s v = Some 1 \<Longrightarrow>
    \<exists>p. rebuild (parents s) starts v q = Some (p @ q) \<and> p \<in> walks (set es) (set starts) v k"
proof (induction k arbitrary: v q)
  case 0
  then show ?case using finishedD(1) [OF fin, of v] by (subst rebuild.simps) (simp add: walks_0)
next
  case (Suc k)
  obtain ps where ps: "parents s v = Some ps" "ps \<noteq> []"
      "set ps = {(e, d, u). e \<in> set es \<and> u = hop_from e d \<and> v = hop_to e d \<and> distances s u = Some k}"
      "counts s v = Some (\<Sum>(e, d, u)\<leftarrow>ps. the (counts s u))"
    using finishedD(4) [OF fin Suc.prems(1)] by blast
  then obtain e d u rest where p: "ps = (e, d, u) # rest" by (cases ps) auto
  then have "(e, d, u) \<in> set ps" by simp
  then have u: "e \<in> set es" "u = hop_from e d" "v = hop_to e d" "distances s u = Some k" unfolding ps(3) by auto
  have "counts s u = Some (card (walks (set es) (set starts) u k))" "walks (set es) (set starts) u k \<noteq> {}"
    using count_walks [OF fin u(4)] by blast+
  moreover have "the (counts s u) \<le> 1" using ps(4) p Suc.prems(2) by simp
  ultimately have "counts s u = Some 1" by (simp add: card_gt_0_iff le_Suc_eq)
  from Suc.IH [OF u(4) this, of "(e, d) # q"] obtain p' where
    p': "rebuild (parents s) starts u ((e, d) # q) = Some (p' @ (e, d) # q)" "p' \<in> walks (set es) (set starts) u k" by blast
  have "v \<notin> set starts"
    using finishedD(1) [OF fin, of v] distance_known [OF fin Suc.prems(1)] Suc.prems(1) by auto
  then have "rebuild (parents s) starts v q = Some ((p' @ [(e, d)]) @ q)"
    using ps(1) p p'(1) by (subst rebuild.simps) simp
  moreover have "p' @ [(e, d)] \<in> walks (set es) (set starts) v (Suc k)"
    using p'(2) u by (auto simp: walks_def intro: walk_hop)
  ultimately show ?case by blast
qed

text \<open>What a path result says about the walks of the graph.\<close>

fun path_spec :: "RelationshipEdge set \<Rightarrow> string set \<Rightarrow> string \<Rightarrow> path_result \<Rightarrow> bool" where
  "path_spec es starts v (Path p) \<longleftrightarrow>
     walks es starts v (length p) = {p} \<and> (\<forall>n < length p. walks es starts v n = {})"
| "path_spec es starts v Ambiguous \<longleftrightarrow>
     (\<exists>n. (\<exists>p \<in> walks es starts v n. \<exists>q \<in> walks es starts v n. p \<noteq> q) \<and> (\<forall>m < n. walks es starts v m = {}))"
| "path_spec es starts v NoPath \<longleftrightarrow> (\<forall>n. walks es starts v n = {})"

lemma distance_least:
  assumes "finished es starts s" "distances s v = Some k" "n < k"
  shows "walks (set es) starts v n = {}"
  using walk_reached [OF assms(1)] distance_known [OF assms(1,2)] assms(2,3) by (fastforce simp: walks_def)

lemma walk_end_known: "walk (set es) starts p v \<Longrightarrow> v \<in> starts \<or> dict_get (build_adjacency es) v \<noteq> None"
  by (induction rule: walk.induct) (auto simp: hop_ends_known)

lemma path_specI:
  assumes es: "distinct es" and starts: "distinct starts"
  shows "\<exists>r. shortest_path (build_adjacency es) starts goal = Some r \<and> path_spec (set es) (set starts) goal r"
proof -
  let ?adj = "build_adjacency es" and ?S = "set starts"
  let ?s = "search_loop ?adj (start_state ?adj starts)"
  have fin: "finished es ?S ?s" by (rule search_finished [OF es starts])
  consider "goal \<in> ?S" | "goal \<notin> ?S" "dict_get ?adj goal = None"
    | "goal \<notin> ?S" "dict_get ?adj goal \<noteq> None" "distances ?s goal = None"
    | k where "goal \<notin> ?S" "dict_get ?adj goal \<noteq> None" "distances ?s goal = Some k" by blast
  then show ?thesis
  proof cases
    case 1
    then show ?thesis by (simp add: shortest_path_def walks_0)
  next
    case 2
    then show ?thesis using walk_end_known [of es ?S _ goal] by (auto simp: shortest_path_def walks_def)
  next
    case 3
    then show ?thesis using walk_reached [OF fin, of _ goal] by (auto simp: shortest_path_def walks_def)
  next
    case 4
    note least = distance_least [OF fin 4(3)] and count = count_walks [OF fin 4(3)]
    show ?thesis
    proof (cases "1 < the (counts ?s goal)")
      case True
      then have "\<exists>p \<in> walks (set es) ?S goal k. \<exists>q \<in> walks (set es) ?S goal k. p \<noteq> q"
        using count card_le_Suc0_iff_eq [of "walks (set es) ?S goal k"] by fastforce
      then show ?thesis using 4 True least by (auto simp: shortest_path_def)
    next
      case False
      then have one: "counts ?s goal = Some 1" "card (walks (set es) ?S goal k) = 1"
        using count by (auto simp: card_gt_0_iff le_Suc_eq not_less)
      from rebuild_walk [OF fin 4(3) one(1), of "[]"] obtain p where
        p: "rebuild (parents ?s) starts goal [] = Some p" "p \<in> walks (set es) ?S goal k" by auto
      then have "walks (set es) ?S goal k = {p}" using one(2) by (metis card_1_singletonE singletonD)
      moreover have "length p = k" using p(2) by (simp add: walks_def)
      ultimately show ?thesis using 4 False p(1) least by (auto simp: shortest_path_def)
    qed
  qed
qed

lemma least_unique:
  fixes n n' :: nat
  shows "P n \<Longrightarrow> \<forall>m < n. \<not> P m \<Longrightarrow> P n' \<Longrightarrow> \<forall>m < n'. \<not> P m \<Longrightarrow> n = n'"
  by (metis linorder_neqE_nat)

lemma path_spec_unique:
  assumes "path_spec es starts v r" "path_spec es starts v r'"
  shows "r = r'"
proof -
  have same: "n = n'" if "walks es starts v n \<noteq> {}" "\<forall>m < n. walks es starts v m = {}"
      "walks es starts v n' \<noteq> {}" "\<forall>m < n'. walks es starts v m = {}" for n n'
    using that least_unique [of "\<lambda>n. walks es starts v n \<noteq> {}"] by blast
  have no: "\<not> (path_spec es starts v (Path p) \<and> path_spec es starts v Ambiguous)" for p
  proof
    assume both: "path_spec es starts v (Path p) \<and> path_spec es starts v Ambiguous"
    then obtain n p1 p2 where n: "p1 \<in> walks es starts v n" "p2 \<in> walks es starts v n" "p1 \<noteq> p2"
        "\<forall>m < n. walks es starts v m = {}" by auto
    then have "length p = n" using both same [of "length p" n] by auto
    with both n show False by auto
  qed
  show ?thesis
  proof (cases r; cases r')
    fix p p' assume "r = Path p" "r' = Path p'"
    then have w: "walks es starts v (length p) = {p}" "\<forall>m < length p. walks es starts v m = {}"
        "walks es starts v (length p') = {p'}" "\<forall>m < length p'. walks es starts v m = {}"
      using assms by simp_all
    have "length p = length p'" by (rule same [OF _ w(2) _ w(4)]) (simp_all add: w(1,3))
    with w(1,3) have "p = p'" by (metis singleton_inject)
    then show ?thesis using \<open>r = Path p\<close> \<open>r' = Path p'\<close> by simp
  qed (use assms no in auto)
qed

section \<open>Shortest walks are fresh paths\<close>

definition shortest :: "RelationshipEdge set \<Rightarrow> string set \<Rightarrow> (RelationshipEdge \<times> direction) list \<Rightarrow> string \<Rightarrow> bool" where
  "shortest es starts p v \<longleftrightarrow> walk es starts p v \<and> (\<forall>q. walk es starts q v \<longrightarrow> length p \<le> length q)"

abbreviation hop_targets :: "(RelationshipEdge \<times> direction) list \<Rightarrow> string set" where
  "hop_targets p \<equiv> (\<lambda>(e, d). hop_to e d) ` set p"

fun fresh_path :: "string set \<Rightarrow> (RelationshipEdge \<times> direction) list \<Rightarrow> bool" where
  "fresh_path seen [] \<longleftrightarrow> True"
| "fresh_path seen ((e, d) # p) \<longleftrightarrow>
     hop_from e d \<in> seen \<and> hop_to e d \<notin> seen \<and> fresh_path (insert (hop_to e d) seen) p"

lemma fresh_path_snoc:
  "fresh_path seen (p @ [(e, d)]) \<longleftrightarrow>
     fresh_path seen p \<and> hop_from e d \<in> seen \<union> hop_targets p \<and> hop_to e d \<notin> seen \<union> hop_targets p"
  by (induction seen p rule: fresh_path.induct) auto

lemma walk_visits: "walk es starts p v \<Longrightarrow> x \<in> hop_targets p \<Longrightarrow> \<exists>q. walk es starts q x \<and> length q \<le> length p"
proof (induction rule: walk.induct)
  case (walk_start v)
  then show ?case by simp
next
  case (walk_hop p e d)
  show ?case
  proof (cases "x = hop_to e d")
    case True
    then show ?thesis using walk.walk_hop [OF walk_hop.hyps] by blast
  next
    case False
    then have "x \<in> hop_targets p" using walk_hop.prems by auto
    with walk_hop.IH show ?thesis by fastforce
  qed
qed

lemma walk_ends: "walk es starts p v \<Longrightarrow> v \<in> starts \<union> hop_targets p \<and> fst ` set p \<subseteq> es"
  by (induction rule: walk.induct) auto

lemma shortest_fresh: "shortest es starts p v \<Longrightarrow> fresh_path starts p"
proof (induction p arbitrary: v rule: rev_induct)
  case Nil
  then show ?case by simp
next
  case (snoc h p)
  obtain e d where h: "h = (e, d)" by (cases h)
  have w: "walk es starts p (hop_from e d)" "e \<in> es" "v = hop_to e d"
    using snoc.prems h unfolding shortest_def by (auto elim: walk_snocE)
  have "length p \<le> length q" if "walk es starts q (hop_from e d)" for q
    using walk_hop [OF that w(2)] snoc.prems w(3) unfolding shortest_def by fastforce
  then have "shortest es starts p (hop_from e d)" using w(1) by (simp add: shortest_def)
  then have "fresh_path starts p" by (rule snoc.IH)
  moreover have "hop_from e d \<in> starts \<union> hop_targets p" using walk_ends [OF w(1)] by blast
  moreover have "hop_to e d \<notin> starts \<union> hop_targets p"
  proof
    assume "hop_to e d \<in> starts \<union> hop_targets p"
    then have "\<exists>q. walk es starts q (hop_to e d) \<and> length q \<le> length p"
    proof
      assume "hop_to e d \<in> starts"
      then have "walk es starts [] (hop_to e d)" by (rule walk_start)
      then show ?thesis by (intro exI [of _ "[]"]) simp
    qed (rule walk_visits [OF w(1)])
    then show False using snoc.prems w(3) unfolding shortest_def by fastforce
  qed
  ultimately show ?case using h fresh_path_snoc by blast
qed

lemma path_spec_shortest: "path_spec es starts v (Path p) \<Longrightarrow> shortest es starts p v"
proof -
  assume spec: "path_spec es starts v (Path p)"
  then have w: "walks es starts v (length p) = {p}" "\<forall>n < length p. walks es starts v n = {}"
    unfolding path_spec.simps by blast+
  have "p \<in> walks es starts v (length p)" by (subst w(1)) (rule singletonI)
  moreover have "length p \<le> length q" if "walk es starts q v" for q
  proof (rule ccontr)
    assume "\<not> length p \<le> length q"
    then have "walks es starts v (length q) = {}" using w(2) by (simp only: not_le)
    with that show False by (auto simp: walks_def)
  qed
  ultimately show ?thesis by (simp add: shortest_def walks_def)
qed

section \<open>Join trees\<close>

text \<open>
  What the compiler relies on when it emits the joins: every step starts at an entity that is already
  introduced and introduces a new one.
\<close>

fun join_tree :: "string set \<Rightarrow> JoinStep list \<Rightarrow> bool" where
  "join_tree seen [] \<longleftrightarrow> True"
| "join_tree seen (s # ss) \<longleftrightarrow>
     step_left_entity s \<in> seen \<and> step_right_entity s \<notin> seen \<and> join_tree (insert (step_right_entity s) seen) ss"

definition step_of_edge :: "RelationshipEdge list \<Rightarrow> JoinStep \<Rightarrow> bool" where
  "step_of_edge es s \<longleftrightarrow> (\<exists>e \<in> set es. \<exists>d. make_step e d = Inr s)"

lemma join_tree_append:
  "join_tree seen (a @ b) \<longleftrightarrow> join_tree seen a \<and> join_tree (seen \<union> step_right_entity ` set a) b"
  by (induction a arbitrary: seen) auto

lemma make_step_ok:
  "make_step e d = Inr s \<Longrightarrow>
   step_left_entity s = hop_from e d \<and> step_right_entity s = hop_to e d \<and> step_relationship_id s = relationship_id e"
  by (cases d) (auto simp: make_step_def new_JoinStep_def split: if_splits)

definition used_ok :: "RelationshipEdge list \<Rightarrow> join_state \<Rightarrow> bool" where
  "used_ok es st \<longleftrightarrow>
     (\<forall>e \<in> set es. edge_id e |\<in>| js_used st \<longrightarrow> left_entity_id e |\<in>| js_visited st \<and> right_entity_id e |\<in>| js_visited st)"

definition tree_inv :: "RelationshipEdge list \<Rightarrow> string \<Rightarrow> join_state \<Rightarrow> bool" where
  "tree_inv es start st \<longleftrightarrow>
     join_tree {start} (js_steps st) \<and> fset (js_visited st) = insert start (step_right_entity ` set (js_steps st)) \<and>
     (\<forall>s \<in> set (js_steps st). step_of_edge es s) \<and> used_ok es st"

lemma hop_ends: "{left_entity_id e, right_entity_id e} = {hop_from e d, hop_to e d}"
  by (cases d) auto

lemma add_steps_tree:
  assumes "distinct (map edge_id es)"
  shows "tree_inv es start st \<Longrightarrow> fresh_path (fset (js_visited st)) path \<Longrightarrow> fst ` set path \<subseteq> set es \<Longrightarrow>
    add_steps path st = Inr st' \<Longrightarrow>
    tree_inv es start st' \<and> fset (js_visited st') = fset (js_visited st) \<union> hop_targets path"
proof (induction path arbitrary: st)
  case Nil
  then show ?case by simp
next
  case (Cons h path)
  obtain e d where h: "h = (e, d)" by (cases h)
  have fresh: "hop_from e d |\<in>| js_visited st" "hop_to e d |\<notin>| js_visited st" "e \<in> set es"
    using Cons.prems(2,3) h by auto
  then have "edge_id e |\<notin>| js_used st"
    using Cons.prems(1) hop_ends [of e d] unfolding tree_inv_def used_ok_def by (metis empty_iff insert_iff)
  then obtain step where step: "make_step e d = Inr step"
      and rest: "add_steps path \<lparr>js_steps = js_steps st @ [step],
        js_visited = finsert (right_entity_id e) (finsert (left_entity_id e) (js_visited st)),
        js_used = finsert (edge_id e) (js_used st)\<rparr> = Inr st'" (is "add_steps path ?st = _")
    using Cons.prems(4) h by (auto simp: bind_res_Inr_iff)
  have seen: "fset (js_visited ?st) = insert (hop_to e d) (fset (js_visited st))"
    using fresh(1) by (cases d) auto
  note ends = make_step_ok [OF step]
  have "used_ok es ?st"
    unfolding used_ok_def
  proof (intro ballI impI)
    fix f assume f: "f \<in> set es" "edge_id f |\<in>| js_used ?st"
    show "left_entity_id f |\<in>| js_visited ?st \<and> right_entity_id f |\<in>| js_visited ?st"
    proof (cases "edge_id f = edge_id e")
      case True
      then have "f = e" using assms f(1) fresh(3) by (metis distinct_map inj_onD)
      then show ?thesis by simp
    next
      case False
      then show ?thesis using f Cons.prems(1) by (auto simp: tree_inv_def used_ok_def)
    qed
  qed
  moreover have "join_tree {start} (js_steps st @ [step])"
    using Cons.prems(1) ends fresh by (auto simp: tree_inv_def join_tree_append)
  moreover have "step_of_edge es step" using step fresh(3) by (auto simp: step_of_edge_def)
  ultimately have "tree_inv es start ?st" using Cons.prems(1) seen ends by (auto simp: tree_inv_def)
  moreover have "fresh_path (fset (js_visited ?st)) path" using Cons.prems(2) h seen by simp
  ultimately show ?case using Cons.IH [OF _ _ _ rest] Cons.prems(3) seen h by auto
qed

abbreviation iterates :: "(string fset \<Rightarrow> string list) \<Rightarrow> bool" where
  "iterates set_order \<equiv> (\<forall>X. distinct (set_order X) \<and> set (set_order X) = fset X)"

lemma connect_targets_tree:
  assumes ids: "distinct (map edge_id es)" and ord: "iterates set_order"
  shows "tree_inv es start st \<Longrightarrow> connect_targets set_order (build_adjacency es) targets st = Some (Inr (Inr st')) \<Longrightarrow>
    tree_inv es start st' \<and> fset (js_visited st) \<union> set targets \<subseteq> fset (js_visited st')"
proof (induction targets arbitrary: st)
  case Nil
  then show ?case by simp
next
  case (Cons t ts)
  show ?case
  proof (cases "t |\<in>| js_visited st")
    case True
    then show ?thesis using Cons by auto
  next
    case False
    then obtain path st1 where path: "shortest_path (build_adjacency es) (set_order (js_visited st)) t = Some (Path path)"
        "add_steps path st = Inr st1" "connect_targets set_order (build_adjacency es) ts st1 = Some (Inr (Inr st'))"
      using Cons.prems(2) by (auto split: option.splits path_result.splits sum.splits)
    have "distinct es" using ids distinct_map by blast
    then have "shortest (set es) (fset (js_visited st)) path t"
      using path_specI [of es "set_order (js_visited st)" t] ord path(1) path_spec_shortest by fastforce
    then have fresh: "fresh_path (fset (js_visited st)) path" "fst ` set path \<subseteq> set es"
        "t \<in> fset (js_visited st) \<union> hop_targets path"
      using shortest_fresh walk_ends unfolding shortest_def by blast+
    from add_steps_tree [OF ids Cons.prems(1) fresh(1,2) path(2)] Cons.IH [OF _ path(3)] fresh(3)
    show ?thesis by auto
  qed
qed

section \<open>Returning\<close>

lemma identifier_ok_prefix:
  assumes "identifier_ok pre" "identifier_ok s"
  shows "identifier_ok (pre @ s) \<longleftrightarrow> length pre + length s \<le> 128"
  using assms by (cases pre; cases s) (auto simp: identifier_ok_def list_all_iff)

lemma plan_prefix_ok: "identifier_ok ''plan-''" "identifier_ok ''step-''"
  by (simp_all add: identifier_ok_def char_class_defs)

lemma make_step_raises:
  assumes "edge_valid e" "make_step e d = Inl x"
  shows "x = ValidationError \<and> 123 < length (edge_id e)"
  using assms identifier_ok_prefix [OF plan_prefix_ok(2), of "edge_id e"]
  by (cases d) (auto simp: make_step_def new_JoinStep_def edge_valid_def split: if_splits)

lemma add_steps_raises:
  "list_all edge_valid es \<Longrightarrow> fst ` set path \<subseteq> set es \<Longrightarrow> add_steps path st = Inl x \<Longrightarrow>
   x = ValidationError \<and> (\<exists>e \<in> set es. 123 < length (edge_id e))"
proof (induction path st rule: add_steps.induct)
  case (1 st)
  then show ?case by simp
next
  case (2 e d path st)
  show ?case
  proof (cases "edge_id e |\<in>| js_used st")
    case True
    then show ?thesis using 2 by simp
  next
    case False
    then show ?thesis
    proof (cases "make_step e d")
      case (Inl y)
      then show ?thesis using 2(3-5) False make_step_raises [of e d y] by (auto simp: list_all_iff)
    next
      case (Inr step)
      then show ?thesis using 2(2) [OF False] 2(3-5) False by simp
    qed
  qed
qed

fun early_result :: "RelationshipEdge list \<Rightarrow> (JoinPlannerOutcome + join_state) res \<Rightarrow> bool" where
  "early_result es (Inl x) \<longleftrightarrow> x = ValidationError \<and> (\<exists>e \<in> set es. 123 < length (edge_id e))"
| "early_result es (Inr (Inl outcome)) \<longleftrightarrow> outcome_plan outcome = None \<and> outcome_kind outcome \<in> {NOT_FOUND, AMBIGUOUS}"
| "early_result es (Inr (Inr st)) \<longleftrightarrow> True"

lemma connect_targets_returns:
  assumes es: "list_all edge_valid es" "distinct es" and ord: "iterates set_order"
  shows "\<exists>r. connect_targets set_order (build_adjacency es) targets st = Some r \<and> early_result es r"
proof (induction targets arbitrary: st)
  case Nil
  then show ?case by simp
next
  case (Cons t ts)
  obtain r where r: "shortest_path (build_adjacency es) (set_order (js_visited st)) t = Some r"
      "path_spec (set es) (fset (js_visited st)) t r"
    using path_specI [OF es(2), of "set_order (js_visited st)" t] ord by auto
  show ?case
  proof (cases r)
    case (Path path)
    then have "fst ` set path \<subseteq> set es"
      using path_spec_shortest r(2) walk_ends unfolding shortest_def by blast
    with add_steps_raises [OF es(1) this, of st] Cons.IH show ?thesis
      using r(1) Path by (cases "add_steps path st") auto
  qed (use r(1) Cons.IH in \<open>auto simp: failed_def\<close>)
qed

section \<open>Properties\<close>

text \<open>
  C4.  The search finds exactly what it documents: for every graph without repeated edges it returns,
  and its answer is the path when that path is the only shortest walk from a start entity to the
  target, \<open>Ambiguous\<close> when there are at least two shortest walks, and \<open>NoPath\<close> when there is none.
\<close>

theorem shortest_path_correct:
  assumes "distinct es" and "distinct starts"
  shows "\<exists>r. shortest_path (build_adjacency es) starts goal = Some r \<and> path_spec (set es) (set starts) goal r"
  using assms by (rule path_specI)

text \<open>
  The search does not depend on the order in which Python visits the set of start entities, nor
  on the order of the edges of the graph.
\<close>

theorem shortest_path_order_independent:
  assumes "distinct es" "distinct es'" "set es = set es'" and "distinct starts" "distinct starts'" "set starts = set starts'"
  shows "shortest_path (build_adjacency es) starts goal = shortest_path (build_adjacency es') starts' goal"
  using path_specI [OF assms(1,4), of goal] path_specI [OF assms(2,5), of goal] path_spec_unique assms(3,6) by metis

text \<open>
  C17.  A join plan is a tree over the requested entities: from the root, each step starts at an entity
  introduced before and introduces a new one, every requested entity is introduced, and every step
  is an edge of the graph under a relationship that the view allows.
\<close>

theorem plan_is_join_tree:
  assumes "graph_valid g" and "iterates set_order"
    and "plan set_order g v i = Some (Inr out)" and "outcome_plan out = Some p"
  shows "join_tree {root_entity p} (steps p) \<and>
    fset (required_entities i) \<subseteq> insert (root_entity p) (step_right_entity ` set (steps p)) \<and>
    (\<forall>s \<in> set (steps p). step_of_edge (edges g) s \<and> step_relationship_id s |\<in>| allowed_relationships v)"
proof -
  let ?req = "required_entities i"
  show ?thesis
  proof (cases "fcard ?req \<le> 1")
    case True
    then have p: "steps p = []" "root_entity p = (if ?req = {||} then [] else fMin ?req)" "root_entity p \<noteq> []"
      using assms(3,4)
      by (auto simp: plan_def Let_def empty_plan_def planned_def failed_def bind_res_Inr_iff new_LogicalJoinPlan_def
          identifier_ok_def [of "[]"] split: if_splits)
    then have "fMin ?req |\<in>| ?req" by (metis fMin_in)
    moreover have "fcard ?req = 1" using True calculation by (metis One_nat_def fcard_0_eq fempty_iff le_Suc_eq le_zero_eq)
    ultimately have "fset ?req = {fMin ?req}" by (metis card_1_singletonE fcard.rep_eq singletonD)
    then show ?thesis using p by auto
  next
    case False
    let ?start = "fMin ?req"
    have es: "list_all edge_valid (edges g)" "distinct (edges g)"
      using assms(1) distinct_map by (auto simp: graph_valid_def)
    obtain r where r: "connect_targets set_order (build_adjacency (edges g)) (sorted_list_of_fset (?req |-| {|?start|}))
        \<lparr>js_steps = [], js_visited = {|?start|}, js_used = {||}\<rparr> = Some r" "early_result (edges g) r"
      using connect_targets_returns [OF es assms(2)] by blast
    obtain st where none: "first_unauthorized_edge v g = None"
        and run: "connect_targets set_order (build_adjacency (edges g)) (sorted_list_of_fset (?req |-| {|?start|}))
          \<lparr>js_steps = [], js_visited = {|?start|}, js_used = {||}\<rparr> = Some (Inr (Inr st))"
        and p: "steps p = js_steps st" "root_entity p = ?start"
      using assms(3,4) False r
      by (auto simp: plan_def Let_def planned_def failed_def bind_res_Inr_iff new_LogicalJoinPlan_def
          split: if_splits option.splits sum.splits)
    have "tree_inv (edges g) ?start \<lparr>js_steps = [], js_visited = {|?start|}, js_used = {||}\<rparr>"
      by (simp add: tree_inv_def used_ok_def)
    from connect_targets_tree [OF _ assms(2) this run] assms(1)
    have tree: "tree_inv (edges g) ?start st" "fset (?req |-| {|?start|}) \<subseteq> fset (js_visited st)"
      by (auto simp: graph_valid_def)
    have "\<forall>e \<in> set (edges g). relationship_id e |\<in>| allowed_relationships v"
      using none by (auto simp: first_unauthorized_edge_def find_None_iff)
    then have "step_relationship_id s |\<in>| allowed_relationships v" if "step_of_edge (edges g) s" for s
      using that make_step_ok by (fastforce simp: step_of_edge_def)
    then show ?thesis using tree p by (auto simp: tree_inv_def)
  qed
qed

text \<open>
  C27.  Planning always returns and fails closed: an outcome carries a plan exactly when its kind says
  so, and the only exception that can leave the planner is the validation error of an identifier
  that grows beyond 128 characters when it is prefixed with \<^verbatim>\<open>plan-\<close> or \<^verbatim>\<open>step-\<close>.
\<close>

theorem planner_returns:
  assumes "graph_valid g" and "intent_valid i" and "iterates set_order"
  shows "\<exists>r. plan set_order g v i = Some r \<and>
    (case r of
       Inl x \<Rightarrow> x = ValidationError \<and> (123 < length (intent_id i) \<or> (\<exists>e \<in> set (edges g). 123 < length (edge_id e)))
     | Inr out \<Rightarrow> outcome_kind out = PLAN \<longleftrightarrow> outcome_plan out \<noteq> None)"
proof -
  let ?req = "required_entities i" and ?id = "''plan-'' @ intent_id i"
  have es: "list_all edge_valid (edges g)" "distinct (edges g)"
    using assms(1) distinct_map by (auto simp: graph_valid_def)
  have "?req \<noteq> {||}" using assms(2) by (cases "entity_refs i") (auto simp: required_entities_def intent_valid_def)
  then have root: "fMin ?req |\<in>| ?req" by simp
  then have ok: "identifier_ok (fMin ?req)" "identifier_ok (intent_source_id i)"
    using assms(2) by (auto simp: required_entities_def fset_of_list_elem intent_valid_def list_all_iff)
  have id_ok: "identifier_ok ?id \<longleftrightarrow> length (intent_id i) \<le> 123"
    using identifier_ok_prefix [OF plan_prefix_ok(1), of "intent_id i"] assms(2) by (simp add: intent_valid_def)
  have made: "case bind_res (new_LogicalJoinPlan ?id (intent_source_id i) (fMin ?req) ss) (\<lambda>p. Inr (planned p)) of
      Inl x \<Rightarrow> x = ValidationError \<and> 123 < length (intent_id i)
    | Inr out \<Rightarrow> outcome_kind out = PLAN \<and> outcome_plan out \<noteq> None" for ss
    using ok id_ok unfolding new_LogicalJoinPlan_def by (auto simp: planned_def)
  obtain r where r: "connect_targets set_order (build_adjacency (edges g)) (sorted_list_of_fset (?req |-| {|fMin ?req|}))
      \<lparr>js_steps = [], js_visited = {|fMin ?req|}, js_used = {||}\<rparr> = Some r" "early_result (edges g) r"
    using connect_targets_returns [OF es assms(3)] by blast
  consider x where "r = Inl x" | out where "r = Inr (Inl out)" | st where "r = Inr (Inr st)"
    by (metis old.sum.exhaust)
  then show ?thesis
  proof cases
    case 3
    then show ?thesis using r made [of "[]"] made [of "js_steps st"] \<open>?req \<noteq> {||}\<close> unfolding plan_def
      by (auto simp: Let_def empty_plan_def failed_def split: option.splits sum.splits)
  qed (use r made [of "[]"] \<open>?req \<noteq> {||}\<close> in
        \<open>auto simp: plan_def Let_def empty_plan_def failed_def split: option.splits sum.splits\<close>)
qed

text \<open>
  A valid intent can make the planner raise: for an identifier of more than 123 characters, which
  intents allow, the plan identifier built from it is too long, and a single-entity request ends in
  a validation error instead of a structured outcome.
\<close>

theorem long_intent_id_raises:
  assumes "intent_valid i" and "123 < length (intent_id i)" and "length (entity_refs i) = 1"
    and "intent_source_id i = source_id v" and "graph_source_id g = source_id v"
  shows "plan set_order g v i = Some (Inl ValidationError)"
proof -
  have "\<not> identifier_ok (''plan-'' @ intent_id i)"
    using identifier_ok_prefix [OF plan_prefix_ok(1), of "intent_id i"] assms(1,2) by (simp add: intent_valid_def)
  moreover have "fcard (required_entities i) \<le> 1"
    using assms(3) by (cases "entity_refs i") (auto simp: required_entities_def fcard_finsert_if)
  ultimately show ?thesis
    using assms(4,5) unfolding plan_def by (simp add: Let_def empty_plan_def new_LogicalJoinPlan_def)
qed

section \<open>A concrete graph\<close>

definition sample_edge :: "string \<Rightarrow> string \<Rightarrow> string \<Rightarrow> RelationshipEdge" where
  "sample_edge eid l r =
     \<lparr>edge_id = eid, relationship_id = ''r'', left_entity_id = l, right_entity_id = r, left_field_id = ''f'',
      right_field_id = ''id'', cardinality = MANY_TO_ONE\<rparr>"

definition sample_graph :: RelationshipGraph where
  "sample_graph =
     \<lparr>graph_id = ''g1'', graph_source_id = ''sales'', edges = [sample_edge ''e1'' ''b'' ''a'', sample_edge ''e2'' ''c'' ''b'']\<rparr>"

definition sample_intent :: MultiEntityIntent where
  "sample_intent =
     \<lparr>intent_id = ''i1'', intent_source_id = ''sales'',
      entity_refs = [\<lparr>entity_id = ''a'', entity_alias = None\<rparr>, \<lparr>entity_id = ''c'', entity_alias = None\<rparr>]\<rparr>"

lemma sample_graph_valid: "graph_valid sample_graph" "intent_valid sample_intent"
  by (simp_all add: graph_valid_def sample_graph_def sample_edge_def edge_valid_def intent_valid_def sample_intent_def
      identifier_ok_def char_class_defs)

lemma sorted_iterates: "iterates sorted_list_of_fset"
  by (simp add: sorted_list_of_fset.rep_eq)

definition joined_view :: AuthorizedView where
  "joined_view = sample_view\<lparr>allowed_relationships := {|''r''|}, root_entity_ids := {||}\<rparr>"

definition sample_plan :: LogicalJoinPlan where
  "sample_plan =
     \<lparr>plan_id = ''plan-i1'', plan_source_id = ''sales'', root_entity = ''a'',
      steps =
        [\<lparr>step_id = ''step-e1'', step_relationship_id = ''r'', step_left_entity = ''a'', step_right_entity = ''b'',
          step_left_field = ''id'', step_right_field = ''f''\<rparr>,
         \<lparr>step_id = ''step-e2'', step_relationship_id = ''r'', step_left_entity = ''b'', step_right_entity = ''c'',
          step_left_field = ''id'', step_right_field = ''f''\<rparr>]\<rparr>"

lemma sample_planned: "plan sorted_list_of_fset sample_graph joined_view sample_intent = Some (Inr (planned sample_plan))"
  by code_simp

theorem shortest_path_correct_witness:
  "shortest_path (build_adjacency (edges sample_graph)) [''a''] ''c'' =
     Some (Path [(sample_edge ''e1'' ''b'' ''a'', Reverse), (sample_edge ''e2'' ''c'' ''b'', Reverse)]) \<and>
   walks (set (edges sample_graph)) {''a''} ''c'' 2 =
     {[(sample_edge ''e1'' ''b'' ''a'', Reverse), (sample_edge ''e2'' ''c'' ''b'', Reverse)]}"
proof -
  have found: "shortest_path (build_adjacency (edges sample_graph)) [''a''] ''c'' =
      Some (Path [(sample_edge ''e1'' ''b'' ''a'', Reverse), (sample_edge ''e2'' ''c'' ''b'', Reverse)])"
    by code_simp
  have "distinct (edges sample_graph)" by (simp add: sample_graph_def sample_edge_def)
  from shortest_path_correct [OF this, of "[''a'']" "''c''"] found show ?thesis by (simp add: numeral_2_eq_2)
qed

theorem shortest_path_order_independent_witness:
  "shortest_path (build_adjacency (edges sample_graph)) [''a'', ''b''] ''c'' =
   shortest_path (build_adjacency (rev (edges sample_graph))) [''b'', ''a''] ''c''"
  by (rule shortest_path_order_independent) (auto simp: sample_graph_def sample_edge_def)

theorem plan_is_join_tree_witness:
  "plan sorted_list_of_fset sample_graph joined_view sample_intent = Some (Inr (planned sample_plan)) \<and>
   join_tree {''a''} (steps sample_plan)"
proof -
  have "outcome_plan (planned sample_plan) = Some sample_plan" by (simp add: planned_def)
  from plan_is_join_tree [OF sample_graph_valid(1) sorted_iterates sample_planned this]
  show ?thesis using sample_planned by (simp add: sample_plan_def)
qed

theorem planner_returns_witness:
  "\<exists>r. plan sorted_list_of_fset sample_graph sample_view sample_intent = Some r \<and> r \<noteq> Inl ValidationError"
proof -
  have short: "\<not> 123 < length (intent_id sample_intent)" "\<not> (\<exists>e \<in> set (edges sample_graph). 123 < length (edge_id e))"
    by (simp_all add: sample_intent_def sample_graph_def sample_edge_def)
  obtain r where r: "plan sorted_list_of_fset sample_graph sample_view sample_intent = Some r"
      "case r of Inl x \<Rightarrow> x = ValidationError \<and> (123 < length (intent_id sample_intent) \<or>
          (\<exists>e \<in> set (edges sample_graph). 123 < length (edge_id e)))
        | Inr out \<Rightarrow> outcome_kind out = PLAN \<longleftrightarrow> outcome_plan out \<noteq> None"
    using planner_returns [OF sample_graph_valid sorted_iterates, of sample_view] by blast
  then have "r \<noteq> Inl ValidationError" using short by (cases r) auto
  with r(1) show ?thesis by blast
qed

definition long_intent :: MultiEntityIntent where
  "long_intent =
     \<lparr>intent_id = replicate 124 CHR ''i'', intent_source_id = ''sales'',
      entity_refs = [\<lparr>entity_id = ''a'', entity_alias = None\<rparr>]\<rparr>"

theorem long_intent_id_raises_witness:
  "intent_valid long_intent \<and> plan sorted_list_of_fset sample_graph joined_view long_intent = Some (Inl ValidationError)"
proof -
  have ok: "intent_valid long_intent"
    by (simp add: intent_valid_def long_intent_def identifier_ok_def char_class_defs list_all_iff)
  show ?thesis
    using ok long_intent_id_raises [OF ok, of joined_view sample_graph sorted_list_of_fset]
    by (simp add: long_intent_def joined_view_def sample_view_def sample_graph_def)
qed

end
