(* ===== verification/Assembly_Model.thy ===== *)
theory Assembly_Model
  imports Memory_Model
begin

text \<open>
  The semantic assembly models of \<^verbatim>\<open>src/nl2data_core/assembly/models.py\<close>: assertion payloads and their
  bounds, assertion identities, reviews bound to payload hashes, deployment bindings, and drafts with
  their revision-guarded mutations and transitions; and the text screen \<open>validate_safe_description\<close> of
  \<^verbatim>\<open>src/nl2data_core/views/models.py\<close> they share.

  A payload is a JSON value in which lists and tuples are the same constructor: freezing turns lists into
  tuples and thawing turns them back.  Of a verification plan the drafts read its equality and its
  fingerprint; the two authoring members that no operation reads are one opaque value.  A pydantic
  validation error and a plain \<open>ValueError\<close> are error values; a stale revision has its own.
\<close>

section \<open>Errors and text\<close>

datatype assembly_error =
    DraftRevisionConflict (expected_revision: int) (actual_revision: int)
  | LifecycleAuthorizationError (reason_code: string)
  | RejectedValue string
  | InvalidModel

type_synonym 'a asm = "assembly_error + 'a"

definition UNSAFE_DESCRIPTION_MARKERS :: "string list" where
  "UNSAFE_DESCRIPTION_MARKERS =
     [''password='', ''secret='', ''token='', ''api_key='', ''postgres://'', ''postgresql://'', ''mongodb://'',
      ''redis://'', ''jdbc:'']"

definition DESCRIPTION_VERBS :: "string list" where
  "DESCRIPTION_VERBS = [''select'', ''insert'', ''update'', ''delete'', ''drop'', ''create'', ''alter'', ''merge'']"

definition safe_description :: "string \<Rightarrow> bool" where
  "safe_description value \<longleftrightarrow>
     \<not> list_ex (\<lambda>m. str_in m (str_lower value)) UNSAFE_DESCRIPTION_MARKERS \<and> \<not> sql_shape DESCRIPTION_VERBS value"

lemma safe_description_Nil [simp]: "safe_description []"
  by (simp add: safe_description_def UNSAFE_DESCRIPTION_MARKERS_def str_lower_def sql_shape_def)

definition reference_text_ok :: "string \<Rightarrow> bool" where
  "reference_text_ok s \<longleftrightarrow> 1 \<le> length s \<and> length s \<le> 256 \<and> safe_description s"

section \<open>Payloads\<close>

definition MAX_PAYLOAD_ITEMS :: nat where "MAX_PAYLOAD_ITEMS = 16384"
definition MAX_PAYLOAD_DEPTH :: nat where "MAX_PAYLOAD_DEPTH = 32"
definition MAX_PAYLOAD_TEXT_CHARS :: nat where "MAX_PAYLOAD_TEXT_CHARS = 4096"

text \<open>The number of items \<open>freeze\<close> visits, and its checks on the way down.\<close>

fun payload_items :: "jv \<Rightarrow> nat" where
  "payload_items (VList xs) = Suc (sum_list (map payload_items xs))"
| "payload_items (VDict items) = Suc (sum_list (map (\<lambda>(k, v). payload_items v) items))"
| "payload_items v = 1"

fun payload_key_ok :: "dict_key \<Rightarrow> bool" where
  "payload_key_ok (KStr s) = (s \<noteq> [] \<and> length s \<le> 128)"
| "payload_key_ok (KOther _ _) = False"

fun payload_ok :: "nat \<Rightarrow> jv \<Rightarrow> bool" where
  "payload_ok depth (VDict items) =
     (depth \<le> MAX_PAYLOAD_DEPTH \<and> list_all (\<lambda>(k, v). payload_key_ok k \<and> payload_ok (Suc depth) v) items)"
| "payload_ok depth (VList xs) = (depth \<le> MAX_PAYLOAD_DEPTH \<and> list_all (payload_ok (Suc depth)) xs)"
| "payload_ok depth (VStr s) = (depth \<le> MAX_PAYLOAD_DEPTH \<and> length s \<le> MAX_PAYLOAD_TEXT_CHARS)"
| "payload_ok depth (VFloat r) = (depth \<le> MAX_PAYLOAD_DEPTH \<and> finite_repr r)"
| "payload_ok depth (VEnum _) = False"
| "payload_ok depth (VOther _) = False"
| "payload_ok depth v = (depth \<le> MAX_PAYLOAD_DEPTH)"

definition freezable :: "jv \<Rightarrow> bool" where
  "freezable v \<longleftrightarrow> payload_items v \<le> MAX_PAYLOAD_ITEMS \<and> payload_ok 0 v"

fun payload_get :: "jv \<Rightarrow> string \<Rightarrow> jv option" where
  "payload_get (VDict items) k = map_of items (KStr k)"
| "payload_get _ k = None"

section \<open>Assertion identities\<close>

datatype AssertionType = ENTITY | FIELD | RELATIONSHIP | MAPPING | POLICY | CALCULATED_FIELD | MEASURE | GRAIN

fun assertion_type_value :: "AssertionType \<Rightarrow> string" where
  "assertion_type_value ENTITY = ''entity''"
| "assertion_type_value FIELD = ''field''"
| "assertion_type_value RELATIONSHIP = ''relationship''"
| "assertion_type_value MAPPING = ''mapping''"
| "assertion_type_value POLICY = ''policy''"
| "assertion_type_value CALCULATED_FIELD = ''calculated_field''"
| "assertion_type_value MEASURE = ''measure''"
| "assertion_type_value GRAIN = ''grain''"

definition identity_error :: "string \<Rightarrow> string \<Rightarrow> assembly_error" where
  "identity_error key what = RejectedValue (''assertion identity member '' @ quoted key @ what)"

fun identity_text :: "string \<Rightarrow> jv option \<Rightarrow> string asm" where
  "identity_text key (Some (VStr s)) =
     (if s \<noteq> [] \<and> length s \<le> 128 then Inr s else Inl (identity_error key '' must be a bounded string''))"
| "identity_text key _ = Inl (identity_error key '' must be a bounded string'')"

definition identity_string :: "jv \<Rightarrow> string \<Rightarrow> string asm" where
  "identity_string p key = identity_text key (payload_get p key)"

fun identity_members :: "string \<Rightarrow> jv list \<Rightarrow> string list asm" where
  "identity_members key [] = Inr []"
| "identity_members key (v # vs) =
     bind_res (identity_text key (Some v)) (\<lambda>s. bind_res (identity_members key vs) (\<lambda>ss. Inr (s # ss)))"

definition identity_strings :: "jv \<Rightarrow> string \<Rightarrow> string list asm" where
  "identity_strings p key =
     (case payload_get p key of
        Some (VList vs) \<Rightarrow>
          bind_res (identity_members key vs) (\<lambda>members.
          if distinct members then Inr (sort members)
          else Inl (identity_error key '' must contain unique values''))
      | _ \<Rightarrow> Inl (identity_error key '' must be a string collection''))"

text \<open>Named string members, each extracted in turn.\<close>

fun identity_fields :: "jv \<Rightarrow> string list \<Rightarrow> (string \<times> jv) list asm" where
  "identity_fields p [] = Inr []"
| "identity_fields p (k # ks) =
     bind_res (identity_string p k) (\<lambda>s. bind_res (identity_fields p ks) (\<lambda>ms. Inr ((k, VStr s) # ms)))"

fun identity_keys :: "AssertionType \<Rightarrow> string list" where
  "identity_keys ENTITY = [''descriptor_id'', ''entity_id'']"
| "identity_keys FIELD = [''descriptor_id'', ''entity_id'', ''field_id'']"
| "identity_keys MAPPING = [''descriptor_id'', ''entity_id'', ''field_id'']"
| "identity_keys RELATIONSHIP = [''descriptor_id'', ''relationship_id'', ''source_entity_id'', ''target_entity_id'']"
| "identity_keys POLICY = [''descriptor_id'', ''policy_id'']"
| "identity_keys CALCULATED_FIELD = [''descriptor_id'', ''entity_id'', ''name'']"
| "identity_keys MEASURE = [''descriptor_id'', ''measure_id'']"
| "identity_keys GRAIN = [''descriptor_id'', ''grain_id'']"

definition assertion_identity_payload :: "AssertionType \<Rightarrow> jv \<Rightarrow> (string \<times> jv) list asm" where
  "assertion_identity_payload t p =
     bind_res (identity_fields p (identity_keys t)) (\<lambda>ms.
     if t = RELATIONSHIP then
       bind_res (identity_strings p ''source_fields'') (\<lambda>sf.
       bind_res (identity_strings p ''target_fields'') (\<lambda>tf.
       Inr (ms @ [(''source_fields'', VList (map VStr sf)), (''target_fields'', VList (map VStr tf))])))
     else Inr ms)"

definition derive_assertion_id :: "AssertionType \<Rightarrow> jv \<Rightarrow> string asm" where
  "derive_assertion_id t p =
     bind_res (assertion_identity_payload t p) (\<lambda>ms.
     Inr (fingerprint_of (vdict [(''assertion_type'', VStr (assertion_type_value t)), (''identity'', vdict ms)])))"

section \<open>Assertions\<close>

datatype ReviewState = PENDING | APPROVED_REVIEW | REJECTED_REVIEW

datatype AssertionProvenanceKind = MANUAL | DISCOVERED | INFERRED | LLM_SUGGESTED

record AssertionProvenance =
  prov_kind :: AssertionProvenanceKind
  prov_source :: "string option"
  prov_proposal :: "string option"
  prov_snapshot :: "string option"
  prov_evidence :: "string option"
  prov_method :: "string option"

definition provenance_valid :: "AssertionProvenance \<Rightarrow> bool" where
  "provenance_valid p \<longleftrightarrow>
     opt_all reference_text_ok (prov_source p) \<and> opt_all identifier_ok (prov_proposal p) \<and>
     opt_all fingerprint_ok (prov_snapshot p) \<and> opt_all fingerprint_ok (prov_evidence p) \<and>
     opt_all (\<lambda>m. 1 \<le> length m \<and> length m \<le> 128 \<and> safe_description m) (prov_method p)"

record ReviewBinding =
  bound_payload_hash :: string
  reviewer_reference :: string
  reviewed_at :: timestamp
  review_reason :: string

definition review_binding_valid :: "ReviewBinding \<Rightarrow> bool" where
  "review_binding_valid b \<longleftrightarrow>
     fingerprint_ok (bound_payload_hash b) \<and> reference_text_ok (reviewer_reference b) \<and>
     length (review_reason b) \<le> 1024 \<and> safe_description (review_reason b)"

record SemanticAssertion =
  assertion_id :: string
  assertion_type :: AssertionType
  assertion_payload :: jv
  provenance :: AssertionProvenance
  review_state :: ReviewState
  review_binding :: "ReviewBinding option"

definition payload_hash :: "SemanticAssertion \<Rightarrow> string" where
  "payload_hash a =
     fingerprint_of (vdict [(''type'', VStr (assertion_type_value (assertion_type a))), (''payload'', assertion_payload a)])"

definition assertion_valid :: "SemanticAssertion \<Rightarrow> bool" where
  "assertion_valid a \<longleftrightarrow>
     fingerprint_ok (assertion_id a) \<and> (\<exists>items. assertion_payload a = VDict items \<and> items \<noteq> []) \<and>
     freezable (assertion_payload a) \<and> provenance_valid (provenance a) \<and>
     derive_assertion_id (assertion_type a) (assertion_payload a) = Inr (assertion_id a) \<and>
     (case review_binding a of
        None \<Rightarrow> review_state a = PENDING
      | Some b \<Rightarrow> review_state a \<noteq> PENDING \<and> review_binding_valid b \<and> bound_payload_hash b = payload_hash a)"

definition validated_assertion :: "SemanticAssertion \<Rightarrow> SemanticAssertion asm" where
  "validated_assertion a = (if assertion_valid a then Inr a else Inl InvalidModel)"

definition has_valid_review_binding :: "SemanticAssertion \<Rightarrow> bool" where
  "has_valid_review_binding a \<longleftrightarrow>
     review_state a \<noteq> PENDING \<and> (\<exists>b \<in> set_option (review_binding a). bound_payload_hash b = payload_hash a)"

definition create_assertion :: "AssertionType \<Rightarrow> jv \<Rightarrow> AssertionProvenance \<Rightarrow> SemanticAssertion asm" where
  "create_assertion t p prov =
     bind_res (derive_assertion_id t p) (\<lambda>aid.
     validated_assertion \<lparr>assertion_id = aid, assertion_type = t, assertion_payload = p, provenance = prov,
       review_state = PENDING, review_binding = None\<rparr>)"

definition replace_payload :: "SemanticAssertion \<Rightarrow> jv \<Rightarrow> SemanticAssertion asm" where
  "replace_payload a p = create_assertion (assertion_type a) p (provenance a)"

definition bind_review :: "SemanticAssertion \<Rightarrow> ReviewState \<Rightarrow> string \<Rightarrow> string \<Rightarrow> timestamp \<Rightarrow> SemanticAssertion asm" where
  "bind_review a st reviewer reason now =
     (let b = \<lparr>bound_payload_hash = payload_hash a, reviewer_reference = reviewer, reviewed_at = now, review_reason = reason\<rparr>
      in if review_binding_valid b then validated_assertion (a\<lparr>review_state := st, review_binding := Some b\<rparr>)
         else Inl InvalidModel)"

section \<open>Deployment bindings\<close>

record DeploymentBinding =
  binding_id :: string
  environment :: string
  binding_source_id :: string
  connection_reference :: string

definition INLINE_CREDENTIAL_MARKERS :: "string list" where
  "INLINE_CREDENTIAL_MARKERS = [''password='', ''secret='', ''token='', ''api_key='', ''://'', ''@'']"

text \<open>\<open>str.isspace\<close> for code points up to U+00FF.\<close>

definition is_space :: "char \<Rightarrow> bool" where
  "is_space c \<longleftrightarrow> (of_char c :: nat) \<in> set [9, 10, 11, 12, 13, 28, 29, 30, 31, 32, 133, 160]"

definition is_letter_or_underscore :: "char \<Rightarrow> bool" where
  "is_letter_or_underscore c \<longleftrightarrow> is_lower_ascii c \<or> is_upper_ascii c \<or> c = CHR ''_''"

definition env_name_ok :: "string \<Rightarrow> bool" where
  "env_name_ok s \<longleftrightarrow> s \<noteq> [] \<and> is_letter_or_underscore (hd s) \<and> list_all (\<lambda>c. is_alnum c \<or> c = CHR ''_'') (tl s)"

definition path_ok :: "string \<Rightarrow> bool" where
  "path_ok s \<longleftrightarrow> s \<noteq> [] \<and> list_all (\<lambda>c. is_alnum c \<or> c \<in> set [CHR ''_'', CHR ''.'', CHR ''/'', CHR 0x5C, CHR '':'', CHR ''-'']) s"

definition connection_reference_ok :: "string \<Rightarrow> bool" where
  "connection_reference_ok value =
     (let scheme = takeWhile (\<lambda>c. c \<noteq> CHR '':'') value;
          rest = dropWhile (\<lambda>c. c \<noteq> CHR '':'') value;
          reference = tl rest
      in \<not> list_ex (\<lambda>m. str_in m (str_lower value)) INLINE_CREDENTIAL_MARKERS \<and>
         rest \<noteq> [] \<and> scheme \<in> set [''env'', ''vault'', ''file''] \<and>
         reference \<noteq> [] \<and> \<not> list_ex is_space reference \<and>
         (scheme = ''env'' \<longrightarrow> env_name_ok reference) \<and> (scheme \<noteq> ''env'' \<longrightarrow> path_ok reference))"

definition deployment_binding_valid :: "DeploymentBinding \<Rightarrow> bool" where
  "deployment_binding_valid b \<longleftrightarrow>
     identifier_ok (binding_id b) \<and> identifier_ok (environment b) \<and> identifier_ok (binding_source_id b) \<and>
     1 \<le> length (connection_reference b) \<and> length (connection_reference b) \<le> 256 \<and>
     connection_reference_ok (connection_reference b)"

section \<open>Drafts\<close>

datatype AssemblyState = DRAFT | REVIEW | APPROVED | PUBLISHED

fun assembly_state_value :: "AssemblyState \<Rightarrow> string" where
  "assembly_state_value DRAFT = ''draft''"
| "assembly_state_value REVIEW = ''review''"
| "assembly_state_value APPROVED = ''approved''"
| "assembly_state_value PUBLISHED = ''published''"

record VerificationPlan =
  vp_content :: jv
  vp_fingerprint :: string

record AssemblyDraft =
  draft_id :: string
  draft_bundle_id :: string
  draft_source_id :: string
  model_version :: string
  draft_state :: AssemblyState
  draft_revision :: int
  assertions :: "SemanticAssertion list"
  deployment_bindings :: "DeploymentBinding list"
  author_reference :: string
  review_submitted_by :: "string option"
  approved_by :: "string option"
  verification_plan :: "VerificationPlan option"
  approved_plan_fp :: "string option"
  source_snapshot_fp :: "string option"
  authoring_description :: "string option"
  authoring_metadata :: jv

definition MAX_ASSERTIONS :: nat where "MAX_ASSERTIONS = 16384"
definition MAX_DEPLOYMENT_BINDINGS :: nat where "MAX_DEPLOYMENT_BINDINGS = 64"
definition MAX_REVISION :: int where "MAX_REVISION = 2 ^ 63 - 1"

definition expected_plan_fp :: "AssemblyDraft \<Rightarrow> string option" where
  "expected_plan_fp d = (if draft_state d = APPROVED then map_option vp_fingerprint (verification_plan d) else None)"

definition draft_valid :: "AssemblyDraft \<Rightarrow> bool" where
  "draft_valid d \<longleftrightarrow>
     identifier_ok (draft_id d) \<and> identifier_ok (draft_bundle_id d) \<and> identifier_ok (draft_source_id d) \<and>
     identifier_ok (model_version d) \<and> 0 \<le> draft_revision d \<and> draft_revision d \<le> MAX_REVISION \<and>
     length (assertions d) \<le> MAX_ASSERTIONS \<and> list_all assertion_valid (assertions d) \<and>
     distinct (map assertion_id (assertions d)) \<and>
     length (deployment_bindings d) \<le> MAX_DEPLOYMENT_BINDINGS \<and>
     list_all deployment_binding_valid (deployment_bindings d) \<and> distinct (map binding_id (deployment_bindings d)) \<and>
     reference_text_ok (author_reference d) \<and> opt_all reference_text_ok (review_submitted_by d) \<and>
     opt_all reference_text_ok (approved_by d) \<and> opt_all (\<lambda>p. fingerprint_ok (vp_fingerprint p)) (verification_plan d) \<and>
     opt_all fingerprint_ok (source_snapshot_fp d) \<and>
     opt_all (\<lambda>s. length s \<le> 1024 \<and> safe_description s) (authoring_description d) \<and>
     draft_state d \<noteq> PUBLISHED \<and> approved_plan_fp d = expected_plan_fp d"

definition validated_draft :: "AssemblyDraft \<Rightarrow> AssemblyDraft asm" where
  "validated_draft d = (if draft_valid d then Inr d else Inl InvalidModel)"

definition require_revision :: "AssemblyDraft \<Rightarrow> int \<Rightarrow> unit asm" where
  "require_revision d expected =
     (if expected \<noteq> draft_revision d then Inl (DraftRevisionConflict expected (draft_revision d)) else Inr ())"

text \<open>
  The keyword arguments of \<open>mutate\<close>: at most one change per field, the protected fields and names that
  are no field of a draft included.
\<close>

datatype draft_change =
    SetAssertions "SemanticAssertion list"
  | SetDeploymentBindings "DeploymentBinding list"
  | SetVerificationPlan "VerificationPlan option"
  | SetBundleId string
  | SetSourceId string
  | SetModelVersion string
  | SetAuthorReference string
  | SetReviewSubmittedBy "string option"
  | SetSourceSnapshot "string option"
  | SetAuthoringDescription "string option"
  | SetAuthoringMetadata jv
  | SetProtected string
  | SetUnknown string

fun apply_change :: "draft_change \<Rightarrow> AssemblyDraft \<Rightarrow> AssemblyDraft" where
  "apply_change (SetAssertions xs) d = d\<lparr>assertions := xs\<rparr>"
| "apply_change (SetDeploymentBindings bs) d = d\<lparr>deployment_bindings := bs\<rparr>"
| "apply_change (SetVerificationPlan p) d = d\<lparr>verification_plan := p\<rparr>"
| "apply_change (SetBundleId s) d = d\<lparr>draft_bundle_id := s\<rparr>"
| "apply_change (SetSourceId s) d = d\<lparr>draft_source_id := s\<rparr>"
| "apply_change (SetModelVersion s) d = d\<lparr>model_version := s\<rparr>"
| "apply_change (SetAuthorReference s) d = d\<lparr>author_reference := s\<rparr>"
| "apply_change (SetReviewSubmittedBy s) d = d\<lparr>review_submitted_by := s\<rparr>"
| "apply_change (SetSourceSnapshot s) d = d\<lparr>source_snapshot_fp := s\<rparr>"
| "apply_change (SetAuthoringDescription s) d = d\<lparr>authoring_description := s\<rparr>"
| "apply_change (SetAuthoringMetadata v) d = d\<lparr>authoring_metadata := v\<rparr>"
| "apply_change (SetProtected _) d = d"
| "apply_change (SetUnknown _) d = d"

definition plan_changed :: "AssemblyDraft \<Rightarrow> draft_change list \<Rightarrow> bool" where
  "plan_changed d changes = list_ex (\<lambda>c. case c of SetVerificationPlan p \<Rightarrow> p \<noteq> verification_plan d | _ \<Rightarrow> False) changes"

definition only_plan :: "draft_change list \<Rightarrow> bool" where
  "only_plan changes = (case changes of [SetVerificationPlan _] \<Rightarrow> True | _ \<Rightarrow> False)"

definition protected_changes :: "draft_change list \<Rightarrow> string list" where
  "protected_changes changes = concat (map (\<lambda>c. case c of SetProtected n \<Rightarrow> [n] | _ \<Rightarrow> []) changes)"

definition unknown_changes :: "draft_change list \<Rightarrow> string list" where
  "unknown_changes changes = concat (map (\<lambda>c. case c of SetUnknown n \<Rightarrow> [n] | _ \<Rightarrow> []) changes)"

definition comma_joined :: "string list \<Rightarrow> string" where
  "comma_joined ss = foldr (\<lambda>s rest. if rest = [] then s else s @ '', '' @ rest) ss []"

definition mutate :: "AssemblyDraft \<Rightarrow> int \<Rightarrow> draft_change list \<Rightarrow> AssemblyDraft asm" where
  "mutate d expected changes =
     bind_res (require_revision d expected) (\<lambda>_.
     if only_plan changes \<and> \<not> plan_changed d changes then Inr d
     else if draft_state d = APPROVED \<and> changes \<noteq> [] \<and> \<not> (plan_changed d changes \<and> only_plan changes) then
       Inl (RejectedValue ''approved draft content is frozen; return it to review before editing'')
     else if protected_changes changes \<noteq> [] then
       Inl (RejectedValue (''draft mutation cannot replace protected fields: '' @ comma_joined (sort (protected_changes changes))))
     else
       (let d' = (fold apply_change changes d)\<lparr>draft_revision := draft_revision d + 1\<rparr>;
            d'' = (if plan_changed d changes
                   then d'\<lparr>draft_state := (if draft_state d = APPROVED then REVIEW else draft_state d),
                            approved_by := None, approved_plan_fp := None\<rparr>
                   else d')
        in if unknown_changes changes \<noteq> [] then Inl InvalidModel else validated_draft d''))"

fun allowed_states :: "AssemblyState \<Rightarrow> AssemblyState list" where
  "allowed_states DRAFT = [REVIEW]"
| "allowed_states REVIEW = [DRAFT, APPROVED]"
| "allowed_states APPROVED = [REVIEW]"
| "allowed_states PUBLISHED = []"

definition transition_draft :: "AssemblyDraft \<Rightarrow> int \<Rightarrow> AssemblyState \<Rightarrow> AssemblyDraft asm" where
  "transition_draft d expected st =
     bind_res (require_revision d expected) (\<lambda>_.
     if st \<notin> set (allowed_states (draft_state d)) then
       Inl (RejectedValue (''invalid assembly transition from '' @ assembly_state_value (draft_state d) @ '' to '' @
              assembly_state_value st))
     else if st = APPROVED \<and> list_ex (\<lambda>a. review_state a = PENDING \<or> \<not> has_valid_review_binding a) (assertions d) then
       Inl (RejectedValue ''assembly approval requires all assertions to be reviewed'')
     else
       validated_draft (d\<lparr>draft_state := st, draft_revision := draft_revision d + 1,
         approved_by := (if st = APPROVED then approved_by d else None),
         approved_plan_fp := (if st = APPROVED then map_option vp_fingerprint (verification_plan d) else None)\<rparr>))"

end
