(* ===== verification/Semantic_Descriptor.thy ===== *)
theory Semantic_Descriptor
  imports Assembly_Model Query_IR
begin

text \<open>
  The semantic descriptor of \<^verbatim>\<open>src/nl2data_core/views/models.py\<close>: fields with their value semantics,
  calculated fields with their expression trees, relationships, entities and the descriptor itself.

  Each pydantic model is a record (the expression tree a datatype with the optional members of the
  model) and \<open>..._ok\<close> holds when its validators accept the members.  A fingerprint member, which the
  models recompute from the others whenever they are built, is a function of the record.  Members are given in the types pydantic has converted them to; a mapped or sample
  value is a JSON value of which the validators admit strings and integers only.

  The theory shows that inference decides the typing rules of calculated fields, that a descriptor that
  can be built only holds calculated fields over numeric, non-personal base fields of their own entity,
  and that lookups by id agree with the listing of ids.
\<close>

section \<open>Value semantics\<close>

record ValueSemantics =
  value_mapping :: "(string \<times> jv) list"
  display_order :: "string list option"
  sample_values :: "jv list option"
  vs_pii :: bool
  unknown_value_policy :: string

definition MAX_VALUE_TERMS :: nat where "MAX_VALUE_TERMS = 4096"

definition term_ok :: "string \<Rightarrow> bool" where
  "term_ok t \<longleftrightarrow> t \<noteq> [] \<and> length t \<le> 128"

fun stored_value :: "jv \<Rightarrow> bool" where
  "stored_value (VStr s) = True"
| "stored_value (VInt i) = True"
| "stored_value _ = False"

fun sample_ok :: "jv \<Rightarrow> bool" where
  "sample_ok (VStr s) = (length s \<le> 128)"
| "sample_ok v = stored_value v"

definition mapping_ok :: "(string \<times> jv) list \<Rightarrow> bool" where
  "mapping_ok m \<longleftrightarrow>
     dict_ok m \<and> m \<noteq> [] \<and> length m \<le> MAX_VALUE_TERMS \<and> list_all (\<lambda>(k, v). term_ok k \<and> stored_value v) m"

definition display_order_ok :: "string list \<Rightarrow> bool" where
  "display_order_ok ts \<longleftrightarrow> length ts \<le> MAX_VALUE_TERMS \<and> list_all term_ok ts \<and> distinct ts"

definition sample_values_ok :: "jv list \<Rightarrow> bool" where
  "sample_values_ok vs \<longleftrightarrow> length vs \<le> MAX_VALUE_TERMS \<and> list_all sample_ok vs"

definition value_semantics_ok :: "ValueSemantics \<Rightarrow> bool" where
  "value_semantics_ok v \<longleftrightarrow>
     mapping_ok (value_mapping v) \<and> opt_all display_order_ok (display_order v) \<and>
     opt_all sample_values_ok (sample_values v) \<and> unknown_value_policy v \<in> set [''reject'', ''warn'']"

definition known_business_terms :: "ValueSemantics \<Rightarrow> string list" where
  "known_business_terms v = sort (map fst (value_mapping v))"

definition value_semantics_payload :: "ValueSemantics \<Rightarrow> jv" where
  "value_semantics_payload v = vdict
     [(''value_mapping'', vdict (sort_key fst (value_mapping v))),
      (''display_order'', vopt (\<lambda>ts. VList (map VStr ts)) (display_order v)),
      (''sample_values'', vopt VList (sample_values v)),
      (''pii'', VBool (vs_pii v)), (''unknown_value_policy'', VStr (unknown_value_policy v))]"

section \<open>Fields\<close>

record SemanticFieldDescriptor =
  fd_field_id :: string
  fd_label :: string
  fd_description :: string
  data_type :: string
  allowed_aggregations :: "string fset"
  value_semantics :: "ValueSemantics option"

definition label_ok :: "string \<Rightarrow> bool" where
  "label_ok s \<longleftrightarrow> 1 \<le> length s \<and> length s \<le> 256"

definition description_ok :: "string \<Rightarrow> bool" where
  "description_ok s \<longleftrightarrow> length s \<le> 1024 \<and> safe_description s"

definition field_descriptor_ok :: "SemanticFieldDescriptor \<Rightarrow> bool" where
  "field_descriptor_ok f \<longleftrightarrow>
     identifier_ok (fd_field_id f) \<and> label_ok (fd_label f) \<and> description_ok (fd_description f) \<and>
     identifier_ok (data_type f) \<and> allowed_aggregations f |\<subseteq>| fset_of_list AGGREGATION_KINDS \<and>
     opt_all value_semantics_ok (value_semantics f)"

definition field_descriptor_payload :: "SemanticFieldDescriptor \<Rightarrow> jv" where
  "field_descriptor_payload f = vdict
     ([(''field_id'', VStr (fd_field_id f)), (''label'', VStr (fd_label f)),
       (''description'', VStr (fd_description f)), (''data_type'', VStr (data_type f)),
       (''allowed_aggregations'', VList (map VStr (sorted_list_of_fset (allowed_aggregations f))))] @
      opt_member ''value_semantics'' value_semantics_payload (value_semantics f))"

definition is_pii :: "SemanticFieldDescriptor \<Rightarrow> bool" where
  "is_pii f = (case value_semantics f of None \<Rightarrow> False | Some v \<Rightarrow> vs_pii v)"

section \<open>Expression trees of calculated fields\<close>

definition MAX_CF_DEPTH :: nat where "MAX_CF_DEPTH = 16"
definition MAX_CF_NODES :: nat where "MAX_CF_NODES = 64"
definition MAX_CALCULATED_FIELDS :: nat where "MAX_CALCULATED_FIELDS = 32"

definition CALCULATED_FIELD_OPERATORS :: "string list" where
  "CALCULATED_FIELD_OPERATORS = [''field'', ''const'', ''add'', ''sub'', ''mul'', ''div'']"

definition CALCULATED_FIELD_LEAF_TYPES :: "string list" where
  "CALCULATED_FIELD_LEAF_TYPES = [''int'', ''float'']"

datatype ExprNode =
  ExprNode (node_op: string) (node_field_id: "string option") (node_const: "int option")
    (node_left: "ExprNode option") (node_right: "ExprNode option")

definition leaf_op :: "string \<Rightarrow> bool" where
  "leaf_op op \<longleftrightarrow> op \<in> set [''field'', ''const'']"

text \<open>The depth and the number of nodes; an operand that is missing has been refused before.\<close>

fun node_measure :: "ExprNode \<Rightarrow> nat \<times> nat" where
  "node_measure (ExprNode op f c l r) =
     (if leaf_op op then (1, 1)
      else case (l, r) of
        (Some l', Some r') \<Rightarrow>
          (1 + max (fst (node_measure l')) (fst (node_measure r')), 1 + snd (node_measure l') + snd (node_measure r'))
      | _ \<Rightarrow> (1, 1))"

definition node_shape_ok :: "ExprNode \<Rightarrow> bool" where
  "node_shape_ok n \<longleftrightarrow>
     node_op n \<in> set CALCULATED_FIELD_OPERATORS \<and>
     (if node_op n = ''field'' then
        node_field_id n \<noteq> None \<and> node_const n = None \<and> node_left n = None \<and> node_right n = None
      else if node_op n = ''const'' then
        node_const n \<noteq> None \<and> node_field_id n = None \<and> node_left n = None \<and> node_right n = None
      else node_left n \<noteq> None \<and> node_right n \<noteq> None \<and> node_field_id n = None \<and> node_const n = None)"

definition node_check :: "ExprNode \<Rightarrow> bool" where
  "node_check n \<longleftrightarrow>
     opt_all identifier_ok (node_field_id n) \<and> node_shape_ok n \<and>
     fst (node_measure n) \<le> MAX_CF_DEPTH \<and> snd (node_measure n) \<le> MAX_CF_NODES"

text \<open>A tree is built from the leaves up, and every node passes its own check.\<close>

fun node_ok :: "ExprNode \<Rightarrow> bool" where
  "node_ok (ExprNode op f c l r) =
     (node_check (ExprNode op f c l r) \<and> (case l of None \<Rightarrow> True | Some l' \<Rightarrow> node_ok l') \<and>
      (case r of None \<Rightarrow> True | Some r' \<Rightarrow> node_ok r'))"

fun field_leaves :: "ExprNode \<Rightarrow> string fset" where
  "field_leaves (ExprNode op f c l r) =
     (if op = ''field'' then (case f of None \<Rightarrow> {||} | Some x \<Rightarrow> {|x|})
      else if op = ''const'' then {||}
      else (case l of None \<Rightarrow> {||} | Some l' \<Rightarrow> field_leaves l') |\<union>|
           (case r of None \<Rightarrow> {||} | Some r' \<Rightarrow> field_leaves r'))"

fun node_payload :: "ExprNode \<Rightarrow> jv" where
  "node_payload (ExprNode op f c l r) = vdict
     ((''op'', VStr op) #
      (if op = ''field'' then [(''field_id'', vopt VStr f)]
       else if op = ''const'' then [(''const'', vopt VInt c)]
       else [(''left'', case l of None \<Rightarrow> VNull | Some l' \<Rightarrow> node_payload l'),
             (''right'', case r of None \<Rightarrow> VNull | Some r' \<Rightarrow> node_payload r')]))"
section \<open>Inference of output types\<close>

definition cf_error :: "string \<Rightarrow> string \<Rightarrow> string \<Rightarrow> string \<Rightarrow> string \<Rightarrow> string" where
  "cf_error code cf_name before leaf after =
     code @ '': calculated field '' @ quoted cf_name @ before @ quoted leaf @ after"

text \<open>The type of a leaf, or the message of the rule it breaks.\<close>

definition infer_leaf ::
  "(string \<rightharpoonup> SemanticFieldDescriptor) \<Rightarrow> string list \<Rightarrow> string \<Rightarrow> string \<Rightarrow> string + string" where
  "infer_leaf fields_by_id calculated_names cf_name leaf =
     (if leaf \<in> set calculated_names then
        Inl (cf_error ''CF_002'' cf_name '' references calculated field '' leaf ''; calculated fields do not compose'')
      else case fields_by_id leaf of
        None \<Rightarrow> Inl (cf_error ''CF_002'' cf_name '' references unknown field '' leaf [])
      | Some f \<Rightarrow>
          if is_pii f then Inl (cf_error ''CF_004'' cf_name '' references pii field '' leaf [])
          else if data_type f \<notin> set CALCULATED_FIELD_LEAF_TYPES then
            Inl (cf_error ''CF_001'' cf_name '' references non-numeric field '' leaf
                   ('' (data_type '' @ quoted (data_type f) @ '')''))
          else Inr (data_type f))"

definition join_types :: "string \<Rightarrow> string \<Rightarrow> string \<Rightarrow> string" where
  "join_types op l r =
     (if op = ''div'' then ''float'' else if l = ''int'' \<and> r = ''int'' then ''int'' else ''float'')"

fun infer_calculated_output ::
  "(string \<rightharpoonup> SemanticFieldDescriptor) \<Rightarrow> string list \<Rightarrow> string \<Rightarrow> ExprNode \<Rightarrow> string + string" where
  "infer_calculated_output fs names cf (ExprNode op f c l r) =
     (if op = ''const'' then Inr ''int''
      else if op = ''field'' then (case f of None \<Rightarrow> Inl [] | Some x \<Rightarrow> infer_leaf fs names cf x)
      else case (l, r) of
        (Some l', Some r') \<Rightarrow>
          bind_res (infer_calculated_output fs names cf l') (\<lambda>tl.
            bind_res (infer_calculated_output fs names cf r') (\<lambda>tr. Inr (join_types op tl tr)))
      | _ \<Rightarrow> Inl [])"

section \<open>Calculated fields, relationships and entities\<close>

record CalculatedField =
  cf_name :: string
  cf_label :: string
  cf_description :: string
  cf_expression :: ExprNode
  cf_output_type :: string
  cf_requires :: "string list"
  zero_division_policy :: string

definition calculated_field_ok :: "CalculatedField \<Rightarrow> bool" where
  "calculated_field_ok cf \<longleftrightarrow>
     identifier_ok (cf_name cf) \<and> label_ok (cf_label cf) \<and> description_ok (cf_description cf) \<and>
     node_ok (cf_expression cf) \<and> cf_output_type cf \<in> set [''int'', ''float''] \<and>
     length (cf_requires cf) \<le> MAX_CALCULATED_FIELDS \<and> list_all identifier_ok (cf_requires cf) \<and>
     distinct (cf_requires cf) \<and> zero_division_policy cf \<in> set [''null'', ''error''] \<and>
     fset_of_list (cf_requires cf) = field_leaves (cf_expression cf)"

definition calculated_field_payload :: "CalculatedField \<Rightarrow> jv" where
  "calculated_field_payload cf = vdict
     [(''name'', VStr (cf_name cf)), (''label'', VStr (cf_label cf)), (''description'', VStr (cf_description cf)),
      (''expression'', node_payload (cf_expression cf)), (''output_type'', VStr (cf_output_type cf)),
      (''requires'', VList (map VStr (sort (cf_requires cf)))),
      (''zero_division_policy'', VStr (zero_division_policy cf))]"

definition content_hash :: "CalculatedField \<Rightarrow> string" where
  "content_hash cf = fingerprint_of (calculated_field_payload cf)"

record SemanticRelationshipDescriptor =
  relationship_id :: string
  rel_source_entity_id :: string
  rel_target_entity_id :: string
  rel_label :: string
  rel_source_fields :: "string list"
  rel_target_fields :: "string list"

definition MAX_FIELDS :: nat where "MAX_FIELDS = 4096"
definition MAX_RELATIONSHIPS :: nat where "MAX_RELATIONSHIPS = 1024"
definition MAX_ENTITIES :: nat where "MAX_ENTITIES = 512"

definition relationship_descriptor_ok :: "SemanticRelationshipDescriptor \<Rightarrow> bool" where
  "relationship_descriptor_ok r \<longleftrightarrow>
     identifier_ok (relationship_id r) \<and> identifier_ok (rel_source_entity_id r) \<and>
     identifier_ok (rel_target_entity_id r) \<and> label_ok (rel_label r) \<and>
     length (rel_source_fields r) \<le> MAX_FIELDS \<and> length (rel_target_fields r) \<le> MAX_FIELDS \<and>
     (rel_source_fields r \<noteq> []) = (rel_target_fields r \<noteq> []) \<and>
     length (rel_source_fields r) = length (rel_target_fields r) \<and>
     list_all identifier_ok (rel_source_fields r @ rel_target_fields r) \<and>
     distinct (rel_source_fields r) \<and> distinct (rel_target_fields r)"

definition relationship_descriptor_payload :: "SemanticRelationshipDescriptor \<Rightarrow> jv" where
  "relationship_descriptor_payload r = vdict
     ([(''relationship_id'', VStr (relationship_id r)), (''source_entity_id'', VStr (rel_source_entity_id r)),
       (''target_entity_id'', VStr (rel_target_entity_id r)), (''label'', VStr (rel_label r))] @
      (if rel_source_fields r \<noteq> [] then
         [(''source_fields'', VList (map VStr (rel_source_fields r))),
          (''target_fields'', VList (map VStr (rel_target_fields r)))]
       else []))"

record SemanticEntityDescriptor =
  entity_id :: string
  ent_label :: string
  ent_description :: string
  ent_fields :: "SemanticFieldDescriptor list"
  relationships :: "SemanticRelationshipDescriptor list"
  calculated_fields :: "CalculatedField list option"

definition entity_calculated_fields :: "SemanticEntityDescriptor \<Rightarrow> CalculatedField list" where
  "entity_calculated_fields e = (case calculated_fields e of None \<Rightarrow> [] | Some cs \<Rightarrow> cs)"

definition fields_by_id :: "SemanticEntityDescriptor \<Rightarrow> string \<rightharpoonup> SemanticFieldDescriptor" where
  "fields_by_id e = map_of (map (\<lambda>f. (fd_field_id f, f)) (ent_fields e))"

definition calculated_fields_ok :: "SemanticEntityDescriptor \<Rightarrow> bool" where
  "calculated_fields_ok e =
     (case calculated_fields e of
        None \<Rightarrow> True
      | Some cs \<Rightarrow>
          cs \<noteq> [] \<and> distinct (map cf_name cs) \<and>
          list_all (\<lambda>n. n \<notin> set (map fd_field_id (ent_fields e))) (map cf_name cs) \<and>
          list_all (\<lambda>cf. infer_calculated_output (fields_by_id e) (map cf_name cs) (cf_name cf) (cf_expression cf) =
                           Inr (cf_output_type cf)) cs)"

definition entity_descriptor_ok :: "SemanticEntityDescriptor \<Rightarrow> bool" where
  "entity_descriptor_ok e \<longleftrightarrow>
     identifier_ok (entity_id e) \<and> label_ok (ent_label e) \<and> description_ok (ent_description e) \<and>
     length (ent_fields e) \<le> MAX_FIELDS \<and> list_all field_descriptor_ok (ent_fields e) \<and>
     length (relationships e) \<le> MAX_RELATIONSHIPS \<and> list_all relationship_descriptor_ok (relationships e) \<and>
     length (entity_calculated_fields e) \<le> MAX_CALCULATED_FIELDS \<and> list_all calculated_field_ok (entity_calculated_fields e) \<and>
     distinct (map fd_field_id (ent_fields e)) \<and> distinct (map relationship_id (relationships e)) \<and>
     calculated_fields_ok e"

definition entity_descriptor_payload :: "SemanticEntityDescriptor \<Rightarrow> jv" where
  "entity_descriptor_payload e = vdict
     ([(''entity_id'', VStr (entity_id e)), (''label'', VStr (ent_label e)),
       (''description'', VStr (ent_description e)),
       (''fields'', VList (map field_descriptor_payload (ent_fields e))),
       (''relationships'', VList (map relationship_descriptor_payload (relationships e)))] @
      opt_member ''calculated_fields'' (\<lambda>cs. VList (map calculated_field_payload cs)) (calculated_fields e))"

definition entity_calculated_field :: "SemanticEntityDescriptor \<Rightarrow> string \<Rightarrow> CalculatedField option" where
  "entity_calculated_field e name = List.find (\<lambda>c. cf_name c = name) (entity_calculated_fields e)"

section \<open>Descriptors\<close>

record SemanticDescriptor =
  descriptor_id :: string
  desc_version :: int
  desc_source_id :: string
  desc_catalog_fingerprint :: "string option"
  entities :: "SemanticEntityDescriptor list"

definition field_id_list :: "SemanticEntityDescriptor list \<Rightarrow> string list" where
  "field_id_list es = concat (map (\<lambda>e. map fd_field_id (ent_fields e)) es)"

definition relationship_id_list :: "SemanticEntityDescriptor list \<Rightarrow> string list" where
  "relationship_id_list es = concat (map (\<lambda>e. map relationship_id (relationships e)) es)"

definition calculated_name_list :: "SemanticEntityDescriptor list \<Rightarrow> string list" where
  "calculated_name_list es = concat (map (\<lambda>e. map cf_name (entity_calculated_fields e)) es)"

definition unique_entities :: "SemanticEntityDescriptor list \<Rightarrow> bool" where
  "unique_entities es \<longleftrightarrow>
     distinct (map entity_id es) \<and> distinct (field_id_list es) \<and> distinct (relationship_id_list es) \<and>
     distinct (calculated_name_list es) \<and> list_all (\<lambda>n. n \<notin> set (field_id_list es)) (calculated_name_list es) \<and>
     list_all (\<lambda>e. list_all (\<lambda>r. rel_source_entity_id r \<in> set (map entity_id es) \<and>
                                  rel_target_entity_id r \<in> set (map entity_id es)) (relationships e)) es"

definition descriptor_ok :: "SemanticDescriptor \<Rightarrow> bool" where
  "descriptor_ok d \<longleftrightarrow>
     identifier_ok (descriptor_id d) \<and> 1 \<le> desc_version d \<and> desc_version d \<le> 1000000 \<and>
     identifier_ok (desc_source_id d) \<and> opt_all fingerprint_ok (desc_catalog_fingerprint d) \<and>
     length (entities d) \<le> MAX_ENTITIES \<and> list_all entity_descriptor_ok (entities d) \<and> unique_entities (entities d)"

definition descriptor_payload :: "SemanticDescriptor \<Rightarrow> jv" where
  "descriptor_payload d = vdict
     [(''descriptor_id'', VStr (descriptor_id d)), (''version'', VInt (desc_version d)),
      (''source_id'', VStr (desc_source_id d)),
      (''catalog_fingerprint'', vopt VStr (desc_catalog_fingerprint d)),
      (''entities'', VList (map entity_descriptor_payload (entities d)))]"

definition new_SemanticDescriptor :: "SemanticDescriptor \<Rightarrow> SemanticDescriptor res" where
  "new_SemanticDescriptor d =
     (if descriptor_ok d then Inr d else Inl ValidationError)"

definition descriptor_fingerprint :: "SemanticDescriptor \<Rightarrow> string" where
  "descriptor_fingerprint d = fingerprint_of (descriptor_payload d)"

definition descriptor_entity :: "SemanticDescriptor \<Rightarrow> string \<Rightarrow> SemanticEntityDescriptor option" where
  "descriptor_entity d i = List.find (\<lambda>e. entity_id e = i) (entities d)"

definition descriptor_field :: "SemanticDescriptor \<Rightarrow> string \<Rightarrow> SemanticFieldDescriptor option" where
  "descriptor_field d i = List.find (\<lambda>f. fd_field_id f = i) (concat (map ent_fields (entities d)))"

definition all_field_ids :: "SemanticDescriptor \<Rightarrow> string fset" where
  "all_field_ids d = fset_of_list (field_id_list (entities d))"

definition all_relationship_ids :: "SemanticDescriptor \<Rightarrow> string fset" where
  "all_relationship_ids d = fset_of_list (relationship_id_list (entities d))"

fun first_calculated :: "SemanticEntityDescriptor list \<Rightarrow> string \<Rightarrow> CalculatedField option" where
  "first_calculated [] name = None"
| "first_calculated (e # es) name =
     (case entity_calculated_field e name of None \<Rightarrow> first_calculated es name | Some c \<Rightarrow> Some c)"

definition descriptor_calculated_field :: "SemanticDescriptor \<Rightarrow> string \<Rightarrow> CalculatedField option" where
  "descriptor_calculated_field d name = first_calculated (entities d) name"

definition all_calculated_field_ids :: "SemanticDescriptor \<Rightarrow> string fset" where
  "all_calculated_field_ids d = fset_of_list (calculated_name_list (entities d))"

section \<open>Typing of calculated fields\<close>

text \<open>What inference computes, said without it: a tree is integral when it divides nowhere and reads integer fields only.\<close>

fun integral :: "(string \<rightharpoonup> SemanticFieldDescriptor) \<Rightarrow> ExprNode \<Rightarrow> bool" where
  "integral fs (ExprNode op f c l r) =
     (if op = ''const'' then True
      else if op = ''field'' then (case f of None \<Rightarrow> False | Some x \<Rightarrow> map_option data_type (fs x) = Some ''int'')
      else op \<noteq> ''div'' \<and> (case l of None \<Rightarrow> False | Some l' \<Rightarrow> integral fs l') \<and>
           (case r of None \<Rightarrow> False | Some r' \<Rightarrow> integral fs r'))"

definition computable_field :: "SemanticFieldDescriptor \<Rightarrow> bool" where
  "computable_field f \<longleftrightarrow> data_type f \<in> set CALCULATED_FIELD_LEAF_TYPES \<and> \<not> is_pii f"

lemma infer_leaf_Inr:
  "infer_leaf fs names cf x = Inr t \<longleftrightarrow>
     x \<notin> set names \<and> (\<exists>f. fs x = Some f \<and> computable_field f \<and> t = data_type f)"
  by (auto simp: infer_leaf_def computable_field_def split: option.splits)

lemma infer_sound:
  "infer_calculated_output fs names cf n = Inr t \<Longrightarrow>
     t \<in> {''int'', ''float''} \<and> (t = ''int'' \<longleftrightarrow> integral fs n) \<and>
     (\<forall>x. x |\<in>| field_leaves n \<longrightarrow> x \<notin> set names \<and> (\<exists>f. fs x = Some f \<and> computable_field f))"
proof (induction n arbitrary: t rule: field_leaves.induct)
  case (1 op f c l r)
  consider (const) "op = ''const''" | (leaf) "op = ''field''" | (node) "op \<noteq> ''const''" "op \<noteq> ''field''" by blast
  then show ?case
  proof cases
    case const
    then show ?thesis using 1 by simp
  next
    case leaf
    with "1.prems" obtain x fd where "f = Some x" "x \<notin> set names" "fs x = Some fd" "computable_field fd" "t = data_type fd"
      by (auto simp: infer_leaf_Inr split: option.splits)
    with leaf show ?thesis by (auto simp: computable_field_def CALCULATED_FIELD_LEAF_TYPES_def)
  next
    case node
    with "1.prems" obtain l' r' tl tr where lr: "l = Some l'" "r = Some r'"
      and il: "infer_calculated_output fs names cf l' = Inr tl" and ir: "infer_calculated_output fs names cf r' = Inr tr"
      and t: "t = join_types op tl tr"
      by (auto simp: bind_res_Inr_iff split: option.splits)
    from "1.IH"(1) [OF node(2,1) lr(1) il] "1.IH"(2) [OF node(2,1) lr(2) ir] node lr t
    show ?thesis by (auto simp: join_types_def)
  qed
qed

lemma map_of_find:
  "map_of (map (\<lambda>x. (f x, x)) xs) k = List.find (\<lambda>x. f x = k) xs"
  by (induction xs) auto

lemma find_distinct:
  "distinct (map f xs) \<Longrightarrow> x \<in> set xs \<Longrightarrow> List.find (\<lambda>y. f y = f x) xs = Some x"
  by (induction xs) auto

lemma find_SomeD: "List.find P xs = Some x \<Longrightarrow> x \<in> set xs \<and> P x"
  by (induction xs) (auto split: if_splits)

lemma fields_by_id_Some: "fields_by_id e x = Some f \<Longrightarrow> f \<in> set (ent_fields e) \<and> fd_field_id f = x"
  by (auto simp: fields_by_id_def map_of_find find_Some_iff)

lemma field_id_list_concat: "field_id_list es = map fd_field_id (concat (map ent_fields es))"
  by (simp add: field_id_list_def map_concat comp_def)

lemma descriptor_field_of_entity:
  assumes "descriptor_ok d" "e \<in> set (entities d)" "f \<in> set (ent_fields e)"
  shows "descriptor_field d (fd_field_id f) = Some f"
proof -
  have "distinct (map fd_field_id (concat (map ent_fields (entities d))))"
    using assms(1) by (simp add: descriptor_ok_def unique_entities_def field_id_list_concat)
  moreover have "f \<in> set (concat (map ent_fields (entities d)))" using assms by auto
  ultimately show ?thesis by (simp add: descriptor_field_def find_distinct)
qed

lemma descriptor_field_None: "descriptor_field d x = None \<longleftrightarrow> x |\<notin>| all_field_ids d"
proof -
  have "descriptor_field d x = None \<longleftrightarrow> x \<notin> set (field_id_list (entities d))"
    unfolding descriptor_field_def field_id_list_concat find_None_iff by force
  then show ?thesis by (simp add: all_field_ids_def fset_of_list_elem)
qed

lemma descriptor_entityD:
  "descriptor_ok d \<Longrightarrow> e \<in> set (entities d) \<Longrightarrow> entity_descriptor_ok e"
  by (simp add: descriptor_ok_def list_all_iff)

lemma calculated_inferred:
  assumes "entity_descriptor_ok e" "cf \<in> set (entity_calculated_fields e)"
  shows "calculated_field_ok cf"
    "infer_calculated_output (fields_by_id e) (map cf_name (entity_calculated_fields e)) (cf_name cf) (cf_expression cf) =
       Inr (cf_output_type cf)"
  using assms
  by (auto simp: entity_descriptor_ok_def entity_calculated_fields_def calculated_fields_ok_def list_all_iff split: option.splits)

lemma node_ok_check: "node_ok n \<Longrightarrow> node_check n"
  by (cases n) auto

text \<open>C34.  A descriptor can only be built with calculated fields that are sound: the expression has at most
  64 nodes and depth 16, every field it reads is a numeric field of the same entity that holds no personal
  data and is no calculated field of any entity, \<open>requires\<close> lists exactly these fields, and the output is
  declared \<open>int\<close> exactly when the expression divides nowhere and reads integer fields only.\<close>

theorem calculated_fields_sound:
  assumes built: "new_SemanticDescriptor d = Inr d'"
    and e: "e \<in> set (entities d')" and cf: "cf \<in> set (entity_calculated_fields e)"
  shows "fst (node_measure (cf_expression cf)) \<le> 16 \<and> snd (node_measure (cf_expression cf)) \<le> 64 \<and>
         set (cf_requires cf) = fset (field_leaves (cf_expression cf)) \<and>
         (\<forall>x. x |\<in>| field_leaves (cf_expression cf) \<longrightarrow>
           (\<exists>f \<in> set (ent_fields e). fd_field_id f = x \<and> data_type f \<in> {''int'', ''float''} \<and> \<not> is_pii f) \<and>
           descriptor_calculated_field d' x = None) \<and>
         (cf_output_type cf = ''int'' \<longleftrightarrow> integral (fields_by_id e) (cf_expression cf))"
proof (intro conjI)
  have ok: "descriptor_ok d'" using built
    by (auto simp: new_SemanticDescriptor_def descriptor_ok_def split: if_splits)
  note calc = calculated_inferred [OF descriptor_entityD [OF ok e] cf]
  note typed = infer_sound [OF calc(2)]
  have none: "descriptor_calculated_field d' x = None" if "x |\<in>| field_leaves (cf_expression cf)" for x
  proof -
    from typed that obtain f where "fields_by_id e x = Some f" by blast
    then have "x \<in> set (field_id_list (entities d'))"
      using e fields_by_id_Some [of e x f] by (auto simp: field_id_list_concat)
    then have "x \<notin> set (calculated_name_list (entities d'))"
      using ok by (auto simp: descriptor_ok_def unique_entities_def list_all_iff)
    moreover have "first_calculated es x = None" if "x \<notin> set (calculated_name_list es)" for es
      using that by (induction es) (auto simp: calculated_name_list_def entity_calculated_field_def find_None_iff split: option.splits)
    ultimately show ?thesis by (simp add: descriptor_calculated_field_def)
  qed
  show "fst (node_measure (cf_expression cf)) \<le> 16" "snd (node_measure (cf_expression cf)) \<le> 64"
    using calc(1) by (auto simp: calculated_field_ok_def node_check_def MAX_CF_DEPTH_def MAX_CF_NODES_def dest: node_ok_check)
  show "set (cf_requires cf) = fset (field_leaves (cf_expression cf))"
    using calc(1) unfolding calculated_field_ok_def by (metis fset_of_list.rep_eq)
  show "\<forall>x. x |\<in>| field_leaves (cf_expression cf) \<longrightarrow>
           (\<exists>f \<in> set (ent_fields e). fd_field_id f = x \<and> data_type f \<in> {''int'', ''float''} \<and> \<not> is_pii f) \<and>
           descriptor_calculated_field d' x = None"
    using typed none fields_by_id_Some [of e]
    by (simp add: computable_field_def CALCULATED_FIELD_LEAF_TYPES_def) blast
  show "cf_output_type cf = ''int'' \<longleftrightarrow> integral (fields_by_id e) (cf_expression cf)"
    using typed by blast
qed

section \<open>A concrete descriptor\<close>

definition sample_field :: "string \<Rightarrow> string \<Rightarrow> SemanticFieldDescriptor" where
  "sample_field i t = \<lparr>fd_field_id = i, fd_label = i, fd_description = [], data_type = t,
     allowed_aggregations = {||}, value_semantics = None\<rparr>"

definition sample_total :: CalculatedField where
  "sample_total = \<lparr>cf_name = ''total'', cf_label = ''total'', cf_description = [],
     cf_expression = ExprNode ''mul'' None None (Some (ExprNode ''field'' (Some ''price'') None None None))
                       (Some (ExprNode ''field'' (Some ''units'') None None None)),
     cf_output_type = ''float'', cf_requires = [''units'', ''price''], zero_division_policy = ''null''\<rparr>"

definition sample_orders :: SemanticEntityDescriptor where
  "sample_orders = \<lparr>entity_id = ''orders'', ent_label = ''orders'', ent_description = [],
     ent_fields = [sample_field ''units'' ''int'', sample_field ''price'' ''float''], relationships = [],
     calculated_fields = Some [sample_total]\<rparr>"

definition sample_descriptor :: SemanticDescriptor where
  "sample_descriptor = \<lparr>descriptor_id = ''sales'', desc_version = 1, desc_source_id = ''shop'',
     desc_catalog_fingerprint = None, entities = [sample_orders]\<rparr>"

lemmas sample_descriptor_defs = sample_field_def sample_total_def sample_orders_def sample_descriptor_def

lemma sample_descriptor_ok: "descriptor_ok sample_descriptor"
  by (auto simp: sample_descriptor_defs descriptor_ok_def entity_descriptor_ok_def field_descriptor_ok_def
      label_ok_def description_ok_def pattern_simps MAX_ENTITIES_def MAX_FIELDS_def MAX_CALCULATED_FIELDS_def
      entity_calculated_fields_def calculated_field_ok_def node_check_def node_shape_ok_def CALCULATED_FIELD_OPERATORS_def
      leaf_op_def MAX_CF_DEPTH_def MAX_CF_NODES_def calculated_fields_ok_def infer_leaf_def fields_by_id_def is_pii_def
      CALCULATED_FIELD_LEAF_TYPES_def join_types_def unique_entities_def field_id_list_def relationship_id_list_def
      calculated_name_list_def)

theorem calculated_fields_sound_witness:
  "sample_total \<in> set (entity_calculated_fields sample_orders) \<and> set (cf_requires sample_total) = {''price'', ''units''} \<and>
   \<not> integral (fields_by_id sample_orders) (cf_expression sample_total)"
proof -
  have built: "new_SemanticDescriptor sample_descriptor = Inr sample_descriptor"
    using sample_descriptor_ok by (simp add: new_SemanticDescriptor_def)
  have "sample_total \<in> set (entity_calculated_fields sample_orders)"
    by (simp add: sample_orders_def entity_calculated_fields_def)
  moreover note calculated_fields_sound [OF built, of sample_orders sample_total]
  ultimately show ?thesis by (auto simp: sample_descriptor_def sample_total_def)
qed

end
