(* ===== verification/Bundle_Model.thy ===== *)
theory Bundle_Model
  imports Semantic_Descriptor
begin

text \<open>
  Semantic model bundles and their structural validation:
  \<^verbatim>\<open>src/nl2data_core/bundles/models.py\<close> and \<^verbatim>\<open>src/nl2data_core/bundles/validation.py\<close>.

  Each pydantic model is a record with its validators as a predicate; the fingerprint of a bundle is a
  function of its semantic payload.  The issues of \<open>validate_bundle\<close> are listed in the order of the code;
  an issue that breaks the bounds of its own model makes the whole call raise.

  The theory shows that validation decides a declarative reading of a publishable bundle, that the
  bounds of an issue are met when ids are short, and that with long ids they are not.
\<close>

section \<open>The parts of a bundle\<close>

datatype SemanticTrustKind = AUTHORED | INFERRED_FACT | APPROVED_FACT

datatype BundleQualityStatus = DRAFT_QUALITY | VALIDATED | APPROVED_QUALITY

fun trust_kind_value :: "SemanticTrustKind \<Rightarrow> string" where
  "trust_kind_value AUTHORED = ''authored''"
| "trust_kind_value INFERRED_FACT = ''inferred''"
| "trust_kind_value APPROVED_FACT = ''approved''"

fun quality_value :: "BundleQualityStatus \<Rightarrow> string" where
  "quality_value DRAFT_QUALITY = ''draft''"
| "quality_value VALIDATED = ''validated''"
| "quality_value APPROVED_QUALITY = ''approved''"

record SemanticMeasure =
  measure_id :: string
  ms_field_id :: string
  ms_aggregation :: string
  ms_label :: string
  ms_description :: string

definition measure_ok :: "SemanticMeasure \<Rightarrow> bool" where
  "measure_ok m \<longleftrightarrow>
     identifier_ok (measure_id m) \<and> identifier_ok (ms_field_id m) \<and> ms_aggregation m \<in> set AGGREGATION_KINDS \<and>
     label_ok (ms_label m) \<and> description_ok (ms_description m)"

definition measure_payload :: "SemanticMeasure \<Rightarrow> jv" where
  "measure_payload m = vdict
     [(''measure_id'', VStr (measure_id m)), (''field_id'', VStr (ms_field_id m)),
      (''aggregation'', VStr (ms_aggregation m)), (''label'', VStr (ms_label m)),
      (''description'', VStr (ms_description m))]"

record SemanticGrain =
  grain_id :: string
  gr_entity_id :: string
  gr_attributes :: "string fset"
  gr_description :: string

definition grain_ok :: "SemanticGrain \<Rightarrow> bool" where
  "grain_ok g \<longleftrightarrow>
     identifier_ok (grain_id g) \<and> identifier_ok (gr_entity_id g) \<and> fcard (gr_attributes g) \<le> 4096 \<and>
     fBall (gr_attributes g) identifier_ok \<and> description_ok (gr_description g)"

definition grain_payload :: "SemanticGrain \<Rightarrow> jv" where
  "grain_payload g = vdict
     [(''grain_id'', VStr (grain_id g)), (''entity_id'', VStr (gr_entity_id g)),
      (''attributes'', VList (map VStr (sorted_list_of_fset (gr_attributes g)))),
      (''description'', VStr (gr_description g))]"

record SemanticSourceReference =
  reference_id :: string
  sr_source_id :: string
  sr_catalog_fingerprint :: "string option"
  sr_description :: string

definition source_reference_ok :: "SemanticSourceReference \<Rightarrow> bool" where
  "source_reference_ok s \<longleftrightarrow>
     identifier_ok (reference_id s) \<and> identifier_ok (sr_source_id s) \<and>
     opt_all fingerprint_ok (sr_catalog_fingerprint s) \<and> description_ok (sr_description s)"

definition source_reference_payload :: "SemanticSourceReference \<Rightarrow> jv" where
  "source_reference_payload s = vdict
     [(''reference_id'', VStr (reference_id s)), (''source_id'', VStr (sr_source_id s)),
      (''catalog_fingerprint'', vopt VStr (sr_catalog_fingerprint s)), (''description'', VStr (sr_description s))]"

record BundleDependency =
  dependency_id :: string
  dep_bundle_id :: string
  dep_version :: string
  dep_fingerprint :: string

definition dependency_ok :: "BundleDependency \<Rightarrow> bool" where
  "dependency_ok d \<longleftrightarrow>
     identifier_ok (dependency_id d) \<and> identifier_ok (dep_bundle_id d) \<and> identifier_ok (dep_version d) \<and>
     fingerprint_ok (dep_fingerprint d)"

definition dependency_payload :: "BundleDependency \<Rightarrow> jv" where
  "dependency_payload d = vdict
     [(''dependency_id'', VStr (dependency_id d)), (''bundle_id'', VStr (dep_bundle_id d)),
      (''version'', VStr (dep_version d)), (''fingerprint'', VStr (dep_fingerprint d))]"

record SemanticTrustMarker =
  marker_id :: string
  fact_id :: string
  trust_kind :: SemanticTrustKind
  marker_approved :: bool
  note_text :: string

definition trust_marker_ok :: "SemanticTrustMarker \<Rightarrow> bool" where
  "trust_marker_ok m \<longleftrightarrow>
     identifier_ok (marker_id m) \<and> identifier_ok (fact_id m) \<and> description_ok (note_text m) \<and>
     \<not> (trust_kind m = APPROVED_FACT \<and> \<not> marker_approved m) \<and> \<not> (trust_kind m = AUTHORED \<and> marker_approved m)"

definition trust_marker_payload :: "SemanticTrustMarker \<Rightarrow> jv" where
  "trust_marker_payload m = vdict
     [(''marker_id'', VStr (marker_id m)), (''fact_id'', VStr (fact_id m)),
      (''kind'', VStr (trust_kind_value (trust_kind m))), (''approved'', VBool (marker_approved m)),
      (''note'', VStr (note_text m))]"

record BundleProvenance =
  owner_reference :: string
  created_by_fingerprint :: "string option"
  bp_created_at :: timestamp
  quality :: BundleQualityStatus

definition bundle_provenance_ok :: "BundleProvenance \<Rightarrow> bool" where
  "bundle_provenance_ok p \<longleftrightarrow>
     1 \<le> length (owner_reference p) \<and> length (owner_reference p) \<le> 256 \<and> safe_description (owner_reference p) \<and>
     opt_all fingerprint_ok (created_by_fingerprint p)"

definition bundle_provenance_payload :: "BundleProvenance \<Rightarrow> jv" where
  "bundle_provenance_payload p = vdict
     [(''owner_reference'', VStr (owner_reference p)),
      (''created_by_fingerprint'', vopt VStr (created_by_fingerprint p)),
      (''created_at'', VStr (isoformat (bp_created_at p))), (''quality'', VStr (quality_value (quality p)))]"

record BundleCompatibility =
  compatible_catalog_fingerprints :: "string fset"
  compat_notes :: string

definition compatibility_ok :: "BundleCompatibility \<Rightarrow> bool" where
  "compatibility_ok c \<longleftrightarrow>
     fcard (compatible_catalog_fingerprints c) \<le> 64 \<and> fBall (compatible_catalog_fingerprints c) fingerprint_ok \<and>
     description_ok (compat_notes c)"

definition compatibility_payload :: "BundleCompatibility \<Rightarrow> jv" where
  "compatibility_payload c = vdict
     [(''compatible_catalog_fingerprints'',
         VList (map VStr (sorted_list_of_fset (compatible_catalog_fingerprints c)))),
      (''notes'', VStr (compat_notes c))]"

section \<open>Bundles\<close>

record SemanticModelBundle =
  schema_version :: int
  bundle_id :: string
  model_version :: string
  descriptor :: SemanticDescriptor
  measures :: "SemanticMeasure list"
  grains :: "SemanticGrain list"
  sources :: "SemanticSourceReference list"
  dependencies :: "BundleDependency list"
  trust_markers :: "SemanticTrustMarker list"
  compatibility :: BundleCompatibility
  bundle_provenance :: BundleProvenance

definition BUNDLE_SCHEMA_VERSION :: int where "BUNDLE_SCHEMA_VERSION = 1"

definition bundle_ok :: "SemanticModelBundle \<Rightarrow> bool" where
  "bundle_ok b \<longleftrightarrow>
     schema_version b = 1 \<and> identifier_ok (bundle_id b) \<and> identifier_ok (model_version b) \<and>
     descriptor_ok (descriptor b) \<and>
     length (measures b) \<le> 4096 \<and> list_all measure_ok (measures b) \<and> distinct (map measure_id (measures b)) \<and>
     length (grains b) \<le> 256 \<and> list_all grain_ok (grains b) \<and> distinct (map grain_id (grains b)) \<and>
     length (sources b) \<le> 64 \<and> list_all source_reference_ok (sources b) \<and> distinct (map reference_id (sources b)) \<and>
     length (dependencies b) \<le> 64 \<and> list_all dependency_ok (dependencies b) \<and>
     distinct (map dependency_id (dependencies b)) \<and>
     length (trust_markers b) \<le> 4096 \<and> list_all trust_marker_ok (trust_markers b) \<and>
     distinct (map marker_id (trust_markers b)) \<and>
     compatibility_ok (compatibility b) \<and> bundle_provenance_ok (bundle_provenance b)"

definition semantic_members :: "SemanticModelBundle \<Rightarrow> (string \<times> jv) list" where
  "semantic_members b =
     [(''descriptor'', descriptor_payload (descriptor b)),
      (''measures'', VList (map measure_payload (sort_key measure_id (measures b)))),
      (''grains'', VList (map grain_payload (sort_key grain_id (grains b)))),
      (''sources'', VList (map source_reference_payload (sort_key reference_id (sources b)))),
      (''dependencies'', VList (map dependency_payload (sort_key dependency_id (dependencies b)))),
      (''compatibility'', compatibility_payload (compatibility b))]"

definition bundle_payload :: "SemanticModelBundle \<Rightarrow> jv" where
  "bundle_payload b = vdict (semantic_members b)"

definition bundle_fingerprint :: "SemanticModelBundle \<Rightarrow> string" where
  "bundle_fingerprint b = fingerprint_of (bundle_payload b)"

definition new_SemanticModelBundle :: "SemanticModelBundle \<Rightarrow> SemanticModelBundle res" where
  "new_SemanticModelBundle b = (if bundle_ok b then Inr b else Inl ValidationError)"

definition file_members :: "SemanticModelBundle \<Rightarrow> (string \<times> jv) list" where
  "file_members b =
     [(''schema_version'', VInt (schema_version b)), (''bundle_id'', VStr (bundle_id b)),
      (''model_version'', VStr (model_version b))] @ semantic_members b @
     [(''trust_markers'', VList (map trust_marker_payload (sort_key marker_id (trust_markers b)))),
      (''provenance'', bundle_provenance_payload (bundle_provenance b))]"

definition file_payload :: "SemanticModelBundle \<Rightarrow> jv" where
  "file_payload b = vdict (file_members b)"

definition serialize_canonical :: "SemanticModelBundle \<Rightarrow> string canon" where
  "serialize_canonical b = strict_canonical_json (file_payload b)"

definition bundle_safe_payload :: "SemanticModelBundle \<Rightarrow> jv" where
  "bundle_safe_payload b = vdict (file_members b @ [(''fingerprint'', VStr (bundle_fingerprint b))])"

definition bundle_entity_ids :: "SemanticModelBundle \<Rightarrow> string list" where
  "bundle_entity_ids b = map entity_id (entities (descriptor b))"

section \<open>Validation\<close>

record BundleIssue =
  issue_code :: string
  issue_message :: string
  issue_member_id :: "string option"

definition bundle_issue_ok :: "BundleIssue \<Rightarrow> bool" where
  "bundle_issue_ok i \<longleftrightarrow>
     1 \<le> length (issue_code i) \<and> length (issue_code i) \<le> 64 \<and> 1 \<le> length (issue_message i) \<and>
     length (issue_message i) \<le> 256 \<and> opt_all identifier_ok (issue_member_id i)"

definition bundle_issue :: "string \<Rightarrow> string \<Rightarrow> string option \<Rightarrow> BundleIssue" where
  "bundle_issue c m i = \<lparr>issue_code = c, issue_message = m, issue_member_id = i\<rparr>"

definition issue_if :: "bool \<Rightarrow> BundleIssue \<Rightarrow> BundleIssue list" where
  "issue_if c i = (if c then [i] else [])"

definition schema_issues :: "int list \<Rightarrow> SemanticModelBundle \<Rightarrow> BundleIssue list" where
  "schema_issues supported b =
     issue_if (schema_version b \<notin> set supported)
       (bundle_issue ''incompatible_schema''
          (''bundle schema version '' @ string_of_int (schema_version b) @ '' is not supported by this runtime'') None)"

definition source_identity_missing :: "SemanticModelBundle \<Rightarrow> bool" where
  "source_identity_missing b \<longleftrightarrow> \<not> list_ex (\<lambda>s. sr_source_id s = desc_source_id (descriptor b)) (sources b)"

definition catalog_incompatible :: "SemanticModelBundle \<Rightarrow> bool" where
  "catalog_incompatible b =
     (compatible_catalog_fingerprints (compatibility b) \<noteq> {||} \<and>
      (case desc_catalog_fingerprint (descriptor b) of
         None \<Rightarrow> True
       | Some c \<Rightarrow> c |\<notin>| compatible_catalog_fingerprints (compatibility b)))"

definition source_issues :: "SemanticModelBundle \<Rightarrow> BundleIssue list" where
  "source_issues b =
     (if sources b = [] then
        [bundle_issue ''missing_sources'' ''a bundle must declare at least one source reference'' None]
      else
        issue_if (source_identity_missing b)
          (bundle_issue ''source_identity_mismatch'' ''bundle sources must include the descriptor source identity''
             (Some (desc_source_id (descriptor b)))) @
        issue_if (catalog_incompatible b)
          (bundle_issue ''catalog_incompatible''
             ''bundle compatibility metadata does not include the descriptor catalog fingerprint''
             (Some (descriptor_id (descriptor b)))))"

definition quality_issues :: "SemanticModelBundle \<Rightarrow> BundleIssue list" where
  "quality_issues b =
     issue_if (quality (bundle_provenance b) = DRAFT_QUALITY)
       (bundle_issue ''quality_not_met'' ''draft bundles cannot be published or activated'' None)"

definition snapshot_issues :: "string option \<Rightarrow> SemanticModelBundle \<Rightarrow> BundleIssue list" where
  "snapshot_issues expected b =
     (case expected of
        None \<Rightarrow> []
      | Some e \<Rightarrow>
          (case desc_catalog_fingerprint (descriptor b) of
             None \<Rightarrow>
               [bundle_issue ''snapshot_unbound''
                  (''bundle descriptor is not bound to any source snapshot; '' @
                   ''discovery-backed activation requires a snapshot binding'') (Some (descriptor_id (descriptor b)))]
           | Some bound \<Rightarrow>
               issue_if (bound \<noteq> e)
                 (bundle_issue ''snapshot_stale''
                    (''bundle descriptor is bound to a different source snapshot '' @
                     ''than the active discovery snapshot'') (Some (descriptor_id (descriptor b))))))"

definition measure_issues :: "SemanticModelBundle \<Rightarrow> SemanticMeasure \<Rightarrow> BundleIssue list" where
  "measure_issues b m =
     (case descriptor_field (descriptor b) (ms_field_id m) of
        None \<Rightarrow>
          [bundle_issue ''unknown_field'' (''measure '' @ quoted (measure_id m) @ '' references an unknown field'')
             (Some (ms_field_id m))]
      | Some f \<Rightarrow>
          if ms_aggregation m \<notin> set AGGREGATION_KINDS then
            [bundle_issue ''invalid_aggregation''
               (''measure '' @ quoted (measure_id m) @ '' declares an invalid aggregation'') (Some (measure_id m))]
          else
            issue_if (allowed_aggregations f \<noteq> {||} \<and> ms_aggregation m |\<notin>| allowed_aggregations f)
              (bundle_issue ''aggregation_not_allowed''
                 (''measure '' @ quoted (measure_id m) @ '' aggregates '' @ quoted (ms_field_id m) @
                  '' beyond the descriptor's allowed set'') (Some (ms_field_id m))))"

text \<open>The dict of field ids by entity: entity ids are unique, so the entry of an id is that of its entity.\<close>

definition entity_field_ids :: "SemanticModelBundle \<Rightarrow> string \<rightharpoonup> string fset" where
  "entity_field_ids b =
     map_of (map (\<lambda>e. (entity_id e, fset_of_list (map fd_field_id (ent_fields e)))) (rev (entities (descriptor b))))"

definition grain_issues :: "SemanticModelBundle \<Rightarrow> SemanticGrain \<Rightarrow> BundleIssue list" where
  "grain_issues b g =
     (case entity_field_ids b (gr_entity_id g) of
        None \<Rightarrow>
          [bundle_issue ''unknown_entity'' (''grain '' @ quoted (grain_id g) @ '' references an unknown entity'')
             (Some (gr_entity_id g))]
      | Some known \<Rightarrow>
          (case sorted_list_of_fset (gr_attributes g |-| known) of
             [] \<Rightarrow> []
           | a # _ \<Rightarrow>
               [bundle_issue ''unknown_attribute''
                  (''grain '' @ quoted (grain_id g) @ '' references fields outside entity '' @ quoted (gr_entity_id g))
                  (Some a)]))"

definition marker_issues :: "SemanticModelBundle \<Rightarrow> SemanticTrustMarker \<Rightarrow> BundleIssue list" where
  "marker_issues b m =
     issue_if (fact_id m |\<notin>| all_relationship_ids (descriptor b) \<and> fact_id m |\<notin>| all_field_ids (descriptor b))
       (bundle_issue ''unknown_fact''
          (''trust marker '' @ quoted (marker_id m) @ '' references an unknown relationship or field'')
          (Some (fact_id m)))"

definition self_dependency_issues :: "SemanticModelBundle \<Rightarrow> BundleDependency \<Rightarrow> BundleIssue list" where
  "self_dependency_issues b d =
     issue_if (dep_bundle_id d = bundle_id b \<and> dep_version d = model_version b)
       (bundle_issue ''self_dependency'' ''a bundle cannot depend on itself at the same version''
          (Some (dependency_id d)))"

definition calculated_references :: "SemanticEntityDescriptor \<Rightarrow> string fset" where
  "calculated_references e = fold (\<lambda>cf s. s |\<union>| field_leaves (cf_expression cf)) (entity_calculated_fields e) {||}"

definition pii_issues :: "SemanticEntityDescriptor \<Rightarrow> BundleIssue list" where
  "pii_issues e =
     concat (map (\<lambda>f.
       issue_if (fd_field_id f |\<in>| calculated_references e \<and> is_pii f)
         (bundle_issue ''CF_004''
            (''field '' @ quoted (fd_field_id f) @
             '' is declared pii and is referenced by a declared calculated field of entity '' @ quoted (entity_id e))
            (Some (fd_field_id f)))) (ent_fields e))"

definition bundle_issues :: "int list \<Rightarrow> string option \<Rightarrow> SemanticModelBundle \<Rightarrow> BundleIssue list" where
  "bundle_issues supported expected b =
     schema_issues supported b @ source_issues b @ quality_issues b @ snapshot_issues expected b @
     concat (map (measure_issues b) (measures b)) @ concat (map (grain_issues b) (grains b)) @
     concat (map (marker_issues b) (trust_markers b)) @
     concat (map (self_dependency_issues b) (dependencies b)) @ concat (map pii_issues (entities (descriptor b)))"

record BundleValidationResult =
  bv_valid :: bool
  bv_issues :: "BundleIssue list"
  bv_issue_count :: nat
  bv_truncated :: bool

definition MAX_VALIDATION_ISSUES :: nat where "MAX_VALIDATION_ISSUES = 64"

definition validate_bundle :: "int list \<Rightarrow> string option \<Rightarrow> SemanticModelBundle \<Rightarrow> BundleValidationResult res" where
  "validate_bundle supported expected b =
     (let issues = bundle_issues supported expected b
      in if list_all bundle_issue_ok issues then
           Inr \<lparr>bv_valid = (issues = []), bv_issues = take MAX_VALIDATION_ISSUES issues,
                bv_issue_count = length issues, bv_truncated = (MAX_VALIDATION_ISSUES < length issues)\<rparr>
         else Inl ValidationError)"

section \<open>What a publishable bundle is\<close>

definition grain_within :: "SemanticModelBundle \<Rightarrow> SemanticGrain \<Rightarrow> bool" where
  "grain_within b g \<longleftrightarrow>
     (\<exists>e \<in> set (entities (descriptor b)). entity_id e = gr_entity_id g \<and>
        (\<forall>a. a |\<in>| gr_attributes g \<longrightarrow> (\<exists>f \<in> set (ent_fields e). fd_field_id f = a)))"

definition measure_within :: "SemanticModelBundle \<Rightarrow> SemanticMeasure \<Rightarrow> bool" where
  "measure_within b m \<longleftrightarrow>
     (\<exists>e \<in> set (entities (descriptor b)). \<exists>f \<in> set (ent_fields e). fd_field_id f = ms_field_id m \<and>
        (allowed_aggregations f = {||} \<or> ms_aggregation m |\<in>| allowed_aggregations f))"

definition publishable :: "int list \<Rightarrow> string option \<Rightarrow> SemanticModelBundle \<Rightarrow> bool" where
  "publishable supported expected b \<longleftrightarrow>
     schema_version b \<in> set supported \<and>
     (\<exists>s \<in> set (sources b). sr_source_id s = desc_source_id (descriptor b)) \<and>
     (compatible_catalog_fingerprints (compatibility b) = {||} \<or>
      (\<exists>c. desc_catalog_fingerprint (descriptor b) = Some c \<and> c |\<in>| compatible_catalog_fingerprints (compatibility b))) \<and>
     quality (bundle_provenance b) \<noteq> DRAFT_QUALITY \<and>
     (\<forall>e. expected = Some e \<longrightarrow> desc_catalog_fingerprint (descriptor b) = Some e) \<and>
     (\<forall>m \<in> set (measures b). measure_within b m) \<and> (\<forall>g \<in> set (grains b). grain_within b g) \<and>
     (\<forall>m \<in> set (trust_markers b).
        fact_id m |\<in>| all_relationship_ids (descriptor b) \<or> fact_id m |\<in>| all_field_ids (descriptor b)) \<and>
     (\<forall>d \<in> set (dependencies b). (dep_bundle_id d, dep_version d) \<noteq> (bundle_id b, model_version b))"

section \<open>Issues and their absence\<close>

lemma issue_if_Nil [simp]: "issue_if c i = [] \<longleftrightarrow> \<not> c"
  by (simp add: issue_if_def)

lemma in_issue_if [simp]: "j \<in> set (issue_if c i) \<longleftrightarrow> c \<and> j = i"
  by (auto simp: issue_if_def)

lemma bundle_okD:
  assumes "bundle_ok b"
  shows "descriptor_ok (descriptor b)" "m \<in> set (measures b) \<Longrightarrow> measure_ok m" "g \<in> set (grains b) \<Longrightarrow> grain_ok g"
    "d \<in> set (dependencies b) \<Longrightarrow> dependency_ok d" "t \<in> set (trust_markers b) \<Longrightarrow> trust_marker_ok t"
  using assms by (simp_all add: bundle_ok_def list_all_iff)

lemma measure_issues_Nil:
  assumes "bundle_ok b" "m \<in> set (measures b)"
  shows "measure_issues b m = [] \<longleftrightarrow> measure_within b m"
proof -
  note dok = bundle_okD(1) [OF assms(1)]
  have agg: "ms_aggregation m \<in> set AGGREGATION_KINDS" using bundle_okD(2) [OF assms] by (simp add: measure_ok_def)
  show ?thesis
  proof (cases "descriptor_field (descriptor b) (ms_field_id m)")
    case None
    then have "ms_field_id m \<notin> set (field_id_list (entities (descriptor b)))"
      by (simp add: descriptor_field_None all_field_ids_def fset_of_list_elem)
    then have "fd_field_id f \<noteq> ms_field_id m" if "e \<in> set (entities (descriptor b))" "f \<in> set (ent_fields e)" for e f
      using that by (force simp: field_id_list_def)
    then have "\<not> measure_within b m" by (auto simp: measure_within_def)
    with None show ?thesis by (simp add: measure_issues_def)
  next
    case (Some f)
    then have f: "fd_field_id f = ms_field_id m" "\<exists>e \<in> set (entities (descriptor b)). f \<in> set (ent_fields e)"
      by (auto simp: descriptor_field_def find_Some_iff in_set_conv_nth dest: nth_mem)
    have "f' = f" if "e \<in> set (entities (descriptor b))" "f' \<in> set (ent_fields e)" "fd_field_id f' = ms_field_id m" for e f'
      using descriptor_field_of_entity [OF dok that(1,2)] that(3) Some by simp
    with f have "measure_within b m \<longleftrightarrow> allowed_aggregations f = {||} \<or> ms_aggregation m |\<in>| allowed_aggregations f"
      unfolding measure_within_def by blast
    with Some agg show ?thesis by (auto simp: measure_issues_def)
  qed
qed

lemma entity_field_ids_Some:
  assumes "descriptor_ok (descriptor b)"
  shows "entity_field_ids b i = Some known \<longleftrightarrow>
    (\<exists>e \<in> set (entities (descriptor b)). entity_id e = i \<and> known = fset_of_list (map fd_field_id (ent_fields e)))"
proof -
  have "distinct (map entity_id (rev (entities (descriptor b))))"
    using assms by (simp add: descriptor_ok_def unique_entities_def rev_map [symmetric])
  then show ?thesis by (auto simp: entity_field_ids_def map_of_eq_Some_iff comp_def)
qed

lemma grain_issues_Nil:
  assumes "bundle_ok b"
  shows "grain_issues b g = [] \<longleftrightarrow> grain_within b g"
proof (cases "entity_field_ids b (gr_entity_id g)")
  case None
  then have "\<not> grain_within b g"
    using entity_field_ids_Some [OF bundle_okD(1) [OF assms], of "gr_entity_id g"] by (auto simp: grain_within_def)
  with None show ?thesis by (simp add: grain_issues_def)
next
  case (Some known)
  note found = entity_field_ids_Some [OF bundle_okD(1) [OF assms]]
  then obtain e where e: "e \<in> set (entities (descriptor b))" "entity_id e = gr_entity_id g"
    "known = fset_of_list (map fd_field_id (ent_fields e))" using Some by blast
  have one: "fset_of_list (map fd_field_id (ent_fields e')) = known"
    if "e' \<in> set (entities (descriptor b))" "entity_id e' = gr_entity_id g" for e'
    using that Some found [of "gr_entity_id g" "fset_of_list (map fd_field_id (ent_fields e'))"] by auto
  have "grain_within b g \<longleftrightarrow> gr_attributes g |\<subseteq>| known"
  proof
    assume "grain_within b g"
    then obtain e' where e': "e' \<in> set (entities (descriptor b))" "entity_id e' = gr_entity_id g"
      and sub: "\<forall>a. a |\<in>| gr_attributes g \<longrightarrow> (\<exists>f \<in> set (ent_fields e'). fd_field_id f = a)"
      unfolding grain_within_def by blast
    show "gr_attributes g |\<subseteq>| known"
      using sub unfolding one [OF e', symmetric] by (auto simp: fset_of_list_elem)
  next
    assume "gr_attributes g |\<subseteq>| known"
    then have "\<forall>a. a |\<in>| gr_attributes g \<longrightarrow> (\<exists>f \<in> set (ent_fields e). fd_field_id f = a)"
      unfolding e(3) less_eq_fset.rep_eq fset_of_list.rep_eq by auto
    with e(1,2) show "grain_within b g" unfolding grain_within_def by blast
  qed
  moreover have "sorted_list_of_fset (gr_attributes g |-| known) = [] \<longleftrightarrow> gr_attributes g |\<subseteq>| known"
    by (auto simp: sorted_list_of_fset.rep_eq less_eq_fset.rep_eq minus_fset.rep_eq)
  ultimately show ?thesis using Some by (auto simp: grain_issues_def split: list.splits)
qed

lemma pii_issues_Nil:
  assumes "entity_descriptor_ok e"
  shows "pii_issues e = []"
proof -
  have refs: "\<exists>cf \<in> set (entity_calculated_fields e). x |\<in>| field_leaves (cf_expression cf)" if "x |\<in>| calculated_references e" for x
    using that unfolding calculated_references_def fold_union_map by simp
  have clean: "\<not> is_pii f" if "fd_field_id f |\<in>| calculated_references e" "f \<in> set (ent_fields e)" for f
  proof -
    from refs [OF that(1)] obtain cf where cf: "cf \<in> set (entity_calculated_fields e)"
      and leaf: "fd_field_id f |\<in>| field_leaves (cf_expression cf)" by blast
    from infer_sound [OF calculated_inferred(2) [OF assms cf]] leaf
    obtain f' where f': "fields_by_id e (fd_field_id f) = Some f'" "\<not> is_pii f'" by (auto simp: computable_field_def)
    have "distinct (map fd_field_id (ent_fields e))" using assms by (simp add: entity_descriptor_ok_def)
    with that(2) f'(1) have "f' = f" by (simp add: fields_by_id_def map_of_find find_distinct)
    with f'(2) show ?thesis by simp
  qed
  show ?thesis unfolding pii_issues_def using clean by auto
qed

lemma source_issues_Nil:
  "source_issues b = [] \<longleftrightarrow> (\<exists>s \<in> set (sources b). sr_source_id s = desc_source_id (descriptor b)) \<and> \<not> catalog_incompatible b"
  by (auto simp: source_issues_def source_identity_missing_def list_ex_iff)

lemma catalog_incompatible_iff:
  "\<not> catalog_incompatible b \<longleftrightarrow> compatible_catalog_fingerprints (compatibility b) = {||} \<or>
     (\<exists>c. desc_catalog_fingerprint (descriptor b) = Some c \<and> c |\<in>| compatible_catalog_fingerprints (compatibility b))"
  by (auto simp: catalog_incompatible_def split: option.splits)

lemma snapshot_issues_Nil:
  "snapshot_issues expected b = [] \<longleftrightarrow> (\<forall>e. expected = Some e \<longrightarrow> desc_catalog_fingerprint (descriptor b) = Some e)"
  by (auto simp: snapshot_issues_def split: option.splits)

lemma bundle_issues_Nil:
  assumes "bundle_ok b"
  shows "bundle_issues supported expected b = [] \<longleftrightarrow> publishable supported expected b"
proof -
  have "concat (map pii_issues (entities (descriptor b))) = []"
    using pii_issues_Nil descriptor_entityD [OF bundle_okD(1) [OF assms]] by simp
  moreover have "(\<forall>m \<in> set (measures b). measure_issues b m = []) \<longleftrightarrow> (\<forall>m \<in> set (measures b). measure_within b m)"
    using measure_issues_Nil [OF assms] by blast
  ultimately show ?thesis
    by (simp add: bundle_issues_def publishable_def schema_issues_def quality_issues_def marker_issues_def
        self_dependency_issues_def source_issues_Nil catalog_incompatible_iff snapshot_issues_Nil
        grain_issues_Nil [OF assms] imp_conjL)
qed

text \<open>C33.  Bundle validation accepts exactly the publishable bundles: a supported schema, a source that is the
  descriptor's, a compatible catalog, no draft quality, the expected snapshot, measures and grains within the
  descriptor, trust markers of declared facts, and no dependency on itself.  A bundle that is accepted carries
  no issue, and a publishable bundle is never turned away by an exception.\<close>

theorem bundle_validation_decides_publishable:
  assumes "new_SemanticModelBundle raw = Inr b"
  shows "((\<exists>r. validate_bundle supported expected b = Inr r \<and> bv_valid r \<and> bv_issues r = [] \<and> \<not> bv_truncated r)
            \<longleftrightarrow> publishable supported expected b) \<and>
         (\<forall>r. validate_bundle supported expected b = Inr r \<longrightarrow> (bv_valid r \<longleftrightarrow> publishable supported expected b))"
proof -
  have "bundle_ok b" using assms by (auto simp: new_SemanticModelBundle_def split: if_splits)
  from bundle_issues_Nil [OF this, of supported expected] show ?thesis
    by (auto simp: validate_bundle_def Let_def split: if_splits)
qed

section \<open>Bounds of the issues\<close>

text \<open>Ids short enough that every message keeps its bound of 256 characters.\<close>

definition short_ids :: "SemanticModelBundle \<Rightarrow> bool" where
  "short_ids b \<longleftrightarrow>
     (\<forall>m \<in> set (measures b). length (measure_id m) + length (ms_field_id m) \<le> 196) \<and>
     (\<forall>g \<in> set (grains b). length (grain_id g) + length (gr_entity_id g) \<le> 210)"

lemma digits_bound: "length (string_of_int 1) = 1"
  by (simp add: string_of_int_def string_of_nat.simps [of "Suc 0"] del: string_of_nat.simps)

lemma measure_issue_ok:
  assumes "bundle_ok b" "m \<in> set (measures b)" "length (measure_id m) + length (ms_field_id m) \<le> 196"
    "i \<in> set (measure_issues b m)"
  shows "bundle_issue_ok i"
proof -
  have "measure_ok m" using bundle_okD(2) [OF assms(1,2)] .
  then have "identifier_ok (measure_id m)" "identifier_ok (ms_field_id m)" by (simp_all add: measure_ok_def)
  with assms(3,4) show ?thesis
    using identifier_ok_length [of "measure_id m"]
    by (auto simp: measure_issues_def bundle_issue_def bundle_issue_ok_def split: option.splits if_splits)
qed

lemma grain_issue_ok:
  assumes "bundle_ok b" "g \<in> set (grains b)" "length (grain_id g) + length (gr_entity_id g) \<le> 210"
    "i \<in> set (grain_issues b g)"
  shows "bundle_issue_ok i"
proof -
  have g: "identifier_ok (grain_id g)" "identifier_ok (gr_entity_id g)" "fBall (gr_attributes g) identifier_ok"
    using bundle_okD(3) [OF assms(1,2)] by (simp_all add: grain_ok_def)
  show ?thesis
  proof (cases "entity_field_ids b (gr_entity_id g)")
    case None
    with assms(4) g identifier_ok_length [OF g(1)] show ?thesis
      by (simp add: grain_issues_def bundle_issue_def bundle_issue_ok_def)
  next
    case (Some known)
    with assms(4) have "sorted_list_of_fset (gr_attributes g |-| known) \<noteq> []" by (auto simp: grain_issues_def)
    then obtain a r where a: "sorted_list_of_fset (gr_attributes g |-| known) = a # r" by (metis list.exhaust)
    then have "a \<in> set (sorted_list_of_fset (gr_attributes g |-| known))" by simp
    then have "identifier_ok a" using g(3) by (auto simp: sorted_list_of_fset.rep_eq)
    with Some a assms(3,4) show ?thesis by (simp add: grain_issues_def bundle_issue_def bundle_issue_ok_def)
  qed
qed

lemma other_issue_ok:
  assumes "bundle_ok b"
    and "i \<in> set (schema_issues supported b @ source_issues b @ quality_issues b @ snapshot_issues expected b @
              concat (map (marker_issues b) (trust_markers b)) @ concat (map (self_dependency_issues b) (dependencies b)))"
  shows "bundle_issue_ok i"
proof -
  have ids: "identifier_ok (desc_source_id (descriptor b))" "identifier_ok (descriptor_id (descriptor b))"
    using bundle_okD(1) [OF assms(1)] by (simp_all add: descriptor_ok_def)
  have schema: "schema_version b = 1" using assms(1) by (simp add: bundle_ok_def)
  have marker: "bundle_issue_ok i" if "m \<in> set (trust_markers b)" "i \<in> set (marker_issues b m)" for m
    using bundle_okD(5) [OF assms(1) that(1)] that(2) identifier_ok_length [of "marker_id m"]
    by (auto simp: marker_issues_def bundle_issue_def bundle_issue_ok_def trust_marker_ok_def)
  have dep: "bundle_issue_ok i" if "d \<in> set (dependencies b)" "i \<in> set (self_dependency_issues b d)" for d
    using bundle_okD(4) [OF assms(1) that(1)] that(2)
    by (auto simp: self_dependency_issues_def bundle_issue_def bundle_issue_ok_def dependency_ok_def)
  show ?thesis
    using assms(2) marker dep ids schema digits_bound
    by (auto simp: schema_issues_def source_issues_def quality_issues_def snapshot_issues_def bundle_issue_def
        bundle_issue_ok_def split: option.splits if_splits)
qed

text \<open>
  Validation returns a structured result for every bundle whose ids are short; at most 64 issues are reported.
\<close>

theorem bundle_validation_returns:
  assumes "bundle_ok b" "short_ids b"
  shows "\<exists>r. validate_bundle supported expected b = Inr r \<and> length (bv_issues r) \<le> 64"
proof -
  have "concat (map pii_issues (entities (descriptor b))) = []"
    using pii_issues_Nil descriptor_entityD [OF bundle_okD(1) [OF assms(1)]] by simp
  then have split: "bundle_issues supported expected b =
      schema_issues supported b @ source_issues b @ quality_issues b @ snapshot_issues expected b @
      concat (map (measure_issues b) (measures b)) @ concat (map (grain_issues b) (grains b)) @
      concat (map (marker_issues b) (trust_markers b)) @ concat (map (self_dependency_issues b) (dependencies b))"
    by (simp add: bundle_issues_def)
  have "bundle_issue_ok i" if i: "i \<in> set (bundle_issues supported expected b)" for i
  proof (cases "i \<in> set (concat (map (measure_issues b) (measures b))) \<or> i \<in> set (concat (map (grain_issues b) (grains b)))")
    case True
    then show ?thesis
      using measure_issue_ok [OF assms(1)] grain_issue_ok [OF assms(1)] assms(2) by (auto simp: short_ids_def)
  next
    case False
    with i show ?thesis
      unfolding split by (intro other_issue_ok [OF assms(1), of i supported expected]) (simp only: set_append Un_iff, blast)
  qed
  then have "list_all bundle_issue_ok (bundle_issues supported expected b)" by (simp add: list_all_iff)
  then show ?thesis by (simp add: validate_bundle_def Let_def MAX_VALIDATION_ISSUES_def)
qed

section \<open>Concrete bundles\<close>

definition sample_bundle :: "string \<Rightarrow> SemanticMeasure list \<Rightarrow> SemanticModelBundle" where
  "sample_bundle version ms =
     \<lparr>schema_version = 1, bundle_id = ''sales'', model_version = version, descriptor = sample_descriptor,
      measures = ms, grains = [],
      sources = [\<lparr>reference_id = ''src'', sr_source_id = ''shop'', sr_catalog_fingerprint = None, sr_description = []\<rparr>],
      dependencies = [], trust_markers = [],
      compatibility = \<lparr>compatible_catalog_fingerprints = {||}, compat_notes = []\<rparr>,
      bundle_provenance = \<lparr>owner_reference = ''team'', created_by_fingerprint = None, bp_created_at = 0, quality = VALIDATED\<rparr>\<rparr>"

definition units_measure :: SemanticMeasure where
  "units_measure = \<lparr>measure_id = ''total-units'', ms_field_id = ''units'', ms_aggregation = ''sum'', ms_label = ''units'', ms_description = []\<rparr>"

lemma safe_team: "safe_description ''team''"
  by (simp add: safe_description_def UNSAFE_DESCRIPTION_MARKERS_def DESCRIPTION_VERBS_def str_lower_def lower_char_def
      sql_shape_def keyword_ends_def pattern_simps is_word_char_def)

lemma units_measure_ok: "measure_ok units_measure"
  by (simp add: units_measure_def measure_ok_def pattern_simps AGGREGATION_KINDS_def label_ok_def description_ok_def)

lemma sample_bundle_ok:
  assumes "identifier_ok version" "list_all measure_ok ms" "length ms \<le> 4096" "distinct (map measure_id ms)"
  shows "bundle_ok (sample_bundle version ms)"
proof -
  have ids: "identifier_ok ''sales''" "identifier_ok ''src''" "identifier_ok ''shop''" by (simp_all add: pattern_simps)
  show ?thesis
    using assms ids sample_descriptor_ok safe_team
    by (simp add: bundle_ok_def sample_bundle_def source_reference_ok_def description_ok_def compatibility_ok_def
        bundle_provenance_ok_def)
qed

lemma sample_bundle_publishable:
  "publishable [1] None (sample_bundle v ms) \<longleftrightarrow> (\<forall>m \<in> set ms. measure_within (sample_bundle v ms) m)"
  by (simp add: publishable_def sample_bundle_def sample_descriptor_def measure_within_def)

theorem bundle_validation_decides_publishable_witness:
  "publishable [1] None (sample_bundle ''v1'' [units_measure]) \<and>
   (\<exists>r. validate_bundle [1] None (sample_bundle ''v1'' [units_measure]) = Inr r \<and> bv_valid r)"
proof -
  have "identifier_ok ''v1''" by (simp add: pattern_simps)
  then have built: "new_SemanticModelBundle (sample_bundle ''v1'' [units_measure]) = Inr (sample_bundle ''v1'' [units_measure])"
    using sample_bundle_ok [of "''v1''" "[units_measure]"] units_measure_ok by (simp add: new_SemanticModelBundle_def)
  have "measure_within (sample_bundle ''v1'' [units_measure]) units_measure"
    by (simp add: measure_within_def units_measure_def sample_bundle_def sample_descriptor_defs)
  then have "publishable [1] None (sample_bundle ''v1'' [units_measure])" by (simp add: sample_bundle_publishable)
  with bundle_validation_decides_publishable [OF built, of "[1]" None] show ?thesis by blast
qed

text \<open>
  With long ids the message of an issue outgrows its bound of 256 characters: a bundle that only aggregates a
  field beyond its allowed set makes validation raise where it promises a structured issue.
\<close>

definition long_field :: string where
  "long_field = replicate 120 (CHR ''f'')"

definition long_bundle :: SemanticModelBundle where
  "long_bundle = (sample_bundle ''v1'' [units_measure\<lparr>measure_id := replicate 120 (CHR ''m''), ms_field_id := long_field\<rparr>])
     \<lparr>descriptor := sample_descriptor\<lparr>entities :=
        [sample_orders\<lparr>ent_fields := [(sample_field long_field ''int'')\<lparr>allowed_aggregations := {|''avg''|}\<rparr>],
                       calculated_fields := None\<rparr>]\<rparr>\<rparr>"

lemma identifier_ok_replicate:
  assumes "1 \<le> n" "n \<le> 128" "is_alnum c"
  shows "identifier_ok (replicate n c)"
  using assms by (cases n) (auto simp: identifier_ok_def list_all_iff)

theorem bundle_validation_raises_on_long_ids:
  "bundle_ok long_bundle \<and> validate_bundle [1] None long_bundle = Inl ValidationError"
proof
  have ids: "identifier_ok ''sales''" "identifier_ok ''src''" "identifier_ok ''shop''" "identifier_ok ''v1''"
    "identifier_ok ''orders''" "identifier_ok ''int''"
    by (simp_all add: pattern_simps)
  have "is_alnum (CHR ''m'')" "is_alnum (CHR ''f'')" by (simp_all add: pattern_simps)
  then have long: "identifier_ok (replicate 120 (CHR ''m''))" "identifier_ok long_field"
    unfolding long_field_def using identifier_ok_replicate [of 120] by simp_all
  show "bundle_ok long_bundle"
    using ids long safe_team
    by (simp add: long_bundle_def sample_bundle_def bundle_ok_def sample_descriptor_defs descriptor_ok_def entity_descriptor_ok_def
        field_descriptor_ok_def entity_calculated_fields_def calculated_fields_ok_def unique_entities_def field_id_list_def
        relationship_id_list_def calculated_name_list_def measure_ok_def units_measure_def source_reference_ok_def
        description_ok_def compatibility_ok_def bundle_provenance_ok_def label_ok_def long_field_def
        AGGREGATION_KINDS_def MAX_FIELDS_def MAX_ENTITIES_def)
  have "bundle_issue ''aggregation_not_allowed''
      (''measure '' @ quoted (replicate 120 (CHR ''m'')) @ '' aggregates '' @ quoted long_field @
       '' beyond the descriptor's allowed set'') (Some long_field) \<in> set (bundle_issues [1] None long_bundle)"
    by (simp add: bundle_issues_def measure_issues_def long_bundle_def sample_bundle_def descriptor_field_def
        sample_descriptor_defs units_measure_def AGGREGATION_KINDS_def issue_if_def)
  moreover have "\<not> bundle_issue_ok (bundle_issue ''aggregation_not_allowed''
      (''measure '' @ quoted (replicate 120 (CHR ''m'')) @ '' aggregates '' @ quoted long_field @
       '' beyond the descriptor's allowed set'') (Some long_field))"
    by (simp add: bundle_issue_ok_def bundle_issue_def long_field_def)
  ultimately have "\<not> list_all bundle_issue_ok (bundle_issues [1] None long_bundle)" unfolding list_all_iff by blast
  then show "validate_bundle [1] None long_bundle = Inl ValidationError" by (simp add: validate_bundle_def Let_def)
qed

end
