(* ===== verification/IR_Validation.thy ===== *)
theory IR_Validation
  imports Query_IR Authorized_View
begin

text \<open>
  Validation of a canonical query before any compiler runs:
  \<^verbatim>\<open>src/nl2data_core/planning/ir/validation.py\<close>.

  Each check is a function from the query to the issues it appends, in the order of the code;
  \<open>validate_ir\<close> concatenates them.  An issue whose text exceeds the bounds of its model makes the call
  raise.  The view is the \<open>AuthorizedView\<close> every caller passes.

  The theory states what a query has to satisfy as a predicate over the view, \<open>admissible\<close>, and shows
  that the checks find no issue exactly for the admissible queries.
\<close>

section \<open>Issues\<close>

record IRValidationIssue =
  issue_code :: string
  issue_message :: string
  issue_path :: string

definition issue_ok :: "IRValidationIssue \<Rightarrow> bool" where
  "issue_ok i \<longleftrightarrow>
     1 \<le> length (issue_code i) \<and> length (issue_code i) \<le> 64 \<and>
     1 \<le> length (issue_message i) \<and> length (issue_message i) \<le> 512 \<and> length (issue_path i) \<le> 256"

definition issue :: "string \<Rightarrow> string \<Rightarrow> string \<Rightarrow> IRValidationIssue" where
  "issue code message path = \<lparr>issue_code = code, issue_message = message, issue_path = path\<rparr>"

record IRValidationResult =
  valid :: bool
  res_ir_version :: int
  res_ir_fingerprint :: string
  issues :: "IRValidationIssue list"

definition issue_codes :: "IRValidationResult \<Rightarrow> string list" where
  "issue_codes r = map issue_code (issues r)"

definition verify_ir_fingerprint :: "SemanticQueryIR \<Rightarrow> bool canon" where
  "verify_ir_fingerprint q = bind_res (strict_sha256_fingerprint (ir_payload q)) (\<lambda>fp. Inr (ir_fingerprint q = fp))"

section \<open>Time boundaries\<close>

definition TIME_FIELD_PREFIXES :: "string list" where
  "TIME_FIELD_PREFIXES = [''created_at'', ''updated_at'', ''occurred_at'', ''time_'']"

definition is_time_field :: "string \<Rightarrow> bool" where
  "is_time_field f \<longleftrightarrow>
     list_ex (\<lambda>p. take (length p) f = p) TIME_FIELD_PREFIXES \<or> (3 \<le> length f \<and> drop (length f - 3) f = ''_at'')"

definition filter_has_concrete_boundary :: "IRFilter \<Rightarrow> bool" where
  "filter_has_concrete_boundary f =
     (if flt_operator f \<notin> set [''eq'', ''gt'', ''gte'', ''lt'', ''lte'', ''in'', ''not_in''] then False
      else case flt_value f of VList xs \<Rightarrow> list_all (\<lambda>x. x \<noteq> VNull) xs | v \<Rightarrow> v \<noteq> VNull)"

definition time_issues :: "string fset \<Rightarrow> SemanticQueryIR \<Rightarrow> IRValidationIssue list" where
  "time_issues required_time_fields q =
     (let resolved = map flt_field_id
            (filter (\<lambda>f. is_time_field (flt_field_id f) \<and> filter_has_concrete_boundary f) (filters q))
      in map (\<lambda>t. issue ''unresolved_time_boundary'' (''required time field '' @ quoted t @ '' has no resolved boundary'')
                    (''filters.'' @ t))
           (filter (\<lambda>t. t \<notin> set resolved) (sorted_list_of_fset required_time_fields)) @
         map (\<lambda>f. issue ''unresolved_time_boundary''
                    (''time field '' @ quoted (flt_field_id f) @ '' has no concrete boundary value'') (''filters.'' @ filter_id f))
           (filter (\<lambda>f. is_time_field (flt_field_id f) \<and> \<not> filter_has_concrete_boundary f) (filters q)))"

section \<open>Structure\<close>

definition version_issues :: "SemanticQueryIR \<Rightarrow> IRValidationIssue list" where
  "version_issues q =
     (if ir_version q \<noteq> IR_VERSION
      then [issue ''unsupported_ir_version''
              (''IR version '' @ string_of_int (ir_version q) @ '' is not supported by this runtime (expected '' @
               string_of_int IR_VERSION @ '')'') ''ir_version'']
      else [])"

fun duplicates_from :: "string set \<Rightarrow> string list \<Rightarrow> string \<Rightarrow> string \<Rightarrow> IRValidationIssue list" where
  "duplicates_from seen [] kind path = []"
| "duplicates_from seen (x # xs) kind path =
     (if x \<in> seen
      then issue (''duplicate_'' @ kind) (kind @ '' id '' @ quoted x @ '' is duplicated'') path # duplicates_from seen xs kind path
      else duplicates_from (insert x seen) xs kind path)"

definition duplicate_issues :: "SemanticQueryIR \<Rightarrow> IRValidationIssue list" where
  "duplicate_issues q =
     duplicates_from {} (map selection_id (selections q)) ''selection'' ''selections'' @
     duplicates_from {} (map filter_id (filters q)) ''filter'' ''filters'' @
     duplicates_from {} (map grouping_id (groupings q)) ''grouping'' ''groupings'' @
     duplicates_from {} (map ordering_id (orderings q)) ''ordering'' ''orderings'' @
     duplicates_from {} (required_capabilities q) ''capability'' ''required_capabilities'' @
     duplicates_from {} (map extension_id (extensions q)) ''extension'' ''extensions''"

fun is_str :: "jv \<Rightarrow> bool" where
  "is_str (VStr s) = True"
| "is_str _ = False"

definition filter_value_issues :: "IRFilter \<Rightarrow> IRValidationIssue list" where
  "filter_value_issues f =
     (let path = ''filters.'' @ filter_id f; v = flt_value f
      in if flt_operator f \<in> set [''in'', ''not_in''] then
           (if \<not> is_tuple v \<or> v = VList []
            then [issue ''invalid_filter_value''
                    (''operator '' @ quoted (flt_operator f) @ '' requires a non-empty list of values'') path] else [])
         else if flt_operator f = ''contains'' then
           (if \<not> is_str v
            then [issue ''invalid_filter_value'' (''operator '' @ quoted ''contains'' @ '' requires a string value'') path]
            else [])
         else if is_tuple v
         then [issue ''invalid_filter_value'' (''operator '' @ quoted (flt_operator f) @ '' requires a single scalar value'') path]
         else [])"

definition aggregated :: "SemanticQueryIR \<Rightarrow> IRSelection list" where
  "aggregated q = filter (\<lambda>s. aggregation s \<noteq> ''none'') (selections q)"

text \<open>The dict of selections by field: the last selection of a field is kept.\<close>

definition selection_by_field :: "SemanticQueryIR \<Rightarrow> string \<Rightarrow> IRSelection option" where
  "selection_by_field q f = map_of (rev (map (\<lambda>s. (sel_field_id s, s)) (selections q))) f"

definition grouping_issues :: "SemanticQueryIR \<Rightarrow> IRValidationIssue list" where
  "grouping_issues q =
     (let grouped = map grp_field_id (groupings q)
      in map (\<lambda>g. issue ''invalid_grouping''
                    (''grouping field '' @ quoted (grp_field_id g) @ '' must be a selected non-aggregated field'')
                    (''groupings.'' @ grouping_id g))
           (filter (\<lambda>g. case selection_by_field q (grp_field_id g) of
                          None \<Rightarrow> True | Some s \<Rightarrow> aggregation s \<noteq> ''none'') (groupings q)) @
         map (\<lambda>s. issue ''invalid_grouping''
                    (''aggregated selection field '' @ quoted (sel_field_id s) @ '' cannot also be grouped'')
                    (''selections.'' @ selection_id s))
           (filter (\<lambda>s. aggregation s \<noteq> ''none'' \<and> sel_field_id s \<in> set grouped) (selections q)) @
         (if aggregated q \<noteq> [] \<and> grouped = []
          then map (\<lambda>s. issue ''ungrouped_selection''
                          (''selection '' @ quoted (selection_id s) @ '' must be grouped when aggregations are present'')
                          (''selections.'' @ selection_id s))
                 (filter (\<lambda>s. aggregation s = ''none'') (selections q))
          else []))"

definition shape_issue :: "string \<Rightarrow> IRValidationIssue" where
  "shape_issue message = issue ''result_shape_mismatch'' message ''result_shape.kind''"

definition result_shape_issues :: "SemanticQueryIR \<Rightarrow> IRValidationIssue list" where
  "result_shape_issues q =
     (let has_aggregation = aggregated q \<noteq> []; kind = result_shape q
      in (if kind = ''rows'' \<and> (has_aggregation \<or> groupings q \<noteq> [])
          then [shape_issue (''result shape '' @ quoted ''rows'' @ '' cannot carry aggregations or groupings'')] else []) @
         (if kind = ''grouped_rows'' \<and> \<not> has_aggregation \<and> groupings q = []
          then [shape_issue (''result shape '' @ quoted ''grouped_rows'' @ '' requires an aggregation or grouping'')] else []) @
         (if kind = ''scalar'' \<and> (length (selections q) \<noteq> 1 \<or> \<not> has_aggregation \<or> groupings q \<noteq> [])
          then [shape_issue (''result shape '' @ quoted ''scalar'' @ '' requires exactly one aggregated selection'')] else []))"

definition bound_issues :: "bool \<Rightarrow> int \<Rightarrow> SemanticQueryIR \<Rightarrow> IRValidationIssue list" where
  "bound_issues require_bounded max_limit q =
     (if ir_source_id q = [] then [issue ''missing_source'' ''IR has no source identity'' ''source_id''] else []) @
     (if require_bounded \<and> ir_limit q = None
      then [issue ''unbounded_limit'' ''a bounded result is required but the IR has no limit'' ''limit'']
      else case ir_limit q of
             None \<Rightarrow> []
           | Some n \<Rightarrow>
               if max_limit < n
               then [issue ''limit_exceeds_max''
                       (''IR limit '' @ string_of_int n @ '' exceeds maximum '' @ string_of_int max_limit) ''limit'']
               else [])"

definition provenance_issues :: "SemanticQueryIR \<Rightarrow> IRValidationIssue list" where
  "provenance_issues q =
     (if prov_source_id (provenance q) \<noteq> ir_source_id q
      then [issue ''source_mismatch'' ''provenance source does not match IR source'' ''provenance.source_id''] else []) @
     (if prov_root_entity_id (provenance q) \<noteq> ir_root_entity_id q
      then [issue ''root_entity_mismatch'' ''provenance root entity does not match IR root entity'' ''provenance.root_entity_id'']
      else [])"

section \<open>Expressions\<close>

definition ir_expression_nodes :: "SemanticQueryIR \<Rightarrow> (string \<times> IRExpression) list" where
  "ir_expression_nodes q =
     List.map_filter (\<lambda>s. map_option (Pair (''selections.'' @ selection_id s)) (sel_expression s)) (selections q) @
     List.map_filter (\<lambda>g. map_option (Pair (''groupings.'' @ grouping_id g)) (grp_expression g)) (groupings q)"

text \<open>The time fields that the groupings declare for a date bucket.\<close>

fun bucket_field :: "string \<Rightarrow> IRExpression option \<Rightarrow> string option" where
  "bucket_field b (Some (IRDateTruncExpr b' f)) = (if b' = b then Some f else None)"
| "bucket_field b _ = None"

definition bucket_time_fields :: "SemanticQueryIR \<Rightarrow> string \<Rightarrow> string fset" where
  "bucket_time_fields q b = fset_of_list (List.map_filter (\<lambda>g. bucket_field b (grp_expression g)) (groupings q))"

fun comma_joined :: "string list \<Rightarrow> string" where
  "comma_joined [] = []"
| "comma_joined [x] = x"
| "comma_joined (x # y # ys) = x @ '', '' @ comma_joined (y # ys)"

fun prior_period_issues :: "SemanticQueryIR \<Rightarrow> string \<Rightarrow> IRExpression \<Rightarrow> IRValidationIssue list" where
  "prior_period_issues q path (IRPriorPeriodExpr a b f p) =
     (let time_fields = bucket_time_fields q b
      in if time_fields = {||}
         then [issue ''prior_period_bucket_ungrouped''
                 (''prior-period node over '' @ quoted f @ '' requires a '' @ quoted b @ '' date-bucket grouping'') path]
         else if 1 < fcard time_fields
         then [issue ''prior_period_bucket_ambiguous''
                 (''prior-period node with '' @ quoted b @
                  '' bucket is ambiguous: groupings declare the bucket over multiple time fields ('' @
                  comma_joined (sorted_list_of_fset time_fields) @ '')'') path]
         else [])"
| "prior_period_issues q path _ = []"

definition expression_issues :: "SemanticQueryIR \<Rightarrow> IRValidationIssue list" where
  "expression_issues q =
     concat (map (\<lambda>(path, e). concat (map (prior_period_issues q path) (iter_prior_period_nodes e))) (ir_expression_nodes q))"

section \<open>Scope\<close>

definition expression_field_issues :: "AuthorizedView \<Rightarrow> string \<Rightarrow> IRExpression \<Rightarrow> IRValidationIssue list" where
  "expression_field_issues v path e =
     map (\<lambda>f. issue ''field_out_of_scope'' (''expression field '' @ quoted f @ '' is outside the authorized view'') path)
       (filter (\<lambda>f. \<not> contains_field v f) (sorted_list_of_fset (expression_field_ids e)))"

definition selection_scope_issues :: "AuthorizedView \<Rightarrow> string fset \<Rightarrow> IRSelection \<Rightarrow> IRValidationIssue list" where
  "selection_scope_issues v declared s =
     (let path = ''selections.'' @ selection_id s
      in case sel_expression s of
           Some e \<Rightarrow> expression_field_issues v path e
         | None \<Rightarrow>
             if sel_field_id s |\<in>| declared \<or> contains_field v (sel_field_id s) then []
             else if declared \<noteq> {||}
             then [issue ''CF_003''
                     (''selection field '' @ quoted (sel_field_id s) @
                      '' resolves to no declared field or calculated field of the authorized view'') path]
             else [issue ''field_out_of_scope''
                     (''selection field '' @ quoted (sel_field_id s) @ '' is outside the authorized view'') path])"

definition filter_scope_issues :: "AuthorizedView \<Rightarrow> string fset \<Rightarrow> IRFilter \<Rightarrow> IRValidationIssue list" where
  "filter_scope_issues v declared f =
     (if flt_field_id f |\<in>| declared \<or> contains_field v (flt_field_id f) then []
      else [issue ''field_out_of_scope'' (''filter field '' @ quoted (flt_field_id f) @ '' is outside the authorized view'')
              (''filters.'' @ filter_id f)])"

definition grouping_scope_issues :: "AuthorizedView \<Rightarrow> string fset \<Rightarrow> IRGrouping \<Rightarrow> IRValidationIssue list" where
  "grouping_scope_issues v declared g =
     (let path = ''groupings.'' @ grouping_id g
      in case grp_expression g of
           Some e \<Rightarrow> expression_field_issues v path e
         | None \<Rightarrow>
             if grp_field_id g |\<in>| declared \<or> contains_field v (grp_field_id g) then []
             else [issue ''field_out_of_scope''
                     (''grouping field '' @ quoted (grp_field_id g) @ '' is outside the authorized view'') path])"

definition ordering_scope_issues :: "AuthorizedView \<Rightarrow> string fset \<Rightarrow> string fset \<Rightarrow> IROrdering \<Rightarrow> IRValidationIssue list" where
  "ordering_scope_issues v declared computed r =
     (if ord_field_id r |\<in>| computed \<or> ord_field_id r |\<in>| declared \<or> contains_field v (ord_field_id r) then []
      else [issue ''field_out_of_scope'' (''ordering field '' @ quoted (ord_field_id r) @ '' is outside the authorized view'')
              (''orderings.'' @ ordering_id r)])"

definition view_scope_issues :: "AuthorizedView \<Rightarrow> string fset \<Rightarrow> string fset \<Rightarrow> SemanticQueryIR \<Rightarrow> IRValidationIssue list" where
  "view_scope_issues v declared computed q =
     (if ir_source_id q \<noteq> source_id v
      then [issue ''source_out_of_scope'' (''source '' @ quoted (ir_source_id q) @ '' is outside the authorized view'') ''source_id'']
      else []) @
     (if root_entity_ids v \<noteq> {||} \<and> ir_root_entity_id q |\<notin>| root_entity_ids v
      then [issue ''entity_out_of_scope''
              (''root entity '' @ quoted (ir_root_entity_id q) @ '' is outside the authorized view'') ''root_entity_id'']
      else []) @
     concat (map (selection_scope_issues v declared) (selections q)) @
     concat (map (filter_scope_issues v declared) (filters q)) @
     concat (map (grouping_scope_issues v declared) (groupings q)) @
     concat (map (ordering_scope_issues v declared computed) (orderings q))"

section \<open>Binding\<close>

definition CAPABILITY_TO_OPERATION :: "(string \<times> string) list" where
  "CAPABILITY_TO_OPERATION =
     [(''aggregation'', ''aggregate''), (''grouping'', ''group''), (''ordering'', ''order''), (''contains'', ''filter''),
      (''list_ops'', ''filter'')]"

definition view_binding_fingerprint :: "AuthorizedView \<Rightarrow> string option" where
  "view_binding_fingerprint v = view_fingerprint v"

definition aggregation_allowed :: "AuthorizedView \<Rightarrow> string \<Rightarrow> string \<Rightarrow> bool" where
  "aggregation_allowed v field kind = (case allowed_aggregations_for v field of None \<Rightarrow> True | Some ks \<Rightarrow> kind |\<in>| ks)"

definition reference_matches :: "AuthorizedView \<Rightarrow> IRViewReference \<Rightarrow> bool" where
  "reference_matches v r \<longleftrightarrow>
     Some (ref_view_id r) = view_id v \<and> Some (ref_view_version r) = view_version v \<and>
     Some (ref_view_fingerprint r) = view_binding_fingerprint v"

definition required_operations :: "SemanticQueryIR \<Rightarrow> string list" where
  "required_operations q = sort (List.map_filter (map_of CAPABILITY_TO_OPERATION) (required_capabilities q))"

fun aggregate_issues :: "AuthorizedView \<Rightarrow> string \<Rightarrow> IRExpression \<Rightarrow> IRValidationIssue list" where
  "aggregate_issues v path (IRAggregateExpr fn f p) =
     (if aggregation_allowed v f fn then []
      else [issue ''aggregation_out_of_scope''
              (''aggregate '' @ quoted fn @ '' is outside the authorized view for field '' @ quoted f) path])"
| "aggregate_issues v path _ = []"

definition view_binding_issues :: "AuthorizedView \<Rightarrow> SemanticQueryIR \<Rightarrow> IRValidationIssue list" where
  "view_binding_issues v q =
     (case view_reference (provenance q) of
        None \<Rightarrow> [issue ''missing_view_reference'' ''IR does not reference the authorized resolved view'' ''provenance.view_reference'']
      | Some r \<Rightarrow>
          (if reference_matches v r then []
           else [issue ''view_reference_mismatch'' ''IR view reference does not match the current resolved view''
                   ''provenance.view_reference'']) @
          map (\<lambda>p. issue ''operation_out_of_scope'' (''operation '' @ quoted p @ '' is outside the authorized view'')
                     ''required_capabilities'')
            (filter (\<lambda>p. p |\<notin>| allowed_operations v) (required_operations q)) @
          map (\<lambda>s. issue ''aggregation_out_of_scope''
                     (''aggregation '' @ quoted (aggregation s) @ '' is outside the authorized view for field '' @
                      quoted (sel_field_id s)) (''selections.'' @ selection_id s))
            (filter (\<lambda>s. \<not> aggregation_allowed v (sel_field_id s) (aggregation s)) (aggregated q)) @
          concat (map (\<lambda>(path, e). concat (map (aggregate_issues v path) (iter_aggregate_nodes e))) (ir_expression_nodes q)) @
          (if result_shape_constraints v \<noteq> [] \<and> result_shape q \<notin> set (result_shape_constraints v)
           then [issue ''result_shape_out_of_scope''
                   (''result shape '' @ quoted (result_shape q) @ '' is outside the authorized view'') ''result_shape.kind'']
           else []))"

section \<open>Extensions and calculated fields\<close>

definition required_capability :: "string \<Rightarrow> string" where
  "required_capability kind =
     (if kind = NAMED_QUERY_PLACEHOLDER_KIND then NAMED_QUERY_PLACEHOLDER_CAPABILITY else kind)"

definition extension_issues :: "SemanticQueryIR \<Rightarrow> IRValidationIssue list" where
  "extension_issues q =
     map (\<lambda>x. issue ''unsupported_extension''
                (''extension kind '' @ quoted (ext_kind x) @ '' is not declared by a required capability'')
                (''extensions.'' @ extension_id x))
       (filter (\<lambda>x. required_capability (ext_kind x) \<notin> set (required_capabilities q)) (extensions q))"

definition CALCULATED_FIELDS_CAPABILITY :: string where
  "CALCULATED_FIELDS_CAPABILITY = ''calculated-fields''"

definition calculated_issue :: "string \<Rightarrow> string \<Rightarrow> string \<Rightarrow> IRValidationIssue" where
  "calculated_issue part field path =
     issue ''CF_003'' (part @ '' field '' @ quoted field @ '' is a calculated field; only selections may reference calculated fields'') path"

definition calculated_issues :: "string fset \<Rightarrow> SemanticQueryIR \<Rightarrow> IRValidationIssue list" where
  "calculated_issues declared q =
     (if declared = {||} then []
      else
        map (\<lambda>s. issue ''calculated_fields_capability_missing''
                   (''selection '' @ quoted (selection_id s) @ '' references calculated field '' @ quoted (sel_field_id s) @
                    '' but the '' @ quoted ''calculated-fields'' @ '' capability is not declared'') ''required_capabilities'')
          (filter (\<lambda>s. sel_field_id s |\<in>| declared \<and> CALCULATED_FIELDS_CAPABILITY \<notin> set (required_capabilities q)) (selections q)) @
        map (\<lambda>f. calculated_issue ''filter'' (flt_field_id f) (''filters.'' @ filter_id f))
          (filter (\<lambda>f. flt_field_id f |\<in>| declared) (filters q)) @
        map (\<lambda>g. calculated_issue ''grouping'' (grp_field_id g) (''groupings.'' @ grouping_id g))
          (filter (\<lambda>g. grp_field_id g |\<in>| declared) (groupings q)) @
        map (\<lambda>r. calculated_issue ''ordering'' (ord_field_id r) (''orderings.'' @ ordering_id r))
          (filter (\<lambda>r. ord_field_id r |\<in>| declared) (orderings q)))"

section \<open>The whole check\<close>

definition declared_calculated :: "AuthorizedView option \<Rightarrow> string fset option \<Rightarrow> string fset" where
  "declared_calculated v given =
     (case given of None \<Rightarrow> {||} | Some s \<Rightarrow> s) |\<union>| (case v of None \<Rightarrow> {||} | Some w \<Rightarrow> calculated_field_ids w)"

definition computed_outputs :: "SemanticQueryIR \<Rightarrow> string fset" where
  "computed_outputs q = fset_of_list (map sel_field_id (filter (\<lambda>s. sel_expression s \<noteq> None) (selections q)))"

definition validation_issues ::
  "AuthorizedView option \<Rightarrow> bool \<Rightarrow> int \<Rightarrow> string fset \<Rightarrow> string fset option \<Rightarrow> SemanticQueryIR \<Rightarrow> IRValidationIssue list" where
  "validation_issues view require_bounded max_limit required_time_fields given q =
     (let declared = declared_calculated view given
      in version_issues q @ duplicate_issues q @ concat (map filter_value_issues (filters q)) @ grouping_issues q @
         result_shape_issues q @ bound_issues require_bounded max_limit q @ provenance_issues q @ expression_issues q @
         (case view of
            None \<Rightarrow> []
          | Some v \<Rightarrow>
              view_scope_issues v declared (computed_outputs q) q @
              (if view_binding_fingerprint v \<noteq> None then view_binding_issues v q else [])) @
         time_issues required_time_fields q @ extension_issues q @ calculated_issues declared q)"

definition validate_ir ::
  "AuthorizedView option \<Rightarrow> bool \<Rightarrow> int \<Rightarrow> string fset \<Rightarrow> string fset option \<Rightarrow> SemanticQueryIR \<Rightarrow> IRValidationResult res" where
  "validate_ir view require_bounded max_limit required_time_fields given q =
     (let found = validation_issues view require_bounded max_limit required_time_fields given q
      in if list_all issue_ok found
         then Inr \<lparr>valid = (found = []), res_ir_version = ir_version q, res_ir_fingerprint = ir_fingerprint q, issues = found\<rparr>
         else Inl ValidationError)"

section \<open>What a query has to satisfy\<close>

text \<open>The shape of the value of a filter.\<close>

definition filter_shaped :: "IRFilter \<Rightarrow> bool" where
  "filter_shaped f \<longleftrightarrow>
     (flt_operator f \<in> {''in'', ''not_in''} \<longrightarrow> (\<exists>x xs. flt_value f = VList (x # xs))) \<and>
     (flt_operator f = ''contains'' \<longrightarrow> (\<exists>s. flt_value f = VStr s)) \<and>
     (flt_operator f \<notin> {''in'', ''not_in'', ''contains''} \<longrightarrow> (\<forall>xs. flt_value f \<noteq> VList xs))"

definition well_formed :: "SemanticQueryIR \<Rightarrow> bool" where
  "well_formed q \<longleftrightarrow>
     ir_version q = IR_VERSION \<and> distinct (map selection_id (selections q)) \<and> distinct (map filter_id (filters q)) \<and>
     distinct (map grouping_id (groupings q)) \<and> distinct (map ordering_id (orderings q)) \<and>
     distinct (required_capabilities q) \<and> distinct (map extension_id (extensions q)) \<and>
     (\<forall>f \<in> set (filters q). filter_shaped f) \<and>
     prov_source_id (provenance q) = ir_source_id q \<and> prov_root_entity_id (provenance q) = ir_root_entity_id q \<and>
     (\<forall>x \<in> set (extensions q). required_capability (ext_kind x) \<in> set (required_capabilities q))"

text \<open>Groupings name plain selections, aggregates are not grouped, and the shape fits.\<close>

definition grouping_consistent :: "SemanticQueryIR \<Rightarrow> bool" where
  "grouping_consistent q \<longleftrightarrow>
     (\<forall>g \<in> set (groupings q). \<exists>s. selection_by_field q (grp_field_id g) = Some s \<and> aggregation s = ''none'') \<and>
     (\<forall>s \<in> set (aggregated q). sel_field_id s \<notin> set (map grp_field_id (groupings q))) \<and>
     (aggregated q \<noteq> [] \<and> groupings q = [] \<longrightarrow> (\<forall>s \<in> set (selections q). aggregation s \<noteq> ''none'')) \<and>
     (result_shape q = ''rows'' \<longrightarrow> aggregated q = [] \<and> groupings q = []) \<and>
     (result_shape q = ''grouped_rows'' \<longrightarrow> aggregated q \<noteq> [] \<or> groupings q \<noteq> []) \<and>
     (result_shape q = ''scalar'' \<longrightarrow> length (selections q) = 1 \<and> aggregated q \<noteq> [] \<and> groupings q = [])"

definition query_bounded :: "bool \<Rightarrow> int \<Rightarrow> SemanticQueryIR \<Rightarrow> bool" where
  "query_bounded require_bounded max_limit q \<longleftrightarrow>
     ir_source_id q \<noteq> [] \<and> (require_bounded \<longrightarrow> ir_limit q \<noteq> None) \<and> (\<forall>n. ir_limit q = Some n \<longrightarrow> n \<le> max_limit)"

text \<open>Every prior-period comparison has exactly one time field to be ordered by.\<close>

definition prior_periods_ordered :: "SemanticQueryIR \<Rightarrow> bool" where
  "prior_periods_ordered q \<longleftrightarrow>
     (\<forall>(path, e) \<in> set (ir_expression_nodes q). \<forall>a b f p. IRPriorPeriodExpr a b f p \<in> set (iter_nodes e) \<longrightarrow>
        (\<exists>t. bucket_time_fields q b = {|t|}))"

definition times_bounded :: "string fset \<Rightarrow> SemanticQueryIR \<Rightarrow> bool" where
  "times_bounded required q \<longleftrightarrow>
     (\<forall>t. t |\<in>| required \<longrightarrow> is_time_field t \<and> (\<exists>f \<in> set (filters q). flt_field_id f = t \<and> filter_has_concrete_boundary f)) \<and>
     (\<forall>f \<in> set (filters q). is_time_field (flt_field_id f) \<longrightarrow> filter_has_concrete_boundary f)"

definition within_view :: "AuthorizedView \<Rightarrow> string fset \<Rightarrow> SemanticQueryIR \<Rightarrow> bool" where
  "within_view v declared q \<longleftrightarrow>
     ir_source_id q = source_id v \<and> (root_entity_ids v = {||} \<or> ir_root_entity_id q |\<in>| root_entity_ids v) \<and>
     (\<forall>e \<in> set (used_expressions (selections q) (groupings q)). expression_field_ids e |\<subseteq>| field_ids v) \<and>
     (\<forall>s \<in> set (selections q). sel_expression s = None \<longrightarrow> sel_field_id s |\<in>| declared |\<union>| field_ids v) \<and>
     (\<forall>f \<in> set (filters q). flt_field_id f |\<in>| declared |\<union>| field_ids v) \<and>
     (\<forall>g \<in> set (groupings q). grp_expression g = None \<longrightarrow> grp_field_id g |\<in>| declared |\<union>| field_ids v) \<and>
     (\<forall>r \<in> set (orderings q). ord_field_id r |\<in>| computed_outputs q |\<union>| declared |\<union>| field_ids v)"

definition bound_to_view :: "AuthorizedView \<Rightarrow> SemanticQueryIR \<Rightarrow> bool" where
  "bound_to_view v q \<longleftrightarrow>
     (\<exists>r. view_reference (provenance q) = Some r \<and> reference_matches v r) \<and>
     set (required_operations q) \<subseteq> fset (allowed_operations v) \<and>
     (\<forall>s \<in> set (aggregated q). aggregation_allowed v (sel_field_id s) (aggregation s)) \<and>
     (\<forall>e \<in> set (used_expressions (selections q) (groupings q)). \<forall>fn f p.
        IRAggregateExpr fn f p \<in> set (iter_nodes e) \<longrightarrow> aggregation_allowed v f fn) \<and>
     (result_shape_constraints v = [] \<or> result_shape q \<in> set (result_shape_constraints v))"

definition calculated_only_selected :: "string fset \<Rightarrow> SemanticQueryIR \<Rightarrow> bool" where
  "calculated_only_selected declared q \<longleftrightarrow>
     (\<forall>s \<in> set (selections q). sel_field_id s |\<in>| declared \<longrightarrow> CALCULATED_FIELDS_CAPABILITY \<in> set (required_capabilities q)) \<and>
     (\<forall>f \<in> set (filters q). flt_field_id f |\<notin>| declared) \<and>
     (\<forall>g \<in> set (groupings q). grp_field_id g |\<notin>| declared) \<and>
     (\<forall>r \<in> set (orderings q). ord_field_id r |\<notin>| declared)"

definition admissible ::
  "AuthorizedView option \<Rightarrow> bool \<Rightarrow> int \<Rightarrow> string fset \<Rightarrow> string fset option \<Rightarrow> SemanticQueryIR \<Rightarrow> bool" where
  "admissible view require_bounded max_limit required_time_fields given q \<longleftrightarrow>
     well_formed q \<and> grouping_consistent q \<and> query_bounded require_bounded max_limit q \<and> prior_periods_ordered q \<and>
     times_bounded required_time_fields q \<and> calculated_only_selected (declared_calculated view given) q \<and>
     (\<forall>v. view = Some v \<longrightarrow> within_view v (declared_calculated view given) q \<and> (view_bound v \<longrightarrow> bound_to_view v q))"

section \<open>The checks decide admissibility\<close>

lemma duplicates_none: "duplicates_from seen xs kind path = [] \<longleftrightarrow> distinct xs \<and> set xs \<inter> seen = {}"
  by (induction xs arbitrary: seen) auto

lemma filter_value_none: "filter_value_issues f = [] \<longleftrightarrow> filter_shaped f"
proof -
  have "is_tuple v \<longleftrightarrow> (\<exists>xs. v = VList xs)" "is_str v \<longleftrightarrow> (\<exists>s. v = VStr s)" for v
    by (cases v; simp)+
  then show ?thesis
    by (auto simp: filter_value_issues_def filter_shaped_def Let_def neq_Nil_conv)
qed

lemma structure_none:
  "version_issues q = [] \<and> duplicate_issues q = [] \<and> concat (map filter_value_issues (filters q)) = [] \<and>
   provenance_issues q = [] \<and> extension_issues q = [] \<longleftrightarrow> well_formed q"
  by (auto simp: version_issues_def duplicate_issues_def duplicates_none filter_value_none provenance_issues_def
    extension_issues_def well_formed_def filter_empty_conv)

lemma grouping_none: "grouping_issues q = [] \<and> result_shape_issues q = [] \<longleftrightarrow> grouping_consistent q"
proof -
  have "(case x of None \<Rightarrow> True | Some s \<Rightarrow> aggregation s \<noteq> ''none'') \<longleftrightarrow> \<not> (\<exists>s. x = Some s \<and> aggregation s = ''none'')" for x
    by (cases x) auto
  then show ?thesis
    by (auto simp: grouping_issues_def result_shape_issues_def grouping_consistent_def Let_def aggregated_def filter_empty_conv)
qed

lemma bound_none: "bound_issues require_bounded max_limit q = [] \<longleftrightarrow> query_bounded require_bounded max_limit q"
  by (auto simp: bound_issues_def query_bounded_def split: option.splits)

lemma fcard_one: "s \<noteq> {||} \<and> \<not> 1 < fcard s \<longleftrightarrow> (\<exists>t. s = {|t|})"
proof
  assume s: "s \<noteq> {||} \<and> \<not> 1 < fcard s"
  then have "card (fset s) = 1" by (metis fcard.rep_eq fcard_0_eq less_one linorder_neqE_nat)
  then obtain t where "fset s = {t}" by (auto simp: card_1_singleton_iff)
  then show "\<exists>t. s = {|t|}" by (auto simp: fset_eq_iff intro!: exI [of _ t])
qed (auto simp: fcard.rep_eq)

lemma map_filter_tagged:
  "snd ` set (List.map_filter (\<lambda>s. map_option (Pair (h s)) (f s)) xs) = set (List.map_filter f xs)"
  by (induction xs) (auto simp: List.map_filter_simps split: option.splits)

lemma concat_filter_none: "concat (map f (filter P xs)) = [] \<longleftrightarrow> (\<forall>x \<in> set xs. P x \<longrightarrow> f x = [])"
  by auto

lemma concat_pairs_none: "concat (map (\<lambda>(p, e). h p e) xs) = [] \<longleftrightarrow> (\<forall>(p, e) \<in> set xs. h p e = [])"
  by auto

lemma expression_nodes_used: "snd ` set (ir_expression_nodes q) = set (used_expressions (selections q) (groupings q))"
  unfolding ir_expression_nodes_def used_expressions_def set_append image_Un map_filter_tagged ..

lemma ball_used:
  "(\<forall>e \<in> set (used_expressions ss gs). P e) \<longleftrightarrow>
   (\<forall>s \<in> set ss. \<forall>e. sel_expression s = Some e \<longrightarrow> P e) \<and> (\<forall>g \<in> set gs. \<forall>e. grp_expression g = Some e \<longrightarrow> P e)"
  by (auto simp: used_expressions_def set_map_filter)

lemma prior_none: "expression_issues q = [] \<longleftrightarrow> prior_periods_ordered q"
proof -
  have node: "(is_prior_period n \<longrightarrow> prior_period_issues q path n = []) \<longleftrightarrow>
      (\<forall>a b f p. n = IRPriorPeriodExpr a b f p \<longrightarrow> (\<exists>t. bucket_time_fields q b = {|t|}))" for path n
    using fcard_one [of "bucket_time_fields q _"] by (cases n) (auto simp: Let_def)
  have tree: "concat (map (prior_period_issues q path) (iter_prior_period_nodes e)) = [] \<longleftrightarrow>
      (\<forall>a b f p. IRPriorPeriodExpr a b f p \<in> set (iter_nodes e) \<longrightarrow> (\<exists>t. bucket_time_fields q b = {|t|}))" for path e
    unfolding iter_prior_period_nodes_def concat_filter_none node by blast
  show ?thesis unfolding expression_issues_def prior_periods_ordered_def concat_pairs_none tree ..
qed

lemma time_none: "time_issues required q = [] \<longleftrightarrow> times_bounded required q"
  by (auto simp: time_issues_def times_bounded_def Let_def filter_empty_conv)

lemma calculated_none: "calculated_issues declared q = [] \<longleftrightarrow> calculated_only_selected declared q"
  by (auto simp: calculated_issues_def calculated_only_selected_def filter_empty_conv)

lemma expression_fields_none: "expression_field_issues v path e = [] \<longleftrightarrow> expression_field_ids e |\<subseteq>| field_ids v"
  by (auto simp: expression_field_issues_def filter_empty_conv contains_field_def)

lemma scope_none: "view_scope_issues v declared (computed_outputs q) q = [] \<longleftrightarrow> within_view v declared q"
proof -
  have "selection_scope_issues v declared s = [] \<longleftrightarrow>
      (\<forall>e. sel_expression s = Some e \<longrightarrow> expression_field_ids e |\<subseteq>| field_ids v) \<and>
      (sel_expression s = None \<longrightarrow> sel_field_id s |\<in>| declared |\<union>| field_ids v)" for s
    by (auto simp: selection_scope_issues_def Let_def contains_field_def expression_fields_none split: option.splits)
  moreover have "grouping_scope_issues v declared g = [] \<longleftrightarrow>
      (\<forall>e. grp_expression g = Some e \<longrightarrow> expression_field_ids e |\<subseteq>| field_ids v) \<and>
      (grp_expression g = None \<longrightarrow> grp_field_id g |\<in>| declared |\<union>| field_ids v)" for g
    by (auto simp: grouping_scope_issues_def Let_def contains_field_def expression_fields_none split: option.splits)
  moreover have "filter_scope_issues v declared f = [] \<longleftrightarrow> flt_field_id f |\<in>| declared |\<union>| field_ids v" for f
    by (simp add: filter_scope_issues_def contains_field_def)
  moreover have "ordering_scope_issues v declared (computed_outputs q) r = [] \<longleftrightarrow>
      ord_field_id r |\<in>| computed_outputs q |\<union>| declared |\<union>| field_ids v" for r
    by (simp add: ordering_scope_issues_def contains_field_def)
  ultimately show ?thesis
    unfolding view_scope_issues_def within_view_def ball_used by (simp del: funion_iff) blast
qed

lemma binding_none: "view_binding_issues v q = [] \<longleftrightarrow> bound_to_view v q"
proof -
  have node: "(is_aggregate n \<longrightarrow> aggregate_issues v path n = []) \<longleftrightarrow>
      (\<forall>fn f p. n = IRAggregateExpr fn f p \<longrightarrow> aggregation_allowed v f fn)" for path n
    by (cases n) auto
  have tree: "concat (map (aggregate_issues v path) (iter_aggregate_nodes e)) = [] \<longleftrightarrow>
      (\<forall>fn f p. IRAggregateExpr fn f p \<in> set (iter_nodes e) \<longrightarrow> aggregation_allowed v f fn)" for path e
    unfolding iter_aggregate_nodes_def concat_filter_none node by blast
  have "concat (map (\<lambda>(path, e). concat (map (aggregate_issues v path) (iter_aggregate_nodes e))) (ir_expression_nodes q)) = [] \<longleftrightarrow>
      (\<forall>e \<in> snd ` set (ir_expression_nodes q). \<forall>fn f p. IRAggregateExpr fn f p \<in> set (iter_nodes e) \<longrightarrow> aggregation_allowed v f fn)"
    unfolding concat_pairs_none tree by fastforce
  then show ?thesis
    unfolding view_binding_issues_def bound_to_view_def expression_nodes_used
    by (auto simp: filter_empty_conv split: option.splits)
qed

lemma issues_none:
  "validation_issues view require_bounded max_limit required given q = [] \<longleftrightarrow>
   admissible view require_bounded max_limit required given q"
  using structure_none [of q] grouping_none [of q] bound_none [of require_bounded max_limit q] prior_none [of q]
    time_none [of required q] calculated_none [of "declared_calculated view given" q]
    scope_none [of _ "declared_calculated view given" q] binding_none [of _ q]
  by (cases view) (auto simp: validation_issues_def admissible_def Let_def view_bound_def view_binding_fingerprint_def
    simp del: concat_eq_Nil_conv)

section \<open>Issues of built queries keep their bounds\<close>

lemma issue_ok_iff:
  "issue_ok (issue code message path) \<longleftrightarrow>
     1 \<le> length code \<and> length code \<le> 64 \<and> 1 \<le> length message \<and> length message \<le> 512 \<and> length path \<le> 256"
  by (simp add: issue_ok_def issue_def)

lemma string_of_nat_length: "n < 10 ^ Suc k \<Longrightarrow> length (string_of_nat n) \<le> Suc k"
proof (induction k arbitrary: n)
  case 0
  then show ?case by (simp add: string_of_nat.simps)
next
  case (Suc k)
  then have "length (string_of_nat (n div 10)) \<le> Suc k" by (intro Suc.IH) (simp add: less_mult_imp_div_less)
  then show ?case by (subst string_of_nat.simps) simp
qed

lemma string_of_int_length: "0 \<le> i \<Longrightarrow> i \<le> 1000000 \<Longrightarrow> length (string_of_int i) \<le> 7"
  using string_of_nat_length [of "nat i" 6] by (simp add: string_of_int_def)

lemma built_ids:
  assumes "ir_valid q"
  shows "s \<in> set (selections q) \<Longrightarrow> length (selection_id s) \<le> 128 \<and> length (sel_field_id s) \<le> 128 \<and> length (aggregation s) \<le> 5"
    and "f \<in> set (filters q) \<Longrightarrow> length (filter_id f) \<le> 128 \<and> length (flt_field_id f) \<le> 128 \<and> length (flt_operator f) \<le> 8"
    and "g \<in> set (groupings q) \<Longrightarrow> length (grouping_id g) \<le> 128 \<and> length (grp_field_id g) \<le> 128"
    and "r \<in> set (orderings q) \<Longrightarrow> length (ordering_id r) \<le> 128 \<and> length (ord_field_id r) \<le> 128"
    and "x \<in> set (extensions q) \<Longrightarrow> length (extension_id x) \<le> 128 \<and> length (ext_kind x) \<le> 128"
    and "c \<in> set (required_capabilities q) \<Longrightarrow> length c \<le> 128"
    and "length (ir_source_id q) \<le> 128 \<and> length (ir_root_entity_id q) \<le> 128 \<and> length (result_shape q) \<le> 12"
proof -
  have parts: "\<forall>s \<in> set (selections q). selection_ok s" "\<forall>f \<in> set (filters q). filter_ok f"
    "\<forall>g \<in> set (groupings q). grouping_ok g" "\<forall>r \<in> set (orderings q). ordering_ok r"
    "\<forall>x \<in> set (extensions q). extension_ok x" "\<forall>c \<in> set (required_capabilities q). identifier_ok c"
    "identifier_ok (ir_source_id q)" "identifier_ok (ir_root_entity_id q)"
    "result_shape q \<in> {''rows'', ''grouped_rows'', ''scalar''}"
    using assms by (simp_all add: ir_valid_def ir_parts_ok_def list_all_iff)
  have kinds: "k \<in> set AGGREGATION_KINDS \<Longrightarrow> length k \<le> 5" "p \<in> set FILTER_OPERATORS \<Longrightarrow> length p \<le> 8" for k p
    by (auto simp: AGGREGATION_KINDS_def FILTER_OPERATORS_def)
  show "s \<in> set (selections q) \<Longrightarrow> length (selection_id s) \<le> 128 \<and> length (sel_field_id s) \<le> 128 \<and> length (aggregation s) \<le> 5"
    using parts(1) kinds identifier_ok_length unfolding selection_ok_def by blast
  show "f \<in> set (filters q) \<Longrightarrow> length (filter_id f) \<le> 128 \<and> length (flt_field_id f) \<le> 128 \<and> length (flt_operator f) \<le> 8"
    using parts(2) kinds identifier_ok_length unfolding filter_ok_def by blast
  show "g \<in> set (groupings q) \<Longrightarrow> length (grouping_id g) \<le> 128 \<and> length (grp_field_id g) \<le> 128"
    using parts(3) identifier_ok_length unfolding grouping_ok_def by blast
  show "r \<in> set (orderings q) \<Longrightarrow> length (ordering_id r) \<le> 128 \<and> length (ord_field_id r) \<le> 128"
    using parts(4) identifier_ok_length unfolding ordering_ok_def by blast
  show "x \<in> set (extensions q) \<Longrightarrow> length (extension_id x) \<le> 128 \<and> length (ext_kind x) \<le> 128"
    using parts(5) identifier_ok_length unfolding extension_ok_def by blast
  show "c \<in> set (required_capabilities q) \<Longrightarrow> length c \<le> 128" using parts(6) identifier_ok_length by blast
  show "length (ir_source_id q) \<le> 128 \<and> length (ir_root_entity_id q) \<le> 128 \<and> length (result_shape q) \<le> 12"
    using parts(7-9) identifier_ok_length by auto
qed

lemma built_expressions:
  assumes "ir_valid q" "(path, e) \<in> set (ir_expression_nodes q)"
  shows "constructible e \<and> length path \<le> 139"
proof
  have parts: "\<forall>s \<in> set (selections q). selection_ok s" "\<forall>g \<in> set (groupings q). grouping_ok g"
    using assms(1) by (simp_all add: ir_valid_def ir_parts_ok_def list_all_iff)
  have "e \<in> snd ` set (ir_expression_nodes q)" using assms(2) by force
  then have "e \<in> set (used_expressions (selections q) (groupings q))" by (simp only: expression_nodes_used)
  then show "constructible e"
    using parts by (auto simp: used_expressions_def set_map_filter selection_ok_def grouping_ok_def)
  show "length path \<le> 139"
    using assms(2) by (auto simp: ir_expression_nodes_def set_map_filter dest!: built_ids(1,3) [OF assms(1)])
qed

inductive_cases constructible_aggregateE: "constructible (IRAggregateExpr fn f p)"
inductive_cases constructible_priorE: "constructible (IRPriorPeriodExpr a b f p)"

lemma aggregate_node_names: "constructible (IRAggregateExpr fn f p) \<Longrightarrow> length fn \<le> 14 \<and> length f \<le> 128"
  by (erule constructible_aggregateE) (auto simp: constructor_defs dest: identifier_ok_length split: if_splits option.splits)

lemma prior_node_names:
  "constructible (IRPriorPeriodExpr a b f p) \<Longrightarrow> length b \<le> 5 \<and> length f \<le> 128"
  by (erule constructible_priorE) (auto simp: constructor_defs dest: identifier_ok_length split: if_splits option.splits)

lemma duplicates_ok:
  assumes "length kind \<le> 54" "length path \<le> 256" "\<forall>x \<in> set xs. length x \<le> 128" "i \<in> set (duplicates_from seen xs kind path)"
  shows "issue_ok i"
  using assms(3,4)
proof (induction xs arbitrary: seen)
  case (Cons x xs)
  then show ?case using assms(1,2)
    by (auto simp: issue_ok_iff split: if_splits)
qed simp

lemma structure_ok:
  assumes "ir_valid q"
  shows "i \<in> set (duplicate_issues q) \<Longrightarrow> issue_ok i"
    and "i \<in> set (concat (map filter_value_issues (filters q))) \<Longrightarrow> issue_ok i"
    and "i \<in> set (grouping_issues q) \<Longrightarrow> issue_ok i"
    and "i \<in> set (version_issues q @ result_shape_issues q @ provenance_issues q) \<Longrightarrow> issue_ok i"
    and "i \<in> set (extension_issues q) \<Longrightarrow> issue_ok i"
proof -
  note ids = built_ids [OF assms]
  show "i \<in> set (duplicate_issues q) \<Longrightarrow> issue_ok i"
    using ids unfolding duplicate_issues_def set_append
    by (elim UnE) (erule duplicates_ok [rotated 3]; force)+
  show "i \<in> set (concat (map filter_value_issues (filters q))) \<Longrightarrow> issue_ok i"
    by (auto simp: filter_value_issues_def Let_def issue_ok_iff split: if_splits dest!: ids(2))
  show "i \<in> set (grouping_issues q) \<Longrightarrow> issue_ok i"
    by (auto simp: grouping_issues_def Let_def issue_ok_iff aggregated_def split: if_splits dest!: ids(1,3))
  show "i \<in> set (version_issues q @ result_shape_issues q @ provenance_issues q) \<Longrightarrow> issue_ok i"
    using assms by (auto simp: version_issues_def ir_valid_def ir_parts_ok_def IR_VERSION_def result_shape_issues_def
      Let_def provenance_issues_def shape_issue_def issue_ok_iff split: if_splits)
  show "i \<in> set (extension_issues q) \<Longrightarrow> issue_ok i"
    by (auto simp: extension_issues_def issue_ok_iff dest!: ids(5))
qed

lemma bounds_ok:
  assumes "ir_valid q" "0 \<le> max_limit" "max_limit \<le> 1000000" "i \<in> set (bound_issues require_bounded max_limit q)"
  shows "issue_ok i"
proof -
  have "length (string_of_int n) \<le> 7" if "ir_limit q = Some n" for n
    using assms(1) that by (intro string_of_int_length) (auto simp: ir_valid_def ir_parts_ok_def)
  moreover have "length (string_of_int max_limit) \<le> 7" using assms(2,3) by (rule string_of_int_length)
  ultimately show ?thesis
    using assms(4) by (cases "ir_limit q") (auto simp: bound_issues_def issue_ok_iff split: if_splits)
qed

text \<open>The message about an ambiguous bucket names its time fields: three of them always fit.\<close>

lemma comma_joined_length: "\<forall>x \<in> set xs. length x \<le> 128 \<Longrightarrow> length (comma_joined xs) \<le> 130 * length xs"
  by (induction xs rule: comma_joined.induct) auto

inductive_cases constructible_truncE: "constructible (IRDateTruncExpr b f)"

lemma trunc_node_names: "constructible (IRDateTruncExpr b f) \<Longrightarrow> length f \<le> 128"
  by (erule constructible_truncE) (auto simp: constructor_defs dest: identifier_ok_length split: if_splits option.splits)

lemma bucket_field_iff: "bucket_field b e = Some f \<longleftrightarrow> e = Some (IRDateTruncExpr b f)"
  by (cases "(b, e)" rule: bucket_field.cases) auto

lemma bucket_fields_short:
  assumes "ir_valid q" "t |\<in>| bucket_time_fields q b"
  shows "length t \<le> 128"
proof -
  obtain g where g: "g \<in> set (groupings q)" "grp_expression g = Some (IRDateTruncExpr b t)"
    using assms(2) by (auto simp: bucket_time_fields_def fset_of_list_elem set_map_filter bucket_field_iff)
  then have "grouping_ok g" using assms(1) by (simp add: ir_valid_def ir_parts_ok_def list_all_iff)
  with g(2) show ?thesis by (auto simp: grouping_ok_def intro: trunc_node_names)
qed

lemma prior_ok:
  assumes "ir_valid q" "\<forall>b. fcard (bucket_time_fields q b) \<le> 3" "i \<in> set (expression_issues q)"
  shows "issue_ok i"
proof -
  obtain path e n where n: "(path, e) \<in> set (ir_expression_nodes q)" "n \<in> set (iter_prior_period_nodes e)"
    "i \<in> set (prior_period_issues q path n)"
    using assms(3) by (auto simp: expression_issues_def)
  then obtain a b f p where node: "n = IRPriorPeriodExpr a b f p" by (cases n) simp_all
  have e: "constructible e" "length path \<le> 139" using built_expressions [OF assms(1) n(1)] by simp_all
  have "constructible n" using n(2) constructible_nodes [OF e(1)] by (simp add: iter_prior_period_nodes_def)
  then have names: "length b \<le> 5" "length f \<le> 128" using prior_node_names by (simp_all add: node)
  have "length (comma_joined (sorted_list_of_fset (bucket_time_fields q b))) \<le> 130 * length (sorted_list_of_fset (bucket_time_fields q b))"
    using bucket_fields_short [OF assms(1)] by (intro comma_joined_length) simp
  moreover have "length (sorted_list_of_fset (bucket_time_fields q b)) \<le> 3"
    using assms(2) by (simp add: sorted_list_of_fset.rep_eq fcard.rep_eq)
  ultimately have "length (comma_joined (sorted_list_of_fset (bucket_time_fields q b))) \<le> 390" by linarith
  then show ?thesis using n(3) names e(2) by (auto simp: node Let_def issue_ok_iff split: if_splits)
qed

lemma expression_field_issues_ok:
  assumes "constructible e" "length path \<le> 139" "i \<in> set (expression_field_issues v path e)"
  shows "issue_ok i"
proof -
  obtain f where "f |\<in>| expression_field_ids e"
    "i = issue ''field_out_of_scope'' (''expression field '' @ quoted f @ '' is outside the authorized view'') path"
    using assms(3) by (auto simp: expression_field_issues_def)
  moreover from this have "length f \<le> 128" using constructible_fields [OF assms(1)] identifier_ok_length by blast
  ultimately show ?thesis using assms(2) by (simp add: issue_ok_iff)
qed

lemma scope_ok:
  assumes "ir_valid q" "i \<in> set (view_scope_issues v declared computed q)"
  shows "issue_ok i"
proof -
  note ids = built_ids [OF assms(1)]
  have parts: "\<forall>s \<in> set (selections q). opt_all constructible (sel_expression s)"
    "\<forall>g \<in> set (groupings q). opt_all constructible (grp_expression g)"
    using assms(1) by (simp_all add: ir_valid_def ir_parts_ok_def list_all_iff selection_ok_def grouping_ok_def)
  have "issue_ok i" if s: "s \<in> set (selections q)" "i \<in> set (selection_scope_issues v declared s)" for s
  proof (cases "sel_expression s")
    case None
    with s(2) ids(1) [OF s(1)] show ?thesis by (auto simp: selection_scope_issues_def Let_def issue_ok_iff split: if_splits)
  next
    case (Some e)
    with s parts(1) ids(1) [OF s(1)] show ?thesis
      by (intro expression_field_issues_ok [of e "''selections.'' @ selection_id s" i v])
        (auto simp: selection_scope_issues_def Let_def)
  qed
  moreover have "issue_ok i" if g: "g \<in> set (groupings q)" "i \<in> set (grouping_scope_issues v declared g)" for g
  proof (cases "grp_expression g")
    case None
    with g(2) ids(3) [OF g(1)] show ?thesis by (auto simp: grouping_scope_issues_def Let_def issue_ok_iff split: if_splits)
  next
    case (Some e)
    with g parts(2) ids(3) [OF g(1)] show ?thesis
      by (intro expression_field_issues_ok [of e "''groupings.'' @ grouping_id g" i v])
        (auto simp: grouping_scope_issues_def Let_def)
  qed
  moreover have "issue_ok i" if f: "f \<in> set (filters q)" "i \<in> set (filter_scope_issues v declared f)" for f
    using f(2) ids(2) [OF f(1)] by (auto simp: filter_scope_issues_def issue_ok_iff split: if_splits)
  moreover have "issue_ok i" if r: "r \<in> set (orderings q)" "i \<in> set (ordering_scope_issues v declared computed r)" for r
    using r(2) ids(4) [OF r(1)] by (auto simp: ordering_scope_issues_def issue_ok_iff split: if_splits)
  moreover have "issue_ok (issue ''source_out_of_scope'' (''source '' @ quoted (ir_source_id q) @ '' is outside the authorized view'') ''source_id'')"
    "issue_ok (issue ''entity_out_of_scope'' (''root entity '' @ quoted (ir_root_entity_id q) @ '' is outside the authorized view'') ''root_entity_id'')"
    using ids(7) by (simp_all add: issue_ok_iff)
  ultimately show ?thesis
    using assms(2) unfolding view_scope_issues_def by (auto split: if_splits)
qed

lemma binding_ok:
  assumes "ir_valid q" "i \<in> set (view_binding_issues v q)"
  shows "issue_ok i"
proof -
  note ids = built_ids [OF assms(1)]
  have "issue_ok i" if n: "(path, e) \<in> set (ir_expression_nodes q)" "n \<in> set (iter_aggregate_nodes e)"
    "i \<in> set (aggregate_issues v path n)" for path e n
  proof -
    have "is_aggregate n" using n(2) by (simp add: iter_aggregate_nodes_def)
    then obtain fn f p where node: "n = IRAggregateExpr fn f p" by (cases n) simp_all
    have e: "constructible e" "length path \<le> 139" using built_expressions [OF assms(1) n(1)] by simp_all
    have "constructible n" using n(2) constructible_nodes [OF e(1)] by (simp add: iter_aggregate_nodes_def)
    then show ?thesis using n(3) e(2) aggregate_node_names [of fn f p]
      by (auto simp: node issue_ok_iff split: if_splits)
  qed
  moreover have "issue_ok (issue ''operation_out_of_scope'' (''operation '' @ quoted p @ '' is outside the authorized view'') ''required_capabilities'')"
    if "p \<in> set (required_operations q)" for p
  proof -
    have "p \<in> snd ` set CAPABILITY_TO_OPERATION"
      using that by (force simp: required_operations_def set_map_filter dest: map_of_SomeD)
    then have "length p \<le> 9" by (auto simp: CAPABILITY_TO_OPERATION_def)
    then show ?thesis by (simp add: issue_ok_iff)
  qed
  moreover have "issue_ok (issue ''aggregation_out_of_scope''
      (''aggregation '' @ quoted (aggregation s) @ '' is outside the authorized view for field '' @ quoted (sel_field_id s))
      (''selections.'' @ selection_id s))" if "s \<in> set (aggregated q)" for s
    using that ids(1) [of s] by (auto simp: aggregated_def issue_ok_iff)
  moreover have "issue_ok (issue ''result_shape_out_of_scope''
      (''result shape '' @ quoted (result_shape q) @ '' is outside the authorized view'') ''result_shape.kind'')"
    "issue_ok (issue ''missing_view_reference'' ''IR does not reference the authorized resolved view'' ''provenance.view_reference'')"
    "issue_ok (issue ''view_reference_mismatch'' ''IR view reference does not match the current resolved view'' ''provenance.view_reference'')"
    using ids(7) by (simp_all add: issue_ok_iff)
  ultimately show ?thesis
    using assms(2) unfolding view_binding_issues_def
    by (cases "view_reference (provenance q)") (auto split: if_splits)
qed

lemma time_ok:
  assumes "ir_valid q" "\<forall>t. t |\<in>| required \<longrightarrow> length t \<le> 128" "i \<in> set (time_issues required q)"
  shows "issue_ok i"
  using assms(2,3) by (auto simp: time_issues_def Let_def issue_ok_iff dest!: built_ids(2) [OF assms(1)])

lemma calculated_ok:
  assumes "ir_valid q" "i \<in> set (calculated_issues declared q)"
  shows "issue_ok i"
  using assms(2)
  by (auto simp: calculated_issues_def calculated_issue_def issue_ok_iff split: if_splits
    dest!: built_ids(1-4) [OF assms(1)])

section \<open>Properties\<close>

lemma computed_outputs_member:
  "x |\<in>| computed_outputs q \<longleftrightarrow> (\<exists>s \<in> set (selections q). \<exists>e. sel_expression s = Some e \<and> sel_field_id s = x)"
  by (auto simp: computed_outputs_def fset_of_list_elem)

lemma field_id_cases:
  "x |\<in>| ir_field_ids q \<longleftrightarrow>
     (\<exists>s \<in> set (selections q). sel_field_id s = x) \<or> (\<exists>f \<in> set (filters q). flt_field_id f = x) \<or>
     (\<exists>g \<in> set (groupings q). grp_field_id g = x) \<or> (\<exists>r \<in> set (orderings q). ord_field_id r = x) \<or>
     (\<exists>e \<in> set (used_expressions (selections q) (groupings q)). x |\<in>| expression_field_ids e)"
  by (auto simp: ir_field_ids_def fold_union_map fset_of_list_elem)

lemma computed_groupings:
  assumes "new_SemanticQueryIR a = Inr q" "g \<in> set (groupings q)" "grp_expression g = Some e"
  shows "\<exists>s \<in> set (selections q). \<exists>e'. sel_expression s = Some e' \<and> sel_field_id s = grp_field_id g"
proof -
  have "grouping_anchored q g"
    using assms(2) built_query [OF assms(1)] by (simp add: ir_valid_def expressions_valid_def list_all_iff)
  then obtain e' where "fmlookup (computed_by_field q) (grp_field_id g) = Some e'"
    using assms(3) by (auto simp: grouping_anchored_def split: option.splits)
  then show ?thesis
    using computed_by_field_sound [of "selections q" fmempty "grp_field_id g" e'] by (auto simp: computed_by_field_def)
qed

lemma query_within_view:
  assumes "new_SemanticQueryIR a = Inr q" and "validate_ir (Some v) True max_limit required given q = Inr r" and "valid r"
  shows "ir_source_id q = source_id v \<and> (root_entity_ids v = {||} \<or> ir_root_entity_id q |\<in>| root_entity_ids v) \<and>
    ir_field_ids q |\<subseteq>| field_ids v |\<union>| declared_calculated (Some v) given |\<union>| computed_outputs q \<and>
    (\<forall>f \<in> set (filters q). flt_field_id f |\<in>| field_ids v) \<and>
    (\<exists>n. ir_limit q = Some n \<and> n \<le> max_limit) \<and>
    (view_bound v \<longrightarrow>
      (\<exists>p. view_reference (provenance q) = Some p \<and> Some (ref_view_id p) = view_id v \<and>
         Some (ref_view_version p) = view_version v \<and> Some (ref_view_fingerprint p) = view_fingerprint v) \<and>
      (\<forall>s \<in> set (selections q). aggregation s \<noteq> ''none'' \<longrightarrow> aggregation_allowed v (sel_field_id s) (aggregation s)))"
proof -
  have adm: "admissible (Some v) True max_limit required given q"
    using assms(2,3) issues_none by (auto simp: validate_ir_def Let_def split: if_splits)
  then have within: "within_view v (declared_calculated (Some v) given) q" and calc: "calculated_only_selected (declared_calculated (Some v) given) q"
    and bound: "view_bound v \<Longrightarrow> bound_to_view v q"
    by (auto simp: admissible_def)
  have "x |\<in>| field_ids v |\<union>| declared_calculated (Some v) given |\<union>| computed_outputs q" if "x |\<in>| ir_field_ids q" for x
  proof -
    let ?known = "field_ids v |\<union>| declared_calculated (Some v) given |\<union>| computed_outputs q"
    have "sel_field_id s |\<in>| ?known" if "s \<in> set (selections q)" for s
      using within that by (cases "sel_expression s") (auto simp: within_view_def computed_outputs_member)
    moreover have "grp_field_id g |\<in>| ?known" if "g \<in> set (groupings q)" for g
      using within that computed_groupings [OF assms(1) that]
      by (cases "grp_expression g") (auto simp: within_view_def computed_outputs_member)
    moreover have "flt_field_id f |\<in>| ?known" if "f \<in> set (filters q)" for f using within that by (auto simp: within_view_def)
    moreover have "ord_field_id r |\<in>| ?known" if "r \<in> set (orderings q)" for r using within that by (auto simp: within_view_def)
    moreover have "x |\<in>| ?known" if "e \<in> set (used_expressions (selections q) (groupings q))" "x |\<in>| expression_field_ids e" for e
      using within that by (auto simp: within_view_def less_eq_fset.rep_eq)
    ultimately show ?thesis using that unfolding field_id_cases by blast
  qed
  then have "ir_field_ids q |\<subseteq>| field_ids v |\<union>| declared_calculated (Some v) given |\<union>| computed_outputs q" by blast
  moreover have "flt_field_id f |\<in>| field_ids v" if "f \<in> set (filters q)" for f
    using within calc that by (auto simp: within_view_def calculated_only_selected_def)
  moreover have "\<exists>n. ir_limit q = Some n \<and> n \<le> max_limit"
    using adm by (auto simp: admissible_def query_bounded_def)
  moreover have "ir_source_id q = source_id v" "root_entity_ids v = {||} \<or> ir_root_entity_id q |\<in>| root_entity_ids v"
    using within by (simp_all add: within_view_def)
  moreover have "(\<exists>p. view_reference (provenance q) = Some p \<and> Some (ref_view_id p) = view_id v \<and>
         Some (ref_view_version p) = view_version v \<and> Some (ref_view_fingerprint p) = view_fingerprint v) \<and>
      (\<forall>s \<in> set (selections q). aggregation s \<noteq> ''none'' \<longrightarrow> aggregation_allowed v (sel_field_id s) (aggregation s))"
    if "view_bound v"
    using bound [OF that] by (simp add: bound_to_view_def reference_matches_def view_binding_fingerprint_def aggregated_def)
  ultimately show ?thesis by blast
qed

text \<open>
  A query that validates stays within the authorized view: its source and root entity are those
  of the view, every field it names anywhere, inside computed expressions too, is a field of the
  view, a declared calculated field or an output it computes itself, filters and groupings name no
  calculated field, a bounded query has a limit within the maximum, and for a bound view the query
  carries the identity, version and fingerprint of that very view and aggregates only as it allows.
\<close>

theorem valid_query_within_view:
  assumes "new_SemanticQueryIR a = Inr q" and "validate_ir (Some v) True max_limit required given q = Inr r" and "valid r"
  shows "ir_source_id q = source_id v \<and> (root_entity_ids v = {||} \<or> ir_root_entity_id q |\<in>| root_entity_ids v) \<and>
    ir_field_ids q |\<subseteq>| field_ids v |\<union>| declared_calculated (Some v) given |\<union>| computed_outputs q \<and>
    (\<forall>f \<in> set (filters q). flt_field_id f |\<in>| field_ids v) \<and>
    (\<exists>n. ir_limit q = Some n \<and> n \<le> max_limit) \<and>
    (view_bound v \<longrightarrow>
      (\<exists>p. view_reference (provenance q) = Some p \<and> Some (ref_view_id p) = view_id v \<and>
         Some (ref_view_version p) = view_version v \<and> Some (ref_view_fingerprint p) = view_fingerprint v) \<and>
      (\<forall>s \<in> set (selections q). aggregation s \<noteq> ''none'' \<longrightarrow> aggregation_allowed v (sel_field_id s) (aggregation s)))"
  using assms by (rule query_within_view)

text \<open>
  C2.  Validation is exact: it accepts a query if and only if the query is admissible, which states
  over the query and the view, without reference to the order of the checks, what each of them
  asks for; and it never reports a valid result with issues.
\<close>

theorem validation_decides_admissibility:
  assumes "validate_ir view require_bounded max_limit required given q = Inr r"
  shows "(valid r \<longleftrightarrow> admissible view require_bounded max_limit required given q) \<and> (valid r \<longleftrightarrow> issues r = []) \<and>
    res_ir_fingerprint r = ir_fingerprint q"
  using assms issues_none by (auto simp: validate_ir_def Let_def split: if_splits)

text \<open>
  Validation returns: for every query the models can build, every view, a limit of at most one
  million and required time fields of at most 128 characters, it returns a result unless the
  groupings put one date bucket over four or more time fields.
\<close>

theorem validation_returns:
  assumes "new_SemanticQueryIR a = Inr q" "0 \<le> max_limit" "max_limit \<le> 1000000"
    and "\<forall>t. t |\<in>| required \<longrightarrow> length t \<le> 128" and "\<forall>b. fcard (bucket_time_fields q b) \<le> 3"
  shows "is_ok (validate_ir view require_bounded max_limit required given q)"
proof -
  have valid: "ir_valid q" using assms(1) built_query by blast
  have "issue_ok i" if "i \<in> set (validation_issues view require_bounded max_limit required given q)" for i
    using that structure_ok [OF valid] bounds_ok [OF valid assms(2,3)] prior_ok [OF valid assms(5)]
      scope_ok [OF valid] binding_ok [OF valid] time_ok [OF valid assms(4)] calculated_ok [OF valid]
    unfolding validation_issues_def Let_def set_append by (elim UnE) (auto split: option.splits if_splits)
  then show ?thesis by (simp add: validate_ir_def Let_def list_all_iff)
qed

section \<open>Concrete queries\<close>

lemma sorted_list_of_fempty [simp]: "sorted_list_of_fset {||} = []"
  by (simp add: sorted_list_of_fset.rep_eq)

text \<open>Revenue by region and, not grouped, city, for a bound view that allows no operation at all.\<close>

definition sample_fingerprint :: string where
  "sample_fingerprint = ''sha256:'' @ replicate 64 CHR ''0''"

definition sample_selection :: "string \<Rightarrow> string \<Rightarrow> string \<Rightarrow> IRExpression option \<Rightarrow> IRSelection" where
  "sample_selection sid f kind e =
     \<lparr>selection_id = sid, sel_field_id = f, sel_alias = None, aggregation = kind, sel_expression = e\<rparr>"

definition sample_ir :: "IRSelection list \<Rightarrow> IRGrouping list \<Rightarrow> string list \<Rightarrow> SemanticQueryIR" where
  "sample_ir ss gs caps =
     \<lparr>ir_version = 1, ir_id = ''q1'', ir_source_id = ''sales'', ir_root_entity_id = ''orders'', selections = ss, filters = [],
      groupings = gs, orderings = [], ir_limit = Some 10, time_context = None, result_shape = ''grouped_rows'',
      provenance = \<lparr>prov_source_id = ''sales'', prov_root_entity_id = ''orders'', prov_catalog_fingerprint = None,
        policy_view_fingerprint = None,
        view_reference = Some \<lparr>ref_view_id = ''v1'', ref_view_version = 1, ref_view_fingerprint = sample_fingerprint\<rparr>,
        join_plan_fingerprint = None\<rparr>,
      required_capabilities = caps, extensions = [], ir_fingerprint = []\<rparr>"

definition sample_bound_view :: AuthorizedView where
  "sample_bound_view =
     \<lparr>source_id = ''sales'', root_entity_ids = {|''orders''|}, field_ids = {|''region'', ''city'', ''revenue'', ''day''|},
      calculated_field_ids = {||}, catalog_fingerprint = None, view_id = Some ''v1'', view_version = Some 1,
      view_fingerprint = Some sample_fingerprint, allowed_operations = {||}, allowed_relationships = {||},
      field_aggregation_restrictions = Some (fmap_of_list [(''revenue'', {|''sum''|})]),
      result_shape_constraints = [], purpose = None\<rparr>"

definition partly_grouped :: SemanticQueryIR where
  "partly_grouped = sample_ir
     [sample_selection ''s1'' ''region'' ''none'' None, sample_selection ''s2'' ''revenue'' ''sum'' None,
      sample_selection ''s3'' ''city'' ''none'' None]
     [\<lparr>grouping_id = ''g1'', grp_field_id = ''region'', grp_expression = None\<rparr>] []"

lemma sample_names:
  "identifier_ok ''q1''" "identifier_ok ''sales''" "identifier_ok ''orders''" "identifier_ok ''s1''" "identifier_ok ''s2''"
  "identifier_ok ''s3''" "identifier_ok ''g1''" "identifier_ok ''region''" "identifier_ok ''revenue''" "identifier_ok ''city''"
  "identifier_ok ''v1''" "identifier_ok ''bucket''" "identifier_ok ''previous''" "identifier_ok ''day''"
  "fingerprint_ok sample_fingerprint"
  by (simp_all add: pattern_simps sample_fingerprint_def list_all_iff)

lemmas sample_query_defs = sample_ir_def sample_selection_def sample_bound_view_def

lemma sample_ir_valid:
  assumes "1 \<le> length ss" "length ss \<le> 9" "list_all selection_ok ss" "distinct (map selection_id ss)" "length gs \<le> 9"
    and "list_all grouping_ok gs" "distinct caps" "length caps \<le> 9" "list_all identifier_ok caps"
    and "expressions_valid (sample_ir ss gs caps)"
  shows "ir_valid (sample_ir ss gs caps)"
  using assms by (simp add: ir_valid_def ir_parts_ok_def sample_ir_def provenance_ok_def view_reference_ok_def sample_names)

lemma partly_grouped_valid: "ir_valid partly_grouped"
  unfolding partly_grouped_def
  by (rule sample_ir_valid) (simp_all add: sample_query_defs sample_names selection_ok_def grouping_ok_def AGGREGATION_KINDS_def
    expressions_valid_def expression_capabilities_def used_expressions_def List.map_filter_simps grouping_anchored_def
    computed_by_field_def)

lemmas check_defs = validation_issues_def Let_def version_issues_def IR_VERSION_def duplicate_issues_def grouping_issues_def
  result_shape_issues_def bound_issues_def provenance_issues_def expression_issues_def view_scope_issues_def
  view_binding_issues_def time_issues_def extension_issues_def calculated_issues_def selection_scope_issues_def
  grouping_scope_issues_def selection_by_field_def aggregated_def required_operations_def reference_matches_def
  view_binding_fingerprint_def ir_expression_nodes_def contains_field_def aggregation_allowed_def allowed_aggregations_for_def
  declared_calculated_def expression_field_issues_def List.map_filter_simps

lemma partly_grouped_issues:
  "validation_issues (Some sample_bound_view) True 100 {||} None (partly_grouped\<lparr>ir_fingerprint := fp\<rparr>) = []"
  by (simp add: check_defs partly_grouped_def sample_query_defs)

lemma partly_grouped_accepted:
  "validate_ir (Some sample_bound_view) True 100 {||} None (partly_grouped\<lparr>ir_fingerprint := fp\<rparr>) =
   Inr \<lparr>valid = True, res_ir_version = 1, res_ir_fingerprint = fp, issues = []\<rparr>"
  by (simp add: validate_ir_def partly_grouped_issues) (simp add: partly_grouped_def sample_query_defs)

lemma partly_grouped_built:
  "new_SemanticQueryIR partly_grouped = Inr (partly_grouped\<lparr>ir_fingerprint := fingerprint_of (ir_payload partly_grouped)\<rparr>)"
  using partly_grouped_valid by (simp add: new_query) (simp add: partly_grouped_def sample_query_defs)

theorem valid_query_within_view_witness:
  "ir_field_ids (partly_grouped\<lparr>ir_fingerprint := fingerprint_of (ir_payload partly_grouped)\<rparr>) |\<subseteq>|
   field_ids sample_bound_view |\<union>| computed_outputs partly_grouped"
  using valid_query_within_view [OF partly_grouped_built partly_grouped_accepted]
  by (simp add: declared_calculated_def sample_bound_view_def computed_outputs_def)

theorem validation_decides_admissibility_witness:
  "admissible (Some sample_bound_view) True 100 {||} None (partly_grouped\<lparr>ir_fingerprint := []\<rparr>)"
  using validation_decides_admissibility [OF partly_grouped_accepted [of "[]"]] by simp

theorem validation_returns_witness:
  "is_ok (validate_ir None True 5 {||} None (partly_grouped\<lparr>ir_fingerprint := fingerprint_of (ir_payload partly_grouped)\<rparr>))"
proof (rule validation_returns [OF partly_grouped_built])
  show "\<forall>b. fcard (bucket_time_fields (partly_grouped\<lparr>ir_fingerprint := fingerprint_of (ir_payload partly_grouped)\<rparr>) b) \<le> 3"
    by (simp add: bucket_time_fields_def partly_grouped_def sample_query_defs List.map_filter_simps)
qed simp_all

text \<open>
  A partly grouped query validates: it aggregates revenue, groups by region, and selects city, which is
  neither grouped nor aggregated.  A view that allows no operation accepts it too, because operations
  are read off the declared capabilities, of which it declares none.
\<close>

theorem partly_grouped_query_validates:
  "(\<exists>s \<in> set (selections partly_grouped). aggregation s \<noteq> ''none'') \<and>
   (\<exists>s \<in> set (selections partly_grouped). aggregation s = ''none'' \<and>
      sel_field_id s \<notin> set (map grp_field_id (groupings partly_grouped))) \<and>
   allowed_operations sample_bound_view = {||} \<and>
   validate_ir (Some sample_bound_view) True 100 {||} None (partly_grouped\<lparr>ir_fingerprint := fp\<rparr>) =
     Inr \<lparr>valid = True, res_ir_version = 1, res_ir_fingerprint = fp, issues = []\<rparr>"
  using partly_grouped_accepted by (simp add: partly_grouped_def sample_query_defs)

text \<open>
  The aggregate of a prior-period node is not compared with the aggregations the view allows: with a
  view that allows only sums of revenue, the count of a prior period validates.
\<close>

definition prior_count :: SemanticQueryIR where
  "prior_count = sample_ir
     [sample_selection ''s1'' ''bucket'' ''none'' (Some (IRDateTruncExpr ''month'' ''day'')),
      sample_selection ''s2'' ''previous'' ''none'' (Some (IRPriorPeriodExpr ''count'' ''month'' ''revenue'' None))]
     [\<lparr>grouping_id = ''g1'', grp_field_id = ''bucket'', grp_expression = Some (IRDateTruncExpr ''month'' ''day'')\<rparr>]
     [EXPRESSION_CAPABILITY, PRIOR_PERIOD_CAPABILITY]"

lemma prior_count_valid: "ir_valid prior_count"
proof -
  have "constructible (IRDateTruncExpr ''month'' ''day'')"
    by (rule c_trunc [of "''month''" "''day''"]) (simp add: new_IRDateTruncExpr_def sample_names)
  moreover have "constructible (IRPriorPeriodExpr ''count'' ''month'' ''revenue'' None)"
    by (rule c_prior [of None "''count''" "''month''" "''revenue''"]) (simp_all add: new_IRPriorPeriodExpr_def sample_names)
  moreover have "identifier_ok EXPRESSION_CAPABILITY" "identifier_ok PRIOR_PERIOD_CAPABILITY"
    "EXPRESSION_CAPABILITY \<noteq> PRIOR_PERIOD_CAPABILITY"
    by (simp_all add: pattern_simps EXPRESSION_CAPABILITY_def PRIOR_PERIOD_CAPABILITY_def)
  ultimately show ?thesis
    unfolding prior_count_def
    by (intro sample_ir_valid) (simp_all add: sample_query_defs sample_names selection_ok_def grouping_ok_def AGGREGATION_KINDS_def
      expressions_valid_def expression_capabilities_def used_expressions_def List.map_filter_simps grouping_anchored_def
      computed_by_field_def expression_required_capabilities_def expressions_equal_def field_payload_def)
qed

lemma prior_count_issues:
  "validation_issues (Some sample_bound_view) True 100 {||} None prior_count = []"
  by (simp add: check_defs prior_count_def sample_query_defs iter_prior_period_nodes_def iter_aggregate_nodes_def
    bucket_time_fields_def filter_field_def EXPRESSION_CAPABILITY_def PRIOR_PERIOD_CAPABILITY_def CAPABILITY_TO_OPERATION_def
    sorted_list_of_fset.rep_eq fcard.rep_eq)

theorem prior_period_aggregate_not_checked:
  "ir_valid prior_count \<and> \<not> aggregation_allowed sample_bound_view ''revenue'' ''count'' \<and>
   (\<exists>e \<in> set (used_expressions (selections prior_count) (groupings prior_count)).
      IRPriorPeriodExpr ''count'' ''month'' ''revenue'' None \<in> set (iter_nodes e)) \<and>
   validate_ir (Some sample_bound_view) True 100 {||} None prior_count =
     Inr \<lparr>valid = True, res_ir_version = 1, res_ir_fingerprint = [], issues = []\<rparr>"
proof -
  have "validate_ir (Some sample_bound_view) True 100 {||} None prior_count =
     Inr \<lparr>valid = True, res_ir_version = 1, res_ir_fingerprint = [], issues = []\<rparr>"
    by (simp add: validate_ir_def prior_count_issues) (simp add: prior_count_def sample_query_defs)
  then show ?thesis
    using prior_count_valid
    by (simp add: aggregation_allowed_def allowed_aggregations_for_def prior_count_def sample_query_defs used_expressions_def
      List.map_filter_simps)
qed

end
