(* ===== verification/View_Resolution.thy ===== *)
theory View_Resolution
  imports Bundle_Model IR_Validation
begin

text \<open>
  Resolution of semantic views: the view definition models of \<^verbatim>\<open>src/nl2data_core/views/models.py\<close>, the
  trusted context (\<^verbatim>\<open>views/context.py\<close>), resolved projections (\<^verbatim>\<open>views/projection.py\<close>), outcomes
  (\<^verbatim>\<open>views/outcomes.py\<close>) and the registry with its resolver (\<^verbatim>\<open>views/registry.py\<close>).

  A dict is a finite map and a frozenset a finite set.  The dictionaries of the registry are the lists it is
  built from: ids are unique, so the entry of an id is its only element.  A model whose validators refuse
  its members makes the call raise; the issues of a resolution have the members and bounds of the issues of
  bundle validation and share their record.

  The theory shows that a view resolves only when every trusted input agrees with the definition, that the
  resolved projection is a narrowing of the descriptor, that client hints never matter, and, with
  \<open>from_projection\<close> and IR validation, that a validated query stays within the descriptor.
\<close>

section \<open>View definitions\<close>

record ViewProvenance =
  vp_descriptor_fingerprint :: string
  vp_policy_decision_fingerprint :: "string option"
  vp_resolver_version :: int
  vp_bundle_id :: "string option"
  vp_bundle_version :: "string option"
  vp_bundle_fingerprint :: "string option"

text \<open>The bundle members are set together or not at all.\<close>

definition all_or_none :: "string option list \<Rightarrow> bool" where
  "all_or_none xs \<longleftrightarrow> list_all (\<lambda>x. x = None) xs \<or> list_all (\<lambda>x. x \<noteq> None) xs"

definition view_provenance_ok :: "ViewProvenance \<Rightarrow> bool" where
  "view_provenance_ok p \<longleftrightarrow>
     fingerprint_ok (vp_descriptor_fingerprint p) \<and> opt_all fingerprint_ok (vp_policy_decision_fingerprint p) \<and>
     1 \<le> vp_resolver_version p \<and> vp_resolver_version p \<le> 1000000 \<and> opt_all identifier_ok (vp_bundle_id p) \<and>
     opt_all identifier_ok (vp_bundle_version p) \<and> opt_all fingerprint_ok (vp_bundle_fingerprint p) \<and>
     all_or_none [vp_bundle_id p, vp_bundle_version p, vp_bundle_fingerprint p]"

definition view_provenance_payload :: "ViewProvenance \<Rightarrow> jv" where
  "view_provenance_payload p = vdict
     [(''descriptor_fingerprint'', VStr (vp_descriptor_fingerprint p)),
      (''policy_decision_fingerprint'', vopt VStr (vp_policy_decision_fingerprint p)),
      (''resolver_version'', VInt (vp_resolver_version p)), (''bundle_id'', vopt VStr (vp_bundle_id p)),
      (''bundle_version'', vopt VStr (vp_bundle_version p)),
      (''bundle_fingerprint'', vopt VStr (vp_bundle_fingerprint p))]"

record ViewMemberRestrictions =
  include_entities :: "string fset"
  exclude_entities :: "string fset"
  include_fields :: "string fset"
  exclude_fields :: "string fset"
  field_aliases :: "(string, string) fmap"
  vr_allowed_operations :: "string fset"
  aggregation_restrictions :: "(string, string fset) fmap"
  vr_allowed_relationships :: "string fset"
  vr_result_shapes :: "string list"

definition MAX_OPERATIONS :: nat where "MAX_OPERATIONS = 32"

definition restrictions_ok :: "ViewMemberRestrictions \<Rightarrow> bool" where
  "restrictions_ok r \<longleftrightarrow>
     fcard (include_entities r) \<le> MAX_ENTITIES \<and> fcard (exclude_entities r) \<le> MAX_ENTITIES \<and>
     fcard (include_fields r) \<le> MAX_FIELDS \<and> fcard (exclude_fields r) \<le> MAX_FIELDS \<and>
     fcard (fmdom (field_aliases r)) \<le> 4096 \<and> fmpred (\<lambda>k v. identifier_ok k \<and> identifier_ok v) (field_aliases r) \<and>
     fcard (vr_allowed_operations r) \<le> MAX_OPERATIONS \<and> fBall (vr_allowed_operations r) identifier_ok \<and>
     fcard (fmdom (aggregation_restrictions r)) \<le> MAX_FIELDS \<and>
     fmpred (\<lambda>k v. identifier_ok k \<and> v |\<subseteq>| fset_of_list AGGREGATION_KINDS) (aggregation_restrictions r) \<and>
     fcard (vr_allowed_relationships r) \<le> MAX_RELATIONSHIPS \<and> fBall (vr_allowed_relationships r) identifier_ok \<and>
     length (vr_result_shapes r) \<le> 16 \<and>
     list_all (\<lambda>k. k \<in> set [''rows'', ''grouped_rows'', ''scalar'']) (vr_result_shapes r) \<and> distinct (vr_result_shapes r)"

definition vset :: "string fset \<Rightarrow> jv" where
  "vset s = VList (map VStr (sorted_list_of_fset s))"

definition restrictions_payload :: "ViewMemberRestrictions \<Rightarrow> jv" where
  "restrictions_payload r = vdict
     [(''include_entities'', vset (include_entities r)), (''exclude_entities'', vset (exclude_entities r)),
      (''include_fields'', vset (include_fields r)), (''exclude_fields'', vset (exclude_fields r)),
      (''field_aliases'', vdict (map (\<lambda>(k, v). (k, VStr v)) (sorted_list_of_fmap (field_aliases r)))),
      (''allowed_operations'', vset (vr_allowed_operations r)),
      (''field_aggregation_restrictions'',
         vdict (map (\<lambda>(k, v). (k, vset v)) (sorted_list_of_fmap (aggregation_restrictions r)))),
      (''allowed_relationships'', vset (vr_allowed_relationships r)),
      (''result_shape_constraints'', VList (map VStr (vr_result_shapes r)))]"

record SemanticViewDefinition =
  vd_view_id :: string
  vd_version :: int
  vd_descriptor_id :: string
  vd_description :: string
  allowed_purposes :: "string fset"
  restrictions :: ViewMemberRestrictions
  bound_policy_fingerprint :: "string option"
  bound_tenant_scope_fingerprint :: "string option"
  bound_principal_authorization_fingerprints :: "string fset"
  vd_required_capabilities :: "string fset"
  required_feature_flags :: "string fset"
  vd_model_version :: "string option"
  vd_provenance :: ViewProvenance

definition view_definition_ok :: "SemanticViewDefinition \<Rightarrow> bool" where
  "view_definition_ok d \<longleftrightarrow>
     identifier_ok (vd_view_id d) \<and> 1 \<le> vd_version d \<and> vd_version d \<le> 1000000 \<and>
     identifier_ok (vd_descriptor_id d) \<and> description_ok (vd_description d) \<and>
     fcard (allowed_purposes d) \<le> 64 \<and> fBall (allowed_purposes d) identifier_ok \<and> restrictions_ok (restrictions d) \<and>
     opt_all fingerprint_ok (bound_policy_fingerprint d) \<and> opt_all fingerprint_ok (bound_tenant_scope_fingerprint d) \<and>
     fcard (bound_principal_authorization_fingerprints d) \<le> 64 \<and>
     fBall (bound_principal_authorization_fingerprints d) fingerprint_ok \<and>
     fcard (vd_required_capabilities d) \<le> 64 \<and> fBall (vd_required_capabilities d) identifier_ok \<and>
     fcard (required_feature_flags d) \<le> 64 \<and> fBall (required_feature_flags d) identifier_ok \<and>
     opt_all identifier_ok (vd_model_version d) \<and> view_provenance_ok (vd_provenance d)"

definition view_definition_payload :: "SemanticViewDefinition \<Rightarrow> jv" where
  "view_definition_payload d = vdict
     [(''view_id'', VStr (vd_view_id d)), (''version'', VInt (vd_version d)),
      (''descriptor_id'', VStr (vd_descriptor_id d)), (''description'', VStr (vd_description d)),
      (''allowed_purposes'', vset (allowed_purposes d)), (''restrictions'', restrictions_payload (restrictions d)),
      (''bound_policy_fingerprint'', vopt VStr (bound_policy_fingerprint d)),
      (''bound_tenant_scope_fingerprint'', vopt VStr (bound_tenant_scope_fingerprint d)),
      (''bound_principal_authorization_fingerprints'', vset (bound_principal_authorization_fingerprints d)),
      (''required_capabilities'', vset (vd_required_capabilities d)),
      (''required_feature_flags'', vset (required_feature_flags d)),
      (''model_version'', vopt VStr (vd_model_version d)),
      (''provenance'', view_provenance_payload (vd_provenance d))]"

definition view_definition_fingerprint :: "SemanticViewDefinition \<Rightarrow> string" where
  "view_definition_fingerprint d = fingerprint_of (view_definition_payload d)"

section \<open>The trusted context\<close>

record ResolutionContext =
  cx_tenant_scope_fingerprint :: "string option"
  tenant_active :: bool
  cx_principal_authorization_fingerprint :: "string option"
  cx_purpose :: "string option"
  cx_policy_fingerprint :: "string option"
  cx_catalog_fingerprint :: "string option"
  cx_bundle_fingerprint :: "string option"
  cx_snapshot_fingerprint :: "string option"
  cx_model_version :: "string option"
  adapter_capabilities :: "string fset"
  feature_flags :: "string fset"
  client_hints :: "(string, string) fmap"

definition resolution_context_ok :: "ResolutionContext \<Rightarrow> bool" where
  "resolution_context_ok c \<longleftrightarrow>
     opt_all fingerprint_ok (cx_tenant_scope_fingerprint c) \<and>
     opt_all fingerprint_ok (cx_principal_authorization_fingerprint c) \<and> opt_all identifier_ok (cx_purpose c) \<and>
     opt_all fingerprint_ok (cx_policy_fingerprint c) \<and> opt_all fingerprint_ok (cx_catalog_fingerprint c) \<and>
     opt_all fingerprint_ok (cx_bundle_fingerprint c) \<and> opt_all fingerprint_ok (cx_snapshot_fingerprint c) \<and>
     opt_all identifier_ok (cx_model_version c) \<and>
     fcard (adapter_capabilities c) \<le> 64 \<and> fBall (adapter_capabilities c) identifier_ok \<and>
     fcard (feature_flags c) \<le> 64 \<and> fBall (feature_flags c) identifier_ok \<and>
     fcard (fmdom (client_hints c)) \<le> 16 \<and>
     fmpred (\<lambda>k v. k \<noteq> [] \<and> length k \<le> 128 \<and> length v \<le> 256) (client_hints c)"

definition comma_joined :: "string fset \<Rightarrow> string" where
  "comma_joined s = joined (sorted_list_of_fset s)"

definition context_payload :: "ResolutionContext \<Rightarrow> jv" where
  "context_payload c = vdict
     [(''tenant_scope_fingerprint'', vopt VStr (cx_tenant_scope_fingerprint c)),
      (''tenant_active'', VStr (if tenant_active c then ''True'' else ''False'')),
      (''principal_authorization_fingerprint'', vopt VStr (cx_principal_authorization_fingerprint c)),
      (''purpose'', vopt VStr (cx_purpose c)), (''policy_fingerprint'', vopt VStr (cx_policy_fingerprint c)),
      (''catalog_fingerprint'', vopt VStr (cx_catalog_fingerprint c)),
      (''bundle_fingerprint'', vopt VStr (cx_bundle_fingerprint c)),
      (''snapshot_fingerprint'', vopt VStr (cx_snapshot_fingerprint c)),
      (''model_version'', vopt VStr (cx_model_version c)),
      (''adapter_capabilities'', VStr (comma_joined (adapter_capabilities c))),
      (''feature_flags'', VStr (comma_joined (feature_flags c))),
      (''client_hint_keys'', VStr (comma_joined (fmdom (client_hints c))))]"

section \<open>Resolved projections\<close>

record ResolvedViewField =
  rv_field_id :: string
  rv_alias :: "string option"
  rv_label :: string
  rv_description :: string
  rv_data_type :: string
  rv_aggregations :: "string fset"

definition resolved_field_ok :: "ResolvedViewField \<Rightarrow> bool" where
  "resolved_field_ok f \<longleftrightarrow>
     identifier_ok (rv_field_id f) \<and> opt_all identifier_ok (rv_alias f) \<and> label_ok (rv_label f) \<and>
     length (rv_description f) \<le> 1024 \<and> identifier_ok (rv_data_type f) \<and>
     rv_aggregations f |\<subseteq>| fset_of_list AGGREGATION_KINDS"

definition resolved_field_payload :: "ResolvedViewField \<Rightarrow> jv" where
  "resolved_field_payload f = vdict
     [(''field_id'', VStr (rv_field_id f)), (''alias'', vopt VStr (rv_alias f)), (''label'', VStr (rv_label f)),
      (''description'', VStr (rv_description f)), (''data_type'', VStr (rv_data_type f)),
      (''allowed_aggregations'', vset (rv_aggregations f))]"

record ResolvedCalculatedField =
  rc_name :: string
  rc_label :: string
  rc_description :: string
  rc_output_type :: string
  rc_content_hash :: string

definition resolved_calculated_ok :: "ResolvedCalculatedField \<Rightarrow> bool" where
  "resolved_calculated_ok c \<longleftrightarrow>
     identifier_ok (rc_name c) \<and> label_ok (rc_label c) \<and> length (rc_description c) \<le> 1024 \<and>
     rc_output_type c \<in> set [''int'', ''float''] \<and> fingerprint_ok (rc_content_hash c)"

definition resolved_calculated_payload :: "ResolvedCalculatedField \<Rightarrow> jv" where
  "resolved_calculated_payload c = vdict
     [(''name'', VStr (rc_name c)), (''label'', VStr (rc_label c)), (''description'', VStr (rc_description c)),
      (''output_type'', VStr (rc_output_type c)), (''content_hash'', VStr (rc_content_hash c))]"

record ResolvedViewEntity =
  re_entity_id :: string
  re_label :: string
  re_description :: string
  re_fields :: "ResolvedViewField list"
  re_relationships :: "string fset"

definition resolved_entity_ok :: "ResolvedViewEntity \<Rightarrow> bool" where
  "resolved_entity_ok e \<longleftrightarrow>
     identifier_ok (re_entity_id e) \<and> label_ok (re_label e) \<and> length (re_description e) \<le> 1024 \<and>
     length (re_fields e) \<le> MAX_FIELDS \<and> list_all resolved_field_ok (re_fields e) \<and>
     fcard (re_relationships e) \<le> MAX_RELATIONSHIPS \<and> distinct (map rv_field_id (re_fields e))"

definition resolved_entity_payload :: "ResolvedViewEntity \<Rightarrow> jv" where
  "resolved_entity_payload e = vdict
     [(''entity_id'', VStr (re_entity_id e)), (''label'', VStr (re_label e)),
      (''description'', VStr (re_description e)), (''fields'', VList (map resolved_field_payload (re_fields e))),
      (''relationships'', vset (re_relationships e))]"

record ResolvedViewProjection =
  pj_view_id :: string
  pj_view_version :: int
  pj_descriptor_id :: string
  pj_source_id :: string
  pj_description :: string
  pj_root_entity_ids :: "string fset"
  pj_field_ids :: "string fset"
  pj_calculated_field_ids :: "string fset"
  pj_calculated_fields :: "ResolvedCalculatedField list option"
  pj_entities :: "ResolvedViewEntity list"
  pj_allowed_operations :: "string fset"
  pj_allowed_relationships :: "string fset"
  pj_result_shapes :: "string list"
  pj_catalog_fingerprint :: "string option"
  pj_bundle_id :: "string option"
  pj_bundle_version :: "string option"
  pj_bundle_fingerprint :: "string option"
  pj_policy_fingerprint :: "string option"
  pj_tenant_scope_fingerprint :: "string option"
  pj_principal_authorization_fingerprint :: "string option"
  pj_purpose :: "string option"
  pj_model_version :: "string option"
  pj_adapter_capability_fingerprint :: "string option"
  pj_feature_flag_fingerprint :: "string option"
  pj_provenance :: ViewProvenance

definition projected_field_ids :: "ResolvedViewProjection \<Rightarrow> string list" where
  "projected_field_ids p = concat (map (\<lambda>e. map rv_field_id (re_fields e)) (pj_entities p))"

definition resolved_calculated :: "ResolvedViewProjection \<Rightarrow> ResolvedCalculatedField list" where
  "resolved_calculated p = (case pj_calculated_fields p of None \<Rightarrow> [] | Some cs \<Rightarrow> cs)"

definition projection_members_ok :: "ResolvedViewProjection \<Rightarrow> bool" where
  "projection_members_ok p \<longleftrightarrow>
     identifier_ok (pj_view_id p) \<and> 1 \<le> pj_view_version p \<and> pj_view_version p \<le> 1000000 \<and>
     identifier_ok (pj_descriptor_id p) \<and> identifier_ok (pj_source_id p) \<and> length (pj_description p) \<le> 1024 \<and>
     fcard (pj_root_entity_ids p) \<le> MAX_ENTITIES \<and> fcard (pj_field_ids p) \<le> MAX_FIELDS \<and>
     fcard (pj_calculated_field_ids p) \<le> MAX_FIELDS \<and> length (resolved_calculated p) \<le> MAX_FIELDS \<and>
     list_all resolved_calculated_ok (resolved_calculated p) \<and>
     length (pj_entities p) \<le> MAX_ENTITIES \<and> list_all resolved_entity_ok (pj_entities p) \<and>
     fcard (pj_allowed_operations p) \<le> MAX_OPERATIONS \<and> fcard (pj_allowed_relationships p) \<le> MAX_RELATIONSHIPS \<and>
     length (pj_result_shapes p) \<le> 16 \<and> opt_all fingerprint_ok (pj_catalog_fingerprint p) \<and>
     opt_all identifier_ok (pj_bundle_id p) \<and> opt_all identifier_ok (pj_bundle_version p) \<and>
     opt_all fingerprint_ok (pj_bundle_fingerprint p) \<and> opt_all fingerprint_ok (pj_policy_fingerprint p) \<and>
     opt_all fingerprint_ok (pj_tenant_scope_fingerprint p) \<and>
     opt_all fingerprint_ok (pj_principal_authorization_fingerprint p) \<and> opt_all identifier_ok (pj_purpose p) \<and>
     opt_all identifier_ok (pj_model_version p) \<and> opt_all fingerprint_ok (pj_adapter_capability_fingerprint p) \<and>
     opt_all fingerprint_ok (pj_feature_flag_fingerprint p) \<and> view_provenance_ok (pj_provenance p)"

definition projection_consistent :: "ResolvedViewProjection \<Rightarrow> bool" where
  "projection_consistent p \<longleftrightarrow>
     distinct (map re_entity_id (pj_entities p)) \<and> distinct (projected_field_ids p) \<and>
     list_all (\<lambda>i. i |\<in>| pj_field_ids p) (projected_field_ids p) \<and>
     list_all (\<lambda>e. re_entity_id e |\<in>| pj_root_entity_ids p) (pj_entities p) \<and>
     pj_calculated_field_ids p |\<inter>| pj_field_ids p = {||} \<and>
     (let names = map rc_name (resolved_calculated p)
      in resolved_calculated p = [] \<or>
         (distinct names \<and> names = sort names \<and> fset_of_list names = pj_calculated_field_ids p)) \<and>
     all_or_none [pj_bundle_id p, pj_bundle_version p, pj_bundle_fingerprint p]"

definition new_ResolvedViewProjection :: "ResolvedViewProjection \<Rightarrow> ResolvedViewProjection res" where
  "new_ResolvedViewProjection p =
     (if projection_members_ok p \<and> projection_consistent p then Inr p else Inl ValidationError)"

definition projection_payload_members :: "ResolvedViewProjection \<Rightarrow> (string \<times> jv) list" where
  "projection_payload_members p =
     [(''view_id'', VStr (pj_view_id p)), (''view_version'', VInt (pj_view_version p)),
      (''descriptor_id'', VStr (pj_descriptor_id p)), (''source_id'', VStr (pj_source_id p)),
      (''description'', VStr (pj_description p)), (''root_entity_ids'', vset (pj_root_entity_ids p)),
      (''field_ids'', vset (pj_field_ids p))] @
     (if pj_calculated_field_ids p \<noteq> {||} then [(''calculated_field_ids'', vset (pj_calculated_field_ids p))] else []) @
     (if resolved_calculated p \<noteq> [] then
        [(''calculated_fields'', VList (map resolved_calculated_payload (resolved_calculated p)))] else []) @
     [(''entities'', VList (map resolved_entity_payload (pj_entities p))),
      (''allowed_operations'', vset (pj_allowed_operations p)),
      (''allowed_relationships'', vset (pj_allowed_relationships p)),
      (''result_shape_constraints'', VList (map VStr (pj_result_shapes p))),
      (''catalog_fingerprint'', vopt VStr (pj_catalog_fingerprint p)), (''bundle_id'', vopt VStr (pj_bundle_id p)),
      (''bundle_version'', vopt VStr (pj_bundle_version p)),
      (''bundle_fingerprint'', vopt VStr (pj_bundle_fingerprint p)),
      (''policy_fingerprint'', vopt VStr (pj_policy_fingerprint p)),
      (''tenant_scope_fingerprint'', vopt VStr (pj_tenant_scope_fingerprint p)),
      (''principal_authorization_fingerprint'', vopt VStr (pj_principal_authorization_fingerprint p)),
      (''purpose'', vopt VStr (pj_purpose p)), (''model_version'', vopt VStr (pj_model_version p)),
      (''adapter_capability_fingerprint'', vopt VStr (pj_adapter_capability_fingerprint p)),
      (''feature_flag_fingerprint'', vopt VStr (pj_feature_flag_fingerprint p)),
      (''provenance'', view_provenance_payload (pj_provenance p))]"

definition projection_payload :: "ResolvedViewProjection \<Rightarrow> jv" where
  "projection_payload p = vdict (projection_payload_members p)"

definition projection_fingerprint :: "ResolvedViewProjection \<Rightarrow> string" where
  "projection_fingerprint p = fingerprint_of (projection_payload p)"

definition projection_safe_payload :: "ResolvedViewProjection \<Rightarrow> jv" where
  "projection_safe_payload p =
     vdict (projection_payload_members p @ [(''fingerprint'', VStr (projection_fingerprint p))])"

section \<open>Outcomes\<close>

type_synonym ResolutionIssue = BundleIssue

datatype resolution_kind = RESOLVED | DENIED | UNAVAILABLE

record ResolutionOutcome =
  ro_kind :: resolution_kind
  ro_projection :: "ResolvedViewProjection option"
  ro_issues :: "ResolutionIssue list"

definition new_ResolutionOutcome ::
  "resolution_kind \<Rightarrow> ResolvedViewProjection option \<Rightarrow> ResolutionIssue list \<Rightarrow> ResolutionOutcome res" where
  "new_ResolutionOutcome k p is =
     (if length is \<le> 64 \<and> list_all bundle_issue_ok is \<and>
         (if k = RESOLVED then p \<noteq> None \<and> is = [] else p = None \<and> is \<noteq> [])
      then Inr \<lparr>ro_kind = k, ro_projection = p, ro_issues = is\<rparr> else Inl ValidationError)"

definition denied :: "string \<Rightarrow> string \<Rightarrow> ResolutionOutcome res" where
  "denied c m = new_ResolutionOutcome DENIED None [bundle_issue c m None]"

definition unavailable :: "string \<Rightarrow> string \<Rightarrow> string option \<Rightarrow> ResolutionOutcome res" where
  "unavailable c m i = new_ResolutionOutcome UNAVAILABLE None [bundle_issue c m i]"

section \<open>Projection of the authorized surface\<close>

definition RESOLVER_VERSION :: int where "RESOLVER_VERSION = 1"

definition missing_member_issue :: "string \<Rightarrow> string \<Rightarrow> ResolutionIssue" where
  "missing_member_issue k i =
     bundle_issue ''missing_member'' (k @ '' '' @ quoted i @ '' is not present in the descriptor'') (Some i)"

definition missing_members :: "string \<Rightarrow> string fset \<Rightarrow> string fset \<Rightarrow> ResolutionIssue list" where
  "missing_members k named known =
     map (missing_member_issue k) (filter (\<lambda>i. i |\<notin>| known) (sorted_list_of_fset named))"

definition descriptor_entity_ids :: "SemanticDescriptor \<Rightarrow> string fset" where
  "descriptor_entity_ids D = fset_of_list (map entity_id (entities D))"

definition member_issues :: "ViewMemberRestrictions \<Rightarrow> SemanticDescriptor \<Rightarrow> ResolutionIssue list" where
  "member_issues r D =
     missing_members ''entity'' (include_entities r |\<union>| exclude_entities r) (descriptor_entity_ids D) @
     missing_members ''field''
       (include_fields r |\<union>| exclude_fields r |\<union>| fmdom (field_aliases r) |\<union>| fmdom (aggregation_restrictions r))
       (all_field_ids D) @
     missing_members ''relationship'' (vr_allowed_relationships r) (all_relationship_ids D)"

definition included_entities :: "ViewMemberRestrictions \<Rightarrow> SemanticDescriptor \<Rightarrow> string fset" where
  "included_entities r D =
     (if include_entities r \<noteq> {||} then include_entities r else descriptor_entity_ids D) |-| exclude_entities r"

definition selected_fields :: "ViewMemberRestrictions \<Rightarrow> SemanticEntityDescriptor \<Rightarrow> string fset" where
  "selected_fields r e =
     (let own = fset_of_list (map fd_field_id (ent_fields e))
      in (if include_fields r \<noteq> {||} then include_fields r |\<inter>| own else own) |-| exclude_fields r)"

definition restricted_aggregations :: "string fset \<Rightarrow> string fset option \<Rightarrow> string fset" where
  "restricted_aggregations descriptor_allowed restriction =
     (case restriction of None \<Rightarrow> descriptor_allowed | Some r \<Rightarrow> ffilter (\<lambda>a. a |\<in>| r) descriptor_allowed)"

definition resolved_field :: "ViewMemberRestrictions \<Rightarrow> SemanticFieldDescriptor \<Rightarrow> ResolvedViewField" where
  "resolved_field r f =
     \<lparr>rv_field_id = fd_field_id f, rv_alias = fmlookup (field_aliases r) (fd_field_id f), rv_label = fd_label f,
      rv_description = fd_description f, rv_data_type = data_type f,
      rv_aggregations =
        restricted_aggregations (allowed_aggregations f) (fmlookup (aggregation_restrictions r) (fd_field_id f))\<rparr>"

definition resolved_calculated_field :: "CalculatedField \<Rightarrow> ResolvedCalculatedField" where
  "resolved_calculated_field c =
     \<lparr>rc_name = cf_name c, rc_label = cf_label c, rc_description = cf_description c,
      rc_output_type = cf_output_type c, rc_content_hash = content_hash c\<rparr>"

text \<open>The calculated fields of an entity that ride along: all the fields they require are selected.\<close>

definition calculated_within :: "ViewMemberRestrictions \<Rightarrow> SemanticEntityDescriptor \<Rightarrow> CalculatedField list" where
  "calculated_within r e =
     filter (\<lambda>c. fset_of_list (cf_requires c) |\<subseteq>| selected_fields r e) (entity_calculated_fields e)"

definition resolved_entity :: "ViewMemberRestrictions \<Rightarrow> SemanticEntityDescriptor \<Rightarrow> ResolvedViewEntity" where
  "resolved_entity r e =
     \<lparr>re_entity_id = entity_id e, re_label = ent_label e, re_description = ent_description e,
      re_fields = map (resolved_field r) (filter (\<lambda>f. fd_field_id f |\<in>| selected_fields r e) (ent_fields e)),
      re_relationships =
        fset_of_list (filter (\<lambda>i. i |\<in>| vr_allowed_relationships r) (map relationship_id (relationships e)))\<rparr>"

text \<open>The entities of the loop: the included ids in order, those left without a field skipped.\<close>

definition projected_entities :: "ViewMemberRestrictions \<Rightarrow> SemanticDescriptor \<Rightarrow> SemanticEntityDescriptor list" where
  "projected_entities r D =
     filter (\<lambda>e. selected_fields r e \<noteq> {||})
       (List.map_filter (descriptor_entity D) (sorted_list_of_fset (included_entities r D)))"

definition surface_field_ids :: "ViewMemberRestrictions \<Rightarrow> SemanticDescriptor \<Rightarrow> string fset" where
  "surface_field_ids r D = fold (\<lambda>e s. s |\<union>| selected_fields r e) (projected_entities r D) {||}"

definition surface_calculated :: "ViewMemberRestrictions \<Rightarrow> SemanticDescriptor \<Rightarrow> ResolvedCalculatedField list" where
  "surface_calculated r D =
     map resolved_calculated_field (concat (map (calculated_within r) (projected_entities r D)))"

definition projection_of ::
  "SemanticViewDefinition \<Rightarrow> SemanticDescriptor \<Rightarrow> ResolutionContext \<Rightarrow> SemanticModelBundle option \<Rightarrow> ResolvedViewProjection" where
  "projection_of d D c b =
     (let r = restrictions d; cs = surface_calculated r D in
      \<lparr>pj_view_id = vd_view_id d, pj_view_version = vd_version d, pj_descriptor_id = descriptor_id D,
       pj_source_id = desc_source_id D, pj_description = vd_description d,
       pj_root_entity_ids = fset_of_list (map entity_id (projected_entities r D)),
       pj_field_ids = surface_field_ids r D, pj_calculated_field_ids = fset_of_list (map rc_name cs),
       pj_calculated_fields = (if cs = [] then None else Some (sort_key rc_name cs)),
       pj_entities = map (resolved_entity r) (projected_entities r D),
       pj_allowed_operations = (if vr_allowed_operations r \<noteq> {||} then vr_allowed_operations r else {|''select''|}),
       pj_allowed_relationships = vr_allowed_relationships r, pj_result_shapes = vr_result_shapes r,
       pj_catalog_fingerprint = desc_catalog_fingerprint D, pj_bundle_id = map_option bundle_id b,
       pj_bundle_version = map_option model_version b, pj_bundle_fingerprint = map_option bundle_fingerprint b,
       pj_policy_fingerprint = cx_policy_fingerprint c, pj_tenant_scope_fingerprint = cx_tenant_scope_fingerprint c,
       pj_principal_authorization_fingerprint = cx_principal_authorization_fingerprint c,
       pj_purpose = cx_purpose c, pj_model_version = cx_model_version c,
       pj_adapter_capability_fingerprint = Some (fingerprint_of (vset (adapter_capabilities c))),
       pj_feature_flag_fingerprint = Some (fingerprint_of (vset (feature_flags c))),
       pj_provenance =
         \<lparr>vp_descriptor_fingerprint = descriptor_fingerprint D, vp_policy_decision_fingerprint = cx_policy_fingerprint c,
          vp_resolver_version = RESOLVER_VERSION, vp_bundle_id = map_option bundle_id b,
          vp_bundle_version = map_option model_version b, vp_bundle_fingerprint = map_option bundle_fingerprint b\<rparr>\<rparr>)"

definition bounds_issue :: "string \<Rightarrow> ResolutionIssue" where
  "bounds_issue m = bundle_issue ''view_bounds_exceeded'' m None"

definition project ::
  "SemanticViewDefinition \<Rightarrow> SemanticDescriptor \<Rightarrow> ResolutionContext \<Rightarrow> SemanticModelBundle option \<Rightarrow>
     (ResolvedViewProjection option \<times> ResolutionIssue list) res" where
  "project d D c b =
     (let r = restrictions d; issues = member_issues r D in
      if \<not> list_all bundle_issue_ok issues then Inl ValidationError
      else if issues \<noteq> [] then Inr (None, issues)
      else if included_entities r D = {||} then Inr (None, [bounds_issue ''no entities remain after restriction''])
      else if \<not> list_all resolved_entity_ok (map (resolved_entity r) (projected_entities r D)) \<or>
              \<not> list_all resolved_calculated_ok (surface_calculated r D) then Inl ValidationError
      else if surface_field_ids r D = {||} then Inr (None, [bounds_issue ''no fields remain after restriction''])
      else bind_res (new_ResolvedViewProjection (projection_of d D c b)) (\<lambda>p. Inr (Some p, [])))"

section \<open>The registry\<close>

record ViewRegistry =
  reg_descriptors :: "SemanticDescriptor list"
  reg_views :: "SemanticViewDefinition list"
  reg_bundle :: "SemanticModelBundle option"

definition view_registrable :: "string list \<Rightarrow> SemanticViewDefinition \<Rightarrow> unit res" where
  "view_registrable known d =
     (if vd_descriptor_id d \<notin> set known then
        Inl (ValueError (''view '' @ quoted (vd_view_id d) @ '' references unknown descriptor '' @ quoted (vd_descriptor_id d)))
      else if vr_allowed_operations (restrictions d) \<noteq> {||} \<and> ''select'' |\<notin>| vr_allowed_operations (restrictions d) then
        Inl (ValueError (''view '' @ quoted (vd_view_id d) @ '' allowed_operations must include '' @ quoted ''select''))
      else Inr ())"

definition new_ViewRegistry ::
  "SemanticDescriptor list \<Rightarrow> SemanticViewDefinition list \<Rightarrow> SemanticModelBundle option \<Rightarrow> ViewRegistry res" where
  "new_ViewRegistry ds vs b =
     (let known = map descriptor_id ds in
      if \<not> distinct known then Inl (ValueError ''descriptor ids must be unique within a registry'')
      else if \<not> distinct (map vd_view_id vs) then Inl (ValueError ''view ids must be unique within a registry'')
      else bind_res (each_res (view_registrable known) vs) (\<lambda>_.
        case b of
          Some bu \<Rightarrow>
            if descriptor_id (descriptor bu) \<notin> set known then
              Inl (ValueError (''bundle descriptor '' @ quoted (descriptor_id (descriptor bu)) @
                     '' must be registered in the registry''))
            else Inr \<lparr>reg_descriptors = ds, reg_views = vs, reg_bundle = b\<rparr>
        | None \<Rightarrow> Inr \<lparr>reg_descriptors = ds, reg_views = vs, reg_bundle = b\<rparr>))"

definition reg_view :: "ViewRegistry \<Rightarrow> string \<Rightarrow> SemanticViewDefinition option" where
  "reg_view reg i = List.find (\<lambda>d. vd_view_id d = i) (reg_views reg)"

definition stored_descriptor :: "ViewRegistry \<Rightarrow> string \<Rightarrow> SemanticDescriptor option" where
  "stored_descriptor reg i = List.find (\<lambda>D. descriptor_id D = i) (reg_descriptors reg)"

definition bundle_for :: "ViewRegistry \<Rightarrow> string \<Rightarrow> SemanticModelBundle option" where
  "bundle_for reg i =
     (case reg_bundle reg of
        None \<Rightarrow> None
      | Some b \<Rightarrow> if descriptor_id (descriptor b) = i then Some b else None)"

definition registry_descriptor :: "ViewRegistry \<Rightarrow> string \<Rightarrow> SemanticDescriptor option" where
  "registry_descriptor reg i =
     (case bundle_for reg i of Some b \<Rightarrow> Some (descriptor b) | None \<Rightarrow> stored_descriptor reg i)"

definition view_ids :: "ViewRegistry \<Rightarrow> string fset" where
  "view_ids reg = fset_of_list (map vd_view_id (reg_views reg))"

section \<open>Resolution\<close>

text \<open>Every gate is \<open>None\<close> when the context passes it and the outcome to return otherwise; the first closed gate wins.\<close>

type_synonym gate = "ResolutionOutcome res option"

fun first_closed :: "gate list \<Rightarrow> gate" where
  "first_closed [] = None"
| "first_closed (None # gs) = first_closed gs"
| "first_closed (Some out # gs) = Some out"

definition bundle_gate :: "SemanticModelBundle option \<Rightarrow> ResolutionContext \<Rightarrow> gate" where
  "bundle_gate b c =
     (case b of
        None \<Rightarrow> None
      | Some bu \<Rightarrow>
          (case cx_bundle_fingerprint c of
             None \<Rightarrow> Some (unavailable ''bundle_scope_missing'' ''bundle-backed resolution requires an active bundle fingerprint'' None)
           | Some f \<Rightarrow>
               if f \<noteq> bundle_fingerprint bu then
                 Some (unavailable ''bundle_stale'' ''the trusted bundle fingerprint does not match the active bundle'' None)
               else if cx_snapshot_fingerprint c \<noteq> None \<and>
                       desc_catalog_fingerprint (descriptor bu) \<noteq> cx_snapshot_fingerprint c then
                 Some (unavailable ''snapshot_stale''
                   ''the trusted discovery snapshot does not match the active bundle source snapshot'' None)
               else None))"

definition tenant_gate :: "SemanticViewDefinition \<Rightarrow> ResolutionContext \<Rightarrow> gate" where
  "tenant_gate d c =
     (if cx_tenant_scope_fingerprint c = None then
        Some (denied ''tenant_scope_missing'' ''resolution requires a trusted tenant scope'')
      else if \<not> tenant_active c then
        Some (denied ''tenant_scope_inactive'' ''the trusted tenant scope is not active'')
      else if bound_tenant_scope_fingerprint d \<noteq> None \<and>
              cx_tenant_scope_fingerprint c \<noteq> bound_tenant_scope_fingerprint d then
        Some (denied ''tenant_scope_mismatch'' ''view is bound to a different tenant scope'')
      else None)"

definition principal_gate :: "SemanticViewDefinition \<Rightarrow> ResolutionContext \<Rightarrow> gate" where
  "principal_gate d c =
     (if bound_principal_authorization_fingerprints d = {||} then None
      else case cx_principal_authorization_fingerprint c of
        None \<Rightarrow> Some (denied ''principal_denied'' ''view requires a principal authorization fingerprint'')
      | Some f \<Rightarrow>
          if f |\<notin>| bound_principal_authorization_fingerprints d then
            Some (denied ''principal_denied'' ''principal is not authorized for this view'')
          else None)"

definition purpose_gate :: "SemanticViewDefinition \<Rightarrow> ResolutionContext \<Rightarrow> gate" where
  "purpose_gate d c =
     (if allowed_purposes d \<noteq> {||} \<and>
         (case cx_purpose c of None \<Rightarrow> True | Some p \<Rightarrow> p |\<notin>| allowed_purposes d) then
        Some (denied ''purpose_denied'' ''the requested purpose is not allowed by this view'')
      else None)"

definition policy_gate :: "SemanticViewDefinition \<Rightarrow> ResolutionContext \<Rightarrow> gate" where
  "policy_gate d c =
     (if bound_policy_fingerprint d \<noteq> None \<and> cx_policy_fingerprint c \<noteq> bound_policy_fingerprint d then
        Some (denied ''policy_mismatch'' ''view is bound to a different policy decision'')
      else None)"

definition version_gate :: "SemanticViewDefinition \<Rightarrow> SemanticDescriptor \<Rightarrow> ResolutionContext \<Rightarrow> gate" where
  "version_gate d D c =
     (if vd_model_version d \<noteq> None \<and> cx_model_version c \<noteq> vd_model_version d then
        Some (unavailable ''model_stale'' ''view requires a different model version'' None)
      else if desc_catalog_fingerprint D \<noteq> None \<and> cx_catalog_fingerprint c \<noteq> desc_catalog_fingerprint D then
        Some (unavailable ''catalog_stale'' ''view descriptor is bound to a different catalog'' None)
      else None)"

definition capability_gate :: "SemanticViewDefinition \<Rightarrow> ResolutionContext \<Rightarrow> gate" where
  "capability_gate d c =
     (case sorted_list_of_fset (vd_required_capabilities d |-| adapter_capabilities c) of
        m # _ \<Rightarrow>
          Some (unavailable ''capability_unsupported'' ''adapter capabilities do not satisfy the view requirements'' (Some m))
      | [] \<Rightarrow>
          (case sorted_list_of_fset (required_feature_flags d |-| feature_flags c) of
             m # _ \<Rightarrow> Some (unavailable ''feature_flag_disabled'' ''required feature flags are not enabled'' (Some m))
           | [] \<Rightarrow> None))"

definition gates :: "SemanticViewDefinition \<Rightarrow> SemanticDescriptor \<Rightarrow> SemanticModelBundle option \<Rightarrow> ResolutionContext \<Rightarrow> gate" where
  "gates d D b c =
     first_closed [bundle_gate b c, tenant_gate d c, principal_gate d c, purpose_gate d c, policy_gate d c,
                   version_gate d D c, capability_gate d c]"

definition resolve :: "ViewRegistry \<Rightarrow> string \<Rightarrow> ResolutionContext \<Rightarrow> ResolutionOutcome res" where
  "resolve reg i c =
     (case reg_view reg i of
        None \<Rightarrow> unavailable ''view_not_found'' (''no view '' @ quoted i @ '' is registered'') None
      | Some d \<Rightarrow>
          (case stored_descriptor reg (vd_descriptor_id d) of
             None \<Rightarrow> unavailable ''descriptor_missing'' (''view '' @ quoted i @ '' references an unregistered descriptor'') None
           | Some D0 \<Rightarrow>
               (let b = bundle_for reg (vd_descriptor_id d); D = (case b of None \<Rightarrow> D0 | Some bu \<Rightarrow> descriptor bu) in
                case gates d D b c of
                  Some out \<Rightarrow> out
                | None \<Rightarrow>
                    bind_res (project d D c b) (\<lambda>(p, issues).
                      if issues \<noteq> [] then new_ResolutionOutcome UNAVAILABLE None issues
                      else new_ResolutionOutcome RESOLVED p []))))"

section \<open>What resolution guarantees\<close>

lemma first_closed_None: "first_closed gs = None \<longleftrightarrow> (\<forall>g \<in> set gs. g = None)"
  by (induction gs rule: first_closed.induct) auto

lemma new_ResolutionOutcome_Inr:
  "new_ResolutionOutcome k p is = Inr r \<longleftrightarrow>
     r = \<lparr>ro_kind = k, ro_projection = p, ro_issues = is\<rparr> \<and> length is \<le> 64 \<and> list_all bundle_issue_ok is \<and>
     (if k = RESOLVED then p \<noteq> None \<and> is = [] else p = None \<and> is \<noteq> [])"
  by (auto simp: new_ResolutionOutcome_def)

text \<open>The agreement of definition and context that the gates decide.\<close>

definition bundle_current :: "SemanticModelBundle option \<Rightarrow> ResolutionContext \<Rightarrow> bool" where
  "bundle_current b c \<longleftrightarrow>
     (\<forall>bu. b = Some bu \<longrightarrow> cx_bundle_fingerprint c = Some (bundle_fingerprint bu) \<and>
        (cx_snapshot_fingerprint c = None \<or> cx_snapshot_fingerprint c = desc_catalog_fingerprint (descriptor bu)))"

definition admits ::
  "SemanticViewDefinition \<Rightarrow> SemanticDescriptor \<Rightarrow> SemanticModelBundle option \<Rightarrow> ResolutionContext \<Rightarrow> bool" where
  "admits d D b c \<longleftrightarrow>
     bundle_current b c \<and> cx_tenant_scope_fingerprint c \<noteq> None \<and> tenant_active c \<and>
     (bound_tenant_scope_fingerprint d = None \<or> cx_tenant_scope_fingerprint c = bound_tenant_scope_fingerprint d) \<and>
     (bound_principal_authorization_fingerprints d = {||} \<or>
      (\<exists>f. cx_principal_authorization_fingerprint c = Some f \<and> f |\<in>| bound_principal_authorization_fingerprints d)) \<and>
     (allowed_purposes d = {||} \<or> (\<exists>p. cx_purpose c = Some p \<and> p |\<in>| allowed_purposes d)) \<and>
     (bound_policy_fingerprint d = None \<or> cx_policy_fingerprint c = bound_policy_fingerprint d) \<and>
     (vd_model_version d = None \<or> cx_model_version c = vd_model_version d) \<and>
     (desc_catalog_fingerprint D = None \<or> cx_catalog_fingerprint c = desc_catalog_fingerprint D) \<and>
     vd_required_capabilities d |\<subseteq>| adapter_capabilities c \<and> required_feature_flags d |\<subseteq>| feature_flags c"

lemma sorted_list_minus_Nil: "sorted_list_of_fset (A |-| B) = [] \<longleftrightarrow> A |\<subseteq>| (B :: string fset)"
  by (auto simp: sorted_list_of_fset.rep_eq less_eq_fset.rep_eq minus_fset.rep_eq)

lemma bundle_gate_None: "bundle_gate b c = None \<longleftrightarrow> bundle_current b c"
  by (auto simp: bundle_gate_def bundle_current_def split: option.splits)

lemma capability_gate_None:
  "capability_gate d c = None \<longleftrightarrow> vd_required_capabilities d |\<subseteq>| adapter_capabilities c \<and> required_feature_flags d |\<subseteq>| feature_flags c"
  unfolding capability_gate_def sorted_list_minus_Nil [symmetric] by (auto split: list.splits)

lemma gate_None:
  "tenant_gate d c = None \<longleftrightarrow> cx_tenant_scope_fingerprint c \<noteq> None \<and> tenant_active c \<and>
     (bound_tenant_scope_fingerprint d = None \<or> cx_tenant_scope_fingerprint c = bound_tenant_scope_fingerprint d)"
  "principal_gate d c = None \<longleftrightarrow> bound_principal_authorization_fingerprints d = {||} \<or>
     (\<exists>f. cx_principal_authorization_fingerprint c = Some f \<and> f |\<in>| bound_principal_authorization_fingerprints d)"
  "purpose_gate d c = None \<longleftrightarrow> allowed_purposes d = {||} \<or> (\<exists>p. cx_purpose c = Some p \<and> p |\<in>| allowed_purposes d)"
  "policy_gate d c = None \<longleftrightarrow> bound_policy_fingerprint d = None \<or> cx_policy_fingerprint c = bound_policy_fingerprint d"
  "version_gate d D c = None \<longleftrightarrow> (vd_model_version d = None \<or> cx_model_version c = vd_model_version d) \<and>
     (desc_catalog_fingerprint D = None \<or> cx_catalog_fingerprint c = desc_catalog_fingerprint D)"
  by (auto simp: tenant_gate_def principal_gate_def purpose_gate_def policy_gate_def version_gate_def split: option.splits)

lemma gates_None: "gates d D b c = None \<longleftrightarrow> admits d D b c"
  unfolding gates_def admits_def first_closed_None
  by (simp add: bundle_gate_None capability_gate_None gate_None conj_assoc)

text \<open>A closed gate returns a denial or an unavailability.\<close>

inductive refusal :: "ResolutionOutcome res \<Rightarrow> bool" where
  "refusal (denied x y)"
| "refusal (unavailable x y z)"

lemma gate_refuses:
  "bundle_gate b c = Some out \<Longrightarrow> refusal out" "tenant_gate d c = Some out \<Longrightarrow> refusal out"
  "principal_gate d c = Some out \<Longrightarrow> refusal out" "purpose_gate d c = Some out \<Longrightarrow> refusal out"
  "policy_gate d c = Some out \<Longrightarrow> refusal out" "version_gate d D c = Some out \<Longrightarrow> refusal out"
  "capability_gate d c = Some out \<Longrightarrow> refusal out"
  by (auto simp: bundle_gate_def tenant_gate_def principal_gate_def purpose_gate_def policy_gate_def version_gate_def
      capability_gate_def intro: refusal.intros split: option.splits list.splits if_splits)

lemma first_closed_Some: "first_closed gs = Some out \<Longrightarrow> Some out \<in> set gs"
  by (induction gs rule: first_closed.induct) auto

lemma gates_refuse: "gates d D b c = Some out \<Longrightarrow> refusal out"
  using first_closed_Some [of _ out] gate_refuses unfolding gates_def by (metis empty_iff list.set set_ConsD)

lemma new_issue_outcome:
  "new_ResolutionOutcome k None [x] = Inr r \<Longrightarrow> k \<noteq> RESOLVED \<Longrightarrow>
   ro_kind r \<noteq> RESOLVED \<and> ro_projection r = None \<and> ro_issues r \<noteq> [] \<and> length (ro_issues r) \<le> 64"
  by (auto simp: new_ResolutionOutcome_Inr)

lemma refusal_outcome:
  assumes "refusal out" "out = Inr r"
  shows "ro_kind r \<noteq> RESOLVED \<and> ro_projection r = None \<and> ro_issues r \<noteq> [] \<and> length (ro_issues r) \<le> 64"
  using assms by (induction rule: refusal.induct) (auto simp: denied_def unavailable_def dest: new_issue_outcome)

lemma project_Inr:
  "project d D c b = Inr (Some p, is) \<Longrightarrow>
     is = [] \<and> p = projection_of d D c b \<and> projection_members_ok p \<and> projection_consistent p \<and>
     member_issues (restrictions d) D = []"
  by (auto simp: project_def Let_def bind_res_Inr_iff new_ResolvedViewProjection_def split: if_splits)

lemma resolved_iff:
  assumes "resolve reg i c = Inr r"
  shows "ro_kind r = RESOLVED \<longleftrightarrow>
    (\<exists>d D. reg_view reg i = Some d \<and> registry_descriptor reg (vd_descriptor_id d) = Some D \<and>
       stored_descriptor reg (vd_descriptor_id d) \<noteq> None \<and> admits d D (bundle_for reg (vd_descriptor_id d)) c \<and>
       (\<exists>p. project d D c (bundle_for reg (vd_descriptor_id d)) = Inr (Some p, []) \<and> ro_projection r = Some p))"
    (is "_ \<longleftrightarrow> ?R")
proof (cases "reg_view reg i")
  case None
  with assms show ?thesis by (auto simp: resolve_def unavailable_def new_ResolutionOutcome_Inr)
next
  case d: (Some d)
  show ?thesis
  proof (cases "stored_descriptor reg (vd_descriptor_id d)")
    case None
    with d assms show ?thesis by (auto simp: resolve_def unavailable_def new_ResolutionOutcome_Inr)
  next
    case D0: (Some D0)
    let ?b = "bundle_for reg (vd_descriptor_id d)"
    define D where "D = (case ?b of None \<Rightarrow> D0 | Some bu \<Rightarrow> descriptor bu)"
    have D: "registry_descriptor reg (vd_descriptor_id d) = Some D"
      using D0 by (simp add: registry_descriptor_def D_def split: option.splits)
    show ?thesis
    proof (cases "gates d D ?b c")
      case (Some out)
      then have "\<not> admits d D ?b c" by (simp flip: gates_None)
      moreover have "out = Inr r" using assms d D0 Some by (simp add: resolve_def D_def Let_def)
      ultimately show ?thesis using refusal_outcome [OF gates_refuse [OF Some]] d D by auto
    next
      case None
      then have adm: "admits d D ?b c" by (simp add: gates_None)
      have run: "bind_res (project d D c ?b) (\<lambda>(p, issues).
          if issues \<noteq> [] then new_ResolutionOutcome UNAVAILABLE None issues
          else new_ResolutionOutcome RESOLVED p []) = Inr r"
        using assms d D0 None by (simp add: resolve_def D_def Let_def)
      then show ?thesis using d D D0 adm
        by (auto simp: bind_res_Inr_iff new_ResolutionOutcome_Inr split: if_splits prod.splits dest: project_Inr)
    qed
  qed
qed

lemma outcome_shape:
  assumes "resolve reg i c = Inr r"
  shows "if ro_kind r = RESOLVED then ro_issues r = []
         else ro_projection r = None \<and> ro_issues r \<noteq> [] \<and> length (ro_issues r) \<le> 64"
proof -
  have "refusal (Inr r) \<or> (\<exists>k p is. new_ResolutionOutcome k p is = Inr r)"
    using assms gates_refuse refusal.intros(2)
    unfolding resolve_def Let_def by (auto simp: bind_res_Inr_iff split: option.splits if_splits prod.splits) metis+
  then show ?thesis
    using refusal_outcome [of "Inr r" r] by (auto simp: new_ResolutionOutcome_Inr split: if_splits)
qed

lemma resolved_projection:
  assumes "resolve reg i c = Inr r" "ro_projection r = Some p"
  obtains d D where "reg_view reg i = Some d" "registry_descriptor reg (vd_descriptor_id d) = Some D"
    "admits d D (bundle_for reg (vd_descriptor_id d)) c" "member_issues (restrictions d) D = []"
    "p = projection_of d D c (bundle_for reg (vd_descriptor_id d))" "projection_consistent p"
proof -
  have "ro_kind r = RESOLVED" using outcome_shape [OF assms(1)] assms(2) by (auto split: if_splits)
  with resolved_iff [OF assms(1)] assms(2) that show thesis by (auto dest!: project_Inr)
qed

text \<open>C33.  Resolution fails closed: a view resolves only when it is registered, every trusted input (tenant
  scope, principal, purpose, policy, model, catalog, bundle, snapshot, capabilities, feature flags) agrees with the
  definition, and no restriction names an unknown member; then the projection is the one of that definition,
  descriptor and context.  Any other outcome carries issues, at most 64, and no projection.\<close>

theorem view_resolution_fails_closed:
  assumes "resolve reg i c = Inr r"
  shows "(ro_kind r = RESOLVED \<longrightarrow>
      (\<exists>d D. reg_view reg i = Some d \<and> registry_descriptor reg (vd_descriptor_id d) = Some D \<and>
         admits d D (bundle_for reg (vd_descriptor_id d)) c \<and> member_issues (restrictions d) D = [] \<and>
         ro_projection r = Some (projection_of d D c (bundle_for reg (vd_descriptor_id d))) \<and> ro_issues r = [])) \<and>
    (ro_kind r \<noteq> RESOLVED \<longrightarrow> ro_projection r = None \<and> ro_issues r \<noteq> [] \<and> length (ro_issues r) \<le> 64)"
  using outcome_shape [OF assms] resolved_iff [OF assms] by (auto dest: project_Inr split: if_splits)

section \<open>The projection narrows the descriptor\<close>

text \<open>The fields of a descriptor a definition lets through.\<close>

definition visible :: "ViewMemberRestrictions \<Rightarrow> SemanticEntityDescriptor \<Rightarrow> SemanticFieldDescriptor \<Rightarrow> bool" where
  "visible r e f \<longleftrightarrow>
     f \<in> set (ent_fields e) \<and> (include_entities r = {||} \<or> entity_id e |\<in>| include_entities r) \<and>
     entity_id e |\<notin>| exclude_entities r \<and> (include_fields r = {||} \<or> fd_field_id f |\<in>| include_fields r) \<and>
     fd_field_id f |\<notin>| exclude_fields r"

lemma selected_fields_iff:
  "x |\<in>| selected_fields r e \<longleftrightarrow>
     (\<exists>f \<in> set (ent_fields e). fd_field_id f = x) \<and> (include_fields r = {||} \<or> x |\<in>| include_fields r) \<and> x |\<notin>| exclude_fields r"
  by (auto simp: selected_fields_def Let_def fset_of_list_elem)

lemma projected_entitiesD:
  assumes "e \<in> set (projected_entities r D)"
  shows "e \<in> set (entities D)" "include_entities r = {||} \<or> entity_id e |\<in>| include_entities r"
    "entity_id e |\<notin>| exclude_entities r"
proof -
  from assms obtain i where i: "i |\<in>| included_entities r D" "descriptor_entity D i = Some e"
    by (auto simp: projected_entities_def set_map_filter sorted_list_of_fset.rep_eq)
  then have e: "e \<in> set (entities D)" "entity_id e = i" by (auto simp: descriptor_entity_def find_Some_iff)
  show "e \<in> set (entities D)" by (rule e)
  show "include_entities r = {||} \<or> entity_id e |\<in>| include_entities r" "entity_id e |\<notin>| exclude_entities r"
    using i(1) e(2) by (auto simp: included_entities_def split: if_splits)
qed

lemma surface_field_iff:
  "x |\<in>| surface_field_ids r D \<longleftrightarrow> (\<exists>e \<in> set (projected_entities r D). x |\<in>| selected_fields r e)"
  by (simp add: surface_field_ids_def fold_union_map)

lemma surface_field_visible:
  assumes "x |\<in>| surface_field_ids r D"
  shows "\<exists>e \<in> set (entities D). \<exists>f. visible r e f \<and> fd_field_id f = x"
proof -
  from assms obtain e where e: "e \<in> set (projected_entities r D)" "x |\<in>| selected_fields r e"
    unfolding surface_field_iff by blast
  then obtain f where "f \<in> set (ent_fields e)" "fd_field_id f = x" by (auto simp: selected_fields_iff)
  with e projected_entitiesD [OF e(1)] show ?thesis unfolding visible_def selected_fields_iff by blast
qed

lemma restricted_aggregations_sub:
  "restricted_aggregations A s |\<subseteq>| A" "s = Some t \<Longrightarrow> restricted_aggregations A s |\<subseteq>| t"
  by (auto simp: restricted_aggregations_def split: option.splits)

lemma resolved_entity_fields:
  assumes "e \<in> set (projected_entities r D)" "f' \<in> set (re_fields (resolved_entity r e))"
  shows "\<exists>f. visible r e f \<and> f' = resolved_field r f"
  using assms projected_entitiesD [OF assms(1)]
  by (auto simp: resolved_entity_def visible_def selected_fields_iff)

lemma surface_calculated_within:
  assumes "rc \<in> set (surface_calculated r D)"
  shows "\<exists>e \<in> set (entities D). \<exists>c \<in> set (entity_calculated_fields e). rc = resolved_calculated_field c \<and>
           fset_of_list (cf_requires c) |\<subseteq>| surface_field_ids r D"
proof -
  from assms obtain e c where e: "e \<in> set (projected_entities r D)" and c: "c \<in> set (calculated_within r e)"
    and rc: "rc = resolved_calculated_field c"
    by (auto simp: surface_calculated_def)
  then have "fset_of_list (cf_requires c) |\<subseteq>| selected_fields r e" "c \<in> set (entity_calculated_fields e)"
    by (simp_all add: calculated_within_def)
  moreover have "selected_fields r e |\<subseteq>| surface_field_ids r D"
    using e by (auto simp: less_eq_fset.rep_eq surface_field_iff)
  ultimately show ?thesis using rc projected_entitiesD(1) [OF e] order_trans by blast
qed

text \<open>C32.  A resolved projection only narrows the descriptor: every projected field is a field of an included,
  not excluded entity, itself included and not excluded, with the aggregations the descriptor allows less those a
  restriction removes; every calculated field is declared by the descriptor and only reads projected fields; every
  permitted relationship is declared and listed by the definition; and the only operation that needs no listing is
  \<open>select\<close>.\<close>

theorem projection_narrows_descriptor:
  assumes "resolve reg i c = Inr r" and "ro_projection r = Some p"
  shows "\<exists>d D. reg_view reg i = Some d \<and> registry_descriptor reg (vd_descriptor_id d) = Some D \<and>
    (\<forall>x. x |\<in>| pj_field_ids p \<longrightarrow> (\<exists>e \<in> set (entities D). \<exists>f. visible (restrictions d) e f \<and> fd_field_id f = x)) \<and>
    (\<forall>e' \<in> set (pj_entities p). \<forall>f' \<in> set (re_fields e').
       rv_field_id f' |\<in>| pj_field_ids p \<and>
       (\<exists>e \<in> set (entities D). \<exists>f. visible (restrictions d) e f \<and> rv_field_id f' = fd_field_id f \<and> entity_id e = re_entity_id e' \<and>
          rv_aggregations f' |\<subseteq>| allowed_aggregations f \<and>
          (\<forall>s. fmlookup (aggregation_restrictions (restrictions d)) (fd_field_id f) = Some s \<longrightarrow> rv_aggregations f' |\<subseteq>| s))) \<and>
    (\<forall>n. n |\<in>| pj_calculated_field_ids p \<longrightarrow>
       (\<exists>e \<in> set (entities D). \<exists>cf \<in> set (entity_calculated_fields e). cf_name cf = n \<and>
          fset_of_list (cf_requires cf) |\<subseteq>| pj_field_ids p)) \<and>
    pj_allowed_relationships p |\<subseteq>| vr_allowed_relationships (restrictions d) \<and>
    pj_allowed_relationships p |\<subseteq>| all_relationship_ids D \<and>
    (\<forall>op. op |\<in>| pj_allowed_operations p \<longrightarrow> op |\<in>| vr_allowed_operations (restrictions d) \<or> op = ''select'')"
proof -
  obtain d D where dD: "reg_view reg i = Some d" "registry_descriptor reg (vd_descriptor_id d) = Some D"
    and none: "member_issues (restrictions d) D = []"
    and p: "p = projection_of d D c (bundle_for reg (vd_descriptor_id d))" and cons: "projection_consistent p"
    using resolved_projection [OF assms] by metis
  let ?r = "restrictions d"
  have ids: "pj_field_ids p = surface_field_ids ?r D"
    and ents: "pj_entities p = map (resolved_entity ?r) (projected_entities ?r D)"
    and calc: "pj_calculated_field_ids p = fset_of_list (map rc_name (surface_calculated ?r D))"
    and rels: "pj_allowed_relationships p = vr_allowed_relationships ?r"
    and ops: "op |\<in>| pj_allowed_operations p \<Longrightarrow> op |\<in>| vr_allowed_operations ?r \<or> op = ''select''" for op
    by (simp_all add: p projection_of_def Let_def split: if_splits)
  have fields: "rv_field_id f' |\<in>| pj_field_ids p \<and>
       (\<exists>e \<in> set (entities D). \<exists>f. visible ?r e f \<and> rv_field_id f' = fd_field_id f \<and> entity_id e = re_entity_id e' \<and>
          rv_aggregations f' |\<subseteq>| allowed_aggregations f \<and>
          (\<forall>s. fmlookup (aggregation_restrictions ?r) (fd_field_id f) = Some s \<longrightarrow> rv_aggregations f' |\<subseteq>| s))"
    if "e' \<in> set (pj_entities p)" "f' \<in> set (re_fields e')" for e' f'
  proof -
    from that obtain e where e: "e \<in> set (projected_entities ?r D)" "e' = resolved_entity ?r e" unfolding ents by auto
    with that obtain f where f: "visible ?r e f" "f' = resolved_field ?r f" using resolved_entity_fields by blast
    have "rv_field_id f' |\<in>| pj_field_ids p"
      using cons that by (auto simp: projection_consistent_def projected_field_ids_def list_all_iff)
    moreover have "rv_field_id f' = fd_field_id f" "entity_id e = re_entity_id e'"
      using e f by (simp_all add: resolved_field_def resolved_entity_def)
    moreover have "rv_aggregations f' |\<subseteq>| allowed_aggregations f"
      "\<forall>s. fmlookup (aggregation_restrictions ?r) (fd_field_id f) = Some s \<longrightarrow> rv_aggregations f' |\<subseteq>| s"
      using f(2) restricted_aggregations_sub by (simp_all add: resolved_field_def)
    ultimately show ?thesis using f(1) projected_entitiesD(1) [OF e(1)] by blast
  qed
  have "\<exists>e \<in> set (entities D). \<exists>cf \<in> set (entity_calculated_fields e). cf_name cf = n \<and>
          fset_of_list (cf_requires cf) |\<subseteq>| pj_field_ids p" if n: "n |\<in>| pj_calculated_field_ids p" for n
  proof -
    from n obtain rc where "rc \<in> set (surface_calculated ?r D)" "n = rc_name rc" unfolding calc by (auto simp: fset_of_list_elem)
    moreover have "rc_name (resolved_calculated_field cf) = cf_name cf" for cf by (simp add: resolved_calculated_field_def)
    ultimately show ?thesis using surface_calculated_within [of rc ?r D] unfolding ids by metis
  qed
  moreover have "pj_allowed_relationships p |\<subseteq>| all_relationship_ids D"
    using none by (auto simp: rels member_issues_def missing_members_def filter_empty_conv sorted_list_of_fset.rep_eq)
  ultimately show ?thesis using dD fields surface_field_visible [of _ ?r D] rels ops ids by blast
qed

section \<open>From projections to authorized views\<close>

text \<open>What \<open>AuthorizedSemanticView.from_projection\<close> reads of a projection.\<close>

definition surface :: "ResolvedViewProjection \<Rightarrow> ResolvedProjection" where
  "surface p =
     \<lparr>rp_source_id = pj_source_id p, rp_root_entity_ids = pj_root_entity_ids p, rp_field_ids = pj_field_ids p,
      rp_calculated_field_ids = pj_calculated_field_ids p,
      rp_entities = map (\<lambda>e. map (\<lambda>f.
        \<lparr>rf_field_id = rv_field_id f, rf_alias = rv_alias f, rf_label = rv_label f, rf_description = Some (rv_description f),
         rf_data_type = rv_data_type f, rf_allowed_aggregations = rv_aggregations f\<rparr>) (re_fields e)) (pj_entities p),
      rp_catalog_fingerprint = pj_catalog_fingerprint p, rp_view_id = pj_view_id p, rp_view_version = pj_view_version p,
      rp_fingerprint = projection_fingerprint p, rp_allowed_operations = pj_allowed_operations p,
      rp_allowed_relationships = pj_allowed_relationships p, rp_result_shape_constraints = pj_result_shapes p,
      rp_purpose = pj_purpose p\<rparr>"

lemma aggregation_map_lookup:
  "fmlookup (fold (\<lambda>f m. fmupd (rf_field_id f) (rf_allowed_aggregations f) m) fs m0) x =
     (case List.find (\<lambda>f. rf_field_id f = x) (rev fs) of
        Some f \<Rightarrow> Some (rf_allowed_aggregations f)
      | None \<Rightarrow> fmlookup m0 x)"
  by (induction fs rule: rev_induct) auto

lemma surface_aggregations:
  assumes "from_projection (surface p) = Inr v" "allowed_aggregations_for v x = Some ks"
  shows "\<exists>e \<in> set (pj_entities p). \<exists>f \<in> set (re_fields e). rv_field_id f = x \<and> ks = rv_aggregations f"
proof -
  let ?fs = "concat (rp_entities (surface p))"
  have "fmlookup (aggregation_map ?fs) x = Some ks"
    using assms by (auto simp: from_projection_def Let_def allowed_aggregations_for_def split: if_splits)
  then obtain f where "f \<in> set ?fs" "rf_field_id f = x" "ks = rf_allowed_aggregations f"
    by (auto simp: aggregation_map_def aggregation_map_lookup simp del: set_concat split: option.splits dest!: find_SomeD)
  then show ?thesis by (simp add: surface_def) fastforce
qed

lemma surface_restricted:
  assumes "from_projection (surface p) = Inr v" "e \<in> set (pj_entities p)" "f \<in> set (re_fields e)"
  shows "allowed_aggregations_for v (rv_field_id f) \<noteq> None"
proof -
  let ?fs = "concat (rp_entities (surface p))"
  have "\<exists>g \<in> set ?fs. rf_field_id g = rv_field_id f" using assms(2,3) by (force simp: surface_def)
  then have "fmlookup (aggregation_map ?fs) (rv_field_id f) \<noteq> None"
    by (auto simp: aggregation_map_def aggregation_map_lookup find_None_iff split: option.splits)
  then have "aggregation_map ?fs \<noteq> fmempty" by auto
  with assms(1) \<open>fmlookup (aggregation_map ?fs) (rv_field_id f) \<noteq> None\<close> show ?thesis
    by (auto simp: from_projection_def Let_def allowed_aggregations_for_def split: if_splits)
qed

lemma projected_field_in_entity:
  assumes "x |\<in>| pj_field_ids (projection_of d D c b)"
  shows "\<exists>e \<in> set (pj_entities (projection_of d D c b)). \<exists>f \<in> set (re_fields e). rv_field_id f = x"
proof -
  from assms have "x |\<in>| surface_field_ids (restrictions d) D" by (simp add: projection_of_def Let_def)
  then obtain e where e: "e \<in> set (projected_entities (restrictions d) D)" "x |\<in>| selected_fields (restrictions d) e"
    unfolding surface_field_iff by blast
  then obtain f where "f \<in> set (ent_fields e)" "fd_field_id f = x" by (auto simp: selected_fields_iff)
  with e have "resolved_field (restrictions d) f \<in> set (re_fields (resolved_entity (restrictions d) e))"
    by (auto simp: resolved_entity_def)
  moreover have "rv_field_id (resolved_field (restrictions d) f) = x" using \<open>fd_field_id f = x\<close> by (simp add: resolved_field_def)
  moreover have "resolved_entity (restrictions d) e \<in> set (pj_entities (projection_of d D c b))"
    using e(1) by (simp add: projection_of_def Let_def)
  ultimately show ?thesis by blast
qed

text \<open>The aggregations a definition leaves of those the descriptor allows for a field.\<close>

lemma view_aggregations_narrow:
  assumes p: "p = projection_of d D c b" and v: "from_projection (surface p) = Inr v"
    and x: "x |\<in>| field_ids v" and agg: "aggregation_allowed v x agg"
  shows "\<exists>e \<in> set (entities D). \<exists>f. visible (restrictions d) e f \<and> fd_field_id f = x \<and> agg |\<in>| allowed_aggregations f \<and>
    (\<forall>s. fmlookup (aggregation_restrictions (restrictions d)) x = Some s \<longrightarrow> agg |\<in>| s)"
proof -
  have "x |\<in>| pj_field_ids p"
    using x v by (auto simp: from_projection_def Let_def surface_def split: if_splits)
  then obtain e1 f1 where "e1 \<in> set (pj_entities p)" "f1 \<in> set (re_fields e1)" "rv_field_id f1 = x"
    using projected_field_in_entity p by blast
  then obtain ks where ks: "allowed_aggregations_for v x = Some ks" using surface_restricted [OF v] by blast
  with agg have "agg |\<in>| ks" by (simp add: aggregation_allowed_def)
  moreover obtain e' f' where f': "e' \<in> set (pj_entities p)" "f' \<in> set (re_fields e')" "rv_field_id f' = x" "ks = rv_aggregations f'"
    using surface_aggregations [OF v ks] by blast
  moreover from f' obtain e where e: "e \<in> set (projected_entities (restrictions d) D)" "e' = resolved_entity (restrictions d) e"
    by (auto simp: p projection_of_def Let_def)
  moreover from f'(2) e obtain f where f: "visible (restrictions d) e f" "f' = resolved_field (restrictions d) f"
    using resolved_entity_fields by blast
  ultimately have "fd_field_id f = x" "agg |\<in>| restricted_aggregations (allowed_aggregations f) (fmlookup (aggregation_restrictions (restrictions d)) x)"
    by (auto simp: resolved_field_def)
  with f(1) projected_entitiesD(1) [OF e(1)] restricted_aggregations_sub show ?thesis
    by (metis fsubsetD)
qed

lemma surface_calculated_visible:
  assumes "x |\<in>| fset_of_list (map rc_name (surface_calculated r D))"
  shows "\<exists>e \<in> set (entities D). \<exists>cf \<in> set (entity_calculated_fields e). cf_name cf = x \<and>
    (\<forall>y \<in> set (cf_requires cf). \<exists>e \<in> set (entities D). \<exists>f. visible r e f \<and> fd_field_id f = y)"
proof -
  from assms obtain rc where rc: "rc \<in> set (surface_calculated r D)" "x = rc_name rc" by (auto simp: fset_of_list_elem)
  from surface_calculated_within [OF rc(1)] obtain e cf where cf: "e \<in> set (entities D)" "cf \<in> set (entity_calculated_fields e)"
    "rc = resolved_calculated_field cf" "fset_of_list (cf_requires cf) |\<subseteq>| surface_field_ids r D" by blast
  have "cf_name cf = x" using rc(2) cf(3) by (simp add: resolved_calculated_field_def)
  moreover have "y |\<in>| surface_field_ids r D" if "y \<in> set (cf_requires cf)" for y
    using cf(4) that by (auto simp: less_eq_fset.rep_eq fset_of_list.rep_eq)
  ultimately show ?thesis using cf(1,2) surface_field_visible [of _ r D] by blast
qed

text \<open>C3.  From a trusted context to a query: when a view resolves and a query validates against the view made
  from the projection, then the context is one the definition admits, the query is bound to the fingerprint of that
  very projection, every field it names is a descriptor field the definition lets through, a calculated field the
  descriptor declares over such fields, or an output of the query itself, and it aggregates a descriptor field only
  as both the descriptor and the restrictions of the definition allow.\<close>

theorem resolved_view_bounds_queries:
  assumes res: "resolve reg i c = Inr r" "ro_projection r = Some p" and v: "from_projection (surface p) = Inr v"
    and q: "new_SemanticQueryIR a = Inr q" "validate_ir (Some v) True max_limit required None q = Inr res" "valid res"
  shows "\<exists>d D. reg_view reg i = Some d \<and> registry_descriptor reg (vd_descriptor_id d) = Some D \<and>
    admits d D (bundle_for reg (vd_descriptor_id d)) c \<and> ir_source_id q = desc_source_id D \<and>
    map_option ref_view_fingerprint (view_reference (provenance q)) = Some (projection_fingerprint p) \<and>
    (\<forall>x. x |\<in>| ir_field_ids q \<longrightarrow>
       (\<exists>e \<in> set (entities D). \<exists>f. visible (restrictions d) e f \<and> fd_field_id f = x) \<or>
       (\<exists>e \<in> set (entities D). \<exists>cf \<in> set (entity_calculated_fields e). cf_name cf = x \<and>
          (\<forall>y \<in> set (cf_requires cf). \<exists>e \<in> set (entities D). \<exists>f. visible (restrictions d) e f \<and> fd_field_id f = y)) \<or>
       x |\<in>| computed_outputs q) \<and>
    (\<forall>s \<in> set (selections q). aggregation s \<noteq> ''none'' \<longrightarrow> sel_field_id s |\<in>| pj_field_ids p \<longrightarrow>
       (\<exists>e \<in> set (entities D). \<exists>f. visible (restrictions d) e f \<and> fd_field_id f = sel_field_id s \<and>
          aggregation s |\<in>| allowed_aggregations f \<and>
          (\<forall>ks. fmlookup (aggregation_restrictions (restrictions d)) (sel_field_id s) = Some ks \<longrightarrow> aggregation s |\<in>| ks)))"
proof -
  obtain d D where dD: "reg_view reg i = Some d" "registry_descriptor reg (vd_descriptor_id d) = Some D"
    and adm: "admits d D (bundle_for reg (vd_descriptor_id d)) c"
    and p: "p = projection_of d D c (bundle_for reg (vd_descriptor_id d))"
    using resolved_projection [OF res] by metis
  let ?r = "restrictions d"
  have view: "source_id v = desc_source_id D" "field_ids v = pj_field_ids p" "calculated_field_ids v = pj_calculated_field_ids p"
    "view_fingerprint v = Some (projection_fingerprint p)"
    using v by (auto simp: from_projection_def Let_def surface_def p projection_of_def split: if_splits)
  have ids: "pj_field_ids p = surface_field_ids ?r D"
    and calc: "pj_calculated_field_ids p = fset_of_list (map rc_name (surface_calculated ?r D))"
    by (simp_all add: p projection_of_def Let_def)
  have bound: "view_bound v" by (simp add: view_bound_def view)
  note within = query_within_view [OF q]
  have field: "\<exists>e \<in> set (entities D). \<exists>f. visible ?r e f \<and> fd_field_id f = x" if "x |\<in>| field_ids v" for x
    using that surface_field_visible [of x ?r D] by (simp add: view ids)
  have calculated: "\<exists>e \<in> set (entities D). \<exists>cf \<in> set (entity_calculated_fields e). cf_name cf = x \<and>
      (\<forall>y \<in> set (cf_requires cf). \<exists>e \<in> set (entities D). \<exists>f. visible ?r e f \<and> fd_field_id f = y)"
    if "x |\<in>| calculated_field_ids v" for x
    using that surface_calculated_visible [of x ?r D] by (simp add: view calc)
  have "(\<exists>e \<in> set (entities D). \<exists>f. visible ?r e f \<and> fd_field_id f = x) \<or>
      (\<exists>e \<in> set (entities D). \<exists>cf \<in> set (entity_calculated_fields e). cf_name cf = x \<and>
         (\<forall>y \<in> set (cf_requires cf). \<exists>e \<in> set (entities D). \<exists>f. visible ?r e f \<and> fd_field_id f = y)) \<or>
      x |\<in>| computed_outputs q" if "x |\<in>| ir_field_ids q" for x
  proof -
    have "x |\<in>| field_ids v \<or> x |\<in>| calculated_field_ids v \<or> x |\<in>| computed_outputs q"
      using within that by (auto simp: declared_calculated_def less_eq_fset.rep_eq)
    then show ?thesis using field calculated by blast
  qed
  moreover have "\<exists>e \<in> set (entities D). \<exists>f. visible ?r e f \<and> fd_field_id f = sel_field_id s \<and>
      aggregation s |\<in>| allowed_aggregations f \<and>
      (\<forall>ks. fmlookup (aggregation_restrictions ?r) (sel_field_id s) = Some ks \<longrightarrow> aggregation s |\<in>| ks)"
    if "s \<in> set (selections q)" "aggregation s \<noteq> ''none''" "sel_field_id s |\<in>| pj_field_ids p" for s
    using view_aggregations_narrow [OF p v, of "sel_field_id s" "aggregation s"] within bound that by (simp add: view)
  moreover have "ir_source_id q = desc_source_id D"
    "map_option ref_view_fingerprint (view_reference (provenance q)) = Some (projection_fingerprint p)"
    using within bound by (auto simp: view)
  ultimately show ?thesis using dD adm by blast
qed

section \<open>Where resolution raises\<close>

text \<open>
  Resolution does not bound the number of missing members it reports, nor check that their ids are identifiers:
  restrictions admit any text as the id of an entity or a field.  With more than 64 missing members, or one whose id is
  no identifier, the resolver raises a validation error where it promises a structured outcome.
\<close>

theorem unresolvable_members_raise:
  assumes "reg_view reg i = Some d" "stored_descriptor reg (vd_descriptor_id d) \<noteq> None"
    "registry_descriptor reg (vd_descriptor_id d) = Some D" "admits d D (bundle_for reg (vd_descriptor_id d)) c"
    and "64 < length (member_issues (restrictions d) D) \<or> \<not> list_all bundle_issue_ok (member_issues (restrictions d) D)"
  shows "resolve reg i c = Inl ValidationError"
proof -
  let ?b = "bundle_for reg (vd_descriptor_id d)"
  obtain D0 where D0: "stored_descriptor reg (vd_descriptor_id d) = Some D0" using assms(2) by blast
  then have D: "(case ?b of None \<Rightarrow> D0 | Some bu \<Rightarrow> descriptor bu) = D"
    using assms(3) by (auto simp: registry_descriptor_def split: option.splits)
  have "gates d D ?b c = None" using assms(4) by (simp add: gates_None)
  moreover have "bind_res (project d D c ?b) (\<lambda>(p, issues).
      if issues \<noteq> [] then new_ResolutionOutcome UNAVAILABLE None issues else new_ResolutionOutcome RESOLVED p []) = Inl ValidationError"
    using assms(5) by (auto simp: project_def Let_def new_ResolutionOutcome_def)
  ultimately show ?thesis using assms(1) D0 D by (simp add: resolve_def Let_def)
qed

section \<open>A concrete view\<close>

definition open_restrictions :: ViewMemberRestrictions where
  "open_restrictions =
     \<lparr>include_entities = {||}, exclude_entities = {||}, include_fields = {||}, exclude_fields = {|''price''|},
      field_aliases = fmempty, vr_allowed_operations = {||}, aggregation_restrictions = fmempty,
      vr_allowed_relationships = {||}, vr_result_shapes = []\<rparr>"

definition orders_view :: SemanticViewDefinition where
  "orders_view =
     \<lparr>vd_view_id = ''v1'', vd_version = 1, vd_descriptor_id = ''sales'', vd_description = [], allowed_purposes = {||},
      restrictions = open_restrictions, bound_policy_fingerprint = None,
      bound_tenant_scope_fingerprint = Some sample_fingerprint, bound_principal_authorization_fingerprints = {||},
      vd_required_capabilities = {||}, required_feature_flags = {||}, vd_model_version = None,
      vd_provenance = \<lparr>vp_descriptor_fingerprint = sample_fingerprint, vp_policy_decision_fingerprint = None,
        vp_resolver_version = 1, vp_bundle_id = None, vp_bundle_version = None, vp_bundle_fingerprint = None\<rparr>\<rparr>"

definition orders_context :: ResolutionContext where
  "orders_context =
     \<lparr>cx_tenant_scope_fingerprint = Some sample_fingerprint, tenant_active = True,
      cx_principal_authorization_fingerprint = None, cx_purpose = None, cx_policy_fingerprint = None,
      cx_catalog_fingerprint = None, cx_bundle_fingerprint = None, cx_snapshot_fingerprint = None,
      cx_model_version = None, adapter_capabilities = {||}, feature_flags = {||}, client_hints = fmempty\<rparr>"

definition orders_registry :: ViewRegistry where
  "orders_registry = \<lparr>reg_descriptors = [sample_descriptor], reg_views = [orders_view], reg_bundle = None\<rparr>"

definition orders_projection :: ResolvedViewProjection where
  "orders_projection = projection_of orders_view sample_descriptor orders_context None"

lemmas orders_defs = open_restrictions_def orders_view_def orders_context_def orders_registry_def

lemma orders_registered:
  "new_ViewRegistry [sample_descriptor] [orders_view] None = Inr orders_registry"
  "reg_view orders_registry ''v1'' = Some orders_view" "stored_descriptor orders_registry ''sales'' = Some sample_descriptor"
  "bundle_for orders_registry i = None"
  by (simp_all add: new_ViewRegistry_def Let_def orders_defs view_registrable_def sample_descriptor_def reg_view_def
      stored_descriptor_def bundle_for_def)

lemma orders_selected: "selected_fields open_restrictions sample_orders = {|''units''|}"
  by (auto simp: selected_fields_def Let_def open_restrictions_def sample_descriptor_defs)

lemma orders_entities: "projected_entities open_restrictions sample_descriptor = [sample_orders]"
proof -
  have "included_entities open_restrictions sample_descriptor = {|''orders''|}"
    by (auto simp: included_entities_def open_restrictions_def descriptor_entity_ids_def sample_descriptor_defs)
  moreover have "descriptor_entity sample_descriptor ''orders'' = Some sample_orders"
    by (simp add: descriptor_entity_def sample_descriptor_defs)
  ultimately show ?thesis
    using orders_selected by (simp add: projected_entities_def sorted_list_of_fset.rep_eq List.map_filter_simps)
qed

lemma orders_members:
  "entity_id sample_orders = ''orders''" "ent_label sample_orders = ''orders''" "ent_description sample_orders = []"
  "ent_fields sample_orders = [sample_field ''units'' ''int'', sample_field ''price'' ''float'']"
  "relationships sample_orders = []" "entity_calculated_fields sample_orders = [sample_total]"
  by (simp_all add: sample_orders_def entity_calculated_fields_def)

lemma orders_surface:
  "surface_field_ids open_restrictions sample_descriptor = {|''units''|}"
  "surface_calculated open_restrictions sample_descriptor = []"
  "resolved_entity open_restrictions sample_orders =
     \<lparr>re_entity_id = ''orders'', re_label = ''orders'', re_description = [],
      re_fields = [resolved_field open_restrictions (sample_field ''units'' ''int'')], re_relationships = {||}\<rparr>"
proof -
  have "calculated_within open_restrictions sample_orders = []"
    by (simp add: calculated_within_def orders_members orders_selected sample_total_def less_eq_fset.rep_eq)
  then show "surface_calculated open_restrictions sample_descriptor = []" by (simp add: surface_calculated_def orders_entities)
  show "surface_field_ids open_restrictions sample_descriptor = {|''units''|}"
    by (simp add: surface_field_ids_def orders_entities orders_selected)
  show "resolved_entity open_restrictions sample_orders =
     \<lparr>re_entity_id = ''orders'', re_label = ''orders'', re_description = [],
      re_fields = [resolved_field open_restrictions (sample_field ''units'' ''int'')], re_relationships = {||}\<rparr>"
    by (simp add: resolved_entity_def orders_members orders_selected sample_field_def)
qed

lemma orders_resolved:
  "resolve orders_registry ''v1'' orders_context =
   Inr \<lparr>ro_kind = RESOLVED, ro_projection = Some orders_projection, ro_issues = []\<rparr>"
proof -
  have "admits orders_view sample_descriptor None orders_context"
    by (simp add: admits_def bundle_current_def orders_defs sample_descriptor_def)
  then have open_gates: "gates orders_view sample_descriptor None orders_context = None" by (simp add: gates_None)
  have none: "member_issues open_restrictions sample_descriptor = []"
    by (simp add: member_issues_def missing_members_def open_restrictions_def filter_empty_conv sorted_list_of_fset.rep_eq
        all_field_ids_def field_id_list_def sample_descriptor_defs fset_of_list_elem)
  have inc: "included_entities open_restrictions sample_descriptor \<noteq> {||}"
    by (auto simp: included_entities_def open_restrictions_def descriptor_entity_ids_def sample_descriptor_defs)
  have names: "identifier_ok ''v1''" "identifier_ok ''sales''" "identifier_ok ''shop''" "identifier_ok ''orders''"
    "identifier_ok ''units''" "identifier_ok ''int''" "fingerprint_ok sample_fingerprint"
    by (simp_all add: pattern_simps sample_fingerprint_def list_all_iff)
  have entity: "resolved_entity_ok (resolved_entity open_restrictions sample_orders)"
    using names
    by (simp add: resolved_entity_ok_def orders_surface resolved_field_ok_def resolved_field_def label_ok_def MAX_FIELDS_def
        sample_field_def restricted_aggregations_def) (simp add: open_restrictions_def)
  have rest: "restrictions orders_view = open_restrictions" by (simp add: orders_view_def)
  have "projection_members_ok orders_projection \<and> projection_consistent orders_projection"
    using names entity
    by (simp add: orders_projection_def projection_of_def Let_def rest orders_entities orders_surface projection_members_ok_def
        projection_consistent_def resolved_calculated_def projected_field_ids_def view_provenance_ok_def all_or_none_def
        MAX_ENTITIES_def MAX_FIELDS_def MAX_OPERATIONS_def MAX_RELATIONSHIPS_def RESOLVER_VERSION_def descriptor_fingerprint_def)
       (simp add: orders_defs sample_descriptor_def orders_members resolved_field_def sample_field_def fcard.rep_eq)
  then have "project orders_view sample_descriptor orders_context None = Inr (Some orders_projection, [])"
    using none inc entity
    by (simp add: project_def Let_def rest orders_entities orders_surface new_ResolvedViewProjection_def orders_projection_def)
  then show ?thesis
    using open_gates orders_registered by (simp add: resolve_def Let_def orders_view_def new_ResolutionOutcome_def)
qed

lemma orders_selected_projection:
  "ro_projection \<lparr>ro_kind = RESOLVED, ro_projection = Some orders_projection, ro_issues = []\<rparr> = Some orders_projection"
  by simp

theorem view_resolution_fails_closed_witness:
  "\<exists>d D. reg_view orders_registry ''v1'' = Some d \<and> admits d D None orders_context \<and>
     Some orders_projection = Some (projection_of d D orders_context None)"
  using view_resolution_fails_closed [OF orders_resolved] orders_registered(4) by auto

theorem projection_narrows_descriptor_witness:
  "\<exists>d. reg_view orders_registry ''v1'' = Some d \<and>
     (\<forall>x. x |\<in>| pj_field_ids orders_projection \<longrightarrow> (\<exists>e f. visible (restrictions d) e f \<and> fd_field_id f = x)) \<and>
     ''units'' |\<in>| pj_field_ids orders_projection"
proof -
  have "''units'' |\<in>| pj_field_ids orders_projection"
    by (simp add: orders_projection_def projection_of_def Let_def orders_view_def orders_surface)
  with projection_narrows_descriptor [OF orders_resolved orders_selected_projection] show ?thesis by blast
qed

theorem unresolvable_members_raise_witness:
  "resolve (orders_registry\<lparr>reg_views := [orders_view\<lparr>restrictions := open_restrictions\<lparr>include_fields := {|''no field''|}\<rparr>\<rparr>]\<rparr>)
     ''v1'' orders_context = Inl ValidationError"
proof (rule unresolvable_members_raise [where D = sample_descriptor])
  let ?d = "orders_view\<lparr>restrictions := open_restrictions\<lparr>include_fields := {|''no field''|}\<rparr>\<rparr>"
  show "reg_view (orders_registry\<lparr>reg_views := [?d]\<rparr>) ''v1'' = Some ?d" by (simp add: reg_view_def orders_view_def)
  show "stored_descriptor (orders_registry\<lparr>reg_views := [?d]\<rparr>) (vd_descriptor_id ?d) \<noteq> None"
    "registry_descriptor (orders_registry\<lparr>reg_views := [?d]\<rparr>) (vd_descriptor_id ?d) = Some sample_descriptor"
    by (simp_all add: stored_descriptor_def registry_descriptor_def bundle_for_def orders_registry_def orders_view_def sample_descriptor_def)
  show "admits ?d sample_descriptor (bundle_for (orders_registry\<lparr>reg_views := [?d]\<rparr>) (vd_descriptor_id ?d)) orders_context"
    by (simp add: admits_def bundle_current_def bundle_for_def orders_defs sample_descriptor_def)
  have "\<not> identifier_ok ''no field''" by (simp add: pattern_simps)
  moreover have "missing_member_issue ''field'' ''no field'' \<in> set (member_issues (restrictions ?d) sample_descriptor)"
    by (simp add: member_issues_def missing_members_def open_restrictions_def sorted_list_of_fset.rep_eq all_field_ids_def
        field_id_list_def sample_descriptor_defs fset_of_list_elem)
  moreover have "bundle_issue_ok (missing_member_issue k i) \<Longrightarrow> identifier_ok i" for k i
    by (simp add: missing_member_issue_def bundle_issue_def bundle_issue_ok_def)
  ultimately show "64 < length (member_issues (restrictions ?d) sample_descriptor) \<or>
      \<not> list_all bundle_issue_ok (member_issues (restrictions ?d) sample_descriptor)"
    unfolding list_all_iff by blast
qed

definition units_query :: SemanticQueryIR where
  "units_query = (sample_ir [sample_selection ''s1'' ''units'' ''none'' None] [] [])
     \<lparr>ir_source_id := ''shop'', result_shape := ''rows'',
      provenance := \<lparr>prov_source_id = ''shop'', prov_root_entity_id = ''orders'', prov_catalog_fingerprint = None,
        policy_view_fingerprint = None,
        view_reference = Some \<lparr>ref_view_id = ''v1'', ref_view_version = 1, ref_view_fingerprint = projection_fingerprint orders_projection\<rparr>,
        join_plan_fingerprint = None\<rparr>\<rparr>"

lemma units_query_built:
  "new_SemanticQueryIR units_query = Inr (units_query\<lparr>ir_fingerprint := fingerprint_of (ir_payload units_query)\<rparr>)"
proof -
  have "identifier_ok ''shop''" "identifier_ok ''units''" by (simp_all add: pattern_simps)
  moreover have "fingerprint_ok (projection_fingerprint orders_projection)" by (simp add: projection_fingerprint_def)
  ultimately have "ir_valid units_query"
    by (simp add: ir_valid_def ir_parts_ok_def units_query_def sample_ir_def sample_selection_def provenance_ok_def view_reference_ok_def
        sample_names selection_ok_def AGGREGATION_KINDS_def expressions_valid_def expression_capabilities_def used_expressions_def
        List.map_filter_simps)
  then show ?thesis by (simp add: new_query) (simp add: units_query_def sample_ir_def)
qed

theorem resolved_view_bounds_queries_witness:
  "\<exists>v d D. from_projection (surface orders_projection) = Inr v \<and> reg_view orders_registry ''v1'' = Some d \<and>
     admits d D None orders_context \<and> (\<exists>e \<in> set (entities D). \<exists>f. visible (restrictions d) e f \<and> fd_field_id f = ''units'')"
proof -
  define v where "v = \<lparr>source_id = ''shop'', root_entity_ids = {|''orders''|}, field_ids = {|''units''|}, calculated_field_ids = {||},
     catalog_fingerprint = None, view_id = Some ''v1'', view_version = Some 1,
     view_fingerprint = Some (projection_fingerprint orders_projection), allowed_operations = {|''select''|},
     allowed_relationships = {||}, field_aggregation_restrictions = Some (fmap_of_list [(''units'', {||})]),
     result_shape_constraints = [], purpose = None\<rparr>"
  have names: "identifier_ok ''shop''" "identifier_ok ''v1''" by (simp_all add: pattern_simps)
  let ?fp = "projection_fingerprint orders_projection"
  have surf: "surface orders_projection = \<lparr>rp_source_id = ''shop'', rp_root_entity_ids = {|''orders''|}, rp_field_ids = {|''units''|},
      rp_calculated_field_ids = {||},
      rp_entities = [[\<lparr>rf_field_id = ''units'', rf_alias = None, rf_label = ''units'', rf_description = Some [],
         rf_data_type = ''int'', rf_allowed_aggregations = {||}\<rparr>]],
      rp_catalog_fingerprint = None, rp_view_id = ''v1'', rp_view_version = 1, rp_fingerprint = ?fp,
      rp_allowed_operations = {|''select''|}, rp_allowed_relationships = {||}, rp_result_shape_constraints = [], rp_purpose = None\<rparr>"
  proof -
    have "restrictions orders_view = open_restrictions" by (simp add: orders_view_def)
    then show ?thesis
      by (simp add: surface_def orders_projection_def projection_of_def Let_def orders_entities orders_surface)
         (simp add: orders_defs sample_descriptor_def orders_members resolved_field_def sample_field_def restricted_aggregations_def)
  qed
  have v: "from_projection (surface orders_projection) = Inr v"
    using names
    by (simp add: surf from_projection_def Let_def v_def view_valid_def binding_consistent_def
        aggregation_map_def projection_fingerprint_def)
  have valid: "validate_ir (Some v) True 100 {||} None (units_query\<lparr>ir_fingerprint := fp\<rparr>) =
      Inr \<lparr>valid = True, res_ir_version = 1, res_ir_fingerprint = fp, issues = []\<rparr>" for fp
  proof -
    have "validation_issues (Some v) True 100 {||} None (units_query\<lparr>ir_fingerprint := fp\<rparr>) = []"
      by (simp add: check_defs units_query_def sample_ir_def sample_selection_def v_def)
    then show ?thesis by (simp add: validate_ir_def) (simp add: units_query_def sample_ir_def)
  qed
  have "''units'' |\<in>| ir_field_ids (units_query\<lparr>ir_fingerprint := fingerprint_of (ir_payload units_query)\<rparr>)"
    "''units'' |\<notin>| computed_outputs (units_query\<lparr>ir_fingerprint := fingerprint_of (ir_payload units_query)\<rparr>)"
    by (simp_all add: ir_field_ids_def computed_outputs_def units_query_def sample_ir_def sample_selection_def fold_union_map)
  moreover obtain d D where d: "reg_view orders_registry ''v1'' = Some d" "registry_descriptor orders_registry (vd_descriptor_id d) = Some D"
    "admits d D (bundle_for orders_registry (vd_descriptor_id d)) orders_context"
    and fields: "\<forall>x. x |\<in>| ir_field_ids (units_query\<lparr>ir_fingerprint := fingerprint_of (ir_payload units_query)\<rparr>) \<longrightarrow>
       (\<exists>e \<in> set (entities D). \<exists>f. visible (restrictions d) e f \<and> fd_field_id f = x) \<or>
       (\<exists>e \<in> set (entities D). \<exists>cf \<in> set (entity_calculated_fields e). cf_name cf = x \<and>
          (\<forall>y \<in> set (cf_requires cf). \<exists>e \<in> set (entities D). \<exists>f. visible (restrictions d) e f \<and> fd_field_id f = y)) \<or>
       x |\<in>| computed_outputs (units_query\<lparr>ir_fingerprint := fingerprint_of (ir_payload units_query)\<rparr>)"
    using resolved_view_bounds_queries [OF orders_resolved orders_selected_projection v units_query_built valid] by auto
  moreover have "D = sample_descriptor" "bundle_for orders_registry (vd_descriptor_id d) = None"
    using d(1,2) orders_registered by (auto simp: registry_descriptor_def orders_view_def)
  then have "cf_name cf \<noteq> ''units''" if "e \<in> set (entities D)" "cf \<in> set (entity_calculated_fields e)" for e cf
    using that by (auto simp: sample_descriptor_def orders_members) (simp add: sample_total_def)
  ultimately show ?thesis using v \<open>bundle_for orders_registry (vd_descriptor_id d) = None\<close> by metis
qed

end
