(* ===== verification/Verification_Evidence.thy ===== *)
theory Verification_Evidence
  imports Query_IR Memory_Model
begin

text \<open>
  Verification evidence and policies: the evidence models of \<^verbatim>\<open>src/nl2data_core/verification/models.py\<close> and
  \<^verbatim>\<open>verification/policy.py\<close>.

  Fingerprints are functions of the payloads, and the validators of the models are the predicates \<open>..._ok\<close>.  Plans are
  in \<open>Verification_Plan\<close>; the layers and the suite that produce evidence, and their theorems, in
  \<open>Structural_Verification\<close> and \<open>Verification_Suite\<close>.
\<close>

section \<open>Evidence\<close>

datatype VerificationLayer = STRUCTURAL | SMOKE | SEMANTIC

fun layer_value :: "VerificationLayer \<Rightarrow> string" where
  "layer_value STRUCTURAL = ''layer_1''"
| "layer_value SMOKE = ''layer_2''"
| "layer_value SEMANTIC = ''layer_3''"

datatype VerificationStatus = PASSED | FAILED | SKIPPED | UNAVAILABLE_STATUS | TIMED_OUT | NOT_RUN

fun status_value :: "VerificationStatus \<Rightarrow> string" where
  "status_value PASSED = ''passed''"
| "status_value FAILED = ''failed''"
| "status_value SKIPPED = ''skipped''"
| "status_value UNAVAILABLE_STATUS = ''unavailable''"
| "status_value TIMED_OUT = ''timed_out''"
| "status_value NOT_RUN = ''not_run''"

definition all_statuses :: "VerificationStatus list" where
  "all_statuses = [PASSED, FAILED, SKIPPED, UNAVAILABLE_STATUS, TIMED_OUT, NOT_RUN]"

record CaseEvidence =
  case_id :: string
  case_layer :: VerificationLayer
  case_status :: VerificationStatus
  query_fingerprint :: "string option"
  assertion_count :: int
  passed_assertion_count :: int
  result_fingerprint :: "string option"
  case_issue_codes :: "string list"
  case_duration_ms :: int

definition issue_codes_ok :: "string list \<Rightarrow> bool" where
  "issue_codes_ok cs \<longleftrightarrow> length cs \<le> 32 \<and> distinct cs \<and> list_all identifier_ok cs"

definition case_evidence_ok :: "CaseEvidence \<Rightarrow> bool" where
  "case_evidence_ok c \<longleftrightarrow>
     identifier_ok (case_id c) \<and> opt_all fingerprint_ok (query_fingerprint c) \<and>
     0 \<le> assertion_count c \<and> assertion_count c \<le> 100 \<and> 0 \<le> passed_assertion_count c \<and>
     passed_assertion_count c \<le> 100 \<and> opt_all fingerprint_ok (result_fingerprint c) \<and>
     issue_codes_ok (case_issue_codes c) \<and> 0 \<le> case_duration_ms c \<and> case_duration_ms c \<le> 300000 \<and>
     passed_assertion_count c \<le> assertion_count c"

definition case_payload :: "CaseEvidence \<Rightarrow> jv" where
  "case_payload c = vdict
     ([(''case_id'', VStr (case_id c)), (''layer'', VStr (layer_value (case_layer c))),
       (''status'', VStr (status_value (case_status c))), (''assertion_count'', VInt (assertion_count c)),
       (''passed_assertion_count'', VInt (passed_assertion_count c)),
       (''issue_codes'', VList (map VStr (sort (case_issue_codes c))))] @
      opt_member ''query_fingerprint'' VStr (query_fingerprint c) @
      opt_member ''result_fingerprint'' VStr (result_fingerprint c))"

record LayerEvidence =
  layer :: VerificationLayer
  layer_status :: VerificationStatus
  cases :: "CaseEvidence list"
  layer_issue_codes :: "string list"
  layer_duration_ms :: int

definition layer_evidence_ok :: "LayerEvidence \<Rightarrow> bool" where
  "layer_evidence_ok l \<longleftrightarrow>
     length (cases l) \<le> 1000 \<and> list_all case_evidence_ok (cases l) \<and> issue_codes_ok (layer_issue_codes l) \<and>
     0 \<le> layer_duration_ms l \<and> layer_duration_ms l \<le> 900000 \<and> distinct (map case_id (cases l)) \<and>
     list_all (\<lambda>c. case_layer c = layer l) (cases l)"

definition status_count :: "CaseEvidence list \<Rightarrow> VerificationStatus \<Rightarrow> int" where
  "status_count cs s = int (length (filter (\<lambda>c. case_status c = s) cs))"

definition layer_payload :: "LayerEvidence \<Rightarrow> jv" where
  "layer_payload l = vdict
     [(''layer'', VStr (layer_value (layer l))), (''layer_version'', VInt 1),
      (''status'', VStr (status_value (layer_status l))),
      (''cases'', VList (map case_payload (sort_key case_id (cases l)))),
      (''counts'', vdict (map (\<lambda>s. (status_value s, VInt (status_count (cases l) s))) all_statuses)),
      (''issue_codes'', VList (map VStr (sort (layer_issue_codes l))))]"

record SuiteEvidence =
  suite_status :: VerificationStatus
  se_policy_profile :: string
  se_policy_version :: int
  se_policy_fingerprint :: string
  se_plan_fingerprint :: "string option"
  runner_id :: string
  runner_version :: int
  se_draft_id :: string
  se_draft_revision :: int
  se_bundle_fingerprint :: string
  se_manifest_fingerprint :: string
  se_tenant :: string
  se_source :: string
  executor_id :: "string option"
  executor_capability_fingerprint :: "string option"
  layers :: "LayerEvidence list"
  suite_issue_codes :: "string list"
  suite_duration_ms :: int

definition suite_evidence_ok :: "SuiteEvidence \<Rightarrow> bool" where
  "suite_evidence_ok e \<longleftrightarrow>
     identifier_ok (se_policy_profile e) \<and> 1 \<le> se_policy_version e \<and> se_policy_version e \<le> 1000 \<and>
     fingerprint_ok (se_policy_fingerprint e) \<and> opt_all fingerprint_ok (se_plan_fingerprint e) \<and>
     identifier_ok (runner_id e) \<and> 1 \<le> runner_version e \<and> runner_version e \<le> 1000 \<and> identifier_ok (se_draft_id e) \<and>
     1 \<le> se_draft_revision e \<and> fingerprint_ok (se_bundle_fingerprint e) \<and> fingerprint_ok (se_manifest_fingerprint e) \<and>
     fingerprint_ok (se_tenant e) \<and> fingerprint_ok (se_source e) \<and> opt_all identifier_ok (executor_id e) \<and>
     opt_all fingerprint_ok (executor_capability_fingerprint e) \<and>
     1 \<le> length (layers e) \<and> length (layers e) \<le> 3 \<and> list_all layer_evidence_ok (layers e) \<and>
     0 \<le> suite_duration_ms e \<and> suite_duration_ms e \<le> 1800000 \<and>
     (executor_id e = None) = (executor_capability_fingerprint e = None) \<and>
     distinct (map layer (layers e)) \<and> issue_codes_ok (suite_issue_codes e)"

definition suite_payload :: "SuiteEvidence \<Rightarrow> jv" where
  "suite_payload e = vdict
     ([(''suite_version'', VInt 1), (''status'', VStr (status_value (suite_status e))),
       (''policy_profile'', VStr (se_policy_profile e)), (''policy_version'', VInt (se_policy_version e)),
       (''policy_fingerprint'', VStr (se_policy_fingerprint e)), (''runner_id'', VStr (runner_id e)),
       (''runner_version'', VInt (runner_version e)), (''draft_id'', VStr (se_draft_id e)),
       (''draft_revision'', VInt (se_draft_revision e)), (''bundle_fingerprint'', VStr (se_bundle_fingerprint e)),
       (''manifest_fingerprint'', VStr (se_manifest_fingerprint e)), (''tenant_scope_fingerprint'', VStr (se_tenant e)),
       (''source_scope_fingerprint'', VStr (se_source e)),
       (''layers'', VList (map layer_payload (sort_key (\<lambda>l. layer_value (layer l)) (layers e)))),
       (''issue_codes'', VList (map VStr (sort (suite_issue_codes e))))] @
      opt_member ''plan_fingerprint'' VStr (se_plan_fingerprint e) @
      (case executor_id e of
         None \<Rightarrow> []
       | Some i \<Rightarrow> [(''executor_id'', VStr i),
                     (''executor_capability_fingerprint'', vopt VStr (executor_capability_fingerprint e))]))"

definition suite_fingerprint :: "SuiteEvidence \<Rightarrow> string" where
  "suite_fingerprint e = fingerprint_of (suite_payload e)"

section \<open>Policies\<close>

record VerificationPolicy =
  policy_id :: string
  policy_version :: int
  required_layers :: "VerificationLayer fset"
  minimum_enabled_smoke_cases :: int
  minimum_enabled_semantic_cases :: int
  require_all_enabled_cases_pass :: bool
  compatibility_label :: "string option"

definition policy_payload :: "VerificationPolicy \<Rightarrow> jv" where
  "policy_payload p = vdict
     [(''policy_id'', VStr (policy_id p)), (''policy_version'', VInt (policy_version p)),
      (''required_layers'', VList (map VStr (sorted_list_of_fset (layer_value |`| required_layers p)))),
      (''minimum_enabled_smoke_cases'', VInt (minimum_enabled_smoke_cases p)),
      (''minimum_enabled_semantic_cases'', VInt (minimum_enabled_semantic_cases p)),
      (''require_all_enabled_cases_pass'', VBool (require_all_enabled_cases_pass p)),
      (''compatibility_label'', vopt VStr (compatibility_label p))]"

definition COMPATIBILITY_POLICY :: VerificationPolicy where
  "COMPATIBILITY_POLICY =
     \<lparr>policy_id = ''compatibility-v1'', policy_version = 1, required_layers = {|STRUCTURAL|},
      minimum_enabled_smoke_cases = 0, minimum_enabled_semantic_cases = 0, require_all_enabled_cases_pass = True,
      compatibility_label = Some ''structural_only''\<rparr>"

definition PRODUCTION_POLICY :: VerificationPolicy where
  "PRODUCTION_POLICY =
     \<lparr>policy_id = ''production-v1'', policy_version = 1, required_layers = {|STRUCTURAL, SMOKE, SEMANTIC|},
      minimum_enabled_smoke_cases = 1, minimum_enabled_semantic_cases = 1, require_all_enabled_cases_pass = True,
      compatibility_label = None\<rparr>"

definition builtin_policy :: "string \<Rightarrow> VerificationPolicy option" where
  "builtin_policy i =
     (if i = ''compatibility-v1'' then Some COMPATIBILITY_POLICY
      else if i = ''production-v1'' then Some PRODUCTION_POLICY else None)"

definition policy_ok :: "VerificationPolicy \<Rightarrow> bool" where
  "policy_ok p \<longleftrightarrow>
     identifier_ok (policy_id p) \<and> policy_version p = 1 \<and>
     0 \<le> minimum_enabled_smoke_cases p \<and> minimum_enabled_smoke_cases p \<le> 1000 \<and>
     0 \<le> minimum_enabled_semantic_cases p \<and> minimum_enabled_semantic_cases p \<le> 1000 \<and>
     opt_all (\<lambda>s. length s \<le> 64) (compatibility_label p) \<and> STRUCTURAL |\<in>| required_layers p \<and>
     (0 < minimum_enabled_smoke_cases p \<longrightarrow> SMOKE |\<in>| required_layers p) \<and>
     (0 < minimum_enabled_semantic_cases p \<longrightarrow> SEMANTIC |\<in>| required_layers p) \<and>
     (case builtin_policy (policy_id p) of None \<Rightarrow> True | Some b \<Rightarrow> policy_payload p = policy_payload b)"

definition verification_policy_fingerprint :: "VerificationPolicy \<Rightarrow> string" where
  "verification_policy_fingerprint p = fingerprint_of (policy_payload p)"

definition validate_stricter_policy :: "VerificationPolicy \<Rightarrow> VerificationPolicy \<Rightarrow> VerificationPolicy res" where
  "validate_stricter_policy p baseline =
     (if builtin_policy (policy_id p) \<noteq> None then
        (if p \<noteq> baseline then Inl (ValueError ''built-in policy identities cannot be used for host policies'') else Inr p)
      else if \<not> required_layers baseline |\<subseteq>| required_layers p then
        Inl (ValueError ''host policy cannot remove required layers'')
      else if minimum_enabled_smoke_cases p < minimum_enabled_smoke_cases baseline then
        Inl (ValueError ''host policy cannot lower the smoke-case minimum'')
      else if minimum_enabled_semantic_cases p < minimum_enabled_semantic_cases baseline then
        Inl (ValueError ''host policy cannot lower the semantic-case minimum'')
      else if require_all_enabled_cases_pass baseline \<and> \<not> require_all_enabled_cases_pass p then
        Inl (ValueError ''host policy cannot permit enabled case failures'')
      else Inr p)"

end
