(* ===== verification/Verification_Plan.thy ===== *)
theory Verification_Plan
  imports Verification_Evidence
begin

text \<open>
  Verification plans of \<^verbatim>\<open>src/nl2data_core/verification/models.py\<close>: tagged expected scalars with their canonical
  decimals, smoke assertions, semantic contracts, query cases, deadlines and the plan with its fingerprint.

  A decimal of Python's \<open>decimal\<close> module is a sign, a coefficient and an exponent, or one of the special values; the
  constructor from text follows the grammar of the module (surrounding space, underscores, an optional exponent).
\<close>

section \<open>Decimals\<close>

datatype dec = Fin bool nat int | Infin bool | NaN

definition str_strip :: "string \<Rightarrow> string" where
  "str_strip s = List.rev (dropWhile is_space (List.rev (dropWhile is_space s)))"

definition digits_or_empty :: "string \<Rightarrow> bool" where
  "digits_or_empty s \<longleftrightarrow> list_all is_digit s"

definition signed_digits :: "string \<Rightarrow> bool" where
  "signed_digits s =
     (let body = (if take 1 s = ''-'' \<or> take 1 s = ''+'' then drop 1 s else s) in body \<noteq> [] \<and> list_all is_digit body)"

text \<open>The unsigned part of a finite decimal text: digits with at most one point, then an optional exponent.\<close>

definition unsigned_decimal :: "bool \<Rightarrow> string \<Rightarrow> dec option" where
  "unsigned_decimal neg s =
     (let mantissa = takeWhile (\<lambda>c. lower_char c \<noteq> CHR ''e'') s;
          tail = dropWhile (\<lambda>c. lower_char c \<noteq> CHR ''e'') s;
          (whole, fraction) = partition_at CHR ''.'' mantissa;
          exponent = (if tail = [] then 0 else int_of_text (drop 1 tail))
      in if whole @ fraction \<noteq> [] \<and> list_all is_digit (whole @ fraction) \<and> (tail = [] \<or> signed_digits (drop 1 tail))
         then Some (Fin neg (nat_of_digits (whole @ fraction)) (exponent - int (length fraction)))
         else None)"

text \<open>\<open>Decimal(text)\<close>; \<open>None\<close> is \<open>InvalidOperation\<close>.\<close>

definition decimal_of :: "string \<Rightarrow> dec option" where
  "decimal_of text0 =
     (let s = filter (\<lambda>c. c \<noteq> CHR ''_'') (str_strip text0);
          neg = (take 1 s = ''-'');
          body = (if neg \<or> take 1 s = ''+'' then drop 1 s else s);
          name = str_lower body
      in if name = ''inf'' \<or> name = ''infinity'' then Some (Infin neg)
         else if (take 3 name = ''nan'' \<and> list_all is_digit (drop 3 name)) \<or>
                 (take 4 name = ''snan'' \<and> list_all is_digit (drop 4 name)) then Some NaN
         else unsigned_decimal neg body)"

text \<open>\<open>format(parsed, "f")\<close> of a finite decimal.\<close>

definition format_f :: "bool \<Rightarrow> nat \<Rightarrow> int \<Rightarrow> string" where
  "format_f neg c e =
     (let ds = string_of_nat c;
          body = (if 0 \<le> e then (if c = 0 then ''0'' else ds @ replicate (nat e) CHR ''0'')
                  else let places = nat (- e);
                           padded_digits = replicate (Suc places - length ds) CHR ''0'' @ ds;
                           n = length padded_digits - places
                       in take n padded_digits @ ''.'' @ drop n padded_digits)
      in if neg then ''-'' @ body else body)"

definition rstrip :: "char \<Rightarrow> string \<Rightarrow> string" where
  "rstrip ch s = List.rev (dropWhile (\<lambda>c. c = ch) (List.rev s))"

definition normalized_decimal :: "bool \<Rightarrow> nat \<Rightarrow> int \<Rightarrow> string" where
  "normalized_decimal neg c e =
     (let f = format_f neg c e;
          n = (if CHR ''.'' \<in> set f then rstrip CHR ''.'' (rstrip CHR ''0'' f) else f)
      in if n = ''-0'' \<or> n = [] then ''0'' else n)"

definition canonical_decimal :: "string \<Rightarrow> bool" where
  "canonical_decimal value =
     (case decimal_of value of Some (Fin neg c e) \<Rightarrow> value = normalized_decimal neg c e | _ \<Rightarrow> False)"

text \<open>Equality of decimals (\<open>==\<close>): a NaN is equal to nothing, and a negative zero to zero.\<close>

definition signed :: "bool \<Rightarrow> nat \<Rightarrow> int" where
  "signed neg c = (if neg then - int c else int c)"

fun decimal_eq :: "dec \<Rightarrow> dec \<Rightarrow> bool" where
  "decimal_eq (Fin s c e) (Fin s' c' e') =
     (let m = min e e' in signed s c * 10 ^ nat (e - m) = signed s' c' * 10 ^ nat (e' - m))"
| "decimal_eq (Infin s) (Infin s') = (s = s')"
| "decimal_eq _ _ = False"

section \<open>Expected scalars\<close>

datatype TaggedExpectedScalar = ExpNull | ExpBool bool | ExpInt int | ExpDecimal string | ExpStr string

definition CODE_WORDS :: "string list" where
  "CODE_WORDS = [''eval'', ''exec'', ''lambda'', ''function'']"

text \<open>\<open>_MQL_OR_CODE.search\<close>: an aggregation stage, or a code word at a word boundary followed by a parenthesis.\<close>

definition code_call_at :: "string \<Rightarrow> nat \<Rightarrow> bool" where
  "code_call_at s i \<longleftrightarrow>
     (i = 0 \<or> \<not> is_word_char (s ! (i - 1))) \<and>
     list_ex (\<lambda>kw. take (length kw) (drop i s) = kw \<and> take 1 (dropWhile is_space (drop (i + length kw) s)) = ''('') CODE_WORDS"

definition mql_or_code :: "string \<Rightarrow> bool" where
  "mql_or_code value =
     (let s = str_lower value
      in list_ex (\<lambda>m. str_in m s) [''$match'', ''$group'', ''$project''] \<or> list_ex (code_call_at s) [0..<length s])"

definition safe_text :: "string \<Rightarrow> bool" where
  "safe_text value \<longleftrightarrow> scan_raw_text value = None \<and> \<not> mql_or_code value"

definition MAX_EXPECTED_STRING_CHARS :: nat where "MAX_EXPECTED_STRING_CHARS = 2000"

fun expected_ok :: "TaggedExpectedScalar \<Rightarrow> bool" where
  "expected_ok (ExpDecimal s) = canonical_decimal s"
| "expected_ok (ExpStr s) = (length s \<le> MAX_EXPECTED_STRING_CHARS \<and> safe_text s)"
| "expected_ok _ = True"

fun expected_payload :: "TaggedExpectedScalar \<Rightarrow> jv" where
  "expected_payload ExpNull = vdict [(''kind'', VStr ''null''), (''value'', VNull)]"
| "expected_payload (ExpBool b) = vdict [(''kind'', VStr ''bool''), (''value'', VBool b)]"
| "expected_payload (ExpInt i) = vdict [(''kind'', VStr ''int''), (''value'', VInt i)]"
| "expected_payload (ExpDecimal s) = vdict [(''kind'', VStr ''decimal''), (''value'', VStr s)]"
| "expected_payload (ExpStr s) = vdict [(''kind'', VStr ''str''), (''value'', VStr s)]"

section \<open>Assertions and contracts\<close>

datatype SmokeAssertion =
    OutcomeAssertion (smoke_id: string) bool
  | ResultShapeAssertion (smoke_id: string) "string list"
  | RowCountAssertion (smoke_id: string) int int
  | ScalarEqualsAssertion (smoke_id: string) string nat TaggedExpectedScalar
  | IsNullAssertion (smoke_id: string) string nat bool
  | ErrorCodeAssertion (smoke_id: string) string

fun smoke_assertion_ok :: "SmokeAssertion \<Rightarrow> bool" where
  "smoke_assertion_ok (OutcomeAssertion i success) = identifier_ok i"
| "smoke_assertion_ok (ResultShapeAssertion i ids) =
     (identifier_ok i \<and> 1 \<le> length ids \<and> length ids \<le> 1000 \<and> distinct ids \<and> list_all identifier_ok ids)"
| "smoke_assertion_ok (RowCountAssertion i lo hi) =
     (identifier_ok i \<and> 0 \<le> lo \<and> lo \<le> 1000000 \<and> 0 \<le> hi \<and> hi \<le> 1000000 \<and> lo \<le> hi)"
| "smoke_assertion_ok (ScalarEqualsAssertion i sel row expected) =
     (identifier_ok i \<and> identifier_ok sel \<and> row \<le> 999 \<and> expected_ok expected)"
| "smoke_assertion_ok (IsNullAssertion i sel row expected) = (identifier_ok i \<and> identifier_ok sel \<and> row \<le> 999)"
| "smoke_assertion_ok (ErrorCodeAssertion i code) = (identifier_ok i \<and> identifier_ok code)"

fun smoke_assertion_payload :: "SmokeAssertion \<Rightarrow> jv" where
  "smoke_assertion_payload (OutcomeAssertion i success) = vdict
     [(''assertion_id'', VStr i), (''kind'', VStr ''outcome''), (''expected'', VStr (if success then ''success'' else ''error''))]"
| "smoke_assertion_payload (ResultShapeAssertion i ids) = vdict
     [(''assertion_id'', VStr i), (''kind'', VStr ''result_shape''), (''selection_ids'', VList (map VStr ids))]"
| "smoke_assertion_payload (RowCountAssertion i lo hi) = vdict
     [(''assertion_id'', VStr i), (''kind'', VStr ''row_count''), (''minimum'', VInt lo), (''maximum'', VInt hi)]"
| "smoke_assertion_payload (ScalarEqualsAssertion i sel row expected) = vdict
     [(''assertion_id'', VStr i), (''kind'', VStr ''scalar_equals''), (''selection_id'', VStr sel),
      (''row_index'', VInt (int row)), (''expected'', expected_payload expected)]"
| "smoke_assertion_payload (IsNullAssertion i sel row expected) = vdict
     [(''assertion_id'', VStr i), (''kind'', VStr ''is_null''), (''selection_id'', VStr sel),
      (''row_index'', VInt (int row)), (''expected'', VBool expected)]"
| "smoke_assertion_payload (ErrorCodeAssertion i code) = vdict
     [(''assertion_id'', VStr i), (''kind'', VStr ''error_code''), (''expected_code'', VStr code)]"

datatype SemanticContract =
    ExactProtectedResultContract (contract_id: string) string
  | ScalarEqualityContract (contract_id: string) string nat TaggedExpectedScalar
  | RowCountEqualityContract (contract_id: string) int
  | RowCountRangeContract (contract_id: string) int int
  | AggregateTotalContract (contract_id: string) string TaggedExpectedScalar
  | MappingOutcomeContract (contract_id: string) string TaggedExpectedScalar
  | NullBehaviorContract (contract_id: string) string nat bool
  | StructuredErrorCodeContract (contract_id: string) string

fun contract_ok :: "SemanticContract \<Rightarrow> bool" where
  "contract_ok (ExactProtectedResultContract i fp) = (identifier_ok i \<and> fingerprint_ok fp)"
| "contract_ok (ScalarEqualityContract i sel row expected) =
     (identifier_ok i \<and> identifier_ok sel \<and> row \<le> 999 \<and> expected_ok expected)"
| "contract_ok (RowCountEqualityContract i n) = (identifier_ok i \<and> 0 \<le> n \<and> n \<le> 1000000)"
| "contract_ok (RowCountRangeContract i lo hi) =
     (identifier_ok i \<and> 0 \<le> lo \<and> lo \<le> 1000000 \<and> 0 \<le> hi \<and> hi \<le> 1000000 \<and> lo \<le> hi)"
| "contract_ok (AggregateTotalContract i sel expected) = (identifier_ok i \<and> identifier_ok sel \<and> expected_ok expected)"
| "contract_ok (MappingOutcomeContract i sel expected) = (identifier_ok i \<and> identifier_ok sel \<and> expected_ok expected)"
| "contract_ok (NullBehaviorContract i sel row b) = (identifier_ok i \<and> identifier_ok sel \<and> row \<le> 999)"
| "contract_ok (StructuredErrorCodeContract i code) = (identifier_ok i \<and> identifier_ok code)"

fun contract_payload :: "SemanticContract \<Rightarrow> jv" where
  "contract_payload (ExactProtectedResultContract i fp) = vdict
     [(''assertion_id'', VStr i), (''kind'', VStr ''exact_protected_result''), (''expected_fingerprint'', VStr fp)]"
| "contract_payload (ScalarEqualityContract i sel row expected) = vdict
     [(''assertion_id'', VStr i), (''kind'', VStr ''scalar_equality''), (''selection_id'', VStr sel),
      (''row_index'', VInt (int row)), (''expected'', expected_payload expected)]"
| "contract_payload (RowCountEqualityContract i n) = vdict
     [(''assertion_id'', VStr i), (''kind'', VStr ''row_count_equality''), (''expected'', VInt n)]"
| "contract_payload (RowCountRangeContract i lo hi) = vdict
     [(''assertion_id'', VStr i), (''kind'', VStr ''row_count_range''), (''minimum'', VInt lo), (''maximum'', VInt hi)]"
| "contract_payload (AggregateTotalContract i sel expected) = vdict
     [(''assertion_id'', VStr i), (''kind'', VStr ''aggregate_total''), (''selection_id'', VStr sel),
      (''expected'', expected_payload expected)]"
| "contract_payload (MappingOutcomeContract i sel expected) = vdict
     [(''assertion_id'', VStr i), (''kind'', VStr ''mapping_outcome''), (''selection_id'', VStr sel),
      (''expected'', expected_payload expected)]"
| "contract_payload (NullBehaviorContract i sel row b) = vdict
     [(''assertion_id'', VStr i), (''kind'', VStr ''null_behavior''), (''selection_id'', VStr sel),
      (''row_index'', VInt (int row)), (''expected_null'', VBool b)]"
| "contract_payload (StructuredErrorCodeContract i code) = vdict
     [(''assertion_id'', VStr i), (''kind'', VStr ''structured_error_code''), (''expected_code'', VStr code)]"

fun contract_selection :: "SemanticContract \<Rightarrow> string option" where
  "contract_selection (ScalarEqualityContract i sel row expected) = Some sel"
| "contract_selection (AggregateTotalContract i sel expected) = Some sel"
| "contract_selection (MappingOutcomeContract i sel expected) = Some sel"
| "contract_selection (NullBehaviorContract i sel row b) = Some sel"
| "contract_selection _ = None"

section \<open>Cases and plans\<close>

record QueryCase =
  qc_id :: string
  qc_description :: string
  enabled :: bool
  qc_query :: SemanticQueryIR
  fixture_profile_id :: string
  deadline_ms :: int
  qc_capabilities :: "string list"

record SmokeQueryCase = QueryCase +
  smoke_assertions :: "SmokeAssertion list"

record SemanticContractCase = QueryCase +
  contracts :: "SemanticContract list"

definition capabilities_ok :: "string list \<Rightarrow> bool" where
  "capabilities_ok cs \<longleftrightarrow> length cs \<le> 64 \<and> distinct cs \<and> list_all identifier_ok cs"

definition query_case_ok :: "'a QueryCase_scheme \<Rightarrow> bool" where
  "query_case_ok c \<longleftrightarrow>
     identifier_ok (qc_id c) \<and> length (qc_description c) \<le> 512 \<and> safe_text (qc_description c) \<and>
     is_ok (new_SemanticQueryIR (qc_query c)) \<and> identifier_ok (fixture_profile_id c) \<and> 1 \<le> deadline_ms c \<and>
     deadline_ms c \<le> 300000 \<and> capabilities_ok (qc_capabilities c)"

definition smoke_case_ok :: "SmokeQueryCase \<Rightarrow> bool" where
  "smoke_case_ok c \<longleftrightarrow>
     query_case_ok c \<and> 1 \<le> length (smoke_assertions c) \<and> length (smoke_assertions c) \<le> 100 \<and>
     list_all smoke_assertion_ok (smoke_assertions c) \<and> distinct (map smoke_id (smoke_assertions c))"

definition semantic_case_ok :: "SemanticContractCase \<Rightarrow> bool" where
  "semantic_case_ok c \<longleftrightarrow>
     query_case_ok c \<and> 1 \<le> length (contracts c) \<and> length (contracts c) \<le> 100 \<and>
     list_all contract_ok (contracts c) \<and> distinct (map contract_id (contracts c))"

definition base_case_members :: "'a QueryCase_scheme \<Rightarrow> (string \<times> jv) list" where
  "base_case_members c =
     [(''case_id'', VStr (qc_id c)), (''description'', VStr (qc_description c)), (''enabled'', VBool (enabled c)),
      (''query'', ir_payload (qc_query c)), (''fixture_profile_id'', VStr (fixture_profile_id c)),
      (''deadline_ms'', VInt (deadline_ms c)),
      (''required_capabilities'', VList (map VStr (sort (qc_capabilities c))))]"

definition smoke_case_payload :: "SmokeQueryCase \<Rightarrow> jv" where
  "smoke_case_payload c = vdict
     (base_case_members c @
      [(''assertions'', VList (map smoke_assertion_payload (sort_key smoke_id (smoke_assertions c))))])"

definition semantic_case_payload :: "SemanticContractCase \<Rightarrow> jv" where
  "semantic_case_payload c = vdict
     (base_case_members c @ [(''contracts'', VList (map contract_payload (sort_key contract_id (contracts c))))])"

record Deadlines =
  case_ms :: int
  layer_ms :: int
  suite_ms :: int

definition deadlines_ok :: "Deadlines \<Rightarrow> bool" where
  "deadlines_ok d \<longleftrightarrow>
     1 \<le> case_ms d \<and> case_ms d \<le> 300000 \<and> 1 \<le> layer_ms d \<and> layer_ms d \<le> 900000 \<and> 1 \<le> suite_ms d \<and>
     suite_ms d \<le> 1800000 \<and> case_ms d \<le> layer_ms d \<and> layer_ms d \<le> suite_ms d"

record Plan =
  plan_profile :: string
  plan_version :: int
  deadlines :: Deadlines
  smoke_cases :: "SmokeQueryCase list"
  semantic_cases :: "SemanticContractCase list"

definition plan_case_ids :: "Plan \<Rightarrow> string list" where
  "plan_case_ids p = map qc_id (smoke_cases p) @ map qc_id (semantic_cases p)"

definition plan_ok :: "Plan \<Rightarrow> bool" where
  "plan_ok p \<longleftrightarrow>
     identifier_ok (plan_profile p) \<and> 1 \<le> plan_version p \<and> plan_version p \<le> 1000 \<and> deadlines_ok (deadlines p) \<and>
     length (smoke_cases p) \<le> 1000 \<and> list_all smoke_case_ok (smoke_cases p) \<and>
     length (semantic_cases p) \<le> 1000 \<and> list_all semantic_case_ok (semantic_cases p) \<and> distinct (plan_case_ids p)"

definition plan_payload :: "Plan \<Rightarrow> jv" where
  "plan_payload p = vdict
     [(''verification_version'', VInt 1), (''policy_profile'', VStr (plan_profile p)),
      (''policy_version'', VInt (plan_version p)),
      (''deadlines'', vdict [(''case_ms'', VInt (case_ms (deadlines p))), (''layer_ms'', VInt (layer_ms (deadlines p))),
                            (''suite_ms'', VInt (suite_ms (deadlines p)))]),
      (''smoke_cases'', VList (map smoke_case_payload (sort_key qc_id (smoke_cases p)))),
      (''semantic_cases'', VList (map semantic_case_payload (sort_key qc_id (semantic_cases p))))]"

definition plan_fingerprint :: "Plan \<Rightarrow> string" where
  "plan_fingerprint p = fingerprint_of (plan_payload p)"

end
