(* ===== verification/Assembly_Lifecycle.thy ===== *)
theory Assembly_Lifecycle
  imports Assembly_Model
begin

text \<open>
  The review and approval of semantic assemblies: \<^verbatim>\<open>src/nl2data_core/assembly/authorization.py\<close>,
  \<^verbatim>\<open>lifecycle.py\<close>, \<^verbatim>\<open>separation.py\<close> and \<^verbatim>\<open>store.py\<close>.

  The host's authorizer is an argument, a function from requests to decisions; so are the clock readings
  of review bindings and audit records.  The theory shows that drafts move only under an affirmative
  decision and the right role, that an approved draft is fully reviewed for exactly the payloads it holds,
  and that the store is a compare-and-swap on revisions.
\<close>

section \<open>Authorization\<close>

datatype LifecycleRole = AUTHOR | REVIEWER | APPROVER | PUBLISHER

datatype LifecycleAction =
    CREATE_DRAFT | EDIT_DRAFT | SUBMIT_FOR_REVIEW | REVIEW_ASSERTION | EDIT_ASSERTION | APPROVE_DRAFT
  | PUBLISH | ACTIVATE | ROLLBACK

record LifecycleAuthorizationContext =
  operator_reference :: string
  ctx_tenant_fp :: string
  ctx_lifecycle_source :: string
  ctx_roles :: "LifecycleRole fset"

record LifecycleAuthorizationRequest =
  request_context :: LifecycleAuthorizationContext
  required_role :: LifecycleRole
  request_action :: LifecycleAction
  request_resource :: string

record LifecycleAuthorizationDecision =
  decision_allowed :: bool
  decision_reason_code :: string

type_synonym authorizer = "LifecycleAuthorizationRequest \<Rightarrow> LifecycleAuthorizationDecision"

definition require_lifecycle_authorization ::
  "LifecycleAuthorizationContext \<Rightarrow> authorizer \<Rightarrow> LifecycleRole \<Rightarrow> LifecycleAction \<Rightarrow> string \<Rightarrow> unit asm" where
  "require_lifecycle_authorization ctx authorize role action resource =
     (if role |\<notin>| ctx_roles ctx then Inl (LifecycleAuthorizationError ''missing_lifecycle_role'')
      else if \<not> identifier_ok resource then Inl InvalidModel
      else (let dec = authorize \<lparr>request_context = ctx, required_role = role, request_action = action, request_resource = resource\<rparr>
            in if decision_allowed dec then Inr () else Inl (LifecycleAuthorizationError (decision_reason_code dec))))"

section \<open>Assertion decisions\<close>

datatype AssertionDecisionKind = APPROVE_ASSERTION | REJECT_ASSERTION | EDIT_ASSERTION_CONTENT

record AssertionDecisionRecord =
  rec_draft_id :: string
  rec_action :: AssertionDecisionKind
  rec_assertion_id :: string
  rec_resulting_id :: string
  rec_operator :: string
  rec_previous_hash :: string
  rec_resulting_hash :: string
  rec_previous_provenance :: AssertionProvenance
  rec_occurred_at :: timestamp
  rec_reason :: string

definition decision_record_valid :: "AssertionDecisionRecord \<Rightarrow> bool" where
  "decision_record_valid r \<longleftrightarrow>
     identifier_ok (rec_draft_id r) \<and> fingerprint_ok (rec_assertion_id r) \<and> fingerprint_ok (rec_resulting_id r) \<and>
     reference_text_ok (rec_operator r) \<and> fingerprint_ok (rec_previous_hash r) \<and> fingerprint_ok (rec_resulting_hash r) \<and>
     provenance_valid (rec_previous_provenance r) \<and> length (rec_reason r) \<le> 1024 \<and> safe_description (rec_reason r)"

definition target_assertion :: "AssemblyDraft \<Rightarrow> string \<Rightarrow> SemanticAssertion asm" where
  "target_assertion d aid =
     (if draft_state d \<noteq> REVIEW then Inl (RejectedValue ''assertion decisions require a draft in review'')
      else case List.find (\<lambda>a. assertion_id a = aid) (assertions d) of
             Some a \<Rightarrow> Inr a
           | None \<Rightarrow> Inl (RejectedValue (''unknown assertion id: '' @ aid)))"

definition replace_assertion ::
  "AssemblyDraft \<Rightarrow> int \<Rightarrow> SemanticAssertion \<Rightarrow> SemanticAssertion \<Rightarrow> AssertionDecisionKind \<Rightarrow> string \<Rightarrow> string \<Rightarrow> timestamp
    \<Rightarrow> (AssemblyDraft \<times> AssertionDecisionRecord) asm" where
  "replace_assertion d expected original replacement action operator reason now =
     bind_res (mutate d expected
                 [SetAssertions (map (\<lambda>a. if assertion_id a = assertion_id original then replacement else a) (assertions d))])
       (\<lambda>updated.
         let r = \<lparr>rec_draft_id = draft_id d, rec_action = action, rec_assertion_id = assertion_id original,
                  rec_resulting_id = assertion_id replacement, rec_operator = operator,
                  rec_previous_hash = payload_hash original, rec_resulting_hash = payload_hash replacement,
                  rec_previous_provenance = provenance original, rec_occurred_at = now, rec_reason = reason\<rparr>
         in if decision_record_valid r then Inr (updated, r) else Inl InvalidModel)"

definition provenance_stale :: "AssemblyDraft \<Rightarrow> SemanticAssertion \<Rightarrow> bool" where
  "provenance_stale d a \<longleftrightarrow>
     source_snapshot_fp d \<noteq> None \<and> prov_kind (provenance a) \<in> {DISCOVERED, INFERRED} \<and>
     prov_snapshot (provenance a) \<noteq> source_snapshot_fp d"

definition decide_assertion ::
  "AssemblyDraft \<Rightarrow> string \<Rightarrow> ReviewState \<Rightarrow> int \<Rightarrow> LifecycleAuthorizationContext \<Rightarrow> authorizer \<Rightarrow> string \<Rightarrow> timestamp
    \<Rightarrow> (AssemblyDraft \<times> AssertionDecisionRecord) asm" where
  "decide_assertion d aid decision expected ctx authorize reason now =
     bind_res (require_lifecycle_authorization ctx authorize REVIEWER REVIEW_ASSERTION (draft_id d)) (\<lambda>_.
     if decision = PENDING then Inl (RejectedValue ''assertion decisions must be approved or rejected'')
     else bind_res (target_assertion d aid) (\<lambda>original.
       if provenance_stale d original then
         Inl (RejectedValue ''assertion provenance is stale for the draft source snapshot'')
       else bind_res (bind_review original decision (operator_reference ctx) reason now) (\<lambda>replacement.
         replace_assertion d expected original replacement
           (if decision = APPROVED_REVIEW then APPROVE_ASSERTION else REJECT_ASSERTION) (operator_reference ctx) reason now)))"

definition edited_provenance :: "SemanticAssertion \<Rightarrow> AssertionProvenance" where
  "edited_provenance a =
     \<lparr>prov_kind = MANUAL,
      prov_source = (case prov_source (provenance a) of Some s \<Rightarrow> if s = [] then Some (''seed:'' @ assertion_id a) else Some s
                     | None \<Rightarrow> Some (''seed:'' @ assertion_id a)),
      prov_proposal = prov_proposal (provenance a), prov_snapshot = prov_snapshot (provenance a),
      prov_evidence = prov_evidence (provenance a), prov_method = prov_method (provenance a)\<rparr>"

definition edit_assertion ::
  "AssemblyDraft \<Rightarrow> string \<Rightarrow> jv \<Rightarrow> int \<Rightarrow> LifecycleAuthorizationContext \<Rightarrow> authorizer \<Rightarrow> string \<Rightarrow> timestamp
    \<Rightarrow> (AssemblyDraft \<times> AssertionDecisionRecord) asm" where
  "edit_assertion d aid pl expected ctx authorize reason now =
     bind_res (require_lifecycle_authorization ctx authorize REVIEWER EDIT_ASSERTION (draft_id d)) (\<lambda>_.
     bind_res (target_assertion d aid) (\<lambda>original.
     if \<not> provenance_valid (edited_provenance original) then Inl InvalidModel
     else bind_res (create_assertion (assertion_type original) pl (edited_provenance original)) (\<lambda>replacement.
       replace_assertion d expected original replacement EDIT_ASSERTION_CONTENT (operator_reference ctx) reason now)))"

section \<open>Draft transitions\<close>

datatype DraftLifecycleAction = SUBMIT_DRAFT | APPROVE_WHOLE_DRAFT

record DraftLifecycleRecord =
  life_draft_id :: string
  life_action :: DraftLifecycleAction
  life_operator :: string
  previous_revision :: int
  resulting_revision :: int
  life_occurred_at :: timestamp

definition lifecycle_record_valid :: "DraftLifecycleRecord \<Rightarrow> bool" where
  "lifecycle_record_valid r \<longleftrightarrow>
     identifier_ok (life_draft_id r) \<and> reference_text_ok (life_operator r) \<and> 0 \<le> previous_revision r \<and> 1 \<le> resulting_revision r"

definition transition_recorded ::
  "AssemblyDraft \<Rightarrow> int \<Rightarrow> AssemblyState \<Rightarrow> DraftLifecycleAction \<Rightarrow> string \<Rightarrow> timestamp
    \<Rightarrow> (AssemblyDraft \<times> DraftLifecycleRecord) asm" where
  "transition_recorded d expected st action operator now =
     bind_res (transition_draft d expected st) (\<lambda>d1.
     bind_res (validated_draft (case action of
                  SUBMIT_DRAFT \<Rightarrow> d1\<lparr>review_submitted_by := Some operator\<rparr>
                | APPROVE_WHOLE_DRAFT \<Rightarrow> d1\<lparr>approved_by := Some operator\<rparr>)) (\<lambda>updated.
     let r = \<lparr>life_draft_id = draft_id d, life_action = action, life_operator = operator,
              previous_revision = draft_revision d, resulting_revision = draft_revision updated, life_occurred_at = now\<rparr>
     in if lifecycle_record_valid r then Inr (updated, r) else Inl InvalidModel))"

definition submit_for_review ::
  "AssemblyDraft \<Rightarrow> int \<Rightarrow> LifecycleAuthorizationContext \<Rightarrow> authorizer \<Rightarrow> timestamp \<Rightarrow> (AssemblyDraft \<times> DraftLifecycleRecord) asm" where
  "submit_for_review d expected ctx authorize now =
     bind_res (require_lifecycle_authorization ctx authorize AUTHOR SUBMIT_FOR_REVIEW (draft_id d)) (\<lambda>_.
     transition_recorded d expected REVIEW SUBMIT_DRAFT (operator_reference ctx) now)"

definition approve_draft ::
  "AssemblyDraft \<Rightarrow> int \<Rightarrow> LifecycleAuthorizationContext \<Rightarrow> authorizer \<Rightarrow> timestamp \<Rightarrow> (AssemblyDraft \<times> DraftLifecycleRecord) asm" where
  "approve_draft d expected ctx authorize now =
     bind_res (require_lifecycle_authorization ctx authorize APPROVER APPROVE_DRAFT (draft_id d)) (\<lambda>_.
     transition_recorded d expected APPROVED APPROVE_WHOLE_DRAFT (operator_reference ctx) now)"

section \<open>Separation of duties\<close>

datatype SeparationOfDutiesMode = STRICT | REVIEW_APPROVAL_SPLIT | SOLO_WITH_WAIVER

record SeparationOfDutiesWaiver =
  waiver_reference :: string
  waiver_reason :: string
  overlapping_operators :: "string list"

record SeparationOfDutiesDecision =
  separation_allowed :: bool
  separation_mode :: SeparationOfDutiesMode
  separation_reason_code :: string
  separation_waiver :: "SeparationOfDutiesWaiver option"

definition MAX_REVIEWERS :: nat where "MAX_REVIEWERS = 64"

text \<open>\<open>*set(reviewer_references)\<close> appears only under \<open>count\<close>: its order cannot be observed.\<close>

definition overlapping_references :: "string \<Rightarrow> string list \<Rightarrow> string \<Rightarrow> string \<Rightarrow> string list" where
  "overlapping_references author reviewers approver publisher =
     (let roles = author # remdups reviewers @ [approver, publisher]
      in sorted_list_of_set (set (filter (\<lambda>r. 1 < count_list roles r) roles)))"

definition waiver_valid :: "SeparationOfDutiesWaiver \<Rightarrow> bool" where
  "waiver_valid w \<longleftrightarrow>
     reference_text_ok (waiver_reference w) \<and> 1 \<le> length (waiver_reason w) \<and> length (waiver_reason w) \<le> 1024 \<and>
     safe_description (waiver_reason w) \<and> 1 \<le> length (overlapping_operators w) \<and> length (overlapping_operators w) \<le> 4"

definition separation :: "bool \<Rightarrow> SeparationOfDutiesMode \<Rightarrow> string \<Rightarrow> SeparationOfDutiesDecision" where
  "separation ok mode code =
     \<lparr>separation_allowed = ok, separation_mode = mode, separation_reason_code = code, separation_waiver = None\<rparr>"

definition evaluate_separation_of_duties ::
  "SeparationOfDutiesMode \<Rightarrow> string \<Rightarrow> string list \<Rightarrow> string \<Rightarrow> string \<Rightarrow> string option \<Rightarrow> string option
    \<Rightarrow> SeparationOfDutiesDecision asm" where
  "evaluate_separation_of_duties mode author reviewers approver publisher w_ref w_reason =
     (if reviewers = [] then Inr (separation False mode ''reviewer_required'')
      else if MAX_REVIEWERS < length reviewers then
        Inl (RejectedValue (''reviewer references are limited to '' @ string_of_nat MAX_REVIEWERS))
      else
        (let overlaps = overlapping_references author reviewers approver publisher
         in case mode of
              STRICT \<Rightarrow> Inr (separation (overlaps = []) mode (if overlaps = [] then ''authorized'' else ''role_overlap''))
            | REVIEW_APPROVAL_SPLIT \<Rightarrow>
                Inr (separation (approver \<notin> set reviewers) mode
                       (if approver \<notin> set reviewers then ''authorized'' else ''review_approval_overlap''))
            | SOLO_WITH_WAIVER \<Rightarrow>
                if overlaps = [] then Inr (separation True mode ''authorized'')
                else (case (w_ref, w_reason) of
                        (Some ref, Some why) \<Rightarrow>
                          (let w = \<lparr>waiver_reference = ref, waiver_reason = why, overlapping_operators = overlaps\<rparr>
                           in if waiver_valid w
                              then Inr \<lparr>separation_allowed = True, separation_mode = mode,
                                        separation_reason_code = ''waiver_applied'', separation_waiver = Some w\<rparr>
                              else Inl InvalidModel)
                      | _ \<Rightarrow> Inr (separation False mode ''waiver_required''))))"

section \<open>The draft store\<close>

record draft_store =
  max_drafts :: nat
  drafts :: "(string \<times> string, AssemblyDraft) dict"

definition new_draft_store :: "int \<Rightarrow> draft_store asm" where
  "new_draft_store cap =
     (if cap < 1 then Inl (RejectedValue ''max_drafts must be positive'') else Inr \<lparr>max_drafts = nat cap, drafts = []\<rparr>)"

definition store_create :: "draft_store \<Rightarrow> AssemblyDraft \<Rightarrow> string \<Rightarrow> draft_store asm" where
  "store_create s d tenant =
     (if dict_get (drafts s) (tenant, draft_id d) \<noteq> None then
        Inl (RejectedValue (''assembly draft '' @ quoted (draft_id d) @ '' already exists''))
      else if max_drafts s \<le> length (drafts s) then Inl (RejectedValue ''assembly draft store capacity exceeded'')
      else Inr (s\<lparr>drafts := dict_set (tenant, draft_id d) d (drafts s)\<rparr>))"

definition store_get :: "draft_store \<Rightarrow> string \<Rightarrow> string \<Rightarrow> AssemblyDraft option" where
  "store_get s did tenant = dict_get (drafts s) (tenant, did)"

definition store_replace :: "draft_store \<Rightarrow> AssemblyDraft \<Rightarrow> int \<Rightarrow> string \<Rightarrow> draft_store asm" where
  "store_replace s d expected tenant =
     (case dict_get (drafts s) (tenant, draft_id d) of
        None \<Rightarrow> Inl (RejectedValue (''assembly draft '' @ quoted (draft_id d) @ '' does not exist''))
      | Some current \<Rightarrow>
          bind_res (require_revision current expected) (\<lambda>_.
          if draft_revision d \<noteq> expected + 1 then Inl (DraftRevisionConflict (expected + 1) (draft_revision d))
          else Inr (s\<lparr>drafts := dict_set (tenant, draft_id d) d (drafts s)\<rparr>)))"

section \<open>Validity\<close>

lemma validated_draft_ok [simp]: "validated_draft d = Inr d' \<longleftrightarrow> draft_valid d \<and> d' = d"
  by (auto simp: validated_draft_def)

lemma validated_assertion_ok [simp]: "validated_assertion a = Inr a' \<longleftrightarrow> assertion_valid a \<and> a' = a"
  by (auto simp: validated_assertion_def)

lemma require_revision_ok [simp]: "require_revision d n = Inr u \<longleftrightarrow> n = draft_revision d"
  by (auto simp: require_revision_def)

lemma require_lifecycle_ok:
  "require_lifecycle_authorization ctx authorize role action resource = Inr u \<longleftrightarrow>
     role |\<in>| ctx_roles ctx \<and> identifier_ok resource \<and>
     decision_allowed (authorize \<lparr>request_context = ctx, required_role = role, request_action = action, request_resource = resource\<rparr>)"
  by (auto simp: require_lifecycle_authorization_def Let_def)

text \<open>A payload that can be frozen is JSON-safe: its hash is always defined.\<close>

lemma payload_ok_safe: "payload_ok n v \<Longrightarrow> json_safe v"
proof (induction n v rule: payload_ok.induct)
  case (1 depth items)
  then have "json_safe v \<and> (\<exists>s. k = KStr s)" if "(k, v) \<in> set items" for k v
    using that by (cases k) (fastforce simp: list_all_iff)+
  then show ?case by (fastforce simp: list_all_iff)
qed (auto simp: list_all_iff)

lemma reviewed_iff_bound: "assertion_valid a \<Longrightarrow> review_state a \<noteq> PENDING \<longleftrightarrow> has_valid_review_binding a"
  by (auto simp: assertion_valid_def has_valid_review_binding_def split: option.splits)

section \<open>Mutations keep approved drafts reviewed\<close>

definition all_reviewed :: "AssemblyDraft \<Rightarrow> bool" where
  "all_reviewed d \<longleftrightarrow> (\<forall>a \<in> set (assertions d). review_state a \<noteq> PENDING \<and> has_valid_review_binding a)"

definition draft_inv :: "AssemblyDraft \<Rightarrow> bool" where
  "draft_inv d \<longleftrightarrow> draft_valid d \<and> (draft_state d = APPROVED \<longrightarrow> all_reviewed d)"

lemma apply_change_keeps [simp]:
  "draft_state (apply_change c d) = draft_state d" "draft_revision (apply_change c d) = draft_revision d"
  by (cases c; simp)+

lemma fold_change_keeps [simp]:
  "draft_state (fold apply_change cs d) = draft_state d"
  by (induction cs arbitrary: d) simp_all

lemma mutate_ok:
  assumes "mutate d n changes = Inr d'"
  shows "n = draft_revision d \<and>
    (d' = d \<or>
     draft_revision d' = draft_revision d + 1 \<and> draft_valid d' \<and>
     (draft_state d = APPROVED \<longrightarrow> changes = [] \<and> d' = d\<lparr>draft_revision := draft_revision d + 1\<rparr> \<or> draft_state d' = REVIEW) \<and>
     (draft_state d \<noteq> APPROVED \<longrightarrow> draft_state d' = draft_state d))"
proof -
  have "plan_changed d [] = False" by (simp add: plan_changed_def)
  then show ?thesis using assms
    by (auto simp: mutate_def bind_res_Inr_iff Let_def only_plan_def split: if_splits)
qed

lemma mutate_inv: "draft_inv d \<Longrightarrow> mutate d n changes = Inr d' \<Longrightarrow> draft_inv d'"
  using mutate_ok [of d n changes d'] by (auto simp: draft_inv_def all_reviewed_def)

lemma transition_draft_ok:
  assumes "transition_draft d n st = Inr d'"
  shows "n = draft_revision d \<and> draft_revision d' = draft_revision d + 1 \<and> draft_state d' = st \<and> draft_valid d' \<and>
    assertions d' = assertions d \<and> st \<in> set (allowed_states (draft_state d)) \<and> (st = APPROVED \<longrightarrow> all_reviewed d')"
  using assms
  by (auto simp: transition_draft_def bind_res_Inr_iff all_reviewed_def list_ex_iff split: if_splits)

lemma transition_recorded_ok:
  assumes "transition_recorded d n st action operator now = Inr (d', r)"
  shows "n = draft_revision d \<and> draft_revision d' = draft_revision d + 1 \<and> draft_state d' = st \<and> draft_valid d' \<and>
    assertions d' = assertions d \<and> st \<in> set (allowed_states (draft_state d)) \<and> (st = APPROVED \<longrightarrow> all_reviewed d') \<and>
    previous_revision r = draft_revision d \<and> resulting_revision r = draft_revision d'"
proof -
  obtain d1 where d1: "transition_draft d n st = Inr d1" "draft_valid d'" "assertions d' = assertions d1"
      "draft_state d' = draft_state d1" "draft_revision d' = draft_revision d1"
      "previous_revision r = draft_revision d" "resulting_revision r = draft_revision d'"
    using assms
    by (cases action) (auto simp: transition_recorded_def bind_res_Inr_iff Let_def split: if_splits)
  with transition_draft_ok [OF d1(1)] show ?thesis by (auto simp: all_reviewed_def)
qed

lemma replace_assertion_ok:
  assumes "replace_assertion d n a a' action operator reason now = Inr (d', r)"
  shows "mutate d n [SetAssertions (map (\<lambda>x. if assertion_id x = assertion_id a then a' else x) (assertions d))] = Inr d'"
  using assms by (auto simp: replace_assertion_def bind_res_Inr_iff Let_def split: if_splits)

inductive draft_step :: "AssemblyDraft \<Rightarrow> AssemblyDraft \<Rightarrow> bool" where
  step_mutate: "mutate d n changes = Inr d' \<Longrightarrow> draft_step d d'"
| step_transition: "transition_draft d n st = Inr d' \<Longrightarrow> draft_step d d'"
| step_decide: "decide_assertion d aid decision n ctx authorize reason now = Inr (d', r) \<Longrightarrow> draft_step d d'"
| step_edit: "edit_assertion d aid pl n ctx authorize reason now = Inr (d', r) \<Longrightarrow> draft_step d d'"
| step_submit: "submit_for_review d n ctx authorize now = Inr (d', lr) \<Longrightarrow> draft_step d d'"
| step_approve: "approve_draft d n ctx authorize now = Inr (d', lr) \<Longrightarrow> draft_step d d'"

definition draft_init :: "AssemblyDraft \<Rightarrow> bool" where
  "draft_init d \<longleftrightarrow> draft_valid d \<and> draft_state d = DRAFT"

lemma decide_mutates:
  "decide_assertion d aid decision n ctx authorize reason now = Inr (d', r) \<Longrightarrow> \<exists>changes. mutate d n changes = Inr d'"
  by (auto simp: decide_assertion_def bind_res_Inr_iff split: if_splits dest!: replace_assertion_ok)

lemma edit_mutates:
  "edit_assertion d aid pl n ctx authorize reason now = Inr (d', r) \<Longrightarrow> \<exists>changes. mutate d n changes = Inr d'"
  by (auto simp: edit_assertion_def bind_res_Inr_iff split: if_splits dest!: replace_assertion_ok)

lemma draft_step_inv: "draft_step d d' \<Longrightarrow> draft_inv d \<Longrightarrow> draft_inv d'"
proof (induction rule: draft_step.induct)
  case (step_mutate d n changes d')
  then show ?case by (blast intro: mutate_inv)
next
  case (step_transition d n st d')
  then show ?case using transition_draft_ok by (fastforce simp: draft_inv_def)
next
  case (step_decide d aid decision n ctx authorize reason now d' r)
  then show ?case using decide_mutates mutate_inv by blast
next
  case (step_edit d aid pl n ctx authorize reason now d' r)
  then show ?case using edit_mutates mutate_inv by blast
next
  case (step_submit d n ctx authorize now d' lr)
  then show ?case using transition_recorded_ok by (fastforce simp: draft_inv_def submit_for_review_def bind_res_Inr_iff)
next
  case (step_approve d n ctx authorize now d' lr)
  then show ?case using transition_recorded_ok by (fastforce simp: draft_inv_def approve_draft_def bind_res_Inr_iff)
qed

interpretation draft_sys: safe_system draft_init draft_step draft_inv
proof unfold_locales
  show "draft_init d \<Longrightarrow> draft_inv d" for d by (simp add: draft_init_def draft_inv_def)
  show "draft_inv d \<Longrightarrow> draft_step d d' \<Longrightarrow> draft_inv d'" for d d' by (rule draft_step_inv)
qed

section \<open>Properties\<close>

text \<open>
  C14.  An approved draft is fully reviewed: whatever sequence of mutations, decisions, edits and
  transitions led to it, every assertion of an approved draft carries a decision bound to the hash of
  exactly the payload it holds, and the plan fingerprint recorded with the approval is that of its plan.
\<close>

theorem approved_draft_fully_reviewed:
  assumes "reachable draft_init draft_step d" and "draft_state d = APPROVED"
  shows "(\<forall>a \<in> set (assertions d). review_state a \<noteq> PENDING \<and>
            (\<exists>b. review_binding a = Some b \<and> bound_payload_hash b = payload_hash a)) \<and>
    approved_plan_fp d = map_option vp_fingerprint (verification_plan d)"
  using draft_sys.reachable_inv [OF assms(1)] assms(2)
  by (auto simp: draft_inv_def all_reviewed_def has_valid_review_binding_def draft_valid_def expected_plan_fp_def
      elim!: option.set_cases)

text \<open>
  C29.  Lifecycle operations are guarded by the revision they observed: each of them succeeds only when the
  expected revision is the current one and then produces the next revision, so of two writers that read
  the same revision the second is always refused.
\<close>

theorem lifecycle_revision_guarded:
  "(mutate d n changes = Inr d' \<longrightarrow> n = draft_revision d \<and> (d' = d \<or> draft_revision d' = n + 1)) \<and>
   (decide_assertion d aid decision n ctx authorize reason now = Inr (d', r) \<longrightarrow>
      n = draft_revision d \<and> draft_revision d' = n + 1) \<and>
   (edit_assertion d aid pl n ctx authorize reason now = Inr (d', r) \<longrightarrow>
      n = draft_revision d \<and> draft_revision d' = n + 1) \<and>
   (submit_for_review d n ctx authorize now = Inr (d', lr) \<longrightarrow> n = draft_revision d \<and> draft_revision d' = n + 1) \<and>
   (approve_draft d n ctx authorize now = Inr (d', lr) \<longrightarrow> n = draft_revision d \<and> draft_revision d' = n + 1)"
proof -
  have plain: "n = draft_revision d \<and> draft_revision d' = n + 1" if "mutate d n [SetAssertions xs] = Inr d'" for xs
    using that by (auto simp: mutate_def bind_res_Inr_iff Let_def only_plan_def split: if_splits)
  have "mutate d n changes = Inr d' \<longrightarrow> n = draft_revision d \<and> (d' = d \<or> draft_revision d' = n + 1)"
    using mutate_ok [of d n changes d'] by auto
  moreover have "decide_assertion d aid decision n ctx authorize reason now = Inr (d', r) \<longrightarrow>
      n = draft_revision d \<and> draft_revision d' = n + 1"
    using plain replace_assertion_ok
    by (fastforce simp: decide_assertion_def bind_res_Inr_iff split: if_splits)
  moreover have "edit_assertion d aid pl n ctx authorize reason now = Inr (d', r) \<longrightarrow>
      n = draft_revision d \<and> draft_revision d' = n + 1"
    using plain replace_assertion_ok by (fastforce simp: edit_assertion_def bind_res_Inr_iff split: if_splits)
  moreover have "submit_for_review d n ctx authorize now = Inr (d', lr) \<longrightarrow> n = draft_revision d \<and> draft_revision d' = n + 1"
    using transition_recorded_ok by (fastforce simp: submit_for_review_def bind_res_Inr_iff)
  moreover have "approve_draft d n ctx authorize now = Inr (d', lr) \<longrightarrow> n = draft_revision d \<and> draft_revision d' = n + 1"
    using transition_recorded_ok by (fastforce simp: approve_draft_def bind_res_Inr_iff)
  ultimately show ?thesis by blast
qed

text \<open>
  An edit invalidates the review it replaces: after a successful edit the assertion holds the new
  payload, is pending again under manual provenance, every other assertion is unchanged, and the draft
  cannot be approved until it is reviewed again.
\<close>

theorem edit_invalidates_review:
  assumes "edit_assertion d aid pl n ctx authorize reason now = Inr (d', r)"
  shows "\<exists>a a'. a \<in> set (assertions d) \<and> assertion_id a = aid \<and>
    assertions d' = map (\<lambda>x. if assertion_id x = aid then a' else x) (assertions d) \<and>
    assertion_payload a' = pl \<and> review_state a' = PENDING \<and> prov_kind (provenance a') = MANUAL \<and>
    (\<exists>e. approve_draft d' m ctx' authorize' now' = Inl e)"
proof -
  obtain a a' where a: "target_assertion d aid = Inr a"
      and new: "create_assertion (assertion_type a) pl (edited_provenance a) = Inr a'"
      and mut: "mutate d n [SetAssertions (map (\<lambda>x. if assertion_id x = assertion_id a then a' else x) (assertions d))] = Inr d'"
    using assms by (auto simp: edit_assertion_def bind_res_Inr_iff split: if_splits dest!: replace_assertion_ok)
  have found: "a \<in> set (assertions d)" "assertion_id a = aid"
    using a by (auto simp: target_assertion_def find_Some_iff split: if_splits option.splits)
  have pending: "assertion_payload a' = pl" "review_state a' = PENDING" "prov_kind (provenance a') = MANUAL"
    using new by (auto simp: create_assertion_def bind_res_Inr_iff edited_provenance_def)
  have list: "assertions d' = map (\<lambda>x. if assertion_id x = aid then a' else x) (assertions d)"
    using mut found(2) by (auto simp: mutate_def bind_res_Inr_iff Let_def only_plan_def plan_changed_def split: if_splits)
  then have "a' \<in> set (assertions d')" using found by force
  then have "\<not> all_reviewed d'" using pending(2) by (auto simp: all_reviewed_def)
  then have "approve_draft d' m ctx' authorize' now' \<noteq> Inr (d2, r2)" for d2 r2
    using transition_recorded_ok [of d' m APPROVED _ _ _ d2 r2]
    by (fastforce simp: approve_draft_def bind_res_Inr_iff all_reviewed_def)
  then have "\<exists>e. approve_draft d' m ctx' authorize' now' = Inl e" by (metis old.prod.exhaust old.sum.exhaust)
  with found list pending show ?thesis by blast
qed

text \<open>
  No lifecycle operation succeeds without the operator's role and an affirmative decision of the host
  for that action on that draft.
\<close>

theorem lifecycle_requires_authorization:
  "(decide_assertion d aid decision n ctx authorize reason now = Inr out \<longrightarrow> REVIEWER |\<in>| ctx_roles ctx \<and>
      decision_allowed (authorize \<lparr>request_context = ctx, required_role = REVIEWER, request_action = REVIEW_ASSERTION,
        request_resource = draft_id d\<rparr>)) \<and>
   (edit_assertion d aid pl n ctx authorize reason now = Inr out \<longrightarrow> REVIEWER |\<in>| ctx_roles ctx \<and>
      decision_allowed (authorize \<lparr>request_context = ctx, required_role = REVIEWER, request_action = EDIT_ASSERTION,
        request_resource = draft_id d\<rparr>)) \<and>
   (submit_for_review d n ctx authorize now = Inr out' \<longrightarrow> AUTHOR |\<in>| ctx_roles ctx \<and>
      decision_allowed (authorize \<lparr>request_context = ctx, required_role = AUTHOR, request_action = SUBMIT_FOR_REVIEW,
        request_resource = draft_id d\<rparr>)) \<and>
   (approve_draft d n ctx authorize now = Inr out' \<longrightarrow> APPROVER |\<in>| ctx_roles ctx \<and>
      decision_allowed (authorize \<lparr>request_context = ctx, required_role = APPROVER, request_action = APPROVE_DRAFT,
        request_resource = draft_id d\<rparr>))"
  unfolding decide_assertion_def edit_assertion_def submit_for_review_def approve_draft_def
  by (auto simp: bind_res_Inr_iff require_lifecycle_ok)

lemma distinct_count: "distinct xs \<Longrightarrow> count_list xs r = (if r \<in> set xs then 1 else 0)"
  by (induction xs) auto

lemma no_overlaps:
  "overlapping_references author reviewers approver publisher = [] \<longleftrightarrow>
     distinct [author, approver, publisher] \<and> set reviewers \<inter> {author, approver, publisher} = {}"
proof -
  have one: "count_list (remdups reviewers) r = (if r \<in> set reviewers then 1 else 0)" for r
    by (simp add: distinct_count)
  show ?thesis
    unfolding overlapping_references_def Let_def sorted_list_of_set_eq_Nil_iff [OF finite_set]
    by (auto simp: filter_empty_conv one)
qed

text \<open>
  Separation of duties: in strict mode publication is allowed exactly when there is a reviewer and the
  author, the approver, the publisher and the reviewers are pairwise different operators; in the solo
  mode an overlap is allowed only with a recorded waiver that names all overlapping operators.
\<close>

theorem separation_of_duties_exact:
  assumes "evaluate_separation_of_duties mode author reviewers approver publisher w_ref w_reason = Inr dec"
  shows "(mode = STRICT \<longrightarrow> (separation_allowed dec \<longleftrightarrow>
      reviewers \<noteq> [] \<and> distinct [author, approver, publisher] \<and> set reviewers \<inter> {author, approver, publisher} = {})) \<and>
    (mode = REVIEW_APPROVAL_SPLIT \<longrightarrow> (separation_allowed dec \<longleftrightarrow> reviewers \<noteq> [] \<and> approver \<notin> set reviewers)) \<and>
    (mode = SOLO_WITH_WAIVER \<and> separation_allowed dec \<longrightarrow>
      (distinct [author, approver, publisher] \<and> set reviewers \<inter> {author, approver, publisher} = {}) \<or>
      (\<exists>w. separation_waiver dec = Some w \<and>
         overlapping_operators w = overlapping_references author reviewers approver publisher))"
  using assms no_overlaps [of author reviewers approver publisher]
  by (cases mode)
     (auto simp: evaluate_separation_of_duties_def separation_def Let_def split: if_splits option.splits)

text \<open>
  The draft store is a compare-and-swap: a replacement succeeds only on the revision it names and
  stores the next one, leaves every other draft alone, and makes any other replacement from the same
  revision fail.
\<close>

theorem draft_store_compare_and_swap:
  assumes "store_replace s d n tenant = Inr s'"
  shows "(\<exists>old. store_get s (draft_id d) tenant = Some old \<and> draft_revision old = n) \<and> draft_revision d = n + 1 \<and>
    store_get s' (draft_id d) tenant = Some d \<and>
    (\<forall>did t. (t, did) \<noteq> (tenant, draft_id d) \<longrightarrow> store_get s' did t = store_get s did t) \<and>
    (\<forall>d2. draft_id d2 = draft_id d \<longrightarrow> store_replace s' d2 n tenant = Inl (DraftRevisionConflict n (n + 1)))"
  using assms
  by (auto simp: store_replace_def store_get_def bind_res_Inr_iff require_revision_def split: option.splits if_splits)

section \<open>A concrete review\<close>

definition sample_identity :: jv where
  "sample_identity = VDict [(KStr ''descriptor_id'', VStr ''d''), (KStr ''entity_id'', VStr ''orders'')]"

definition sample_provenance :: AssertionProvenance where
  "sample_provenance =
     \<lparr>prov_kind = LLM_SUGGESTED, prov_source = Some ''mdl'', prov_proposal = None, prov_snapshot = None, prov_evidence = None,
      prov_method = None\<rparr>"

definition sample_assertion_id :: string where
  "sample_assertion_id = fingerprint_of (vdict [(''assertion_type'', VStr ''entity''),
     (''identity'', vdict [(''descriptor_id'', VStr ''d''), (''entity_id'', VStr ''orders'')])])"

definition sample_assertion :: SemanticAssertion where
  "sample_assertion =
     \<lparr>assertion_id = sample_assertion_id, assertion_type = ENTITY, assertion_payload = sample_identity,
      provenance = sample_provenance, review_state = PENDING, review_binding = None\<rparr>"

definition authored_draft :: AssemblyDraft where
  "authored_draft =
     \<lparr>draft_id = ''a1'', draft_bundle_id = ''b1'', draft_source_id = ''sales'', model_version = ''v1'', draft_state = DRAFT,
      draft_revision = 0, assertions = [sample_assertion], deployment_bindings = [], author_reference = ''ann'',
      review_submitted_by = None, approved_by = None, verification_plan = None, approved_plan_fp = None,
      source_snapshot_fp = None, authoring_description = None, authoring_metadata = VNull\<rparr>"

definition operator :: "string \<Rightarrow> LifecycleAuthorizationContext" where
  "operator name =
     \<lparr>operator_reference = name, ctx_tenant_fp = tenant_a, ctx_lifecycle_source = ''sales'',
      ctx_roles = {|AUTHOR, REVIEWER, APPROVER|}\<rparr>"

definition permissive :: authorizer where
  "permissive req = \<lparr>decision_allowed = True, decision_reason_code = ''authorized''\<rparr>"

definition sample_review :: ReviewBinding where
  "sample_review =
     \<lparr>bound_payload_hash = payload_hash sample_assertion, reviewer_reference = ''rob'', reviewed_at = 7, review_reason = []\<rparr>"

definition reviewed_assertion :: SemanticAssertion where
  "reviewed_assertion = sample_assertion\<lparr>review_state := APPROVED_REVIEW, review_binding := Some sample_review\<rparr>"

definition submitted_draft :: AssemblyDraft where
  "submitted_draft = authored_draft\<lparr>draft_state := REVIEW, draft_revision := 1, review_submitted_by := Some ''ann''\<rparr>"

definition reviewed_draft :: AssemblyDraft where
  "reviewed_draft = submitted_draft\<lparr>assertions := [reviewed_assertion], draft_revision := 2\<rparr>"

definition approved_draft :: AssemblyDraft where
  "approved_draft = reviewed_draft\<lparr>draft_state := APPROVED, draft_revision := 3, approved_by := Some ''eve''\<rparr>"

lemma short_text_safe [simp]: "safe_description ''ann''" "safe_description ''rob''" "safe_description ''eve''" "safe_description []"
    "safe_description ''mdl''"
  by code_simp+

lemma sample_derived: "derive_assertion_id ENTITY sample_identity = Inr sample_assertion_id"
  by (simp add: derive_assertion_id_def assertion_identity_payload_def identity_string_def sample_identity_def
      sample_assertion_id_def)

lemma sample_assertion_valid: "assertion_valid sample_assertion" "assertion_valid reviewed_assertion"
proof -
  have base: "fingerprint_ok sample_assertion_id" "freezable sample_identity" "provenance_valid sample_provenance"
      "\<exists>items. sample_identity = VDict items \<and> items \<noteq> []"
    by (simp_all add: sample_assertion_id_def freezable_def sample_identity_def provenance_valid_def sample_provenance_def
        reference_text_ok_def MAX_PAYLOAD_ITEMS_def MAX_PAYLOAD_DEPTH_def MAX_PAYLOAD_TEXT_CHARS_def)
  then show "assertion_valid sample_assertion"
    by (simp add: assertion_valid_def sample_assertion_def sample_derived)
  have "review_binding_valid sample_review" "bound_payload_hash sample_review = payload_hash reviewed_assertion"
    by (simp_all add: review_binding_valid_def sample_review_def reference_text_ok_def payload_hash_def reviewed_assertion_def)
  then show "assertion_valid reviewed_assertion"
    using base by (simp add: assertion_valid_def reviewed_assertion_def sample_assertion_def sample_derived)
qed

lemma sample_drafts_valid: "draft_valid authored_draft" "draft_valid submitted_draft" "draft_valid reviewed_draft"
    "draft_valid approved_draft"
  using sample_assertion_valid
  by (simp_all add: draft_valid_def authored_draft_def submitted_draft_def reviewed_draft_def approved_draft_def
      identifier_ok_def char_class_defs MAX_REVISION_def MAX_ASSERTIONS_def MAX_DEPLOYMENT_BINDINGS_def
      reference_text_ok_def expected_plan_fp_def)

lemma operator_authorized:
  "role |\<in>| {|AUTHOR, REVIEWER, APPROVER|} \<Longrightarrow>
   require_lifecycle_authorization (operator name) permissive role action ''a1'' = Inr ()"
  by (auto simp: require_lifecycle_ok operator_def permissive_def identifier_ok_def char_class_defs)

lemma draft_fields [simp]:
  "draft_id authored_draft = ''a1''" "draft_id submitted_draft = ''a1''" "draft_id reviewed_draft = ''a1''"
  "draft_revision authored_draft = 0" "draft_revision submitted_draft = 1" "draft_revision reviewed_draft = 2"
  "draft_state authored_draft = DRAFT" "draft_state submitted_draft = REVIEW" "draft_state reviewed_draft = REVIEW"
  "assertions submitted_draft = [sample_assertion]" "assertions reviewed_draft = [reviewed_assertion]"
  "operator_reference (operator name) = name" "source_snapshot_fp submitted_draft = None"
  by (simp_all add: authored_draft_def submitted_draft_def reviewed_draft_def operator_def)

lemma sample_submitted: "\<exists>lr. submit_for_review authored_draft 0 (operator ''ann'') permissive 5 = Inr (submitted_draft, lr)"
proof -
  have "transition_draft authored_draft 0 REVIEW = Inr (submitted_draft\<lparr>review_submitted_by := None\<rparr>)"
    using sample_drafts_valid(2)
    by (auto simp: transition_draft_def require_revision_def validated_draft_def draft_valid_def expected_plan_fp_def
        submitted_draft_def authored_draft_def)
  then show ?thesis
    using sample_drafts_valid(2) unfolding submit_for_review_def transition_recorded_def
    by (simp add: operator_authorized Let_def lifecycle_record_valid_def reference_text_ok_def identifier_ok_def
        char_class_defs) (simp add: validated_draft_def submitted_draft_def authored_draft_def)
qed

lemma sample_decided:
  "\<exists>r. decide_assertion submitted_draft sample_assertion_id APPROVED_REVIEW 1 (operator ''rob'') permissive [] 7 =
     Inr (reviewed_draft, r)"
proof -
  have target: "target_assertion submitted_draft sample_assertion_id = Inr sample_assertion"
    by (simp add: target_assertion_def sample_assertion_def)
  have bound: "bind_review sample_assertion APPROVED_REVIEW ''rob'' [] 7 = Inr reviewed_assertion"
    using sample_assertion_valid(2)
    by (simp add: bind_review_def Let_def review_binding_valid_def reference_text_ok_def payload_hash_def
        reviewed_assertion_def sample_review_def)
  have mut: "mutate submitted_draft 1 [SetAssertions [reviewed_assertion]] = Inr reviewed_draft"
    using sample_drafts_valid(3)
    by (simp add: mutate_def require_revision_def only_plan_def plan_changed_def protected_changes_def unknown_changes_def
        Let_def reviewed_draft_def)
  have "\<not> provenance_stale submitted_draft sample_assertion" by (simp add: provenance_stale_def)
  with target bound mut show ?thesis
    unfolding decide_assertion_def replace_assertion_def
    by (simp add: operator_authorized Let_def decision_record_valid_def reference_text_ok_def identifier_ok_def
        char_class_defs payload_hash_def sample_assertion_def reviewed_assertion_def sample_assertion_id_def
        provenance_valid_def sample_provenance_def)
qed

lemma sample_approved: "\<exists>lr. approve_draft reviewed_draft 2 (operator ''eve'') permissive 9 = Inr (approved_draft, lr)"
proof -
  have "has_valid_review_binding reviewed_assertion" "review_state reviewed_assertion \<noteq> PENDING"
    using reviewed_iff_bound [OF sample_assertion_valid(2)] by (simp_all add: reviewed_assertion_def)
  then have "transition_draft reviewed_draft 2 APPROVED = Inr (approved_draft\<lparr>approved_by := None\<rparr>)"
    using sample_drafts_valid(4)
    by (auto simp: transition_draft_def require_revision_def validated_draft_def draft_valid_def expected_plan_fp_def
        approved_draft_def reviewed_draft_def submitted_draft_def authored_draft_def)
  then show ?thesis
    using sample_drafts_valid(4) unfolding approve_draft_def transition_recorded_def
    by (simp add: operator_authorized Let_def lifecycle_record_valid_def reference_text_ok_def identifier_ok_def
        char_class_defs)
       (simp add: validated_draft_def approved_draft_def reviewed_draft_def submitted_draft_def authored_draft_def)
qed

lemma approved_draft_reachable: "reachable draft_init draft_step approved_draft"
proof -
  have "draft_init authored_draft" using sample_drafts_valid(1) by (simp add: draft_init_def)
  moreover have "draft_step authored_draft submitted_draft" using sample_submitted step_submit by blast
  moreover have "draft_step submitted_draft reviewed_draft" using sample_decided step_decide by blast
  moreover have "draft_step reviewed_draft approved_draft" using sample_approved step_approve by blast
  ultimately show ?thesis by (meson reachable.intros)
qed

theorem approved_draft_fully_reviewed_witness:
  "reachable draft_init draft_step approved_draft \<and>
   (\<exists>b. review_binding reviewed_assertion = Some b \<and> bound_payload_hash b = payload_hash reviewed_assertion)"
proof -
  have "draft_state approved_draft = APPROVED" "reviewed_assertion \<in> set (assertions approved_draft)"
    by (simp_all add: approved_draft_def)
  with approved_draft_fully_reviewed [OF approved_draft_reachable] show ?thesis
    using approved_draft_reachable by blast
qed

theorem lifecycle_revision_guarded_witness:
  "\<exists>lr. approve_draft reviewed_draft 2 (operator ''eve'') permissive 9 = Inr (approved_draft, lr) \<and> draft_revision approved_draft = 3"
proof -
  obtain lr where ok: "approve_draft reviewed_draft 2 (operator ''eve'') permissive 9 = Inr (approved_draft, lr)"
    using sample_approved by blast
  have "draft_revision approved_draft = 2 + 1"
    using ok lifecycle_revision_guarded [of reviewed_draft 2 _ approved_draft _ _ "operator ''eve''" permissive _ 9 _ _ lr] by blast
  with ok show ?thesis by auto
qed

theorem lifecycle_requires_authorization_witness:
  "\<exists>out. approve_draft reviewed_draft 2 (operator ''eve'') permissive 9 = Inr out \<and> APPROVER |\<in>| ctx_roles (operator ''eve'')"
proof -
  obtain out where ok: "approve_draft reviewed_draft 2 (operator ''eve'') permissive 9 = Inr out"
    using sample_approved by blast
  have "APPROVER |\<in>| ctx_roles (operator ''eve'')"
    using ok lifecycle_requires_authorization [of reviewed_draft _ _ 2 "operator ''eve''" permissive _ 9 _ _ out] by blast
  with ok show ?thesis by blast
qed

theorem separation_of_duties_exact_witness:
  "\<exists>dec. evaluate_separation_of_duties STRICT ''ann'' [''rob''] ''eve'' ''pat'' None None = Inr dec \<and> separation_allowed dec"
proof -
  obtain dec where dec: "evaluate_separation_of_duties STRICT ''ann'' [''rob''] ''eve'' ''pat'' None None = Inr dec"
    by (simp add: evaluate_separation_of_duties_def MAX_REVIEWERS_def Let_def)
  with separation_of_duties_exact [OF dec] show ?thesis by auto
qed

theorem draft_store_compare_and_swap_witness:
  "\<exists>s'. store_replace \<lparr>max_drafts = 5, drafts = [((tenant_a, ''a1''), authored_draft)]\<rparr> submitted_draft 0 tenant_a = Inr s' \<and>
     store_replace s' submitted_draft 0 tenant_a = Inl (DraftRevisionConflict 0 1)"
proof -
  obtain s' where s': "store_replace \<lparr>max_drafts = 5, drafts = [((tenant_a, ''a1''), authored_draft)]\<rparr> submitted_draft 0 tenant_a = Inr s'"
    by (simp add: store_replace_def require_revision_def)
  with draft_store_compare_and_swap [OF s'] show ?thesis by auto
qed

definition edited_sample :: SemanticAssertion where
  "edited_sample = sample_assertion\<lparr>provenance := sample_provenance\<lparr>prov_kind := MANUAL\<rparr>\<rparr>"

lemma sample_edited:
  "\<exists>d' r. edit_assertion submitted_draft sample_assertion_id sample_identity 1 (operator ''rob'') permissive [] 8 = Inr (d', r)"
proof -
  have target: "target_assertion submitted_draft sample_assertion_id = Inr sample_assertion"
    by (simp add: target_assertion_def sample_assertion_def)
  have prov: "edited_provenance sample_assertion = sample_provenance\<lparr>prov_kind := MANUAL\<rparr>"
    by (simp add: edited_provenance_def sample_assertion_def sample_provenance_def)
  have valid: "provenance_valid (edited_provenance sample_assertion)"
    unfolding prov by (simp add: provenance_valid_def sample_provenance_def reference_text_ok_def)
  have valid': "assertion_valid edited_sample"
    using sample_assertion_valid(1) valid unfolding prov
    by (simp add: edited_sample_def sample_assertion_def assertion_valid_def payload_hash_def)
  have made: "create_assertion ENTITY sample_identity (edited_provenance sample_assertion) = Inr edited_sample"
    using valid' unfolding create_assertion_def prov
    by (simp add: sample_derived validated_assertion_def edited_sample_def sample_assertion_def)
  have "draft_valid (submitted_draft\<lparr>assertions := [edited_sample], draft_revision := 2\<rparr>)"
    using sample_drafts_valid(3) valid' by (simp add: draft_valid_def reviewed_draft_def expected_plan_fp_def)
  then have "mutate submitted_draft 1 [SetAssertions [edited_sample]] = Inr (submitted_draft\<lparr>assertions := [edited_sample], draft_revision := 2\<rparr>)"
    by (simp add: mutate_def require_revision_def only_plan_def plan_changed_def protected_changes_def unknown_changes_def Let_def)
  with target valid made show ?thesis
    unfolding edit_assertion_def replace_assertion_def
    by (simp add: operator_authorized edited_provenance_def Let_def decision_record_valid_def reference_text_ok_def identifier_ok_def
        char_class_defs payload_hash_def sample_assertion_def edited_sample_def sample_assertion_id_def
        provenance_valid_def sample_provenance_def)
qed

theorem edit_invalidates_review_witness:
  "\<exists>d' r a'. edit_assertion submitted_draft sample_assertion_id sample_identity 1 (operator ''rob'') permissive [] 8 = Inr (d', r) \<and>
     a' \<in> set (assertions d') \<and> review_state a' = PENDING"
proof -
  obtain d' r where ok: "edit_assertion submitted_draft sample_assertion_id sample_identity 1 (operator ''rob'') permissive [] 8 = Inr (d', r)"
    using sample_edited by blast
  from edit_invalidates_review [OF ok] obtain a a' where
    a: "a \<in> set (assertions submitted_draft)" "assertion_id a = sample_assertion_id" "review_state a' = PENDING"
      "assertions d' = map (\<lambda>x. if assertion_id x = sample_assertion_id then a' else x) (assertions submitted_draft)" by blast
  then have "a' \<in> set (assertions d')" by force
  with ok a(3) show ?thesis by blast
qed

end
