(* ===== verification/Structural_Verification.thy ===== *)
theory Structural_Verification
  imports Verification_Plan Bundle_Model Assembly_Lifecycle
begin

text \<open>
  The accepted-assertion manifest of \<^verbatim>\<open>src/nl2data_core/assembly/manifest.py\<close> and the structural layer of
  \<^verbatim>\<open>src/nl2data_core/verification/structural.py\<close>, the first of the three verification layers of a publication.

  Assertion payloads are frozen: their lists are tuples, and a Python list is never equal to a tuple.  The lists of a
  canonical payload and of a frozen payload are therefore equal only where the code compares them element by element.

  The theory shows that the structural layer passes exactly for an approved, fully reviewed draft whose identity,
  revision, source and plan are the expected ones, with a publishable bundle that represents every approved assertion,
  and that the manifest then lists exactly the approved assertions.  It also shows that a draft with an approved policy
  assertion never passes.
\<close>

section \<open>The manifest\<close>

record AcceptedAssertion =
  aa_id :: string
  aa_type :: AssertionType
  aa_payload :: jv
  aa_payload_hash :: string

definition MANIFEST_PROVENANCE :: AssertionProvenance where
  "MANIFEST_PROVENANCE =
     \<lparr>prov_kind = MANUAL, prov_source = None, prov_proposal = None, prov_snapshot = None, prov_evidence = None,
      prov_method = None\<rparr>"

definition accepted_ok :: "AcceptedAssertion \<Rightarrow> bool" where
  "accepted_ok a \<longleftrightarrow>
     fingerprint_ok (aa_id a) \<and> fingerprint_ok (aa_payload_hash a) \<and> freezable (aa_payload a) \<and>
     (case create_assertion (aa_type a) (aa_payload a) MANIFEST_PROVENANCE of
        Inl _ \<Rightarrow> False
      | Inr x \<Rightarrow> aa_id a = assertion_id x \<and> aa_payload_hash a = payload_hash x)"

definition from_assertion :: "SemanticAssertion \<Rightarrow> AcceptedAssertion asm" where
  "from_assertion a =
     (if review_state a \<noteq> APPROVED_REVIEW then Inl (RejectedValue ''accepted manifests contain approved assertions only'')
      else if \<not> has_valid_review_binding a then Inl (RejectedValue ''accepted manifests require valid review bindings'')
      else let x = \<lparr>aa_id = assertion_id a, aa_type = assertion_type a, aa_payload = assertion_payload a,
                     aa_payload_hash = payload_hash a\<rparr>
           in if accepted_ok x then Inr x else Inl InvalidModel)"

definition accepted_payload :: "AcceptedAssertion \<Rightarrow> jv" where
  "accepted_payload a = vdict
     [(''id'', VStr (aa_id a)), (''type'', VStr (assertion_type_value (aa_type a))), (''payload'', aa_payload a),
      (''payload_hash'', VStr (aa_payload_hash a))]"

record AcceptedAssertionManifest =
  mf_bundle_id :: string
  mf_bundle_fingerprint :: string
  mf_assertions :: "AcceptedAssertion list"

definition manifest_ok :: "AcceptedAssertionManifest \<Rightarrow> bool" where
  "manifest_ok m \<longleftrightarrow>
     identifier_ok (mf_bundle_id m) \<and> fingerprint_ok (mf_bundle_fingerprint m) \<and> length (mf_assertions m) \<le> 16384 \<and>
     list_all accepted_ok (mf_assertions m) \<and> distinct (map aa_id (mf_assertions m))"

fun accept_all :: "SemanticAssertion list \<Rightarrow> AcceptedAssertion list asm" where
  "accept_all [] = Inr []"
| "accept_all (a # as) = bind_res (from_assertion a) (\<lambda>x. bind_res (accept_all as) (\<lambda>xs. Inr (x # xs)))"

definition approved_assertions :: "AssemblyDraft \<Rightarrow> SemanticAssertion list" where
  "approved_assertions d = filter (\<lambda>a. review_state a = APPROVED_REVIEW) (assertions d)"

definition from_draft :: "AssemblyDraft \<Rightarrow> string \<Rightarrow> AcceptedAssertionManifest asm" where
  "from_draft d fp =
     (if draft_state d \<noteq> APPROVED then Inl (RejectedValue ''accepted manifests require an approved assembly draft'')
      else if list_ex (\<lambda>a. review_state a = PENDING) (assertions d) then
        Inl (RejectedValue ''accepted manifests cannot be derived from pending assertions'')
      else bind_res (accept_all (approved_assertions d)) (\<lambda>accepted.
        let m = \<lparr>mf_bundle_id = draft_bundle_id d, mf_bundle_fingerprint = fp, mf_assertions = sort_key aa_id accepted\<rparr>
        in if manifest_ok m then Inr m else Inl InvalidModel))"

definition manifest_payload :: "AcceptedAssertionManifest \<Rightarrow> jv" where
  "manifest_payload m = vdict
     [(''bundle_id'', VStr (mf_bundle_id m)), (''bundle_fingerprint'', VStr (mf_bundle_fingerprint m)),
      (''assertions'', VList (map accepted_payload (sort_key aa_id (mf_assertions m))))]"

definition manifest_fingerprint :: "AcceptedAssertionManifest \<Rightarrow> string" where
  "manifest_fingerprint m = fingerprint_of (manifest_payload m)"

section \<open>Representation in the bundle\<close>

text \<open>\<open>==\<close> between a member of a canonical payload and one of a frozen payload: no list is equal to a tuple.\<close>

fun frozen_eq :: "jv \<Rightarrow> jv \<Rightarrow> bool"
and frozen_eq_items :: "(dict_key \<times> jv) list \<Rightarrow> (dict_key \<times> jv) list \<Rightarrow> bool" where
  "frozen_eq (VList xs) w = False"
| "frozen_eq (VDict xs) w = (case w of VDict ys \<Rightarrow> length xs = length ys \<and> frozen_eq_items xs ys | _ \<Rightarrow> False)"
| "frozen_eq v w = py_eq v w"
| "frozen_eq_items [] ys = True"
| "frozen_eq_items ((k, v) # xs) ys =
     ((case map_of ys k of None \<Rightarrow> False | Some w \<Rightarrow> frozen_eq v w) \<and> frozen_eq_items xs ys)"

fun is_dict :: "jv \<Rightarrow> bool" where
  "is_dict (VDict items) = True"
| "is_dict v = False"

fun payload_contains :: "jv \<Rightarrow> jv \<Rightarrow> bool" where
  "payload_contains actual (VDict expected) =
     (is_dict actual \<and>
      list_all (\<lambda>(k, v). case (case actual of VDict items \<Rightarrow> map_of items k | _ \<Rightarrow> None) of
                           None \<Rightarrow> False | Some a \<Rightarrow> payload_contains a v) expected)"
| "payload_contains actual (VList expected) =
     (case actual of VList xs \<Rightarrow> list_all2 frozen_eq xs expected | _ \<Rightarrow> False)"
| "payload_contains actual expected = py_eq actual expected"

text \<open>\<open>str(value)\<close> of a payload member; the text of a container is no identifier and stands for itself as the empty text.\<close>

fun member_text_of :: "jv option \<Rightarrow> string" where
  "member_text_of None = ''None''"
| "member_text_of (Some VNull) = ''None''"
| "member_text_of (Some (VStr s)) = s"
| "member_text_of (Some (VBool b)) = (if b then ''True'' else ''False'')"
| "member_text_of (Some (VInt i)) = string_of_int i"
| "member_text_of (Some (VFloat r)) = r"
| "member_text_of (Some v) = []"

text \<open>\<open>{**a, **b}\<close>.\<close>

fun merged :: "jv \<Rightarrow> jv \<Rightarrow> jv" where
  "merged (VDict xs) (VDict ys) = VDict (fold (\<lambda>(k, v). AList.update k v) ys xs)"
| "merged v w = v"

definition bundle_assertion_payload :: "AssertionType \<Rightarrow> jv \<Rightarrow> SemanticModelBundle \<Rightarrow> jv option" where
  "bundle_assertion_payload t p b =
     (let D = descriptor b;
          base = vdict [(''descriptor_id'', VStr (descriptor_id D))];
          own = descriptor_entity D (member_text_of (payload_get p ''entity_id''));
          in_entity = (\<lambda>e. merged base (vdict [(''entity_id'', VStr (entity_id e))]))
      in if payload_get p ''descriptor_id'' \<noteq> Some (VStr (descriptor_id D)) then None
         else case t of
           ENTITY \<Rightarrow> map_option (\<lambda>e. merged base (entity_descriptor_payload e)) own
         | CALCULATED_FIELD \<Rightarrow>
             Option.bind own (\<lambda>e.
             map_option (\<lambda>c. merged (in_entity e) (calculated_field_payload c))
               (entity_calculated_field e (member_text_of (payload_get p ''name''))))
         | FIELD \<Rightarrow>
             Option.bind own (\<lambda>e.
             map_option (\<lambda>f. merged (in_entity e) (field_descriptor_payload f))
               (List.find (\<lambda>f. Some (VStr (fd_field_id f)) = payload_get p ''field_id'') (ent_fields e)))
         | MAPPING \<Rightarrow>
             Option.bind own (\<lambda>e.
             Option.bind (List.find (\<lambda>f. Some (VStr (fd_field_id f)) = payload_get p ''field_id'') (ent_fields e)) (\<lambda>f.
             map_option (\<lambda>s. merged (merged (in_entity e) (field_descriptor_payload f)) (value_semantics_payload s))
               (value_semantics f)))
         | RELATIONSHIP \<Rightarrow>
             map_option (\<lambda>r. merged base (relationship_descriptor_payload r))
               (List.find (\<lambda>r. Some (VStr (relationship_id r)) = payload_get p ''relationship_id'')
                  (concat (map relationships (entities D))))
         | MEASURE \<Rightarrow>
             map_option (\<lambda>m. merged base (measure_payload m))
               (List.find (\<lambda>m. Some (VStr (measure_id m)) = payload_get p ''measure_id'') (measures b))
         | GRAIN \<Rightarrow>
             map_option (\<lambda>g. merged base (grain_payload g))
               (List.find (\<lambda>g. Some (VStr (grain_id g)) = payload_get p ''grain_id'') (grains b))
         | POLICY \<Rightarrow> None)"

definition represented :: "SemanticModelBundle \<Rightarrow> AssertionType \<Rightarrow> jv \<Rightarrow> bool" where
  "represented b t p =
     (case bundle_assertion_payload t p b of None \<Rightarrow> False | Some candidate \<Rightarrow> payload_contains candidate p)"

definition manifest_matches_bundle :: "AcceptedAssertionManifest \<Rightarrow> SemanticModelBundle \<Rightarrow> bool" where
  "manifest_matches_bundle m b \<longleftrightarrow> list_all (\<lambda>a. represented b (aa_type a) (aa_payload a)) (mf_assertions m)"

section \<open>The structural layer\<close>

definition approved_plan_bound :: "AssemblyDraft \<Rightarrow> bool" where
  "approved_plan_bound d \<longleftrightarrow> approved_plan_fp d = map_option vp_fingerprint (verification_plan d)"

definition structural_checks ::
  "AssemblyDraft \<Rightarrow> SemanticModelBundle \<Rightarrow> int \<Rightarrow> string \<Rightarrow> bool \<Rightarrow> AcceptedAssertionManifest option \<Rightarrow> (string \<times> bool \<times> string) list" where
  "structural_checks d b revision0 source0 bundle_valid manifest =
     [(''draft_approved'', draft_state d = APPROVED, ''publication requires an approved draft''),
      (''draft_revision_matches'', draft_revision d = revision0, ''the frozen draft revision does not match''),
      (''review_bindings_valid'', list_all (\<lambda>a. review_state a \<noteq> PENDING \<and> has_valid_review_binding a) (assertions d),
       ''one or more assertion review bindings are invalid''),
      (''verification_plan_bound'', approved_plan_bound d, ''the approved verification plan binding does not match''),
      (''bundle_identity_mismatch'',
       bundle_id b = draft_bundle_id d \<and> Bundle_Model.model_version b = Assembly_Model.model_version d \<and>
       desc_source_id (descriptor b) = draft_source_id d, ''emitted Bundle identity does not match the draft''),
      (''source_scope_matches'', source0 = draft_source_id d, ''trusted source scope does not match the draft''),
      (''bundle_valid'', bundle_valid, ''emitted Bundle structural validation failed''),
      (''manifest_derived'', manifest \<noteq> None, ''accepted assertion manifest derivation failed''),
      (''manifest_mismatch'', (case manifest of None \<Rightarrow> False | Some m \<Rightarrow> manifest_matches_bundle m b),
       ''accepted assertions do not match the emitted semantic Bundle'')]"

definition check_case :: "string \<times> bool \<times> string \<Rightarrow> CaseEvidence" where
  "check_case c =
     \<lparr>case_id = fst c, case_layer = STRUCTURAL, case_status = (if fst (snd c) then PASSED else FAILED),
      query_fingerprint = None, assertion_count = 1, passed_assertion_count = (if fst (snd c) then 1 else 0),
      result_fingerprint = None, case_issue_codes = (if fst (snd c) then [] else [fst c]), case_duration_ms = 0\<rparr>"

record StructuralResult =
  sr_evidence :: LayerEvidence
  sr_manifest :: "AcceptedAssertionManifest option"
  sr_issues :: "(string \<times> string) list"

definition structural_run :: "AssemblyDraft \<Rightarrow> SemanticModelBundle \<Rightarrow> int \<Rightarrow> string \<Rightarrow> StructuralResult res" where
  "structural_run d b revision0 source0 =
     bind_res (validate_bundle [BUNDLE_SCHEMA_VERSION] None b) (\<lambda>v.
     let manifest = (case from_draft d (bundle_fingerprint b) of Inl _ \<Rightarrow> None | Inr m \<Rightarrow> Some m);
         cs = structural_checks d b revision0 source0 (bv_valid v) manifest;
         failed = filter (\<lambda>c. \<not> fst (snd c)) cs
     in Inr \<lparr>sr_evidence = \<lparr>layer = STRUCTURAL, layer_status = (if failed = [] then PASSED else FAILED),
                            cases = map check_case cs, layer_issue_codes = map fst failed, layer_duration_ms = 0\<rparr>,
             sr_manifest = manifest, sr_issues = map (\<lambda>c. (fst c, snd (snd c))) failed\<rparr>)"

section \<open>What the layer decides\<close>

lemma payload_hash_ok [simp]: "fingerprint_ok (payload_hash a)"
  by (simp add: payload_hash_def)

definition accepted_of :: "SemanticAssertion \<Rightarrow> AcceptedAssertion" where
  "accepted_of a =
     \<lparr>aa_id = assertion_id a, aa_type = assertion_type a, aa_payload = assertion_payload a, aa_payload_hash = payload_hash a\<rparr>"

lemma accepted_of_ok:
  assumes "assertion_valid a"
  shows "accepted_ok (accepted_of a)"
proof -
  define x where "x = \<lparr>assertion_id = assertion_id a, assertion_type = assertion_type a,
    assertion_payload = assertion_payload a, provenance = MANIFEST_PROVENANCE, review_state = PENDING, review_binding = None\<rparr>"
  have "provenance_valid MANIFEST_PROVENANCE" by (simp add: provenance_valid_def MANIFEST_PROVENANCE_def)
  then have "assertion_valid x" using assms by (simp add: assertion_valid_def x_def)
  then have "create_assertion (assertion_type a) (assertion_payload a) MANIFEST_PROVENANCE = Inr x"
    using assms by (simp add: create_assertion_def validated_assertion_def assertion_valid_def x_def)
  moreover have "payload_hash x = payload_hash a" "assertion_id x = assertion_id a" by (simp_all add: x_def payload_hash_def)
  ultimately show ?thesis using assms by (simp add: accepted_ok_def accepted_of_def assertion_valid_def)
qed

lemma from_assertion_valid:
  assumes "assertion_valid a" "review_state a = APPROVED_REVIEW"
  shows "from_assertion a = Inr (accepted_of a)"
proof -
  have "has_valid_review_binding a"
    using assms by (auto simp: assertion_valid_def has_valid_review_binding_def split: option.splits)
  with accepted_of_ok [OF assms(1)] assms(2) show ?thesis
    by (simp add: from_assertion_def accepted_of_def Let_def)
qed

lemma accept_all_valid:
  assumes "\<And>a. a \<in> set as \<Longrightarrow> assertion_valid a \<and> review_state a = APPROVED_REVIEW"
  shows "accept_all as = Inr (map accepted_of as)"
  using assms by (induction as) (auto simp: from_assertion_valid)

lemma aa_id_accepted_of [simp]: "aa_id (accepted_of a) = assertion_id a"
  by (simp add: accepted_of_def)

text \<open>For a draft that validates, the derivation of the manifest fails only for a draft that is not approved or not reviewed.\<close>

lemma from_draft_Inr:
  assumes "draft_valid d" "fingerprint_ok fp"
  shows "from_draft d fp = Inr m \<longleftrightarrow>
    draft_state d = APPROVED \<and> list_all (\<lambda>a. review_state a \<noteq> PENDING) (assertions d) \<and>
    m = \<lparr>mf_bundle_id = draft_bundle_id d, mf_bundle_fingerprint = fp,
         mf_assertions = sort_key aa_id (map accepted_of (approved_assertions d))\<rparr>"
proof -
  have valid: "list_all assertion_valid (assertions d)" "distinct (map assertion_id (assertions d))"
    "length (assertions d) \<le> 16384" "identifier_ok (draft_bundle_id d)"
    using assms(1) by (simp_all add: draft_valid_def MAX_ASSERTIONS_def)
  have all: "accept_all (approved_assertions d) = Inr (map accepted_of (approved_assertions d))"
    using valid(1) by (intro accept_all_valid) (auto simp: approved_assertions_def list_all_iff)
  define m0 where "m0 = \<lparr>mf_bundle_id = draft_bundle_id d, mf_bundle_fingerprint = fp,
    mf_assertions = sort_key aa_id (map accepted_of (approved_assertions d))\<rparr>"
  have "distinct (map assertion_id (approved_assertions d))"
    using valid(2) by (simp add: approved_assertions_def distinct_map_filter)
  then have "distinct (map aa_id (mf_assertions m0))"
    by (auto simp: m0_def distinct_map inj_on_def dest!: arg_cong [where f = aa_id])
  moreover have "length (approved_assertions d) \<le> 16384"
    using valid(3) length_filter_le [of _ "assertions d"] unfolding approved_assertions_def by (rule order_trans [rotated])
  ultimately have "manifest_ok m0"
    using valid assms(2) by (auto simp: manifest_ok_def m0_def list_all_iff approved_assertions_def intro: accepted_of_ok)
  with all show ?thesis
    by (auto simp: from_draft_def m0_def Let_def list_all_iff list_ex_iff)
qed

definition structurally_sound :: "AssemblyDraft \<Rightarrow> SemanticModelBundle \<Rightarrow> int \<Rightarrow> string \<Rightarrow> bool" where
  "structurally_sound d b revision0 source0 \<longleftrightarrow>
     draft_state d = APPROVED \<and> draft_revision d = revision0 \<and> draft_source_id d = source0 \<and>
     (\<forall>a \<in> set (assertions d). review_state a \<noteq> PENDING) \<and>
     bundle_id b = draft_bundle_id d \<and> Bundle_Model.model_version b = Assembly_Model.model_version d \<and>
     desc_source_id (descriptor b) = draft_source_id d \<and> publishable [BUNDLE_SCHEMA_VERSION] None b \<and>
     (\<forall>a \<in> set (assertions d). review_state a = APPROVED_REVIEW \<longrightarrow>
        represented b (assertion_type a) (assertion_payload a))"

lemma reviewed_bound:
  assumes "draft_valid d"
  shows "list_all (\<lambda>a. review_state a \<noteq> PENDING \<and> has_valid_review_binding a) (assertions d) \<longleftrightarrow>
         (\<forall>a \<in> set (assertions d). review_state a \<noteq> PENDING)"
  using assms by (fastforce simp: draft_valid_def assertion_valid_def has_valid_review_binding_def list_all_iff split: option.splits)

lemma structural_checks_pass:
  assumes "draft_valid d" "bundle_ok b"
    and "validate_bundle [BUNDLE_SCHEMA_VERSION] None b = Inr v"
  shows "(\<forall>c \<in> set (structural_checks d b n src (bv_valid v)
            (case from_draft d (bundle_fingerprint b) of Inl _ \<Rightarrow> None | Inr m \<Rightarrow> Some m)). fst (snd c)) \<longleftrightarrow>
         structurally_sound d b n src"
proof -
  have fp: "fingerprint_ok (bundle_fingerprint b)" by (simp add: bundle_fingerprint_def)
  have valid: "bv_valid v \<longleftrightarrow> publishable [BUNDLE_SCHEMA_VERSION] None b"
    using assms(3) bundle_issues_Nil [OF assms(2)] by (auto simp: validate_bundle_def Let_def split: if_splits)
  have plan: "approved_plan_bound d" if "draft_state d = APPROVED"
    using assms(1) that by (simp add: draft_valid_def expected_plan_fp_def approved_plan_bound_def)
  show ?thesis
  proof (cases "\<exists>m. from_draft d (bundle_fingerprint b) = Inr m")
    case True
    then obtain m where m: "from_draft d (bundle_fingerprint b) = Inr m" by blast
    note derived = from_draft_Inr [OF assms(1) fp, THEN iffD1, OF m]
    have "manifest_matches_bundle m b \<longleftrightarrow>
        (\<forall>a \<in> set (assertions d). review_state a = APPROVED_REVIEW \<longrightarrow> represented b (assertion_type a) (assertion_payload a))"
      using derived by (auto simp: manifest_matches_bundle_def approved_assertions_def accepted_of_def list_all_iff)
    then show ?thesis
      using derived plan valid reviewed_bound [OF assms(1)]
      by (auto simp: structural_checks_def m structurally_sound_def list_all_iff)
  next
    case False
    then obtain e where e: "from_draft d (bundle_fingerprint b) = Inl e" by (cases "from_draft d (bundle_fingerprint b)") auto
    have "\<not> structurally_sound d b n src"
      using False from_draft_Inr [OF assms(1) fp] by (auto simp: structurally_sound_def list_all_iff)
    then show ?thesis by (simp add: structural_checks_def e)
  qed
qed

lemma structural_run_result:
  assumes "draft_valid d" "bundle_ok b" "structural_run d b n src = Inr r"
  shows "layer_status (sr_evidence r) = (if structurally_sound d b n src then PASSED else FAILED)"
    and "sr_manifest r = (case from_draft d (bundle_fingerprint b) of Inl _ \<Rightarrow> None | Inr m \<Rightarrow> Some m)"
    and "structurally_sound d b n src \<Longrightarrow> sr_issues r = []"
proof -
  obtain v where v: "validate_bundle [BUNDLE_SCHEMA_VERSION] None b = Inr v"
    using assms(3) by (auto simp: structural_run_def bind_res_Inr_iff)
  define manifest where "manifest = (case from_draft d (bundle_fingerprint b) of Inl _ \<Rightarrow> None | Inr m \<Rightarrow> Some m)"
  define failed where "failed = filter (\<lambda>c. \<not> fst (snd c)) (structural_checks d b n src (bv_valid v) manifest)"
  have r: "layer_status (sr_evidence r) = (if failed = [] then PASSED else FAILED)" "sr_manifest r = manifest"
    "sr_issues r = map (\<lambda>c. (fst c, snd (snd c))) failed"
    using assms(3) v by (auto simp: structural_run_def Let_def failed_def manifest_def)
  moreover have "failed = [] \<longleftrightarrow> structurally_sound d b n src"
    using structural_checks_pass [OF assms(1,2) v, of n src]
    by (simp add: failed_def manifest_def filter_empty_conv)
  ultimately show "layer_status (sr_evidence r) = (if structurally_sound d b n src then PASSED else FAILED)"
    "sr_manifest r = (case from_draft d (bundle_fingerprint b) of Inl _ \<Rightarrow> None | Inr m \<Rightarrow> Some m)"
    "structurally_sound d b n src \<Longrightarrow> sr_issues r = []"
    by (simp_all add: manifest_def)
qed

text \<open>
  C37.  The structural layer passes exactly for an approved draft with the expected revision and source, every assertion
  reviewed, and a publishable bundle of the draft's identity that represents every approved assertion; the manifest it
  then returns binds the fingerprint of that bundle and lists exactly the approved assertions.
\<close>

theorem structural_layer_exact:
  assumes "draft_valid d" "bundle_ok b" "structural_run d b n src = Inr r"
  shows "(layer_status (sr_evidence r) = PASSED \<longleftrightarrow> structurally_sound d b n src) \<and>
    (layer_status (sr_evidence r) = PASSED \<longrightarrow>
      (\<exists>m. sr_manifest r = Some m \<and> mf_bundle_fingerprint m = bundle_fingerprint b \<and> sr_issues r = [] \<and>
         set (map aa_id (mf_assertions m)) =
           assertion_id ` {a \<in> set (assertions d). review_state a = APPROVED_REVIEW}))"
proof (intro conjI impI)
  note result = structural_run_result [OF assms]
  show "layer_status (sr_evidence r) = PASSED \<longleftrightarrow> structurally_sound d b n src" using result(1) by simp
  assume "layer_status (sr_evidence r) = PASSED"
  then have sound: "structurally_sound d b n src" using result(1) by (simp split: if_splits)
  have fp: "fingerprint_ok (bundle_fingerprint b)" by (simp add: bundle_fingerprint_def)
  let ?m = "\<lparr>mf_bundle_id = draft_bundle_id d, mf_bundle_fingerprint = bundle_fingerprint b,
       mf_assertions = sort_key aa_id (map accepted_of (approved_assertions d))\<rparr>"
  have "from_draft d (bundle_fingerprint b) = Inr ?m"
    using sound from_draft_Inr [OF assms(1) fp, of ?m] by (auto simp: structurally_sound_def list_all_iff)
  moreover have "set (map aa_id (mf_assertions ?m)) = assertion_id ` {a \<in> set (assertions d). review_state a = APPROVED_REVIEW}"
    by (auto simp: approved_assertions_def image_iff)
  ultimately show "\<exists>m. sr_manifest r = Some m \<and> mf_bundle_fingerprint m = bundle_fingerprint b \<and> sr_issues r = [] \<and>
      set (map aa_id (mf_assertions m)) = assertion_id ` {a \<in> set (assertions d). review_state a = APPROVED_REVIEW}"
    using result(2,3) sound by (intro exI [of _ ?m]) simp
qed

text \<open>
  No bundle represents a policy assertion, so a draft with an approved one (the authoring of policy templates creates
  them) never passes the layer and can never be published.
\<close>

theorem approved_policy_blocks_publication:
  assumes "draft_valid d" "bundle_ok b" "structural_run d b n src = Inr r"
    and "a \<in> set (assertions d)" "review_state a = APPROVED_REVIEW" "assertion_type a = POLICY"
  shows "layer_status (sr_evidence r) = FAILED"
proof -
  have "\<not> represented b POLICY p" for p by (simp add: represented_def bundle_assertion_payload_def Let_def)
  then have "\<not> structurally_sound d b n src" using assms(4-6) by (auto simp: structurally_sound_def)
  with structural_run_result(1) [OF assms(1-3)] show ?thesis by simp
qed

section \<open>A concrete publication\<close>

definition approved_bundle :: SemanticModelBundle where
  "approved_bundle = (sample_bundle ''v1'' [])
     \<lparr>bundle_id := ''b1'', descriptor := sample_descriptor\<lparr>descriptor_id := ''d'', desc_source_id := ''sales''\<rparr>,
      sources := [\<lparr>reference_id = ''src'', sr_source_id = ''sales'', sr_catalog_fingerprint = None, sr_description = []\<rparr>]\<rparr>"

lemma approved_bundle_ok: "bundle_ok approved_bundle"
proof -
  have ids: "identifier_ok ''b1''" "identifier_ok ''src''" "identifier_ok ''sales''" "identifier_ok ''v1''" "identifier_ok ''d''"
    by (simp_all add: pattern_simps)
  have "descriptor_ok (sample_descriptor\<lparr>descriptor_id := ''d'', desc_source_id := ''sales''\<rparr>)"
    using sample_descriptor_ok ids by (simp add: descriptor_ok_def sample_descriptor_def)
  then show ?thesis
    using ids safe_team
    by (simp add: bundle_ok_def approved_bundle_def sample_bundle_def source_reference_ok_def description_ok_def
        compatibility_ok_def bundle_provenance_ok_def)
qed

lemma approved_bundle_publishable: "publishable [BUNDLE_SCHEMA_VERSION] None approved_bundle"
  by (simp add: publishable_def approved_bundle_def sample_bundle_def sample_descriptor_defs BUNDLE_SCHEMA_VERSION_def
      is_pii_def entity_calculated_fields_def calculated_references_def)

lemma approved_entity_represented: "represented approved_bundle ENTITY sample_identity"
  by (simp add: represented_def bundle_assertion_payload_def sample_identity_def approved_bundle_def sample_bundle_def
      sample_descriptor_def sample_orders_def descriptor_entity_def entity_descriptor_payload_def opt_member_def)

lemma approved_run: "\<exists>r. structural_run approved_draft approved_bundle 3 ''sales'' = Inr r"
  using iffD2 [OF bundle_issues_Nil [OF approved_bundle_ok] approved_bundle_publishable]
  by (simp add: structural_run_def validate_bundle_def Let_def)

theorem structural_layer_exact_witness:
  "\<exists>r m. structural_run approved_draft approved_bundle 3 ''sales'' = Inr r \<and> layer_status (sr_evidence r) = PASSED \<and>
     sr_manifest r = Some m \<and> set (map aa_id (mf_assertions m)) = {sample_assertion_id}"
proof -
  obtain r where r: "structural_run approved_draft approved_bundle 3 ''sales'' = Inr r" using approved_run by blast
  have "structurally_sound approved_draft approved_bundle 3 ''sales''"
    using approved_bundle_publishable approved_entity_represented
    by (simp add: structurally_sound_def approved_draft_def reviewed_draft_def submitted_draft_def authored_draft_def
        reviewed_assertion_def sample_assertion_def)
       (simp add: approved_bundle_def sample_bundle_def)
  moreover have "{a \<in> set (assertions approved_draft). review_state a = APPROVED_REVIEW} = {reviewed_assertion}"
    by (auto simp: approved_draft_def reviewed_assertion_def)
  moreover have "assertion_id reviewed_assertion = sample_assertion_id"
    by (simp add: reviewed_assertion_def sample_assertion_def)
  ultimately show ?thesis
    using structural_layer_exact [OF sample_drafts_valid(4) approved_bundle_ok r] r by auto
qed

end
