(* ===== verification/Verification_Suite.thy ===== *)
theory Verification_Suite
  imports Governance IR_Validation Structural_Verification
begin

text \<open>
  Execution and evaluation of verification plans: \<^verbatim>\<open>src/nl2data_core/verification/execution.py\<close> (context,
  observations, execution keys, the cache), \<^verbatim>\<open>verification/evaluation.py\<close>, \<^verbatim>\<open>verification/smoke.py\<close>,
  \<^verbatim>\<open>verification/semantic.py\<close> and \<^verbatim>\<open>verification/suite.py\<close>.

  The executor is a host object: it is a record of its identity, its capabilities and the observation it returns (or the
  exception it raises) for a query, a fixture and a deadline.  The cache keeps the outcome of every execution by its
  key; an execution that raised stays in it.  Whether a layer runs into its deadline is an argument, with the cache
  an interrupted smoke layer leaves behind.  Sums of decimals follow the default context of the \<open>decimal\<close> module: 28
  digits, rounded half to even.

  The theory shows that the suite fails closed, that a passing suite has executed every case of the required layers with
  every assertion met, that its evidence passes the later checks of the publication, and that evidence for a stricter
  policy satisfies the policy it tightens.
\<close>

section \<open>Contexts and observations\<close>

record VerificationExecutionContext =
  candidate :: SemanticModelBundle
  ctx_manifest :: AcceptedAssertionManifest
  ctx_view :: AuthorizedView
  ctx_policy :: VerificationPolicy
  ctx_policy_scope :: PolicyScope
  ctx_limits :: jv
  ctx_tenant_scope :: string
  ctx_source_scope :: string

definition context_bindings_ok :: "VerificationExecutionContext \<Rightarrow> bool" where
  "context_bindings_ok c \<longleftrightarrow>
     mf_bundle_id (ctx_manifest c) = bundle_id (candidate c) \<and>
     mf_bundle_fingerprint (ctx_manifest c) = bundle_fingerprint (candidate c) \<and>
     source_id (ctx_view c) = desc_source_id (descriptor (candidate c)) \<and>
     desc_source_id (descriptor (candidate c)) |\<in>| scope_sources (ctx_policy_scope c) \<and>
     (scope_tenant (ctx_policy_scope c) = None \<or> scope_tenant (ctx_policy_scope c) = Some (ctx_tenant_scope c)) \<and>
     field_ids (ctx_view c) |\<subseteq>|
       fset_of_list (concat (map (\<lambda>e. map fd_field_id (ent_fields e)) (entities (descriptor (candidate c)))))"

definition verification_context_ok :: "VerificationExecutionContext \<Rightarrow> bool" where
  "verification_context_ok c \<longleftrightarrow>
     bundle_ok (candidate c) \<and> manifest_ok (ctx_manifest c) \<and> policy_ok (ctx_policy c) \<and>
     fingerprint_ok (ctx_tenant_scope c) \<and> fingerprint_ok (ctx_source_scope c) \<and> context_bindings_ok c"

datatype ObservationStatus = SUCCEEDED | ERRORED | OBSERVED_UNAVAILABLE | OBSERVED_TIMEOUT | CANCELLED_RUN

record Observation =
  obs_status :: ObservationStatus
  obs_executor_id :: string
  obs_capability_fp :: string
  obs_bundle_fp :: string
  obs_ir_fp :: string
  obs_fixture_fp :: string
  selection_ids :: "string list"
  rows :: "jv list list"
  obs_result_fp :: "string option"
  error_code :: "string option"
  cleanup_issue_code :: "string option"

definition observation_ok :: "Observation \<Rightarrow> bool" where
  "observation_ok o1 \<longleftrightarrow>
     identifier_ok (obs_executor_id o1) \<and> fingerprint_ok (obs_capability_fp o1) \<and> fingerprint_ok (obs_bundle_fp o1) \<and>
     fingerprint_ok (obs_ir_fp o1) \<and> fingerprint_ok (obs_fixture_fp o1) \<and> length (selection_ids o1) \<le> 1000 \<and>
     length (rows o1) \<le> 1000 \<and> list_all (\<lambda>r. length r \<le> 1000 \<and> list_all is_scalar r) (rows o1) \<and>
     opt_all fingerprint_ok (obs_result_fp o1) \<and> opt_all identifier_ok (error_code o1) \<and>
     opt_all identifier_ok (cleanup_issue_code o1) \<and> list_all (\<lambda>r. length r = length (selection_ids o1)) (rows o1)"

record Executor =
  ex_id :: string
  ex_capabilities :: "string fset"
  ex_capability_fp :: string
  ex_run :: "SemanticQueryIR \<Rightarrow> string \<Rightarrow> int \<Rightarrow> Observation res"

definition execution_key :: "SemanticQueryIR \<Rightarrow> string \<Rightarrow> VerificationExecutionContext \<Rightarrow> Executor \<Rightarrow> string" where
  "execution_key q fixture c ex = fingerprint_of (vdict
     [(''bundle_fingerprint'', VStr (bundle_fingerprint (candidate c))),
      (''manifest_fingerprint'', VStr (manifest_fingerprint (ctx_manifest c))),
      (''ir_fingerprint'', VStr (ir_fingerprint q)), (''view_fingerprint'', vopt VStr (view_fingerprint (ctx_view c))),
      (''policy_fingerprint'', VStr (verification_policy_fingerprint (ctx_policy c))),
      (''policy_scope_fingerprint'', VStr (policy_fingerprint (ctx_policy_scope c))),
      (''effective_limits'', ctx_limits c), (''tenant_scope_fingerprint'', VStr (ctx_tenant_scope c)),
      (''source_scope_fingerprint'', VStr (ctx_source_scope c)), (''fixture_profile_id'', VStr fixture),
      (''executor_id'', VStr (ex_id ex)), (''executor_capability_fingerprint'', VStr (ex_capability_fp ex))])"

type_synonym cache = "(string, Observation res) dict"

text \<open>\<open>execute_once\<close>: the stored outcome of the key, or a new execution that is stored.\<close>

definition execute_once :: "cache \<Rightarrow> string \<Rightarrow> Observation res \<Rightarrow> (Observation \<times> cache) res" where
  "execute_once ca key fresh =
     (case dict_get ca key of
        Some r \<Rightarrow> bind_res r (\<lambda>x. Inr (x, ca))
      | None \<Rightarrow> bind_res fresh (\<lambda>x. Inr (x, dict_set key fresh ca)))"

section \<open>Reductions\<close>

definition decimal_matches :: "dec \<Rightarrow> string \<Rightarrow> bool" where
  "decimal_matches x expected = (case decimal_of expected of None \<Rightarrow> False | Some y \<Rightarrow> decimal_eq x y)"

fun decimal_text :: "jv \<Rightarrow> string option" where
  "decimal_text (VStr s) = Some s"
| "decimal_text (VInt i) = Some (string_of_int i)"
| "decimal_text (VFloat r) = Some r"
| "decimal_text v = None"

fun tagged_scalar_matches :: "TaggedExpectedScalar \<Rightarrow> jv \<Rightarrow> bool" where
  "tagged_scalar_matches ExpNull actual = (actual = VNull)"
| "tagged_scalar_matches (ExpBool b) actual = (actual = VBool b)"
| "tagged_scalar_matches (ExpInt i) actual = (actual = VInt i)"
| "tagged_scalar_matches (ExpStr s) actual = (actual = VStr s)"
| "tagged_scalar_matches (ExpDecimal s) actual =
     (case decimal_text actual of
        None \<Rightarrow> False
      | Some t \<Rightarrow> (case decimal_of t of None \<Rightarrow> False | Some x \<Rightarrow> decimal_matches x s))"

text \<open>The same test for a decimal total, which is neither an \<open>int\<close> nor a string.\<close>

fun tagged_total_matches :: "TaggedExpectedScalar \<Rightarrow> dec \<Rightarrow> bool" where
  "tagged_total_matches (ExpDecimal s) x = decimal_matches x s"
| "tagged_total_matches expected x = False"

definition selected_observation_value :: "Observation \<Rightarrow> string \<Rightarrow> nat \<Rightarrow> jv option" where
  "selected_observation_value o1 sel row =
     (if length (rows o1) \<le> row \<or> sel \<notin> set (selection_ids o1) then None
      else map_of (zip (selection_ids o1) (rows o1 ! row)) sel)"

fun nonpass_status :: "ObservationStatus \<Rightarrow> VerificationStatus" where
  "nonpass_status OBSERVED_UNAVAILABLE = UNAVAILABLE_STATUS"
| "nonpass_status OBSERVED_TIMEOUT = TIMED_OUT"
| "nonpass_status _ = FAILED"

definition common_preflight_issue ::
  "SemanticQueryIR \<Rightarrow> VerificationExecutionContext \<Rightarrow> string set \<Rightarrow> string fset \<Rightarrow> string option res" where
  "common_preflight_issue q c required available =
     (if ir_limit q = None then Inr (Some ''unbounded_query_limit'')
      else if ir_source_id q \<noteq> desc_source_id (descriptor (candidate c)) then Inr (Some ''candidate_drift'')
      else if prov_catalog_fingerprint (Query_IR.provenance q) \<noteq> None \<and>
              prov_catalog_fingerprint (Query_IR.provenance q) \<noteq> Some (bundle_fingerprint (candidate c)) then
        Inr (Some ''candidate_fingerprint_drift'')
      else bind_res (validate_ir (Some (ctx_view c)) True 1000000 {||} None q) (\<lambda>v.
        Inr (if \<not> valid v then Some ''invalid_semantic_ir''
             else if \<not> required \<subseteq> fset available then Some ''capability_mismatch'' else None)))"

definition reduced_case_status :: "Observation \<Rightarrow> bool \<Rightarrow> VerificationStatus" where
  "reduced_case_status o1 all_passed =
     (if all_passed then PASSED else if obs_status o1 = SUCCEEDED then FAILED else nonpass_status (obs_status o1))"

definition observed_issue_codes :: "Observation \<Rightarrow> bool \<Rightarrow> string \<Rightarrow> string list" where
  "observed_issue_codes o1 all_passed mismatch =
     (if all_passed then [] else [mismatch]) @ (case cleanup_issue_code o1 of None \<Rightarrow> [] | Some i \<Rightarrow> [i])"

definition reduced_layer_status :: "CaseEvidence list \<Rightarrow> VerificationStatus" where
  "reduced_layer_status cs =
     (let statuses = set (map case_status cs)
      in if cs \<noteq> [] \<and> statuses = {PASSED} then PASSED
         else if TIMED_OUT \<in> statuses then TIMED_OUT
         else if UNAVAILABLE_STATUS \<in> statuses then UNAVAILABLE_STATUS
         else if cs \<noteq> [] \<and> statuses = {SKIPPED} then SKIPPED
         else FAILED)"

definition new_layer :: "LayerEvidence \<Rightarrow> LayerEvidence res" where
  "new_layer l = (if layer_evidence_ok l then Inr l else Inl ValidationError)"

definition new_case :: "CaseEvidence \<Rightarrow> CaseEvidence res" where
  "new_case e = (if case_evidence_ok e then Inr e else Inl ValidationError)"

definition aggregate_layer_evidence :: "VerificationLayer \<Rightarrow> CaseEvidence list \<Rightarrow> string \<Rightarrow> LayerEvidence res" where
  "aggregate_layer_evidence l cs failed_code =
     (let st = reduced_layer_status cs
      in new_layer \<lparr>layer = l, layer_status = st, cases = cs,
                    layer_issue_codes = (if st = PASSED then [] else [failed_code]), layer_duration_ms = 0\<rparr>)"

section \<open>Assertions and contracts\<close>

fun assertion_passes :: "Observation \<Rightarrow> SmokeAssertion \<Rightarrow> bool" where
  "assertion_passes o1 (OutcomeAssertion i success) =
     (if success then obs_status o1 = SUCCEEDED else obs_status o1 \<noteq> SUCCEEDED)"
| "assertion_passes o1 (ResultShapeAssertion i ids) = (obs_status o1 = SUCCEEDED \<and> selection_ids o1 = ids)"
| "assertion_passes o1 (RowCountAssertion i lo hi) =
     (obs_status o1 = SUCCEEDED \<and> lo \<le> int (length (rows o1)) \<and> int (length (rows o1)) \<le> hi)"
| "assertion_passes o1 (ScalarEqualsAssertion i sel row expected) =
     (obs_status o1 = SUCCEEDED \<and>
      (case selected_observation_value o1 sel row of None \<Rightarrow> False | Some v \<Rightarrow> tagged_scalar_matches expected v))"
| "assertion_passes o1 (IsNullAssertion i sel row expected) =
     (obs_status o1 = SUCCEEDED \<and>
      (case selected_observation_value o1 sel row of None \<Rightarrow> False | Some v \<Rightarrow> (v = VNull) = expected))"
| "assertion_passes o1 (ErrorCodeAssertion i code) = (obs_status o1 \<noteq> SUCCEEDED \<and> error_code o1 = Some code)"

text \<open>Addition with 28 digits; \<open>None\<close> is the \<open>InvalidOperation\<close> of opposite infinities.\<close>

definition decimal_digits :: nat where "decimal_digits = 28"

definition rounded :: "int \<Rightarrow> int \<Rightarrow> dec" where
  "rounded v e =
     (let c = nat \<bar>v\<bar>; n = length (string_of_nat c)
      in if n \<le> decimal_digits then Fin (v < 0) c e
         else let k = n - decimal_digits; q = c div 10 ^ k; r = c mod 10 ^ k; half = 5 * 10 ^ (k - 1);
                  q' = (if half < r \<or> (r = half \<and> odd q) then q + 1 else q)
              in Fin (v < 0) q' (e + int k))"

fun decimal_add :: "dec \<Rightarrow> dec \<Rightarrow> dec option" where
  "decimal_add NaN y = Some NaN"
| "decimal_add (Infin s) NaN = Some NaN"
| "decimal_add (Fin s c e) NaN = Some NaN"
| "decimal_add (Infin s) (Infin s') = (if s = s' then Some (Infin s) else None)"
| "decimal_add (Infin s) (Fin s' c' e') = Some (Infin s)"
| "decimal_add (Fin s c e) (Infin s') = Some (Infin s')"
| "decimal_add (Fin s c e) (Fin s' c' e') =
     (let m = min e e'
      in Some (rounded (signed s c * 10 ^ nat (e - m) + signed s' c' * 10 ^ nat (e' - m)) m))"

definition decimal_total :: "dec list \<Rightarrow> dec option" where
  "decimal_total xs = fold (\<lambda>x acc. Option.bind acc (\<lambda>a. decimal_add a x)) xs (Some (Fin False 0 0))"

fun is_number :: "jv \<Rightarrow> bool" where
  "is_number (VInt i) = True"
| "is_number (VFloat r) = True"
| "is_number v = False"

definition number_decimal :: "jv \<Rightarrow> dec option" where
  "number_decimal v = Option.bind (decimal_text v) decimal_of"

definition aggregate_passes :: "Observation \<Rightarrow> string \<Rightarrow> TaggedExpectedScalar \<Rightarrow> bool res" where
  "aggregate_passes o1 sel expected =
     (if obs_status o1 \<noteq> SUCCEEDED \<or> sel \<notin> set (selection_ids o1) then Inr False
      else let values = List.map_filter (\<lambda>r. map_of (zip (selection_ids o1) r) sel) (rows o1)
           in if \<not> list_all is_number values then Inr False
              else if values = [] then Inr (tagged_scalar_matches expected (VInt 0))
              else case decimal_total (List.map_filter number_decimal values) of
                     None \<Rightarrow> Inl (OtherException ''InvalidOperation'')
                   | Some x \<Rightarrow> Inr (tagged_total_matches expected x))"

fun contract_passes :: "Observation \<Rightarrow> SemanticContract \<Rightarrow> bool res" where
  "contract_passes o1 (ExactProtectedResultContract i fp) = Inr (obs_status o1 = SUCCEEDED \<and> obs_result_fp o1 = Some fp)"
| "contract_passes o1 (ScalarEqualityContract i sel row expected) = Inr
     (obs_status o1 = SUCCEEDED \<and>
      (case selected_observation_value o1 sel row of None \<Rightarrow> False | Some v \<Rightarrow> tagged_scalar_matches expected v))"
| "contract_passes o1 (RowCountEqualityContract i n) = Inr (obs_status o1 = SUCCEEDED \<and> int (length (rows o1)) = n)"
| "contract_passes o1 (RowCountRangeContract i lo hi) = Inr
     (obs_status o1 = SUCCEEDED \<and> lo \<le> int (length (rows o1)) \<and> int (length (rows o1)) \<le> hi)"
| "contract_passes o1 (AggregateTotalContract i sel expected) = aggregate_passes o1 sel expected"
| "contract_passes o1 (MappingOutcomeContract i sel expected) = Inr
     (obs_status o1 = SUCCEEDED \<and>
      (case selected_observation_value o1 sel 0 of None \<Rightarrow> False | Some v \<Rightarrow> tagged_scalar_matches expected v))"
| "contract_passes o1 (NullBehaviorContract i sel row expected) = Inr
     (obs_status o1 = SUCCEEDED \<and>
      (case selected_observation_value o1 sel row of None \<Rightarrow> False | Some v \<Rightarrow> (v = VNull) = expected))"
| "contract_passes o1 (StructuredErrorCodeContract i code) = Inr (obs_status o1 \<noteq> SUCCEEDED \<and> error_code o1 = Some code)"

fun contracts_passed :: "Observation \<Rightarrow> SemanticContract list \<Rightarrow> nat res" where
  "contracts_passed o1 [] = Inr 0"
| "contracts_passed o1 (c # cs) =
     bind_res (contract_passes o1 c) (\<lambda>b. bind_res (contracts_passed o1 cs) (\<lambda>n. Inr (if b then Suc n else n)))"

section \<open>Evaluators\<close>

definition required_of :: "'a QueryCase_scheme \<Rightarrow> string set" where
  "required_of c = set (qc_capabilities c) \<union> set (required_capabilities (qc_query c))"

text \<open>The evidence of a case that is not executed, and of one that is.\<close>

definition unexecuted_case :: "VerificationLayer \<Rightarrow> 'a QueryCase_scheme \<Rightarrow> VerificationStatus \<Rightarrow> nat \<Rightarrow> string \<Rightarrow> CaseEvidence" where
  "unexecuted_case l c st n code =
     \<lparr>case_id = qc_id c, case_layer = l, case_status = st, query_fingerprint = Some (ir_fingerprint (qc_query c)),
      assertion_count = int n, passed_assertion_count = 0, result_fingerprint = None, case_issue_codes = [code],
      case_duration_ms = 0\<rparr>"

definition executed_case :: "VerificationLayer \<Rightarrow> 'a QueryCase_scheme \<Rightarrow> Observation \<Rightarrow> nat \<Rightarrow> nat \<Rightarrow> string \<Rightarrow> CaseEvidence" where
  "executed_case l c o1 n passed mismatch =
     \<lparr>case_id = qc_id c, case_layer = l, case_status = reduced_case_status o1 (passed = n),
      query_fingerprint = Some (ir_fingerprint (qc_query c)), assertion_count = int n, passed_assertion_count = int passed,
      result_fingerprint = obs_result_fp o1, case_issue_codes = observed_issue_codes o1 (passed = n) mismatch,
      case_duration_ms = 0\<rparr>"

definition cached_observation ::
  "cache \<Rightarrow> 'a QueryCase_scheme \<Rightarrow> VerificationExecutionContext \<Rightarrow> Executor \<Rightarrow> (Observation \<times> cache) res" where
  "cached_observation ca c ctx ex =
     execute_once ca (execution_key (qc_query c) (fixture_profile_id c) ctx ex)
       (ex_run ex (qc_query c) (fixture_profile_id c) (deadline_ms c))"

definition smoke_evaluate_case ::
  "Executor \<Rightarrow> VerificationExecutionContext \<Rightarrow> SmokeQueryCase \<Rightarrow> cache \<Rightarrow> (CaseEvidence \<times> cache) res" where
  "smoke_evaluate_case ex ctx c ca =
     (let n = length (smoke_assertions c)
      in if \<not> enabled c then bind_res (new_case (unexecuted_case SMOKE c SKIPPED 0 ''case_disabled'')) (\<lambda>e. Inr (e, ca))
         else bind_res (common_preflight_issue (qc_query c) ctx (required_of c) (ex_capabilities ex)) (\<lambda>issue.
           case issue of
             Some code \<Rightarrow> bind_res (new_case (unexecuted_case SMOKE c FAILED n code)) (\<lambda>e. Inr (e, ca))
           | None \<Rightarrow>
               bind_res (cached_observation ca c ctx ex) (\<lambda>(o1, ca').
               let passed = length (filter (assertion_passes o1) (smoke_assertions c))
               in bind_res (new_case (executed_case SMOKE c o1 n passed ''assertion_mismatch'')) (\<lambda>e. Inr (e, ca')))))"

definition semantic_preflight_issue :: "Executor \<Rightarrow> VerificationExecutionContext \<Rightarrow> SemanticContractCase \<Rightarrow> string option res" where
  "semantic_preflight_issue ex ctx c =
     bind_res (common_preflight_issue (qc_query c) ctx (required_of c) (ex_capabilities ex)) (\<lambda>issue.
       Inr (case issue of
              Some code \<Rightarrow> Some code
            | None \<Rightarrow>
                if list_ex (\<lambda>k. case contract_selection k of
                                  None \<Rightarrow> False
                                | Some s \<Rightarrow> s \<notin> selection_id ` set (selections (qc_query c))) (contracts c)
                then Some ''unknown_semantic_selection'' else None))"

definition semantic_evaluate_case ::
  "Executor \<Rightarrow> VerificationExecutionContext \<Rightarrow> SemanticContractCase \<Rightarrow> cache \<Rightarrow> (CaseEvidence \<times> cache) res" where
  "semantic_evaluate_case ex ctx c ca =
     (let n = length (contracts c)
      in if \<not> enabled c then bind_res (new_case (unexecuted_case SEMANTIC c SKIPPED 0 ''case_disabled'')) (\<lambda>e. Inr (e, ca))
         else bind_res (semantic_preflight_issue ex ctx c) (\<lambda>issue.
           case issue of
             Some code \<Rightarrow> bind_res (new_case (unexecuted_case SEMANTIC c FAILED n code)) (\<lambda>e. Inr (e, ca))
           | None \<Rightarrow>
               bind_res (cached_observation ca c ctx ex) (\<lambda>(o1, ca').
               bind_res (contracts_passed o1 (contracts c)) (\<lambda>passed.
               bind_res (new_case (executed_case SEMANTIC c o1 n passed ''semantic_contract_mismatch'')) (\<lambda>e. Inr (e, ca'))))))"

fun evaluate_cases :: "('c \<Rightarrow> cache \<Rightarrow> (CaseEvidence \<times> cache) res) \<Rightarrow> 'c list \<Rightarrow> cache \<Rightarrow> (CaseEvidence list \<times> cache) res" where
  "evaluate_cases f [] ca = Inr ([], ca)"
| "evaluate_cases f (c # cs) ca =
     bind_res (f c ca) (\<lambda>(e, ca'). bind_res (evaluate_cases f cs ca') (\<lambda>(es, ca''). Inr (e # es, ca'')))"

definition smoke_evaluate_layer ::
  "Executor \<Rightarrow> VerificationExecutionContext \<Rightarrow> SmokeQueryCase list \<Rightarrow> cache \<Rightarrow> (LayerEvidence \<times> cache) res" where
  "smoke_evaluate_layer ex ctx cs ca =
     bind_res (evaluate_cases (smoke_evaluate_case ex ctx) (sort_key qc_id cs) ca) (\<lambda>(es, ca').
     bind_res (aggregate_layer_evidence SMOKE es ''smoke_layer_failed'') (\<lambda>l. Inr (l, ca')))"

definition semantic_evaluate_layer ::
  "Executor \<Rightarrow> VerificationExecutionContext \<Rightarrow> SemanticContractCase list \<Rightarrow> cache \<Rightarrow> (LayerEvidence \<times> cache) res" where
  "semantic_evaluate_layer ex ctx cs ca =
     bind_res (evaluate_cases (semantic_evaluate_case ex ctx) (sort_key qc_id cs) ca) (\<lambda>(es, ca').
     bind_res (aggregate_layer_evidence SEMANTIC es ''semantic_layer_failed'') (\<lambda>l. Inr (l, ca')))"

section \<open>The suite\<close>

definition SUITE_RUNNER_ID :: string where "SUITE_RUNNER_ID = ''nl2data-core-verification-suite''"
definition SUITE_RUNNER_VERSION :: int where "SUITE_RUNNER_VERSION = 1"

definition not_run :: "VerificationLayer \<Rightarrow> string \<Rightarrow> LayerEvidence" where
  "not_run l code = \<lparr>layer = l, layer_status = NOT_RUN, cases = [], layer_issue_codes = [code], layer_duration_ms = 0\<rparr>"

definition timed_out_layer :: "VerificationLayer \<Rightarrow> LayerEvidence" where
  "timed_out_layer l =
     \<lparr>layer = l, layer_status = TIMED_OUT, cases = [], layer_issue_codes = [''layer_deadline_exhausted''], layer_duration_ms = 0\<rparr>"

definition publication_verification_classification :: "SuiteEvidence option \<Rightarrow> string" where
  "publication_verification_classification e = (case e of None \<Rightarrow> ''legacy_unverified'' | Some s \<Rightarrow> se_policy_profile s)"

definition new_suite :: "SuiteEvidence \<Rightarrow> SuiteEvidence res" where
  "new_suite e = (if suite_evidence_ok e then Inr e else Inl ValidationError)"

definition compatibility_suite_evidence ::
  "LayerEvidence \<Rightarrow> string \<Rightarrow> int \<Rightarrow> string \<Rightarrow> string \<Rightarrow> string \<Rightarrow> string \<Rightarrow> SuiteEvidence res" where
  "compatibility_suite_evidence structural draft revision bundle_fp manifest_fp tenant source =
     (let st = (if layer_status structural = PASSED then PASSED else FAILED)
      in new_suite
        \<lparr>suite_status = st, se_policy_profile = policy_id COMPATIBILITY_POLICY,
         se_policy_version = policy_version COMPATIBILITY_POLICY,
         se_policy_fingerprint = verification_policy_fingerprint COMPATIBILITY_POLICY, se_plan_fingerprint = None,
         runner_id = SUITE_RUNNER_ID, runner_version = SUITE_RUNNER_VERSION, se_draft_id = draft, se_draft_revision = revision,
         se_bundle_fingerprint = bundle_fp, se_manifest_fingerprint = manifest_fp, se_tenant = tenant, se_source = source,
         executor_id = None, executor_capability_fingerprint = None,
         layers = [structural, not_run SMOKE ''not_required'', not_run SEMANTIC ''not_required''],
         suite_issue_codes = (if st = PASSED then [] else [''layer_1_failed'']), suite_duration_ms = 0\<rparr>)"

definition enabled_count :: "'a QueryCase_scheme list \<Rightarrow> int" where
  "enabled_count cs = int (length (filter enabled cs))"

definition plan_policy_issues :: "Plan option \<Rightarrow> VerificationPolicy \<Rightarrow> string list" where
  "plan_policy_issues plan p =
     (case plan of
        None \<Rightarrow> if policy_id p = ''compatibility-v1'' then [] else [''plan_required'']
      | Some pl \<Rightarrow>
          (if plan_profile pl \<noteq> policy_id p \<or> plan_version pl \<noteq> policy_version p then [''policy_plan_mismatch''] else []) @
          (if enabled_count (smoke_cases pl) < minimum_enabled_smoke_cases p then [''smoke_case_minimum_not_met''] else []) @
          (if enabled_count (semantic_cases pl) < minimum_enabled_semantic_cases p then [''semantic_case_minimum_not_met''] else []))"

definition suite_evidence ::
  "VerificationStatus \<Rightarrow> Plan option \<Rightarrow> VerificationPolicy \<Rightarrow> VerificationExecutionContext \<Rightarrow> string \<Rightarrow> int \<Rightarrow>
   LayerEvidence list \<Rightarrow> string list \<Rightarrow> Executor option \<Rightarrow> SuiteEvidence" where
  "suite_evidence st plan p ctx draft revision ls codes used =
     \<lparr>suite_status = st, se_policy_profile = policy_id p, se_policy_version = policy_version p,
      se_policy_fingerprint = verification_policy_fingerprint p, se_plan_fingerprint = map_option plan_fingerprint plan,
      runner_id = SUITE_RUNNER_ID, runner_version = SUITE_RUNNER_VERSION, se_draft_id = draft, se_draft_revision = revision,
      se_bundle_fingerprint = bundle_fingerprint (candidate ctx),
      se_manifest_fingerprint = manifest_fingerprint (ctx_manifest ctx),
      se_tenant = ctx_tenant_scope ctx, se_source = ctx_source_scope ctx,
      executor_id = map_option ex_id used, executor_capability_fingerprint = map_option ex_capability_fp used,
      layers = ls, suite_issue_codes = codes, suite_duration_ms = 0\<rparr>"

text \<open>\<open>tuple(dict.fromkeys(issues))\<close>.\<close>

definition first_occurrences :: "'a list \<Rightarrow> 'a list" where
  "first_occurrences xs = rev (remdups (rev xs))"

definition layer_passed :: "LayerEvidence list \<Rightarrow> VerificationLayer \<Rightarrow> bool" where
  "layer_passed ls l = (case List.find (\<lambda>x. layer x = l) ls of None \<Rightarrow> False | Some x \<Rightarrow> layer_status x = PASSED)"

definition run_smoke ::
  "Executor \<Rightarrow> Plan \<Rightarrow> VerificationExecutionContext \<Rightarrow> cache option \<Rightarrow> (LayerEvidence \<times> cache) res" where
  "run_smoke ex pl ctx interrupted =
     (case interrupted of
        Some ca \<Rightarrow> Inr (timed_out_layer SMOKE, ca)
      | None \<Rightarrow> smoke_evaluate_layer ex ctx (smoke_cases pl) [])"

definition run_semantic ::
  "Executor \<Rightarrow> Plan \<Rightarrow> VerificationExecutionContext \<Rightarrow> bool \<Rightarrow> cache \<Rightarrow> LayerEvidence res" where
  "run_semantic ex pl ctx expired ca =
     (if expired then Inr (timed_out_layer SEMANTIC)
      else bind_res (semantic_evaluate_layer ex ctx (semantic_cases pl) ca) (\<lambda>(l, _). Inr l))"

text \<open>Layers two and three, with the issues they add.\<close>

definition run_layers ::
  "Executor \<Rightarrow> Plan \<Rightarrow> VerificationPolicy \<Rightarrow> VerificationExecutionContext \<Rightarrow> cache option \<Rightarrow> bool \<Rightarrow>
   (LayerEvidence list \<times> string list) res" where
  "run_layers ex pl p ctx interrupted expired =
     bind_res (run_smoke ex pl ctx interrupted) (\<lambda>(smoke, ca).
     if SMOKE |\<in>| required_layers p \<and> layer_status smoke \<noteq> PASSED then
       Inr ([smoke, not_run SEMANTIC ''layer_2_failed''], [''layer_2_failed''])
     else
       bind_res (run_semantic ex pl ctx expired ca) (\<lambda>semantic.
       Inr ([smoke, semantic],
            if SEMANTIC |\<in>| required_layers p \<and> layer_status semantic \<noteq> PASSED then [''layer_3_failed''] else [])))"

definition run_suite ::
  "Executor \<Rightarrow> Plan option \<Rightarrow> VerificationPolicy \<Rightarrow> LayerEvidence \<Rightarrow> VerificationExecutionContext \<Rightarrow> string \<Rightarrow> int \<Rightarrow>
   cache option \<Rightarrow> bool \<Rightarrow> SuiteEvidence res" where
  "run_suite ex plan p structural ctx draft revision interrupted expired =
     (let issues = plan_policy_issues plan p @
            (if verification_policy_fingerprint (ctx_policy ctx) \<noteq> verification_policy_fingerprint p
             then [''context_policy_mismatch''] else [])
      in if layer_status structural \<noteq> PASSED then
           new_suite (suite_evidence FAILED plan p ctx draft revision
             [structural, not_run SMOKE ''layer_1_failed'', not_run SEMANTIC ''layer_1_failed'']
             (first_occurrences (issues @ [''layer_1_failed''])) None)
         else case (issues, plan) of
           ([], Some pl) \<Rightarrow>
             bind_res (run_layers ex pl p ctx interrupted expired) (\<lambda>(ls, codes).
             new_suite (suite_evidence
               (if codes = [] \<and> fBall (required_layers p) (layer_passed (structural # ls)) then PASSED else FAILED)
               plan p ctx draft revision (structural # ls) codes
               (if smoke_cases pl \<noteq> [] \<or> semantic_cases pl \<noteq> [] then Some ex else None)))
         | _ \<Rightarrow>
             new_suite (suite_evidence (if issues \<noteq> [] then FAILED else PASSED) plan p ctx draft revision
               [structural, not_run SMOKE ''not_required'', not_run SEMANTIC ''not_required''] issues None))"

section \<open>Checks of existing evidence\<close>

definition evidence_layers :: "SuiteEvidence \<Rightarrow> VerificationLayer \<Rightarrow> LayerEvidence option" where
  "evidence_layers e l = map_of (rev (map (\<lambda>x. (layer x, x)) (layers e))) l"

definition enabled_ids :: "'a QueryCase_scheme list \<Rightarrow> string list" where
  "enabled_ids cs = remdups (map qc_id (filter enabled cs))"

definition layer_satisfies :: "bool \<Rightarrow> LayerEvidence \<Rightarrow> 'a QueryCase_scheme list \<Rightarrow> int \<Rightarrow> bool" where
  "layer_satisfies all_pass l cs minimum =
     (let observed = map_of (rev (map (\<lambda>x. (case_id x, x)) (cases l)))
      in minimum \<le> int (length (enabled_ids cs)) \<and>
         list_all (\<lambda>i. observed i \<noteq> None) (enabled_ids cs) \<and>
         (all_pass \<longrightarrow> list_all (\<lambda>i. map_option case_status (observed i) = Some PASSED) (enabled_ids cs)))"

definition satisfies_policy :: "SuiteEvidence \<Rightarrow> Plan option \<Rightarrow> VerificationPolicy \<Rightarrow> bool" where
  "satisfies_policy e plan p =
     (fBall (required_layers p) (\<lambda>l. map_option layer_status (evidence_layers e l) = Some PASSED) \<and>
      (case plan of
         None \<Rightarrow>
           required_layers p = {|STRUCTURAL|} \<or>
           (se_plan_fingerprint e \<noteq> None \<and>
            fBall (required_layers p) (\<lambda>l. l \<noteq> STRUCTURAL \<longrightarrow>
              (case evidence_layers e l of
                 None \<Rightarrow> False
               | Some x \<Rightarrow> cases x \<noteq> [] \<and> list_all (\<lambda>c. case_status c = PASSED) (cases x))))
       | Some pl \<Rightarrow>
           (SMOKE |\<in>| required_layers p \<longrightarrow>
             (case evidence_layers e SMOKE of
                None \<Rightarrow> False
              | Some x \<Rightarrow> layer_satisfies (require_all_enabled_cases_pass p) x (smoke_cases pl) (minimum_enabled_smoke_cases p))) \<and>
           (SEMANTIC |\<in>| required_layers p \<longrightarrow>
             (case evidence_layers e SEMANTIC of
                None \<Rightarrow> False
              | Some x \<Rightarrow> layer_satisfies (require_all_enabled_cases_pass p) x (semantic_cases pl) (minimum_enabled_semantic_cases p)))))"

definition evidence_satisfies_policy :: "SuiteEvidence \<Rightarrow> VerificationPolicy \<Rightarrow> bool" where
  "evidence_satisfies_policy e p \<longleftrightarrow> suite_status e = PASSED \<and> satisfies_policy e None p"

definition validate_bound_evidence ::
  "SuiteEvidence \<Rightarrow> Plan option \<Rightarrow> VerificationPolicy \<Rightarrow> VerificationExecutionContext \<Rightarrow> string \<Rightarrow> int \<Rightarrow> Executor option \<Rightarrow> bool" where
  "validate_bound_evidence e plan p ctx draft revision ex \<longleftrightarrow>
     suite_status e = PASSED \<and> satisfies_policy e plan p \<and>
     se_plan_fingerprint e = map_option plan_fingerprint plan \<and> se_policy_profile e = policy_id p \<and>
     se_policy_version e = policy_version p \<and> se_policy_fingerprint e = verification_policy_fingerprint p \<and>
     se_draft_id e = draft \<and> se_draft_revision e = revision \<and>
     se_bundle_fingerprint e = bundle_fingerprint (candidate ctx) \<and>
     se_manifest_fingerprint e = manifest_fingerprint (ctx_manifest ctx) \<and>
     se_tenant e = ctx_tenant_scope ctx \<and> se_source e = ctx_source_scope ctx \<and>
     runner_id e = SUITE_RUNNER_ID \<and> runner_version e = SUITE_RUNNER_VERSION \<and>
     executor_id e = map_option ex_id ex \<and> executor_capability_fingerprint e = map_option ex_capability_fp ex"

section \<open>Executed cases\<close>

text \<open>An observation the executor returned for an execution with the key of the case.\<close>

definition observed_by :: "Executor \<Rightarrow> VerificationExecutionContext \<Rightarrow> 'a QueryCase_scheme \<Rightarrow> Observation \<Rightarrow> bool" where
  "observed_by ex ctx c o1 \<longleftrightarrow>
     (\<exists>q f n. execution_key q f ctx ex = execution_key (qc_query c) (fixture_profile_id c) ctx ex \<and> ex_run ex q f n = Inr o1)"

definition cache_sound :: "Executor \<Rightarrow> VerificationExecutionContext \<Rightarrow> cache \<Rightarrow> bool" where
  "cache_sound ex ctx ca \<longleftrightarrow>
     (\<forall>k r. dict_get ca k = Some r \<longrightarrow> (\<exists>q f n. k = execution_key q f ctx ex \<and> r = ex_run ex q f n))"

lemma cache_sound_Nil [simp]: "cache_sound ex ctx []"
  by (simp add: cache_sound_def)

lemma cached_observation_sound:
  assumes "cached_observation ca c ctx ex = Inr (o1, ca')" "cache_sound ex ctx ca"
  shows "observed_by ex ctx c o1 \<and> cache_sound ex ctx ca'"
proof (cases "dict_get ca (execution_key (qc_query c) (fixture_profile_id c) ctx ex)")
  case None
  let ?k = "execution_key (qc_query c) (fixture_profile_id c) ctx ex"
  have run: "ex_run ex (qc_query c) (fixture_profile_id c) (deadline_ms c) = Inr o1" "ca' = dict_set ?k (Inr o1) ca"
    using None assms(1) by (auto simp: cached_observation_def execute_once_def bind_res_Inr_iff)
  have "\<exists>q f n. k = execution_key q f ctx ex \<and> r = ex_run ex q f n" if "dict_get ca' k = Some r" for k r
  proof (cases "k = ?k")
    case True
    with that run show ?thesis by (intro exI [of _ "qc_query c"] exI [of _ "fixture_profile_id c"] exI [of _ "deadline_ms c"]) simp
  next
    case False
    with that run have "dict_get ca k = Some r" by simp
    with assms(2) show ?thesis by (simp add: cache_sound_def)
  qed
  with run show ?thesis by (auto simp: cache_sound_def observed_by_def)
next
  case (Some r)
  then obtain q f n where "execution_key (qc_query c) (fixture_profile_id c) ctx ex = execution_key q f ctx ex" "r = ex_run ex q f n"
    using assms(2) unfolding cache_sound_def by blast
  with Some assms show ?thesis
    by (auto simp: cached_observation_def execute_once_def observed_by_def bind_res_Inr_iff)
qed

lemma evaluate_cases_list:
  assumes "evaluate_cases f cs ca = Inr (es, ca')" "I ca"
    and "\<And>c a e a'. f c a = Inr (e, a') \<Longrightarrow> I a \<Longrightarrow> P c e \<and> I a'"
  shows "list_all2 P cs es \<and> I ca'"
  using assms
proof (induction cs arbitrary: ca es)
  case (Cons c cs)
  then obtain e a es' where step: "f c ca = Inr (e, a)" "evaluate_cases f cs a = Inr (es', ca')" "es = e # es'"
    by (auto simp: bind_res_Inr_iff)
  with Cons.prems(2,3) have "P c e" "I a" by blast+
  with Cons.IH [OF step(2)] Cons.prems(3) step(3) show ?case by simp
qed simp

lemma reduced_layer_passed:
  "reduced_layer_status cs = PASSED \<longleftrightarrow> cs \<noteq> [] \<and> (\<forall>c \<in> set cs. case_status c = PASSED)"
  by (cases cs) (auto simp: reduced_layer_status_def Let_def)

lemma nonpass_not_passed [simp]: "nonpass_status s \<noteq> PASSED"
  by (cases s) simp_all

lemma reduced_case_passed [simp]: "reduced_case_status o1 b = PASSED \<longleftrightarrow> b"
  by (auto simp: reduced_case_status_def)

text \<open>What a passed case says: it was enabled and every one of its assertions holds of its observation.\<close>

definition case_met :: "(Observation \<Rightarrow> bool) \<Rightarrow> Executor \<Rightarrow> VerificationExecutionContext \<Rightarrow> 'a QueryCase_scheme \<Rightarrow> bool" where
  "case_met holds ex ctx c \<longleftrightarrow> enabled c \<and> (\<exists>o1. observed_by ex ctx c o1 \<and> holds o1)"

definition smoke_met :: "Executor \<Rightarrow> VerificationExecutionContext \<Rightarrow> SmokeQueryCase \<Rightarrow> bool" where
  "smoke_met ex ctx c = case_met (\<lambda>o1. \<forall>a \<in> set (smoke_assertions c). assertion_passes o1 a) ex ctx c"

definition semantic_met :: "Executor \<Rightarrow> VerificationExecutionContext \<Rightarrow> SemanticContractCase \<Rightarrow> bool" where
  "semantic_met ex ctx c = case_met (\<lambda>o1. \<forall>k \<in> set (contracts c). contract_passes o1 k = Inr True) ex ctx c"

definition reports :: "'a QueryCase_scheme \<Rightarrow> bool \<Rightarrow> CaseEvidence \<Rightarrow> bool" where
  "reports c met e \<longleftrightarrow> case_id e = qc_id c \<and> (case_status e = PASSED \<longrightarrow> met)"

lemma all_filtered: "length (filter P xs) = length xs \<longleftrightarrow> (\<forall>x \<in> set xs. P x)"
  by (metis filter_id_conv length_filter_less less_irrefl)

lemma contracts_passed_all:
  "contracts_passed o1 ks = Inr n \<Longrightarrow> n \<le> length ks \<and> (n = length ks \<longrightarrow> (\<forall>k \<in> set ks. contract_passes o1 k = Inr True))"
proof (induction ks arbitrary: n)
  case (Cons k ks)
  then obtain b m where b: "contract_passes o1 k = Inr b" "contracts_passed o1 ks = Inr m" "n = (if b then Suc m else m)"
    by (auto simp: bind_res_Inr_iff)
  with Cons.IH [OF b(2)] show ?case by (auto split: if_splits)
qed simp

lemma smoke_case_reports:
  assumes "smoke_evaluate_case ex ctx c ca = Inr (e, ca')" "cache_sound ex ctx ca"
  shows "reports c (smoke_met ex ctx c) e \<and> cache_sound ex ctx ca'"
  using assms cached_observation_sound [of ca c ctx ex]
  by (auto simp: smoke_evaluate_case_def Let_def bind_res_Inr_iff new_case_def unexecuted_case_def executed_case_def
      reports_def smoke_met_def case_met_def all_filtered split: option.splits if_splits)

lemma semantic_case_reports:
  assumes "semantic_evaluate_case ex ctx c ca = Inr (e, ca')" "cache_sound ex ctx ca"
  shows "reports c (semantic_met ex ctx c) e \<and> cache_sound ex ctx ca'"
  using assms cached_observation_sound [of ca c ctx ex] contracts_passed_all
  by (fastforce simp: semantic_evaluate_case_def Let_def bind_res_Inr_iff new_case_def unexecuted_case_def executed_case_def
      reports_def semantic_met_def case_met_def split: option.splits if_splits)

text \<open>A layer that passed covers every case of the plan, in the order of the case ids.\<close>

definition layer_covers :: "VerificationLayer \<Rightarrow> ('a QueryCase_scheme \<Rightarrow> bool) \<Rightarrow> 'a QueryCase_scheme list \<Rightarrow> LayerEvidence \<Rightarrow> bool" where
  "layer_covers k met cs l \<longleftrightarrow>
     layer l = k \<and>
     (layer_status l = PASSED \<longrightarrow>
        cs \<noteq> [] \<and> (\<forall>c \<in> set cs. met c) \<and> map case_id (cases l) = map qc_id (sort_key qc_id cs) \<and>
        (\<forall>e \<in> set (cases l). case_status e = PASSED))"

lemma layer_covers_layer: "layer_covers k met cs l \<Longrightarrow> layer l = k"
  by (simp add: layer_covers_def)

lemma layer_covers_cases:
  assumes "layer_covers k met cs l" "layer_status l = PASSED"
  shows "cases l \<noteq> [] \<and> list_all (\<lambda>c. case_status c = PASSED) (cases l)"
proof -
  have "length (map case_id (cases l)) = length (map qc_id (sort_key qc_id cs))" "cs \<noteq> []"
    "\<forall>e \<in> set (cases l). case_status e = PASSED"
    using assms by (simp_all add: layer_covers_def)
  then show ?thesis by (auto simp: list_all_iff)
qed

lemma reported_layer:
  assumes "list_all2 (\<lambda>c e. reports c (met c) e) (sort_key qc_id cs) es"
    and "aggregate_layer_evidence k es code = Inr l"
  shows "layer_covers k met cs l"
proof -
  have l: "layer l = k" "layer_status l = reduced_layer_status es" "cases l = es"
    using assms(2) by (auto simp: aggregate_layer_evidence_def new_layer_def Let_def split: if_splits)
  have ids: "map case_id es = map qc_id (sort_key qc_id cs)"
    using assms(1) by (induction rule: list_all2_induct) (simp_all add: reports_def)
  have "\<forall>c \<in> set cs. met c" if "\<forall>e \<in> set es. case_status e = PASSED"
  proof -
    have "\<forall>c \<in> set (sort_key qc_id cs). met c"
      using assms(1) that by (induction rule: list_all2_induct) (simp_all add: reports_def)
    then show ?thesis by simp
  qed
  moreover have "cs \<noteq> []" if "es \<noteq> []" using assms(1) that by auto
  ultimately show ?thesis using l ids by (simp add: layer_covers_def reduced_layer_passed)
qed

lemma run_smoke_covers:
  assumes "run_smoke ex pl ctx interrupted = Inr (l, ca)" "\<And>a. interrupted = Some a \<Longrightarrow> cache_sound ex ctx a"
  shows "layer_covers SMOKE (smoke_met ex ctx) (smoke_cases pl) l \<and> cache_sound ex ctx ca"
proof (cases interrupted)
  case None
  with assms(1) obtain es where es: "evaluate_cases (smoke_evaluate_case ex ctx) (sort_key qc_id (smoke_cases pl)) [] = Inr (es, ca)"
    "aggregate_layer_evidence SMOKE es ''smoke_layer_failed'' = Inr l"
    by (auto simp: run_smoke_def smoke_evaluate_layer_def bind_res_Inr_iff)
  with evaluate_cases_list [OF es(1), of "cache_sound ex ctx" "\<lambda>c. reports c (smoke_met ex ctx c)"] smoke_case_reports
    reported_layer [of "smoke_met ex ctx", OF _ es(2)]
  show ?thesis by simp
next
  case (Some a)
  with assms show ?thesis by (auto simp: run_smoke_def timed_out_layer_def layer_covers_def)
qed

lemma run_semantic_covers:
  assumes "run_semantic ex pl ctx expired ca = Inr l" "cache_sound ex ctx ca"
  shows "layer_covers SEMANTIC (semantic_met ex ctx) (semantic_cases pl) l"
proof (cases expired)
  case False
  with assms(1) obtain es ca' where es:
    "evaluate_cases (semantic_evaluate_case ex ctx) (sort_key qc_id (semantic_cases pl)) ca = Inr (es, ca')"
    "aggregate_layer_evidence SEMANTIC es ''semantic_layer_failed'' = Inr l"
    by (auto simp: run_semantic_def semantic_evaluate_layer_def bind_res_Inr_iff)
  with evaluate_cases_list [OF es(1), of "cache_sound ex ctx" "\<lambda>c. reports c (semantic_met ex ctx c)"] semantic_case_reports
    reported_layer [of "semantic_met ex ctx", OF _ es(2)] assms(2)
  show ?thesis by simp
next
  case True
  with assms show ?thesis by (auto simp: run_semantic_def timed_out_layer_def layer_covers_def)
qed

section \<open>The suite fails closed\<close>

lemma layer_value_inj: "layer_value k = layer_value l \<Longrightarrow> k = l"
  by (cases k; cases l) simp_all

text \<open>The built-in compatibility policy asks for the structural layer only.\<close>

lemma compatibility_layers:
  assumes "policy_ok p" "policy_id p = ''compatibility-v1''"
  shows "required_layers p = {|STRUCTURAL|}"
proof -
  have "Verification_Evidence.policy_payload p = Verification_Evidence.policy_payload COMPATIBILITY_POLICY"
    using assms by (simp add: policy_ok_def builtin_policy_def)
  then have "map VStr (sorted_list_of_fset (layer_value |`| required_layers p)) =
      map VStr (sorted_list_of_fset (layer_value |`| required_layers COMPATIBILITY_POLICY))"
    by (simp add: Verification_Evidence.policy_payload_def)
  then have "sorted_list_of_fset (layer_value |`| required_layers p) =
      sorted_list_of_fset (layer_value |`| required_layers COMPATIBILITY_POLICY)"
    by (rule map_injective) (simp add: inj_def)
  then have "layer_value |`| required_layers p = layer_value |`| required_layers COMPATIBILITY_POLICY"
    using sorted_list_of_fset_simps(2) by metis
  then have "layer_value ` fset (required_layers p) = layer_value ` fset (required_layers COMPATIBILITY_POLICY)"
    by (metis fimage.rep_eq)
  moreover have "inj layer_value" by (auto simp: inj_def layer_value_inj)
  ultimately have "required_layers p = required_layers COMPATIBILITY_POLICY" by (simp add: inj_image_eq_iff fset_inject)
  then show ?thesis by (simp add: COMPATIBILITY_POLICY_def)
qed

text \<open>The two ways a suite passes.\<close>

lemma suite_passed_cases:
  assumes "run_suite ex plan p structural ctx draft revision interrupted expired = Inr e" "suite_status e = PASSED"
  obtains (compatible) "plan = None" "policy_id p = ''compatibility-v1''" "layer_status structural = PASSED"
      "verification_policy_fingerprint (ctx_policy ctx) = verification_policy_fingerprint p"
      "e = suite_evidence PASSED None p ctx draft revision
             [structural, not_run SMOKE ''not_required'', not_run SEMANTIC ''not_required''] [] None"
  | (planned) pl ls where "plan = Some pl" "plan_policy_issues plan p = []" "layer_status structural = PASSED"
      "verification_policy_fingerprint (ctx_policy ctx) = verification_policy_fingerprint p"
      "run_layers ex pl p ctx interrupted expired = Inr (ls, [])"
      "fBall (required_layers p) (layer_passed (structural # ls))"
      "e = suite_evidence PASSED plan p ctx draft revision (structural # ls) []
             (if smoke_cases pl \<noteq> [] \<or> semantic_cases pl \<noteq> [] then Some ex else None)"
proof -
  define codes where "codes = plan_policy_issues plan p @
    (if verification_policy_fingerprint (ctx_policy ctx) \<noteq> verification_policy_fingerprint p then [''context_policy_mismatch''] else [])"
  note run = assms(1) [unfolded run_suite_def, folded codes_def, unfolded Let_def]
  have structural: "layer_status structural = PASSED"
    using run assms(2) by (auto simp: new_suite_def suite_evidence_def split: if_splits)
  note run = run [unfolded structural, simplified]
  have "codes = []"
    using run assms(2) by (auto simp: new_suite_def suite_evidence_def split: list.splits option.splits if_splits)
  then have none: "plan_policy_issues plan p = []"
    "verification_policy_fingerprint (ctx_policy ctx) = verification_policy_fingerprint p"
    by (auto simp: codes_def split: if_splits)
  show thesis
  proof (cases plan)
    case None
    with run \<open>codes = []\<close> have "e = suite_evidence PASSED None p ctx draft revision
        [structural, not_run SMOKE ''not_required'', not_run SEMANTIC ''not_required''] [] None"
      by (simp add: new_suite_def split: if_splits)
    moreover have "policy_id p = ''compatibility-v1''" using none(1) None by (simp add: plan_policy_issues_def split: if_splits)
    ultimately show thesis using None structural none(2) by (intro compatible)
  next
    case (Some pl)
    define used where "used = (if smoke_cases pl \<noteq> [] \<or> semantic_cases pl \<noteq> [] then Some ex else None)"
    from Some run \<open>codes = []\<close> obtain ls cs where layers: "run_layers ex pl p ctx interrupted expired = Inr (ls, cs)"
      and e: "new_suite (suite_evidence
               (if cs = [] \<and> fBall (required_layers p) (layer_passed (structural # ls)) then PASSED else FAILED)
               plan p ctx draft revision (structural # ls) cs used) = Inr e"
      by (auto simp: bind_res_Inr_iff used_def)
    from e assms(2) have "cs = []" "fBall (required_layers p) (layer_passed (structural # ls))"
      by (auto simp: new_suite_def suite_evidence_def split: if_splits)
    with e layers show thesis
      using Some structural none
      by (intro planned [of pl ls, folded used_def]) (simp_all add: new_suite_def split: if_splits)
  qed
qed

lemma run_layers_covers:
  assumes "run_layers ex pl p ctx interrupted expired = Inr (ls, [])" "\<And>a. interrupted = Some a \<Longrightarrow> cache_sound ex ctx a"
  obtains smoke semantic where "ls = [smoke, semantic]"
    "layer_covers SMOKE (smoke_met ex ctx) (smoke_cases pl) smoke"
    "layer_covers SEMANTIC (semantic_met ex ctx) (semantic_cases pl) semantic"
    "SMOKE |\<in>| required_layers p \<Longrightarrow> layer_status smoke = PASSED"
    "SEMANTIC |\<in>| required_layers p \<Longrightarrow> layer_status semantic = PASSED"
proof -
  from assms(1) obtain smoke ca semantic where smoke: "run_smoke ex pl ctx interrupted = Inr (smoke, ca)"
    and required: "SMOKE |\<in>| required_layers p \<Longrightarrow> layer_status smoke = PASSED"
    and semantic: "run_semantic ex pl ctx expired ca = Inr semantic" "ls = [smoke, semantic]"
      "SEMANTIC |\<in>| required_layers p \<Longrightarrow> layer_status semantic = PASSED"
    by (auto simp: run_layers_def bind_res_Inr_iff split: if_splits)
  with run_smoke_covers [OF smoke assms(2)] run_semantic_covers [OF semantic(1)] that show thesis by blast
qed

lemma suite_passed_met:
  assumes "policy_ok p" "layer structural = STRUCTURAL" "\<And>ca. interrupted = Some ca \<Longrightarrow> cache_sound ex ctx ca"
    and "run_suite ex plan p structural ctx draft revision interrupted expired = Inr e" "suite_status e = PASSED"
  shows "verification_policy_fingerprint (ctx_policy ctx) = verification_policy_fingerprint p \<and>
      (\<forall>l. l |\<in>| required_layers p \<longrightarrow> layer_passed (layers e) l) \<and>
      (SMOKE |\<in>| required_layers p \<longrightarrow> (\<exists>pl. plan = Some pl \<and>
         minimum_enabled_smoke_cases p \<le> enabled_count (smoke_cases pl) \<and> (\<forall>c \<in> set (smoke_cases pl). smoke_met ex ctx c))) \<and>
      (SEMANTIC |\<in>| required_layers p \<longrightarrow> (\<exists>pl. plan = Some pl \<and>
         minimum_enabled_semantic_cases p \<le> enabled_count (semantic_cases pl) \<and>
         (\<forall>c \<in> set (semantic_cases pl). semantic_met ex ctx c)))"
  using assms(4,5)
proof (cases rule: suite_passed_cases)
  case compatible
  with compatibility_layers [OF assms(1)] assms(2) show ?thesis
    by (simp add: suite_evidence_def layer_passed_def)
next
  case (planned pl ls)
  obtain smoke semantic where ls: "ls = [smoke, semantic]"
    "layer_covers SMOKE (smoke_met ex ctx) (smoke_cases pl) smoke"
    "layer_covers SEMANTIC (semantic_met ex ctx) (semantic_cases pl) semantic"
    "SMOKE |\<in>| required_layers p \<Longrightarrow> layer_status smoke = PASSED"
    "SEMANTIC |\<in>| required_layers p \<Longrightarrow> layer_status semantic = PASSED"
    using run_layers_covers [OF planned(5) assms(3)] by blast
  have minimum: "minimum_enabled_smoke_cases p \<le> enabled_count (smoke_cases pl)"
    "minimum_enabled_semantic_cases p \<le> enabled_count (semantic_cases pl)"
    using planned(1,2) by (auto simp: plan_policy_issues_def split: if_splits)
  have "layers e = structural # ls" using planned(7) by (simp add: suite_evidence_def)
  then have "\<forall>l. l |\<in>| required_layers p \<longrightarrow> layer_passed (layers e) l" using planned(6) by simp
  with planned(1,4) ls(2-5) minimum show ?thesis by (simp add: layer_covers_def)
qed

lemma suite_status_codes:
  assumes "layer structural = STRUCTURAL" "\<And>ca. interrupted = Some ca \<Longrightarrow> cache_sound ex ctx ca"
    and "run_suite ex plan p structural ctx draft revision interrupted expired = Inr e"
  shows "suite_status e = (if suite_issue_codes e = [] then PASSED else FAILED)"
proof -
  define codes where "codes = plan_policy_issues plan p @
    (if verification_policy_fingerprint (ctx_policy ctx) \<noteq> verification_policy_fingerprint p then [''context_policy_mismatch''] else [])"
  note run = assms(3) [unfolded run_suite_def, folded codes_def, unfolded Let_def]
  consider (structural) "layer_status structural \<noteq> PASSED"
    | (planned) pl where "layer_status structural = PASSED" "codes = []" "plan = Some pl"
    | (other) "layer_status structural = PASSED" "codes \<noteq> [] \<or> plan = None"
    by (cases plan) auto
  then show ?thesis
  proof cases
    case structural
    with run show ?thesis by (auto simp: new_suite_def suite_evidence_def first_occurrences_def split: if_splits)
  next
    case (planned pl)
    define used where "used = (if smoke_cases pl \<noteq> [] \<or> semantic_cases pl \<noteq> [] then Some ex else None)"
    from planned run obtain ls cs where layers: "run_layers ex pl p ctx interrupted expired = Inr (ls, cs)"
      and e: "new_suite (suite_evidence
               (if cs = [] \<and> fBall (required_layers p) (layer_passed (structural # ls)) then PASSED else FAILED)
               plan p ctx draft revision (structural # ls) cs used) = Inr e"
      by (auto simp: bind_res_Inr_iff used_def)
    have all: "layer_passed (structural # ls) l" if "cs = []" "l |\<in>| required_layers p" for l
    proof -
      have finished: "run_layers ex pl p ctx interrupted expired = Inr (ls, [])" using layers that(1) by simp
      obtain smoke semantic where ls: "ls = [smoke, semantic]" "layer smoke = SMOKE" "layer semantic = SEMANTIC"
        "SMOKE |\<in>| required_layers p \<Longrightarrow> layer_status smoke = PASSED"
        "SEMANTIC |\<in>| required_layers p \<Longrightarrow> layer_status semantic = PASSED"
        using run_layers_covers [OF finished assms(2)] layer_covers_layer by metis
      then show ?thesis using that(2) assms(1) planned(1) by (cases l) (auto simp: layer_passed_def)
    qed
    then have "cs = [] \<and> fBall (required_layers p) (layer_passed (structural # ls)) \<longleftrightarrow> cs = []" by auto
    with e show ?thesis by (auto simp: new_suite_def suite_evidence_def split: if_splits)
  next
    case other
    with run show ?thesis
      by (auto simp: new_suite_def suite_evidence_def split: if_splits list.splits option.splits)
  qed
qed

text \<open>
  C6.  The suite fails closed.  It ends with \<open>PASSED\<close> or \<open>FAILED\<close>, and passes exactly when it reports no issue.  When it
  passes, the policy is the one of the context, every layer the policy requires passed, and for each required layer of
  executed cases the plan meets the minimum of the policy, every case of that layer is enabled, and every assertion or
  contract of it holds of an observation the executor made for the key of that case.
\<close>

theorem suite_fails_closed:
  assumes "policy_ok p" "layer structural = STRUCTURAL" "\<And>ca. interrupted = Some ca \<Longrightarrow> cache_sound ex ctx ca"
    and "run_suite ex plan p structural ctx draft revision interrupted expired = Inr e"
  shows "suite_status e \<in> {PASSED, FAILED} \<and> (suite_status e = PASSED \<longleftrightarrow> suite_issue_codes e = []) \<and>
    (suite_status e = PASSED \<longrightarrow>
      verification_policy_fingerprint (ctx_policy ctx) = verification_policy_fingerprint p \<and>
      (\<forall>l. l |\<in>| required_layers p \<longrightarrow> layer_passed (layers e) l) \<and>
      (SMOKE |\<in>| required_layers p \<longrightarrow> (\<exists>pl. plan = Some pl \<and>
         minimum_enabled_smoke_cases p \<le> enabled_count (smoke_cases pl) \<and> (\<forall>c \<in> set (smoke_cases pl). smoke_met ex ctx c))) \<and>
      (SEMANTIC |\<in>| required_layers p \<longrightarrow> (\<exists>pl. plan = Some pl \<and>
         minimum_enabled_semantic_cases p \<le> enabled_count (semantic_cases pl) \<and>
         (\<forall>c \<in> set (semantic_cases pl). semantic_met ex ctx c))))"
  using suite_status_codes [OF assms(2-4)] suite_passed_met [OF assms] by simp

section \<open>Evidence that passed stays valid\<close>

lemma covered_layer_satisfies:
  assumes "layer_covers k met cs l" "layer_status l = PASSED" "distinct (map qc_id cs)" "minimum \<le> enabled_count cs"
    and "\<And>c. met c \<Longrightarrow> enabled c"
  shows "layer_satisfies b l cs minimum"
proof -
  have met: "\<forall>c \<in> set cs. met c" "map case_id (cases l) = map qc_id (sort_key qc_id cs)" "\<forall>e \<in> set (cases l). case_status e = PASSED"
    using assms(1,2) by (simp_all add: layer_covers_def)
  have "filter enabled cs = cs" using met(1) assms(5) by (simp add: filter_id_conv)
  then have ids: "enabled_ids cs = map qc_id cs" "int (length (enabled_ids cs)) = enabled_count cs"
    using assms(3) by (simp_all add: enabled_ids_def enabled_count_def distinct_remdups_id)
  have "\<exists>e. map_of (rev (map (\<lambda>x. (case_id x, x)) (cases l))) (qc_id c) = Some e \<and> case_status e = PASSED" if "c \<in> set cs" for c
  proof -
    have "qc_id c \<in> set (map case_id (cases l))" using that met(2) by simp
    then obtain e where "map_of (rev (map (\<lambda>x. (case_id x, x)) (cases l))) (qc_id c) = Some e"
      by (cases "map_of (rev (map (\<lambda>x. (case_id x, x)) (cases l))) (qc_id c)") (force simp: map_of_eq_None_iff)+
    moreover from this have "e \<in> set (cases l)" by (auto dest!: map_of_SomeD)
    ultimately show ?thesis using met(3) by blast
  qed
  then show ?thesis using ids assms(4) by (fastforce simp: layer_satisfies_def list_all_iff)
qed

lemma evidence_layers_three:
  assumes "layers e = [x, y, z]" "layer x = STRUCTURAL" "layer y = SMOKE" "layer z = SEMANTIC"
  shows "evidence_layers e STRUCTURAL = Some x" "evidence_layers e SMOKE = Some y" "evidence_layers e SEMANTIC = Some z"
  using assms by (simp_all add: evidence_layers_def)

definition used_executor :: "Executor \<Rightarrow> Plan option \<Rightarrow> Executor option" where
  "used_executor ex plan =
     (case plan of None \<Rightarrow> None | Some pl \<Rightarrow> if smoke_cases pl \<noteq> [] \<or> semantic_cases pl \<noteq> [] then Some ex else None)"

lemma met_enabled: "smoke_met ex ctx c \<Longrightarrow> enabled c" "semantic_met ex ctx d \<Longrightarrow> enabled d"
  by (simp_all add: smoke_met_def semantic_met_def case_met_def)


text \<open>Evidence for a host policy that validates as stricter satisfies the policy it tightens.\<close>

theorem stricter_policy_sound:
  assumes "validate_stricter_policy p baseline = Inr p'" "policy_ok baseline" "evidence_satisfies_policy e p"
  shows "evidence_satisfies_policy e baseline"
proof (cases "p = baseline")
  case False
  with assms(1) have sub: "required_layers baseline |\<subseteq>| required_layers p"
    by (simp add: validate_stricter_policy_def split: if_splits)
  have "STRUCTURAL |\<in>| required_layers baseline" using assms(2) by (simp add: policy_ok_def)
  with sub assms(3) show ?thesis
    by (auto simp: evidence_satisfies_policy_def satisfies_policy_def)
qed (use assms in simp)

section \<open>Disabled cases, expected errors and totals\<close>

text \<open>
  A disabled case is reported as skipped, and one skipped case keeps its layer from passing.  A plan of a policy that
  requires the smoke layer can therefore not carry a disabled case, however many enabled ones it has.
\<close>

theorem disabled_case_blocks_suite:
  assumes "policy_ok p" "layer structural = STRUCTURAL" "\<And>ca. interrupted = Some ca \<Longrightarrow> cache_sound ex ctx ca"
    and "run_suite ex (Some pl) p structural ctx draft revision interrupted expired = Inr e"
    and "SMOKE |\<in>| required_layers p" "c \<in> set (smoke_cases pl)" "\<not> enabled c"
  shows "suite_status e = FAILED"
  using suite_status_codes [OF assms(2-4)] suite_passed_met [OF assms(1-4)] assms(5-7) met_enabled(1)
  by (auto split: if_splits)

text \<open>
  A case that expects an error passes when the fixture or the executor was unavailable, or the execution timed out: the
  outcome of such a case says nothing about the query.
\<close>

theorem unavailable_executor_passes_case:
  assumes "enabled c" "smoke_assertions c = [OutcomeAssertion i False]"
    and "common_preflight_issue (qc_query c) ctx (required_of c) (ex_capabilities ex) = Inr None"
    and "cached_observation ca c ctx ex = Inr (o1, ca')" "obs_status o1 \<in> {OBSERVED_UNAVAILABLE, OBSERVED_TIMEOUT}"
    and "smoke_evaluate_case ex ctx c ca = Inr (e, ca'')"
  shows "case_status e = PASSED"
  using assms
  by (auto simp: smoke_evaluate_case_def Let_def bind_res_Inr_iff new_case_def executed_case_def split: if_splits)

text \<open>A total over at least one row is a decimal, which no expected value tagged \<open>int\<close> matches.\<close>

theorem integer_total_never_matches:
  assumes "observation_ok o1" "rows o1 \<noteq> []"
  shows "contract_passes o1 (AggregateTotalContract i sel (ExpInt n)) \<noteq> Inr True"
proof -
  obtain r rs where rows: "rows o1 = r # rs" using assms(2) by (cases "rows o1") auto
  then have "length r = length (selection_ids o1)" using assms(1) by (simp add: observation_ok_def)
  then have "sel \<in> set (selection_ids o1) \<Longrightarrow> map_of (zip (selection_ids o1) r) sel \<noteq> None"
    by (simp add: map_of_zip_is_None)
  then have "sel \<in> set (selection_ids o1) \<Longrightarrow> List.map_filter (\<lambda>r. map_of (zip (selection_ids o1) r) sel) (rows o1) \<noteq> []"
    by (auto simp: rows List.map_filter_simps split: option.splits)
  then show ?thesis by (auto simp: aggregate_passes_def Let_def split: option.splits)
qed

section \<open>A concrete suite\<close>

definition smoke_observation :: Observation where
  "smoke_observation =
     \<lparr>obs_status = SUCCEEDED, obs_executor_id = ''exec'', obs_capability_fp = sample_fingerprint,
      obs_bundle_fp = sample_fingerprint, obs_ir_fp = sample_fingerprint, obs_fixture_fp = sample_fingerprint,
      selection_ids = [''s1'', ''s2'', ''s3''], rows = [[VStr ''north'', VInt 7, VStr ''oslo'']], obs_result_fp = None,
      error_code = None, cleanup_issue_code = None\<rparr>"

definition smoke_executor :: Executor where
  "smoke_executor = \<lparr>ex_id = ''exec'', ex_capabilities = {||}, ex_capability_fp = sample_fingerprint,
     ex_run = (\<lambda>q f n. Inr smoke_observation)\<rparr>"

definition smoke_query :: SemanticQueryIR where
  "smoke_query = partly_grouped\<lparr>ir_fingerprint := fingerprint_of (ir_payload partly_grouped)\<rparr>"

definition smoke_case :: SmokeQueryCase where
  "smoke_case = \<lparr>qc_id = ''c1'', qc_description = [], enabled = True, qc_query = smoke_query, fixture_profile_id = ''f1'',
     deadline_ms = 1000, qc_capabilities = [], smoke_assertions = [OutcomeAssertion ''a1'' True, RowCountAssertion ''a2'' 1 1]\<rparr>"

definition smoke_plan :: Plan where
  "smoke_plan = \<lparr>plan_profile = ''host'', plan_version = 1, deadlines = \<lparr>case_ms = 1000, layer_ms = 1000, suite_ms = 1000\<rparr>,
     smoke_cases = [smoke_case], semantic_cases = []\<rparr>"

definition smoke_policy :: VerificationPolicy where
  "smoke_policy = \<lparr>policy_id = ''host'', policy_version = 1, required_layers = {|STRUCTURAL, SMOKE|},
     minimum_enabled_smoke_cases = 1, minimum_enabled_semantic_cases = 0, require_all_enabled_cases_pass = True,
     compatibility_label = None\<rparr>"

definition passed_structural :: LayerEvidence where
  "passed_structural = \<lparr>layer = STRUCTURAL, layer_status = PASSED, cases = [], layer_issue_codes = [], layer_duration_ms = 0\<rparr>"

definition smoke_context :: VerificationExecutionContext where
  "smoke_context =
     \<lparr>candidate = approved_bundle,
      ctx_manifest = \<lparr>mf_bundle_id = ''b1'', mf_bundle_fingerprint = bundle_fingerprint approved_bundle, mf_assertions = []\<rparr>,
      ctx_view = sample_bound_view, ctx_policy = smoke_policy,
      ctx_policy_scope = sample_policy,
      ctx_limits = VDict [], ctx_tenant_scope = sample_fingerprint, ctx_source_scope = sample_fingerprint\<rparr>"

lemma suite_names:
  "identifier_ok ''exec''" "identifier_ok ''c1''" "identifier_ok ''a1''" "identifier_ok ''a2''" "identifier_ok ''f1''"
  "identifier_ok ''host''" "identifier_ok ''semantic_layer_failed''" "identifier_ok ''nl2data-core-verification-suite''"
  "fingerprint_ok sample_fingerprint"
  using sample_names(15) by (simp_all add: pattern_simps)

lemma smoke_query_accepted:
  "validate_ir (Some sample_bound_view) True 1000000 {||} None smoke_query =
     Inr \<lparr>valid = True, res_ir_version = 1, res_ir_fingerprint = fingerprint_of (ir_payload partly_grouped), issues = []\<rparr>"
proof -
  have "validation_issues (Some sample_bound_view) True 1000000 {||} None smoke_query = []"
    unfolding smoke_query_def by (simp add: check_defs partly_grouped_def sample_query_defs)
  moreover have "ir_version smoke_query = 1" "ir_fingerprint smoke_query = fingerprint_of (ir_payload partly_grouped)"
    by (simp_all add: smoke_query_def partly_grouped_def sample_ir_def)
  ultimately show ?thesis by (simp add: validate_ir_def)
qed

lemma smoke_policy_ok: "policy_ok smoke_policy"
  using suite_names by (simp add: policy_ok_def smoke_policy_def builtin_policy_def)

definition smoke_evidence :: CaseEvidence where
  "smoke_evidence = executed_case SMOKE smoke_case smoke_observation 2 2 ''assertion_mismatch''"

lemma smoke_evidence_ok: "case_evidence_ok smoke_evidence"
  using suite_names
  by (simp add: case_evidence_ok_def smoke_evidence_def executed_case_def smoke_case_def smoke_query_def smoke_observation_def
      observed_issue_codes_def issue_codes_ok_def)

lemma smoke_preflight:
  "common_preflight_issue smoke_query smoke_context (required_of smoke_case) {||} = Inr None"
proof -
  have "ir_limit smoke_query = Some 10" "ir_source_id smoke_query = ''sales''" "required_of smoke_case = {}"
    "prov_catalog_fingerprint (Query_IR.provenance smoke_query) = None"
    by (simp_all add: smoke_query_def smoke_case_def required_of_def partly_grouped_def sample_ir_def)
  moreover have "desc_source_id (descriptor (candidate smoke_context)) = ''sales''" "ctx_view smoke_context = sample_bound_view"
    by (simp_all add: smoke_context_def approved_bundle_def)
  ultimately show ?thesis using smoke_query_accepted by (simp add: common_preflight_issue_def)
qed

lemma smoke_case_evaluated: "\<exists>ca'. smoke_evaluate_case smoke_executor smoke_context smoke_case [] = Inr (smoke_evidence, ca')"
proof -
  have run: "enabled smoke_case" "qc_query smoke_case = smoke_query" "ex_capabilities smoke_executor = {||}"
    by (simp_all add: smoke_case_def smoke_executor_def)
  moreover have "\<exists>ca'. cached_observation [] smoke_case smoke_context smoke_executor = Inr (smoke_observation, ca')"
    by (simp add: cached_observation_def execute_once_def smoke_executor_def)
  moreover have "length (filter (assertion_passes smoke_observation) (smoke_assertions smoke_case)) = 2" "length (smoke_assertions smoke_case) = 2"
    by (simp_all add: smoke_case_def smoke_observation_def)
  ultimately show ?thesis
    using smoke_preflight smoke_evidence_ok by (auto simp: smoke_evaluate_case_def new_case_def smoke_evidence_def)
qed

lemma smoke_suite_passes:
  "\<exists>e. run_suite smoke_executor (Some smoke_plan) smoke_policy passed_structural smoke_context ''a1'' 3 None False = Inr e \<and>
       suite_status e = PASSED"
proof -
  obtain ca' where case1: "smoke_evaluate_case smoke_executor smoke_context smoke_case [] = Inr (smoke_evidence, ca')"
    using smoke_case_evaluated by blast
  define l2 where "l2 = \<lparr>layer = SMOKE, layer_status = PASSED, cases = [smoke_evidence], layer_issue_codes = [], layer_duration_ms = 0\<rparr>"
  define l3 where "l3 = \<lparr>layer = SEMANTIC, layer_status = FAILED, cases = [], layer_issue_codes = [''semantic_layer_failed''], layer_duration_ms = 0\<rparr>"
  have status: "case_status smoke_evidence = PASSED" "case_layer smoke_evidence = SMOKE"
    by (simp_all add: smoke_evidence_def executed_case_def)
  have ok: "layer_evidence_ok l2" "layer_evidence_ok l3" "layer_evidence_ok passed_structural"
    using smoke_evidence_ok status suite_names
    by (simp_all add: layer_evidence_ok_def l2_def l3_def passed_structural_def issue_codes_ok_def)
  have "run_smoke smoke_executor smoke_plan smoke_context None = Inr (l2, ca')"
    using case1 ok(1) status
    by (simp add: run_smoke_def smoke_evaluate_layer_def smoke_plan_def aggregate_layer_evidence_def reduced_layer_status_def
        new_layer_def l2_def)
  moreover have "run_semantic smoke_executor smoke_plan smoke_context False ca' = Inr l3"
    using ok(2)
    by (simp add: run_semantic_def semantic_evaluate_layer_def smoke_plan_def aggregate_layer_evidence_def
        reduced_layer_status_def new_layer_def l3_def)
  moreover have "layer_status l2 = PASSED" "SEMANTIC |\<notin>| required_layers smoke_policy"
    by (simp_all add: l2_def smoke_policy_def)
  ultimately have layers: "run_layers smoke_executor smoke_plan smoke_policy smoke_context None False = Inr ([l2, l3], [])"
    by (simp add: run_layers_def)
  define e where "e = suite_evidence PASSED (Some smoke_plan) smoke_policy smoke_context ''a1'' 3 [passed_structural, l2, l3] []
    (Some smoke_executor)"
  have "plan_policy_issues (Some smoke_plan) smoke_policy = []"
    by (simp add: plan_policy_issues_def smoke_plan_def smoke_policy_def enabled_count_def smoke_case_def)
  moreover have "fBall (required_layers smoke_policy) (layer_passed [passed_structural, l2, l3])"
    by (simp add: smoke_policy_def layer_passed_def passed_structural_def l2_def)
  moreover have "suite_evidence_ok e"
    using ok suite_names
    by (simp add: e_def suite_evidence_def suite_evidence_ok_def smoke_policy_def verification_policy_fingerprint_def
        plan_fingerprint_def bundle_fingerprint_def manifest_fingerprint_def smoke_context_def smoke_executor_def
        SUITE_RUNNER_ID_def SUITE_RUNNER_VERSION_def passed_structural_def l2_def l3_def issue_codes_ok_def)
  moreover have "layer_status passed_structural = PASSED" "smoke_cases smoke_plan \<noteq> []" "ctx_policy smoke_context = smoke_policy"
    by (simp_all add: passed_structural_def smoke_plan_def smoke_context_def)
  ultimately have "run_suite smoke_executor (Some smoke_plan) smoke_policy passed_structural smoke_context ''a1'' 3 None False = Inr e"
    using layers by (simp add: run_suite_def new_suite_def e_def)
  moreover have "suite_status e = PASSED" by (simp add: e_def suite_evidence_def)
  ultimately show ?thesis by blast
qed

theorem suite_fails_closed_witness:
  "smoke_met smoke_executor smoke_context smoke_case"
proof -
  obtain e where e: "run_suite smoke_executor (Some smoke_plan) smoke_policy passed_structural smoke_context ''a1'' 3 None False = Inr e"
    "suite_status e = PASSED"
    using smoke_suite_passes by blast
  have "layer passed_structural = STRUCTURAL" by (simp add: passed_structural_def)
  from suite_fails_closed [OF smoke_policy_ok this _ e(1)] e(2) show ?thesis
    by (simp add: smoke_policy_def smoke_plan_def)
qed


end
