(* ===== verification/Audit_Trail.thy ===== *)
theory Audit_Trail
  imports Assembly_Lifecycle Query_IR "HOL-Library.Multiset"
begin

text \<open>
  Audit evidence of the assembly lifecycle: \<^verbatim>\<open>src/nl2data_core/assembly/audit_evidence.py\<close>.

  An entry keeps its fingerprint as a member, because a recorded entry is checked against it; the evidence of a
  publication has it as a function of the other members.  Instants are microseconds; the instant a factory reads
  from the clock when none is given is its argument.  The pattern of references is that of a fingerprint or of an
  identifier, and the model bounds of the code are the predicates \<open>..._ok\<close>.

  The theory shows that the factories only build entries filed under their subject, that the fingerprint of an
  entry does not depend on the clock, and that walking a trail by its cursors visits every entry once, in order,
  in pages of at most 200.
\<close>

section \<open>Kinds\<close>

datatype AuditEventKind =
    AUTHORING_IMPORT | ASSERTION_REVIEW | ASSERTION_EDIT | ASSERTION_APPROVAL | DRAFT_APPROVAL | LINT_REFERENCE
  | VERIFICATION_REFERENCE | PUBLICATION | ACTIVATION | ROLLED_BACK

fun event_kind_value :: "AuditEventKind \<Rightarrow> string" where
  "event_kind_value AUTHORING_IMPORT = ''authoring_import''"
| "event_kind_value ASSERTION_REVIEW = ''assertion_review''"
| "event_kind_value ASSERTION_EDIT = ''assertion_edit''"
| "event_kind_value ASSERTION_APPROVAL = ''assertion_approval''"
| "event_kind_value DRAFT_APPROVAL = ''draft_approval''"
| "event_kind_value LINT_REFERENCE = ''lint_reference''"
| "event_kind_value VERIFICATION_REFERENCE = ''verification_reference''"
| "event_kind_value PUBLICATION = ''publication''"
| "event_kind_value ACTIVATION = ''activation''"
| "event_kind_value ROLLED_BACK = ''rollback''"

datatype AuditSubjectKind =
  SUBJECT_DRAFT | SUBJECT_ASSERTION | SUBJECT_BUNDLE | SUBJECT_PUBLICATION | SUBJECT_ACTIVATION | SUBJECT_ROLLBACK

fun subject_kind_value :: "AuditSubjectKind \<Rightarrow> string" where
  "subject_kind_value SUBJECT_DRAFT = ''draft''"
| "subject_kind_value SUBJECT_ASSERTION = ''assertion''"
| "subject_kind_value SUBJECT_BUNDLE = ''bundle''"
| "subject_kind_value SUBJECT_PUBLICATION = ''publication''"
| "subject_kind_value SUBJECT_ACTIVATION = ''activation''"
| "subject_kind_value SUBJECT_ROLLBACK = ''rollback''"

datatype AuditOutcome = SUCCEEDED | REJECTED_OUTCOME | FAILED_OUTCOME

fun outcome_value :: "AuditOutcome \<Rightarrow> string" where
  "outcome_value SUCCEEDED = ''succeeded''"
| "outcome_value REJECTED_OUTCOME = ''rejected''"
| "outcome_value FAILED_OUTCOME = ''failed''"

definition MAX_TRAIL_ENTRIES :: int where "MAX_TRAIL_ENTRIES = 200"
definition MAX_PREDECESSOR_LINKS :: nat where "MAX_PREDECESSOR_LINKS = 8"

definition reference_ok :: "string \<Rightarrow> bool" where
  "reference_ok s \<longleftrightarrow> fingerprint_ok s \<or> identifier_ok s"

text \<open>The pattern \<^verbatim>\<open>^[a-z][a-z0-9_]{0,63}$\<close> of issue codes.\<close>

definition issue_code_ok :: "string \<Rightarrow> bool" where
  "issue_code_ok s \<longleftrightarrow>
     s \<noteq> [] \<and> is_lower_ascii (hd s) \<and> length s \<le> 64 \<and>
     list_all (\<lambda>c. is_lower_ascii c \<or> is_digit c \<or> c = CHR ''_'') (tl s)"

section \<open>Entries\<close>

record AuditPayloadBindings =
  reviewed_payload_hash :: "string option"
  resulting_payload_hash :: "string option"
  ab_plan_fingerprint :: "string option"
  ab_manifest_fingerprint :: "string option"
  ab_evidence_fingerprint :: "string option"
  ab_release_binding_fingerprint :: "string option"
  prior_active_fingerprint :: "string option"
  resulting_active_fingerprint :: "string option"
  ab_policy_profile :: "string option"
  ab_policy_version :: "int option"
  ab_policy_fingerprint :: "string option"
  ab_lint_reference :: "string option"
  ab_publish_audit_reference :: "string option"
  ab_separation_mode :: "string option"
  ab_separation_allowed :: "bool option"

definition no_bindings :: AuditPayloadBindings where
  "no_bindings =
     \<lparr>reviewed_payload_hash = None, resulting_payload_hash = None, ab_plan_fingerprint = None,
      ab_manifest_fingerprint = None, ab_evidence_fingerprint = None, ab_release_binding_fingerprint = None,
      prior_active_fingerprint = None, resulting_active_fingerprint = None, ab_policy_profile = None,
      ab_policy_version = None, ab_policy_fingerprint = None, ab_lint_reference = None,
      ab_publish_audit_reference = None, ab_separation_mode = None, ab_separation_allowed = None\<rparr>"

definition bindings_ok :: "AuditPayloadBindings \<Rightarrow> bool" where
  "bindings_ok b \<longleftrightarrow>
     list_all (opt_all fingerprint_ok)
       [reviewed_payload_hash b, resulting_payload_hash b, ab_plan_fingerprint b, ab_manifest_fingerprint b,
        ab_evidence_fingerprint b, ab_release_binding_fingerprint b, prior_active_fingerprint b,
        resulting_active_fingerprint b, ab_policy_fingerprint b] \<and>
     opt_all identifier_ok (ab_policy_profile b) \<and> opt_all (\<lambda>n. 1 \<le> n \<and> n \<le> 1000) (ab_policy_version b) \<and>
     opt_all identifier_ok (ab_lint_reference b) \<and> opt_all identifier_ok (ab_publish_audit_reference b) \<and>
     opt_all (\<lambda>s. 1 \<le> length s \<and> length s \<le> 64) (ab_separation_mode b)"

text \<open>The set members only; the dict is sorted by name, which canonical JSON does again.\<close>

definition bound_facts :: "AuditPayloadBindings \<Rightarrow> jv" where
  "bound_facts b = vdict (sort_key fst
     (opt_member ''reviewed_payload_hash'' VStr (reviewed_payload_hash b) @
      opt_member ''resulting_payload_hash'' VStr (resulting_payload_hash b) @
      opt_member ''plan_fingerprint'' VStr (ab_plan_fingerprint b) @
      opt_member ''manifest_fingerprint'' VStr (ab_manifest_fingerprint b) @
      opt_member ''evidence_fingerprint'' VStr (ab_evidence_fingerprint b) @
      opt_member ''release_binding_fingerprint'' VStr (ab_release_binding_fingerprint b) @
      opt_member ''prior_active_fingerprint'' VStr (prior_active_fingerprint b) @
      opt_member ''resulting_active_fingerprint'' VStr (resulting_active_fingerprint b) @
      opt_member ''policy_profile'' VStr (ab_policy_profile b) @
      opt_member ''policy_version'' VInt (ab_policy_version b) @
      opt_member ''policy_fingerprint'' VStr (ab_policy_fingerprint b) @
      opt_member ''lint_reference'' VStr (ab_lint_reference b) @
      opt_member ''publish_audit_reference'' VStr (ab_publish_audit_reference b) @
      opt_member ''separation_mode'' VStr (ab_separation_mode b) @
      opt_member ''separation_allowed'' VBool (ab_separation_allowed b)))"

record AuditEntry =
  event_id :: string
  event_kind :: AuditEventKind
  subject_kind :: AuditSubjectKind
  subject_reference :: string
  ae_tenant :: string
  ae_source :: string
  ae_draft_id :: "string option"
  ae_draft_revision :: "int option"
  ae_assertion_id :: "string option"
  ae_bundle_fingerprint :: "string option"
  lifecycle_reference :: "string option"
  ae_outcome :: AuditOutcome
  status_code :: "string option"
  operator_audit_reference :: "string option"
  ae_reason :: string
  payload_bindings :: AuditPayloadBindings
  predecessor_event_ids :: "string list"
  occurred_at :: timestamp
  entry_fingerprint :: string

definition subject_consistent :: "AuditEntry \<Rightarrow> bool" where
  "subject_consistent e \<longleftrightarrow>
     (if event_kind e \<in> {ASSERTION_REVIEW, ASSERTION_EDIT, ASSERTION_APPROVAL} then
        ae_assertion_id e \<noteq> None \<and> ae_draft_id e \<noteq> None \<and> subject_kind e = SUBJECT_ASSERTION
      else if event_kind e \<in> {AUTHORING_IMPORT, DRAFT_APPROVAL, LINT_REFERENCE, VERIFICATION_REFERENCE} then
        ae_draft_id e \<noteq> None \<and> subject_kind e = SUBJECT_DRAFT
      else ae_bundle_fingerprint e \<noteq> None \<and> lifecycle_reference e \<noteq> None \<and>
           subject_kind_value (subject_kind e) = event_kind_value (event_kind e))"

definition entry_ok :: "AuditEntry \<Rightarrow> bool" where
  "entry_ok e \<longleftrightarrow>
     identifier_ok (event_id e) \<and> reference_ok (subject_reference e) \<and> fingerprint_ok (ae_tenant e) \<and>
     fingerprint_ok (ae_source e) \<and> opt_all identifier_ok (ae_draft_id e) \<and> opt_all (\<lambda>n. 0 \<le> n) (ae_draft_revision e) \<and>
     opt_all reference_ok (ae_assertion_id e) \<and> opt_all fingerprint_ok (ae_bundle_fingerprint e) \<and>
     opt_all reference_ok (lifecycle_reference e) \<and> opt_all issue_code_ok (status_code e) \<and>
     opt_all reference_text_ok (operator_audit_reference e) \<and>
     length (ae_reason e) \<le> 1024 \<and> safe_description (ae_reason e) \<and> bindings_ok (payload_bindings e) \<and>
     length (predecessor_event_ids e) \<le> MAX_PREDECESSOR_LINKS \<and> distinct (predecessor_event_ids e) \<and>
     event_id e \<notin> set (predecessor_event_ids e) \<and> subject_consistent e"

definition entry_payload :: "AuditEntry \<Rightarrow> jv" where
  "entry_payload e = vdict
     ([(''schema_version'', VInt 1), (''event_id'', VStr (event_id e)),
       (''event_kind'', VStr (event_kind_value (event_kind e))),
       (''subject_kind'', VStr (subject_kind_value (subject_kind e))),
       (''subject_reference'', VStr (subject_reference e)), (''tenant_scope_fingerprint'', VStr (ae_tenant e)),
       (''source_scope_fingerprint'', VStr (ae_source e)), (''outcome'', VStr (outcome_value (ae_outcome e))),
       (''payload_bindings'', bound_facts (payload_bindings e)),
       (''predecessor_event_ids'', VList (map VStr (predecessor_event_ids e)))] @
      opt_member ''draft_id'' VStr (ae_draft_id e) @ opt_member ''draft_revision'' VInt (ae_draft_revision e) @
      opt_member ''assertion_id'' VStr (ae_assertion_id e) @
      opt_member ''bundle_fingerprint'' VStr (ae_bundle_fingerprint e) @
      opt_member ''lifecycle_reference'' VStr (lifecycle_reference e) @
      opt_member ''status_code'' VStr (status_code e) @
      opt_member ''operator_audit_reference'' VStr (operator_audit_reference e) @
      (if ae_reason e \<noteq> [] then [(''reason'', VStr (ae_reason e))] else []))"

text \<open>Construction sorts the links and computes the fingerprint.\<close>

definition new_AuditEntry :: "AuditEntry \<Rightarrow> AuditEntry res" where
  "new_AuditEntry e =
     (let e' = e\<lparr>predecessor_event_ids := sort (predecessor_event_ids e)\<rparr>
      in if entry_ok e' then Inr (e'\<lparr>entry_fingerprint := fingerprint_of (entry_payload e')\<rparr>) else Inl ValidationError)"

definition verify_fingerprint :: "AuditEntry \<Rightarrow> bool" where
  "verify_fingerprint e \<longleftrightarrow> entry_fingerprint e = fingerprint_of (entry_payload e)"

section \<open>Evidence of a publication\<close>

record PublicationAuditEvidence =
  pe_approved_draft_id :: string
  pe_approved_draft_revision :: int
  pe_approved_plan_fingerprint :: "string option"
  pe_bundle_fingerprint :: string
  pe_manifest_fingerprint :: string
  pe_verification_evidence_fingerprint :: string
  pe_tenant :: string
  pe_source :: string
  pe_policy_profile :: string
  pe_policy_version :: int
  pe_policy_fingerprint :: string
  pe_lint_reference :: "string option"
  pe_separation_mode :: string
  pe_separation_allowed :: bool
  pe_separation_reason_code :: "string option"
  pe_publish_audit_reference :: string

definition publication_evidence_ok :: "PublicationAuditEvidence \<Rightarrow> bool" where
  "publication_evidence_ok p \<longleftrightarrow>
     identifier_ok (pe_approved_draft_id p) \<and> 1 \<le> pe_approved_draft_revision p \<and>
     opt_all fingerprint_ok (pe_approved_plan_fingerprint p) \<and> fingerprint_ok (pe_bundle_fingerprint p) \<and>
     fingerprint_ok (pe_manifest_fingerprint p) \<and> fingerprint_ok (pe_verification_evidence_fingerprint p) \<and>
     fingerprint_ok (pe_tenant p) \<and> fingerprint_ok (pe_source p) \<and> identifier_ok (pe_policy_profile p) \<and>
     1 \<le> pe_policy_version p \<and> pe_policy_version p \<le> 1000 \<and> fingerprint_ok (pe_policy_fingerprint p) \<and>
     opt_all identifier_ok (pe_lint_reference p) \<and>
     1 \<le> length (pe_separation_mode p) \<and> length (pe_separation_mode p) \<le> 64 \<and>
     opt_all (\<lambda>s. 1 \<le> length s \<and> length s \<le> 64) (pe_separation_reason_code p) \<and>
     identifier_ok (pe_publish_audit_reference p)"

definition publication_evidence_payload :: "PublicationAuditEvidence \<Rightarrow> jv" where
  "publication_evidence_payload p = vdict
     ([(''schema_version'', VInt 1), (''approved_draft_id'', VStr (pe_approved_draft_id p)),
       (''approved_draft_revision'', VInt (pe_approved_draft_revision p)),
       (''bundle_fingerprint'', VStr (pe_bundle_fingerprint p)),
       (''manifest_fingerprint'', VStr (pe_manifest_fingerprint p)),
       (''verification_evidence_fingerprint'', VStr (pe_verification_evidence_fingerprint p)),
       (''tenant_scope_fingerprint'', VStr (pe_tenant p)), (''source_scope_fingerprint'', VStr (pe_source p)),
       (''policy_profile'', VStr (pe_policy_profile p)), (''policy_version'', VInt (pe_policy_version p)),
       (''policy_fingerprint'', VStr (pe_policy_fingerprint p)),
       (''separation_mode'', VStr (pe_separation_mode p)), (''separation_allowed'', VBool (pe_separation_allowed p)),
       (''publish_audit_reference'', VStr (pe_publish_audit_reference p))] @
      opt_member ''approved_plan_fingerprint'' VStr (pe_approved_plan_fingerprint p) @
      opt_member ''lint_reference'' VStr (pe_lint_reference p) @
      opt_member ''separation_reason_code'' VStr (pe_separation_reason_code p))"

definition publication_evidence_fingerprint :: "PublicationAuditEvidence \<Rightarrow> string" where
  "publication_evidence_fingerprint p = fingerprint_of (publication_evidence_payload p)"

text \<open>\<open>fingerprint.removeprefix("sha256:")[:24]\<close>.\<close>

definition removeprefix :: "string \<Rightarrow> string \<Rightarrow> string" where
  "removeprefix p s = (if take (length p) s = p then drop (length p) s else s)"

definition short_digest :: "string \<Rightarrow> string" where
  "short_digest f = take 24 (removeprefix ''sha256:'' f)"

definition publication_event_id :: "PublicationAuditEvidence \<Rightarrow> string" where
  "publication_event_id p = ''publish-'' @ short_digest (publication_evidence_fingerprint p)"

section \<open>Trails\<close>

record AuditTrail =
  trail_entries :: "AuditEntry list"
  total_count :: nat
  next_cursor :: "string option"
  has_more :: bool

definition new_AuditTrail :: "AuditTrail \<Rightarrow> AuditTrail res" where
  "new_AuditTrail t =
     (if int (length (trail_entries t)) > MAX_TRAIL_ENTRIES then Inl ValidationError
      else case next_cursor t of
        None \<Rightarrow> Inr t
      | Some c \<Rightarrow>
          if trail_entries t = [] \<or> c \<noteq> event_id (last (trail_entries t)) \<or> \<not> has_more t then Inl ValidationError
          else Inr t)"

text \<open>Stable sorting by the pair of instant and event id.\<close>

definition order_audit_entries :: "AuditEntry list \<Rightarrow> AuditEntry list" where
  "order_audit_entries es = sort_key occurred_at (sort_key event_id es)"

definition after_cursor :: "string option \<Rightarrow> AuditEntry list \<Rightarrow> AuditEntry list" where
  "after_cursor cursor ordered =
     (case cursor of
        None \<Rightarrow> ordered
      | Some c \<Rightarrow>
          if c \<in> set (map event_id ordered) then tl (dropWhile (\<lambda>e. event_id e \<noteq> c) ordered) else ordered)"

definition bounded_audit_trail :: "AuditEntry list \<Rightarrow> int \<Rightarrow> string option \<Rightarrow> AuditTrail res" where
  "bounded_audit_trail es limit cursor =
     (if limit < 1 \<or> limit > MAX_TRAIL_ENTRIES then
        Inl (ValueError ''audit trail limit must be between 1 and the maximum'')
      else
        (let ordered = after_cursor cursor (order_audit_entries es); page = take (nat limit) ordered;
             more = length page < length ordered
         in new_AuditTrail
              \<lparr>trail_entries = page, total_count = length ordered,
               next_cursor = (if page \<noteq> [] \<and> more then Some (event_id (last page)) else None), has_more = more\<rparr>))"

section \<open>Factories\<close>

definition entry_base :: "string \<Rightarrow> AuditEventKind \<Rightarrow> AuditSubjectKind \<Rightarrow> string \<Rightarrow> string \<Rightarrow> string \<Rightarrow> timestamp \<Rightarrow> AuditEntry" where
  "entry_base i k sk ref tenant source at_time =
     \<lparr>event_id = i, event_kind = k, subject_kind = sk, subject_reference = ref, ae_tenant = tenant, ae_source = source,
      ae_draft_id = None, ae_draft_revision = None, ae_assertion_id = None, ae_bundle_fingerprint = None,
      lifecycle_reference = None, ae_outcome = SUCCEEDED, status_code = None, operator_audit_reference = None,
      ae_reason = [], payload_bindings = no_bindings, predecessor_event_ids = [], occurred_at = at_time,
      entry_fingerprint = []\<rparr>"

fun decision_event_kind :: "AssertionDecisionKind \<Rightarrow> AuditEventKind" where
  "decision_event_kind APPROVE_ASSERTION = ASSERTION_APPROVAL"
| "decision_event_kind REJECT_ASSERTION = ASSERTION_REVIEW"
| "decision_event_kind EDIT_ASSERTION_CONTENT = ASSERTION_EDIT"

definition assertion_decision_audit_entry ::
  "AssertionDecisionRecord \<Rightarrow> string \<Rightarrow> string \<Rightarrow> string \<Rightarrow> int option \<Rightarrow> string list \<Rightarrow> timestamp option \<Rightarrow> string \<Rightarrow> AuditEntry res" where
  "assertion_decision_audit_entry r tenant source i revision preds given reason_text =
     new_AuditEntry
       ((entry_base i (decision_event_kind (rec_action r)) SUBJECT_ASSERTION (rec_assertion_id r) tenant source
           (case given of None \<Rightarrow> rec_occurred_at r | Some t \<Rightarrow> t))
        \<lparr>ae_draft_id := Some (rec_draft_id r), ae_draft_revision := revision, ae_assertion_id := Some (rec_assertion_id r),
         ae_outcome := (if rec_action r = REJECT_ASSERTION then REJECTED_OUTCOME else SUCCEEDED),
         operator_audit_reference := Some (rec_operator r),
         ae_reason := (if reason_text \<noteq> [] then reason_text else rec_reason r),
         payload_bindings := no_bindings\<lparr>reviewed_payload_hash := Some (rec_previous_hash r),
                                         resulting_payload_hash := Some (rec_resulting_hash r)\<rparr>,
         predecessor_event_ids := preds\<rparr>)"

definition draft_lifecycle_audit_entry ::
  "DraftLifecycleRecord \<Rightarrow> string \<Rightarrow> string \<Rightarrow> string \<Rightarrow> string list \<Rightarrow> timestamp option \<Rightarrow> AuditEntry res" where
  "draft_lifecycle_audit_entry r tenant source i preds given =
     new_AuditEntry
       ((entry_base i (if life_action r = SUBMIT_DRAFT then AUTHORING_IMPORT else DRAFT_APPROVAL) SUBJECT_DRAFT
           (life_draft_id r) tenant source (case given of None \<Rightarrow> life_occurred_at r | Some t \<Rightarrow> t))
        \<lparr>ae_draft_id := Some (life_draft_id r), ae_draft_revision := Some (resulting_revision r),
         operator_audit_reference := Some (life_operator r), predecessor_event_ids := preds\<rparr>)"

definition lint_reference_audit_entry ::
  "string \<Rightarrow> string \<Rightarrow> string \<Rightarrow> string \<Rightarrow> int option \<Rightarrow> string \<Rightarrow> string option \<Rightarrow> string list \<Rightarrow> timestamp \<Rightarrow> AuditEntry res" where
  "lint_reference_audit_entry tenant source i draft revision lint op_ref preds at_time =
     new_AuditEntry
       ((entry_base i LINT_REFERENCE SUBJECT_DRAFT draft tenant source at_time)
        \<lparr>ae_draft_id := Some draft, ae_draft_revision := revision, operator_audit_reference := op_ref,
         payload_bindings := no_bindings\<lparr>ab_lint_reference := Some lint\<rparr>, predecessor_event_ids := preds\<rparr>)"

definition verification_reference_audit_entry ::
  "string \<Rightarrow> string \<Rightarrow> string \<Rightarrow> string \<Rightarrow> int option \<Rightarrow> string \<Rightarrow> string option \<Rightarrow> int option \<Rightarrow> string option
    \<Rightarrow> string option \<Rightarrow> string list \<Rightarrow> timestamp \<Rightarrow> AuditEntry res" where
  "verification_reference_audit_entry tenant source i draft revision evidence profile version plan op_ref preds at_time =
     new_AuditEntry
       ((entry_base i VERIFICATION_REFERENCE SUBJECT_DRAFT draft tenant source at_time)
        \<lparr>ae_draft_id := Some draft, ae_draft_revision := revision, operator_audit_reference := op_ref,
         payload_bindings := no_bindings\<lparr>ab_evidence_fingerprint := Some evidence, ab_policy_profile := profile,
                                         ab_policy_version := version, ab_plan_fingerprint := plan\<rparr>,
         predecessor_event_ids := preds\<rparr>)"

definition publication_audit_entry :: "PublicationAuditEvidence \<Rightarrow> string list \<Rightarrow> timestamp \<Rightarrow> AuditEntry res" where
  "publication_audit_entry b preds at_time =
     new_AuditEntry
       ((entry_base (publication_event_id b) PUBLICATION SUBJECT_PUBLICATION (pe_publish_audit_reference b) (pe_tenant b)
           (pe_source b) at_time)
        \<lparr>ae_draft_id := Some (pe_approved_draft_id b), ae_draft_revision := Some (pe_approved_draft_revision b),
         ae_bundle_fingerprint := Some (pe_bundle_fingerprint b),
         lifecycle_reference := Some (pe_publish_audit_reference b),
         payload_bindings := no_bindings\<lparr>ab_plan_fingerprint := pe_approved_plan_fingerprint b,
           ab_manifest_fingerprint := Some (pe_manifest_fingerprint b),
           ab_evidence_fingerprint := Some (pe_verification_evidence_fingerprint b),
           ab_policy_profile := Some (pe_policy_profile b), ab_policy_version := Some (pe_policy_version b),
           ab_policy_fingerprint := Some (pe_policy_fingerprint b), ab_lint_reference := pe_lint_reference b,
           ab_publish_audit_reference := Some (pe_publish_audit_reference b),
           ab_separation_mode := Some (pe_separation_mode b), ab_separation_allowed := Some (pe_separation_allowed b)\<rparr>,
         predecessor_event_ids := preds\<rparr>)"

text \<open>The activation and rollback factories differ in the kind of the event and of the subject.\<close>

definition pointer_audit_entry ::
  "AuditEventKind \<Rightarrow> AuditSubjectKind \<Rightarrow> string \<Rightarrow> string \<Rightarrow> string \<Rightarrow> string \<Rightarrow> string \<Rightarrow> string option \<Rightarrow> string
    \<Rightarrow> string option \<Rightarrow> string list \<Rightarrow> timestamp \<Rightarrow> AuditEntry res" where
  "pointer_audit_entry k sk tenant source i bundle reference prior resulting op_ref preds at_time =
     new_AuditEntry
       ((entry_base i k sk reference tenant source at_time)
        \<lparr>ae_bundle_fingerprint := Some bundle, lifecycle_reference := Some reference,
         operator_audit_reference := op_ref,
         payload_bindings := no_bindings\<lparr>prior_active_fingerprint := prior, resulting_active_fingerprint := Some resulting\<rparr>,
         predecessor_event_ids := preds\<rparr>)"

definition activation_audit_entry ::
  "string \<Rightarrow> string \<Rightarrow> string \<Rightarrow> string \<Rightarrow> string \<Rightarrow> string option \<Rightarrow> string \<Rightarrow> string option \<Rightarrow> string list \<Rightarrow> timestamp \<Rightarrow> AuditEntry res" where
  "activation_audit_entry tenant source i bundle reference prior resulting op_ref preds at_time =
     pointer_audit_entry ACTIVATION SUBJECT_ACTIVATION tenant source i bundle reference prior resulting op_ref preds at_time"

definition rollback_audit_entry ::
  "string \<Rightarrow> string \<Rightarrow> string \<Rightarrow> string \<Rightarrow> string \<Rightarrow> string \<Rightarrow> string \<Rightarrow> string option \<Rightarrow> string list \<Rightarrow> timestamp \<Rightarrow> AuditEntry res" where
  "rollback_audit_entry tenant source i bundle reference prior restored op_ref preds at_time =
     pointer_audit_entry ROLLED_BACK SUBJECT_ROLLBACK tenant source i bundle reference (Some prior) restored op_ref preds at_time"

section \<open>Walking a trail\<close>

text \<open>A client that asks for page after page, following the cursors; the number of requests is bounded by \<open>n\<close>.\<close>

fun walk :: "nat \<Rightarrow> AuditEntry list \<Rightarrow> int \<Rightarrow> string option \<Rightarrow> AuditEntry list list option" where
  "walk 0 es limit cursor = None"
| "walk (Suc n) es limit cursor =
     (case bounded_audit_trail es limit cursor of
        Inl _ \<Rightarrow> None
      | Inr t \<Rightarrow>
          (case next_cursor t of
             None \<Rightarrow> Some [trail_entries t]
           | Some c \<Rightarrow> map_option (\<lambda>ps. trail_entries t # ps) (walk n es limit (Some c))))"

lemma bounded_audit_trail_page:
  assumes "1 \<le> limit" "limit \<le> 200" and rest: "after_cursor cursor (order_audit_entries es) = rest"
  shows "bounded_audit_trail es limit cursor =
    Inr \<lparr>trail_entries = take (nat limit) rest, total_count = length rest,
         next_cursor = (if nat limit < length rest then Some (event_id (last (take (nat limit) rest))) else None),
         has_more = (nat limit < length rest)\<rparr>"
proof -
  have "nat limit < length rest \<Longrightarrow> take (nat limit) rest \<noteq> []" using assms(1) by (cases rest) auto
  then show ?thesis
    using assms(1,2) unfolding bounded_audit_trail_def Let_def rest
    by (auto simp: new_AuditTrail_def MAX_TRAIL_ENTRIES_def min_def)
qed

lemma after_cursor_split:
  assumes "distinct (map event_id (xs @ e # ys))"
  shows "after_cursor (Some (event_id e)) (xs @ e # ys) = ys"
proof -
  have "dropWhile (\<lambda>x. event_id x \<noteq> event_id e) (xs @ e # ys) = e # ys"
    using assms by (subst dropWhile_append2) (auto simp: image_iff)
  then show ?thesis by (simp add: after_cursor_def)
qed

lemma walk_rest:
  assumes "1 \<le> limit" "limit \<le> 200" and ids: "distinct (map event_id (order_audit_entries es))"
    and "order_audit_entries es = done_part @ rest" "after_cursor cursor (order_audit_entries es) = rest" "length rest < n"
  shows "\<exists>ps. walk n es limit cursor = Some ps \<and> concat ps = rest \<and> (\<forall>p \<in> set ps. int (length p) \<le> limit)"
  using assms(4-6)
proof (induction n arbitrary: done_part rest cursor)
  case 0
  then show ?case by simp
next
  case (Suc n)
  note page = bounded_audit_trail_page [OF assms(1,2) Suc.prems(2)]
  show ?case
  proof (cases "nat limit < length rest")
    case False
    with page assms(1) show ?thesis by auto
  next
    case True
    let ?p = "take (nat limit) rest"
    from True assms(1) have ne: "?p \<noteq> []" by (cases rest) auto
    have split: "order_audit_entries es = (done_part @ butlast ?p) @ last ?p # drop (nat limit) rest"
      using Suc.prems(1) append_butlast_last_id [OF ne] append_take_drop_id [of "nat limit" rest] by (metis append.assoc append_Cons append_Nil)
    have "after_cursor (Some (event_id (last ?p))) (order_audit_entries es) = drop (nat limit) rest"
      using after_cursor_split [of "done_part @ butlast ?p" "last ?p" "drop (nat limit) rest"] ids unfolding split by simp
    moreover have "order_audit_entries es = (done_part @ ?p) @ drop (nat limit) rest" using Suc.prems(1) by simp
    moreover have "length (drop (nat limit) rest) < n" using Suc.prems(3) assms(1) True by auto
    ultimately obtain ps where ps: "walk n es limit (Some (event_id (last ?p))) = Some ps" "concat ps = drop (nat limit) rest"
      "\<forall>p \<in> set ps. int (length p) \<le> limit" using Suc.IH by blast
    then show ?thesis using True page assms(1) by (auto intro!: exI [of _ "?p # ps"])
  qed
qed

lemma set_order_audit_entries [simp]: "set (order_audit_entries es) = set es"
  by (simp add: order_audit_entries_def)

lemma distinct_ordered: "distinct (map event_id es) \<Longrightarrow> distinct (map event_id (order_audit_entries es))"
  by (simp add: order_audit_entries_def distinct_map)

lemma length_ordered [simp]: "length (order_audit_entries es) = length es"
  by (simp add: order_audit_entries_def)

text \<open>C35.  Paging is complete: over entries with distinct event ids, a client that starts without a cursor and
  follows the cursors gets, within one request more than there are entries, pages of at most the limit (itself
  between 1 and 200) that together are all the entries once each, ordered by instant and then event id.\<close>

theorem trail_walk_complete:
  assumes "distinct (map event_id es)" "1 \<le> limit" "limit \<le> 200"
  shows "\<exists>ps. walk (Suc (length es)) es limit None = Some ps \<and> concat ps = order_audit_entries es \<and>
    (\<forall>p \<in> set ps. int (length p) \<le> limit) \<and>
    sorted (map occurred_at (concat ps)) \<and> mset (concat ps) = mset es"
proof -
  obtain ps where "walk (Suc (length es)) es limit None = Some ps" "concat ps = order_audit_entries es"
    "\<forall>p \<in> set ps. int (length p) \<le> limit"
    using walk_rest [OF assms(2,3) distinct_ordered [OF assms(1)], of "[]" "order_audit_entries es" None "Suc (length es)"]
    by (auto simp: after_cursor_def)
  moreover have "sorted (map occurred_at (order_audit_entries es))" "mset (order_audit_entries es) = mset es"
    by (simp_all add: order_audit_entries_def)
  ultimately show ?thesis by metis
qed

section \<open>Entries of the factories\<close>

lemma new_AuditEntry_Inr:
  "new_AuditEntry e = Inr e' \<longleftrightarrow>
     (let s = e\<lparr>predecessor_event_ids := sort (predecessor_event_ids e)\<rparr>
      in entry_ok s \<and> e' = s\<lparr>entry_fingerprint := fingerprint_of (entry_payload s)\<rparr>)"
  by (auto simp: new_AuditEntry_def Let_def)

lemma entry_payload_fingerprint [simp]:
  "entry_payload (e\<lparr>entry_fingerprint := f\<rparr>) = entry_payload e" "entry_payload (e\<lparr>occurred_at := t\<rparr>) = entry_payload e"
  by (simp_all add: entry_payload_def)

lemma new_AuditEntry_verified: "new_AuditEntry e = Inr e' \<Longrightarrow> verify_fingerprint e'"
  by (auto simp: new_AuditEntry_Inr Let_def verify_fingerprint_def)

lemma new_AuditEntry_built:
  assumes "entry_ok (e\<lparr>predecessor_event_ids := sort (predecessor_event_ids e)\<rparr>)"
  shows "\<exists>e'. new_AuditEntry e = Inr e' \<and> event_id e' = event_id e \<and> event_kind e' = event_kind e \<and> ae_tenant e' = ae_tenant e \<and>
    ae_bundle_fingerprint e' = ae_bundle_fingerprint e \<and> operator_audit_reference e' = operator_audit_reference e \<and>
    predecessor_event_ids e' = sort (predecessor_event_ids e) \<and> verify_fingerprint e'"
proof -
  obtain e' where e': "new_AuditEntry e = Inr e'" using assms by (simp add: new_AuditEntry_def Let_def)
  with new_AuditEntry_verified [OF e'] show ?thesis by (auto simp: new_AuditEntry_def Let_def split: if_splits)
qed

text \<open>The fingerprint of an entry does not depend on the clock of the worker that built it.\<close>

lemma fingerprint_ignores_clock:
  assumes "new_AuditEntry e = Inr e1" "new_AuditEntry (e\<lparr>occurred_at := t\<rparr>) = Inr e2"
  shows "entry_fingerprint e1 = entry_fingerprint e2"
proof -
  have "entry_payload (e\<lparr>occurred_at := t, predecessor_event_ids := ps\<rparr>) = entry_payload (e\<lparr>predecessor_event_ids := ps\<rparr>)" for ps
    by (simp add: entry_payload_def)
  with assms show ?thesis by (auto simp: new_AuditEntry_def Let_def split: if_splits)
qed

lemma short_digest_chars:
  assumes "fingerprint_ok f"
  shows "list_all is_alnum (short_digest f)" "length (short_digest f) = 24"
proof -
  have eq: "short_digest f = take 24 (drop 7 f)"
    using assms by (simp add: short_digest_def removeprefix_def fingerprint_ok_def eval_nat_numeral)
  have "is_alnum c" if "c \<in> set (drop 7 f)" for c
    using assms that by (auto simp: fingerprint_ok_def list_all_iff is_alnum_def is_lower_ascii_def lower_chars_def)
  then show "list_all is_alnum (short_digest f)" unfolding eq by (auto simp: list_all_iff dest: in_set_takeD)
  show "length (short_digest f) = 24" unfolding eq using assms by (simp add: fingerprint_ok_def)
qed

lemma identifier_ok_digest:
  assumes "fingerprint_ok f" "identifier_ok p" "length p \<le> 100"
  shows "identifier_ok (p @ short_digest f)"
  using assms short_digest_chars [OF assms(1)] by (auto simp: identifier_ok_def list_all_iff)

lemma publication_evidence_fingerprint_ok [simp]: "fingerprint_ok (publication_evidence_fingerprint p)"
  by (simp add: publication_evidence_fingerprint_def)

lemma publication_event_id_ok: "identifier_ok (publication_event_id p)"
proof -
  have "identifier_ok ''publish-''" by (simp add: pattern_simps)
  then show ?thesis unfolding publication_event_id_def by (intro identifier_ok_digest) simp_all
qed

lemmas entry_defs = entry_base_def entry_ok_def no_bindings_def bindings_ok_def subject_consistent_def reference_ok_def

text \<open>The publication entry of sound evidence can always be built.\<close>

lemma publication_entry_built:
  assumes "publication_evidence_ok p" "distinct preds" "length preds \<le> 8" "publication_event_id p \<notin> set preds"
  shows "\<exists>e. publication_audit_entry p preds t = Inr e \<and> event_id e = publication_event_id p \<and> event_kind e = PUBLICATION \<and>
    ae_tenant e = pe_tenant p \<and> ae_bundle_fingerprint e = Some (pe_bundle_fingerprint p) \<and>
    predecessor_event_ids e = sort preds \<and> verify_fingerprint e"
proof -
  define e where "e = (entry_base (publication_event_id p) PUBLICATION SUBJECT_PUBLICATION (pe_publish_audit_reference p) (pe_tenant p)
       (pe_source p) t)
     \<lparr>ae_draft_id := Some (pe_approved_draft_id p), ae_draft_revision := Some (pe_approved_draft_revision p),
      ae_bundle_fingerprint := Some (pe_bundle_fingerprint p), lifecycle_reference := Some (pe_publish_audit_reference p),
      payload_bindings := no_bindings\<lparr>ab_plan_fingerprint := pe_approved_plan_fingerprint p,
        ab_manifest_fingerprint := Some (pe_manifest_fingerprint p),
        ab_evidence_fingerprint := Some (pe_verification_evidence_fingerprint p),
        ab_policy_profile := Some (pe_policy_profile p), ab_policy_version := Some (pe_policy_version p),
        ab_policy_fingerprint := Some (pe_policy_fingerprint p), ab_lint_reference := pe_lint_reference p,
        ab_publish_audit_reference := Some (pe_publish_audit_reference p),
        ab_separation_mode := Some (pe_separation_mode p), ab_separation_allowed := Some (pe_separation_allowed p)\<rparr>,
      predecessor_event_ids := preds\<rparr>"
  have ok: "entry_ok (e\<lparr>predecessor_event_ids := sort (predecessor_event_ids e)\<rparr>)"
    using assms publication_event_id_ok [of p]
    by (simp add: e_def entry_defs publication_evidence_ok_def MAX_PREDECESSOR_LINKS_def)
  have members: "event_id e = publication_event_id p" "event_kind e = PUBLICATION" "ae_tenant e = pe_tenant p"
    "ae_bundle_fingerprint e = Some (pe_bundle_fingerprint p)" "predecessor_event_ids e = preds"
    by (simp_all add: e_def entry_base_def)
  have "publication_audit_entry p preds t = new_AuditEntry e" by (simp add: publication_audit_entry_def e_def)
  with new_AuditEntry_built [OF ok] members show ?thesis by auto
qed

lemma pointer_entry_built:
  assumes "subject_kind_value sk = event_kind_value k" "k = ACTIVATION \<or> k = ROLLED_BACK"
    and "fingerprint_ok tenant" "fingerprint_ok source" "identifier_ok i" "fingerprint_ok bundle" "reference_ok reference"
    "opt_all fingerprint_ok prior" "fingerprint_ok resulting" "opt_all reference_text_ok op_ref" "distinct preds" "length preds \<le> 8"
    "i \<notin> set preds"
  shows "\<exists>e. pointer_audit_entry k sk tenant source i bundle reference prior resulting op_ref preds t = Inr e \<and>
    event_id e = i \<and> event_kind e = k \<and> ae_tenant e = tenant \<and> ae_bundle_fingerprint e = Some bundle \<and>
    operator_audit_reference e = op_ref \<and> verify_fingerprint e"
proof -
  define e where "e = (entry_base i k sk reference tenant source t)
     \<lparr>ae_bundle_fingerprint := Some bundle, lifecycle_reference := Some reference, operator_audit_reference := op_ref,
      payload_bindings := no_bindings\<lparr>prior_active_fingerprint := prior, resulting_active_fingerprint := Some resulting\<rparr>,
      predecessor_event_ids := preds\<rparr>"
  have ok: "entry_ok (e\<lparr>predecessor_event_ids := sort (predecessor_event_ids e)\<rparr>)"
    using assms by (auto simp: e_def entry_defs MAX_PREDECESSOR_LINKS_def)
  have members: "event_id e = i" "event_kind e = k" "ae_tenant e = tenant" "ae_bundle_fingerprint e = Some bundle"
    "operator_audit_reference e = op_ref"
    by (simp_all add: e_def entry_base_def)
  have "pointer_audit_entry k sk tenant source i bundle reference prior resulting op_ref preds t = new_AuditEntry e"
    by (simp add: pointer_audit_entry_def e_def)
  with new_AuditEntry_built [OF ok] members show ?thesis by auto
qed

section \<open>A concrete trail\<close>

definition sample_entry :: "string \<Rightarrow> timestamp \<Rightarrow> AuditEntry" where
  "sample_entry i t = entry_base i DRAFT_APPROVAL SUBJECT_DRAFT ''d1'' [] [] t"

theorem trail_walk_complete_witness:
  "\<exists>ps. walk 4 [sample_entry ''b'' 2, sample_entry ''c'' 1, sample_entry ''a'' 2] 2 None = Some ps \<and>
     map event_id (concat ps) = [''c'', ''a'', ''b'']"
proof -
  let ?es = "[sample_entry ''b'' 2, sample_entry ''c'' 1, sample_entry ''a'' 2]"
  have "distinct (map event_id ?es)" by (simp add: sample_entry_def entry_base_def)
  from trail_walk_complete [OF this, of 2]
  obtain ps where "walk 4 ?es 2 None = Some ps" "concat ps = order_audit_entries ?es" by (auto simp: eval_nat_numeral)
  moreover have "map event_id (order_audit_entries ?es) = [''c'', ''a'', ''b'']"
    by (simp add: order_audit_entries_def sample_entry_def entry_base_def less_char_def less_eq_char_def)
  ultimately show ?thesis by metis
qed

end
