(* ===== verification/Publication_Records.thy ===== *)
theory Publication_Records
  imports Verification_Suite Audit_Trail
begin

text \<open>
  The records of one publication and their integrity: \<^verbatim>\<open>src/nl2data_core/bundles/publication.py\<close> and
  \<^verbatim>\<open>src/nl2data_core/control_plane/publication/contracts.py\<close>.

  Fingerprints that a model computes from its other members are functions; the validators of the models are the
  predicates \<open>..._ok\<close>.  The error of the integrity check is a record of its code, message and classification.

  The theory shows that the rules of the integrity check accept exactly the complete and mutually consistent record
  sets, that they agree with the cross links of an aggregate up to the reference of the evidence, and that the
  conversion of the historical arguments only builds record sets that pass.
\<close>

section \<open>Publication audit\<close>

datatype PublishedVersionState = AVAILABLE | ACTIVE | SUPERSEDED | DEPRECATED | RETIRED

fun version_state_value :: "PublishedVersionState \<Rightarrow> string" where
  "version_state_value AVAILABLE = ''available''"
| "version_state_value ACTIVE = ''active''"
| "version_state_value SUPERSEDED = ''superseded''"
| "version_state_value DEPRECATED = ''deprecated''"
| "version_state_value RETIRED = ''retired''"

datatype PublishIdempotencyStatus = CREATED | REUSED

record AssertionProvenanceSummary =
  aps_manual :: int
  aps_discovered :: int
  aps_inferred :: int
  aps_llm_suggested :: int

definition provenance_summary_ok :: "AssertionProvenanceSummary \<Rightarrow> bool" where
  "provenance_summary_ok s \<longleftrightarrow>
     list_all (\<lambda>n. 0 \<le> n \<and> n \<le> 16384) [aps_manual s, aps_discovered s, aps_inferred s, aps_llm_suggested s]"

record PublishVerificationSummary =
  structural_valid :: bool
  manifest_equivalent :: bool
  host_callback_count :: int
  pv_issue_codes :: "string list"
  pv_suite_version :: "int option"
  pv_policy_profile :: "string option"
  pv_policy_version :: "int option"
  pv_policy_fingerprint :: "string option"
  pv_plan_fingerprint :: "string option"
  pv_runner_id :: "string option"
  pv_runner_version :: "int option"
  layer_statuses :: "string list"
  layer_case_counts :: "int list"
  evidence_fingerprint :: "string option"
  evidence_reference :: "string option"
  release_binding_fingerprint :: "string option"

definition suite_identities :: "PublishVerificationSummary \<Rightarrow> bool list" where
  "suite_identities s =
     [pv_suite_version s \<noteq> None, pv_policy_profile s \<noteq> None, pv_policy_version s \<noteq> None, pv_policy_fingerprint s \<noteq> None,
      pv_runner_id s \<noteq> None, pv_runner_version s \<noteq> None, evidence_fingerprint s \<noteq> None, evidence_reference s \<noteq> None]"

definition suite_fields_complete :: "PublishVerificationSummary \<Rightarrow> bool" where
  "suite_fields_complete s \<longleftrightarrow>
     \<not> (list_ex id (suite_identities s) \<and> \<not> list_all id (suite_identities s)) \<and>
     \<not> (pv_suite_version s = None \<and> (layer_statuses s \<noteq> [] \<or> layer_case_counts s \<noteq> [])) \<and>
     length (layer_statuses s) = length (layer_case_counts s) \<and>
     set (layer_statuses s) \<subseteq> set [''passed'', ''failed'', ''skipped'', ''unavailable'', ''timed_out'', ''not_run''] \<and>
     list_all (\<lambda>n. 0 \<le> n \<and> n \<le> 1000) (layer_case_counts s)"

definition version_number_ok :: "int \<Rightarrow> bool" where
  "version_number_ok n \<longleftrightarrow> 1 \<le> n \<and> n \<le> 1000"

definition verification_summary_ok :: "PublishVerificationSummary \<Rightarrow> bool" where
  "verification_summary_ok s \<longleftrightarrow>
     0 \<le> host_callback_count s \<and> host_callback_count s \<le> 64 \<and> length (pv_issue_codes s) \<le> 64 \<and>
     list_all (\<lambda>c. c \<noteq> [] \<and> length c \<le> 64) (pv_issue_codes s) \<and> opt_all version_number_ok (pv_suite_version s) \<and>
     opt_all identifier_ok (pv_policy_profile s) \<and> opt_all version_number_ok (pv_policy_version s) \<and>
     opt_all fingerprint_ok (pv_policy_fingerprint s) \<and> opt_all fingerprint_ok (pv_plan_fingerprint s) \<and>
     opt_all identifier_ok (pv_runner_id s) \<and> opt_all version_number_ok (pv_runner_version s) \<and>
     length (layer_statuses s) \<le> 3 \<and> length (layer_case_counts s) \<le> 3 \<and> opt_all fingerprint_ok (evidence_fingerprint s) \<and>
     opt_all identifier_ok (evidence_reference s) \<and> opt_all fingerprint_ok (release_binding_fingerprint s) \<and>
     suite_fields_complete s"

record DeploymentBindingRedactionSummary =
  binding_count :: int
  reference_schemes :: "string list"

text \<open>Construction sorts the schemes.\<close>

definition new_DeploymentSummary :: "DeploymentBindingRedactionSummary \<Rightarrow> DeploymentBindingRedactionSummary res" where
  "new_DeploymentSummary d =
     (if 0 \<le> binding_count d \<and> binding_count d \<le> 64 \<and> length (reference_schemes d) \<le> 3 \<and>
         set (reference_schemes d) \<subseteq> set [''env'', ''vault'', ''file''] \<and> distinct (reference_schemes d)
      then Inr (d\<lparr>reference_schemes := sort (reference_schemes d)\<rparr>) else Inl ValidationError)"

record SupersessionMetadata =
  predecessor_fingerprint :: "string option"
  successor_fingerprint :: "string option"

definition supersession_ok :: "SupersessionMetadata \<Rightarrow> bool" where
  "supersession_ok s \<longleftrightarrow>
     opt_all fingerprint_ok (predecessor_fingerprint s) \<and> opt_all fingerprint_ok (successor_fingerprint s) \<and>
     \<not> (predecessor_fingerprint s \<noteq> None \<and> predecessor_fingerprint s = successor_fingerprint s)"

record PublishAuditRecord =
  audit_id :: string
  par_bundle_id :: string
  par_bundle_fingerprint :: string
  approval_chain :: "string list"
  assertion_provenance :: AssertionProvenanceSummary
  par_verification :: PublishVerificationSummary
  idempotency_status :: PublishIdempotencyStatus
  deployment_bindings :: DeploymentBindingRedactionSummary
  par_separation_mode :: string
  separation_reason_code :: string
  waiver_reference :: "string option"
  par_published_at :: timestamp

definition publish_audit_ok :: "PublishAuditRecord \<Rightarrow> bool" where
  "publish_audit_ok a \<longleftrightarrow>
     identifier_ok (audit_id a) \<and> identifier_ok (par_bundle_id a) \<and> fingerprint_ok (par_bundle_fingerprint a) \<and>
     length (approval_chain a) \<le> 64 \<and> distinct (approval_chain a) \<and> list_all reference_text_ok (approval_chain a) \<and>
     provenance_summary_ok (assertion_provenance a) \<and> verification_summary_ok (par_verification a) \<and>
     is_ok (new_DeploymentSummary (deployment_bindings a)) \<and>
     1 \<le> length (par_separation_mode a) \<and> length (par_separation_mode a) \<le> 64 \<and>
     1 \<le> length (separation_reason_code a) \<and> length (separation_reason_code a) \<le> 64 \<and>
     opt_all reference_text_ok (waiver_reference a)"

section \<open>Lifecycle witnesses\<close>

datatype WitnessKind = POINTER_WITNESS | HISTORY_WITNESS

fun witness_prefix :: "WitnessKind \<Rightarrow> string" where
  "witness_prefix POINTER_WITNESS = ''pointer''"
| "witness_prefix HISTORY_WITNESS = ''history''"

record LifecycleWitnessError =
  lw_code :: string
  lw_message :: string

definition validate_lifecycle_witness ::
  "SemanticModelBundle \<Rightarrow> WitnessKind \<Rightarrow> string option \<Rightarrow> string option \<Rightarrow> PublishedVersionState option \<Rightarrow>
   PublishedVersionState option \<Rightarrow> int option \<Rightarrow> int option \<Rightarrow> LifecycleWitnessError + unit" where
  "validate_lifecycle_witness b w fp version state required position expected_position =
     (let prefix = witness_prefix w
      in if version \<noteq> None \<and> version \<noteq> Some (Bundle_Model.model_version b) then
           Inl \<lparr>lw_code = prefix @ ''_version_mismatch'', lw_message = prefix @ '' version does not match its publication''\<rparr>
         else if fp \<noteq> None \<and> fp \<noteq> Some (bundle_fingerprint b) then
           Inl \<lparr>lw_code = prefix @ ''_fingerprint_mismatch'', lw_message = prefix @ '' fingerprint does not match its publication''\<rparr>
         else if state = Some RETIRED then
           Inl \<lparr>lw_code = ''bundle_retired'', lw_message = ''retired bundle versions cannot be activated or restored''\<rparr>
         else if required \<noteq> None \<and> state \<noteq> required then
           Inl \<lparr>lw_code = prefix @ ''_state_mismatch'',
                lw_message = prefix @ '' points at a version record in state '' @
                  quoted (case state of None \<Rightarrow> ''None'' | Some s \<Rightarrow> version_state_value s)\<rparr>
         else if expected_position \<noteq> None \<and> position \<noteq> expected_position then
           Inl \<lparr>lw_code = prefix @ ''_discontinuity'', lw_message = prefix @ '' history is not contiguous with the active pointer''\<rparr>
         else Inr ())"

section \<open>Bindings\<close>

record PublicationDraftBinding =
  db_draft_id :: string
  db_draft_revision :: int
  db_payload_fingerprint :: string
  db_plan_fingerprint :: "string option"
  db_tenant :: string
  db_source :: string

definition draft_binding_ok :: "PublicationDraftBinding \<Rightarrow> bool" where
  "draft_binding_ok b \<longleftrightarrow>
     identifier_ok (db_draft_id b) \<and> 0 \<le> db_draft_revision b \<and> fingerprint_ok (db_payload_fingerprint b) \<and>
     opt_all fingerprint_ok (db_plan_fingerprint b) \<and> fingerprint_ok (db_tenant b) \<and> fingerprint_ok (db_source b)"

definition draft_binding_payload :: "PublicationDraftBinding \<Rightarrow> jv" where
  "draft_binding_payload b = vdict
     ([(''schema_version'', VInt 1), (''draft_id'', VStr (db_draft_id b)), (''draft_revision'', VInt (db_draft_revision b)),
       (''draft_payload_fingerprint'', VStr (db_payload_fingerprint b)),
       (''tenant_scope_fingerprint'', VStr (db_tenant b)), (''source_scope_fingerprint'', VStr (db_source b))] @
      opt_member ''approved_plan_fingerprint'' VStr (db_plan_fingerprint b))"

record FrozenReleaseBinding =
  approved_draft_id :: string
  approved_draft_revision :: int
  frb_plan_fingerprint :: "string option"
  frb_bundle_fingerprint :: string
  frb_manifest_fingerprint :: string
  frb_tenant :: string
  frb_source :: string
  frb_policy_profile :: string
  frb_policy_version :: int
  frb_policy_fingerprint :: string
  frb_runner_id :: string
  frb_runner_version :: int
  frb_executor_id :: "string option"
  frb_capability_fingerprint :: "string option"

definition release_binding_ok :: "FrozenReleaseBinding \<Rightarrow> bool" where
  "release_binding_ok b \<longleftrightarrow>
     identifier_ok (approved_draft_id b) \<and> 1 \<le> approved_draft_revision b \<and> opt_all fingerprint_ok (frb_plan_fingerprint b) \<and>
     fingerprint_ok (frb_bundle_fingerprint b) \<and> fingerprint_ok (frb_manifest_fingerprint b) \<and> fingerprint_ok (frb_tenant b) \<and>
     fingerprint_ok (frb_source b) \<and> identifier_ok (frb_policy_profile b) \<and> version_number_ok (frb_policy_version b) \<and>
     fingerprint_ok (frb_policy_fingerprint b) \<and> identifier_ok (frb_runner_id b) \<and> version_number_ok (frb_runner_version b) \<and>
     opt_all identifier_ok (frb_executor_id b) \<and> opt_all fingerprint_ok (frb_capability_fingerprint b) \<and>
     (frb_executor_id b = None) = (frb_capability_fingerprint b = None)"

definition release_binding_payload :: "FrozenReleaseBinding \<Rightarrow> jv" where
  "release_binding_payload b = vdict
     ([(''schema_version'', VInt 1), (''approved_draft_id'', VStr (approved_draft_id b)),
       (''approved_draft_revision'', VInt (approved_draft_revision b)),
       (''bundle_fingerprint'', VStr (frb_bundle_fingerprint b)), (''manifest_fingerprint'', VStr (frb_manifest_fingerprint b)),
       (''tenant_scope_fingerprint'', VStr (frb_tenant b)), (''source_scope_fingerprint'', VStr (frb_source b)),
       (''policy_profile'', VStr (frb_policy_profile b)), (''policy_version'', VInt (frb_policy_version b)),
       (''policy_fingerprint'', VStr (frb_policy_fingerprint b)), (''runner_id'', VStr (frb_runner_id b)),
       (''runner_version'', VInt (frb_runner_version b))] @
      opt_member ''approved_plan_fingerprint'' VStr (frb_plan_fingerprint b) @
      (case frb_executor_id b of
         None \<Rightarrow> []
       | Some i \<Rightarrow> [(''executor_id'', VStr i), (''executor_capability_fingerprint'', vopt VStr (frb_capability_fingerprint b))]))"

definition frozen_binding_fingerprint :: "FrozenReleaseBinding \<Rightarrow> string" where
  "frozen_binding_fingerprint b = fingerprint_of (release_binding_payload b)"

definition from_evidence :: "SuiteEvidence \<Rightarrow> FrozenReleaseBinding" where
  "from_evidence e =
     \<lparr>approved_draft_id = se_draft_id e, approved_draft_revision = se_draft_revision e,
      frb_plan_fingerprint = se_plan_fingerprint e, frb_bundle_fingerprint = se_bundle_fingerprint e,
      frb_manifest_fingerprint = se_manifest_fingerprint e, frb_tenant = se_tenant e, frb_source = se_source e,
      frb_policy_profile = se_policy_profile e, frb_policy_version = se_policy_version e,
      frb_policy_fingerprint = se_policy_fingerprint e, frb_runner_id = runner_id e, frb_runner_version = runner_version e,
      frb_executor_id = executor_id e, frb_capability_fingerprint = executor_capability_fingerprint e\<rparr>"

definition matches_evidence :: "FrozenReleaseBinding \<Rightarrow> SuiteEvidence \<Rightarrow> bool" where
  "matches_evidence b e \<longleftrightarrow> b = from_evidence e"

text \<open>The binding of valid evidence is valid: freezing never raises.\<close>

lemma from_evidence_ok: "suite_evidence_ok e \<Longrightarrow> release_binding_ok (from_evidence e)"
  by (simp add: suite_evidence_ok_def release_binding_ok_def from_evidence_def version_number_ok_def)

section \<open>Record sets\<close>

record PublicationRecordSet =
  prs_bundle_id :: string
  prs_bundle_fingerprint :: string
  prs_manifest :: "AcceptedAssertionManifest option"
  prs_audit :: "PublishAuditRecord option"
  prs_evidence :: "SuiteEvidence option"
  prs_binding :: "FrozenReleaseBinding option"
  prs_audit_evidence :: "PublicationAuditEvidence option"

record PublicationAggregate =
  pa_bundle :: SemanticModelBundle
  pa_manifest :: AcceptedAssertionManifest
  pa_audit :: PublishAuditRecord
  pa_evidence :: SuiteEvidence
  pa_binding :: FrozenReleaseBinding
  pa_audit_evidence :: "PublicationAuditEvidence option"

record PublicationIntegrityError =
  ie_code :: string
  ie_message :: string
  ie_classification :: "string option"

definition from_aggregate :: "PublicationAggregate \<Rightarrow> PublicationRecordSet" where
  "from_aggregate g =
     \<lparr>prs_bundle_id = bundle_id (pa_bundle g), prs_bundle_fingerprint = bundle_fingerprint (pa_bundle g),
      prs_manifest = Some (pa_manifest g), prs_audit = Some (pa_audit g), prs_evidence = Some (pa_evidence g),
      prs_binding = Some (pa_binding g), prs_audit_evidence = pa_audit_evidence g\<rparr>"

definition verification_evidence_reference :: "string \<Rightarrow> string" where
  "verification_evidence_reference fp = ''verification-'' @ short_digest fp"

definition publication_audit_evidence_classification :: "PublicationRecordSet \<Rightarrow> string" where
  "publication_audit_evidence_classification r =
     (if prs_audit_evidence r \<noteq> None then ''complete''
      else if prs_evidence r \<noteq> None \<and> prs_binding r \<noteq> None \<and> prs_audit r \<noteq> None then ''legacy''
      else ''incomplete'')"

definition verification_summary_mirrors_evidence :: "PublishVerificationSummary \<Rightarrow> SuiteEvidence \<Rightarrow> bool" where
  "verification_summary_mirrors_evidence s e \<longleftrightarrow>
     pv_suite_version s = Some 1 \<and> pv_policy_profile s = Some (se_policy_profile e) \<and>
     pv_policy_version s = Some (se_policy_version e) \<and> pv_policy_fingerprint s = Some (se_policy_fingerprint e) \<and>
     pv_plan_fingerprint s = se_plan_fingerprint e \<and> pv_runner_id s = Some (runner_id e) \<and>
     pv_runner_version s = Some (runner_version e) \<and>
     layer_statuses s = map (\<lambda>l. status_value (layer_status l)) (layers e) \<and>
     layer_case_counts s = map (\<lambda>l. int (length (cases l))) (layers e)"

definition integrity_error :: "string \<Rightarrow> string \<Rightarrow> PublicationIntegrityError" where
  "integrity_error code message = \<lparr>ie_code = code, ie_message = message, ie_classification = None\<rparr>"

definition audit_claims_evidence :: "PublishAuditRecord \<Rightarrow> bool" where
  "audit_claims_evidence a \<longleftrightarrow> evidence_fingerprint (par_verification a) \<noteq> None \<or> evidence_reference (par_verification a) \<noteq> None"

definition audit_matches_evidence :: "PublishAuditRecord \<Rightarrow> SuiteEvidence \<Rightarrow> bool" where
  "audit_matches_evidence a e \<longleftrightarrow>
     evidence_fingerprint (par_verification a) = Some (suite_fingerprint e) \<and>
     evidence_reference (par_verification a) = Some (verification_evidence_reference (suite_fingerprint e)) \<and>
     verification_summary_mirrors_evidence (par_verification a) e \<and>
     structural_valid (par_verification a) \<and> manifest_equivalent (par_verification a)"

definition audit_evidence_matches ::
  "PublicationAuditEvidence \<Rightarrow> AcceptedAssertionManifest \<Rightarrow> SuiteEvidence \<Rightarrow> PublishAuditRecord \<Rightarrow> bool" where
  "audit_evidence_matches p m e a \<longleftrightarrow>
     pe_manifest_fingerprint p = manifest_fingerprint m \<and> pe_verification_evidence_fingerprint p = suite_fingerprint e \<and>
     pe_approved_draft_id p = se_draft_id e \<and> pe_approved_draft_revision p = se_draft_revision e \<and>
     pe_approved_plan_fingerprint p = pv_plan_fingerprint (par_verification a) \<and> pe_policy_profile p = se_policy_profile e \<and>
     pe_policy_version p = se_policy_version e \<and> pe_policy_fingerprint p = se_policy_fingerprint e \<and>
     pe_tenant p = se_tenant e \<and> pe_source p = se_source e"

text \<open>The rules that need evidence, in the order of the code.\<close>

definition validate_verified ::
  "PublicationRecordSet \<Rightarrow> SuiteEvidence \<Rightarrow> PublicationIntegrityError + unit" where
  "validate_verified r e =
     (case prs_manifest r of
        None \<Rightarrow> Inl (integrity_error ''verification_manifest_mismatch''
                      ''verification evidence does not match the accepted manifest'')
      | Some m \<Rightarrow>
          if se_manifest_fingerprint e \<noteq> manifest_fingerprint m then
            Inl (integrity_error ''verification_manifest_mismatch'' ''verification evidence does not match the accepted manifest'')
          else (case prs_audit r of
            None \<Rightarrow> Inl (integrity_error ''verification_audit_mismatch'' ''publish audit does not match verification evidence'')
          | Some a \<Rightarrow>
              if \<not> audit_matches_evidence a e then
                Inl (integrity_error ''verification_audit_mismatch'' ''publish audit does not match verification evidence'')
              else (case prs_binding r of
                None \<Rightarrow> Inl \<lparr>ie_code = ''verification_binding_mismatch'',
                              ie_message = ''verification evidence has no frozen release binding'',
                              ie_classification = Some ''legacy_unverified''\<rparr>
              | Some b \<Rightarrow>
                  if \<not> matches_evidence b e \<or> frb_bundle_fingerprint b \<noteq> prs_bundle_fingerprint r then
                    Inl (integrity_error ''verification_binding_mismatch''
                      ''verification evidence does not match its frozen release binding'')
                  else if release_binding_fingerprint (par_verification a) \<noteq> None \<and>
                          release_binding_fingerprint (par_verification a) \<noteq> Some (frozen_binding_fingerprint b) then
                    Inl (integrity_error ''verification_binding_audit_mismatch''
                      ''publish audit does not match frozen release binding'')
                  else if (case prs_audit_evidence r of None \<Rightarrow> False | Some p \<Rightarrow> \<not> audit_evidence_matches p m e a) then
                    Inl (integrity_error ''publication_audit_evidence_mismatch''
                      ''publication audit evidence does not match the publication records'')
                  else Inr ())))"

definition validate_publication_integrity :: "PublicationRecordSet \<Rightarrow> PublicationIntegrityError + unit" where
  "validate_publication_integrity r =
     (if (case prs_manifest r of None \<Rightarrow> False
          | Some m \<Rightarrow> mf_bundle_id m \<noteq> prs_bundle_id r \<or> mf_bundle_fingerprint m \<noteq> prs_bundle_fingerprint r) then
        Inl (integrity_error ''manifest_mismatch'' ''accepted assertion manifest does not match the published bundle'')
      else if (case prs_audit r of None \<Rightarrow> False
          | Some a \<Rightarrow> par_bundle_id a \<noteq> prs_bundle_id r \<or> par_bundle_fingerprint a \<noteq> prs_bundle_fingerprint r) then
        Inl (integrity_error ''audit_mismatch'' ''publish audit does not match the published bundle'')
      else if (case prs_audit_evidence r of None \<Rightarrow> False
          | Some p \<Rightarrow> pe_bundle_fingerprint p \<noteq> prs_bundle_fingerprint r \<or>
                     (case prs_audit r of None \<Rightarrow> True | Some a \<Rightarrow> pe_publish_audit_reference p \<noteq> audit_id a) \<or>
                     prs_evidence r = None) then
        Inl (integrity_error ''publication_audit_evidence_mismatch''
          ''publication audit evidence does not match the publication records'')
      else (case prs_evidence r of
        None \<Rightarrow>
          if (case prs_audit r of None \<Rightarrow> False | Some a \<Rightarrow> audit_claims_evidence a) then
            Inl (integrity_error ''verification_audit_mismatch''
              ''publish audit references verification evidence that was not supplied'')
          else if prs_binding r \<noteq> None then
            Inl (integrity_error ''verification_binding_mismatch'' ''frozen release binding requires verification evidence'')
          else Inr ()
      | Some e \<Rightarrow>
          if se_bundle_fingerprint e \<noteq> prs_bundle_fingerprint r \<or> suite_status e \<noteq> PASSED then
            Inl (integrity_error ''verification_evidence_mismatch''
              ''verification evidence does not match the published bundle'')
          else validate_verified r e))"

definition with_binding_fingerprint :: "PublishAuditRecord \<Rightarrow> FrozenReleaseBinding \<Rightarrow> PublishAuditRecord" where
  "with_binding_fingerprint a b =
     (if release_binding_fingerprint (par_verification a) = None
      then a\<lparr>par_verification := (par_verification a)\<lparr>release_binding_fingerprint := Some (frozen_binding_fingerprint b)\<rparr>\<rparr>
      else a)"

definition build_publication_records ::
  "SemanticModelBundle \<Rightarrow> AcceptedAssertionManifest option \<Rightarrow> PublishAuditRecord option \<Rightarrow> SuiteEvidence option \<Rightarrow>
   FrozenReleaseBinding option \<Rightarrow> PublicationIntegrityError + PublicationRecordSet" where
  "build_publication_records b manifest audit evidence binding =
     (let frozen = (case evidence of
            None \<Rightarrow> binding
          | Some e \<Rightarrow> Some (case binding of None \<Rightarrow> from_evidence e | Some x \<Rightarrow> x));
          audit' = (case (evidence, audit, frozen) of
            (Some _, Some a, Some x) \<Rightarrow> Some (with_binding_fingerprint a x)
          | _ \<Rightarrow> audit);
          r = \<lparr>prs_bundle_id = bundle_id b, prs_bundle_fingerprint = bundle_fingerprint b, prs_manifest = manifest,
               prs_audit = audit', prs_evidence = evidence, prs_binding = frozen, prs_audit_evidence = None\<rparr>
      in bind_res (validate_publication_integrity r) (\<lambda>_. Inr r))"

definition aggregate_audit_evidence_ok :: "PublicationAggregate \<Rightarrow> PublicationAuditEvidence \<Rightarrow> bool" where
  "aggregate_audit_evidence_ok g p \<longleftrightarrow>
     pe_bundle_fingerprint p = bundle_fingerprint (pa_bundle g) \<and>
     pe_manifest_fingerprint p = manifest_fingerprint (pa_manifest g) \<and>
     pe_verification_evidence_fingerprint p = suite_fingerprint (pa_evidence g) \<and>
     pe_approved_draft_id p = approved_draft_id (pa_binding g) \<and>
     pe_approved_draft_revision p = approved_draft_revision (pa_binding g) \<and>
     pe_approved_plan_fingerprint p = frb_plan_fingerprint (pa_binding g) \<and> pe_tenant p = frb_tenant (pa_binding g) \<and>
     pe_source p = frb_source (pa_binding g) \<and> pe_policy_profile p = frb_policy_profile (pa_binding g) \<and>
     pe_policy_version p = frb_policy_version (pa_binding g) \<and>
     pe_policy_fingerprint p = frb_policy_fingerprint (pa_binding g) \<and>
     pe_publish_audit_reference p = audit_id (pa_audit g)"

definition aggregate_ok :: "PublicationAggregate \<Rightarrow> bool" where
  "aggregate_ok g \<longleftrightarrow>
     mf_bundle_id (pa_manifest g) = bundle_id (pa_bundle g) \<and>
     mf_bundle_fingerprint (pa_manifest g) = bundle_fingerprint (pa_bundle g) \<and>
     par_bundle_id (pa_audit g) = bundle_id (pa_bundle g) \<and>
     par_bundle_fingerprint (pa_audit g) = bundle_fingerprint (pa_bundle g) \<and>
     se_bundle_fingerprint (pa_evidence g) = bundle_fingerprint (pa_bundle g) \<and> suite_status (pa_evidence g) = PASSED \<and>
     se_manifest_fingerprint (pa_evidence g) = manifest_fingerprint (pa_manifest g) \<and>
     matches_evidence (pa_binding g) (pa_evidence g) \<and>
     evidence_fingerprint (par_verification (pa_audit g)) = Some (suite_fingerprint (pa_evidence g)) \<and>
     release_binding_fingerprint (par_verification (pa_audit g)) = Some (frozen_binding_fingerprint (pa_binding g)) \<and>
     verification_summary_mirrors_evidence (par_verification (pa_audit g)) (pa_evidence g) \<and>
     structural_valid (par_verification (pa_audit g)) \<and> manifest_equivalent (par_verification (pa_audit g)) \<and>
     opt_all (aggregate_audit_evidence_ok g) (pa_audit_evidence g)"

section \<open>What the rules accept\<close>

text \<open>
  The records of a publication belong together: every record is about the bundle; without evidence nothing claims
  any; with evidence it passed, and the manifest, the audit, the frozen binding and the audit evidence all describe it.
\<close>

definition consistent_records :: "PublicationRecordSet \<Rightarrow> bool" where
  "consistent_records r \<longleftrightarrow>
     (\<forall>m. prs_manifest r = Some m \<longrightarrow> mf_bundle_id m = prs_bundle_id r \<and> mf_bundle_fingerprint m = prs_bundle_fingerprint r) \<and>
     (\<forall>a. prs_audit r = Some a \<longrightarrow> par_bundle_id a = prs_bundle_id r \<and> par_bundle_fingerprint a = prs_bundle_fingerprint r) \<and>
     (prs_evidence r = None \<longrightarrow>
        prs_audit_evidence r = None \<and> prs_binding r = None \<and> (\<forall>a. prs_audit r = Some a \<longrightarrow> \<not> audit_claims_evidence a)) \<and>
     (\<forall>e. prs_evidence r = Some e \<longrightarrow>
        se_bundle_fingerprint e = prs_bundle_fingerprint r \<and> suite_status e = PASSED \<and>
        prs_binding r = Some (from_evidence e) \<and>
        (\<exists>m a. prs_manifest r = Some m \<and> prs_audit r = Some a \<and> se_manifest_fingerprint e = manifest_fingerprint m \<and>
           audit_matches_evidence a e \<and>
           release_binding_fingerprint (par_verification a) \<in> {None, Some (frozen_binding_fingerprint (from_evidence e))} \<and>
           (\<forall>p. prs_audit_evidence r = Some p \<longrightarrow>
              pe_bundle_fingerprint p = prs_bundle_fingerprint r \<and> pe_publish_audit_reference p = audit_id a \<and>
              audit_evidence_matches p m e a)))"

lemma validate_verified_iff:
  "validate_verified r e = Inr () \<longleftrightarrow>
    (\<exists>m a b. prs_manifest r = Some m \<and> prs_audit r = Some a \<and> prs_binding r = Some b \<and>
       se_manifest_fingerprint e = manifest_fingerprint m \<and> audit_matches_evidence a e \<and> matches_evidence b e \<and>
       frb_bundle_fingerprint b = prs_bundle_fingerprint r \<and>
       release_binding_fingerprint (par_verification a) \<in> {None, Some (frozen_binding_fingerprint b)} \<and>
       opt_all (\<lambda>p. audit_evidence_matches p m e a) (prs_audit_evidence r))"
  by (cases "prs_manifest r"; cases "prs_audit r"; cases "prs_binding r"; cases "prs_audit_evidence r")
     (auto simp: validate_verified_def)

theorem integrity_rules_exact: "validate_publication_integrity r = Inr () \<longleftrightarrow> consistent_records r"
proof (cases "prs_evidence r")
  case None
  then show ?thesis
    by (cases "prs_manifest r"; cases "prs_audit r"; cases "prs_audit_evidence r")
       (auto simp: validate_publication_integrity_def consistent_records_def)
next
  case (Some e)
  then show ?thesis
    by (cases "prs_manifest r"; cases "prs_audit r"; cases "prs_audit_evidence r"; cases "prs_binding r")
       (auto simp: validate_publication_integrity_def consistent_records_def validate_verified_iff matches_evidence_def
          from_evidence_def)
qed

text \<open>
  C40.  The cross links of an aggregate and the integrity rules of the catalog are the same contract, up to the
  reference of the evidence: the records of an aggregate pass the rules, with the fingerprint of the frozen binding
  in the audit, if and only if the aggregate can be built and its audit carries the reference derived from the
  evidence.
\<close>

theorem aggregate_agrees_with_integrity:
  "aggregate_ok g \<and>
   evidence_reference (par_verification (pa_audit g)) = Some (verification_evidence_reference (suite_fingerprint (pa_evidence g)))
   \<longleftrightarrow>
   validate_publication_integrity (from_aggregate g) = Inr () \<and>
   release_binding_fingerprint (par_verification (pa_audit g)) = Some (frozen_binding_fingerprint (pa_binding g))"
proof -
  have link: "opt_all (aggregate_audit_evidence_ok g) (pa_audit_evidence g) \<longleftrightarrow>
      (\<forall>p. pa_audit_evidence g = Some p \<longrightarrow>
         pe_bundle_fingerprint p = bundle_fingerprint (pa_bundle g) \<and> pe_publish_audit_reference p = audit_id (pa_audit g) \<and>
         audit_evidence_matches p (pa_manifest g) (pa_evidence g) (pa_audit g))"
    if "matches_evidence (pa_binding g) (pa_evidence g)"
      and "verification_summary_mirrors_evidence (par_verification (pa_audit g)) (pa_evidence g)"
    using that
    by (cases "pa_audit_evidence g")
       (auto simp: aggregate_audit_evidence_ok_def audit_evidence_matches_def matches_evidence_def from_evidence_def
          verification_summary_mirrors_evidence_def)
  show ?thesis
    unfolding integrity_rules_exact consistent_records_def from_aggregate_def aggregate_ok_def
    using link by (auto simp: matches_evidence_def audit_matches_evidence_def)
qed

text \<open>The historical arguments are converted only into records that pass.\<close>

lemma built_records_consistent:
  assumes "build_publication_records b m a e fb = Inr r"
  shows "consistent_records r \<and> prs_bundle_id r = bundle_id b \<and> prs_bundle_fingerprint r = bundle_fingerprint b \<and>
    prs_manifest r = m \<and> prs_evidence r = e \<and> prs_audit_evidence r = None"
proof -
  obtain r' where r: "r = r'" "validate_publication_integrity r' = Inr ()"
    and "prs_bundle_id r' = bundle_id b" "prs_bundle_fingerprint r' = bundle_fingerprint b" "prs_manifest r' = m"
      "prs_evidence r' = e" "prs_audit_evidence r' = None"
    using assms unfolding build_publication_records_def Let_def bind_res_Inr_iff by auto
  then show ?thesis by (simp add: integrity_rules_exact)
qed

end
