(* ===== verification/Metadata_Snapshot.thy ===== *)
theory Metadata_Snapshot
  imports Assembly_Model Query_IR "HOL-Library.Multiset"
begin

text \<open>
  Discovered metadata: \<^verbatim>\<open>src/nl2data_core/metadata/models.py\<close> and
  \<^verbatim>\<open>src/nl2data_core/metadata/compare.py\<close>.

  A snapshot and its parts are records with the validators of the models as predicates \<open>..._ok\<close>; the
  fingerprint of a snapshot is a function of its other members.  A float is given by its \<open>repr\<close>, an instant by
  its microseconds.  The dict of constraints that a comparison builds over all objects keeps the last constraint of
  an id.

  The theory shows that the fingerprint of a snapshot depends neither on the order in which a backend lists its
  parts nor on the instants of discovery, and characterizes every list of a comparison.
\<close>

section \<open>Facts\<close>

datatype MetadataTrustLevel = DECLARED | OBSERVED | INFERRED

fun trust_level_value :: "MetadataTrustLevel \<Rightarrow> string" where
  "trust_level_value DECLARED = ''declared''"
| "trust_level_value OBSERVED = ''observed''"
| "trust_level_value INFERRED = ''inferred''"

datatype MetadataObjectKind = TABLE | VIEW_OBJECT | COLLECTION

fun object_kind_value :: "MetadataObjectKind \<Rightarrow> string" where
  "object_kind_value TABLE = ''table''"
| "object_kind_value VIEW_OBJECT = ''view''"
| "object_kind_value COLLECTION = ''collection''"

datatype MetadataConstraintKind = PRIMARY_KEY | FOREIGN_KEY | UNIQUE_KEY | NOT_NULL

fun constraint_kind_value :: "MetadataConstraintKind \<Rightarrow> string" where
  "constraint_kind_value PRIMARY_KEY = ''primary_key''"
| "constraint_kind_value FOREIGN_KEY = ''foreign_key''"
| "constraint_kind_value UNIQUE_KEY = ''unique''"
| "constraint_kind_value NOT_NULL = ''not_null''"

datatype MetadataRelationshipKind = BY_FOREIGN_KEY | EMBEDDED

fun relationship_kind_value :: "MetadataRelationshipKind \<Rightarrow> string" where
  "relationship_kind_value BY_FOREIGN_KEY = ''foreign_key''"
| "relationship_kind_value EMBEDDED = ''embedded''"

datatype MetadataStatisticKind = ROW_COUNT | DISTINCT_ESTIMATE | NULL_FRACTION | MAX_LENGTH

fun statistic_kind_value :: "MetadataStatisticKind \<Rightarrow> string" where
  "statistic_kind_value ROW_COUNT = ''row_count''"
| "statistic_kind_value DISTINCT_ESTIMATE = ''distinct_estimate''"
| "statistic_kind_value NULL_FRACTION = ''null_fraction''"
| "statistic_kind_value MAX_LENGTH = ''max_length''"

definition METADATA_SCHEMA_VERSION :: int where "METADATA_SCHEMA_VERSION = 1"

definition description_ok :: "string \<Rightarrow> bool" where
  "description_ok s \<longleftrightarrow> length s \<le> 1024 \<and> safe_description s"

definition sorted_texts :: "string fset \<Rightarrow> jv" where
  "sorted_texts S = VList (map VStr (sorted_list_of_fset S))"

record MetadataEvidence =
  mev_id :: string
  mev_kind :: string
  mev_reference :: string
  mev_description :: string

definition metadata_evidence_ok :: "MetadataEvidence \<Rightarrow> bool" where
  "metadata_evidence_ok e \<longleftrightarrow>
     identifier_ok (mev_id e) \<and> 1 \<le> length (mev_kind e) \<and> length (mev_kind e) \<le> 32 \<and>
     fingerprint_ok (mev_reference e) \<and> description_ok (mev_description e)"

definition metadata_evidence_payload :: "MetadataEvidence \<Rightarrow> jv" where
  "metadata_evidence_payload e = vdict
     [(''evidence_id'', VStr (mev_id e)), (''kind'', VStr (mev_kind e)), (''reference'', VStr (mev_reference e)),
      (''description'', VStr (mev_description e))]"

record MetadataConfidence =
  conf_value :: string
  conf_method :: string
  conf_evidence_ids :: "string fset"

definition confidence_ok :: "MetadataConfidence \<Rightarrow> bool" where
  "confidence_ok c \<longleftrightarrow>
     finite_repr (conf_value c) \<and> 0 \<le> float_value (conf_value c) \<and> float_value (conf_value c) \<le> 1 \<and>
     1 \<le> length (conf_method c) \<and> length (conf_method c) \<le> 128 \<and>
     fcard (conf_evidence_ids c) \<le> 64 \<and> fBall (conf_evidence_ids c) identifier_ok"

definition confidence_payload :: "MetadataConfidence \<Rightarrow> jv" where
  "confidence_payload c = vdict
     [(''value'', VFloat (conf_value c)), (''method'', VStr (conf_method c)),
      (''evidence_ids'', sorted_texts (conf_evidence_ids c))]"

record MetadataField =
  mdf_id :: string
  mdf_object_id :: string
  mdf_path :: string
  mdf_type :: string
  mdf_nullable :: bool
  mdf_trust :: MetadataTrustLevel
  mdf_confidence :: "MetadataConfidence option"
  mdf_description :: string

definition metadata_field_ok :: "MetadataField \<Rightarrow> bool" where
  "metadata_field_ok f \<longleftrightarrow>
     identifier_ok (mdf_id f) \<and> identifier_ok (mdf_object_id f) \<and> 1 \<le> length (mdf_path f) \<and> length (mdf_path f) \<le> 256 \<and>
     1 \<le> length (mdf_type f) \<and> length (mdf_type f) \<le> 64 \<and> opt_all confidence_ok (mdf_confidence f) \<and>
     description_ok (mdf_description f)"

definition metadata_field_payload :: "MetadataField \<Rightarrow> jv" where
  "metadata_field_payload f = vdict
     [(''field_id'', VStr (mdf_id f)), (''object_id'', VStr (mdf_object_id f)), (''path'', VStr (mdf_path f)),
      (''data_type'', VStr (mdf_type f)), (''nullable'', VBool (mdf_nullable f)),
      (''trust_level'', VStr (trust_level_value (mdf_trust f))),
      (''confidence'', vopt confidence_payload (mdf_confidence f)), (''description'', VStr (mdf_description f))]"

record MetadataConstraint =
  mdc_id :: string
  mdc_kind :: MetadataConstraintKind
  mdc_fields :: "string fset"
  mdc_trust :: MetadataTrustLevel
  mdc_description :: string

definition metadata_constraint_ok :: "MetadataConstraint \<Rightarrow> bool" where
  "metadata_constraint_ok c \<longleftrightarrow>
     identifier_ok (mdc_id c) \<and> fcard (mdc_fields c) \<le> 16384 \<and> fBall (mdc_fields c) identifier_ok \<and>
     description_ok (mdc_description c)"

definition metadata_constraint_payload :: "MetadataConstraint \<Rightarrow> jv" where
  "metadata_constraint_payload c = vdict
     [(''constraint_id'', VStr (mdc_id c)), (''kind'', VStr (constraint_kind_value (mdc_kind c))),
      (''fields'', sorted_texts (mdc_fields c)), (''trust_level'', VStr (trust_level_value (mdc_trust c))),
      (''description'', VStr (mdc_description c))]"

record MetadataStatistic =
  mds_id :: string
  mds_kind :: MetadataStatisticKind
  mds_object_id :: string
  mds_field_id :: "string option"
  mds_value :: "string option"
  mds_trust :: MetadataTrustLevel

text \<open>An infinite value passes \<open>ge=0.0\<close>; the fingerprint of the snapshot rejects it.\<close>

definition metadata_statistic_ok :: "MetadataStatistic \<Rightarrow> bool" where
  "metadata_statistic_ok s \<longleftrightarrow>
     identifier_ok (mds_id s) \<and> identifier_ok (mds_object_id s) \<and> opt_all identifier_ok (mds_field_id s) \<and>
     opt_all (\<lambda>r. r = ''inf'' \<or> finite_repr r \<and> 0 \<le> float_value r) (mds_value s)"

definition metadata_statistic_payload :: "MetadataStatistic \<Rightarrow> jv" where
  "metadata_statistic_payload s = vdict
     [(''statistic_id'', VStr (mds_id s)), (''kind'', VStr (statistic_kind_value (mds_kind s))),
      (''scope_object_id'', VStr (mds_object_id s)), (''scope_field_id'', vopt VStr (mds_field_id s)),
      (''value'', vopt VFloat (mds_value s)), (''trust_level'', VStr (trust_level_value (mds_trust s)))]"

record MetadataRelationship =
  mdr_id :: string
  mdr_kind :: MetadataRelationshipKind
  mdr_source_object :: string
  mdr_target_object :: string
  mdr_source_fields :: "string fset"
  mdr_target_fields :: "string fset"
  mdr_trust :: MetadataTrustLevel
  mdr_description :: string

definition metadata_relationship_ok :: "MetadataRelationship \<Rightarrow> bool" where
  "metadata_relationship_ok r \<longleftrightarrow>
     identifier_ok (mdr_id r) \<and> identifier_ok (mdr_source_object r) \<and> identifier_ok (mdr_target_object r) \<and>
     fcard (mdr_source_fields r) \<le> 16384 \<and> fcard (mdr_target_fields r) \<le> 16384 \<and>
     fBall (mdr_source_fields r) identifier_ok \<and> fBall (mdr_target_fields r) identifier_ok \<and>
     description_ok (mdr_description r)"

definition metadata_relationship_payload :: "MetadataRelationship \<Rightarrow> jv" where
  "metadata_relationship_payload r = vdict
     [(''relationship_id'', VStr (mdr_id r)), (''kind'', VStr (relationship_kind_value (mdr_kind r))),
      (''source_object_id'', VStr (mdr_source_object r)), (''target_object_id'', VStr (mdr_target_object r)),
      (''source_fields'', sorted_texts (mdr_source_fields r)), (''target_fields'', sorted_texts (mdr_target_fields r)),
      (''trust_level'', VStr (trust_level_value (mdr_trust r))), (''description'', VStr (mdr_description r))]"

record MetadataObject =
  mdo_id :: string
  mdo_kind :: MetadataObjectKind
  mdo_name :: string
  mdo_fields :: "MetadataField list"
  mdo_constraints :: "MetadataConstraint list"
  mdo_statistics :: "MetadataStatistic list"
  mdo_trust :: MetadataTrustLevel
  observed_incomplete :: bool

definition metadata_object_ok :: "MetadataObject \<Rightarrow> bool" where
  "metadata_object_ok ob \<longleftrightarrow>
     identifier_ok (mdo_id ob) \<and> 1 \<le> length (mdo_name ob) \<and> length (mdo_name ob) \<le> 256 \<and>
     length (mdo_fields ob) \<le> 16384 \<and> length (mdo_constraints ob) \<le> 4096 \<and> length (mdo_statistics ob) \<le> 8192 \<and>
     list_all metadata_field_ok (mdo_fields ob) \<and> list_all metadata_constraint_ok (mdo_constraints ob) \<and>
     list_all metadata_statistic_ok (mdo_statistics ob) \<and>
     distinct (map mdf_id (mdo_fields ob)) \<and> distinct (map mdf_path (mdo_fields ob)) \<and>
     distinct (map mdc_id (mdo_constraints ob)) \<and> distinct (map mds_id (mdo_statistics ob))"

definition metadata_object_payload :: "MetadataObject \<Rightarrow> jv" where
  "metadata_object_payload ob = vdict
     [(''object_id'', VStr (mdo_id ob)), (''kind'', VStr (object_kind_value (mdo_kind ob))), (''name'', VStr (mdo_name ob)),
      (''fields'', VList (map metadata_field_payload (sort_key mdf_id (mdo_fields ob)))),
      (''constraints'', VList (map metadata_constraint_payload (sort_key mdc_id (mdo_constraints ob)))),
      (''statistics'', VList (map metadata_statistic_payload (sort_key mds_id (mdo_statistics ob)))),
      (''trust_level'', VStr (trust_level_value (mdo_trust ob))),
      (''observed_incomplete'', VBool (observed_incomplete ob))]"

definition object_field_ids :: "MetadataObject \<Rightarrow> string fset" where
  "object_field_ids ob = fset_of_list (map mdf_id (mdo_fields ob))"

section \<open>Snapshots\<close>

record MetadataFreshness =
  discovered_at :: timestamp
  bounded_objects :: bool
  bounded_fields :: bool
  bounded_samples :: bool
  sample_limit :: "int option"

definition freshness_ok :: "MetadataFreshness \<Rightarrow> bool" where
  "freshness_ok f \<longleftrightarrow> opt_all (\<lambda>n. 1 \<le> n \<and> n \<le> 1000000) (sample_limit f)"

definition freshness_payload :: "MetadataFreshness \<Rightarrow> (string \<times> jv) list" where
  "freshness_payload f =
     [(''discovered_at'', VStr (isoformat (discovered_at f))), (''bounded_objects'', VBool (bounded_objects f)),
      (''bounded_fields'', VBool (bounded_fields f)), (''bounded_samples'', VBool (bounded_samples f)),
      (''sample_limit'', vopt VInt (sample_limit f))]"

record MetadataSourceReference =
  msrc_id :: string
  catalog_fingerprint :: string
  msrc_description :: string

definition metadata_source_ok :: "MetadataSourceReference \<Rightarrow> bool" where
  "metadata_source_ok s \<longleftrightarrow>
     identifier_ok (msrc_id s) \<and> fingerprint_ok (catalog_fingerprint s) \<and> description_ok (msrc_description s)"

definition metadata_source_payload :: "MetadataSourceReference \<Rightarrow> jv" where
  "metadata_source_payload s = vdict
     [(''source_id'', VStr (msrc_id s)), (''catalog_fingerprint'', VStr (catalog_fingerprint s)),
      (''description'', VStr (msrc_description s))]"

record MetadataProvenance =
  discovered_by :: string
  mp_discovered_at :: timestamp
  mp_method :: string
  mp_evidence :: "MetadataEvidence list"

definition metadata_provenance_ok :: "MetadataProvenance \<Rightarrow> bool" where
  "metadata_provenance_ok p \<longleftrightarrow>
     fingerprint_ok (discovered_by p) \<and> 1 \<le> length (mp_method p) \<and> length (mp_method p) \<le> 128 \<and>
     length (mp_evidence p) \<le> 4096 \<and> list_all metadata_evidence_ok (mp_evidence p) \<and>
     distinct (map mev_id (mp_evidence p))"

definition metadata_provenance_payload :: "MetadataProvenance \<Rightarrow> (string \<times> jv) list" where
  "metadata_provenance_payload p =
     [(''discovered_by_fingerprint'', VStr (discovered_by p)), (''discovered_at'', VStr (isoformat (mp_discovered_at p))),
      (''method'', VStr (mp_method p)),
      (''evidence'', VList (map metadata_evidence_payload (sort_key mev_id (mp_evidence p))))]"

record MetadataSnapshot =
  snapshot_id :: string
  snap_source :: MetadataSourceReference
  snap_objects :: "MetadataObject list"
  snap_relationships :: "MetadataRelationship list"
  freshness :: MetadataFreshness
  snap_provenance :: MetadataProvenance

definition snapshot_payload :: "MetadataSnapshot \<Rightarrow> jv" where
  "snapshot_payload s = vdict
     [(''schema_version'', VInt METADATA_SCHEMA_VERSION), (''snapshot_id'', VStr (snapshot_id s)),
      (''source'', metadata_source_payload (snap_source s)),
      (''objects'', VList (map metadata_object_payload (sort_key mdo_id (snap_objects s)))),
      (''relationships'', VList (map metadata_relationship_payload (sort_key mdr_id (snap_relationships s)))),
      (''freshness'', vdict (AList.delete ''discovered_at'' (freshness_payload (freshness s)))),
      (''provenance'', vdict (AList.delete ''discovered_at'' (metadata_provenance_payload (snap_provenance s))))]"

text \<open>The fingerprint is computed by the last validator, which rejects a payload that is not JSON-safe.\<close>

definition snapshot_ok :: "MetadataSnapshot \<Rightarrow> bool" where
  "snapshot_ok s \<longleftrightarrow>
     identifier_ok (snapshot_id s) \<and> metadata_source_ok (snap_source s) \<and> length (snap_objects s) \<le> 1024 \<and>
     length (snap_relationships s) \<le> 4096 \<and> list_all metadata_object_ok (snap_objects s) \<and>
     list_all metadata_relationship_ok (snap_relationships s) \<and> freshness_ok (freshness s) \<and>
     metadata_provenance_ok (snap_provenance s) \<and> distinct (map mdo_id (snap_objects s)) \<and>
     distinct (map mdr_id (snap_relationships s)) \<and> json_safe (snapshot_payload s)"

definition snapshot_fingerprint :: "MetadataSnapshot \<Rightarrow> string" where
  "snapshot_fingerprint s = fingerprint_of (snapshot_payload s)"

definition snapshot_safe_payload :: "MetadataSnapshot \<Rightarrow> jv" where
  "snapshot_safe_payload s =
     (case snapshot_payload s of VDict ms \<Rightarrow> VDict (ms @ [(KStr ''fingerprint'', VStr (snapshot_fingerprint s))]) | v \<Rightarrow> v)"

definition snapshot_object :: "MetadataSnapshot \<Rightarrow> string \<Rightarrow> MetadataObject option" where
  "snapshot_object s i = List.find (\<lambda>ob. mdo_id ob = i) (snap_objects s)"

definition snapshot_object_ids :: "MetadataSnapshot \<Rightarrow> string fset" where
  "snapshot_object_ids s = fset_of_list (map mdo_id (snap_objects s))"

definition snapshot_field :: "MetadataSnapshot \<Rightarrow> string \<Rightarrow> MetadataField option" where
  "snapshot_field s i = List.find (\<lambda>f. mdf_id f = i) (concat (map mdo_fields (snap_objects s)))"

definition snapshot_field_ids :: "MetadataSnapshot \<Rightarrow> string fset" where
  "snapshot_field_ids s = fset_of_list (concat (map (\<lambda>ob. map mdf_id (mdo_fields ob)) (snap_objects s)))"

definition field_path :: "MetadataSnapshot \<Rightarrow> string \<Rightarrow> string option" where
  "field_path s i = map_option mdf_path (snapshot_field s i)"

section \<open>Comparison\<close>

record ObjectChange =
  oc_object_id :: string
  oc_field_ids :: "string fset"

record FieldTypeChange =
  tc_object_id :: string
  tc_field_id :: string
  tc_before :: string
  tc_after :: string

record SnapshotComparison =
  added_objects :: "string list"
  removed_objects :: "string list"
  changed_objects :: "ObjectChange list"
  added_fields :: "ObjectChange list"
  removed_fields :: "ObjectChange list"
  changed_field_types :: "FieldTypeChange list"
  added_constraints :: "string list"
  removed_constraints :: "string list"
  changed_constraints :: "string list"
  added_relationships :: "string list"
  removed_relationships :: "string list"
  changed_relationships :: "string list"

definition MAX_CHANGES :: nat where "MAX_CHANGES = 4096"

definition object_change_payload :: "ObjectChange \<Rightarrow> jv" where
  "object_change_payload c = vdict [(''object_id'', VStr (oc_object_id c)), (''field_ids'', sorted_texts (oc_field_ids c))]"

definition type_change_payload :: "FieldTypeChange \<Rightarrow> jv" where
  "type_change_payload c = vdict
     [(''object_id'', VStr (tc_object_id c)), (''field_id'', VStr (tc_field_id c)), (''before_type'', VStr (tc_before c)),
      (''after_type'', VStr (tc_after c))]"

definition equivalent_snapshots :: "SnapshotComparison \<Rightarrow> bool" where
  "equivalent_snapshots c \<longleftrightarrow>
     \<not> (added_objects c \<noteq> [] \<or> removed_objects c \<noteq> [] \<or> changed_objects c \<noteq> [] \<or> added_fields c \<noteq> [] \<or>
        removed_fields c \<noteq> [] \<or> changed_field_types c \<noteq> [] \<or> added_constraints c \<noteq> [] \<or>
        removed_constraints c \<noteq> [] \<or> changed_constraints c \<noteq> [] \<or> added_relationships c \<noteq> [] \<or>
        removed_relationships c \<noteq> [] \<or> changed_relationships c \<noteq> [])"

definition comparison_payload :: "SnapshotComparison \<Rightarrow> jv" where
  "comparison_payload c = vdict
     [(''added_objects'', VList (map VStr (added_objects c))), (''removed_objects'', VList (map VStr (removed_objects c))),
      (''changed_objects'', VList (map object_change_payload (changed_objects c))),
      (''added_fields'', VList (map object_change_payload (added_fields c))),
      (''removed_fields'', VList (map object_change_payload (removed_fields c))),
      (''changed_field_types'', VList (map type_change_payload (changed_field_types c))),
      (''added_constraints'', VList (map VStr (added_constraints c))),
      (''removed_constraints'', VList (map VStr (removed_constraints c))),
      (''changed_constraints'', VList (map VStr (changed_constraints c))),
      (''added_relationships'', VList (map VStr (added_relationships c))),
      (''removed_relationships'', VList (map VStr (removed_relationships c))),
      (''changed_relationships'', VList (map VStr (changed_relationships c)))]"

text \<open>\<open>sorted(a.keys() - b.keys())\<close> and \<open>sorted(a.keys() & b.keys())\<close>.\<close>

definition keys_without :: "string list \<Rightarrow> string list \<Rightarrow> string list" where
  "keys_without xs ys = sort (remdups (filter (\<lambda>k. k \<notin> set ys) xs))"

definition keys_common :: "string list \<Rightarrow> string list \<Rightarrow> string list" where
  "keys_common xs ys = sort (remdups (filter (\<lambda>k. k \<in> set ys) xs))"

definition constraint_signature :: "MetadataConstraint \<Rightarrow> string list" where
  "constraint_signature c = constraint_kind_value (mdc_kind c) # sorted_list_of_fset (mdc_fields c)"

definition relationship_signature :: "MetadataRelationship \<Rightarrow> string list" where
  "relationship_signature r =
     [relationship_kind_value (mdr_kind r), mdr_source_object r, mdr_target_object r] @
     sorted_list_of_fset (mdr_source_fields r) @ sorted_list_of_fset (mdr_target_fields r)"

text \<open>A dict comprehension: the last item of a key counts.\<close>

definition dict_of :: "('a \<Rightarrow> string) \<Rightarrow> 'a list \<Rightarrow> string \<Rightarrow> 'a option" where
  "dict_of key xs = map_of (rev (map (\<lambda>x. (key x, x)) xs))"

definition snapshot_constraints :: "MetadataSnapshot \<Rightarrow> MetadataConstraint list" where
  "snapshot_constraints s = concat (map mdo_constraints (snap_objects s))"

definition changed_keys :: "('a \<Rightarrow> string) \<Rightarrow> ('a \<Rightarrow> string list) \<Rightarrow> 'a list \<Rightarrow> 'a list \<Rightarrow> string list" where
  "changed_keys key signature xs ys =
     filter (\<lambda>k. map_option signature (dict_of key xs k) \<noteq> map_option signature (dict_of key ys k))
       (keys_common (map key xs) (map key ys))"

definition fields_added :: "MetadataObject \<Rightarrow> MetadataObject \<Rightarrow> string list" where
  "fields_added before after = keys_without (map mdf_id (mdo_fields after)) (map mdf_id (mdo_fields before))"

definition type_changes :: "MetadataObject \<Rightarrow> MetadataObject \<Rightarrow> FieldTypeChange list" where
  "type_changes before after =
     List.map_filter (\<lambda>i.
       case (dict_of mdf_id (mdo_fields before) i, dict_of mdf_id (mdo_fields after) i) of
         (Some f, Some g) \<Rightarrow>
           if mdf_type f \<noteq> mdf_type g
           then Some \<lparr>tc_object_id = mdo_id before, tc_field_id = i, tc_before = mdf_type f, tc_after = mdf_type g\<rparr> else None
       | _ \<Rightarrow> None)
     (keys_common (map mdf_id (mdo_fields before)) (map mdf_id (mdo_fields after)))"

definition object_change :: "string \<Rightarrow> string list \<Rightarrow> ObjectChange" where
  "object_change i fs = \<lparr>oc_object_id = i, oc_field_ids = fset_of_list fs\<rparr>"

text \<open>The pairs of an object before and after, in the order of their ids.\<close>

definition common_objects :: "MetadataSnapshot \<Rightarrow> MetadataSnapshot \<Rightarrow> (MetadataObject \<times> MetadataObject) list" where
  "common_objects before after =
     List.map_filter (\<lambda>i.
       case (dict_of mdo_id (snap_objects before) i, dict_of mdo_id (snap_objects after) i) of
         (Some ob, Some ob') \<Rightarrow> Some (ob, ob')
       | _ \<Rightarrow> None)
     (keys_common (map mdo_id (snap_objects before)) (map mdo_id (snap_objects after)))"

definition field_changes :: "(MetadataObject \<Rightarrow> MetadataObject \<Rightarrow> string list) \<Rightarrow> (MetadataObject \<times> MetadataObject) list \<Rightarrow> ObjectChange list" where
  "field_changes sel pairs =
     map (\<lambda>(ob, ob'). object_change (mdo_id ob) (sel ob ob')) (filter (\<lambda>(ob, ob'). sel ob ob' \<noteq> []) pairs)"

definition object_changes :: "(MetadataObject \<times> MetadataObject) list \<Rightarrow> ObjectChange list" where
  "object_changes pairs =
     map (\<lambda>(ob, ob'). object_change (mdo_id ob) (fields_added ob ob' @ fields_added ob' ob))
       (filter (\<lambda>(ob, ob'). fields_added ob ob' \<noteq> [] \<or> fields_added ob' ob \<noteq> [] \<or> type_changes ob ob' \<noteq> []) pairs)"

definition comparison :: "MetadataSnapshot \<Rightarrow> MetadataSnapshot \<Rightarrow> SnapshotComparison" where
  "comparison before after =
     (let obs = map mdo_id (snap_objects before); obs' = map mdo_id (snap_objects after);
          cs = snapshot_constraints before; cs' = snapshot_constraints after;
          rs = snap_relationships before; rs' = snap_relationships after;
          pairs = common_objects before after
      in \<lparr>added_objects = keys_without obs' obs, removed_objects = keys_without obs obs',
          changed_objects = take MAX_CHANGES (object_changes pairs),
          added_fields = take MAX_CHANGES (field_changes fields_added pairs),
          removed_fields = take MAX_CHANGES (field_changes (\<lambda>ob ob'. fields_added ob' ob) pairs),
          changed_field_types = take MAX_CHANGES (concat (map (\<lambda>(ob, ob'). type_changes ob ob') pairs)),
          added_constraints = take MAX_CHANGES (keys_without (map mdc_id cs') (map mdc_id cs)),
          removed_constraints = take MAX_CHANGES (keys_without (map mdc_id cs) (map mdc_id cs')),
          changed_constraints = take MAX_CHANGES (changed_keys mdc_id constraint_signature cs cs'),
          added_relationships = take MAX_CHANGES (keys_without (map mdr_id rs') (map mdr_id rs)),
          removed_relationships = take MAX_CHANGES (keys_without (map mdr_id rs) (map mdr_id rs')),
          changed_relationships = take MAX_CHANGES (changed_keys mdr_id relationship_signature rs rs')\<rparr>)"

text \<open>
  The bound of 16384 field ids in one change is what can reject a comparison: an object may lose and gain more
  fields together.
\<close>

definition compare_snapshots :: "MetadataSnapshot \<Rightarrow> MetadataSnapshot \<Rightarrow> SnapshotComparison res" where
  "compare_snapshots before after =
     (if list_all (\<lambda>c. fcard (oc_field_ids c) \<le> 16384) (object_changes (common_objects before after)) \<and>
         length (added_objects (comparison before after)) \<le> MAX_CHANGES \<and>
         length (removed_objects (comparison before after)) \<le> MAX_CHANGES
      then Inr (comparison before after) else Inl ValidationError)"

section \<open>Identity\<close>

lemma sort_key_of_map: "map v (sort_key (\<lambda>x. kv (v x)) xs) = sort_key kv (map v xs)"
proof (induction xs)
  case (Cons a xs)
  have insort: "map v (insort_key (\<lambda>x. kv (v x)) a ys) = insort_key kv (v a) (map v ys)" for ys
    by (induction ys) simp_all
  show ?case by (simp add: insort Cons.IH)
qed simp

lemma sort_key_by_set:
  assumes "distinct (map key xs)" "distinct (map key ys)"
  shows "sort_key key xs = sort_key key ys \<longleftrightarrow> set xs = set ys"
proof
  assume eq: "set xs = set ys"
  have "mset xs = mset ys" using assms eq by (simp add: distinct_map set_eq_iff_mset_eq_distinct)
  moreover have "inj_on key (set xs)" using assms(1) by (simp add: distinct_map)
  ultimately show "sort_key key xs = sort_key key ys" by (intro sort_key_inj_key_eq) auto
qed (metis set_sort)

lemma map_eq_same:
  assumes "\<And>x y. x \<in> set xs \<Longrightarrow> y \<in> set ys \<Longrightarrow> p x = p y \<longleftrightarrow> v x = v y"
  shows "map p xs = map p ys \<longleftrightarrow> map v xs = map v ys"
  using assms
proof (induction xs arbitrary: ys)
  case (Cons a xs)
  then show ?case by (cases ys) auto
qed simp

text \<open>Sorted payloads agree exactly when the parts agree, for payloads that identify parts up to a view of them.\<close>

lemma sorted_payloads_eq:
  assumes "distinct (map (\<lambda>x. kv (v x)) xs)" "distinct (map (\<lambda>x. kv (v x)) ys)"
    and same: "\<And>x y. x \<in> set xs \<Longrightarrow> y \<in> set ys \<Longrightarrow> p x = p y \<longleftrightarrow> v x = v y"
  shows "map p (sort_key (\<lambda>x. kv (v x)) xs) = map p (sort_key (\<lambda>x. kv (v x)) ys) \<longleftrightarrow> v ` set xs = v ` set ys"
proof -
  let ?s = "sort_key (\<lambda>x. kv (v x))"
  have "map p (?s xs) = map p (?s ys) \<longleftrightarrow> map v (?s xs) = map v (?s ys)"
    using same by (intro map_eq_same) auto
  also have "\<dots> \<longleftrightarrow> set (map v xs) = set (map v ys)"
    unfolding sort_key_of_map using assms(1,2) by (intro sort_key_by_set) (simp_all add: comp_def)
  finally show ?thesis by simp
qed

lemma trust_level_value_inj [simp]: "trust_level_value x = trust_level_value y \<longleftrightarrow> x = y"
  by (cases x; cases y) simp_all

lemma object_kind_value_inj [simp]: "object_kind_value x = object_kind_value y \<longleftrightarrow> x = y"
  by (cases x; cases y) simp_all

lemma constraint_kind_value_inj [simp]: "constraint_kind_value x = constraint_kind_value y \<longleftrightarrow> x = y"
  by (cases x; cases y) simp_all

lemma relationship_kind_value_inj [simp]: "relationship_kind_value x = relationship_kind_value y \<longleftrightarrow> x = y"
  by (cases x; cases y) simp_all

lemma statistic_kind_value_inj [simp]: "statistic_kind_value x = statistic_kind_value y \<longleftrightarrow> x = y"
  by (cases x; cases y) simp_all

lemma vopt_injective:
  "(\<And>x y. f x = f y \<longleftrightarrow> x = y) \<Longrightarrow> (\<And>x. f x \<noteq> VNull) \<Longrightarrow> vopt f a = vopt f b \<longleftrightarrow> a = b"
  by (cases a; cases b) (auto, metis)

lemma sorted_texts_inj [simp]: "sorted_texts S = sorted_texts T \<longleftrightarrow> S = T"
proof
  assume "sorted_texts S = sorted_texts T"
  then have "sorted_list_of_fset S = sorted_list_of_fset T"
    by (simp add: sorted_texts_def inj_map_eq_map inj_def)
  then show "S = T" by (metis sorted_list_of_fset_simps(2))
qed simp

lemma metadata_evidence_payload_inj [simp]: "metadata_evidence_payload x = metadata_evidence_payload y \<longleftrightarrow> x = y"
  by (auto simp: metadata_evidence_payload_def)

lemma confidence_payload_inj [simp]: "confidence_payload x = confidence_payload y \<longleftrightarrow> x = y"
  by (auto simp: confidence_payload_def)

lemma metadata_field_payload_inj [simp]: "metadata_field_payload x = metadata_field_payload y \<longleftrightarrow> x = y"
proof -
  have "vopt confidence_payload a = vopt confidence_payload b \<longleftrightarrow> a = b" for a b
    by (rule vopt_injective) (simp, simp add: confidence_payload_def)
  then show ?thesis by (auto simp: metadata_field_payload_def)
qed

lemma metadata_constraint_payload_inj [simp]: "metadata_constraint_payload x = metadata_constraint_payload y \<longleftrightarrow> x = y"
  by (auto simp: metadata_constraint_payload_def)

lemma metadata_statistic_payload_inj [simp]: "metadata_statistic_payload x = metadata_statistic_payload y \<longleftrightarrow> x = y"
proof -
  have "vopt VStr a = vopt VStr b \<longleftrightarrow> a = b" "vopt VFloat a = vopt VFloat b \<longleftrightarrow> a = b" for a b
    by (rule vopt_injective; simp)+
  then show ?thesis by (auto simp: metadata_statistic_payload_def)
qed

lemma metadata_relationship_payload_inj [simp]:
  "metadata_relationship_payload x = metadata_relationship_payload y \<longleftrightarrow> x = y"
  by (auto simp: metadata_relationship_payload_def)

lemma metadata_source_payload_inj [simp]: "metadata_source_payload x = metadata_source_payload y \<longleftrightarrow> x = y"
  by (auto simp: metadata_source_payload_def)

text \<open>What a snapshot says, without the order of its parts and the instants of its discovery.\<close>

definition object_view where
  "object_view ob =
     (mdo_id ob, mdo_kind ob, mdo_name ob, set (mdo_fields ob), set (mdo_constraints ob), set (mdo_statistics ob),
      mdo_trust ob, observed_incomplete ob)"

definition snapshot_view where
  "snapshot_view s =
     (snapshot_id s, snap_source s, object_view ` set (snap_objects s), set (snap_relationships s),
      (bounded_objects (freshness s), bounded_fields (freshness s), bounded_samples (freshness s), sample_limit (freshness s)),
      (discovered_by (snap_provenance s), mp_method (snap_provenance s), set (mp_evidence (snap_provenance s))))"

lemma sorted_parts_eq:
  assumes "distinct (map key xs)" "distinct (map key ys)" "\<And>x y. p x = p y \<longleftrightarrow> x = y"
  shows "map p (sort_key key xs) = map p (sort_key key ys) \<longleftrightarrow> set xs = set ys"
  using sorted_payloads_eq [of key "\<lambda>x. x" xs ys p] assms by simp

lemma object_payload_view:
  assumes "metadata_object_ok x" "metadata_object_ok y"
  shows "metadata_object_payload x = metadata_object_payload y \<longleftrightarrow> object_view x = object_view y"
proof -
  note d = assms [unfolded metadata_object_ok_def]
  have "map metadata_field_payload (sort_key mdf_id (mdo_fields x)) = map metadata_field_payload (sort_key mdf_id (mdo_fields y))
      \<longleftrightarrow> set (mdo_fields x) = set (mdo_fields y)"
    and "map metadata_constraint_payload (sort_key mdc_id (mdo_constraints x)) =
      map metadata_constraint_payload (sort_key mdc_id (mdo_constraints y)) \<longleftrightarrow> set (mdo_constraints x) = set (mdo_constraints y)"
    and "map metadata_statistic_payload (sort_key mds_id (mdo_statistics x)) =
      map metadata_statistic_payload (sort_key mds_id (mdo_statistics y)) \<longleftrightarrow> set (mdo_statistics x) = set (mdo_statistics y)"
    by (rule sorted_parts_eq; use d in simp)+
  then show ?thesis by (auto simp: metadata_object_payload_def object_view_def)
qed

text \<open>
  The canonical payload of a snapshot, and with it the fingerprint, says what the snapshot says and nothing
  else: two valid snapshots have the same payload exactly when they have the same id, source, objects,
  relationships, bounds and provenance, in whatever order a backend lists objects, fields, constraints, statistics,
  relationships and evidence, and whenever they were discovered.
\<close>

theorem snapshot_payload_exact:
  assumes "snapshot_ok s" "snapshot_ok t"
  shows "snapshot_payload s = snapshot_payload t \<longleftrightarrow> snapshot_view s = snapshot_view t"
proof -
  note d = assms [unfolded snapshot_ok_def metadata_provenance_ok_def]
  have key: "mdo_id = (\<lambda>ob. fst (object_view ob))" by (simp add: object_view_def fun_eq_iff)
  have "map metadata_object_payload (sort_key mdo_id (snap_objects s)) =
      map metadata_object_payload (sort_key mdo_id (snap_objects t))
      \<longleftrightarrow> object_view ` set (snap_objects s) = object_view ` set (snap_objects t)"
    unfolding key
    by (rule sorted_payloads_eq [where kv = fst]) (use d object_payload_view in \<open>simp_all add: key [symmetric] list_all_iff\<close>)
  moreover have "map metadata_relationship_payload (sort_key mdr_id (snap_relationships s)) =
      map metadata_relationship_payload (sort_key mdr_id (snap_relationships t))
      \<longleftrightarrow> set (snap_relationships s) = set (snap_relationships t)"
    by (rule sorted_parts_eq) (use d in simp_all)
  moreover have "map metadata_evidence_payload (sort_key mev_id (mp_evidence (snap_provenance s))) =
      map metadata_evidence_payload (sort_key mev_id (mp_evidence (snap_provenance t)))
      \<longleftrightarrow> set (mp_evidence (snap_provenance s)) = set (mp_evidence (snap_provenance t))"
    by (rule sorted_parts_eq) (use d in simp_all)
  moreover have "vopt VInt a = vopt VInt b \<longleftrightarrow> a = b" for a b by (rule vopt_injective) simp_all
  ultimately show ?thesis
    by (simp add: snapshot_payload_def snapshot_view_def freshness_payload_def metadata_provenance_payload_def
        conj_ac)
qed

section \<open>The lists of a comparison\<close>

lemma set_keys_without [simp]: "set (keys_without xs ys) = set xs - set ys"
  by (auto simp: keys_without_def)

lemma set_keys_common [simp]: "set (keys_common xs ys) = set xs \<inter> set ys"
  by (auto simp: keys_common_def)

lemma length_keys_without: "length (keys_without xs ys) \<le> length xs"
  unfolding keys_without_def by (simp add: length_sort) (meson le_trans length_filter_le length_remdups_leq)

lemma length_keys_common: "length (keys_common xs ys) \<le> length xs"
  unfolding keys_common_def by (simp add: length_sort) (meson le_trans length_filter_le length_remdups_leq)

lemma dict_of_Some: "dict_of key xs k = Some x \<Longrightarrow> x \<in> set xs \<and> key x = k"
  by (auto simp: dict_of_def dest!: map_of_SomeD)

lemma dict_of_None [simp]: "dict_of key xs k = None \<longleftrightarrow> k \<notin> key ` set xs"
  by (auto simp: dict_of_def map_of_eq_None_iff comp_def image_iff)

lemma dict_of_iff:
  assumes "distinct (map key xs)"
  shows "dict_of key xs k = Some x \<longleftrightarrow> x \<in> set xs \<and> key x = k"
proof
  assume x: "x \<in> set xs \<and> key x = k"
  then obtain y where y: "dict_of key xs k = Some y" using dict_of_None [of key xs k] by fastforce
  then have "y \<in> set xs" "key y = k" using dict_of_Some by metis+
  with assms x have "y = x" by (auto simp: distinct_map inj_on_def)
  with y show "dict_of key xs k = Some x" by simp
qed (rule dict_of_Some)

lemma common_key:
  assumes "distinct (map key xs)" "distinct (map key ys)"
  shows "k \<in> set (keys_common (map key xs) (map key ys)) \<longleftrightarrow>
    (\<exists>x y. x \<in> set xs \<and> y \<in> set ys \<and> key x = k \<and> key y = k \<and> dict_of key xs k = Some x \<and> dict_of key ys k = Some y)"
  unfolding dict_of_iff [OF assms(1)] dict_of_iff [OF assms(2)] set_keys_common set_map
  by (metis IntE IntI image_iff)

lemma map_filter_Some_iff: "c \<in> set (List.map_filter g ks) \<longleftrightarrow> (\<exists>k \<in> set ks. g k = Some c)"
  by (auto simp: set_map_filter)

lemma common_pairs:
  assumes "distinct (map key xs)" "distinct (map key ys)"
    and "\<And>k x y. dict_of key xs k = Some x \<Longrightarrow> dict_of key ys k = Some y \<Longrightarrow> g k = h x y"
  shows "c \<in> set (List.map_filter g (keys_common (map key xs) (map key ys))) \<longleftrightarrow>
    (\<exists>x y. x \<in> set xs \<and> y \<in> set ys \<and> key y = key x \<and> h x y = Some c)" (is "?l \<longleftrightarrow> ?r")
proof
  assume ?l
  then obtain k where k: "k \<in> set (keys_common (map key xs) (map key ys))" "g k = Some c"
    by (auto simp: map_filter_Some_iff)
  then obtain x y where xy: "x \<in> set xs" "y \<in> set ys" "key x = k" "key y = k"
      "dict_of key xs k = Some x" "dict_of key ys k = Some y"
    by (auto simp only: common_key [OF assms(1,2)])
  with assms(3) k(2) have "h x y = Some c" by metis
  with xy show ?r by (intro exI conjI) auto
next
  assume ?r
  then obtain x y where xy: "x \<in> set xs" "y \<in> set ys" "key y = key x" "h x y = Some c" by blast
  then have "dict_of key xs (key x) = Some x" "dict_of key ys (key x) = Some y"
    by (simp_all add: dict_of_iff [OF assms(1)] dict_of_iff [OF assms(2)])
  then have "g (key x) = Some c" using assms(3) xy(4) by metis
  moreover have "key x \<in> set (keys_common (map key xs) (map key ys))" 
    using xy unfolding set_keys_common set_map by (metis IntI imageI)
  ultimately show ?l unfolding map_filter_Some_iff by (rule bexI)
qed

lemma set_common_objects:
  assumes "snapshot_ok before" "snapshot_ok after"
  shows "(ob, ob') \<in> set (common_objects before after) \<longleftrightarrow>
    ob \<in> set (snap_objects before) \<and> ob' \<in> set (snap_objects after) \<and> mdo_id ob' = mdo_id ob"
proof -
  have d: "distinct (map mdo_id (snap_objects before))" "distinct (map mdo_id (snap_objects after))"
    using assms by (simp_all add: snapshot_ok_def)
  show ?thesis unfolding common_objects_def
    by (subst common_pairs [OF d, where h = "\<lambda>x y. Some (x, y)"]) auto
qed

lemma set_type_changes:
  assumes "metadata_object_ok ob" "metadata_object_ok ob'"
  shows "c \<in> set (type_changes ob ob') \<longleftrightarrow>
    (\<exists>f g. f \<in> set (mdo_fields ob) \<and> g \<in> set (mdo_fields ob') \<and> mdf_id g = mdf_id f \<and> mdf_type f \<noteq> mdf_type g \<and>
       c = \<lparr>tc_object_id = mdo_id ob, tc_field_id = mdf_id f, tc_before = mdf_type f, tc_after = mdf_type g\<rparr>)"
proof -
  have d: "distinct (map mdf_id (mdo_fields ob))" "distinct (map mdf_id (mdo_fields ob'))"
    using assms by (simp_all add: metadata_object_ok_def)
  show ?thesis unfolding type_changes_def
    by (subst common_pairs [OF d, where h = "\<lambda>f g. if mdf_type f \<noteq> mdf_type g
          then Some \<lparr>tc_object_id = mdo_id ob, tc_field_id = mdf_id f, tc_before = mdf_type f, tc_after = mdf_type g\<rparr> else None"])
       (auto dest: dict_of_Some split: if_splits)
qed

lemma set_changed_keys:
  assumes "distinct (map key xs)" "distinct (map key ys)"
  shows "k \<in> set (changed_keys key signature xs ys) \<longleftrightarrow>
    (\<exists>x y. x \<in> set xs \<and> y \<in> set ys \<and> key x = k \<and> key y = k \<and> signature x \<noteq> signature y)" (is "?l \<longleftrightarrow> ?r")
proof
  assume ?l
  then have "k \<in> set (keys_common (map key xs) (map key ys))"
    and ne: "map_option signature (dict_of key xs k) \<noteq> map_option signature (dict_of key ys k)"
    by (simp_all add: changed_keys_def)
  then obtain x y where "x \<in> set xs" "y \<in> set ys" "key x = k" "key y = k"
      "dict_of key xs k = Some x" "dict_of key ys k = Some y"
    by (auto simp only: common_key [OF assms])
  with ne show ?r by auto
next
  assume ?r
  then obtain x y where "x \<in> set xs" "y \<in> set ys" "key x = k" "key y = k" "signature x \<noteq> signature y" by blast
  then show ?l
    using dict_of_iff [OF assms(1), of k x] dict_of_iff [OF assms(2), of k y]
    unfolding changed_keys_def set_filter set_keys_common set_map by (auto, metis imageI)
qed

section \<open>A discovered table\<close>

definition sample_digest :: string where "sample_digest = fingerprint_of VNull"

definition sample_field :: "string \<Rightarrow> string \<Rightarrow> MetadataField" where
  "sample_field i ty =
     \<lparr>mdf_id = i, mdf_object_id = ''orders'', mdf_path = i, mdf_type = ty, mdf_nullable = True, mdf_trust = OBSERVED,
      mdf_confidence = None, mdf_description = []\<rparr>"

definition sample_object :: "MetadataField list \<Rightarrow> MetadataObject" where
  "sample_object fs =
     \<lparr>mdo_id = ''orders'', mdo_kind = TABLE, mdo_name = ''orders'', mdo_fields = fs, mdo_constraints = [],
      mdo_statistics = [], mdo_trust = OBSERVED, observed_incomplete = False\<rparr>"

definition sample_snapshot :: "timestamp \<Rightarrow> MetadataObject list \<Rightarrow> MetadataRelationship list \<Rightarrow> MetadataSnapshot" where
  "sample_snapshot t obs rels =
     \<lparr>snapshot_id = ''daily'',
      snap_source = \<lparr>msrc_id = ''sales'', catalog_fingerprint = sample_digest, msrc_description = []\<rparr>,
      snap_objects = obs, snap_relationships = rels,
      freshness = \<lparr>discovered_at = t, bounded_objects = False, bounded_fields = False, bounded_samples = False,
                   sample_limit = None\<rparr>,
      snap_provenance = \<lparr>discovered_by = sample_digest, mp_discovered_at = t, mp_method = ''catalog'', mp_evidence = []\<rparr>\<rparr>"

lemma discovered_names:
  "identifier_ok ''daily''" "identifier_ok ''sales''" "identifier_ok ''orders''" "identifier_ok ''amount''" "identifier_ok ''id''"
  "identifier_ok ''orders.amount''"
  by (simp_all add: pattern_simps)

lemmas sample_snapshot_defs =
  sample_snapshot_def sample_object_def sample_field_def snapshot_ok_def metadata_object_ok_def metadata_field_ok_def
  metadata_source_ok_def freshness_ok_def metadata_provenance_ok_def description_ok_def snapshot_payload_def
  metadata_object_payload_def metadata_field_payload_def metadata_source_payload_def freshness_payload_def
  metadata_provenance_payload_def sample_digest_def

lemma sample_snapshot_ok:
  "snapshot_ok (sample_snapshot t [sample_object [sample_field ''id'' ''integer'', sample_field ''amount'' ''numeric'']] [])"
  "snapshot_ok (sample_snapshot t [sample_object [sample_field ''amount'' ''numeric'', sample_field ''id'' ''integer'']] [])"
  "snapshot_ok (sample_snapshot t [sample_object [sample_field ''id'' ''integer'', sample_field ''amount'' ''text'']] [])"
  "snapshot_ok (sample_snapshot t [] [])"
  by (simp_all add: sample_snapshot_defs discovered_names)

theorem snapshot_payload_exact_witness:
  "snapshot_fingerprint (sample_snapshot 0 [sample_object [sample_field ''id'' ''integer'', sample_field ''amount'' ''numeric'']] []) =
   snapshot_fingerprint (sample_snapshot 7 [sample_object [sample_field ''amount'' ''numeric'', sample_field ''id'' ''integer'']] []) \<and>
   snapshot_payload (sample_snapshot 0 [sample_object [sample_field ''id'' ''integer'', sample_field ''amount'' ''numeric'']] []) \<noteq>
   snapshot_payload (sample_snapshot 0 [] [])"
proof
  have "snapshot_view (sample_snapshot 0 [sample_object [sample_field ''id'' ''integer'', sample_field ''amount'' ''numeric'']] []) =
      snapshot_view (sample_snapshot 7 [sample_object [sample_field ''amount'' ''numeric'', sample_field ''id'' ''integer'']] [])"
    by (simp add: snapshot_view_def object_view_def sample_snapshot_def sample_object_def insert_commute)
  then show "snapshot_fingerprint (sample_snapshot 0 [sample_object [sample_field ''id'' ''integer'', sample_field ''amount'' ''numeric'']] []) =
      snapshot_fingerprint (sample_snapshot 7 [sample_object [sample_field ''amount'' ''numeric'', sample_field ''id'' ''integer'']] [])"
    unfolding snapshot_fingerprint_def
    by (intro arg_cong [where f = fingerprint_of] iffD2 [OF snapshot_payload_exact [OF sample_snapshot_ok(1,2)]])
  show "snapshot_payload (sample_snapshot 0 [sample_object [sample_field ''id'' ''integer'', sample_field ''amount'' ''numeric'']] []) \<noteq>
      snapshot_payload (sample_snapshot 0 [] [])"
    using snapshot_payload_exact [OF sample_snapshot_ok(1) [of 0] sample_snapshot_ok(4) [of 0]]
    by (simp add: snapshot_view_def sample_snapshot_def)
qed

end
