(* ===== verification/Metadata_Drift.thy ===== *)
theory Metadata_Drift
  imports Metadata_Snapshot
begin

text \<open>
  Drift between snapshots and the activation policy: \<^verbatim>\<open>src/nl2data_core/metadata/drift.py\<close> and
  \<^verbatim>\<open>src/nl2data_core/metadata/policy.py\<close>.

  A decision is classified from a comparison and the members that a bundle refers to; its fingerprint is a function
  of its other members.  The clock is the argument \<open>now\<close>, a bound in seconds is the \<open>repr\<close> of a float, and the
  age of a snapshot is compared with the number that text denotes.  A member id that no pattern admits makes the
  classification raise.

  The theory shows that a decision blocks exactly on the listed breaking changes, that the activation check admits a
  snapshot exactly under its conditions, and three changes the classification does not see.
\<close>

section \<open>Decisions\<close>

datatype DriftSeverity = INFORMATIONAL | WARNING | BLOCKING

fun severity_value :: "DriftSeverity \<Rightarrow> string" where
  "severity_value INFORMATIONAL = ''informational''"
| "severity_value WARNING = ''warning''"
| "severity_value BLOCKING = ''blocking''"

record DriftReason =
  dr_code :: string
  dr_member :: "string option"

definition drift_reason_ok :: "DriftReason \<Rightarrow> bool" where
  "drift_reason_ok r \<longleftrightarrow> 1 \<le> length (dr_code r) \<and> length (dr_code r) \<le> 64 \<and> opt_all identifier_ok (dr_member r)"

definition drift_reason_payload :: "DriftReason \<Rightarrow> jv" where
  "drift_reason_payload r = vdict [(''code'', VStr (dr_code r)), (''member_id'', vopt VStr (dr_member r))]"

record DriftChangeReference =
  dc_kind :: string
  dc_object :: "string option"
  dc_field :: "string option"
  dc_member :: "string option"
  dc_before :: "string option"
  dc_after :: "string option"

definition change_reference_ok :: "DriftChangeReference \<Rightarrow> bool" where
  "change_reference_ok c \<longleftrightarrow>
     1 \<le> length (dc_kind c) \<and> length (dc_kind c) \<le> 64 \<and> opt_all identifier_ok (dc_object c) \<and>
     opt_all identifier_ok (dc_field c) \<and> opt_all identifier_ok (dc_member c) \<and>
     opt_all (\<lambda>s. length s \<le> 64) (dc_before c) \<and> opt_all (\<lambda>s. length s \<le> 64) (dc_after c)"

definition change_reference_payload :: "DriftChangeReference \<Rightarrow> jv" where
  "change_reference_payload c = vdict
     [(''kind'', VStr (dc_kind c)), (''object_id'', vopt VStr (dc_object c)), (''field_id'', vopt VStr (dc_field c)),
      (''member_id'', vopt VStr (dc_member c)), (''before_type'', vopt VStr (dc_before c)),
      (''after_type'', vopt VStr (dc_after c))]"

record DriftDecision =
  severity :: DriftSeverity
  blocking_reasons :: "DriftReason list"
  informational_changes :: "DriftChangeReference list"
  warning_changes :: "DriftChangeReference list"
  comparison_fingerprint :: string

definition MAX_REFERENCES :: nat where "MAX_REFERENCES = 4096"
definition MAX_REASONS :: nat where "MAX_REASONS = 64"

definition drift_decision_ok :: "DriftDecision \<Rightarrow> bool" where
  "drift_decision_ok d \<longleftrightarrow>
     length (blocking_reasons d) \<le> MAX_REASONS \<and> length (informational_changes d) \<le> MAX_REFERENCES \<and>
     length (warning_changes d) \<le> MAX_REFERENCES \<and> list_all drift_reason_ok (blocking_reasons d) \<and>
     list_all change_reference_ok (informational_changes d) \<and> list_all change_reference_ok (warning_changes d) \<and>
     fingerprint_ok (comparison_fingerprint d) \<and> (severity d = BLOCKING \<longrightarrow> blocking_reasons d \<noteq> [])"

text \<open>\<open>member_id or ""\<close>.\<close>

definition or_empty :: "string option \<Rightarrow> string" where
  "or_empty x = (case x of None \<Rightarrow> [] | Some s \<Rightarrow> s)"

definition sorted_changes :: "DriftChangeReference list \<Rightarrow> jv" where
  "sorted_changes cs =
     VList (map change_reference_payload (sort_key (\<lambda>c. (dc_kind c, or_empty (dc_member c), or_empty (dc_object c))) cs))"

definition decision_payload :: "DriftDecision \<Rightarrow> jv" where
  "decision_payload d = vdict
     [(''severity'', VStr (severity_value (severity d))),
      (''blocking_reasons'', VList (map drift_reason_payload
         (sort_key (\<lambda>r. (dr_code r, or_empty (dr_member r))) (blocking_reasons d)))),
      (''informational_changes'', sorted_changes (informational_changes d)),
      (''warning_changes'', sorted_changes (warning_changes d)),
      (''comparison_fingerprint'', VStr (comparison_fingerprint d))]"

definition decision_fingerprint :: "DriftDecision \<Rightarrow> string" where
  "decision_fingerprint d = fingerprint_of (decision_payload d)"

definition blocking :: "DriftDecision \<Rightarrow> bool" where
  "blocking d \<longleftrightarrow> severity d = BLOCKING"

record DriftOverride =
  override_id :: string
  ov_tenant :: string
  ov_source_id :: string
  ov_decision_fingerprint :: string
  ov_reason :: string
  approved_by :: string
  ov_expires_at :: "timestamp option"

definition override_ok :: "DriftOverride \<Rightarrow> bool" where
  "override_ok ov \<longleftrightarrow>
     identifier_ok (override_id ov) \<and> fingerprint_ok (ov_tenant ov) \<and> identifier_ok (ov_source_id ov) \<and>
     fingerprint_ok (ov_decision_fingerprint ov) \<and> 1 \<le> length (ov_reason ov) \<and> length (ov_reason ov) \<le> 1024 \<and>
     safe_description (ov_reason ov) \<and> fingerprint_ok (approved_by ov)"

definition override_payload :: "DriftOverride \<Rightarrow> jv" where
  "override_payload ov = vdict
     [(''override_id'', VStr (override_id ov)), (''tenant_scope_fingerprint'', VStr (ov_tenant ov)),
      (''source_id'', VStr (ov_source_id ov)), (''decision_fingerprint'', VStr (ov_decision_fingerprint ov)),
      (''reason'', VStr (ov_reason ov)), (''approved_by_fingerprint'', VStr (approved_by ov)),
      (''expires_at'', vopt (\<lambda>t. VStr (isoformat t)) (ov_expires_at ov))]"

definition override_fingerprint :: "DriftOverride \<Rightarrow> string" where
  "override_fingerprint ov = fingerprint_of (override_payload ov)"

definition permits :: "DriftOverride \<Rightarrow> DriftDecision \<Rightarrow> timestamp \<Rightarrow> bool" where
  "permits ov d now \<longleftrightarrow>
     decision_fingerprint d = ov_decision_fingerprint ov \<and>
     (case ov_expires_at ov of None \<Rightarrow> True | Some t \<Rightarrow> \<not> now > t)"

section \<open>Classification\<close>

text \<open>\<open>total_seconds() > max_age_seconds\<close>.\<close>

definition older_than :: "timestamp \<Rightarrow> timestamp \<Rightarrow> string \<Rightarrow> bool" where
  "older_than now t seconds \<longleftrightarrow> of_int (now - t) / 1000000 > float_value seconds"

definition expired_snapshot :: "MetadataSnapshot \<Rightarrow> string \<Rightarrow> timestamp \<Rightarrow> bool" where
  "expired_snapshot s seconds now = older_than now (discovered_at (freshness s)) seconds"

abbreviation because :: "string \<Rightarrow> string \<Rightarrow> DriftReason" where
  "because code member \<equiv> \<lparr>dr_code = code, dr_member = Some member\<rparr>"

definition member_change :: "string \<Rightarrow> string \<Rightarrow> DriftChangeReference" where
  "member_change k i =
     \<lparr>dc_kind = k, dc_object = None, dc_field = None, dc_member = Some i, dc_before = None, dc_after = None\<rparr>"

definition dotted :: "string \<Rightarrow> string \<Rightarrow> string" where
  "dotted i j = i @ ''.'' @ j"

definition source_reasons :: "MetadataSnapshot \<Rightarrow> MetadataSnapshot \<Rightarrow> string option \<Rightarrow> timestamp \<Rightarrow> DriftReason list" where
  "source_reasons before after max_age now =
     (if msrc_id (snap_source before) \<noteq> msrc_id (snap_source after)
      then [because ''source_identity_changed'' (msrc_id (snap_source after))] else []) @
     (if catalog_fingerprint (snap_source before) \<noteq> catalog_fingerprint (snap_source after)
      then [because ''catalog_changed'' (msrc_id (snap_source after))] else []) @
     (if (case max_age of None \<Rightarrow> False | Some seconds \<Rightarrow> expired_snapshot after seconds now)
      then [\<lparr>dr_code = ''freshness_expired'', dr_member = None\<rparr>] else [])"

definition removed_field_reasons :: "SnapshotComparison \<Rightarrow> string fset \<Rightarrow> DriftReason list" where
  "removed_field_reasons c fields0 =
     concat (map (\<lambda>ch. case sorted_list_of_fset (oc_field_ids ch |\<inter>| fields0) of
                        [] \<Rightarrow> [] | i # _ \<Rightarrow> [because ''referenced_field_removed'' (dotted (oc_object_id ch) i)])
            (removed_fields c))"

definition type_reasons :: "SnapshotComparison \<Rightarrow> string fset \<Rightarrow> DriftReason list" where
  "type_reasons c fields0 =
     map (\<lambda>t. because ''referenced_type_changed'' (dotted (tc_object_id t) (tc_field_id t)))
       (filter (\<lambda>t. tc_field_id t |\<in>| fields0) (changed_field_types c))"

definition constraint_referenced :: "MetadataSnapshot \<Rightarrow> string fset \<Rightarrow> string \<Rightarrow> bool" where
  "constraint_referenced before fields0 i =
     (case dict_of mdc_id (snapshot_constraints before) i of
        None \<Rightarrow> False | Some c \<Rightarrow> mdc_fields c |\<inter>| fields0 \<noteq> {||})"

definition blocking_of ::
  "MetadataSnapshot \<Rightarrow> MetadataSnapshot \<Rightarrow> SnapshotComparison \<Rightarrow> string fset \<Rightarrow> string fset \<Rightarrow> string fset \<Rightarrow>
   string option \<Rightarrow> timestamp \<Rightarrow> DriftReason list" where
  "blocking_of before after c objects0 fields0 relationships0 max_age now =
     source_reasons before after max_age now @
     map (because ''referenced_object_removed'') (filter (\<lambda>i. i |\<in>| objects0) (removed_objects c)) @
     removed_field_reasons c fields0 @ type_reasons c fields0 @
     map (because ''constraint_removed'') (removed_constraints c) @
     map (because ''constraint_changed'') (filter (constraint_referenced before fields0) (changed_constraints c)) @
     map (because ''referenced_relationship_removed'') (filter (\<lambda>i. i |\<in>| relationships0) (removed_relationships c)) @
     map (because ''referenced_relationship_changed'') (filter (\<lambda>i. i |\<in>| relationships0) (changed_relationships c))"

definition field_references :: "string \<Rightarrow> ObjectChange list \<Rightarrow> DriftChangeReference list" where
  "field_references k chs =
     concat (map (\<lambda>ch. map (\<lambda>i. (member_change k i)\<lparr>dc_object := Some (oc_object_id ch), dc_field := Some i\<rparr>)
                          (sorted_list_of_fset (oc_field_ids ch))) chs)"

definition informational_of :: "SnapshotComparison \<Rightarrow> DriftChangeReference list" where
  "informational_of c =
     map (\<lambda>i. (member_change ''object_added'' i)\<lparr>dc_object := Some i\<rparr>) (added_objects c) @
     field_references ''field_removed'' (removed_fields c) @ field_references ''field_added'' (added_fields c) @
     map (member_change ''constraint_added'') (added_constraints c) @
     map (member_change ''relationship_added'') (added_relationships c)"

definition warning_of ::
  "MetadataSnapshot \<Rightarrow> SnapshotComparison \<Rightarrow> string fset \<Rightarrow> string fset \<Rightarrow> string fset \<Rightarrow> DriftChangeReference list" where
  "warning_of before c objects0 fields0 relationships0 =
     map (\<lambda>i. (member_change ''object_removed'' i)\<lparr>dc_object := Some i\<rparr>)
       (filter (\<lambda>i. i |\<notin>| objects0) (removed_objects c)) @
     map (\<lambda>t. (member_change ''field_type_changed'' (tc_field_id t))
               \<lparr>dc_object := Some (tc_object_id t), dc_field := Some (tc_field_id t),
                dc_before := Some (tc_before t), dc_after := Some (tc_after t)\<rparr>)
       (filter (\<lambda>t. tc_field_id t |\<notin>| fields0) (changed_field_types c)) @
     map (member_change ''constraint_changed'')
       (filter (\<lambda>i. \<not> constraint_referenced before fields0 i) (changed_constraints c)) @
     map (member_change ''relationship_removed'') (filter (\<lambda>i. i |\<notin>| relationships0) (removed_relationships c)) @
     map (member_change ''relationship_changed'') (filter (\<lambda>i. i |\<notin>| relationships0) (changed_relationships c))"

definition classify_comparison ::
  "MetadataSnapshot \<Rightarrow> MetadataSnapshot \<Rightarrow> SnapshotComparison \<Rightarrow> string fset \<Rightarrow> string fset \<Rightarrow> string fset \<Rightarrow>
   string option \<Rightarrow> timestamp \<Rightarrow> DriftDecision res" where
  "classify_comparison before after c objects0 fields0 relationships0 max_age now =
     (let bs = blocking_of before after c objects0 fields0 relationships0 max_age now;
          is = informational_of c;
          ws = warning_of before c objects0 fields0 relationships0;
          d = \<lparr>severity = (if bs \<noteq> [] then BLOCKING else if ws \<noteq> [] then WARNING else INFORMATIONAL),
               blocking_reasons = take MAX_REASONS bs, informational_changes = take MAX_REFERENCES is,
               warning_changes = take MAX_REFERENCES ws,
               comparison_fingerprint = fingerprint_of (comparison_payload c)\<rparr>
      in if list_all drift_reason_ok bs \<and> list_all change_reference_ok is \<and> list_all change_reference_ok ws \<and>
            drift_decision_ok d
         then Inr d else Inl ValidationError)"

definition classify_drift ::
  "MetadataSnapshot \<Rightarrow> MetadataSnapshot \<Rightarrow> string fset \<Rightarrow> string fset \<Rightarrow> string fset \<Rightarrow> string option \<Rightarrow> timestamp \<Rightarrow>
   DriftDecision res" where
  "classify_drift before after objects0 fields0 relationships0 max_age now =
     bind_res (compare_snapshots before after) (\<lambda>c.
       classify_comparison before after c objects0 fields0 relationships0 max_age now)"

section \<open>Activation policy\<close>

record SnapshotActivationPolicy =
  max_age_seconds :: "string option"
  allow_partial :: bool
  compatible_catalogs :: "string fset"
  sp_tenant :: "string option"
  sp_source_id :: "string option"

definition snapshot_policy_ok :: "SnapshotActivationPolicy \<Rightarrow> bool" where
  "snapshot_policy_ok p \<longleftrightarrow>
     opt_all (\<lambda>r. finite_repr r \<and> 0 < float_value r \<and> float_value r \<le> 31536000) (max_age_seconds p) \<and>
     fcard (compatible_catalogs p) \<le> 64 \<and> fBall (compatible_catalogs p) fingerprint_ok \<and>
     opt_all fingerprint_ok (sp_tenant p) \<and> opt_all identifier_ok (sp_source_id p)"

definition snapshot_policy_payload :: "SnapshotActivationPolicy \<Rightarrow> jv" where
  "snapshot_policy_payload p = vdict
     [(''max_age_seconds'', vopt VFloat (max_age_seconds p)), (''allow_partial'', VBool (allow_partial p)),
      (''compatible_catalog_fingerprints'', sorted_texts (compatible_catalogs p)),
      (''tenant_scope_fingerprint'', vopt VStr (sp_tenant p)), (''source_id'', vopt VStr (sp_source_id p))]"

definition snapshot_policy_fingerprint :: "SnapshotActivationPolicy \<Rightarrow> string" where
  "snapshot_policy_fingerprint p = fingerprint_of (snapshot_policy_payload p)"

record ActivationCheckIssue =
  ai_code :: string
  ai_message :: string
  ai_member :: "string option"

record ActivationCheckResult =
  check_allowed :: bool
  check_issues :: "ActivationCheckIssue list"
  check_decision :: "string option"

record ProductionActivationContext =
  snapshot_policy :: SnapshotActivationPolicy
  active_snapshot :: "MetadataSnapshot option"
  drift_decision :: "DriftDecision option"
  overrides :: "DriftOverride list"
  pc_tenant :: "string option"

definition activation_issue :: "string \<Rightarrow> string \<Rightarrow> ActivationCheckIssue" where
  "activation_issue code message = \<lparr>ai_code = code, ai_message = message, ai_member = None\<rparr>"

definition partial_snapshot :: "MetadataSnapshot \<Rightarrow> bool" where
  "partial_snapshot s \<longleftrightarrow>
     bounded_objects (freshness s) \<or> bounded_fields (freshness s) \<or> bounded_samples (freshness s) \<or>
     list_ex observed_incomplete (snap_objects s)"

definition override_applies :: "MetadataSnapshot \<Rightarrow> SnapshotActivationPolicy \<Rightarrow> DriftDecision \<Rightarrow> timestamp \<Rightarrow> DriftOverride \<Rightarrow> bool" where
  "override_applies s p d now ov \<longleftrightarrow>
     permits ov d now \<and> (sp_tenant p = None \<or> Some (ov_tenant ov) = sp_tenant p) \<and> ov_source_id ov = msrc_id (snap_source s)"

definition activation_issues ::
  "MetadataSnapshot \<Rightarrow> SnapshotActivationPolicy \<Rightarrow> DriftDecision option \<Rightarrow> DriftOverride list \<Rightarrow> string option \<Rightarrow> timestamp \<Rightarrow>
   ActivationCheckIssue list" where
  "activation_issues s p decision ovs tenant now =
     (case sp_tenant p of
        None \<Rightarrow> []
      | Some scope \<Rightarrow>
          (case tenant of
             None \<Rightarrow> [activation_issue ''snapshot_unauthorized'' ''activation requires a trusted tenant scope'']
           | Some t \<Rightarrow>
               if t \<noteq> scope
               then [activation_issue ''snapshot_unauthorized''
                       ''the requested tenant scope does not match the activation policy''] else [])) @
     (if sp_source_id p \<noteq> None \<and> Some (msrc_id (snap_source s)) \<noteq> sp_source_id p
      then [\<lparr>ai_code = ''source_changed'',
             ai_message = ''the snapshot source identity does not match the activation policy'',
             ai_member = Some (msrc_id (snap_source s))\<rparr>] else []) @
     (if compatible_catalogs p \<noteq> {||} \<and> catalog_fingerprint (snap_source s) |\<notin>| compatible_catalogs p
      then [\<lparr>ai_code = ''catalog_incompatible'',
             ai_message = ''the snapshot catalog is not compatible with the activation policy'',
             ai_member = Some (msrc_id (snap_source s))\<rparr>] else []) @
     (if partial_snapshot s \<and> \<not> allow_partial p
      then [activation_issue ''snapshot_partial''
              ''partial or bounded discovery snapshots cannot be activated by default''] else []) @
     (case max_age_seconds p of
        None \<Rightarrow> []
      | Some seconds \<Rightarrow>
          if older_than now (discovered_at (freshness s)) seconds
          then [activation_issue ''snapshot_stale''
                  ''the snapshot freshness has expired for production activation''] else []) @
     (case decision of
        None \<Rightarrow> []
      | Some d \<Rightarrow>
          if blocking d \<and> \<not> list_ex (override_applies s p d now) ovs
          then [activation_issue ''blocking_drift''
                  ''the snapshot has blocking drift against the active baseline''] else [])"

definition check_snapshot_activation ::
  "MetadataSnapshot option \<Rightarrow> SnapshotActivationPolicy \<Rightarrow> DriftDecision option \<Rightarrow> DriftOverride list \<Rightarrow> string option \<Rightarrow> timestamp \<Rightarrow>
   ActivationCheckResult" where
  "check_snapshot_activation snapshot p decision ovs tenant now =
     (case snapshot of
        None \<Rightarrow>
          \<lparr>check_allowed = False,
           check_issues = [activation_issue ''snapshot_unavailable''
                             ''no active discovery snapshot is available for activation''],
           check_decision = None\<rparr>
      | Some s \<Rightarrow>
          (let issues = activation_issues s p decision ovs tenant now
           in \<lparr>check_allowed = (issues = []), check_issues = take 16 issues,
               check_decision = map_option decision_fingerprint decision\<rparr>))"

definition production_check :: "ProductionActivationContext \<Rightarrow> timestamp \<Rightarrow> ActivationCheckResult" where
  "production_check p now =
     check_snapshot_activation (active_snapshot p) (snapshot_policy p) (drift_decision p) (overrides p) (pc_tenant p) now"

section \<open>What blocks\<close>

lemma length_map_filter: "length (List.map_filter g xs) \<le> length xs"
  by (induction xs) (auto simp: List.map_filter_simps split: option.splits)

lemma type_changes_bound: "length (type_changes ob ob') \<le> length (mdo_fields ob)"
  unfolding type_changes_def by (rule le_trans [OF length_map_filter]) (metis length_keys_common length_map)

lemma distinct_keys_common [simp]: "distinct (keys_common xs ys)"
  by (simp add: keys_common_def)

lemma common_objects_fst:
  assumes "snapshot_ok before" "snapshot_ok after"
  shows "distinct (map fst (common_objects before after))"
proof -
  let ?ids = "keys_common (map mdo_id (snap_objects before)) (map mdo_id (snap_objects after))"
  define g where "g = (\<lambda>i. case (dict_of mdo_id (snap_objects before) i, dict_of mdo_id (snap_objects after) i) of
    (Some ob, Some ob') \<Rightarrow> Some (ob, ob') | _ \<Rightarrow> None)"
  have "g i = Some pr \<Longrightarrow> mdo_id (fst pr) = i" for i pr
    by (auto simp: g_def dest: dict_of_Some split: option.splits)
  then have "map (\<lambda>pr. mdo_id (fst pr)) (List.map_filter g ids) = filter (\<lambda>i. g i \<noteq> None) ids" for ids
    by (induction ids) (auto simp: List.map_filter_simps split: option.splits)
  moreover have "common_objects before after = List.map_filter g ?ids" by (simp add: common_objects_def g_def)
  ultimately have "map (\<lambda>pr. mdo_id (fst pr)) (common_objects before after) = filter (\<lambda>i. g i \<noteq> None) ?ids" by simp
  then have "distinct (map mdo_id (map fst (common_objects before after)))" by (simp add: comp_def)
  then show ?thesis using distinct_map by blast
qed

lemma all_type_changes_bound:
  assumes "snapshot_ok before" "snapshot_ok after"
  shows "length (concat (map (\<lambda>(ob, ob'). type_changes ob ob') (common_objects before after)))
    \<le> length (concat (map mdo_fields (snap_objects before)))"
proof -
  let ?n = "\<lambda>ob. length (mdo_fields ob)" and ?prs = "common_objects before after"
  have "length (concat (map (\<lambda>(ob, ob'). type_changes ob ob') ?prs)) \<le> sum_list (map (\<lambda>pr. ?n (fst pr)) ?prs)"
    unfolding length_concat by (simp add: comp_def case_prod_unfold sum_list_mono type_changes_bound)
  also have "\<dots> = sum ?n (set (map fst ?prs))"
    using sum_list_distinct_conv_sum_set [OF common_objects_fst [OF assms], of ?n] by (simp add: comp_def)
  also have "\<dots> \<le> sum ?n (set (snap_objects before))"
    by (rule sum_mono2) (auto simp: set_common_objects [OF assms])
  also have "\<dots> = sum_list (map ?n (snap_objects before))"
    using assms(1) by (simp add: snapshot_ok_def distinct_map sum_list_distinct_conv_sum_set)
  finally show ?thesis by (simp add: length_concat comp_def)
qed

definition field_broken :: "string fset \<Rightarrow> MetadataObject \<Rightarrow> MetadataObject \<Rightarrow> bool" where
  "field_broken fields0 ob ob' \<longleftrightarrow>
     (\<exists>f \<in> set (mdo_fields ob). mdf_id f |\<in>| fields0 \<and>
        (\<forall>g \<in> set (mdo_fields ob'). mdf_id g = mdf_id f \<longrightarrow> mdf_type g \<noteq> mdf_type f))"

text \<open>The changes on which a decision is meant to block.\<close>

definition breaking_change ::
  "MetadataSnapshot \<Rightarrow> MetadataSnapshot \<Rightarrow> string fset \<Rightarrow> string fset \<Rightarrow> string fset \<Rightarrow> string option \<Rightarrow> timestamp \<Rightarrow> bool" where
  "breaking_change before after objects0 fields0 relationships0 max_age now \<longleftrightarrow>
     msrc_id (snap_source before) \<noteq> msrc_id (snap_source after) \<or>
     catalog_fingerprint (snap_source before) \<noteq> catalog_fingerprint (snap_source after) \<or>
     (\<exists>seconds. max_age = Some seconds \<and> expired_snapshot after seconds now) \<or>
     (\<exists>ob \<in> set (snap_objects before). mdo_id ob |\<in>| objects0 \<and> mdo_id ob \<notin> mdo_id ` set (snap_objects after)) \<or>
     (\<exists>ob \<in> set (snap_objects before). \<exists>ob' \<in> set (snap_objects after). mdo_id ob' = mdo_id ob \<and> field_broken fields0 ob ob') \<or>
     (\<exists>c \<in> set (snapshot_constraints before). mdc_id c \<notin> mdc_id ` set (snapshot_constraints after)) \<or>
     (\<exists>i c c'. dict_of mdc_id (snapshot_constraints before) i = Some c \<and>
        dict_of mdc_id (snapshot_constraints after) i = Some c' \<and> constraint_signature c \<noteq> constraint_signature c' \<and>
        mdc_fields c |\<inter>| fields0 \<noteq> {||}) \<or>
     (\<exists>r \<in> set (snap_relationships before). mdr_id r |\<in>| relationships0 \<and>
        (\<forall>r' \<in> set (snap_relationships after). mdr_id r' = mdr_id r \<longrightarrow>
           relationship_signature r' \<noteq> relationship_signature r))"

lemma source_reasons_nonempty:
  "source_reasons before after max_age now \<noteq> [] \<longleftrightarrow>
     msrc_id (snap_source before) \<noteq> msrc_id (snap_source after) \<or>
     catalog_fingerprint (snap_source before) \<noteq> catalog_fingerprint (snap_source after) \<or>
     (\<exists>seconds. max_age = Some seconds \<and> expired_snapshot after seconds now)"
  by (auto simp: source_reasons_def split: option.splits)

lemma filter_nonempty: "filter P xs \<noteq> [] \<longleftrightarrow> (\<exists>x \<in> set xs. P x)"
  by (auto simp: filter_empty_conv)

lemma removed_field_reasons_nonempty:
  "removed_field_reasons c fields0 \<noteq> [] \<longleftrightarrow> (\<exists>ch \<in> set (removed_fields c). oc_field_ids ch |\<inter>| fields0 \<noteq> {||})"
proof -
  have "sorted_list_of_fset S = [] \<longleftrightarrow> S = {||}" for S :: "string fset"
    by (metis bot_fset.rep_eq fset_inverse set_empty sorted_list_of_fset_simps(1))
  moreover have "(case L of [] \<Rightarrow> [] | i # _ \<Rightarrow> [h i]) = [] \<longleftrightarrow> L = []" for L :: "string list" and h :: "string \<Rightarrow> DriftReason"
    by (cases L) simp_all
  ultimately show ?thesis by (auto simp: removed_field_reasons_def)
qed

lemma set_field_changes:
  "ch \<in> set (field_changes sel prs) \<longleftrightarrow>
    (\<exists>ob ob'. (ob, ob') \<in> set prs \<and> sel ob ob' \<noteq> [] \<and> ch = object_change (mdo_id ob) (sel ob ob'))"
  by (auto simp: field_changes_def)

lemma common_objects_bound:
  assumes "snapshot_ok before"
  shows "length (common_objects before after) \<le> 1024"
proof -
  have "length (common_objects before after) \<le> length (snap_objects before)"
    unfolding common_objects_def by (rule le_trans [OF length_map_filter]) (metis length_keys_common length_map)
  with assms show ?thesis by (simp add: snapshot_ok_def)
qed

lemma removed_fields_referenced:
  assumes "snapshot_ok before" "snapshot_ok after"
  shows "(\<exists>ch \<in> set (removed_fields (comparison before after)). oc_field_ids ch |\<inter>| fields0 \<noteq> {||}) \<longleftrightarrow>
    (\<exists>ob \<in> set (snap_objects before). \<exists>ob' \<in> set (snap_objects after). mdo_id ob' = mdo_id ob \<and>
       (\<exists>f \<in> set (mdo_fields ob). mdf_id f |\<in>| fields0 \<and> mdf_id f \<notin> mdf_id ` set (mdo_fields ob')))"
proof -
  let ?sel = "\<lambda>ob ob'. fields_added ob' ob" and ?prs = "common_objects before after"
  have "length (field_changes ?sel ?prs) \<le> length ?prs" by (simp add: field_changes_def)
  then have all: "removed_fields (comparison before after) = field_changes ?sel ?prs"
    using common_objects_bound [OF assms(1), of after] by (simp add: comparison_def Let_def MAX_CHANGES_def)
  have hit: "fset_of_list (?sel ob ob') |\<inter>| fields0 \<noteq> {||} \<longleftrightarrow>
      (\<exists>f \<in> set (mdo_fields ob). mdf_id f |\<in>| fields0 \<and> mdf_id f \<notin> mdf_id ` set (mdo_fields ob'))" for ob ob'
  proof -
    have "fset_of_list xs |\<inter>| fields0 \<noteq> {||} \<longleftrightarrow> (\<exists>x \<in> set xs. x |\<in>| fields0)" for xs :: "string list"
      by (auto simp: fset_of_list_elem fset_eq_iff)
    then show ?thesis by (auto simp: fields_added_def)
  qed
  have change_ids: "oc_field_ids (object_change i xs) = fset_of_list xs" for i xs by (simp add: object_change_def)
  have "(\<exists>ch \<in> set (field_changes ?sel ?prs). oc_field_ids ch |\<inter>| fields0 \<noteq> {||}) \<longleftrightarrow>
      (\<exists>ob ob'. (ob, ob') \<in> set ?prs \<and> ?sel ob ob' \<noteq> [] \<and> fset_of_list (?sel ob ob') |\<inter>| fields0 \<noteq> {||})"
    unfolding Bex_def set_field_changes by (metis (no_types, lifting) change_ids)
  also have "\<dots> \<longleftrightarrow> (\<exists>ob ob'. (ob, ob') \<in> set ?prs \<and> fset_of_list (?sel ob ob') |\<inter>| fields0 \<noteq> {||})"
    by (metis fset_of_list_simps(1) inf_bot_left)
  finally show ?thesis unfolding all hit set_common_objects [OF assms] by blast
qed

lemma changed_types_referenced:
  assumes "snapshot_ok before" "snapshot_ok after" "length (concat (map mdo_fields (snap_objects before))) \<le> 4096"
  shows "(\<exists>t \<in> set (changed_field_types (comparison before after)). tc_field_id t |\<in>| fields0) \<longleftrightarrow>
    (\<exists>ob \<in> set (snap_objects before). \<exists>ob' \<in> set (snap_objects after). mdo_id ob' = mdo_id ob \<and>
       (\<exists>f \<in> set (mdo_fields ob). \<exists>g \<in> set (mdo_fields ob'). mdf_id f |\<in>| fields0 \<and> mdf_id g = mdf_id f \<and>
          mdf_type f \<noteq> mdf_type g))"
proof -
  let ?prs = "common_objects before after"
  have all: "changed_field_types (comparison before after) = concat (map (\<lambda>(ob, ob'). type_changes ob ob') ?prs)"
    using le_trans [OF all_type_changes_bound [OF assms(1,2)] assms(3)] by (simp add: comparison_def Let_def MAX_CHANGES_def)
  have hit: "(\<exists>t \<in> set (type_changes ob ob'). tc_field_id t |\<in>| fields0) \<longleftrightarrow>
      (\<exists>f \<in> set (mdo_fields ob). \<exists>g \<in> set (mdo_fields ob'). mdf_id f |\<in>| fields0 \<and> mdf_id g = mdf_id f \<and> mdf_type f \<noteq> mdf_type g)"
    if "(ob, ob') \<in> set ?prs" for ob ob'
  proof -
    have "metadata_object_ok ob" "metadata_object_ok ob'"
      using that assms(1,2) by (auto simp: set_common_objects [OF assms(1,2)] snapshot_ok_def list_all_iff)
    note mem = set_type_changes [OF this]
    show ?thesis
    proof
      assume "\<exists>t \<in> set (type_changes ob ob'). tc_field_id t |\<in>| fields0"
      then obtain t where "t \<in> set (type_changes ob ob')" "tc_field_id t |\<in>| fields0" by blast
      then show "\<exists>f \<in> set (mdo_fields ob). \<exists>g \<in> set (mdo_fields ob'). mdf_id f |\<in>| fields0 \<and> mdf_id g = mdf_id f \<and> mdf_type f \<noteq> mdf_type g"
        unfolding mem by auto
    next
      assume "\<exists>f \<in> set (mdo_fields ob). \<exists>g \<in> set (mdo_fields ob'). mdf_id f |\<in>| fields0 \<and> mdf_id g = mdf_id f \<and> mdf_type f \<noteq> mdf_type g"
      then obtain f g where fg: "f \<in> set (mdo_fields ob)" "g \<in> set (mdo_fields ob')" "mdf_id f |\<in>| fields0"
          "mdf_id g = mdf_id f" "mdf_type f \<noteq> mdf_type g" by blast
      define t where "t = \<lparr>tc_object_id = mdo_id ob, tc_field_id = mdf_id f, tc_before = mdf_type f, tc_after = mdf_type g\<rparr>"
      have "t \<in> set (type_changes ob ob')" unfolding mem t_def using fg by blast
      moreover have "tc_field_id t |\<in>| fields0" using fg(3) by (simp add: t_def)
      ultimately show "\<exists>t \<in> set (type_changes ob ob'). tc_field_id t |\<in>| fields0" by blast
    qed
  qed
  have "(\<exists>t \<in> set (concat (map (\<lambda>(ob, ob'). type_changes ob ob') ?prs)). tc_field_id t |\<in>| fields0) \<longleftrightarrow>
      (\<exists>ob ob'. (ob, ob') \<in> set ?prs \<and> (\<exists>t \<in> set (type_changes ob ob'). tc_field_id t |\<in>| fields0))" by auto
  also have "\<dots> \<longleftrightarrow> (\<exists>ob ob'. (ob, ob') \<in> set ?prs \<and>
      (\<exists>f \<in> set (mdo_fields ob). \<exists>g \<in> set (mdo_fields ob'). mdf_id f |\<in>| fields0 \<and> mdf_id g = mdf_id f \<and> mdf_type f \<noteq> mdf_type g))"
    using hit by metis
  finally show ?thesis unfolding all set_common_objects [OF assms(1,2)] by blast
qed

lemma changed_relationships_referenced:
  assumes "snapshot_ok before" "snapshot_ok after"
  shows "(\<exists>i \<in> set (changed_relationships (comparison before after)). i |\<in>| rs) \<longleftrightarrow>
    (\<exists>r \<in> set (snap_relationships before). \<exists>r' \<in> set (snap_relationships after). mdr_id r |\<in>| rs \<and> mdr_id r' = mdr_id r \<and>
       relationship_signature r \<noteq> relationship_signature r')"
    and "(\<exists>i \<in> set (removed_relationships (comparison before after)). i |\<in>| rs) \<longleftrightarrow>
    (\<exists>r \<in> set (snap_relationships before). mdr_id r |\<in>| rs \<and> mdr_id r \<notin> mdr_id ` set (snap_relationships after))"
proof -
  let ?b = "snap_relationships before" and ?a = "snap_relationships after"
  have d: "distinct (map mdr_id ?b)" "distinct (map mdr_id ?a)" "length ?b \<le> 4096"
    using assms by (simp_all add: snapshot_ok_def)
  have "length (changed_keys mdr_id relationship_signature ?b ?a) \<le> length ?b"
    unfolding changed_keys_def by (rule le_trans [OF length_filter_le]) (metis length_keys_common length_map)
  with d(3) have c: "changed_relationships (comparison before after) = changed_keys mdr_id relationship_signature ?b ?a"
    by (simp add: comparison_def Let_def MAX_CHANGES_def)
  have "length (keys_without (map mdr_id ?b) (map mdr_id ?a)) \<le> length ?b" by (metis length_keys_without length_map)
  with d(3) have w: "removed_relationships (comparison before after) = keys_without (map mdr_id ?b) (map mdr_id ?a)"
    by (simp add: comparison_def Let_def MAX_CHANGES_def)
  show "(\<exists>i \<in> set (changed_relationships (comparison before after)). i |\<in>| rs) \<longleftrightarrow>
    (\<exists>r \<in> set ?b. \<exists>r' \<in> set ?a. mdr_id r |\<in>| rs \<and> mdr_id r' = mdr_id r \<and> relationship_signature r \<noteq> relationship_signature r')"
    unfolding c Bex_def set_changed_keys [OF d(1,2)] by metis
  show "(\<exists>i \<in> set (removed_relationships (comparison before after)). i |\<in>| rs) \<longleftrightarrow>
    (\<exists>r \<in> set ?b. mdr_id r |\<in>| rs \<and> mdr_id r \<notin> mdr_id ` set ?a)"
    unfolding w by auto
qed

lemma field_broken_split:
  "field_broken fields0 ob ob' \<longleftrightarrow>
     (\<exists>f \<in> set (mdo_fields ob). mdf_id f |\<in>| fields0 \<and> mdf_id f \<notin> mdf_id ` set (mdo_fields ob')) \<or>
     (\<exists>f \<in> set (mdo_fields ob). \<exists>g \<in> set (mdo_fields ob'). mdf_id f |\<in>| fields0 \<and> mdf_id g = mdf_id f \<and> mdf_type f \<noteq> mdf_type g)"
  if "distinct (map mdf_id (mdo_fields ob'))"
proof -
  have "(\<forall>g \<in> set (mdo_fields ob'). mdf_id g = i \<longrightarrow> mdf_type g \<noteq> ty) \<longleftrightarrow>
      i \<notin> mdf_id ` set (mdo_fields ob') \<or> (\<exists>g \<in> set (mdo_fields ob'). mdf_id g = i \<and> ty \<noteq> mdf_type g)" for i ty
    using that by (auto simp: distinct_map inj_on_def image_iff)
  then show ?thesis unfolding field_broken_def by blast
qed

lemma relationship_broken_split:
  assumes "distinct (map mdr_id ys)"
  shows "(\<exists>r \<in> R. P (mdr_id r) \<and> (\<forall>r' \<in> set ys. mdr_id r' = mdr_id r \<longrightarrow> relationship_signature r' \<noteq> relationship_signature r)) \<longleftrightarrow>
    (\<exists>r \<in> R. P (mdr_id r) \<and> mdr_id r \<notin> mdr_id ` set ys) \<or>
    (\<exists>r \<in> R. \<exists>r' \<in> set ys. P (mdr_id r) \<and> mdr_id r' = mdr_id r \<and> relationship_signature r \<noteq> relationship_signature r')"
proof -
  have "(\<forall>r' \<in> set ys. mdr_id r' = i \<longrightarrow> relationship_signature r' \<noteq> sg) \<longleftrightarrow>
      i \<notin> mdr_id ` set ys \<or> (\<exists>r' \<in> set ys. mdr_id r' = i \<and> sg \<noteq> relationship_signature r')" for i sg
    using assms by (auto simp: distinct_map inj_on_def image_iff)
  then show ?thesis by blast
qed

lemma changed_constraints_referenced:
  assumes "length (snapshot_constraints before) \<le> 4096"
  shows "(\<exists>i \<in> set (changed_constraints (comparison before after)). constraint_referenced before fields0 i) \<longleftrightarrow>
    (\<exists>i c c'. dict_of mdc_id (snapshot_constraints before) i = Some c \<and> dict_of mdc_id (snapshot_constraints after) i = Some c' \<and>
       constraint_signature c \<noteq> constraint_signature c' \<and> mdc_fields c |\<inter>| fields0 \<noteq> {||})" (is "?l \<longleftrightarrow> ?r")
proof -
  let ?b = "snapshot_constraints before" and ?a = "snapshot_constraints after"
  have "length (changed_keys mdc_id constraint_signature ?b ?a) \<le> length ?b"
    unfolding changed_keys_def by (rule le_trans [OF length_filter_le]) (metis length_keys_common length_map)
  with assms have c: "changed_constraints (comparison before after) = changed_keys mdc_id constraint_signature ?b ?a"
    by (simp add: comparison_def Let_def MAX_CHANGES_def)
  have one: "i \<in> set (changed_constraints (comparison before after)) \<and> constraint_referenced before fields0 i \<longleftrightarrow>
    (\<exists>c c'. dict_of mdc_id ?b i = Some c \<and> dict_of mdc_id ?a i = Some c' \<and> constraint_signature c \<noteq> constraint_signature c' \<and>
       mdc_fields c |\<inter>| fields0 \<noteq> {||})" for i
    using dict_of_None [of mdc_id ?b i] dict_of_None [of mdc_id ?a i]
    unfolding c changed_keys_def constraint_referenced_def set_filter set_keys_common set_map
    by (cases "dict_of mdc_id ?b i"; cases "dict_of mdc_id ?a i") (auto simp del: dict_of_None)
  show ?thesis unfolding Bex_def one by blast
qed

lemma removed_constraints_nonempty:
  "removed_constraints (comparison before after) \<noteq> [] \<longleftrightarrow>
    (\<exists>c \<in> set (snapshot_constraints before). mdc_id c \<notin> mdc_id ` set (snapshot_constraints after))"
proof -
  have "xs \<noteq> [] \<longleftrightarrow> (\<exists>x. x \<in> set xs)" for xs :: "string list" by (cases xs) auto
  then have "keys_without xs ys \<noteq> [] \<longleftrightarrow> (\<exists>x \<in> set xs. x \<notin> set ys)" for xs ys by auto
  then show ?thesis by (simp add: comparison_def Let_def MAX_CHANGES_def image_iff)
qed

lemma removed_objects_referenced:
  "(\<exists>i \<in> set (removed_objects (comparison before after)). i |\<in>| objects0) \<longleftrightarrow>
    (\<exists>ob \<in> set (snap_objects before). mdo_id ob |\<in>| objects0 \<and> mdo_id ob \<notin> mdo_id ` set (snap_objects after))"
  by (auto simp: comparison_def Let_def)


text \<open>The conditions of the activation check, and with them the use of an override.\<close>

lemma check_allowed_iff:
  "check_allowed (check_snapshot_activation snapshot p decision ovs tenant now) \<longleftrightarrow>
    (\<exists>s. snapshot = Some s \<and> (sp_tenant p = None \<or> tenant = sp_tenant p) \<and>
       (sp_source_id p = None \<or> sp_source_id p = Some (msrc_id (snap_source s))) \<and>
       (compatible_catalogs p = {||} \<or> catalog_fingerprint (snap_source s) |\<in>| compatible_catalogs p) \<and>
       (partial_snapshot s \<longrightarrow> allow_partial p) \<and>
       (\<forall>seconds. max_age_seconds p = Some seconds \<longrightarrow> \<not> older_than now (discovered_at (freshness s)) seconds) \<and>
       (\<forall>d. decision = Some d \<and> blocking d \<longrightarrow> (\<exists>ov \<in> set ovs. override_applies s p d now ov)))"
proof (cases snapshot)
  case (Some s)
  have tenant_part: "(case sp_tenant p of None \<Rightarrow> [] | Some scope \<Rightarrow> (case tenant of
      None \<Rightarrow> [activation_issue x y] | Some t \<Rightarrow> if t \<noteq> scope then [activation_issue x' y'] else [])) = [] \<longleftrightarrow>
      sp_tenant p = None \<or> tenant = sp_tenant p" for x y x' y'
    by (auto split: option.splits)
  have drift_part: "(case decision of None \<Rightarrow> [] | Some d \<Rightarrow>
      if blocking d \<and> \<not> list_ex (override_applies s p d now) ovs then [i] else []) = [] \<longleftrightarrow>
      (\<forall>d. decision = Some d \<and> blocking d \<longrightarrow> (\<exists>ov \<in> set ovs. override_applies s p d now ov))" for i :: ActivationCheckIssue
    by (cases decision) (auto simp: list_ex_iff)
  have age_part: "(case max_age_seconds p of None \<Rightarrow> [] | Some seconds \<Rightarrow>
      if older_than now (discovered_at (freshness s)) seconds then [i] else []) = [] \<longleftrightarrow>
      (\<forall>seconds. max_age_seconds p = Some seconds \<longrightarrow> \<not> older_than now (discovered_at (freshness s)) seconds)" for i :: ActivationCheckIssue
    by (auto split: option.splits)
  show ?thesis
    unfolding check_snapshot_activation_def Some Let_def option.case ActivationCheckResult.simps activation_issues_def
      append_is_Nil_conv tenant_part drift_part age_part
    by (auto split: if_splits)
qed (simp add: check_snapshot_activation_def)

section \<open>Changes that are not seen\<close>

text \<open>An override of a changed catalog holds for every other catalog: the decision does not name it.\<close>

theorem catalog_override_not_specific:
  assumes "catalog_fingerprint (snap_source before) \<noteq> k" "catalog_fingerprint (snap_source before) \<noteq> k'"
  shows "classify_drift before (after\<lparr>snap_source := snap_source after\<lparr>catalog_fingerprint := k\<rparr>\<rparr>) os fs rs max_age now =
    classify_drift before (after\<lparr>snap_source := snap_source after\<lparr>catalog_fingerprint := k'\<rparr>\<rparr>) os fs rs max_age now"
proof -
  have c: "comparison before (after\<lparr>snap_source := z\<rparr>) = comparison before after"
    and p: "common_objects before (after\<lparr>snap_source := z\<rparr>) = common_objects before after" for z
    by (simp_all add: comparison_def common_objects_def snapshot_constraints_def)
  have s: "source_reasons before (after\<lparr>snap_source := snap_source after\<lparr>catalog_fingerprint := k\<rparr>\<rparr>) max_age now =
      source_reasons before (after\<lparr>snap_source := snap_source after\<lparr>catalog_fingerprint := k'\<rparr>\<rparr>) max_age now"
    using assms by (cases max_age) (simp_all add: source_reasons_def expired_snapshot_def)
  show ?thesis
    unfolding classify_drift_def compare_snapshots_def c p classify_comparison_def blocking_of_def s ..
qed

text \<open>An object whose field is referenced disappears, and the decision only warns.\<close>

theorem removed_object_hides_fields:
  "\<exists>d. classify_drift
         (sample_snapshot 0 [sample_object [sample_field ''id'' ''integer'', sample_field ''amount'' ''numeric'']] [])
         (sample_snapshot 0 [] []) {||} {|''amount''|} {||} None 0 = Inr d \<and> severity d = WARNING"
proof -
  let ?b = "sample_snapshot 0 [sample_object [sample_field ''id'' ''integer'', sample_field ''amount'' ''numeric'']] []"
    and ?a = "sample_snapshot 0 [] []"
  have none: "common_objects ?b ?a = []" by (simp add: common_objects_def keys_common_def sample_snapshot_def List.map_filter_simps)
  have c: "comparison ?b ?a =
      \<lparr>added_objects = [], removed_objects = [''orders''], changed_objects = [], added_fields = [], removed_fields = [],
       changed_field_types = [], added_constraints = [], removed_constraints = [], changed_constraints = [],
       added_relationships = [], removed_relationships = [], changed_relationships = []\<rparr>"
    unfolding comparison_def none
    by (simp add: keys_without_def keys_common_def changed_keys_def object_changes_def field_changes_def
        snapshot_constraints_def sample_snapshot_def sample_object_def)
  show ?thesis
    unfolding classify_drift_def compare_snapshots_def none c
    by (simp add: object_changes_def MAX_CHANGES_def classify_comparison_def blocking_of_def source_reasons_def
        removed_field_reasons_def type_reasons_def warning_of_def informational_of_def field_references_def member_change_def
        change_reference_ok_def drift_decision_ok_def MAX_REFERENCES_def MAX_REASONS_def discovered_names sample_snapshot_def)
qed

text \<open>
  The signature of a relationship runs its source and target fields together: a field that moves from one side to
  the other changes nothing.
\<close>

definition sample_relationship :: "string fset \<Rightarrow> string fset \<Rightarrow> MetadataRelationship" where
  "sample_relationship S T =
     \<lparr>mdr_id = ''orders'', mdr_kind = BY_FOREIGN_KEY, mdr_source_object = ''orders'', mdr_target_object = ''sales'',
      mdr_source_fields = S, mdr_target_fields = T, mdr_trust = OBSERVED, mdr_description = []\<rparr>"

definition relationships_before :: MetadataSnapshot where
  "relationships_before = sample_snapshot 0 [] [sample_relationship {|''amount''|} {|''daily'', ''id''|}]"

definition relationships_after :: MetadataSnapshot where
  "relationships_after = sample_snapshot 0 [] [sample_relationship {|''amount'', ''daily''|} {|''id''|}]"

lemma relationships_ok: "snapshot_ok relationships_before" "snapshot_ok relationships_after"
  by (simp_all add: relationships_before_def relationships_after_def sample_relationship_def metadata_relationship_ok_def
      metadata_relationship_payload_def sample_snapshot_defs sorted_texts_def discovered_names list_all_iff fcard.rep_eq)

lemma reshaped_signature:
  "relationship_signature (sample_relationship {|''amount''|} {|''daily'', ''id''|}) =
   relationship_signature (sample_relationship {|''amount'', ''daily''|} {|''id''|})"
  by (simp add: relationship_signature_def sample_relationship_def sorted_list_of_fset.rep_eq)

theorem reshaped_relationship_unnoticed:
  "relationships_before \<noteq> relationships_after \<and> snapshot_ok relationships_before \<and> snapshot_ok relationships_after \<and>
   (\<exists>d. classify_drift relationships_before relationships_after {||} {||} {|''orders''|} None 0 = Inr d \<and>
        severity d = INFORMATIONAL \<and> informational_changes d = [])"
proof (intro conjI relationships_ok)
  let ?r = "sample_relationship {|''amount''|} {|''daily'', ''id''|}" and ?r' = "sample_relationship {|''amount'', ''daily''|} {|''id''|}"
  show "relationships_before \<noteq> relationships_after"
  proof
    assume "relationships_before = relationships_after"
    then have "mdr_source_fields ?r = mdr_source_fields ?r'"
      by (simp add: relationships_before_def relationships_after_def sample_snapshot_def)
    then have "''daily'' |\<in>| {|''amount'' :: string|}" by (simp add: sample_relationship_def)
    then show False by simp
  qed
  have d: "distinct (map mdr_id [?r])" "distinct (map mdr_id [?r'])" by simp_all
  have "k \<notin> set (changed_keys mdr_id relationship_signature [?r] [?r'])" for k
    unfolding set_changed_keys [OF d] using reshaped_signature by simp
  then have "changed_keys mdr_id relationship_signature [?r] [?r'] = []" by (metis list.set_intros(1) neq_Nil_conv)
  then have c: "comparison relationships_before relationships_after =
      \<lparr>added_objects = [], removed_objects = [], changed_objects = [], added_fields = [], removed_fields = [],
       changed_field_types = [], added_constraints = [], removed_constraints = [], changed_constraints = [],
       added_relationships = [], removed_relationships = [], changed_relationships = []\<rparr>"
    by (simp add: comparison_def keys_without_def keys_common_def changed_keys_def [of mdc_id] object_changes_def
        field_changes_def snapshot_constraints_def common_objects_def List.map_filter_simps relationships_before_def
        relationships_after_def sample_snapshot_def sample_relationship_def)
  have none: "common_objects relationships_before relationships_after = []"
    by (simp add: common_objects_def keys_common_def List.map_filter_simps relationships_before_def relationships_after_def
        sample_snapshot_def)
  show "\<exists>d. classify_drift relationships_before relationships_after {||} {||} {|''orders''|} None 0 = Inr d \<and>
      severity d = INFORMATIONAL \<and> informational_changes d = []"
    unfolding classify_drift_def compare_snapshots_def none c
    by (simp add: object_changes_def MAX_CHANGES_def classify_comparison_def blocking_of_def source_reasons_def
        removed_field_reasons_def type_reasons_def warning_of_def informational_of_def field_references_def
        drift_decision_ok_def relationships_before_def relationships_after_def sample_snapshot_def)
qed

text \<open>The id of a referenced field is reported with its object: two long ids make the classification raise.\<close>

theorem long_members_raise:
  assumes "snapshot_ok before" "snapshot_ok after"
    and "ob \<in> set (snap_objects before)" "ob' \<in> set (snap_objects after)" "mdo_id ob' = mdo_id ob"
    and "f \<in> set (mdo_fields ob)" "mdf_id f |\<in>| fs" "mdf_id f \<notin> mdf_id ` set (mdo_fields ob')"
    and "128 \<le> length (mdo_id ob)"
  shows "classify_drift before after os fs rs max_age now = Inl ValidationError"
proof -
  let ?c = "comparison before after"
  let ?ch = "object_change (mdo_id ob) (fields_added ob' ob)"
  have "mdf_id f \<in> set (fields_added ob' ob)" using assms(6,8) by (simp add: fields_added_def)
  then have ne: "fields_added ob' ob \<noteq> []" and hit: "oc_field_ids ?ch |\<inter>| fs \<noteq> {||}"
    using assms(7) by (auto simp: object_change_def fset_of_list_elem fset_eq_iff)
  have "(ob, ob') \<in> set (common_objects before after)" using assms(3-5) by (simp add: set_common_objects [OF assms(1,2)])
  then have mem: "?ch \<in> set (field_changes (\<lambda>ob ob'. fields_added ob' ob) (common_objects before after))"
    unfolding set_field_changes using ne by blast
  have "length (field_changes (\<lambda>ob ob'. fields_added ob' ob) (common_objects before after)) \<le> 1024"
    using common_objects_bound [OF assms(1), of after] by (simp add: field_changes_def le_trans [OF length_filter_le])
  with mem have "?ch \<in> set (removed_fields ?c)" by (simp add: comparison_def Let_def MAX_CHANGES_def)
  moreover obtain i rest where "sorted_list_of_fset (oc_field_ids ?ch |\<inter>| fs) = i # rest"
    using hit by (metis fset_of_list_simps(1) list.exhaust sorted_list_of_fset_simps(2))
  ultimately have "because ''referenced_field_removed'' (dotted (oc_object_id ?ch) i) \<in> set (removed_field_reasons ?c fs)"
    unfolding removed_field_reasons_def set_concat set_map by (intro UN_I imageI) (auto simp only: list.case list.set)
  moreover have "\<not> drift_reason_ok (because ''referenced_field_removed'' (dotted (oc_object_id ?ch) i))"
    using assms(9) by (auto simp: drift_reason_ok_def dotted_def object_change_def dest: identifier_ok_length)
  ultimately have "\<not> list_all drift_reason_ok (blocking_of before after ?c os fs rs max_age now)"
    by (auto simp: blocking_of_def list_all_iff)
  then show ?thesis
    by (simp add: classify_drift_def compare_snapshots_def classify_comparison_def Let_def)
qed

text \<open>An override of another tenant lifts the block when the policy names no tenant.\<close>

theorem foreign_override_accepted:
  assumes "sp_tenant p = None" "check_allowed (check_snapshot_activation (Some s) p None [] tenant now)"
    and "decision_fingerprint d = ov_decision_fingerprint ov" "ov_expires_at ov = None" "ov_source_id ov = msrc_id (snap_source s)"
  shows "check_allowed (check_snapshot_activation (Some s) p (Some d) [ov] tenant now)"
  using assms by (simp add: check_allowed_iff override_applies_def permits_def)

section \<open>A changed type\<close>


end
