(* ===== verification/Bundle_Catalog.thy ===== *)
theory Bundle_Catalog
  imports Publication_Records Metadata_Drift
begin

text \<open>
  The semantic bundle catalog: \<^verbatim>\<open>src/nl2data_core/bundles/catalog.py\<close>.

  The state keeps, for a tenant scope and a bundle id, the publications in order, the active publication and the
  history of the ones that were active before, and the store of audit entries.  An operation returns the state it
  leaves together with its outcome or the exception it raises, so that a change that precedes an exception is seen.
  The draft store a catalog may be given is any object; it is the lookup of the revision and the fingerprint of the
  file payload of a draft.  The clock is the argument \<open>now\<close>.  The lock serializes the operations.

  The theory shows that in every catalog reached from an empty one by any operations the active pointers designate
  published versions that are not retired, that published content is never changed or lost, that an operation of a
  tenant does not touch another, that an outcome that reports a failure leaves the catalog unchanged, that only
  complete and valid publications become active, and that a rollback undoes an activation.
\<close>

section \<open>Outcomes\<close>

datatype OutcomeKind =
    PUBLISHED_OUTCOME | REUSED_OUTCOME | ACTIVATED_OUTCOME | ROLLED_BACK_OUTCOME | CONFLICT_OUTCOME | NOT_FOUND_OUTCOME
  | REJECTED_CATALOG | NO_HISTORY_OUTCOME | DEPRECATED_OUTCOME | RETIRED_OUTCOME

definition success_kind :: "OutcomeKind \<Rightarrow> bool" where
  "success_kind k \<longleftrightarrow>
     k \<in> {PUBLISHED_OUTCOME, REUSED_OUTCOME, ACTIVATED_OUTCOME, ROLLED_BACK_OUTCOME, DEPRECATED_OUTCOME, RETIRED_OUTCOME}"

record CatalogOutcome =
  co_kind :: OutcomeKind
  co_bundle :: "SemanticModelBundle option"
  co_audit_reference :: "string option"
  co_evidence_reference :: "string option"
  co_superseded :: "string option"
  co_idempotency :: "PublishIdempotencyStatus option"
  co_issues :: "BundleIssue list"

definition MAX_CATALOG_ISSUES :: nat where "MAX_CATALOG_ISSUES = 16"
definition AUDIT_STORE_LIMIT :: nat where "AUDIT_STORE_LIMIT = 4096"

definition new_CatalogOutcome :: "CatalogOutcome \<Rightarrow> CatalogOutcome res" where
  "new_CatalogOutcome x =
     (if opt_all identifier_ok (co_audit_reference x) \<and> opt_all identifier_ok (co_evidence_reference x) \<and>
         length (co_issues x) \<le> MAX_CATALOG_ISSUES \<and> list_all bundle_issue_ok (co_issues x) \<and>
         (if success_kind (co_kind x) then co_bundle x \<noteq> None \<and> co_issues x = [] else co_bundle x = None \<and> co_issues x \<noteq> [])
      then Inr x else Inl ValidationError)"

definition success_of :: "OutcomeKind \<Rightarrow> SemanticModelBundle \<Rightarrow> CatalogOutcome" where
  "success_of k b =
     \<lparr>co_kind = k, co_bundle = Some b, co_audit_reference = None, co_evidence_reference = None, co_superseded = None,
      co_idempotency = None, co_issues = []\<rparr>"

definition failure_of :: "OutcomeKind \<Rightarrow> BundleIssue list \<Rightarrow> CatalogOutcome res" where
  "failure_of k found = new_CatalogOutcome
     \<lparr>co_kind = k, co_bundle = None, co_audit_reference = None, co_evidence_reference = None, co_superseded = None,
      co_idempotency = None, co_issues = found\<rparr>"

definition failure :: "OutcomeKind \<Rightarrow> string \<Rightarrow> string \<Rightarrow> CatalogOutcome res" where
  "failure k code message = failure_of k [bundle_issue code message None]"

definition failure_from_activation_check :: "ActivationCheckResult \<Rightarrow> CatalogOutcome res" where
  "failure_from_activation_check r =
     failure_of REJECTED_CATALOG (map (\<lambda>i. bundle_issue (ai_code i) (ai_message i) (ai_member i)) (check_issues r))"

definition failure_from_validation :: "BundleValidationResult \<Rightarrow> CatalogOutcome res" where
  "failure_from_validation r = failure_of REJECTED_CATALOG (bv_issues r)"

section \<open>State\<close>

record BundlePublication =
  pub_bundle :: SemanticModelBundle
  pub_manifest :: "AcceptedAssertionManifest option"
  pub_audit :: "PublishAuditRecord option"
  pub_evidence :: "SuiteEvidence option"
  pub_binding :: "FrozenReleaseBinding option"
  pub_audit_evidence :: "PublicationAuditEvidence option"
  pub_state :: PublishedVersionState
  supersession :: SupersessionMetadata
  pub_published_at :: timestamp

definition publication_ok :: "BundlePublication \<Rightarrow> bool" where
  "publication_ok p \<longleftrightarrow>
     opt_all (\<lambda>m. mf_bundle_id m = bundle_id (pub_bundle p) \<and> mf_bundle_fingerprint m = bundle_fingerprint (pub_bundle p))
       (pub_manifest p) \<and>
     opt_all (\<lambda>a. par_bundle_id a = bundle_id (pub_bundle p) \<and> par_bundle_fingerprint a = bundle_fingerprint (pub_bundle p))
       (pub_audit p) \<and>
     opt_all (\<lambda>e. se_bundle_fingerprint e = bundle_fingerprint (pub_bundle p) \<and> suite_status e = PASSED) (pub_evidence p) \<and>
     (case (pub_evidence p, pub_audit p) of
        (Some e, Some a) \<Rightarrow> evidence_fingerprint (par_verification a) = Some (suite_fingerprint e) | _ \<Rightarrow> True) \<and>
     (case (pub_evidence p, pub_binding p) of (Some e, Some b) \<Rightarrow> matches_evidence b e | _ \<Rightarrow> True) \<and>
     (case (pub_audit p, pub_binding p) of
        (Some a, Some b) \<Rightarrow> release_binding_fingerprint (par_verification a) = Some (frozen_binding_fingerprint b) | _ \<Rightarrow> True) \<and>
     opt_all (\<lambda>x. pe_bundle_fingerprint x = bundle_fingerprint (pub_bundle p) \<and>
                  opt_all (\<lambda>a. pe_publish_audit_reference x = audit_id a) (pub_audit p)) (pub_audit_evidence p)"

definition pub_fingerprint :: "BundlePublication \<Rightarrow> string" where
  "pub_fingerprint p = bundle_fingerprint (pub_bundle p)"

definition pub_version :: "BundlePublication \<Rightarrow> string" where
  "pub_version p = Bundle_Model.model_version (pub_bundle p)"

type_synonym catalog_key = "string option \<times> string"

record Catalog =
  supported_versions :: "int list"
  draft_lookup :: "(string \<Rightarrow> string \<Rightarrow> (int \<times> string) option) option"
  publications :: "(catalog_key, BundlePublication list) dict"
  active_pointers :: "(catalog_key, BundlePublication) dict"
  pointer_history :: "(catalog_key, BundlePublication list) dict"
  audit_store :: "AuditEntry list"

definition new_Catalog :: "int list \<Rightarrow> (string \<Rightarrow> string \<Rightarrow> (int \<times> string) option) option \<Rightarrow> Catalog" where
  "new_Catalog versions lookup =
     \<lparr>supported_versions = versions, draft_lookup = lookup, publications = [], active_pointers = [], pointer_history = [],
      audit_store = []\<rparr>"

definition pubs :: "Catalog \<Rightarrow> catalog_key \<Rightarrow> BundlePublication list" where
  "pubs c key = (case dict_get (publications c) key of None \<Rightarrow> [] | Some ps \<Rightarrow> ps)"

definition past :: "Catalog \<Rightarrow> catalog_key \<Rightarrow> BundlePublication list" where
  "past c key = (case dict_get (pointer_history c) key of None \<Rightarrow> [] | Some ps \<Rightarrow> ps)"

definition pointer :: "Catalog \<Rightarrow> catalog_key \<Rightarrow> BundlePublication option" where
  "pointer c key = dict_get (active_pointers c) key"

section \<open>Audit entries\<close>

definition find_publication_entry :: "Catalog \<Rightarrow> string option \<Rightarrow> string \<Rightarrow> AuditEntry option" where
  "find_publication_entry c tenant fp =
     (case tenant of
        None \<Rightarrow> None
      | Some t \<Rightarrow>
          List.find (\<lambda>e. event_kind e = PUBLICATION \<and> ae_tenant e = t \<and> ae_bundle_fingerprint e = Some fp) (audit_store c))"

definition protected_fingerprints :: "Catalog \<Rightarrow> string list" where
  "protected_fingerprints c =
     map pub_fingerprint (filter (\<lambda>p. pub_state p \<noteq> RETIRED) (concat (map snd (publications c))))"

definition entry_protected :: "string list \<Rightarrow> AuditEntry \<Rightarrow> bool" where
  "entry_protected fps e \<longleftrightarrow> (case ae_bundle_fingerprint e of None \<Rightarrow> False | Some f \<Rightarrow> f \<in> set fps)"

definition protected_ids :: "Catalog \<Rightarrow> string list" where
  "protected_ids c =
     concat (map (\<lambda>e. event_id e # predecessor_event_ids e)
       (filter (entry_protected (protected_fingerprints c)) (audit_store c)))"

text \<open>The first entries that nothing protects are dropped, as many as the store holds too many.\<close>

fun drop_unprotected :: "(AuditEntry \<Rightarrow> bool) \<Rightarrow> nat \<Rightarrow> AuditEntry list \<Rightarrow> AuditEntry list" where
  "drop_unprotected keep n [] = []"
| "drop_unprotected keep n (e # es) =
     (if 0 < n \<and> \<not> keep e then drop_unprotected keep (n - 1) es else e # drop_unprotected keep n es)"

definition trim_audit_entries :: "Catalog \<Rightarrow> Catalog" where
  "trim_audit_entries c =
     (if length (audit_store c) \<le> AUDIT_STORE_LIMIT then c
      else let fps = protected_fingerprints c; ids = protected_ids c
           in c\<lparr>audit_store := drop_unprotected (\<lambda>e. entry_protected fps e \<or> event_id e \<in> set ids)
                                (length (audit_store c) - AUDIT_STORE_LIMIT) (audit_store c)\<rparr>)"

definition append_audit_entry :: "Catalog \<Rightarrow> AuditEntry \<Rightarrow> Catalog \<times> unit res" where
  "append_audit_entry c e =
     (case List.find (\<lambda>x. event_id x = event_id e) (audit_store c) of
        Some x \<Rightarrow>
          if entry_fingerprint x \<noteq> entry_fingerprint e then (c, Inl (ValueError ''audit evidence event id conflict''))
          else (c, Inr ())
      | None \<Rightarrow> (trim_audit_entries (c\<lparr>audit_store := audit_store c @ [e]\<rparr>), Inr ()))"

text \<open>The outcome that follows a last append, unless the append raises.\<close>

definition append_then :: "Catalog \<Rightarrow> AuditEntry option \<Rightarrow> CatalogOutcome res \<Rightarrow> Catalog \<times> CatalogOutcome res" where
  "append_then c entry outcome =
     (case entry of
        None \<Rightarrow> (c, outcome)
      | Some e \<Rightarrow> (case append_audit_entry c e of (c', r) \<Rightarrow> (c', bind_res r (\<lambda>_. outcome))))"

definition pointer_event_id :: "AuditEventKind \<Rightarrow> string \<Rightarrow> string option \<Rightarrow> string \<Rightarrow> string" where
  "pointer_event_id k bid prior resulting =
     (if k = ACTIVATION then ''activate'' else ''rollback'') @ ''-'' @
     short_digest (fingerprint_of (vdict
       [(''bundle_id'', VStr bid), (''prior_active_fingerprint'', vopt VStr prior),
        (''resulting_active_fingerprint'', VStr resulting)]))"

definition publication_lifecycle_reference :: "BundlePublication \<Rightarrow> AuditEntry option \<Rightarrow> string" where
  "publication_lifecycle_reference p entry =
     (case pub_audit p of
        Some a \<Rightarrow> audit_id a
      | None \<Rightarrow> (case entry of Some e \<Rightarrow> event_id e | None \<Rightarrow> ''publication-'' @ short_digest (pub_fingerprint p)))"

definition build_pointer_audit_entry ::
  "Catalog \<Rightarrow> catalog_key \<Rightarrow> BundlePublication \<Rightarrow> string option \<Rightarrow> string \<Rightarrow> AuditEventKind \<Rightarrow> string option \<Rightarrow> timestamp \<Rightarrow>
   AuditEntry option" where
  "build_pointer_audit_entry c key p prior resulting k op_ref now =
     (case fst key of
        None \<Rightarrow> None
      | Some tenant \<Rightarrow>
          (let entry = find_publication_entry c (Some tenant) (pub_fingerprint p);
               source = (case pub_binding p of
                  Some b \<Rightarrow> frb_source b
                | None \<Rightarrow> fingerprint_of (vdict [(''source_id'', VStr (desc_source_id (descriptor (pub_bundle p))))]));
               i = pointer_event_id k (bundle_id (pub_bundle p)) prior resulting;
               reference = publication_lifecycle_reference p entry;
               preds = (case entry of None \<Rightarrow> [] | Some e \<Rightarrow> [event_id e])
           in case (if k = ROLLED_BACK
                    then rollback_audit_entry tenant source i (pub_fingerprint p) reference
                           (case prior of None \<Rightarrow> [] | Some f \<Rightarrow> f) resulting op_ref preds now
                    else activation_audit_entry tenant source i (pub_fingerprint p) reference prior resulting op_ref preds now) of
                Inl _ \<Rightarrow> None
              | Inr e \<Rightarrow> Some e))"

section \<open>Publication\<close>

definition expected_snapshot_fingerprint :: "ProductionActivationContext option \<Rightarrow> string option" where
  "expected_snapshot_fingerprint production =
     (case production of None \<Rightarrow> None | Some p \<Rightarrow> map_option snapshot_fingerprint (active_snapshot p))"

text \<open>A check either ends the operation with a result or lets it continue.\<close>

definition check_draft_binding ::
  "Catalog \<Rightarrow> PublicationDraftBinding option \<Rightarrow> string option \<Rightarrow> (CatalogOutcome res) + unit" where
  "check_draft_binding c binding tenant =
     (case binding of
        None \<Rightarrow> Inr ()
      | Some b \<Rightarrow>
          if tenant \<noteq> Some (db_tenant b) then Inl (Inl (ValueError ''publication binding tenant scope mismatch''))
          else (case draft_lookup c of
            None \<Rightarrow> Inr ()
          | Some lookup \<Rightarrow>
              (case lookup (db_draft_id b) (db_tenant b) of
                 None \<Rightarrow> Inl (failure NOT_FOUND_OUTCOME ''draft_not_found'' ''the authoritative assembly draft does not exist'')
               | Some (revision, fp) \<Rightarrow>
                   if revision \<noteq> db_draft_revision b \<or> fp \<noteq> db_payload_fingerprint b then
                     Inl (failure CONFLICT_OUTCOME ''draft_revision_conflict''
                       ''the authoritative assembly draft changed before publication'')
                   else Inr ())))"

definition authoritative_release_binding_matches :: "Catalog \<Rightarrow> PublicationDraftBinding \<Rightarrow> bool option" where
  "authoritative_release_binding_matches c b =
     map_option (\<lambda>lookup. lookup (db_draft_id b) (db_tenant b) = Some (db_draft_revision b, db_payload_fingerprint b))
       (draft_lookup c)"

definition publication_records_of ::
  "SemanticModelBundle \<Rightarrow> PublicationAggregate option \<Rightarrow> AcceptedAssertionManifest option \<Rightarrow> PublishAuditRecord option \<Rightarrow>
   SuiteEvidence option \<Rightarrow> string option \<Rightarrow> (CatalogOutcome res) + PublicationRecordSet" where
  "publication_records_of b aggregate manifest audit evidence tenant =
     (case aggregate of
        Some g \<Rightarrow>
          if pa_bundle g \<noteq> b then
            Inl (failure REJECTED_CATALOG ''publication_aggregate_mismatch''
              ''publication aggregate does not match the published bundle'')
          else if Some (frb_tenant (pa_binding g)) \<noteq> tenant then
            Inl (failure REJECTED_CATALOG ''publication_aggregate_mismatch''
              ''publication aggregate tenant scope does not match the publication scope'')
          else Inr (from_aggregate g)
      | None \<Rightarrow>
          (case build_publication_records b manifest audit evidence None of
             Inl err \<Rightarrow> Inl (failure REJECTED_CATALOG (ie_code err) (ie_message err))
           | Inr r \<Rightarrow>
               if (case prs_binding r of None \<Rightarrow> False | Some x \<Rightarrow> Some (frb_tenant x) \<noteq> tenant) then
                 Inl (failure REJECTED_CATALOG ''verification_evidence_mismatch''
                   ''verification evidence does not match the publication tenant scope'')
               else Inr r))"

definition superseded_by :: "string \<Rightarrow> BundlePublication \<Rightarrow> BundlePublication" where
  "superseded_by fp p =
     p\<lparr>supersession := (supersession p)\<lparr>successor_fingerprint := Some fp\<rparr>,
       pub_state := (if pub_state p = ACTIVE then ACTIVE else SUPERSEDED)\<rparr>"

definition publication_of :: "SemanticModelBundle \<Rightarrow> PublicationRecordSet \<Rightarrow> string option \<Rightarrow> timestamp \<Rightarrow> BundlePublication" where
  "publication_of b r predecessor now =
     \<lparr>pub_bundle = b, pub_manifest = prs_manifest r, pub_audit = prs_audit r, pub_evidence = prs_evidence r,
      pub_binding = prs_binding r, pub_audit_evidence = prs_audit_evidence r, pub_state = AVAILABLE,
      supersession = \<lparr>predecessor_fingerprint = predecessor, successor_fingerprint = None\<rparr>, pub_published_at = now\<rparr>"

definition predecessor_of :: "BundlePublication list \<Rightarrow> string option" where
  "predecessor_of ps = (if ps = [] then None else Some (pub_fingerprint (last ps)))"

definition append_publication :: "Catalog \<Rightarrow> catalog_key \<Rightarrow> BundlePublication \<Rightarrow> Catalog" where
  "append_publication c key p =
     (let existing = pubs c key;
          chain = (if existing = [] then [] else butlast existing @ [superseded_by (pub_fingerprint p) (last existing)])
      in c\<lparr>publications := dict_set key (chain @ [p]) (publications c)\<rparr>)"

definition reuse_publication :: "PublicationRecordSet \<Rightarrow> BundlePublication \<Rightarrow> CatalogOutcome res" where
  "reuse_publication r p =
     (if prs_evidence r \<noteq> None \<and> pub_evidence p = None then
        failure CONFLICT_OUTCOME ''publication_state_conflict'' ''existing publication has no verification evidence to reuse''
      else new_CatalogOutcome ((success_of REUSED_OUTCOME (pub_bundle p))
        \<lparr>co_audit_reference := map_option audit_id (pub_audit p),
         co_evidence_reference := Option.bind (pub_audit p) (\<lambda>a. evidence_reference (par_verification a)),
         co_superseded := predecessor_fingerprint (supersession p), co_idempotency := Some REUSED\<rparr>))"

definition publish_validated ::
  "Catalog \<Rightarrow> catalog_key \<Rightarrow> SemanticModelBundle \<Rightarrow> PublicationRecordSet \<Rightarrow> string option \<Rightarrow> timestamp \<Rightarrow>
   Catalog \<times> CatalogOutcome res" where
  "publish_validated c key b r reference now =
     (let existing = pubs c key in
      case List.find (\<lambda>p. pub_fingerprint p = bundle_fingerprint b) existing of
        Some p \<Rightarrow> (c, reuse_publication r p)
      | None \<Rightarrow>
          if list_ex (\<lambda>p. pub_version p = Bundle_Model.model_version b) existing then
            (c, failure CONFLICT_OUTCOME ''version_exists''
                  (''bundle '' @ quoted (bundle_id b) @ '' version '' @ quoted (Bundle_Model.model_version b) @
                   '' is already published''))
          else
            (let predecessor = predecessor_of existing;
                 p = publication_of b r predecessor now;
                 c' = append_publication c key p;
                 done_outcome = new_CatalogOutcome ((success_of PUBLISHED_OUTCOME b)
                   \<lparr>co_audit_reference := map_option audit_id (prs_audit r), co_evidence_reference := reference,
                    co_superseded := predecessor, co_idempotency := Some CREATED\<rparr>)
             in if \<not> publication_ok p then (c, Inl ValidationError)
                else case prs_audit_evidence r of
                  None \<Rightarrow> (c', done_outcome)
                | Some x \<Rightarrow>
                    (case publication_audit_entry x
                            (case Option.bind predecessor (find_publication_entry c' (fst key)) of
                               None \<Rightarrow> [] | Some e \<Rightarrow> [event_id e]) now of
                       Inl err \<Rightarrow> (c', Inl err)
                     | Inr e \<Rightarrow> append_then c' (Some e) done_outcome)))"

definition publish ::
  "Catalog \<Rightarrow> SemanticModelBundle \<Rightarrow> PublicationAggregate option \<Rightarrow> AcceptedAssertionManifest option \<Rightarrow>
   PublishAuditRecord option \<Rightarrow> SuiteEvidence option \<Rightarrow> ProductionActivationContext option \<Rightarrow>
   PublicationDraftBinding option \<Rightarrow> string option \<Rightarrow> timestamp \<Rightarrow> Catalog \<times> CatalogOutcome res" where
  "publish c b aggregate manifest audit evidence production binding tenant now =
     (case bind_res (check_draft_binding c binding tenant)
             (\<lambda>_. publication_records_of b aggregate manifest audit evidence tenant) of
        Inl result \<Rightarrow> (c, result)
      | Inr r \<Rightarrow>
          (case validate_bundle (supported_versions c) (expected_snapshot_fingerprint production) b of
             Inl err \<Rightarrow> (c, Inl err)
           | Inr v \<Rightarrow>
               if \<not> bv_valid v then (c, failure_from_validation v)
               else publish_validated c (tenant, bundle_id b) b r
                      (map_option (\<lambda>e. verification_evidence_reference (suite_fingerprint e)) (prs_evidence r)) now))"

section \<open>Lookups\<close>

definition by_version :: "Catalog \<Rightarrow> string \<Rightarrow> string \<Rightarrow> string option \<Rightarrow> BundlePublication option" where
  "by_version c bid version tenant = List.find (\<lambda>p. pub_version p = version) (pubs c (tenant, bid))"

definition publication_by_fingerprint :: "Catalog \<Rightarrow> string \<Rightarrow> string \<Rightarrow> string option \<Rightarrow> BundlePublication option" where
  "publication_by_fingerprint c bid fp tenant = List.find (\<lambda>p. pub_fingerprint p = fp) (pubs c (tenant, bid))"

definition catalog_get :: "Catalog \<Rightarrow> string \<Rightarrow> string \<Rightarrow> string option \<Rightarrow> SemanticModelBundle option" where
  "catalog_get c bid version tenant = map_option pub_bundle (by_version c bid version tenant)"

definition get_by_fingerprint :: "Catalog \<Rightarrow> string \<Rightarrow> string \<Rightarrow> string option \<Rightarrow> SemanticModelBundle option" where
  "get_by_fingerprint c bid fp tenant = map_option pub_bundle (publication_by_fingerprint c bid fp tenant)"

definition versions :: "Catalog \<Rightarrow> string \<Rightarrow> string option \<Rightarrow> SemanticModelBundle list" where
  "versions c bid tenant = map pub_bundle (pubs c (tenant, bid))"

definition accepted_assertion_manifest :: "Catalog \<Rightarrow> string \<Rightarrow> string \<Rightarrow> string option \<Rightarrow> AcceptedAssertionManifest option" where
  "accepted_assertion_manifest c bid fp tenant = Option.bind (publication_by_fingerprint c bid fp tenant) pub_manifest"

definition publish_audit :: "Catalog \<Rightarrow> string \<Rightarrow> string \<Rightarrow> string option \<Rightarrow> PublishAuditRecord option" where
  "publish_audit c bid fp tenant = Option.bind (publication_by_fingerprint c bid fp tenant) pub_audit"

definition catalog_evidence :: "Catalog \<Rightarrow> string \<Rightarrow> string \<Rightarrow> string option \<Rightarrow> SuiteEvidence option" where
  "catalog_evidence c bid fp tenant = Option.bind (publication_by_fingerprint c bid fp tenant) pub_evidence"

definition supersession_chain :: "Catalog \<Rightarrow> string \<Rightarrow> string option \<Rightarrow> BundlePublication list" where
  "supersession_chain c bid tenant = pubs c (tenant, bid)"

definition active_bundle :: "Catalog \<Rightarrow> string \<Rightarrow> string option \<Rightarrow> SemanticModelBundle option" where
  "active_bundle c bid tenant = map_option pub_bundle (pointer c (tenant, bid))"

section \<open>Activation\<close>

definition satisfies_production_policy :: "SuiteEvidence option \<Rightarrow> string option \<Rightarrow> bool" where
  "satisfies_production_policy evidence tenant =
     (case evidence of
        None \<Rightarrow> False
      | Some e \<Rightarrow>
          se_policy_profile e = Verification_Evidence.policy_id PRODUCTION_POLICY \<and>
          se_policy_version e = policy_version PRODUCTION_POLICY \<and>
          se_policy_fingerprint e = verification_policy_fingerprint PRODUCTION_POLICY \<and>
          (tenant = None \<or> Some (se_tenant e) = tenant) \<and> evidence_satisfies_policy e PRODUCTION_POLICY)"

definition records_of :: "BundlePublication \<Rightarrow> PublicationRecordSet" where
  "records_of p =
     \<lparr>prs_bundle_id = bundle_id (pub_bundle p), prs_bundle_fingerprint = pub_fingerprint p, prs_manifest = pub_manifest p,
      prs_audit = pub_audit p, prs_evidence = pub_evidence p, prs_binding = pub_binding p,
      prs_audit_evidence = pub_audit_evidence p\<rparr>"

definition dependency_available :: "Catalog \<Rightarrow> string option \<Rightarrow> BundleDependency \<Rightarrow> bool" where
  "dependency_available c tenant d =
     (case catalog_get c (dep_bundle_id d) (dep_version d) tenant of
        None \<Rightarrow> False | Some b \<Rightarrow> bundle_fingerprint b = dep_fingerprint d)"

definition check_production ::
  "ProductionActivationContext option \<Rightarrow> SuiteEvidence option \<Rightarrow> string option \<Rightarrow> string \<Rightarrow> timestamp \<Rightarrow> (CatalogOutcome res) + unit" where
  "check_production production evidence tenant what now =
     (case production of
        None \<Rightarrow> Inr ()
      | Some p \<Rightarrow>
          if \<not> check_allowed (production_check p now) then Inl (failure_from_activation_check (production_check p now))
          else if \<not> satisfies_production_policy evidence tenant then
            Inl (failure REJECTED_CATALOG ''verification_evidence_required''
              (''production '' @ what @ '' requires passing production verification evidence''))
          else Inr ())"

definition check_valid_bundle ::
  "Catalog \<Rightarrow> ProductionActivationContext option \<Rightarrow> SemanticModelBundle \<Rightarrow> (CatalogOutcome res) + unit" where
  "check_valid_bundle c production b =
     (case validate_bundle (supported_versions c) (expected_snapshot_fingerprint production) b of
        Inl err \<Rightarrow> Inl (Inl err)
      | Inr v \<Rightarrow> if bv_valid v then Inr () else Inl (failure_from_validation v))"

definition check_integrity :: "PublicationRecordSet \<Rightarrow> (CatalogOutcome res) + unit" where
  "check_integrity r =
     (case validate_publication_integrity r of
        Inl err \<Rightarrow> Inl (failure REJECTED_CATALOG (ie_code err) (ie_message err)) | Inr u \<Rightarrow> Inr ())"

definition check_dependencies :: "Catalog \<Rightarrow> string option \<Rightarrow> SemanticModelBundle \<Rightarrow> (CatalogOutcome res) + unit" where
  "check_dependencies c tenant b =
     (case List.find (\<lambda>d. \<not> dependency_available c tenant d) (dependencies b) of
        None \<Rightarrow> Inr ()
      | Some d \<Rightarrow>
          Inl (failure_of REJECTED_CATALOG
            [bundle_issue ''dependency_unavailable''
               (''dependency '' @ quoted (dependency_id d) @ '' is unavailable or has a different fingerprint'')
               (Some (dependency_id d))]))"

definition activation_checks ::
  "Catalog \<Rightarrow> BundlePublication \<Rightarrow> ProductionActivationContext option \<Rightarrow> string option \<Rightarrow> timestamp \<Rightarrow> (CatalogOutcome res) + unit" where
  "activation_checks c p production tenant now =
     (if pub_state p = RETIRED then
        Inl (failure REJECTED_CATALOG ''bundle_retired'' ''retired bundle versions cannot be activated'')
      else
        bind_res (check_integrity (records_of p)) (\<lambda>_.
        bind_res (check_valid_bundle c production (pub_bundle p)) (\<lambda>_.
        bind_res (check_production production (pub_evidence p) tenant ''activation'' now) (\<lambda>_.
        check_dependencies c tenant (pub_bundle p)))))"

definition replace_publication :: "Catalog \<Rightarrow> catalog_key \<Rightarrow> BundlePublication \<Rightarrow> Catalog" where
  "replace_publication c key p =
     c\<lparr>publications := dict_set key
        (map (\<lambda>x. if pub_fingerprint x = pub_fingerprint p then p else x) (pubs c key)) (publications c)\<rparr>"

text \<open>The pointer moves: the previous publication goes to the history and its record becomes superseded.\<close>

definition move_pointer :: "Catalog \<Rightarrow> catalog_key \<Rightarrow> BundlePublication \<Rightarrow> Catalog" where
  "move_pointer c key p =
     (let c1 = (case pointer c key of
            None \<Rightarrow> c
          | Some previous \<Rightarrow>
              replace_publication (c\<lparr>pointer_history := dict_set key (previous # past c key) (pointer_history c)\<rparr>) key
                (previous\<lparr>pub_state := SUPERSEDED\<rparr>));
          live = p\<lparr>pub_state := ACTIVE\<rparr>;
          c2 = replace_publication c1 key live
      in c2\<lparr>active_pointers := dict_set key live (active_pointers c2)\<rparr>)"

definition activate_publication ::
  "Catalog \<Rightarrow> string \<Rightarrow> BundlePublication \<Rightarrow> ProductionActivationContext option \<Rightarrow> string option \<Rightarrow> string option \<Rightarrow>
   AuditEventKind \<Rightarrow> timestamp \<Rightarrow> Catalog \<times> CatalogOutcome res" where
  "activate_publication c bid p production tenant op_ref k now =
     (case activation_checks c p production tenant now of
        Inl result \<Rightarrow> (c, result)
      | Inr _ \<Rightarrow>
          (let key = (tenant, bid);
               entry = build_pointer_audit_entry c key p (map_option pub_fingerprint (pointer c key)) (pub_fingerprint p)
                         k op_ref now
           in if entry = None \<and> tenant \<noteq> None then
                (c, failure REJECTED_CATALOG ''audit_evidence_invalid'' ''the activation audit-evidence entry could not be created'')
              else append_then (move_pointer c key p) entry
                     (new_CatalogOutcome (success_of ACTIVATED_OUTCOME (pub_bundle p)))))"

definition activate ::
  "Catalog \<Rightarrow> string \<Rightarrow> string \<Rightarrow> ProductionActivationContext option \<Rightarrow> string option \<Rightarrow> string option \<Rightarrow> timestamp \<Rightarrow>
   Catalog \<times> CatalogOutcome res" where
  "activate c bid version production tenant op_ref now =
     (case by_version c bid version tenant of
        None \<Rightarrow>
          (c, failure NOT_FOUND_OUTCOME ''bundle_not_found''
                (''no published bundle '' @ quoted bid @ '' version '' @ quoted version @ '' exists''))
      | Some p \<Rightarrow> activate_publication c bid p production tenant op_ref ACTIVATION now)"

definition fingerprint_not_found :: "string \<Rightarrow> string \<Rightarrow> CatalogOutcome res" where
  "fingerprint_not_found bid fp =
     failure NOT_FOUND_OUTCOME ''bundle_not_found''
       (''no published bundle '' @ quoted bid @ '' fingerprint '' @ quoted fp @ '' exists'')"

definition activate_fingerprint ::
  "Catalog \<Rightarrow> string \<Rightarrow> string \<Rightarrow> ProductionActivationContext option \<Rightarrow> string option \<Rightarrow> string option \<Rightarrow> timestamp \<Rightarrow>
   Catalog \<times> CatalogOutcome res" where
  "activate_fingerprint c bid fp production tenant op_ref now =
     (case publication_by_fingerprint c bid fp tenant of
        None \<Rightarrow> (c, fingerprint_not_found bid fp)
      | Some p \<Rightarrow> activate_publication c bid p production tenant op_ref ACTIVATION now)"

section \<open>Rollback\<close>

definition not_active :: "string \<Rightarrow> CatalogOutcome res" where
  "not_active bid =
     failure NOT_FOUND_OUTCOME ''bundle_not_active'' (''bundle '' @ quoted bid @ '' has no active version'')"

definition rollback_checks ::
  "Catalog \<Rightarrow> string \<Rightarrow> BundlePublication \<Rightarrow> ProductionActivationContext option \<Rightarrow> string option \<Rightarrow> timestamp \<Rightarrow> (CatalogOutcome res) + unit" where
  "rollback_checks c bid previous production tenant now =
     (if (case publication_by_fingerprint c bid (pub_fingerprint previous) tenant of
            None \<Rightarrow> True | Some t \<Rightarrow> pub_state t = RETIRED) then
        Inl (failure REJECTED_CATALOG ''bundle_retired'' ''retired bundle versions cannot be rolled back to'')
      else
        bind_res (check_integrity ((records_of previous)\<lparr>prs_bundle_id := bid, prs_audit_evidence := None\<rparr>)) (\<lambda>_.
        case production of
          None \<Rightarrow> Inr ()
        | Some x \<Rightarrow>
            if \<not> check_allowed (production_check x now) then Inl (failure_from_activation_check (production_check x now))
            else bind_res (check_valid_bundle c production (pub_bundle previous)) (\<lambda>_.
              check_production production (pub_evidence previous) tenant ''rollback'' now)))"

text \<open>The pointer moves back to the last publication of the history.\<close>

definition rolled_back :: "Catalog \<Rightarrow> catalog_key \<Rightarrow> BundlePublication \<Rightarrow> BundlePublication \<Rightarrow> BundlePublication list \<Rightarrow> Catalog" where
  "rolled_back c key current previous rest =
     (let live = previous\<lparr>pub_state := ACTIVE\<rparr>;
          c1 = replace_publication (replace_publication c key (current\<lparr>pub_state := SUPERSEDED\<rparr>)) key live
      in c1\<lparr>active_pointers := dict_set key live (active_pointers c1), pointer_history := dict_set key rest (pointer_history c1)\<rparr>)"

definition rollback ::
  "Catalog \<Rightarrow> string \<Rightarrow> ProductionActivationContext option \<Rightarrow> string option \<Rightarrow> string option \<Rightarrow> timestamp \<Rightarrow>
   Catalog \<times> CatalogOutcome res" where
  "rollback c bid production tenant op_ref now =
     (let key = (tenant, bid) in
      case pointer c key of
        None \<Rightarrow> (c, not_active bid)
      | Some current \<Rightarrow>
          (case past c key of
             [] \<Rightarrow> (c, failure NO_HISTORY_OUTCOME ''no_rollback_history''
                       (''bundle '' @ quoted bid @ '' has no previously active version''))
           | previous # rest \<Rightarrow>
               (case rollback_checks c bid previous production tenant now of
                  Inl result \<Rightarrow> (c, result)
                | Inr _ \<Rightarrow>
                    (let entry = build_pointer_audit_entry c key previous (Some (pub_fingerprint current))
                                   (pub_fingerprint previous) ROLLED_BACK op_ref now
                     in if entry = None \<and> tenant \<noteq> None then
                          (c, failure REJECTED_CATALOG ''audit_evidence_invalid''
                                ''the rollback audit-evidence entry could not be created'')
                        else append_then (rolled_back c key current previous rest) entry
                               (new_CatalogOutcome (success_of ROLLED_BACK_OUTCOME (pub_bundle previous)))))))"

definition rollback_to_fingerprint ::
  "Catalog \<Rightarrow> string \<Rightarrow> string \<Rightarrow> ProductionActivationContext option \<Rightarrow> string option \<Rightarrow> string option \<Rightarrow> timestamp \<Rightarrow>
   Catalog \<times> CatalogOutcome res" where
  "rollback_to_fingerprint c bid fp production tenant op_ref now =
     (case publication_by_fingerprint c bid fp tenant of
        None \<Rightarrow> (c, fingerprint_not_found bid fp)
      | Some target \<Rightarrow>
          (case pointer c (tenant, bid) of
             None \<Rightarrow> (c, not_active bid)
           | Some current \<Rightarrow>
               if pub_fingerprint target = pub_fingerprint current then
                 (c, new_CatalogOutcome (success_of ROLLED_BACK_OUTCOME (pub_bundle target)))
               else
                 (case activate_publication c bid target production tenant op_ref ROLLED_BACK now of
                    (c', r) \<Rightarrow>
                      (c', bind_res r (\<lambda>x. if success_kind (co_kind x)
                                           then new_CatalogOutcome (success_of ROLLED_BACK_OUTCOME (pub_bundle target))
                                           else Inr x)))))"

section \<open>States of versions and audit entries\<close>

definition set_version_state ::
  "Catalog \<Rightarrow> string \<Rightarrow> string \<Rightarrow> PublishedVersionState \<Rightarrow> string option \<Rightarrow> Catalog \<times> CatalogOutcome res" where
  "set_version_state c bid fp state tenant =
     (case publication_by_fingerprint c bid fp tenant of
        None \<Rightarrow> (c, fingerprint_not_found bid fp)
      | Some p \<Rightarrow>
          if state = RETIRED \<and> map_option pub_fingerprint (pointer c (tenant, bid)) = Some fp then
            (c, failure REJECTED_CATALOG ''active_bundle_retirement'' ''the active bundle cannot be retired'')
          else
            (replace_publication c (tenant, bid) (p\<lparr>pub_state := state\<rparr>),
             new_CatalogOutcome
               (success_of (if state = DEPRECATED then DEPRECATED_OUTCOME else RETIRED_OUTCOME) (pub_bundle p))))"

fun append_audit_entries :: "Catalog \<Rightarrow> AuditEntry list \<Rightarrow> Catalog \<times> unit res" where
  "append_audit_entries c [] = (c, Inr ())"
| "append_audit_entries c (e # es) =
     (case append_audit_entry c e of (c', Inl err) \<Rightarrow> (c', Inl err) | (c', Inr u) \<Rightarrow> append_audit_entries c' es)"

definition check_recorded :: "string \<Rightarrow> AuditEntry \<Rightarrow> unit res" where
  "check_recorded tenant e =
     (if ae_tenant e \<noteq> tenant then Inl (ValueError ''audit evidence entry does not match the recording scope'')
      else if \<not> verify_fingerprint e then Inl (ValueError ''audit evidence entry fingerprint mismatch'')
      else Inr ())"

definition record_audit_entries :: "Catalog \<Rightarrow> AuditEntry list \<Rightarrow> string \<Rightarrow> Catalog \<times> unit res" where
  "record_audit_entries c es tenant =
     (case each_res (check_recorded tenant) es of Inl err \<Rightarrow> (c, Inl err) | Inr u \<Rightarrow> append_audit_entries c es)"

record AuditFilter =
  by_tenant :: "string option"
  by_draft :: "string option"
  revision_min :: "int option"
  revision_max :: "int option"
  by_assertion :: "string option"
  by_bundle :: "string option"
  by_lifecycle :: "string option"
  by_predecessor :: "string option"

definition entry_selected :: "AuditFilter \<Rightarrow> AuditEntry \<Rightarrow> bool" where
  "entry_selected f e \<longleftrightarrow>
     opt_all (\<lambda>t. ae_tenant e = t) (by_tenant f) \<and> opt_all (\<lambda>d. ae_draft_id e = Some d) (by_draft f) \<and>
     opt_all (\<lambda>n. ae_draft_revision e \<noteq> None \<and> opt_all (\<lambda>r. n \<le> r) (ae_draft_revision e)) (revision_min f) \<and>
     opt_all (\<lambda>n. ae_draft_revision e \<noteq> None \<and> opt_all (\<lambda>r. r \<le> n) (ae_draft_revision e)) (revision_max f) \<and>
     opt_all (\<lambda>a. ae_assertion_id e = Some a) (by_assertion f) \<and>
     opt_all (\<lambda>b. ae_bundle_fingerprint e = Some b) (by_bundle f) \<and>
     opt_all (\<lambda>l. lifecycle_reference e = Some l) (by_lifecycle f) \<and>
     opt_all (\<lambda>i. i \<in> set (predecessor_event_ids e)) (by_predecessor f)"

definition audit_entries :: "Catalog \<Rightarrow> AuditFilter \<Rightarrow> int \<Rightarrow> string option \<Rightarrow> AuditTrail res" where
  "audit_entries c f limit cursor = bounded_audit_trail (filter (entry_selected f) (audit_store c)) limit cursor"

section \<open>Reading the state\<close>

named_theorems catalog_simps \<open>pointers, histories and publications after an update\<close>

lemma state_audit_store [catalog_simps, simp]:
  "pubs (c\<lparr>audit_store := x\<rparr>) = pubs c" "pointer (c\<lparr>audit_store := x\<rparr>) = pointer c" "past (c\<lparr>audit_store := x\<rparr>) = past c"
  by (simp_all add: pubs_def pointer_def past_def fun_eq_iff)

lemma state_replace [catalog_simps]:
  "pubs (replace_publication c key p) k =
     (if k = key then map (\<lambda>x. if pub_fingerprint x = pub_fingerprint p then p else x) (pubs c key) else pubs c k)"
  "pointer (replace_publication c key p) = pointer c" "past (replace_publication c key p) = past c"
  "supported_versions (replace_publication c key p) = supported_versions c"
  by (simp_all add: replace_publication_def pubs_def pointer_def past_def fun_eq_iff)

lemma state_update [catalog_simps]:
  "pubs (c\<lparr>publications := dict_set key ps (publications c)\<rparr>) k = (if k = key then ps else pubs c k)"
  "pointer (c\<lparr>publications := z\<rparr>) = pointer c" "past (c\<lparr>publications := z\<rparr>) = past c"
  "pubs (c\<lparr>active_pointers := y\<rparr>) = pubs c" "past (c\<lparr>active_pointers := y\<rparr>) = past c"
  "pubs (c\<lparr>pointer_history := h\<rparr>) = pubs c" "pointer (c\<lparr>pointer_history := h\<rparr>) = pointer c"
  "pointer (c\<lparr>active_pointers := dict_set key p (active_pointers c)\<rparr>) k = (if k = key then Some p else pointer c k)"
  "past (c\<lparr>pointer_history := dict_set key ps (pointer_history c)\<rparr>) k = (if k = key then ps else past c k)"
  "past (c\<lparr>active_pointers := y, pointer_history := dict_set key ps (pointer_history c)\<rparr>) k = (if k = key then ps else past c k)"
  by (simp_all add: pubs_def pointer_def past_def fun_eq_iff)

lemma trim_state [catalog_simps, simp]:
  "pubs (trim_audit_entries c) = pubs c" "pointer (trim_audit_entries c) = pointer c" "past (trim_audit_entries c) = past c"
  "supported_versions (trim_audit_entries c) = supported_versions c"
  by (simp_all add: trim_audit_entries_def Let_def)

lemma append_state [catalog_simps, simp]:
  "pubs (fst (append_audit_entry c e)) = pubs c" "pointer (fst (append_audit_entry c e)) = pointer c"
  "past (fst (append_audit_entry c e)) = past c" "supported_versions (fst (append_audit_entry c e)) = supported_versions c"
  by (simp_all add: append_audit_entry_def split: option.splits)

lemma append_then_state [catalog_simps, simp]:
  "pubs (fst (append_then c x r)) = pubs c" "pointer (fst (append_then c x r)) = pointer c"
  "past (fst (append_then c x r)) = past c" "supported_versions (fst (append_then c x r)) = supported_versions c"
  by (auto simp: append_then_def case_prod_unfold split: option.splits)

lemma append_entries_keep:
  "pubs (fst (append_audit_entries c es)) = pubs c \<and> pointer (fst (append_audit_entries c es)) = pointer c \<and>
   past (fst (append_audit_entries c es)) = past c \<and> supported_versions (fst (append_audit_entries c es)) = supported_versions c"
proof (induction es arbitrary: c)
  case (Cons e es)
  obtain c' r where step: "append_audit_entry c e = (c', r)" by fastforce
  then have "pubs c' = pubs c" "pointer c' = pointer c" "past c' = past c" "supported_versions c' = supported_versions c"
    using append_state [of c e] by auto
  with step Cons.IH [of c'] show ?case by (cases r) auto
qed simp

lemmas append_entries_state [catalog_simps, simp] =
  append_entries_keep [THEN conjunct1] append_entries_keep [THEN conjunct2, THEN conjunct1]
  append_entries_keep [THEN conjunct2, THEN conjunct2, THEN conjunct1]
  append_entries_keep [THEN conjunct2, THEN conjunct2, THEN conjunct2]

lemma move_pointer_state [catalog_simps]:
  "pointer (move_pointer c key p) k = (if k = key then Some (p\<lparr>pub_state := ACTIVE\<rparr>) else pointer c k)"
  "past (move_pointer c key p) k = (if k = key then (case pointer c key of None \<Rightarrow> past c key | Some q \<Rightarrow> q # past c key) else past c k)"
  "k \<noteq> key \<Longrightarrow> pubs (move_pointer c key p) k = pubs c k"
  "supported_versions (move_pointer c key p) = supported_versions c"
  by (auto simp: move_pointer_def Let_def catalog_simps split: option.splits)

section \<open>What never changes\<close>

text \<open>The immutable part of a publication.\<close>

definition core :: "BundlePublication \<Rightarrow> BundlePublication" where
  "core p = p\<lparr>pub_state := AVAILABLE, supersession := \<lparr>predecessor_fingerprint = None, successor_fingerprint = None\<rparr>\<rparr>"

lemma core_simps [simp]:
  "core (p\<lparr>pub_state := s\<rparr>) = core p" "core (p\<lparr>supersession := z\<rparr>) = core p" "core (superseded_by fp p) = core p"
  by (simp_all add: core_def superseded_by_def)

lemma core_select:
  "pub_bundle (core p) = pub_bundle p" "pub_manifest (core p) = pub_manifest p" "pub_audit (core p) = pub_audit p"
  "pub_evidence (core p) = pub_evidence p" "pub_binding (core p) = pub_binding p"
  "pub_audit_evidence (core p) = pub_audit_evidence p"
  by (simp_all add: core_def)

lemma core_eqD:
  assumes "core p = core q"
  shows "pub_bundle p = pub_bundle q" "pub_fingerprint p = pub_fingerprint q" "pub_version p = pub_version q"
    "records_of p = records_of q" "pub_evidence p = pub_evidence q"
proof -
  have "pub_bundle p = pub_bundle q" "pub_manifest p = pub_manifest q" "pub_audit p = pub_audit q"
    "pub_evidence p = pub_evidence q" "pub_binding p = pub_binding q" "pub_audit_evidence p = pub_audit_evidence q"
    using assms by (metis core_select)+
  then show "pub_bundle p = pub_bundle q" "pub_fingerprint p = pub_fingerprint q" "pub_version p = pub_version q"
    "records_of p = records_of q" "pub_evidence p = pub_evidence q"
    by (simp_all add: pub_fingerprint_def pub_version_def records_of_def)
qed

lemma map_core:
  "map core ps = map core qs \<Longrightarrow> map pub_fingerprint ps = map pub_fingerprint qs \<and> map pub_version ps = map pub_version qs \<and>
     map pub_bundle ps = map pub_bundle qs"
proof (induction ps arbitrary: qs)
  case (Cons p ps)
  then obtain q qs' where "qs = q # qs'" by (cases qs) auto
  with Cons.prems have "core p = core q" "map core ps = map core qs'" by simp_all
  with Cons.IH [of qs'] core_eqD(1-3) [of p q] \<open>qs = q # qs'\<close> show ?case by simp
qed simp

definition published :: "Catalog \<Rightarrow> catalog_key \<Rightarrow> BundlePublication \<Rightarrow> bool" where
  "published c key p \<longleftrightarrow> core p \<in> core ` set (pubs c key)"

lemma replace_core:
  assumes "distinct (map pub_fingerprint (pubs c key))" "published c key p"
  shows "map core (pubs (replace_publication c key p) k) = map core (pubs c k)"
proof -
  have "core x = core p" if "x \<in> set (pubs c key)" "pub_fingerprint x = pub_fingerprint p" for x
  proof -
    obtain q where "q \<in> set (pubs c key)" "core q = core p" using assms(2) by (auto simp: published_def)
    with that assms(1) show ?thesis using core_eqD(2) by (metis distinct_map inj_on_def)
  qed
  then show ?thesis by (simp add: state_replace)
qed

lemma published_replace [simp]:
  assumes "distinct (map pub_fingerprint (pubs c key))" "published c key p"
  shows "published (replace_publication c key p) k q \<longleftrightarrow> published c k q"
  using replace_core [OF assms, of k] unfolding published_def by (metis list.set_map)

section \<open>The invariant\<close>

definition restorable :: "Catalog \<Rightarrow> catalog_key \<Rightarrow> BundlePublication \<Rightarrow> bool" where
  "restorable c key p \<longleftrightarrow> published c key p \<and> consistent_records (records_of p)"

text \<open>
  Versions and fingerprints are unique under a key, published bundles are valid, a pointer designates a published
  version that is not retired, and what was active before is published still.
\<close>

definition versions_ok :: "Catalog \<Rightarrow> catalog_key \<Rightarrow> bool" where
  "versions_ok c key \<longleftrightarrow>
     distinct (map pub_fingerprint (pubs c key)) \<and> distinct (map pub_version (pubs c key)) \<and>
     (\<forall>b \<in> set (map pub_bundle (pubs c key)). bundle_id b = snd key \<and> bundle_ok b \<and> publishable (supported_versions c) None b)"

definition pointer_ok :: "Catalog \<Rightarrow> catalog_key \<Rightarrow> bool" where
  "pointer_ok c key \<longleftrightarrow>
     (\<forall>a. pointer c key = Some a \<longrightarrow>
        restorable c key a \<and> (\<forall>p \<in> set (pubs c key). pub_fingerprint p = pub_fingerprint a \<longrightarrow> pub_state p \<noteq> RETIRED)) \<and>
     (\<forall>h \<in> set (past c key). restorable c key h)"

definition catalog_ok :: "Catalog \<Rightarrow> bool" where
  "catalog_ok c \<longleftrightarrow> (\<forall>key. versions_ok c key \<and> pointer_ok c key)"

text \<open>Keys are pairs; the proofs keep them whole.\<close>

declare split_paired_All [simp del] split_paired_Ex [simp del]

text \<open>Between two states: nothing happens to other keys, and publications are only added.\<close>

definition extends :: "catalog_key \<Rightarrow> Catalog \<Rightarrow> Catalog \<Rightarrow> bool" where
  "extends key c c' \<longleftrightarrow>
     supported_versions c' = supported_versions c \<and>
     (\<forall>k. k \<noteq> key \<longrightarrow> pubs c' k = pubs c k \<and> pointer c' k = pointer c k \<and> past c' k = past c k) \<and>
     prefix (map core (pubs c key)) (map core (pubs c' key))"

lemma extends_refl [simp]: "extends key c c" by (simp add: extends_def)

lemma extends_published: "extends key c c' \<Longrightarrow> published c k p \<Longrightarrow> published c' k p"
  unfolding extends_def published_def by (metis list.set_map set_mono_prefix subsetD)

lemma extends_restorable: "extends key c c' \<Longrightarrow> restorable c k p \<Longrightarrow> restorable c' k p"
  unfolding restorable_def using extends_published by blast

lemma catalog_okD:
  assumes "catalog_ok c"
  shows "versions_ok c key" "pointer_ok c key" "distinct (map pub_fingerprint (pubs c key))"
  using assms by (auto simp: catalog_ok_def versions_ok_def)

lemma pointer_okD:
  "pointer_ok c key \<Longrightarrow> pointer c key = Some a \<Longrightarrow> restorable c key a"
  "pointer_ok c key \<Longrightarrow> h \<in> set (past c key) \<Longrightarrow> restorable c key h"
  by (simp_all add: pointer_ok_def)

lemma catalog_ok_step:
  assumes "catalog_ok c" "extends key c c'" "versions_ok c' key" "pointer_ok c' key"
  shows "catalog_ok c'"
proof -
  have "versions_ok c' k \<and> pointer_ok c' k" for k
  proof (cases "k = key")
    case False
    then have same: "pubs c' k = pubs c k" "pointer c' k = pointer c k" "past c' k = past c k" "supported_versions c' = supported_versions c"
      using assms(2) by (simp_all add: extends_def)
    then have "restorable c' k p \<longleftrightarrow> restorable c k p" for p by (simp add: restorable_def published_def)
    with assms(1) same show ?thesis by (simp add: catalog_ok_def versions_ok_def pointer_ok_def)
  qed (use assms(3,4) in simp)
  then show ?thesis by (simp add: catalog_ok_def)
qed

lemma versions_ok_core:
  assumes "map core (pubs c' key) = map core (pubs c key)" "supported_versions c' = supported_versions c" "versions_ok c key"
  shows "versions_ok c' key"
  using map_core [OF assms(1)] assms(2,3) by (simp add: versions_ok_def del: set_map)

lemma published_core: "map core (pubs c' key) = map core (pubs c key) \<Longrightarrow> published c' key p \<longleftrightarrow> published c key p"
  unfolding published_def by (metis list.set_map)

lemma published_mem: "p \<in> set (pubs c key) \<Longrightarrow> published c key p"
  by (simp add: published_def)

lemma published_state [simp]: "published c key (p\<lparr>pub_state := s\<rparr>) = published c key p"
  by (simp add: published_def)

lemma records_of_state [simp]: "records_of (p\<lparr>pub_state := s\<rparr>) = records_of p" "pub_fingerprint (p\<lparr>pub_state := s\<rparr>) = pub_fingerprint p"
  "pub_bundle (p\<lparr>pub_state := s\<rparr>) = pub_bundle p"
  by (simp_all add: records_of_def pub_fingerprint_def)

lemma restorable_state [simp]: "restorable c key (p\<lparr>pub_state := s\<rparr>) = restorable c key p"
  by (simp add: restorable_def)

lemma replace_extends:
  assumes "catalog_ok c" "published c key p"
  shows "extends key c (replace_publication c key p)" "map core (pubs (replace_publication c key p) key) = map core (pubs c key)"
proof -
  have "distinct (map pub_fingerprint (pubs c key))" using assms(1) by (simp add: catalog_ok_def versions_ok_def)
  note eq = replace_core [OF this assms(2)]
  then show "map core (pubs (replace_publication c key p) key) = map core (pubs c key)" .
  then show "extends key c (replace_publication c key p)"
    unfolding extends_def by (metis prefix_order.refl state_replace)
qed

text \<open>Moving the pointer to a published version keeps the invariant, whatever the state of the version was.\<close>

lemma pubs_move_pointer:
  assumes "catalog_ok c" "published c key p"
  shows "map core (pubs (move_pointer c key p) key) = map core (pubs c key)"
    and "\<forall>x \<in> set (pubs (move_pointer c key p) key). pub_fingerprint x = pub_fingerprint p \<longrightarrow> pub_state x = ACTIVE"
proof -
  define c0 where "c0 = (case pointer c key of None \<Rightarrow> c
    | Some q \<Rightarrow> replace_publication (c\<lparr>pointer_history := dict_set key (q # past c key) (pointer_history c)\<rparr>) key (q\<lparr>pub_state := SUPERSEDED\<rparr>))"
  have d: "distinct (map pub_fingerprint (pubs c key))" using assms(1) by (simp add: catalog_ok_def versions_ok_def)
  have eq0: "map core (pubs c0 key) = map core (pubs c key)"
  proof (cases "pointer c key")
    case (Some q)
    then have "published c key q" using assms(1) by (auto simp: catalog_ok_def pointer_ok_def restorable_def)
    then have "published (c\<lparr>pointer_history := z\<rparr>) key (q\<lparr>pub_state := SUPERSEDED\<rparr>)" for z
      by (simp add: published_def catalog_simps)
    moreover have "distinct (map pub_fingerprint (pubs (c\<lparr>pointer_history := z\<rparr>) key))" for z
      using d by (simp add: catalog_simps)
    ultimately have "map core (pubs c0 key) = map core (pubs (c\<lparr>pointer_history := dict_set key (q # past c key) (pointer_history c)\<rparr>) key)"
      unfolding c0_def Some option.case by (intro replace_core)
    then show ?thesis by (simp only: state_update)
  qed (simp add: c0_def)
  then have d0: "distinct (map pub_fingerprint (pubs c0 key))" using d map_core by metis
  have "published c0 key (p\<lparr>pub_state := ACTIVE\<rparr>)" using assms(2) published_core [OF eq0] by simp
  from replace_core [OF d0 this, of key] eq0
  show "map core (pubs (move_pointer c key p) key) = map core (pubs c key)"
    by (simp add: move_pointer_def Let_def catalog_simps c0_def [symmetric])
  show "\<forall>x \<in> set (pubs (move_pointer c key p) key). pub_fingerprint x = pub_fingerprint p \<longrightarrow> pub_state x = ACTIVE"
    by (auto simp: move_pointer_def Let_def catalog_simps c0_def [symmetric])
qed

lemma move_pointer_ok:
  assumes "catalog_ok c" "restorable c key p"
  shows "catalog_ok (move_pointer c key p)" "extends key c (move_pointer c key p)"
proof -
  let ?c = "move_pointer c key p"
  have pub: "published c key p" using assms(2) by (simp add: restorable_def)
  note eq = pubs_move_pointer(1) [OF assms(1) pub]
  show ext: "extends key c ?c" using eq by (simp add: extends_def move_pointer_state)
  have rest: "restorable ?c key q \<longleftrightarrow> restorable c key q" for q using published_core [OF eq] by (simp add: restorable_def)
  have "pointer_ok ?c key"
    using assms pubs_move_pointer(2) [OF assms(1) pub]
    by (auto simp: pointer_ok_def move_pointer_state rest catalog_ok_def split: option.splits)
  moreover have "versions_ok ?c key"
    using assms(1) versions_ok_core [OF eq] by (simp add: move_pointer_state catalog_ok_def)
  ultimately show "catalog_ok ?c" using catalog_ok_step [OF assms(1) ext] by blast
qed

lemma audit_ok:
  assumes "pubs c' = pubs c" "pointer c' = pointer c" "past c' = past c" "supported_versions c' = supported_versions c"
  shows "catalog_ok c' = catalog_ok c" "extends key d c' = extends key d c"
  using assms by (simp_all add: catalog_ok_def versions_ok_def pointer_ok_def restorable_def published_def extends_def)

lemma append_then_ok [simp]:
  "catalog_ok (fst (append_then c x r)) = catalog_ok c" "extends key d (fst (append_then c x r)) = extends key d c"
  by (rule audit_ok; simp)+

section \<open>The operations keep it\<close>

lemma check_integrity_Inr [simp]: "check_integrity r = Inr u \<longleftrightarrow> consistent_records r"
proof (cases "validate_publication_integrity r")
  case (Inl e)
  then have "\<not> consistent_records r" by (metis integrity_rules_exact Inl_Inr_False)
  with Inl show ?thesis by (simp add: check_integrity_def)
next
  case (Inr v)
  then have "consistent_records r" by (metis integrity_rules_exact old.unit.exhaust)
  with Inr show ?thesis by (simp add: check_integrity_def)
qed

lemma activation_checks_consistent: "activation_checks c p production tenant now = Inr u \<Longrightarrow> consistent_records (records_of p)"
  by (auto simp: activation_checks_def bind_res_Inr_iff split: if_splits)

lemma activate_publication_ok:
  assumes "catalog_ok c" "p \<in> set (pubs c (tenant, bid))"
  shows "catalog_ok (fst (activate_publication c bid p production tenant op_ref k now)) \<and>
    extends (tenant, bid) c (fst (activate_publication c bid p production tenant op_ref k now))"
proof (cases "activation_checks c p production tenant now")
  case (Inr u)
  then have "restorable c (tenant, bid) p"
    using activation_checks_consistent assms(2) by (simp add: restorable_def published_mem)
  with move_pointer_ok [OF assms(1)] assms(1) Inr show ?thesis by (simp add: activate_publication_def Let_def)
qed (use assms(1) in \<open>simp add: activate_publication_def\<close>)

lemma find_mem: "List.find P xs = Some x \<Longrightarrow> x \<in> set xs \<and> P x"
  by (auto simp: find_Some_iff)

lemma by_version_mem: "by_version c bid version tenant = Some p \<Longrightarrow> p \<in> set (pubs c (tenant, bid))"
  using find_mem [of "\<lambda>p. pub_version p = version" "pubs c (tenant, bid)" p] by (simp add: by_version_def)

lemma by_fingerprint_mem:
  "publication_by_fingerprint c bid fp tenant = Some p \<Longrightarrow> p \<in> set (pubs c (tenant, bid)) \<and> pub_fingerprint p = fp"
  using find_mem [of "\<lambda>p. pub_fingerprint p = fp" "pubs c (tenant, bid)" p] by (simp add: publication_by_fingerprint_def)

lemma activate_ok:
  "catalog_ok c \<Longrightarrow> catalog_ok (fst (activate c bid version production tenant op_ref now)) \<and>
    extends (tenant, bid) c (fst (activate c bid version production tenant op_ref now))"
  using activate_publication_ok [of c _ tenant bid] by_version_mem [of c bid version tenant]
  by (cases "by_version c bid version tenant") (simp_all add: activate_def)

lemma activate_fingerprint_ok:
  "catalog_ok c \<Longrightarrow> catalog_ok (fst (activate_fingerprint c bid fp production tenant op_ref now)) \<and>
    extends (tenant, bid) c (fst (activate_fingerprint c bid fp production tenant op_ref now))"
  using activate_publication_ok [of c _ tenant bid] by_fingerprint_mem [of c bid fp tenant]
  by (cases "publication_by_fingerprint c bid fp tenant") (simp_all add: activate_fingerprint_def)

lemma rollback_to_fingerprint_ok:
  assumes "catalog_ok c"
  shows "catalog_ok (fst (rollback_to_fingerprint c bid fp production tenant op_ref now)) \<and>
    extends (tenant, bid) c (fst (rollback_to_fingerprint c bid fp production tenant op_ref now))"
proof (cases "publication_by_fingerprint c bid fp tenant")
  case (Some p)
  then have "p \<in> set (pubs c (tenant, bid))" using by_fingerprint_mem by blast
  with activate_publication_ok [OF assms this, of production op_ref ROLLED_BACK now] assms Some show ?thesis
    by (auto simp: rollback_to_fingerprint_def case_prod_unfold split: option.splits)
qed (use assms in \<open>simp add: rollback_to_fingerprint_def\<close>)

lemma rolled_back_ok:
  assumes "catalog_ok c" "pointer c key = Some current" "past c key = previous # rest"
  shows "catalog_ok (rolled_back c key current previous rest)" "extends key c (rolled_back c key current previous rest)"
proof -
  let ?c = "rolled_back c key current previous rest" and ?mid = "replace_publication c key (current\<lparr>pub_state := SUPERSEDED\<rparr>)"
    and ?live = "previous\<lparr>pub_state := ACTIVE\<rparr>"
  note ok = catalog_okD [OF assms(1), of key]
  have rest: "restorable c key previous" by (rule pointer_okD(2) [OF ok(2)]) (simp add: assms(3))
  have cur: "published c key current" and prev: "published c key previous"
    using pointer_okD(1) [OF ok(2) assms(2)] rest by (simp_all add: restorable_def)
  note d = ok(3)
  have eq0: "map core (pubs ?mid k) = map core (pubs c k)" for k using replace_core [OF d] cur by (simp only: published_state)
  have "map core (pubs (replace_publication ?mid key ?live) key) = map core (pubs ?mid key)"
    using replace_core [of ?mid key ?live key] published_core [OF eq0] map_core [OF eq0] prev d by simp
  with eq0 have eq: "map core (pubs ?c key) = map core (pubs c key)"
    by (simp only: rolled_back_def Let_def state_update)
  have "supported_versions ?c = supported_versions c" by (simp add: rolled_back_def Let_def catalog_simps)
  moreover have "pubs ?c k = pubs c k \<and> pointer ?c k = pointer c k \<and> past ?c k = past c k" if "k \<noteq> key" for k
    using that by (simp add: rolled_back_def Let_def catalog_simps)
  ultimately show ext: "extends key c ?c" unfolding extends_def eq by simp
  have restorable_eq: "restorable ?c key q \<longleftrightarrow> restorable c key q" for q using published_core [OF eq] by (simp add: restorable_def)
  have "pointer ?c key = Some ?live" "past ?c key = rest" by (simp_all add: rolled_back_def Let_def catalog_simps)
  moreover have "\<forall>x \<in> set (pubs ?c key). pub_fingerprint x = pub_fingerprint ?live \<longrightarrow> pub_state x = ACTIVE"
    by (auto simp: rolled_back_def Let_def catalog_simps)
  ultimately have "pointer_ok ?c key"
    using rest assms(1,3) by (auto simp: pointer_ok_def restorable_eq catalog_ok_def)
  moreover have "versions_ok ?c key"
    using versions_ok_core [OF eq] assms(1) ext by (simp add: catalog_ok_def extends_def)
  ultimately show "catalog_ok ?c" using catalog_ok_step [OF assms(1) ext] by blast
qed

lemma rollback_ok:
  assumes "catalog_ok c"
  shows "catalog_ok (fst (rollback c bid production tenant op_ref now)) \<and>
    extends (tenant, bid) c (fst (rollback c bid production tenant op_ref now))"
proof -
  have "catalog_ok (rolled_back c (tenant, bid) current previous rest) \<and> extends (tenant, bid) c (rolled_back c (tenant, bid) current previous rest)"
    if "pointer c (tenant, bid) = Some current" "past c (tenant, bid) = previous # rest" for current previous rest
    using rolled_back_ok [OF assms that] by blast
  with assms show ?thesis
    unfolding rollback_def Let_def by (auto split: option.splits list.splits sum.splits if_splits)
qed

lemma set_version_state_ok:
  assumes "catalog_ok c"
  shows "catalog_ok (fst (set_version_state c bid fp state tenant)) \<and> extends (tenant, bid) c (fst (set_version_state c bid fp state tenant))"
proof (cases "publication_by_fingerprint c bid fp tenant")
  case (Some p)
  let ?key = "(tenant, bid)" and ?n = "replace_publication c (tenant, bid) (p\<lparr>pub_state := state\<rparr>)"
  note mem = by_fingerprint_mem [OF Some]
  show ?thesis
  proof (cases "state = RETIRED \<and> map_option pub_fingerprint (pointer c ?key) = Some fp")
    case False
    have "published c ?key (p\<lparr>pub_state := state\<rparr>)" using mem by (simp add: published_mem)
    note ext = replace_extends [OF assms this]
    have "restorable ?n ?key q \<longleftrightarrow> restorable c ?key q" for q using published_core [OF ext(2)] by (simp add: restorable_def)
    moreover have "pub_state x \<noteq> RETIRED"
      if "pointer c ?key = Some a" "x \<in> set (pubs ?n ?key)" "pub_fingerprint x = pub_fingerprint a" for a x
    proof (cases "x = p\<lparr>pub_state := state\<rparr>")
      case True
      with False that mem show ?thesis by auto
    next
      case other: False
      with that(2) have "x \<in> set (pubs c ?key)" by (auto simp: state_replace split: if_splits)
      with that(1,3) catalog_okD(2) [OF assms, of ?key] show ?thesis by (simp add: pointer_ok_def)
    qed
    ultimately have "pointer_ok ?n ?key"
      using catalog_okD(2) [OF assms, of ?key] by (simp add: pointer_ok_def state_replace(2,3))
    moreover have "versions_ok ?n ?key"
      using versions_ok_core [OF ext(2)] catalog_okD(1) [OF assms] by (simp add: state_replace)
    ultimately show ?thesis
      using catalog_ok_step [OF assms ext(1)] ext(1) Some False by (auto simp: set_version_state_def)
  qed (use Some assms in \<open>simp add: set_version_state_def\<close>)
qed (use assms in \<open>simp add: set_version_state_def\<close>)

text \<open>A new publication is appended to its key; the last one before it learns its successor.\<close>

lemma append_publication_ok:
  assumes "catalog_ok c" "bundle_id (pub_bundle p) = snd key" "bundle_ok (pub_bundle p)"
    and "publishable (supported_versions c) None (pub_bundle p)"
    and new: "pub_fingerprint p \<notin> set (map pub_fingerprint (pubs c key))" "pub_version p \<notin> set (map pub_version (pubs c key))"
  shows "catalog_ok (append_publication c key p)" "extends key c (append_publication c key p)"
proof -
  let ?n = "append_publication c key p"
  define ps where "ps = pubs c key"
  define fp where "fp = pub_fingerprint p"
  define chain where "chain = (if ps = [] then [] else butlast ps @ [superseded_by fp (last ps)])"
  have n: "pubs ?n key = chain @ [p]" by (simp add: append_publication_def chain_def ps_def fp_def state_update Let_def)
  have keep: "k \<noteq> key \<Longrightarrow> pubs ?n k = pubs c k" "pointer ?n = pointer c" "past ?n = past c"
      "supported_versions ?n = supported_versions c" for k
    by (simp_all add: append_publication_def Let_def state_update)
  have chain: "map core chain = map core ps"
  proof (cases "ps = []")
    case False
    then have "map core chain = map core (butlast ps) @ [core (last ps)]" by (simp add: chain_def)
    also have "\<dots> = map core (butlast ps @ [last ps])" by simp
    also have "\<dots> = map core ps" using False by simp
    finally show ?thesis .
  qed (simp add: chain_def)
  then have ext: "extends key c ?n" unfolding extends_def n by (simp add: keep ps_def)
  then show "extends key c ?n" .
  note same = map_core [OF chain] and old = catalog_okD [OF assms(1), of key]
  have "versions_ok ?n key"
    using old(1) same assms(2-4) new unfolding versions_ok_def n by (simp add: ps_def keep del: set_map)
  moreover have "pointer_ok ?n key"
  proof -
    have "pub_state x \<noteq> RETIRED" if "pointer c key = Some a" "x \<in> set (chain @ [p])" "pub_fingerprint x = pub_fingerprint a" for a x
    proof -
      have "published c key a" using pointer_okD(1) [OF old(2) that(1)] by (simp add: restorable_def)
      then obtain q where "q \<in> set ps" "core a = core q" by (auto simp: published_def ps_def)
      then have "pub_fingerprint a \<in> set (map pub_fingerprint ps)" using core_eqD(2) [of a q] by simp
      with new(1) that(2,3) have "x \<in> set chain" by (auto simp: ps_def)
      then have "x \<in> set ps \<or> (ps \<noteq> [] \<and> x = superseded_by fp (last ps))"
        by (auto simp: chain_def split: if_splits dest: in_set_butlastD)
      moreover have "pub_state (superseded_by fp (last ps)) \<noteq> RETIRED" by (simp add: superseded_by_def)
      moreover have "x \<in> set ps \<Longrightarrow> pub_state x \<noteq> RETIRED" using that(1,3) old(2) by (simp add: pointer_ok_def ps_def)
      ultimately show ?thesis by blast
    qed
    with old(2) show ?thesis unfolding pointer_ok_def n
      using extends_restorable [OF ext] by (simp add: keep)
  qed
  ultimately show "catalog_ok ?n" using catalog_ok_step [OF assms(1) ext] by blast
qed

lemma validated_publishable:
  assumes "bundle_ok b" "validate_bundle supported expected b = Inr v" "bv_valid v"
  shows "publishable supported expected b" "publishable supported None b"
proof -
  have "bundle_issues supported expected b = []"
    using assms(2,3) by (auto simp: validate_bundle_def Let_def split: if_splits)
  then show "publishable supported expected b" using bundle_issues_Nil [OF assms(1)] by simp
  then show "publishable supported None b" by (simp add: publishable_def)
qed

lemma publish_validated_ok:
  assumes "catalog_ok c" "bundle_ok b" "publishable (supported_versions c) None b" "snd key = bundle_id b"
  shows "catalog_ok (fst (publish_validated c key b r reference now)) \<and> extends key c (fst (publish_validated c key b r reference now))"
proof (cases "List.find (\<lambda>p. pub_fingerprint p = bundle_fingerprint b) (pubs c key)")
  case None
  show ?thesis
  proof (cases "list_ex (\<lambda>p. pub_version p = Bundle_Model.model_version b) (pubs c key)")
    case False
    define q where "q = publication_of b r (predecessor_of (pubs c key)) now"
    have q: "pub_bundle q = b" "pub_fingerprint q = bundle_fingerprint b" "pub_version q = Bundle_Model.model_version b"
      by (simp_all add: q_def publication_of_def pub_fingerprint_def pub_version_def)
    have "pub_fingerprint q \<notin> set (map pub_fingerprint (pubs c key))" "pub_version q \<notin> set (map pub_version (pubs c key))"
      using None False q by (auto simp: find_None_iff list_ex_iff)
    note n = append_publication_ok [OF assms(1), of q key, unfolded q(1), OF assms(4) [symmetric] assms(2,3) this]
    show ?thesis
      using None False n assms(1)
      by (simp add: publish_validated_def Let_def q_def [symmetric] case_prod_unfold split: option.splits sum.splits)
  qed (use None assms(1) in \<open>simp add: publish_validated_def\<close>)
qed (use assms(1) in \<open>simp add: publish_validated_def\<close>)

lemma publish_ok:
  assumes "catalog_ok c" "bundle_ok b"
  shows "catalog_ok (fst (publish c b g m a e production binding tenant now)) \<and>
    extends (tenant, bundle_id b) c (fst (publish c b g m a e production binding tenant now))"
proof -
  have "catalog_ok (fst (publish_validated c (tenant, bundle_id b) b r reference now)) \<and>
      extends (tenant, bundle_id b) c (fst (publish_validated c (tenant, bundle_id b) b r reference now))"
    if "validate_bundle (supported_versions c) (expected_snapshot_fingerprint production) b = Inr v" "bv_valid v" for v r reference
    using publish_validated_ok [OF assms validated_publishable(2) [OF assms(2) that]] by simp
  with assms(1) show ?thesis by (auto simp: publish_def split: sum.splits)
qed

lemma record_audit_ok:
  "catalog_ok c \<Longrightarrow> catalog_ok (fst (record_audit_entries c es tenant)) \<and> extends key c (fst (record_audit_entries c es tenant))"
  using audit_ok [of "fst (append_audit_entries c es)" c] by (auto simp: record_audit_entries_def split: sum.splits)


section \<open>Histories of a catalog\<close>

datatype catalog_op =
    Publish SemanticModelBundle "PublicationAggregate option" "AcceptedAssertionManifest option" "PublishAuditRecord option"
      "SuiteEvidence option" "ProductionActivationContext option" "PublicationDraftBinding option" "string option" timestamp
  | Activate string string "ProductionActivationContext option" "string option" "string option" timestamp
  | ActivateFingerprint string string "ProductionActivationContext option" "string option" "string option" timestamp
  | Rollback string "ProductionActivationContext option" "string option" "string option" timestamp
  | RollbackTo string string "ProductionActivationContext option" "string option" "string option" timestamp
  | SetState string string PublishedVersionState "string option"
  | RecordEntries "AuditEntry list" string

fun apply_op :: "catalog_op \<Rightarrow> Catalog \<Rightarrow> Catalog" where
  "apply_op (Publish b g m a e production binding tenant now) c = fst (publish c b g m a e production binding tenant now)"
| "apply_op (Activate bid version production tenant op_ref now) c = fst (activate c bid version production tenant op_ref now)"
| "apply_op (ActivateFingerprint bid fp production tenant op_ref now) c =
     fst (activate_fingerprint c bid fp production tenant op_ref now)"
| "apply_op (Rollback bid production tenant op_ref now) c = fst (rollback c bid production tenant op_ref now)"
| "apply_op (RollbackTo bid fp production tenant op_ref now) c =
     fst (rollback_to_fingerprint c bid fp production tenant op_ref now)"
| "apply_op (SetState bid fp state tenant) c = fst (set_version_state c bid fp state tenant)"
| "apply_op (RecordEntries es tenant) c = fst (record_audit_entries c es tenant)"

text \<open>The key an operation is about; recording audit entries is about none.\<close>

fun op_key :: "catalog_op \<Rightarrow> catalog_key option" where
  "op_key (Publish b g m a e production binding tenant now) = Some (tenant, bundle_id b)"
| "op_key (Activate bid version production tenant op_ref now) = Some (tenant, bid)"
| "op_key (ActivateFingerprint bid fp production tenant op_ref now) = Some (tenant, bid)"
| "op_key (Rollback bid production tenant op_ref now) = Some (tenant, bid)"
| "op_key (RollbackTo bid fp production tenant op_ref now) = Some (tenant, bid)"
| "op_key (SetState bid fp state tenant) = Some (tenant, bid)"
| "op_key (RecordEntries es tenant) = None"

fun op_ok :: "catalog_op \<Rightarrow> bool" where
  "op_ok (Publish b g m a e production binding tenant now) = bundle_ok b"
| "op_ok _ = True"

definition run_ops :: "catalog_op list \<Rightarrow> Catalog \<Rightarrow> Catalog" where
  "run_ops ops c = fold apply_op ops c"

lemma apply_op_ok:
  assumes "catalog_ok c" "op_ok op"
  shows "catalog_ok (apply_op op c)" "op_key op = Some key \<Longrightarrow> extends key c (apply_op op c)"
    "op_key op = None \<Longrightarrow> extends key c (apply_op op c)"
proof -
  have "catalog_ok (apply_op op c) \<and> (op_key op = Some key \<longrightarrow> extends key c (apply_op op c)) \<and>
      (op_key op = None \<longrightarrow> extends key c (apply_op op c))"
    using assms
    by (cases op) (auto simp: publish_ok activate_ok activate_fingerprint_ok rollback_ok rollback_to_fingerprint_ok
        set_version_state_ok record_audit_ok)
  then show "catalog_ok (apply_op op c)" "op_key op = Some key \<Longrightarrow> extends key c (apply_op op c)"
    "op_key op = None \<Longrightarrow> extends key c (apply_op op c)" by simp_all
qed

lemma new_Catalog_ok: "catalog_ok (new_Catalog vs lookup)"
  by (simp add: catalog_ok_def versions_ok_def pointer_ok_def new_Catalog_def pubs_def pointer_def past_def)

inductive catalog_step :: "Catalog \<Rightarrow> Catalog \<Rightarrow> bool" where
  operation: "op_ok op \<Longrightarrow> catalog_step c (apply_op op c)"

inductive_cases catalog_stepE: "catalog_step c c'"

definition catalog_init :: "Catalog \<Rightarrow> bool" where
  "catalog_init c \<longleftrightarrow> (\<exists>vs lookup. c = new_Catalog vs lookup)"

interpretation catalog_sys: safe_system catalog_init catalog_step catalog_ok
proof unfold_locales
  show "catalog_init c \<Longrightarrow> catalog_ok c" for c using new_Catalog_ok by (auto simp: catalog_init_def)
  show "catalog_ok c \<Longrightarrow> catalog_step c c' \<Longrightarrow> catalog_ok c'" for c c' by (auto elim!: catalog_stepE simp: apply_op_ok(1))
qed

lemma run_ops_run: "list_all op_ok ops \<Longrightarrow> run catalog_step (length ops) c (run_ops ops c)"
  by (induction ops rule: rev_induct) (auto simp: run_ops_def intro: run.intros operation)

lemma run_ops_ok: "list_all op_ok ops \<Longrightarrow> catalog_ok c \<Longrightarrow> catalog_ok (run_ops ops c)"
  using catalog_sys.run_inv [OF run_ops_run] by blast

lemma step_keeps_publications:
  assumes "catalog_ok c" "op_ok op"
  shows "prefix (map core (pubs c key)) (map core (pubs (apply_op op c) key))"
proof (cases "op_key op = Some key \<or> op_key op = None")
  case True
  with apply_op_ok(2,3) [OF assms, of key] show ?thesis by (auto simp: extends_def)
next
  case False
  then obtain k where "op_key op = Some k" "k \<noteq> key" by (cases "op_key op") auto
  with apply_op_ok(2) [OF assms, of k] show ?thesis by (simp add: extends_def)
qed

lemma run_ops_keeps_publications:
  "list_all op_ok ops \<Longrightarrow> catalog_ok c \<Longrightarrow> prefix (map core (pubs c key)) (map core (pubs (run_ops ops c) key))"
proof (induction ops arbitrary: c)
  case (Cons op ops)
  then have "catalog_ok (apply_op op c)" by (simp add: apply_op_ok(1))
  with Cons have "prefix (map core (pubs (apply_op op c) key)) (map core (pubs (run_ops ops (apply_op op c)) key))" by simp
  moreover have "prefix (map core (pubs c key)) (map core (pubs (apply_op op c) key))"
    using step_keeps_publications Cons.prems by simp
  ultimately show ?case by (simp add: run_ops_def prefix_order.trans)
qed (simp add: run_ops_def)

lemma core_idem [simp]: "core (core p) = core p" by (simp add: core_def)


lemma run_ops_versions [simp]: "list_all op_ok ops \<Longrightarrow> catalog_ok c \<Longrightarrow> supported_versions (run_ops ops c) = supported_versions c"
proof (induction ops arbitrary: c)
  case (Cons op ops)
  have "supported_versions (apply_op op c) = supported_versions c"
    using apply_op_ok(2,3) [of c op] Cons.prems by (cases "op_key op") (auto simp: extends_def)
  with Cons apply_op_ok(1) [of c op] show ?case by (simp add: run_ops_def)
qed (simp add: run_ops_def)

lemma find_unique: "distinct (map f xs) \<Longrightarrow> x \<in> set xs \<Longrightarrow> f x = k \<Longrightarrow> List.find (\<lambda>y. f y = k) xs = Some x"
  by (induction xs) auto

lemma run_ops_reached: "list_all op_ok ops \<Longrightarrow> catalog_ok (run_ops ops (new_Catalog vs lookup))"
  using run_ops_ok new_Catalog_ok by blast

lemma active_published:
  assumes ok: "catalog_ok c" and b: "active_bundle c bid tenant = Some b"
  shows "\<exists>p \<in> set (supersession_chain c bid tenant). pub_bundle p = b \<and> pub_state p \<noteq> RETIRED \<and> consistent_records (records_of p) \<and>
    bundle_id b = bid \<and> publishable (supported_versions c) None b \<and> catalog_get c bid (Bundle_Model.model_version b) tenant = Some b"
proof -
  let ?key = "(tenant, bid)"
  obtain a where a: "pointer c ?key = Some a" "pub_bundle a = b" using b by (auto simp: active_bundle_def)
  note pt = catalog_okD [OF ok, of ?key]
  from pointer_okD(1) [OF pt(2) a(1)] obtain p where p: "p \<in> set (pubs c ?key)" "core a = core p" "consistent_records (records_of a)"
    by (auto simp: restorable_def published_def)
  note same = core_eqD [OF p(2)]
  have "pub_state p \<noteq> RETIRED" using pt(2) a(1) p(1) same(2) by (simp add: pointer_ok_def)
  moreover have "bundle_id b = bid \<and> publishable (supported_versions c) None b"
    using pt(1) p(1) same(1) a(2) by (simp add: versions_ok_def)
  moreover have "catalog_get c bid (Bundle_Model.model_version b) tenant = Some b"
    using find_unique [of pub_version "pubs c ?key" p] pt(1) p(1) same(1) a(2)
    by (simp add: catalog_get_def by_version_def versions_ok_def pub_version_def)
  ultimately show ?thesis using p same a(2) by (auto simp: supersession_chain_def)
qed

lemma reached_versions: "list_all op_ok ops \<Longrightarrow> supported_versions (run_ops ops (new_Catalog vs lookup)) = vs"
  using run_ops_versions [OF _ new_Catalog_ok] by (simp add: new_Catalog_def)

text \<open>
  C1.  In every catalog that any operations reach from an empty one, an active version is a published one: its
  bundle belongs to the id, is valid, is what a lookup by version returns, is not retired, and its records are
  complete and consistent.
\<close>

theorem active_bundle_published:
  assumes "list_all op_ok ops" "c = run_ops ops (new_Catalog vs lookup)" "active_bundle c bid tenant = Some b"
  shows "\<exists>p \<in> set (supersession_chain c bid tenant). pub_bundle p = b \<and> pub_state p \<noteq> RETIRED \<and> consistent_records (records_of p) \<and>
    bundle_id b = bid \<and> publishable vs None b \<and> catalog_get c bid (Bundle_Model.model_version b) tenant = Some b"
  using active_published [OF run_ops_reached [OF assms(1)]] reached_versions [OF assms(1)] assms(2,3) by simp

text \<open>
  C10.  Published content is immutable: whatever operations follow, a version that a lookup returned is returned
  again, with the same bundle, manifest, audit, evidence, binding and instant, and the versions are still listed in
  the same order before any newer ones.
\<close>

theorem published_content_immutable:
  assumes "list_all op_ok ops" "list_all op_ok later" "c = run_ops ops (new_Catalog vs lookup)" "c' = run_ops later c"
    and "publication_by_fingerprint c bid fp tenant = Some p"
  shows "prefix (versions c bid tenant) (versions c' bid tenant) \<and>
    (\<exists>q. publication_by_fingerprint c' bid fp tenant = Some q \<and> core q = core p)"
proof -
  let ?key = "(tenant, bid)"
  have ok: "catalog_ok c" using run_ops_reached [OF assms(1)] assms(3) by simp
  then have ok': "catalog_ok c'" using run_ops_ok [OF assms(2)] assms(4) by simp
  obtain zs where zs: "map core (pubs c' ?key) = map core (pubs c ?key) @ zs"
    using run_ops_keeps_publications [OF assms(2) ok, of ?key] assms(4) by (auto simp: prefix_def)
  have "map (\<lambda>p. pub_bundle (core p)) (pubs c' ?key) = map (\<lambda>p. pub_bundle (core p)) (pubs c ?key) @ map pub_bundle zs"
    using arg_cong [OF zs, of "map pub_bundle"] by (simp add: comp_def)
  then have "prefix (versions c bid tenant) (versions c' bid tenant)" by (simp add: versions_def core_select prefix_def)
  moreover have "p \<in> set (pubs c ?key)" "pub_fingerprint p = fp" using by_fingerprint_mem [OF assms(5)] by simp_all
  then have "core p \<in> set (map core (pubs c' ?key))" unfolding zs by simp
  then obtain q where "q \<in> set (pubs c' ?key)" "core q = core p" by auto
  then have "publication_by_fingerprint c' bid fp tenant = Some q"
    using find_unique [OF catalog_okD(3) [OF ok', of ?key], of q fp] core_eqD(2) [of q p] \<open>pub_fingerprint p = fp\<close>
    by (simp add: publication_by_fingerprint_def)
  ultimately show ?thesis using \<open>core q = core p\<close> by blast
qed

text \<open>
  C39.  Tenants and bundles do not interfere: operations that are about other keys change neither the publications
  of a key nor its active version nor its history.
\<close>

theorem catalog_keys_isolated:
  assumes "list_all op_ok ops" "list_all op_ok later" "c = run_ops ops (new_Catalog vs lookup)"
    and "\<forall>op \<in> set later. op_key op \<noteq> Some key"
  shows "pubs (run_ops later c) key = pubs c key \<and> pointer (run_ops later c) key = pointer c key \<and>
    past (run_ops later c) key = past c key"
proof -
  have "catalog_ok c" using run_ops_reached [OF assms(1)] assms(3) by simp
  with assms(2,4) show ?thesis
  proof (induction later arbitrary: c)
    case (Cons op later)
    have step: "pubs (apply_op op c) key = pubs c key \<and> pointer (apply_op op c) key = pointer c key \<and> past (apply_op op c) key = past c key"
    proof (cases "op_key op")
      case None
      then obtain es t where "op = RecordEntries es t" by (cases op) auto
      then show ?thesis by (simp add: record_audit_entries_def split: sum.splits)
    next
      case (Some k)
      with Cons.prems apply_op_ok(2) [of c op k] show ?thesis by (auto simp: extends_def)
    qed
    have "catalog_ok (apply_op op c)" using apply_op_ok(1) Cons.prems by simp
    with Cons.IH [of "apply_op op c"] Cons.prems step show ?case by (simp add: run_ops_def)
  qed (simp add: run_ops_def)
qed


section \<open>Outcomes and states\<close>

fun outcome_of :: "catalog_op \<Rightarrow> Catalog \<Rightarrow> CatalogOutcome res option" where
  "outcome_of (Publish b g m a e production binding tenant now) c = Some (snd (publish c b g m a e production binding tenant now))"
| "outcome_of (Activate bid version production tenant op_ref now) c = Some (snd (activate c bid version production tenant op_ref now))"
| "outcome_of (ActivateFingerprint bid fp production tenant op_ref now) c =
     Some (snd (activate_fingerprint c bid fp production tenant op_ref now))"
| "outcome_of (Rollback bid production tenant op_ref now) c = Some (snd (rollback c bid production tenant op_ref now))"
| "outcome_of (RollbackTo bid fp production tenant op_ref now) c =
     Some (snd (rollback_to_fingerprint c bid fp production tenant op_ref now))"
| "outcome_of (SetState bid fp state tenant) c = Some (snd (set_version_state c bid fp state tenant))"
| "outcome_of (RecordEntries es tenant) c = None"

lemma new_outcome_Inr: "new_CatalogOutcome x = Inr y \<longleftrightarrow> y = x \<and> is_ok (new_CatalogOutcome x)"
  by (auto simp: new_CatalogOutcome_def)

lemma failure_kind: "failure k code message = Inr x \<Longrightarrow> co_kind x = k"
  by (auto simp: failure_def failure_of_def new_outcome_Inr)

lemma success_of_kind [simp]: "co_kind (success_of k b) = k" "co_bundle (success_of k b) = Some b"
  by (simp_all add: success_of_def)

lemma append_then_Inr: "snd (append_then c e r) = Inr x \<Longrightarrow> r = Inr x"
  by (auto simp: append_then_def bind_res_Inr_iff case_prod_unfold split: option.splits)

text \<open>An operation whose state differs reports a success when it returns.\<close>

definition changes_on_success :: "Catalog \<Rightarrow> Catalog \<times> CatalogOutcome res \<Rightarrow> bool" where
  "changes_on_success c r \<longleftrightarrow> (\<forall>x. snd r = Inr x \<longrightarrow> fst r = c \<or> success_kind (co_kind x))"

lemma changes_same [simp]: "changes_on_success c (c, r)"
  by (simp add: changes_on_success_def)

lemma changes_success:
  "success_kind (co_kind x) \<Longrightarrow> changes_on_success c (append_then c' e (new_CatalogOutcome x))"
  "success_kind (co_kind x) \<Longrightarrow> changes_on_success c (c', new_CatalogOutcome x)"
  by (auto simp: changes_on_success_def new_outcome_Inr dest!: append_then_Inr)

lemma success_kinds [simp]:
  "success_kind PUBLISHED_OUTCOME" "success_kind REUSED_OUTCOME" "success_kind ACTIVATED_OUTCOME" "success_kind ROLLED_BACK_OUTCOME"
  "success_kind DEPRECATED_OUTCOME" "success_kind RETIRED_OUTCOME" "\<not> success_kind CONFLICT_OUTCOME"
  "\<not> success_kind NOT_FOUND_OUTCOME" "\<not> success_kind REJECTED_CATALOG" "\<not> success_kind NO_HISTORY_OUTCOME"
  by (simp_all add: success_kind_def)

lemma publish_changes: "changes_on_success c (publish c b g m a e production binding tenant now)"
proof -
  have "changes_on_success c (publish_validated c key b r reference now)" for key r reference
    by (auto simp: publish_validated_def Let_def changes_success changes_on_success_def [of c "(_, Inl _)"]
        split: option.splits sum.splits)
  then show ?thesis by (auto simp: publish_def split: sum.splits)
qed

lemma activate_publication_changes: "changes_on_success c (activate_publication c bid p production tenant op_ref k now)"
  by (auto simp: activate_publication_def Let_def changes_success split: sum.splits)

lemma rollback_changes: "changes_on_success c (rollback c bid production tenant op_ref now)"
  by (auto simp: rollback_def Let_def changes_success split: sum.splits option.splits list.splits)

lemma rollback_to_changes: "changes_on_success c (rollback_to_fingerprint c bid fp production tenant op_ref now)"
proof -
  have "changes_on_success c (c', bind_res r (\<lambda>x. if success_kind (co_kind x) then new_CatalogOutcome (success_of ROLLED_BACK_OUTCOME b) else Inr x))"
    if "changes_on_success c (c', r)" for c' r b
    using that by (auto simp: changes_on_success_def bind_res_Inr_iff new_outcome_Inr split: if_splits)
  then show ?thesis
    using activate_publication_changes
    by (auto simp: rollback_to_fingerprint_def case_prod_unfold split: option.splits)
qed

lemma set_state_changes: "changes_on_success c (set_version_state c bid fp state tenant)"
  by (auto simp: set_version_state_def changes_success split: option.splits)

text \<open>
  C38.  A reported failure is a failure: when an operation returns an outcome that is a conflict, a rejection, a
  missing bundle or an empty history, the catalog is exactly what it was before.
\<close>

theorem failed_operation_changes_nothing:
  assumes "outcome_of op c = Some (Inr x)" "\<not> success_kind (co_kind x)"
  shows "apply_op op c = c"
proof -
  have act: "changes_on_success c (activate c bid version production tenant op_ref now)"
    and act_fp: "changes_on_success c (activate_fingerprint c bid fp production tenant op_ref now)" for bid version fp production tenant op_ref now
    using activate_publication_changes by (auto simp: activate_def activate_fingerprint_def split: option.splits)
  have unchanged: "fst r = c" if "changes_on_success c r" "snd r = Inr x" for r
    using that assms(2) by (simp add: changes_on_success_def)
  show ?thesis
    using assms(1)
    by (cases op) (simp_all add: unchanged [OF act] unchanged [OF act_fp] unchanged [OF publish_changes]
        unchanged [OF rollback_changes] unchanged [OF rollback_to_changes] unchanged [OF set_state_changes])
qed

lemma rejected_checks_fail: "activation_checks c p production tenant now = Inl (Inr y) \<Longrightarrow> \<not> success_kind (co_kind y)"
  by (auto simp: activation_checks_def check_integrity_def check_valid_bundle_def check_production_def check_dependencies_def
      failure_def failure_of_def failure_from_validation_def failure_from_activation_check_def bind_res_Inl_iff new_outcome_Inr
      split: if_splits sum.splits option.splits)

lemma activated_state:
  assumes "activate c bid version production tenant op_ref now = (c', Inr x)" "success_kind (co_kind x)"
  obtains p where "by_version c bid version tenant = Some p" "activation_checks c p production tenant now = Inr ()"
    "pubs c' = pubs (move_pointer c (tenant, bid) p)" "pointer c' = pointer (move_pointer c (tenant, bid) p)"
    "past c' = past (move_pointer c (tenant, bid) p)"
proof -
  obtain p where p: "by_version c bid version tenant = Some p"
    using assms failure_kind by (fastforce simp: activate_def split: option.splits)
  have run: "activate_publication c bid p production tenant op_ref ACTIVATION now = (c', Inr x)"
    using assms(1) p by (simp add: activate_def)
  let ?e = "build_pointer_audit_entry c (tenant, bid) p (map_option pub_fingerprint (pointer c (tenant, bid))) (pub_fingerprint p) ACTIVATION op_ref now"
  have checks: "activation_checks c p production tenant now = Inr ()"
    using run rejected_checks_fail assms(2)
    by (cases "activation_checks c p production tenant now") (auto simp: activate_publication_def)
  have "\<not> (?e = None \<and> tenant \<noteq> None)"
    using run checks assms(2) failure_kind by (fastforce simp: activate_publication_def Let_def)
  with run checks have fin: "append_then (move_pointer c (tenant, bid) p) ?e (new_CatalogOutcome (success_of ACTIVATED_OUTCOME (pub_bundle p))) = (c', Inr x)"
    by (auto simp: activate_publication_def Let_def split: if_splits)
  show ?thesis by (rule that [OF p checks]) (metis fin append_then_state(1-3) fst_conv)+
qed

lemma activation_checked:
  assumes "activation_checks c p production tenant now = Inr ()" "bundle_ok (pub_bundle p)"
  shows "pub_state p \<noteq> RETIRED" "consistent_records (records_of p)"
    "publishable (supported_versions c) (expected_snapshot_fingerprint production) (pub_bundle p)"
    "d \<in> set (dependencies (pub_bundle p)) \<Longrightarrow> dependency_available c tenant d"
    "production = Some ctx \<Longrightarrow> check_allowed (production_check ctx now) \<and> satisfies_production_policy (pub_evidence p) tenant"
proof -
  have parts: "pub_state p \<noteq> RETIRED" "consistent_records (records_of p)" "check_valid_bundle c production (pub_bundle p) = Inr ()"
      "check_production production (pub_evidence p) tenant ''activation'' now = Inr ()" "check_dependencies c tenant (pub_bundle p) = Inr ()"
    using assms(1) by (auto simp: activation_checks_def bind_res_Inr_iff split: if_splits)
  obtain v where "validate_bundle (supported_versions c) (expected_snapshot_fingerprint production) (pub_bundle p) = Inr v" "bv_valid v"
    using parts(3) by (auto simp: check_valid_bundle_def split: sum.splits if_splits)
  from validated_publishable(1) [OF assms(2) this]
  show "publishable (supported_versions c) (expected_snapshot_fingerprint production) (pub_bundle p)" .
  show "dependency_available c tenant d" if "d \<in> set (dependencies (pub_bundle p))"
    using parts(5) that by (auto simp: check_dependencies_def find_None_iff split: option.splits)
  show "check_allowed (production_check ctx now) \<and> satisfies_production_policy (pub_evidence p) tenant" if "production = Some ctx"
    using parts(4) that by (auto simp: check_production_def split: if_splits)
qed (use assms(1) in \<open>auto simp: activation_checks_def bind_res_Inr_iff split: if_splits\<close>)

text \<open>
  C7.  Nothing becomes active unchecked: when an activation succeeds, the version is published under the tenant and
  not retired, its bundle is valid for the expected snapshot, its records are complete and consistent, every
  dependency is published with the fingerprint it names, and in production the snapshot passes the activation check
  and the evidence the production policy of that tenant; the active pointer is then that bundle.
\<close>

theorem activation_requires_checks:
  assumes "bundle_ok b" "catalog_get c bid version tenant = Some b"
    and "activate c bid version production tenant op_ref now = (c', Inr x)" "success_kind (co_kind x)"
  shows "\<exists>p \<in> set (supersession_chain c bid tenant). pub_bundle p = b \<and> Bundle_Model.model_version b = version \<and> pub_state p \<noteq> RETIRED \<and>
    publishable (supported_versions c) (expected_snapshot_fingerprint production) b \<and> consistent_records (records_of p) \<and>
    (\<forall>d \<in> set (dependencies b). \<exists>b'. catalog_get c (dep_bundle_id d) (dep_version d) tenant = Some b' \<and>
       bundle_fingerprint b' = dep_fingerprint d) \<and>
    (\<forall>ctx. production = Some ctx \<longrightarrow> check_allowed (production_check ctx now) \<and> satisfies_production_policy (pub_evidence p) tenant) \<and>
    active_bundle c' bid tenant = Some b"
proof -
  obtain p where p: "by_version c bid version tenant = Some p" "activation_checks c p production tenant now = Inr ()"
      "pointer c' = pointer (move_pointer c (tenant, bid) p)"
    using activated_state [OF assms(3,4)] by blast
  have b: "pub_bundle p = b" using assms(2) p(1) by (simp add: catalog_get_def)
  note checked = activation_checked [OF p(2), unfolded b, OF assms(1)]
  have "p \<in> set (pubs c (tenant, bid))" "Bundle_Model.model_version b = version"
    using find_mem [of "\<lambda>p. pub_version p = version" "pubs c (tenant, bid)" p] p(1) b
    by (simp_all add: by_version_def pub_version_def)
  moreover have "active_bundle c' bid tenant = Some b" using p(3) b by (simp add: active_bundle_def move_pointer_state)
  moreover have "\<exists>b'. catalog_get c (dep_bundle_id d) (dep_version d) tenant = Some b' \<and> bundle_fingerprint b' = dep_fingerprint d"
    if "d \<in> set (dependencies b)" for d
    using checked(4) [OF that] by (auto simp: dependency_available_def split: option.splits)
  ultimately show ?thesis unfolding supersession_chain_def using checked(1-3,5) b by blast
qed

lemma without_audit_evidence:
  "consistent_records r \<Longrightarrow> consistent_records (r\<lparr>prs_audit_evidence := None\<rparr>)"
  unfolding consistent_records_def by (cases "prs_evidence r") auto

lemma previous_not_retired:
  assumes "pointer c key = Some a" "x \<in> set (pubs (move_pointer c key p) key)" "pub_fingerprint x = pub_fingerprint a"
  shows "pub_state x \<noteq> RETIRED"
  using assms by (auto simp: move_pointer_def Let_def catalog_simps)

lemma previous_restorable:
  assumes ok: "catalog_ok c" and a: "pointer c (tenant, bid) = Some a" and p: "p \<in> set (pubs c (tenant, bid))"
    and c1: "pubs c1 = pubs (move_pointer c (tenant, bid) p)"
  shows "rollback_checks c1 bid a None tenant now = Inr ()"
proof -
  let ?key = "(tenant, bid)"
  have ra: "restorable c ?key a" by (rule pointer_okD(1) [OF catalog_okD(2) [OF ok] a])
  note kept = pubs_move_pointer(1) [OF ok published_mem [OF p], folded c1]
  have "published c1 ?key a" using ra published_core [OF kept] by (simp add: restorable_def)
  then obtain q where q: "q \<in> set (pubs c1 ?key)" "core q = core a" by (auto simp: published_def)
  have d: "distinct (map pub_fingerprint (pubs c1 ?key))" using catalog_okD(3) [OF ok, of ?key] map_core [OF kept] by simp
  have found: "publication_by_fingerprint c1 bid (pub_fingerprint a) tenant = Some q"
    using find_unique [OF d q(1), of "pub_fingerprint a"] core_eqD(2) [OF q(2)] by (simp add: publication_by_fingerprint_def)
  have state: "pub_state q \<noteq> RETIRED" using previous_not_retired [OF a, of q p] q core_eqD(2) [OF q(2)] c1 by simp
  obtain z where "z \<in> set (pubs c ?key)" "core a = core z" using ra by (auto simp: restorable_def published_def)
  with catalog_okD(1) [OF ok, of ?key] core_eqD(1) [of a z] have "bundle_id (pub_bundle a) = bid" by (simp add: versions_ok_def)
  then have "(records_of a)\<lparr>prs_bundle_id := bid, prs_audit_evidence := None\<rparr> = (records_of a)\<lparr>prs_audit_evidence := None\<rparr>"
    by (simp add: records_of_def)
  with ra have "consistent_records ((records_of a)\<lparr>prs_bundle_id := bid, prs_audit_evidence := None\<rparr>)"
    using without_audit_evidence by (simp add: restorable_def)
  with state found show ?thesis by (simp add: rollback_checks_def bind_res_Inr_iff)
qed



section \<open>Where the catalog departs from its documentation\<close>

text \<open>Publishing a successor revives a retired version: its record becomes superseded, and it can be activated again.\<close>

theorem publishing_revives_retired:
  assumes "pubs c key = ps @ [p]" "pub_state p = RETIRED"
  shows "\<exists>q \<in> set (pubs (append_publication c key new) key). core q = core p \<and> pub_state q = SUPERSEDED"
  using assms by (simp add: append_publication_def Let_def state_update) (simp add: superseded_by_def core_def)

text \<open>
  The id of a pointer event names neither the tenant nor the operator: when the store holds an entry of that id with
  other content, the activation raises after the pointer has moved.
\<close>

theorem conflicting_entry_moves_pointer:
  assumes "activation_checks c p production (Some t) now = Inr ()"
    and "build_pointer_audit_entry c (Some t, bid) p (map_option pub_fingerprint (pointer c (Some t, bid))) (pub_fingerprint p)
          ACTIVATION op_ref now = Some e"
    and "List.find (\<lambda>z. event_id z = event_id e) (audit_store c) = Some z" "entry_fingerprint z \<noteq> entry_fingerprint e"
  shows "activate_publication c bid p production (Some t) op_ref ACTIVATION now =
    (move_pointer c (Some t, bid) p, Inl (ValueError ''audit evidence event id conflict''))"
proof -
  have "audit_store (move_pointer c (Some t, bid) p) = audit_store c"
    by (simp add: move_pointer_def Let_def replace_publication_def split: option.splits)
  with assms show ?thesis by (simp add: activate_publication_def Let_def append_then_def append_audit_entry_def)
qed

lemma pointer_entry_id:
  "build_pointer_audit_entry c (Some t, bid) p prior resulting ACTIVATION op_ref now = Some e \<Longrightarrow>
    event_id e = pointer_event_id ACTIVATION (bundle_id (pub_bundle p)) prior resulting \<and> ae_tenant e = t \<and>
    operator_audit_reference e = op_ref"
  by (auto simp: build_pointer_audit_entry_def Let_def activation_audit_entry_def pointer_audit_entry_def new_AuditEntry_def
      entry_base_def split: sum.splits if_splits)

text \<open>An aggregate is published without the integrity rules: with a wrong reference it can never be activated.\<close>

theorem unusable_aggregate_published:
  assumes "aggregate_ok g" "pa_bundle g = b" "tenant = Some (frb_tenant (pa_binding g))"
    and "evidence_reference (par_verification (pa_audit g)) \<noteq> Some (verification_evidence_reference (suite_fingerprint (pa_evidence g)))"
  shows "publication_records_of b (Some g) m a e tenant = Inr (from_aggregate g) \<and> check_integrity (from_aggregate g) \<noteq> Inr ()"
proof -
  have "release_binding_fingerprint (par_verification (pa_audit g)) = Some (frozen_binding_fingerprint (pa_binding g))"
    using assms(1) by (simp add: aggregate_ok_def)
  then have "\<not> consistent_records (from_aggregate g)"
    using assms(4) by (auto simp: consistent_records_def from_aggregate_def audit_matches_evidence_def)
  with assms(2,3) show ?thesis by (simp add: publication_records_of_def)
qed

text \<open>Validation reports up to 64 issues and an outcome carries 16: a bundle with more makes the operation raise.\<close>

theorem many_issues_raise:
  "16 < length (bv_issues v) \<Longrightarrow> failure_from_validation v = Inl ValidationError"
  by (simp add: failure_from_validation_def failure_of_def new_CatalogOutcome_def MAX_CATALOG_ISSUES_def)

text \<open>
  The previous version is written back from the copy made when it was activated: what its record learned since, its
  successor, is lost.
\<close>

theorem activation_forgets_successor:
  assumes "catalog_ok c" "pointer c key = Some a" "published c key p" "pub_fingerprint p \<noteq> pub_fingerprint a"
    and "q \<in> set (pubs (move_pointer c key p) key)" "pub_fingerprint q = pub_fingerprint a"
  shows "supersession q = supersession a"
  using assms by (auto simp: move_pointer_def Let_def catalog_simps split: if_splits)

lemma find_append_new: "List.find P xs = None \<Longrightarrow> P x \<Longrightarrow> List.find P (xs @ [x]) = Some x"
  by (induction xs) (auto split: if_splits)

text \<open>A batch of audit entries with a conflict is not rejected before any write: the entries before it are recorded.\<close>

theorem conflicting_batch_partly_recorded:
  assumes "length (audit_store c) < AUDIT_STORE_LIMIT" "event_id e \<notin> event_id ` set (audit_store c)"
    and "event_id e' = event_id e" "entry_fingerprint e' \<noteq> entry_fingerprint e"
    and "check_recorded tenant e = Inr ()" "check_recorded tenant e' = Inr ()"
  shows "record_audit_entries c [e, e'] tenant =
    (c\<lparr>audit_store := audit_store c @ [e]\<rparr>, Inl (ValueError ''audit evidence event id conflict''))"
proof -
  have new: "List.find (\<lambda>x. event_id x = event_id e) (audit_store c) = None"
    using assms(2) by (auto simp: find_None_iff image_iff)
  have "append_audit_entry c e = (c\<lparr>audit_store := audit_store c @ [e]\<rparr>, Inr ())"
    using assms(1) new by (simp add: append_audit_entry_def trim_audit_entries_def)
  moreover have "List.find (\<lambda>x. event_id x = event_id e) (audit_store c @ [e]) = Some e"
    using new by (simp add: find_append_new)
  ultimately show ?thesis using assms(3-6) by (simp add: record_audit_entries_def append_audit_entry_def)
qed

section \<open>A first activation\<close>

definition first_bundle :: SemanticModelBundle where
  "first_bundle = sample_bundle ''v1'' []"

lemma first_bundle_ok: "bundle_ok first_bundle"
  unfolding first_bundle_def by (rule sample_bundle_ok) (simp_all add: pattern_simps)

lemma first_bundle_valid: "\<exists>v. validate_bundle [1] None first_bundle = Inr v \<and> bv_valid v"
proof -
  have "bundle_issues [1] None first_bundle = []"
    using bundle_issues_Nil [OF first_bundle_ok, of "[1]" None] by (simp add: first_bundle_def sample_bundle_publishable)
  then show ?thesis by (simp add: validate_bundle_def Let_def)
qed

definition first_ops :: "catalog_op list" where
  "first_ops = [Publish first_bundle None None None None None None None 0, Activate ''sales'' ''v1'' None None None 1]"

definition first_publication :: BundlePublication where
  "first_publication =
     \<lparr>pub_bundle = first_bundle, pub_manifest = None, pub_audit = None, pub_evidence = None, pub_binding = None,
      pub_audit_evidence = None, pub_state = AVAILABLE,
      supersession = \<lparr>predecessor_fingerprint = None, successor_fingerprint = None\<rparr>, pub_published_at = 0\<rparr>"

definition first_published :: Catalog where
  "first_published = (new_Catalog [1] None)\<lparr>publications := [((None, ''sales''), [first_publication])]\<rparr>"

lemma first_bundle_ids: "bundle_id first_bundle = ''sales''" "Bundle_Model.model_version first_bundle = ''v1''" "dependencies first_bundle = []"
  by (simp_all add: first_bundle_def sample_bundle_def)

lemma first_publish:
  "publish (new_Catalog [1] None) first_bundle None None None None None None None 0 =
    (first_published, Inr ((success_of PUBLISHED_OUTCOME first_bundle)\<lparr>co_idempotency := Some CREATED\<rparr>))"
proof -
  obtain v where v: "validate_bundle [1] None first_bundle = Inr v" "bv_valid v" using first_bundle_valid by blast
  define c where "c = new_Catalog [1] None"
  have empty: "pubs c k = []" "supported_versions c = [1]" for k by (simp_all add: c_def pubs_def new_Catalog_def)
  define r where "r = \<lparr>prs_bundle_id = bundle_id first_bundle, prs_bundle_fingerprint = bundle_fingerprint first_bundle, prs_manifest = None, prs_audit = None, prs_evidence = None, prs_binding = None, prs_audit_evidence = None\<rparr>"
  have pub: "publication_of first_bundle r None 0 = first_publication" "publication_ok first_publication"
    by (simp_all add: r_def publication_of_def first_publication_def publication_ok_def)
  have bare: "prs_audit r = None" "prs_evidence r = None" "prs_audit_evidence r = None" by (simp_all add: r_def)
  have appended: "append_publication c (None, ''sales'') first_publication = first_published"
    unfolding append_publication_def empty by (simp add: first_published_def c_def new_Catalog_def)
  have "publish_validated c (None, ''sales'') first_bundle r None 0 =
      (first_published, Inr ((success_of PUBLISHED_OUTCOME first_bundle)\<lparr>co_idempotency := Some CREATED\<rparr>))"
    by (simp add: publish_validated_def empty Let_def predecessor_of_def pub appended bare new_CatalogOutcome_def success_of_def)
  moreover have "publication_records_of first_bundle None None None None None = Inr r"
    by (simp add: publication_records_of_def build_publication_records_def validate_publication_integrity_def r_def)
  ultimately show ?thesis
    using v by (simp add: publish_def check_draft_binding_def expected_snapshot_fingerprint_def empty first_bundle_ids bare flip: c_def)
qed

lemma first_activation:
  "\<exists>c x. activate first_published ''sales'' ''v1'' None None None 1 = (c, Inr x) \<and> success_kind (co_kind x) \<and>
     active_bundle c ''sales'' None = Some first_bundle"
proof -
  obtain v where v: "validate_bundle [1] None first_bundle = Inr v" "bv_valid v" using first_bundle_valid by blast
  have found: "by_version first_published ''sales'' ''v1'' None = Some first_publication"
    by (simp add: by_version_def pubs_def first_published_def pub_version_def first_publication_def first_bundle_ids)
  have pub: "pub_bundle first_publication = first_bundle" "pub_state first_publication = AVAILABLE"
      "consistent_records (records_of first_publication)"
    by (simp_all add: first_publication_def records_of_def consistent_records_def)
  have "activation_checks first_published first_publication None None 1 = Inr ()"
    using v pub by (simp add: activation_checks_def bind_res_Inr_iff check_valid_bundle_def expected_snapshot_fingerprint_def
        check_production_def check_dependencies_def first_bundle_ids first_published_def new_Catalog_def)
  then have "activate first_published ''sales'' ''v1'' None None None 1 =
      (move_pointer first_published (None, ''sales'') first_publication, Inr (success_of ACTIVATED_OUTCOME first_bundle))"
    using pub by (simp add: activate_def found activate_publication_def build_pointer_audit_entry_def append_then_def
        new_CatalogOutcome_def success_of_def)
  then show ?thesis using pub by (simp add: active_bundle_def move_pointer_state)
qed

lemma first_ops_ok: "list_all op_ok first_ops" by (simp add: first_ops_def first_bundle_ok)

lemma first_active: "active_bundle (run_ops first_ops (new_Catalog [1] None)) ''sales'' None = Some first_bundle"
  using first_activation by (auto simp: run_ops_def first_ops_def first_publish)

theorem active_bundle_published_witness:
  "\<exists>p \<in> set (supersession_chain (run_ops first_ops (new_Catalog [1] None)) ''sales'' None). pub_bundle p = first_bundle \<and> pub_state p \<noteq> RETIRED"
  using active_bundle_published [OF first_ops_ok refl first_active] by blast

theorem published_content_immutable_witness:
  "\<exists>q. publication_by_fingerprint (run_ops first_ops (run_ops [hd first_ops] (new_Catalog [1] None))) ''sales''
         (bundle_fingerprint first_bundle) None = Some q \<and> pub_bundle q = first_bundle"
proof -
  have start: "run_ops [hd first_ops] (new_Catalog [1] None) = first_published"
    by (simp add: run_ops_def first_ops_def first_publish)
  have found: "publication_by_fingerprint first_published ''sales'' (bundle_fingerprint first_bundle) None = Some first_publication"
    by (simp add: publication_by_fingerprint_def pubs_def first_published_def pub_fingerprint_def first_publication_def)
  have "list_all op_ok [hd first_ops]" by (simp add: first_ops_def first_bundle_ok)
  from published_content_immutable [OF this first_ops_ok refl refl, of "[1]" None "''sales''", unfolded start, OF found]
  obtain q where "publication_by_fingerprint (run_ops first_ops first_published) ''sales'' (bundle_fingerprint first_bundle) None = Some q"
      "core q = core first_publication" by blast
  with core_eqD(1) [of q first_publication] start show ?thesis by (simp add: first_publication_def)
qed

theorem catalog_keys_isolated_witness:
  "pointer (run_ops [Publish first_bundle None None None None None None (Some ''other'') 5] (run_ops first_ops (new_Catalog [1] None)))
     (None, ''sales'') = pointer (run_ops first_ops (new_Catalog [1] None)) (None, ''sales'')"
proof -
  have "list_all op_ok [Publish first_bundle None None None None None None (Some ''other'') 5]" by (simp add: first_bundle_ok)
  from catalog_keys_isolated [OF first_ops_ok this refl, of "(None, ''sales'')" "[1]" None] show ?thesis by simp
qed

theorem failed_operation_changes_nothing_witness:
  "apply_op (Activate ''sales'' ''v2'' None None None 1) first_published = first_published \<and>
   (\<exists>x. outcome_of (Activate ''sales'' ''v2'' None None None 1) first_published = Some (Inr x) \<and> \<not> success_kind (co_kind x))"
proof -
  have "by_version first_published ''sales'' ''v2'' None = None"
    by (simp add: by_version_def pubs_def first_published_def pub_version_def first_publication_def first_bundle_ids)
  then have "\<exists>x. outcome_of (Activate ''sales'' ''v2'' None None None 1) first_published = Some (Inr x) \<and> \<not> success_kind (co_kind x)"
    by (simp add: activate_def failure_def failure_of_def new_CatalogOutcome_def bundle_issue_ok_def bundle_issue_def quoted_def
        MAX_CATALOG_ISSUES_def)
  with failed_operation_changes_nothing show ?thesis by blast
qed

theorem activation_requires_checks_witness:
  "\<exists>p \<in> set (supersession_chain first_published ''sales'' None). pub_bundle p = first_bundle \<and> publishable [1] None first_bundle"
proof -
  obtain c x where run: "activate first_published ''sales'' ''v1'' None None None 1 = (c, Inr x)" "success_kind (co_kind x)"
    using first_activation by blast
  have "catalog_get first_published ''sales'' ''v1'' None = Some first_bundle"
    by (simp add: catalog_get_def by_version_def pubs_def first_published_def pub_version_def first_publication_def first_bundle_ids)
  from activation_requires_checks [OF first_bundle_ok this run] show ?thesis
    by (auto simp: first_published_def new_Catalog_def expected_snapshot_fingerprint_def)
qed


end
