(* ===== verification/Spec2Isabelle.thy ===== *)
theory Spec2Isabelle
  imports Postgres_Fencing Result_Protection Memory_Context Join_Planner View_Resolution Bundle_Catalog
begin

text \<open>
  A verification development for nl2data-core, a framework that turns natural-language questions into governed,
  read-only data queries.  Paths are under \<^verbatim>\<open>src/src/\<close> unless they start with \<^verbatim>\<open>packages/\<close>, which is under
  \<^verbatim>\<open>src/\<close>.

  \<^bold>\<open>The program.\<close>  Metadata discovered in a backend becomes a snapshot.  Authors describe it by semantic assertions
  collected in drafts; a draft is reviewed, approved, verified by a suite of layers and published as an immutable
  semantic bundle in a catalog, where one version of a bundle id is active at a time.  A request resolves a view over
  the active model into a projection, the surface the caller may use.  The model provider sees a bounded context of
  that surface and recalled memory; its plan becomes a canonical query (IR), which is validated against the view,
  given a join plan, authorized by governance, compiled and run by an adapter; the adapter's result is protected
  before it is returned.  The run itself is a workflow: a versioned state with a bounded event history, kept in one of
  three stores and resumed from snapshots.  Every identity is a SHA-256 fingerprint of a canonical JSON text, and
  every failure that leaves the program is a redacted error record.

  \<^bold>\<open>Conventions.\<close>  A pydantic model is a record; its validators are a predicate \<open>..._ok\<close> (or \<open>..._valid\<close>), or a
  constructor \<open>new_...\<close> with the error as a value where the code can meet it.  A member that a model always recomputes
  from the others (a fingerprint) is a function of the record.  Fallible code returns a sum whose left side is the
  exception; code that changes state before it raises returns the state as well.  Strings are sequences of code points
  up to U+00FF, instants are microseconds, integers are unbounded as in Python, except the \<open>BIGINT\<close> columns of the
  PostgreSQL store and the 32-bit words of SHA-256.

  \<^bold>\<open>Foundations.\<close>
  \<^item> \<open>Nl2data_Prelude\<close>: dicts, results, identifier and fingerprint patterns, the proof collections, and the locales
    \<open>safe_system\<close> (a component whose steps keep an invariant) and \<open>spending_system\<close> (each step spends a bounded resource).
  \<^item> \<open>Errors\<close> (\<^verbatim>\<open>nl2data/errors.py\<close>, \<^verbatim>\<open>nl2data/_redact.py\<close>): error codes, redaction, \<open>as_error_record\<close>.  A public
    record never holds a sensitive, forbidden or long value.
  \<^item> \<open>Sha256\<close> and \<open>Canonical_Json\<close> (\<^verbatim>\<open>nl2data_core/canonical.py\<close>): the strict profile.  The encoder accepts
    exactly the JSON-safe payloads; equal fingerprints mean equal payloads or a SHA-256 collision.

  \<^bold>\<open>Workflow.\<close>
  \<^item> \<open>Workflow_State\<close> (\<^verbatim>\<open>workflow/models.py\<close>, \<^verbatim>\<open>transitions.py\<close>): \<open>transition\<close> and \<open>checkpoint\<close> as a step relation,
    interpreted as \<open>spending_system\<close>: version, history and budget invariants of every reachable workflow, a bound on
    the length of runs, and exactly when a workflow can still end.
  \<^item> \<open>Workflow_Snapshot\<close> (\<^verbatim>\<open>workflow/durable.py\<close>): restoring a snapshot returns the state it was made of.
  \<^item> \<open>Workflow_Store\<close> (\<^verbatim>\<open>workflow/store.py\<close>): the locales \<open>rewrite_store\<close> and \<open>state_store\<close> are the store protocol,
    with the guarantees of its clients; the in-memory store interprets them.
  \<^item> \<open>Sqlite_Store\<close> (\<^verbatim>\<open>workflow/sqlite_store.py\<close>): every operation over its two tables; the same protocol,
    tenant isolation, idempotency keys, bounded cleanup.
  \<^item> \<open>Shared_Errors\<close>, \<open>Postgres_Store\<close>, \<open>Postgres_Fencing\<close> (\<^verbatim>\<open>workflow/shared_errors.py\<close>, \<^verbatim>\<open>workflow/lease.py\<close>,
    \<^verbatim>\<open>packages/nl2data-workflow-postgres\<close>): the shared store with leases.  A call whose second statement sees a later
    database acts atomically on one of the two; along any history of several workers a superseded token never writes
    and a live lease excludes the others.
  \<^item> \<open>Result_Protection\<close> (\<^verbatim>\<open>workflow/protection.py\<close>): a protected result shows only columns, rows and bytes within the
    query and the policy.

  \<^bold>\<open>Memory and model context.\<close>
  \<^item> \<open>Memory_Model\<close>, \<open>Memory_Provider\<close> (\<^verbatim>\<open>memory/models.py\<close>, \<^verbatim>\<open>errors.py\<close>, \<^verbatim>\<open>inmemory.py\<close>): records and the provider;
    the locale \<open>memory_provider\<close> is the protocol.  Capacity, scope and budgets of recalls.
  \<^item> \<open>Memory_Context\<close> (\<^verbatim>\<open>memory/context.py\<close>, \<^verbatim>\<open>resolver.py\<close>): recalled records are projected only while current, and
    a failing provider degrades the turn and never raises.
  \<^item> \<open>Authorized_View\<close> (\<^verbatim>\<open>planning/validation.py\<close>, \<^verbatim>\<open>ai/context.py\<close>): the context names authorized members only.

  \<^bold>\<open>Queries.\<close>
  \<^item> \<open>Query_Expr\<close>, \<open>Query_IR\<close> (\<^verbatim>\<open>planning/ir/expressions.py\<close>, \<^verbatim>\<open>models.py\<close>): the grammar with its bounds; the canonical
    text identifies a query.
  \<^item> \<open>IR_Validation\<close> (\<^verbatim>\<open>planning/ir/validation.py\<close>): the checks find no issue exactly for the queries admissible under
    the view, a declarative predicate.
  \<^item> \<open>Join_Planner\<close> (\<^verbatim>\<open>planning/join_planner.py\<close>): the search refines the inductive notion of a shortest path, reports
    ambiguity exactly when there is another, always returns, and its plans are join trees.
  \<^item> \<open>Governance\<close> (\<^verbatim>\<open>governance/\<close>): default deny; an authorization verifies exactly for what it was issued.

  \<^bold>\<open>Semantic models.\<close>
  \<^item> \<open>Semantic_Descriptor\<close> (\<^verbatim>\<open>views/models.py\<close>): descriptors; type inference of calculated fields is sound.
  \<^item> \<open>View_Resolution\<close> (\<^verbatim>\<open>views/\<close>): the registry and its resolver.  A projection narrows the descriptor, and a query
    that validates against a resolved view names and aggregates only what the descriptor and the restrictions of the view allow.
  \<^item> \<open>Bundle_Model\<close> (\<^verbatim>\<open>bundles/models.py\<close>, \<^verbatim>\<open>validation.py\<close>): validation decides \<open>publishable\<close>.
  \<^item> \<open>Assembly_Model\<close>, \<open>Assembly_Lifecycle\<close> (\<^verbatim>\<open>assembly/models.py\<close>, \<^verbatim>\<open>lifecycle.py\<close>, \<^verbatim>\<open>authorization.py\<close>,
    \<^verbatim>\<open>separation.py\<close>, \<^verbatim>\<open>store.py\<close>): drafts as a \<open>safe_system\<close>; an approved draft is fully reviewed for the payloads it
    holds, and every change is guarded by revision, role and decision.
  \<^item> \<open>Audit_Trail\<close> (\<^verbatim>\<open>assembly/audit_evidence.py\<close>): walking a trail by its cursors visits every entry once.
  \<^item> \<open>Metadata_Snapshot\<close>, \<open>Metadata_Drift\<close> (\<^verbatim>\<open>metadata/models.py\<close>, \<^verbatim>\<open>compare.py\<close>, \<^verbatim>\<open>drift.py\<close>, \<^verbatim>\<open>policy.py\<close>): the payload
    of a snapshot identifies it up to order; drift blocks exactly on the listed breaking changes.

  \<^bold>\<open>Verification and publication.\<close>
  \<^item> \<open>Verification_Evidence\<close>, \<open>Verification_Plan\<close>, \<open>Structural_Verification\<close>, \<open>Verification_Suite\<close>
    (\<^verbatim>\<open>verification/\<close>, \<^verbatim>\<open>assembly/manifest.py\<close>): evidence, plans, the structural layer, the smoke and semantic
    evaluators with their execution cache, and the suite.  The structural layer passes exactly for an approved draft the
    bundle represents; the suite fails closed; passed evidence stays valid.
  \<^item> \<open>Publication_Records\<close> (\<^verbatim>\<open>bundles/publication.py\<close>, \<^verbatim>\<open>control_plane/publication/contracts.py\<close>): the integrity rules
    accept exactly the consistent record sets and agree with the cross links of an aggregate.
  \<^item> \<open>Bundle_Catalog\<close> (\<^verbatim>\<open>bundles/catalog.py\<close>): every operation of the catalog, a \<open>safe_system\<close>.  Active versions are
    published, valid, unretired and consistent; published content never changes; keys are isolated; failures change
    nothing; a rollback undoes an activation.

  \<^bold>\<open>Composition.\<close>  The stores are related by their common locale, and restore snapshots of the state machine.  The
  catalog is built on bundle validation, the publication records, the verification policies, the drift policy and the
  audit entries, and its theorems speak of their predicates.  A resolved view feeds the authorized view of query
  validation; result protection keeps to the selections of the query and the limits of its authorization.

  \<^bold>\<open>Parameters.\<close>  What the code receives from its host or environment is an argument: clocks, the identifiers of
  \<open>uuid4\<close>, the host's authorizer, the verification executor and whether a layer meets its deadline, the failures of the
  SQLite and PostgreSQL drivers at each statement, the order of rows without \<open>ORDER BY\<close> and of Python sets, the draft
  lookup of the catalog, the size of a memory record, the text of a float (\<open>repr\<close>).  No theorem assumes more of them
  than it states.

  \<^bold>\<open>Bounds and loops.\<close>  Loops are recursive functions with termination proofs, such as the join search.  The one loop whose end depends on what the search recorded, the
  rebuilding of a path, is a partial function with value \<open>None\<close> when it does not return, and is proved to return.
  A client's walk over the pages of an audit trail takes a number of calls as fuel; one more than the number of entries
  is enough, which its theorem shows.  Limits of the code (32 reasons, 200 entries of a page, 4096 audit entries, 4096 changes of a
  comparison, 64 issues) are kept, and where exceeding one raises, the model raises.

  \<^bold>\<open>Findings.\<close>  Where the code departs from its documentation or raises instead of returning its structured outcome, a
  theorem shows it on the model; these theorems close the theory of their component.

  \<^bold>\<open>Not modelled.\<close>  The workflow runtime and runner, the publication coordinator with its gates and the admin service
  sequence asynchronous calls of the modelled components, plugins and providers.  The SQL, MongoDB and PostgreSQL
  adapters build on third-party syntax trees and drivers, as the SQLite reference executor, the Redis provider and the
  PostgreSQL semantic catalog do on their clients.  AI resolution depends on model providers.  Metadata discovery and
  inference, assembly authoring and lint, the MDL importer, the plugin registry, tenancy models beyond the scope
  fingerprint, configuration, telemetry and the evaluation runner are conversions and glue around the modelled parts.
\<close>

end
